(* ===== verification/Mxl_Prelude.thy ===== *)
theory Mxl_Prelude
  imports Main "HOL-Library.List_Lexorder" "HOL-Library.Char_ord"
begin

section \<open>Prelude: Go errors, API effects, int64 arithmetic, time\<close>

text \<open>
  What every component of the operator shares. Errors are values of \<open>go_error\<close>; the
  predicates of \<^verbatim>\<open>k8s.io/apimachinery/pkg/api/errors\<close> look through
  \<^verbatim>\<open>fmt.Errorf("...: %w", err)\<close>, so wrapping is a constructor and
  \<open>isNotFound\<close> and \<open>isConflict\<close> recurse into it.

  The Kubernetes API server is not part of the repository. A reconciler therefore takes what
  its reads return as functions of its environment record, and what its writes answer as
  further functions of that record; the writes it issues are the log of the effect type
  \<open>('w, 'a) io\<close>: the list of writes, in order, and the error or the value the function
  returns.

  Integers of type \<^verbatim>\<open>int64\<close> are HOL integers with the wrap-around written out
  (\<open>i64\<close>). An instant is the number of nanoseconds since Go's zero time, so
  \<^verbatim>\<open>t.IsZero()\<close> is \<open>t = 0\<close>; a \<^verbatim>\<open>time.Duration\<close> is a number of nanoseconds.
\<close>

named_theorems io_simps \<open>equations of the effect type\<close>
named_theorems i64_simps \<open>int64 operations in range\<close>

subsection \<open>Errors\<close>

datatype go_error =
    ENotFound
  | EConflict
  | EAlreadyExists
  | EOther string
  | ESentinel string
  | EWrap string go_error

text \<open>\<open>ESentinel\<close> is a package variable made by \<^verbatim>\<open>errors.New\<close>, which \<^verbatim>\<open>errors.Is\<close> recognises
  through any wrapping. \<open>error_text\<close> is \<^verbatim>\<open>err.Error()\<close>; the text of an API status error is the API server's, and no
  definition depends on it beyond the two kinds that carry theirs.\<close>

fun errorIs :: "go_error \<Rightarrow> go_error \<Rightarrow> bool" where
  "errorIs (EWrap s e) target \<longleftrightarrow> EWrap s e = target \<or> errorIs e target"
| "errorIs e target \<longleftrightarrow> e = target"

fun error_text :: "go_error \<Rightarrow> string" where
  "error_text ENotFound = ''not found''"
| "error_text EConflict = ''conflict''"
| "error_text EAlreadyExists = ''already exists''"
| "error_text (EOther s) = s"
| "error_text (ESentinel s) = s"
| "error_text (EWrap s e) = s @ '': '' @ error_text e"

text \<open>\<^verbatim>\<open>strings.Contains\<close>.\<close>

fun contains :: "string \<Rightarrow> string \<Rightarrow> bool" where
  "contains sub [] \<longleftrightarrow> sub = []"
| "contains sub (c # cs) \<longleftrightarrow> take (length sub) (c # cs) = sub \<or> contains sub cs"

fun isNotFound :: "go_error \<Rightarrow> bool" where
  "isNotFound ENotFound = True"
| "isNotFound (EWrap _ e) = isNotFound e"
| "isNotFound _ = False"

fun isConflict :: "go_error \<Rightarrow> bool" where
  "isConflict EConflict = True"
| "isConflict (EWrap _ e) = isConflict e"
| "isConflict _ = False"

fun isAlreadyExists :: "go_error \<Rightarrow> bool" where
  "isAlreadyExists EAlreadyExists = True"
| "isAlreadyExists (EWrap _ e) = isAlreadyExists e"
| "isAlreadyExists _ = False"

lemma error_kinds_disjoint [simp]:
  "isNotFound e \<Longrightarrow> \<not> isConflict e" "isConflict e \<Longrightarrow> \<not> isNotFound e"
  by (induction e) auto

subsection \<open>Effects\<close>

type_synonym ('w, 'a) io = "'w list \<times> (go_error + 'a)"

definition io_ret :: "'a \<Rightarrow> ('w, 'a) io" where
  "io_ret x = ([], Inr x)"

definition io_fail :: "go_error \<Rightarrow> ('w, 'a) io" where
  "io_fail e = ([], Inl e)"

definition io_bind :: "('w, 'a) io \<Rightarrow> ('a \<Rightarrow> ('w, 'b) io) \<Rightarrow> ('w, 'b) io" where
  "io_bind m f = (case snd m of Inl e \<Rightarrow> (fst m, Inl e)
                  | Inr x \<Rightarrow> (fst m @ fst (f x), snd (f x)))"

text \<open>A read of the environment: no write, the error or the value.\<close>

definition io_read :: "go_error + 'a \<Rightarrow> ('w, 'a) io" where
  "io_read r = ([], r)"

text \<open>A write: logged whether it succeeds or not, answering what the environment says.\<close>

definition io_write :: "'w \<Rightarrow> go_error + 'a \<Rightarrow> ('w, 'a) io" where
  "io_write w r = ([w], r)"

text \<open>An error wrapped on the way out, \<^verbatim>\<open>fmt.Errorf("what: %w", err)\<close>.\<close>

definition io_wrap :: "string \<Rightarrow> ('w, 'a) io \<Rightarrow> ('w, 'a) io" where
  "io_wrap what m = (fst m, case snd m of Inl e \<Rightarrow> Inl (EWrap what e) | Inr x \<Rightarrow> Inr x)"

lemma io_basic [simp, io_simps]:
  "fst (io_ret x) = []" "snd (io_ret x) = Inr x"
  "fst (io_fail e) = []" "snd (io_fail e) = Inl e"
  "fst (io_read r) = []" "snd (io_read r) = r"
  "fst (io_write w r) = [w]" "snd (io_write w r) = r"
  "fst (io_wrap s m) = fst m"
  by (simp_all add: io_ret_def io_fail_def io_read_def io_write_def io_wrap_def)

lemma io_bind_ret [simp, io_simps]: "io_bind (io_ret x) f = f x"
  by (simp add: io_bind_def)

lemma io_bind_fail [simp, io_simps]: "io_bind (io_fail e) f = io_fail e"
  by (simp add: io_bind_def io_fail_def)

lemma io_bind_read [simp, io_simps]:
  "io_bind (io_read (Inr x)) f = f x" "io_bind (io_read (Inl e)) f = io_fail e"
  by (simp_all add: io_bind_def io_read_def io_fail_def)

lemma io_bind_wrap_read [simp, io_simps]:
  "io_bind (io_wrap s (io_read (Inr x))) f = f x"
  "io_bind (io_wrap s (io_read (Inl e))) f = io_fail (EWrap s e)"
  by (simp_all add: io_bind_def io_wrap_def io_read_def io_fail_def)

lemma io_bind_write [simp, io_simps]:
  "io_bind (io_write w (Inr x)) f = (w # fst (f x), snd (f x))"
  "io_bind (io_write w (Inl e)) f = ([w], Inl e)"
  by (simp_all add: io_bind_def io_write_def)

lemma io_bind_assoc: "io_bind (io_bind m f) g = io_bind m (\<lambda>x. io_bind (f x) g)"
  by (simp add: io_bind_def split: sum.splits)

text \<open>The writes of a sequence are the writes of its parts.\<close>

lemma set_fst_io_bind:
  "set (fst (io_bind m f)) \<subseteq> set (fst m) \<union> (case snd m of Inl _ \<Rightarrow> {} | Inr x \<Rightarrow> set (fst (f x)))"
  by (auto simp: io_bind_def split: sum.splits)

lemma io_bind_writes_iff:
  "w \<in> set (fst (io_bind m f)) \<longleftrightarrow> w \<in> set (fst m) \<or> (\<exists>x. snd m = Inr x \<and> w \<in> set (fst (f x)))"
  by (auto simp: io_bind_def split: sum.splits)

lemma io_bind_write_cases:
  assumes "w \<in> set (fst (io_bind m f))"
  obtains "w \<in> set (fst m)" | x where "snd m = Inr x" "w \<in> set (fst (f x))"
  using assms by (auto simp: io_bind_def split: sum.splits)

lemma io_bind_ret_writes [simp]: "fst (io_bind m (\<lambda>_. io_ret r)) = fst m"
  by (simp add: io_bind_def split: sum.splits)

lemma io_bind_ret_Inr: "snd (io_bind m (\<lambda>_. io_ret r)) = Inr x \<Longrightarrow> x = r"
  by (auto simp: io_bind_def split: sum.splits)

definition ignoreNotFound :: "go_error + unit \<Rightarrow> go_error + unit" where
  "ignoreNotFound r = (case r of Inl e \<Rightarrow> if isNotFound e then Inr () else Inl e | Inr x \<Rightarrow> Inr x)"

lemma io_bind_const_snd:
  "snd (io_bind m (\<lambda>_. io_ret r)) = (case snd m of Inl e \<Rightarrow> Inl e | Inr _ \<Rightarrow> Inr r)"
  by (simp add: io_bind_def split: sum.splits)

text \<open>A call whose error the caller inspects, and a loop that stops at the first error.\<close>

definition io_try :: "('w, 'a) io \<Rightarrow> (go_error + 'a \<Rightarrow> ('w, 'b) io) \<Rightarrow> ('w, 'b) io" where
  "io_try m f = (fst m @ fst (f (snd m)), snd (f (snd m)))"

fun io_each :: "('a \<Rightarrow> ('w, unit) io) \<Rightarrow> 'a list \<Rightarrow> ('w, unit) io" where
  "io_each f [] = io_ret ()"
| "io_each f (x # xs) = io_bind (f x) (\<lambda>_. io_each f xs)"

lemma io_try_simps [simp, io_simps]:
  "fst (io_try m f) = fst m @ fst (f (snd m))" "snd (io_try m f) = snd (f (snd m))"
  by (simp_all add: io_try_def)

lemma io_each_writes: "w \<in> set (fst (io_each f xs)) \<Longrightarrow> \<exists>x \<in> set xs. w \<in> set (fst (f x))"
proof (induction xs)
  case (Cons x xs)
  from Cons.prems have "w \<in> set (fst (io_bind (f x) (\<lambda>_. io_each f xs)))" by simp
  then show ?case by (rule io_bind_write_cases) (use Cons.IH in auto)
qed simp

lemma io_bind_okE:
  assumes "snd (io_bind m f) = Inr y"
  obtains x where "snd m = Inr x" "snd (f x) = Inr y" "fst (io_bind m f) = fst m @ fst (f x)"
  using assms by (auto simp: io_bind_def split: sum.splits)

lemma io_each_ok: "snd (io_each f xs) = Inr u \<Longrightarrow> x \<in> set xs \<Longrightarrow> snd (f x) = Inr ()"
  by (induction xs) (auto elim!: io_bind_okE)

text \<open>
  \<^verbatim>\<open>retry.RetryOnConflict\<close> of client-go is a parameter of the definitions that call it: a function
  of the attempts (numbered, since their reads and replies may differ). \<open>retry_ok\<close> is what callers
  rely on: it makes no write of its own, and answers what one of the attempts answered.
  \<open>bounded_retry\<close>, which repeats an attempt that lost to a concurrent write, satisfies it.
\<close>

definition retry_ok :: "((nat \<Rightarrow> ('w, 'a) io) \<Rightarrow> ('w, 'a) io) \<Rightarrow> bool" where
  "retry_ok retry \<longleftrightarrow>
     (\<forall>f. \<forall>w \<in> set (fst (retry f)). \<exists>i. w \<in> set (fst (f i))) \<and> (\<forall>f. \<exists>i. snd (retry f) = snd (f i))"

fun bounded_retry :: "nat \<Rightarrow> nat \<Rightarrow> (nat \<Rightarrow> ('w, 'a) io) \<Rightarrow> ('w, 'a) io" where
  "bounded_retry 0 i f = f i"
| "bounded_retry (Suc n) i f =
     (case snd (f i) of
        Inl e \<Rightarrow> if isConflict e then (fst (f i) @ fst (bounded_retry n (Suc i) f), snd (bounded_retry n (Suc i) f))
                 else f i
      | Inr _ \<Rightarrow> f i)"

lemma bounded_retry_writes: "w \<in> set (fst (bounded_retry n i f)) \<Longrightarrow> \<exists>j. w \<in> set (fst (f j))"
  by (induction n arbitrary: i) (auto split: sum.splits if_splits)

lemma bounded_retry_answer: "\<exists>j. snd (bounded_retry n i f) = snd (f j)"
proof (induction n arbitrary: i)
  case (Suc n)
  have "snd (bounded_retry (Suc n) i f) \<in> {snd (f i), snd (bounded_retry n (Suc i) f)}"
    by (simp split: sum.splits)
  with Suc[of "Suc i"] show ?case by (metis insertE singletonD)
qed auto

lemma bounded_retry_ok: "retry_ok (bounded_retry n i)"
  unfolding retry_ok_def by (intro conjI allI ballI) (rule bounded_retry_writes, assumption, rule bounded_retry_answer)

lemma retry_writes: "retry_ok retry \<Longrightarrow> w \<in> set (fst (retry f)) \<Longrightarrow> \<exists>i. w \<in> set (fst (f i))"
  by (simp add: retry_ok_def)

text \<open>The documented behaviour in full: the attempts run in order, each after the one before it answered
  a conflict, and the answer is the last one's.\<close>

definition retry_runs :: "((nat \<Rightarrow> ('w, 'a) io) \<Rightarrow> ('w, 'a) io) \<Rightarrow> bool" where
  "retry_runs retry \<longleftrightarrow>
     (\<forall>f. \<exists>n. fst (retry f) = concat (map (\<lambda>i. fst (f i)) [0..<Suc n]) \<and> snd (retry f) = snd (f n) \<and>
        (\<forall>i < n. \<exists>e. snd (f i) = Inl e \<and> isConflict e))"

lemma retry_runsE:
  assumes "retry_runs retry"
  obtains n where "fst (retry f) = concat (map (\<lambda>i. fst (f i)) [0..<Suc n])" "snd (retry f) = snd (f n)"
    "\<And>i. i < n \<Longrightarrow> \<exists>e. snd (f i) = Inl e \<and> isConflict e"
  using assms unfolding retry_runs_def by blast

lemma retry_runs_write:
  assumes "retry_runs retry" "w \<in> set (fst (retry f))"
  obtains i where "w \<in> set (fst (f i))" "\<And>j. j < i \<Longrightarrow> \<exists>e. snd (f j) = Inl e \<and> isConflict e"
proof -
  obtain n where n: "fst (retry f) = concat (map (\<lambda>i. fst (f i)) [0..<Suc n])"
    "\<And>i. i < n \<Longrightarrow> \<exists>e. snd (f i) = Inl e \<and> isConflict e"
    using assms(1) by (rule retry_runsE[of retry f]) blast
  have "\<exists>i \<in> set [0..<Suc n]. w \<in> set (fst (f i))" using assms(2) unfolding n(1) by (simp del: upt_Suc)
  then obtain i where "i < Suc n" "w \<in> set (fst (f i))" by (auto simp del: upt_Suc)
  then show thesis using n(2) by (intro that[of i]) auto
qed

lemma bounded_retry_runs_from:
  "\<exists>m. fst (bounded_retry n i f) = concat (map (\<lambda>j. fst (f j)) [i..<Suc (i + m)]) \<and>
       snd (bounded_retry n i f) = snd (f (i + m)) \<and> (\<forall>j. i \<le> j \<and> j < i + m \<longrightarrow> (\<exists>e. snd (f j) = Inl e \<and> isConflict e))"
proof (induction n arbitrary: i)
  case 0
  show ?case by (rule exI[of _ 0]) auto
next
  case (Suc n)
  show ?case
  proof (cases "\<exists>e. snd (f i) = Inl e \<and> isConflict e")
    case True
    then obtain e where e: "snd (f i) = Inl e" "isConflict e" by blast
    obtain m where m: "fst (bounded_retry n (Suc i) f) = concat (map (\<lambda>j. fst (f j)) [Suc i..<Suc (Suc i + m)])"
      "snd (bounded_retry n (Suc i) f) = snd (f (Suc i + m))"
      "\<forall>j. Suc i \<le> j \<and> j < Suc i + m \<longrightarrow> (\<exists>e. snd (f j) = Inl e \<and> isConflict e)"
      using Suc.IH[of "Suc i"] by blast
    have "[i..<Suc (i + Suc m)] = i # [Suc i..<Suc (Suc i + m)]" by (simp add: upt_conv_Cons)
    moreover have "\<forall>j. i \<le> j \<and> j < i + Suc m \<longrightarrow> (\<exists>e. snd (f j) = Inl e \<and> isConflict e)"
      using m(3) e by (metis Suc_leI add_Suc add_Suc_right le_neq_implies_less)
    ultimately show ?thesis using e m by (intro exI[of _ "Suc m"]) (simp del: upt_Suc)
  next
    case False
    then have "bounded_retry (Suc n) i f = f i" by (auto split: sum.splits)
    then show ?thesis by (intro exI[of _ 0]) auto
  qed
qed

lemma bounded_retry_runs: "retry_runs (bounded_retry n 0)"
  unfolding retry_runs_def
proof
  show "\<exists>na. fst (bounded_retry n 0 f) = concat (map (\<lambda>i. fst (f i)) [0..<Suc na]) \<and>
      snd (bounded_retry n 0 f) = snd (f na) \<and> (\<forall>i < na. \<exists>e. snd (f i) = Inl e \<and> isConflict e)" for f :: "nat \<Rightarrow> ('a, 'b) io"
    using bounded_retry_runs_from[of n 0 f] by (simp del: upt_Suc)
qed

subsection \<open>int64\<close>

definition i64 :: "int \<Rightarrow> int" where
  "i64 x = (x + 2 ^ 63) mod 2 ^ 64 - 2 ^ 63"

definition maxInt64 :: int where
  "maxInt64 = 2 ^ 63 - 1"

abbreviation in_i64 :: "int \<Rightarrow> bool" where
  "in_i64 x \<equiv> - (2 ^ 63) \<le> x \<and> x < 2 ^ 63"

definition add64 :: "int \<Rightarrow> int \<Rightarrow> int" where
  "add64 a b = i64 (a + b)"

definition sub64 :: "int \<Rightarrow> int \<Rightarrow> int" where
  "sub64 a b = i64 (a - b)"

definition mul64 :: "int \<Rightarrow> int \<Rightarrow> int" where
  "mul64 a b = i64 (a * b)"

text \<open>Go's division truncates towards zero.\<close>

definition quot64 :: "int \<Rightarrow> int \<Rightarrow> int" where
  "quot64 a b = sgn a * sgn b * (\<bar>a\<bar> div \<bar>b\<bar>)"

lemma i64_id [simp, i64_simps]: "in_i64 x \<Longrightarrow> i64 x = x"
  by (simp add: i64_def)

lemma i64_range: "in_i64 (i64 x)"
proof -
  have "0 \<le> (x + 2 ^ 63) mod (2 ^ 64 :: int)" "(x + 2 ^ 63) mod (2 ^ 64 :: int) < 2 ^ 64"
    by simp_all
  then show ?thesis by (simp add: i64_def)
qed

lemma add64_id [i64_simps]: "in_i64 (a + b) \<Longrightarrow> add64 a b = a + b"
  by (simp add: add64_def)

lemma sub64_id [i64_simps]: "in_i64 (a - b) \<Longrightarrow> sub64 a b = a - b"
  by (simp add: sub64_def)

lemma mul64_id [i64_simps]: "in_i64 (a * b) \<Longrightarrow> mul64 a b = a * b"
  by (simp add: mul64_def)

lemma quot64_nonneg [i64_simps]: "0 \<le> a \<Longrightarrow> 0 < b \<Longrightarrow> quot64 a b = a div b"
  by (cases "a = 0") (simp_all add: quot64_def)

lemma add64_commute: "add64 a b = add64 b a"
  by (simp add: add64_def add.commute)

lemma i64_add_left: "i64 (i64 a + b) = i64 (a + b)"
proof -
  have "(i64 a + b + 2 ^ 63) mod 2 ^ 64 = ((a + 2 ^ 63) mod 2 ^ 64 + b) mod (2 ^ 64 :: int)"
    by (simp add: i64_def algebra_simps)
  also have "\<dots> = (a + b + 2 ^ 63) mod 2 ^ 64"
    by (simp only: mod_add_left_eq) (simp add: algebra_simps)
  finally show ?thesis by (simp add: i64_def)
qed

lemma add64_assoc: "add64 (add64 a b) c = add64 a (add64 b c)"
proof -
  have "add64 (add64 a b) c = i64 (a + b + c)"
    by (simp add: add64_def i64_add_left)
  also have "\<dots> = add64 a (add64 b c)"
    using i64_add_left[of "b + c" a] by (simp add: add64_def ac_simps)
  finally show ?thesis .
qed

subsection \<open>Time\<close>

type_synonym time = int
type_synonym duration = int

definition second :: duration where
  "second = 1000000000"

definition millisecond :: duration where
  "millisecond = 1000000"

text \<open>\<^verbatim>\<open>t.Sub(u)\<close> saturates at the ends of \<^verbatim>\<open>time.Duration\<close>.\<close>

definition time_sub :: "time \<Rightarrow> time \<Rightarrow> duration" where
  "time_sub t u = max (- (2 ^ 63)) (min maxInt64 (t - u))"

lemma time_sub_pos_iff [simp]: "0 < time_sub t u \<longleftrightarrow> u < t"
  by (auto simp: time_sub_def maxInt64_def)

lemma time_sub_id: "in_i64 (t - u) \<Longrightarrow> time_sub t u = t - u"
  by (simp add: time_sub_def maxInt64_def)

lemma time_sub_le_iff: "in_i64 d \<Longrightarrow> d \<noteq> maxInt64 \<Longrightarrow> time_sub t u \<le> d \<longleftrightarrow> d \<ge> - (2 ^ 63) \<and> t - u \<le> d"
  by (auto simp: time_sub_def maxInt64_def)

text \<open>\<^verbatim>\<open>Format(time.RFC3339)\<close> keeps whole seconds.\<close>

definition rfc3339 :: "time \<Rightarrow> time" where
  "rfc3339 t = t - t mod second"

subsection \<open>Decimal numbers\<close>

definition digit :: "nat \<Rightarrow> char" where
  "digit n = ''0123456789'' ! (n mod 10)"

fun show_nat :: "nat \<Rightarrow> string" where
  "show_nat n = (if n < 10 then [digit n] else show_nat (n div 10) @ [digit n])"

declare show_nat.simps [simp del]

text \<open>The verb \<^verbatim>\<open>%d\<close>.\<close>

definition show_int :: "int \<Rightarrow> string" where
  "show_int i = (if i < 0 then ''-'' @ show_nat (nat (- i)) else show_nat (nat i))"

lemma digit_mod: "digit n \<in> set ''0123456789''"
  unfolding digit_def by (rule nth_mem) simp

lemma digit_eq: "digit m = digit n \<longleftrightarrow> m mod 10 = n mod 10"
proof -
  have "distinct ''0123456789''" by simp
  then show ?thesis unfolding digit_def by (subst nth_eq_iff_index_eq) simp_all
qed

lemma show_nat_chars: "set (show_nat n) \<subseteq> set ''0123456789''"
proof (induction n rule: show_nat.induct)
  case (1 n)
  then show ?case using digit_mod[of n] by (subst show_nat.simps) auto
qed

lemma show_nat_nonempty: "show_nat n \<noteq> []"
  by (subst show_nat.simps) simp

lemma show_nat_inj: "show_nat m = show_nat n \<Longrightarrow> m = n"
proof (induction m arbitrary: n rule: show_nat.induct)
  case (1 m)
  show ?case
  proof (cases "m < 10 \<or> n < 10")
    case True
    then show ?thesis using "1.prems" show_nat_nonempty[of "m div 10"] show_nat_nonempty[of "n div 10"]
      by (subst (asm) (1 2) show_nat.simps) (auto simp: digit_eq split: if_splits)
  next
    case False
    then have "show_nat (m div 10) = show_nat (n div 10)" "m mod 10 = n mod 10"
      using "1.prems" by (subst (asm) (1 2) show_nat.simps, simp add: digit_eq)+
    with "1.IH"[of "n div 10"] False have "m div 10 = n div 10" "m mod 10 = n mod 10" by simp_all
    then show ?thesis by (metis div_mult_mod_eq)
  qed
qed

lemma show_int_inj: "show_int i = show_int j \<Longrightarrow> i = j"
proof -
  have "show_nat m \<noteq> CHR ''-'' # xs" for m xs using show_nat_chars[of m] by auto
  then have minus: "show_nat m \<noteq> CHR ''-'' # xs" "CHR ''-'' # xs \<noteq> show_nat m" for m xs by metis+
  assume "show_int i = show_int j"
  then show "i = j" using minus by (cases "i < 0"; cases "j < 0") (simp_all add: show_int_def, (drule show_nat_inj, simp)+)
qed

lemma show_int_chars:
  assumes "c \<notin> set ''-0123456789''" shows "c \<notin> set (show_int i)"
proof -
  have c: "c \<noteq> CHR ''-''" "c \<notin> set ''0123456789''" using assms by simp_all
  have "set (show_int i) = (if i < 0 then insert CHR ''-'' (set (show_nat (nat (- i)))) else set (show_nat (nat i)))" by (simp add: show_int_def)
  then have "c \<in> set (show_int i) \<Longrightarrow> c \<in> set (show_nat (nat (- i))) \<or> c \<in> set (show_nat (nat i))" using c(1) by (metis insertE)
  then show ?thesis using c(2) subsetD[OF show_nat_chars] by blast
qed

lemma cut_at: "c \<notin> set u \<Longrightarrow> c \<notin> set v \<Longrightarrow> u @ c # r = v @ c # r' \<longleftrightarrow> u = v \<and> r = r'"
proof (induction u arbitrary: v)
  case Nil
  then show ?case by (cases v) auto
next
  case (Cons a u)
  then show ?case by (cases v) auto
qed

text \<open>A number up to a character that is not part of one.\<close>

lemma show_int_cut [simp]:
  "c \<notin> set ''-0123456789'' \<Longrightarrow> show_int i @ c # r = show_int j @ c # r' \<longleftrightarrow> i = j \<and> r = r'"
  using cut_at[OF show_int_chars[of c i] show_int_chars[of c j], of r r'] show_int_inj[of i j] by blast

text \<open>\<^verbatim>\<open>strings.Join\<close>.\<close>

definition join_with :: "string \<Rightarrow> string list \<Rightarrow> string" where
  "join_with sep ss = (case ss of [] \<Rightarrow> '''' | s # rest \<Rightarrow> s @ concat (map (\<lambda>t. sep @ t) rest))"

subsection \<open>Lists\<close>

text \<open>The first element of a list that a Go loop returns on.\<close>

fun find_first :: "('a \<Rightarrow> bool) \<Rightarrow> 'a list \<Rightarrow> 'a option" where
  "find_first P [] = None"
| "find_first P (x # xs) = (if P x then Some x else find_first P xs)"

lemma find_first_SomeD: "find_first P xs = Some x \<Longrightarrow> x \<in> set xs \<and> P x"
  by (induction xs) (auto split: if_splits)

lemma find_first_split:
  "find_first P xs = Some x \<Longrightarrow> \<exists>us vs. xs = us @ x # vs \<and> P x \<and> (\<forall>u \<in> set us. \<not> P u)"
proof (induction xs)
  case (Cons y ys)
  show ?case
  proof (cases "P y")
    case True
    with Cons.prems have "y # ys = [] @ x # ys \<and> P x \<and> (\<forall>u \<in> set []. \<not> P u)" by simp
    then show ?thesis by blast
  next
    case False
    with Cons obtain us vs where "ys = us @ x # vs" "P x" "\<forall>u \<in> set us. \<not> P u" by auto
    with False have "y # ys = (y # us) @ x # vs \<and> P x \<and> (\<forall>u \<in> set (y # us). \<not> P u)" by simp
    then show ?thesis by blast
  qed
qed simp

lemma find_first_None_iff: "find_first P xs = None \<longleftrightarrow> (\<forall>x \<in> set xs. \<not> P x)"
  by (induction xs) auto

end
