(* ===== verification/Mxl_Names.thy ===== *)
theory Mxl_Names
  imports Mxl_Prelude
begin

section \<open>Object names: flows, mirrors and Origin Leases\<close>

text \<open>
  The naming rules of \<^verbatim>\<open>api/v1alpha1\<close>: \<open>FlowRef\<close> and its object name
  (flowref.go), the mirror name both creators of a mirror derive (mirror.go) and the Lease
  name the agent writes and the operator reads (lease.go). Names are ASCII: the API server
  admits nothing else in an object name.

  Shown here: the encoders and the parsers are inverse to each other on the names the API
  server admits, a mirror name is always a DNS-safe string and tells two mirrors of a domain
  apart, and the two inputs on which they do not.
\<close>

subsection \<open>FlowRef\<close>

record FlowRef =
  ref_domain :: string
  ref_id :: string

definition domainSeparator :: char where
  "domainSeparator = CHR ''.''"

definition flowref_name :: "FlowRef \<Rightarrow> string" where
  "flowref_name r =
     (if ref_domain r = '''' then ref_id r
      else ref_domain r @ [domainSeparator] @ ref_id r)"

text \<open>\<^verbatim>\<open>strings.LastIndex\<close> with a one-byte separator.\<close>

fun lastIndex :: "char \<Rightarrow> string \<Rightarrow> nat option" where
  "lastIndex c [] = None"
| "lastIndex c (x # xs) =
     (case lastIndex c xs of
        Some i \<Rightarrow> Some (Suc i)
      | None \<Rightarrow> if x = c then Some 0 else None)"

definition parseFlowName :: "string \<Rightarrow> FlowRef" where
  "parseFlowName name =
     (case lastIndex domainSeparator name of
        Some i \<Rightarrow> \<lparr>ref_domain = take i name, ref_id = drop (i + 1) name\<rparr>
      | None \<Rightarrow> \<lparr>ref_domain = '''', ref_id = name\<rparr>)"

lemma lastIndex_None_iff: "lastIndex c xs = None \<longleftrightarrow> c \<notin> set xs"
  by (induction xs) (auto split: option.splits)

lemma lastIndex_append: "c \<notin> set ys \<Longrightarrow> lastIndex c (xs @ c # ys) = Some (length xs)"
  by (induction xs) (simp_all add: lastIndex_None_iff [THEN iffD2])

lemma lastIndex_SomeD: "lastIndex c xs = Some i \<Longrightarrow> i < length xs \<and> xs ! i = c"
  by (induction xs arbitrary: i) (auto split: option.splits if_splits)

subsection \<open>Mirror names\<close>

text \<open>\<^verbatim>\<open>strings.ToLower\<close> on ASCII.\<close>

definition toLower :: "char \<Rightarrow> char" where
  "toLower c = (if 65 \<le> (of_char c :: nat) \<and> (of_char c :: nat) \<le> 90
                then char_of ((of_char c :: nat) + 32) else c)"

definition is_lower_alnum :: "char \<Rightarrow> bool" where
  "is_lower_alnum c \<longleftrightarrow> (CHR ''a'' \<le> c \<and> c \<le> CHR ''z'') \<or> (CHR ''0'' \<le> c \<and> c \<le> CHR ''9'')"

text \<open>The switch of the loop: a rune of \<^verbatim>\<open>[a-z0-9-]\<close> is kept, any other becomes a dash.\<close>

definition mirrorRune :: "char \<Rightarrow> char" where
  "mirrorRune c = (if is_lower_alnum c \<or> c = CHR ''-'' then c else CHR ''-'')"

definition mirrorNameFor :: "FlowRef \<Rightarrow> string \<Rightarrow> string" where
  "mirrorNameFor ref targetNode =
     map mirrorRune (map toLower (flowref_name ref @ ''--'' @ targetNode))"

definition mirrorName :: "string \<Rightarrow> string \<Rightarrow> string" where
  "mirrorName flowID targetNode = mirrorNameFor \<lparr>ref_domain = '''', ref_id = flowID\<rparr> targetNode"

definition dns_char :: "char \<Rightarrow> bool" where
  "dns_char c \<longleftrightarrow> is_lower_alnum c \<or> c = CHR ''-''"

lemma mirrorRune_dns [simp]: "dns_char (mirrorRune c)"
  by (simp add: mirrorRune_def dns_char_def)

lemma toLower_id: "is_lower_alnum c \<or> c = CHR ''-'' \<or> c = CHR ''.'' \<Longrightarrow> toLower c = c"
  by (auto simp: toLower_def is_lower_alnum_def less_eq_char_def)

lemma mirrorRune_toLower_id: "dns_char c \<Longrightarrow> mirrorRune (toLower c) = c"
  by (auto simp: dns_char_def toLower_id mirrorRune_def)

lemma map_mirrorRune_id: "list_all dns_char s \<Longrightarrow> map mirrorRune (map toLower s) = s"
  by (induction s) (simp_all add: mirrorRune_toLower_id)

subsection \<open>Flow ids and Lease names\<close>

definition flowIDLength :: nat where
  "flowIDLength = 36"

definition is_lower_hex :: "char \<Rightarrow> bool" where
  "is_lower_hex c \<longleftrightarrow> (CHR ''0'' \<le> c \<and> c \<le> CHR ''9'') \<or> (CHR ''a'' \<le> c \<and> c \<le> CHR ''f'')"

text \<open>\<^verbatim>\<open>FlowIDPattern\<close>: 8-4-4-4-12 lower case hexadecimal digits.\<close>

definition matchesFlowID :: "string \<Rightarrow> bool" where
  "matchesFlowID s \<longleftrightarrow>
     length s = 36 \<and>
     list_all (\<lambda>(i, c). if i \<in> set [8, 13, 18, 23] then c = CHR ''-'' else is_lower_hex c)
       (zip [0..<36] s)"

definition leaseNamePrefix :: string where
  "leaseNamePrefix = ''mxl-flow-''"

definition leaseName :: "string \<Rightarrow> string \<Rightarrow> string" where
  "leaseName flowID nodeName = leaseNamePrefix @ flowID @ ''-'' @ nodeName"

definition leaseNameFor :: "FlowRef \<Rightarrow> string \<Rightarrow> string" where
  "leaseNameFor ref nodeName = leaseNamePrefix @ flowref_name ref @ ''-'' @ nodeName"

text \<open>\<^verbatim>\<open>strings.CutPrefix\<close>.\<close>

definition cutPrefix :: "string \<Rightarrow> string \<Rightarrow> string \<times> bool" where
  "cutPrefix s p = (if take (length p) s = p then (drop (length p) s, True) else (s, False))"

definition parseLeaseName :: "string \<Rightarrow> string \<times> string \<times> bool" where
  "parseLeaseName name =
     (case cutPrefix name leaseNamePrefix of (rest, found) \<Rightarrow>
        if \<not> found \<or> length rest < flowIDLength + 2 \<or> rest ! flowIDLength \<noteq> CHR ''-''
        then ('''', '''', False)
        else let flowID = take flowIDLength rest; nodeName = drop (flowIDLength + 1) rest
             in if \<not> matchesFlowID flowID then ('''', '''', False)
                else (flowID, nodeName, True))"

text \<open>The loop over the dots of the rest: the first one a flow id follows ends the domain.\<close>

definition leaseTail :: "string \<Rightarrow> bool" where
  "leaseTail cand \<longleftrightarrow>
     flowIDLength + 2 \<le> length cand \<and> cand ! flowIDLength = CHR ''-'' \<and>
     matchesFlowID (take flowIDLength cand)"

fun splitDomain :: "string \<Rightarrow> string \<Rightarrow> string \<times> string" where
  "splitDomain rest0 [] = ('''', rest0)"
| "splitDomain rest0 (c # cs) =
     (if c = domainSeparator \<and> leaseTail cs
      then (take (length rest0 - length cs - 1) rest0, cs)
      else splitDomain rest0 cs)"

definition parseLeaseNameFor :: "string \<Rightarrow> FlowRef \<times> string \<times> bool" where
  "parseLeaseNameFor name =
     (case cutPrefix name leaseNamePrefix of (rest, found) \<Rightarrow>
        if \<not> found then (\<lparr>ref_domain = '''', ref_id = ''''\<rparr>, '''', False)
        else (case splitDomain rest rest of (domain, rest') \<Rightarrow>
          (case parseLeaseName (leaseNamePrefix @ rest') of (id', node, ok) \<Rightarrow>
             if \<not> ok then (\<lparr>ref_domain = '''', ref_id = ''''\<rparr>, '''', False)
             else (\<lparr>ref_domain = domain, ref_id = id'\<rparr>, node, True))))"

subsection \<open>Helper lemmas\<close>

lemma flowid_length: "matchesFlowID s \<Longrightarrow> length s = flowIDLength"
  by (simp add: matchesFlowID_def flowIDLength_def)

lemma flowid_char:
  assumes "matchesFlowID s" "c \<in> set s"
  shows "c = CHR ''-'' \<or> is_lower_hex c"
proof -
  from assms(2) obtain i where i: "i < length s" "s ! i = c" by (auto simp: in_set_conv_nth)
  with assms(1) have "(i, c) \<in> set (zip [0..<36] s)"
    by (auto simp: matchesFlowID_def set_zip intro!: exI[of _ i])
  with assms(1) show ?thesis
    by (auto simp: matchesFlowID_def list_all_iff split: if_splits)
qed

lemma flowid_no_dot: "matchesFlowID s \<Longrightarrow> domainSeparator \<notin> set s"
  by (auto dest: flowid_char simp: domainSeparator_def is_lower_hex_def less_eq_char_def)

lemma flowid_dns: "matchesFlowID s \<Longrightarrow> list_all dns_char s"
  by (auto simp: list_all_iff dns_char_def is_lower_alnum_def is_lower_hex_def less_eq_char_def
      dest!: flowid_char)

lemma cutPrefix_append [simp]: "cutPrefix (p @ s) p = (s, True)"
  by (simp add: cutPrefix_def)

lemma cutPrefix_TrueD: "cutPrefix s p = (r, True) \<Longrightarrow> s = p @ r"
  by (auto simp: cutPrefix_def split: if_splits) (metis append_take_drop_id)

lemma parseLeaseName_eq:
  "parseLeaseName (leaseNamePrefix @ rest) =
     (if leaseTail rest then (take flowIDLength rest, drop (flowIDLength + 1) rest, True)
      else ('''', '''', False))"
  by (auto simp: parseLeaseName_def leaseTail_def Let_def)

lemma leaseTail_intro: "matchesFlowID id' \<Longrightarrow> node \<noteq> '''' \<Longrightarrow> leaseTail (id' @ ''-'' @ node)"
  by (cases node) (simp_all add: leaseTail_def flowid_length nth_append)

lemma leaseTail_decompose:
  "leaseTail s \<Longrightarrow> take flowIDLength s @ ''-'' @ drop (flowIDLength + 1) s = s"
proof -
  assume t: "leaseTail s"
  then have "flowIDLength < length s" "s ! flowIDLength = CHR ''-''" by (auto simp: leaseTail_def)
  then show ?thesis using id_take_nth_drop[of flowIDLength s] by simp
qed

lemma splitDomain_skip:
  "\<forall>i < length xs. xs ! i = domainSeparator \<longrightarrow> \<not> leaseTail (drop (i + 1) xs @ ys) \<Longrightarrow>
   splitDomain r (xs @ ys) = splitDomain r ys"
proof (induction xs)
  case (Cons x xs)
  have "\<forall>i < length xs. xs ! i = domainSeparator \<longrightarrow> \<not> leaseTail (drop (i + 1) xs @ ys)"
  proof (intro allI impI)
    fix i assume "i < length xs" "xs ! i = domainSeparator"
    with Cons.prems show "\<not> leaseTail (drop (i + 1) xs @ ys)"
      by (auto dest!: spec[of _ "Suc i"])
  qed
  moreover have "\<not> (x = domainSeparator \<and> leaseTail (xs @ ys))"
    using Cons.prems by (auto dest!: spec[of _ 0])
  ultimately show ?case using Cons.IH by auto
qed simp

lemma splitDomain_noDot:
  assumes "domainSeparator \<notin> set xs"
  shows "splitDomain r (xs @ ys) = splitDomain r ys"
proof (rule splitDomain_skip, intro allI impI)
  fix i assume "i < length xs" "xs ! i = domainSeparator"
  with assms show "\<not> leaseTail (drop (i + 1) xs @ ys)" by (metis nth_mem)
qed

text \<open>A node name no dot of which is followed by something that reads as a flow id and a node.\<close>

definition plainNode :: "string \<Rightarrow> bool" where
  "plainNode node \<longleftrightarrow>
     list_all (\<lambda>i. node ! i = domainSeparator \<longrightarrow> \<not> leaseTail (drop (i + 1) node)) [0..<length node]"

lemma splitDomain_plain: "plainNode node \<Longrightarrow> splitDomain r node = ('''', r)"
  using splitDomain_skip[of node "[]" r] by (simp add: plainNode_def list_all_iff)

lemma splitDomain_result:
  assumes "splitDomain (us @ s) s = (d, r)"
  shows "(d = '''' \<and> r = us @ s) \<or> us @ s = d @ [domainSeparator] @ r"
  using assms
proof (induction s arbitrary: us)
  case (Cons c cs)
  show ?case
  proof (cases "c = domainSeparator \<and> leaseTail cs")
    case True
    with Cons.prems show ?thesis by auto
  next
    case False
    with Cons.prems have "splitDomain ((us @ [c]) @ cs) cs = (d, r)" by auto
    from Cons.IH[OF this] show ?thesis by simp
  qed
qed simp

subsection \<open>Properties\<close>

lemma lease_name_roundtrip:
  assumes "matchesFlowID (ref_id ref)" "node \<noteq> ''''"
    and "domainSeparator \<notin> set (ref_domain ref)"
    and "ref_domain ref = '''' \<Longrightarrow> plainNode node"
  shows "parseLeaseNameFor (leaseNameFor ref node) = (ref, node, True)"
proof -
  let ?tl = "ref_id ref @ ''-'' @ node"
  have tl: "leaseTail ?tl" using assms(1,2) by (rule leaseTail_intro)
  have parse: "parseLeaseName (leaseNamePrefix @ ?tl) = (ref_id ref, node, True)"
    using tl flowid_length[OF assms(1)] by (simp add: parseLeaseName_eq)
  have "splitDomain (flowref_name ref @ ''-'' @ node) (flowref_name ref @ ''-'' @ node) =
        (ref_domain ref, ?tl)"
  proof (cases "ref_domain ref = ''''")
    case True
    have "domainSeparator \<notin> set (ref_id ref @ ''-'')"
      using flowid_no_dot[OF assms(1)] by (simp add: domainSeparator_def)
    then have "splitDomain ?tl ((ref_id ref @ ''-'') @ node) = splitDomain ?tl node"
      by (rule splitDomain_noDot)
    then show ?thesis
      using True splitDomain_plain[OF assms(4)[OF True]] by (simp add: flowref_name_def)
  next
    case False
    then show ?thesis
      using splitDomain_noDot[OF assms(3)] tl by (simp add: flowref_name_def)
  qed
  then show ?thesis
    unfolding parseLeaseNameFor_def leaseNameFor_def
    using parse by simp
qed



text \<open>In the other direction the parser invents nothing: a Lease name it accepts is the name
  LeaseNameFor gives the flow and the node it returns, and the flow id it returns is canonical. (No
  Lease name starts with the prefix and a dot: a DNS label cannot end in a dash.)\<close>

theorem leaseNameFor_parseLeaseNameFor:
  assumes "parseLeaseNameFor name = (ref, node, True)"
    and "take 10 name \<noteq> ''mxl-flow-.''"
  shows "leaseNameFor ref node = name \<and> matchesFlowID (ref_id ref) \<and> node \<noteq> ''''"
proof -
  obtain rest where cut: "cutPrefix name leaseNamePrefix = (rest, True)"
    using assms(1) by (cases "cutPrefix name leaseNamePrefix") (auto simp: parseLeaseNameFor_def split: if_splits)
  then have name: "name = leaseNamePrefix @ rest" by (rule cutPrefix_TrueD)
  obtain d r where sd: "splitDomain rest rest = (d, r)" by fastforce
  have pr: "ref = \<lparr>ref_domain = d, ref_id = take flowIDLength r\<rparr>" "node = drop (flowIDLength + 1) r"
    and tl: "leaseTail r"
    using assms(1) cut sd by (auto simp: parseLeaseNameFor_def parseLeaseName_eq split: if_splits)
  have "d @ (if d = '''' then r else [domainSeparator] @ r) = rest"
    using splitDomain_result[of "[]" rest d r] sd assms(2)
    by (auto simp: name leaseNamePrefix_def domainSeparator_def split: if_splits)
  then have "leaseNameFor ref node = name"
    using leaseTail_decompose[OF tl] unfolding name leaseNameFor_def flowref_name_def pr
    by (auto split: if_splits)
  moreover have "matchesFlowID (ref_id ref)" "node \<noteq> ''''"
    using tl by (simp_all add: pr leaseTail_def)
  ultimately show ?thesis by simp
qed

theorem leaseNameFor_parseLeaseNameFor_witness:
  "leaseNameFor \<lparr>ref_domain = '''', ref_id = ''5fbec3b1-1b0f-417d-9059-8b94a47197ed''\<rparr> ''n07'' =
     ''mxl-flow-5fbec3b1-1b0f-417d-9059-8b94a47197ed-n07'' \<and>
   matchesFlowID (ref_id \<lparr>ref_domain = '''', ref_id = ''5fbec3b1-1b0f-417d-9059-8b94a47197ed''\<rparr>) \<and> ''n07'' \<noteq> ''''"
  by (rule leaseNameFor_parseLeaseNameFor) code_simp+

text \<open>C0. The split is ambiguous for one kind of node name: the Lease of a flow in the primary
  domain on a node called \<^verbatim>\<open><label>.<flow id>-<rest>\<close>, which is a valid Kubernetes node name, is
  read as the Lease of another flow in another domain on another node.\<close>

theorem parseLeaseNameFor_ambiguous:
  "let id1 = ''5fbec3b1-1b0f-417d-9059-8b94a47197ed''; id2 = ''00000000-0000-0000-0000-000000000000'' in
   matchesFlowID id1 \<and> matchesFlowID id2 \<and>
   parseLeaseNameFor (leaseNameFor \<lparr>ref_domain = '''', ref_id = id1\<rparr> (''rack.'' @ id2 @ ''-n1'')) =
     (\<lparr>ref_domain = id1 @ ''-rack'', ref_id = id2\<rparr>, ''n1'', True)"
  by code_simp

text \<open>ParseFlowName inverts FlowRef.Name for every flow whose id holds no dot, in the
  primary domain and in any named one, and Name inverts ParseFlowName for every object name that
  does not begin with the separator.\<close>

theorem parseFlowName_roundtrip:
  "(domainSeparator \<notin> set (ref_id r) \<longrightarrow> parseFlowName (flowref_name r) = r) \<and>
   (take 1 name \<noteq> [domainSeparator] \<longrightarrow> flowref_name (parseFlowName name) = name)"
proof (intro conjI impI)
  assume "domainSeparator \<notin> set (ref_id r)"
  then show "parseFlowName (flowref_name r) = r"
    using lastIndex_append[of domainSeparator "ref_id r" "ref_domain r"]
      lastIndex_None_iff[of domainSeparator "ref_id r"]
    by (cases r) (auto simp: parseFlowName_def flowref_name_def)
next
  assume nd: "take 1 name \<noteq> [domainSeparator]"
  show "flowref_name (parseFlowName name) = name"
  proof (cases "lastIndex domainSeparator name")
    case (Some i)
    then have i: "i < length name" "name ! i = domainSeparator" by (auto dest: lastIndex_SomeD)
    with nd have "0 < i" by (cases name) (auto intro: Suc_leI gr0I)
    with i show ?thesis
      using Some id_take_nth_drop[of i name]
      by (auto simp: parseFlowName_def flowref_name_def)
  qed (simp add: parseFlowName_def flowref_name_def)
qed

theorem parseFlowName_roundtrip_witness:
  "parseFlowName (flowref_name \<lparr>ref_domain = ''studio-a'', ref_id = ''5fbec3b1''\<rparr>) =
     \<lparr>ref_domain = ''studio-a'', ref_id = ''5fbec3b1''\<rparr> \<and>
   flowref_name (parseFlowName ''studio.a.5fbec3b1'') = ''studio.a.5fbec3b1''"
  using parseFlowName_roundtrip[of "\<lparr>ref_domain = ''studio-a'', ref_id = ''5fbec3b1''\<rparr>" "''studio.a.5fbec3b1''"]
  by (simp add: domainSeparator_def)

text \<open>C0. Two mirrors of one domain never share an object name while their flow ids are
  canonical and their node names are over \<^verbatim>\<open>[a-z0-9-]\<close>, and every mirror name, whatever the inputs,
  is over \<^verbatim>\<open>[a-z0-9-]\<close>.\<close>

theorem mirrorNameFor_inj:
  assumes "matchesFlowID id1" "matchesFlowID id2" "list_all dns_char n1" "list_all dns_char n2"
    and "mirrorNameFor \<lparr>ref_domain = d, ref_id = id1\<rparr> n1 = mirrorNameFor \<lparr>ref_domain = d, ref_id = id2\<rparr> n2"
  shows "id1 = id2 \<and> n1 = n2 \<and> list_all dns_char (mirrorNameFor r n)"
proof -
  let ?f = "\<lambda>s. map mirrorRune (map toLower s)"
  have same: "?f (id1 @ ''--'' @ n1) = ?f (id2 @ ''--'' @ n2)"
    using assms(5) by (simp add: mirrorNameFor_def flowref_name_def split: if_splits)
  have clean: "?f (i @ ''--'' @ n) = i @ ''--'' @ n" if "matchesFlowID i" "list_all dns_char n" for i n
    using that flowid_dns[OF that(1)] by (intro map_mirrorRune_id) (simp add: dns_char_def)
  have "id1 @ ''--'' @ n1 = id2 @ ''--'' @ n2"
    using same clean[OF assms(1,3)] clean[OF assms(2,4)] by simp
  moreover have "length id1 = length id2"
    using assms(1,2) by (simp add: matchesFlowID_def)
  moreover have "list_all dns_char (mirrorNameFor r n)"
    by (auto simp: mirrorNameFor_def list_all_iff)
  ultimately show ?thesis by simp
qed

theorem mirrorNameFor_inj_witness:
  "''5fbec3b1-1b0f-417d-9059-8b94a47197ed'' = ''5fbec3b1-1b0f-417d-9059-8b94a47197ed'' \<and> ''n-1'' = ''n-1'' \<and>
   list_all dns_char (mirrorNameFor \<lparr>ref_domain = ''Studio.A'', ref_id = ''X_1''\<rparr> ''Node.7'')"
  by (rule mirrorNameFor_inj[where d = "''a''"]) code_simp+

text \<open>The dash that replaces a dot is not harmless: node names are DNS subdomains and may
  hold dots, and two nodes that differ only in a dot against a dash get one mirror name, and one
  mirror object, for a flow.\<close>

theorem mirrorName_collision: "mirrorName flowID ''ip-10-0-0-1.ec2'' = mirrorName flowID ''ip-10-0-0-1-ec2''"
proof -
  have "map mirrorRune (map toLower ''ip-10-0-0-1.ec2'') = map mirrorRune (map toLower ''ip-10-0-0-1-ec2'')"
    by code_simp
  then show ?thesis by (simp add: mirrorName_def mirrorNameFor_def flowref_name_def)
qed

end
