(* ===== verification/Api_Types.thy ===== *)
theory Api_Types
  imports Mxl_Names
begin

section \<open>The API objects\<close>

text \<open>
  The custom resources of \<^verbatim>\<open>api/v1alpha1\<close> as records with the source's fields, its closed
  string enumerations as datatypes (with a constructor for the empty string where the code can
  meet it), and the parts of \<^verbatim>\<open>metav1\<close> and \<^verbatim>\<open>corev1\<close> the operator reads. A nil pointer is
  \<open>None\<close>; an unset \<^verbatim>\<open>metav1.Time\<close> that is not a pointer is the instant 0.

  \<open>meta_api\<close> is what the code uses of \<^verbatim>\<open>k8s.io/apimachinery/pkg/api/meta\<close>, which is not part
  of the repository: a parameter of every definition that reads or writes conditions.
  \<open>meta_api_ok\<close> states its documented behaviour, and \<open>list_meta_api\<close> is an implementation that
  satisfies it, for the witnesses.
\<close>

subsection \<open>Object metadata\<close>

record OwnerReference =
  or_apiVersion :: string
  or_kind :: string
  or_name :: string
  or_uid :: string
  or_controller :: "bool option"
  or_blockOwnerDeletion :: "bool option"

record ObjectMeta =
  om_namespace :: string
  om_name :: string
  om_uid :: string
  om_resourceVersion :: string
  om_generation :: int
  om_creationTimestamp :: time
  om_deletionTimestamp :: time
  om_labels :: "(string \<times> string) list"
  om_ownerReferences :: "OwnerReference list"
  om_finalizers :: "string list"

record NamespacedName =
  nn_namespace :: string
  nn_name :: string

definition objectKey :: "ObjectMeta \<Rightarrow> NamespacedName" where
  "objectKey m = \<lparr>nn_namespace = om_namespace m, nn_name = om_name m\<rparr>"

definition groupVersion :: string where
  "groupVersion = ''mxl.qvest-digital.com/v1alpha1''"

definition leaseNamespace :: string where
  "leaseNamespace = ''mxl-system''"

text \<open>\<^verbatim>\<open>ctrl.Result\<close>.\<close>

record Result =
  requeue :: bool
  requeueAfter :: duration

definition no_requeue :: Result where
  "no_requeue = \<lparr>requeue = False, requeueAfter = 0\<rparr>"

definition after :: "duration \<Rightarrow> Result" where
  "after d = \<lparr>requeue = False, requeueAfter = d\<rparr>"

definition again :: Result where
  "again = \<lparr>requeue = True, requeueAfter = 0\<rparr>"

subsection \<open>Conditions\<close>

datatype ConditionStatus = ConditionTrue | ConditionFalse | ConditionUnknown

record Condition =
  cond_type :: string
  cond_status :: ConditionStatus
  cond_reason :: string
  cond_message :: string
  cond_observedGeneration :: int
  cond_lastTransitionTime :: time

record meta_api =
  findStatusCondition :: "Condition list \<Rightarrow> string \<Rightarrow> Condition option"
  setStatusCondition :: "time \<Rightarrow> Condition list \<Rightarrow> Condition \<Rightarrow> Condition list \<times> bool"

text \<open>\<^verbatim>\<open>meta.IsStatusConditionTrue\<close>: the condition is present and true.\<close>

definition isStatusConditionTrue :: "meta_api \<Rightarrow> Condition list \<Rightarrow> string \<Rightarrow> bool" where
  "isStatusConditionTrue M cs t =
     (case findStatusCondition M cs t of None \<Rightarrow> False | Some c \<Rightarrow> cond_status c = ConditionTrue)"

text \<open>
  The documented behaviour: setting a condition leaves the other types alone, stores the new
  status, reason, message and generation, and moves the transition time to now exactly when the
  status changed or the type was absent (every caller here passes a zero transition time).
\<close>

definition settled :: "time \<Rightarrow> Condition option \<Rightarrow> Condition \<Rightarrow> Condition" where
  "settled now old c =
     c\<lparr>cond_lastTransitionTime :=
        (case old of None \<Rightarrow> now
         | Some p \<Rightarrow> if cond_status p = cond_status c then cond_lastTransitionTime p else now)\<rparr>"

definition meta_api_ok :: "meta_api \<Rightarrow> bool" where
  "meta_api_ok M \<longleftrightarrow>
     (\<forall>now cs c t. findStatusCondition M (fst (setStatusCondition M now cs c)) t =
        (if t = cond_type c then Some (settled now (findStatusCondition M cs t) c)
         else findStatusCondition M cs t)) \<and>
     (\<forall>cs t c. findStatusCondition M cs t = Some c \<longrightarrow> cond_type c = t)"

lemma meta_api_ok_find:
  "meta_api_ok M \<Longrightarrow> findStatusCondition M (fst (setStatusCondition M now cs c)) t =
     (if t = cond_type c then Some (settled now (findStatusCondition M cs t) c)
      else findStatusCondition M cs t)"
  by (simp add: meta_api_ok_def)

lemma settled_simps [simp]:
  "cond_type (settled now old c) = cond_type c"
  "cond_status (settled now old c) = cond_status c"
  "cond_reason (settled now old c) = cond_reason c"
  "cond_message (settled now old c) = cond_message c"
  "cond_observedGeneration (settled now old c) = cond_observedGeneration c"
  by (simp_all add: settled_def)

fun list_set_condition :: "time \<Rightarrow> Condition list \<Rightarrow> Condition \<Rightarrow> Condition list" where
  "list_set_condition now [] c = [settled now None c]"
| "list_set_condition now (p # ps) c =
     (if cond_type p = cond_type c then settled now (Some p) c # ps
      else p # list_set_condition now ps c)"

definition list_meta_api :: meta_api where
  "list_meta_api =
     \<lparr>findStatusCondition = (\<lambda>cs t. find_first (\<lambda>c. cond_type c = t) cs),
      setStatusCondition = (\<lambda>now cs c. (list_set_condition now cs c, list_set_condition now cs c \<noteq> cs))\<rparr>"

lemma find_list_set_condition:
  "find_first (\<lambda>c. cond_type c = t) (list_set_condition now cs c) =
     (if t = cond_type c then Some (settled now (find_first (\<lambda>c. cond_type c = t) cs) c)
      else find_first (\<lambda>c. cond_type c = t) cs)"
  by (induction cs) auto

lemma list_meta_api_ok: "meta_api_ok list_meta_api"
  by (auto simp: meta_api_ok_def list_meta_api_def find_list_set_condition dest: find_first_SomeD)

subsection \<open>Fabric capabilities\<close>

datatype MxlFabricsProvider =
    ProviderUnset
  | ProviderAuto
  | ProviderTCP
  | ProviderVerbs
  | ProviderEFA
  | ProviderSHM
  | ProviderOther string

datatype LinkState = LinkUp | LinkDown | LinkUnknown | LinkUnset

record MxlFabricInterface =
  if_address :: string
  if_device :: string
  if_linkState :: LinkState
  if_linkSpeed :: int
  if_maxMessageSize :: int
  if_pciAddress :: string
  if_capacity :: int
  if_subnet :: string
  if_budgets :: "string list"
  if_numaNode :: "int option"

datatype MxlFabricBudgetScope = FabricBudgetNIC | FabricBudgetHost

datatype MxlFabricBudgetMode =
  FabricBudgetIngress | FabricBudgetEgress | FabricBudgetCombined | FabricBudgetModeUnset

record MxlFabricBudget =
  bud_name :: string
  bud_scope :: MxlFabricBudgetScope
  bud_mode :: MxlFabricBudgetMode
  bud_capacity :: int

record MxlFabricsProviderCapability =
  pc_name :: MxlFabricsProvider
  pc_version :: string
  pc_deviceCount :: int
  pc_interfaces :: "MxlFabricInterface list"

record MxlNodeCapabilitiesStatus =
  nc_providers :: "MxlFabricsProviderCapability list"
  nc_multiDomain :: bool
  nc_budgets :: "MxlFabricBudget list"
  nc_maxUtilizationPercent :: int
  nc_lastSeen :: "time option"
  nc_conditions :: "Condition list"

definition empty_caps :: MxlNodeCapabilitiesStatus where
  "empty_caps = \<lparr>nc_providers = [], nc_multiDomain = False, nc_budgets = [],
     nc_maxUtilizationPercent = 0, nc_lastSeen = None, nc_conditions = []\<rparr>"

record MxlNodeCapabilities =
  caps_meta :: ObjectMeta
  caps_nodeName :: string
  caps_status :: MxlNodeCapabilitiesStatus

subsection \<open>Flows\<close>

datatype MxlFlowLocationPhase =
  LocationOrigin | LocationMirroring | LocationReady | LocationStale

record MxlFlowLocation =
  loc_nodeName :: string
  loc_phase :: MxlFlowLocationPhase
  loc_lastObserved :: "time option"
  loc_appearedAt :: "time option"

record MxlFlowSpec =
  fs_id :: string
  fs_domain :: string
  fs_definition :: string

record MxlFlowStatus =
  fst_locations :: "MxlFlowLocation list"
  fst_originNode :: string
  fst_previousOriginNode :: string
  fst_originChangedAt :: "time option"
  fst_maxSyncBatchSizeHint :: int
  fst_maxCommitBatchSizeHint :: int
  fst_bitsPerSecond :: int
  fst_conditions :: "Condition list"

record MxlFlow =
  flow_meta :: ObjectMeta
  flow_spec :: MxlFlowSpec
  flow_status :: MxlFlowStatus

definition flow_ref :: "MxlFlow \<Rightarrow> FlowRef" where
  "flow_ref f = \<lparr>ref_domain = fs_domain (flow_spec f), ref_id = fs_id (flow_spec f)\<rparr>"

subsection \<open>Mirrors\<close>

datatype MxlFlowMirrorPhase =
    MirrorPhaseUnset
  | MxlFlowMirrorPending
  | MxlFlowMirrorMaterializing
  | MxlFlowMirrorReady
  | MxlFlowMirrorDegraded
  | MxlFlowMirrorFailed

record PodRef =
  pr_name :: string
  pr_namespace :: string
  pr_uid :: string

record MirrorRef =
  mr_name :: string
  mr_namespace :: string

record MxlFlowMirrorPlacement =
  pl_sourceInterface :: string
  pl_targetInterface :: string

record MxlFlowMirrorSpec =
  ms_flowID :: string
  ms_domain :: string
  ms_sourceNode :: string
  ms_targetNode :: string
  ms_provider :: MxlFabricsProvider
  ms_requestor :: "PodRef option"
  ms_placement :: "MxlFlowMirrorPlacement option"

record MxlFlowMirrorStatus =
  mst_phase :: MxlFlowMirrorPhase
  mst_targetInfo :: string
  mst_targetMaxSyncBatchSizeHint :: int
  mst_observedGeneration :: int
  mst_conditions :: "Condition list"
  mst_lastGrainAt :: "time option"
  mst_lastSentAt :: "time option"
  mst_lastError :: string
  mst_sourceRetargetedAt :: "time option"
  mst_previousSourceNode :: string
  mst_attemptCount :: int
  mst_targetAttemptCount :: int
  mst_sourceInterface :: string
  mst_targetInterface :: string
  mst_demandBitsPerSecond :: int

record MxlFlowMirror =
  mir_meta :: ObjectMeta
  mir_spec :: MxlFlowMirrorSpec
  mir_status :: MxlFlowMirrorStatus

definition mirror_ref :: "MxlFlowMirror \<Rightarrow> FlowRef" where
  "mirror_ref m = \<lparr>ref_domain = ms_domain (mir_spec m), ref_id = ms_flowID (mir_spec m)\<rparr>"

subsection \<open>Receivers\<close>

datatype MxlReceiverPhase =
  ReceiverPhaseUnset | MxlReceiverPending | MxlReceiverBound | MxlReceiverFailed

text \<open>The pod selector is opaque here: matching pods against it is the API server's list call.\<close>

record 'sel MxlReceiverSpec =
  rs_flowID :: string
  rs_domain :: string
  rs_podSelector :: "'sel option"
  rs_podRef :: "PodRef option"
  rs_provider :: MxlFabricsProvider

record MxlReceiverStatus =
  rst_boundMirror :: "MirrorRef option"
  rst_phase :: MxlReceiverPhase
  rst_observedGeneration :: int
  rst_conditions :: "Condition list"

record 'sel MxlReceiver =
  recv_meta :: ObjectMeta
  recv_spec :: "'sel MxlReceiverSpec"
  recv_status :: MxlReceiverStatus

definition receiver_ref :: "'sel MxlReceiver \<Rightarrow> FlowRef" where
  "receiver_ref r = \<lparr>ref_domain = rs_domain (recv_spec r), ref_id = rs_flowID (recv_spec r)\<rparr>"

subsection \<open>Redundancy sets\<close>

datatype RedundancyPreference = RedundancyOrdered | RedundancyFirstArrival

record RedundancyFlowRef =
  rf_flowID :: string
  rf_domain :: string

record MxlFlowRedundancySetSpec =
  ss_members :: "RedundancyFlowRef list"
  ss_output :: RedundancyFlowRef
  ss_skewBudget :: duration
  ss_preference :: RedundancyPreference

record NodeStalledMembers =
  sm_node :: string
  sm_flowIDs :: "string list"

record MxlFlowRedundancySetStatus =
  sst_nodes :: "string list"
  sst_stalledMembers :: "NodeStalledMembers list"
  sst_observedGeneration :: int
  sst_conditions :: "Condition list"

record MxlFlowRedundancySet =
  set_meta :: ObjectMeta
  set_spec :: MxlFlowRedundancySetSpec
  set_status :: MxlFlowRedundancySetStatus

definition member_ref :: "RedundancyFlowRef \<Rightarrow> FlowRef" where
  "member_ref m = \<lparr>ref_domain = rf_domain m, ref_id = rf_flowID m\<rparr>"

subsection \<open>Domains\<close>

record MxlDomainSpec =
  ds_id :: string
  ds_directory :: string
  ds_label :: string
  ds_description :: string
  ds_tags :: "(string \<times> string list) list"
  ds_historyDuration :: "duration option"
  ds_nodeSelector :: "(string \<times> string) list"

record MxlDomainNodeStatus =
  dn_nodeName :: string
  dn_ready :: bool
  dn_mirrored :: bool
  dn_fanotifyReady :: bool
  dn_capacityBytes :: int
  dn_freeBytes :: int
  dn_message :: string
  dn_lastSeen :: "time option"

record MxlDomainStatus =
  dst_nodes :: "MxlDomainNodeStatus list"
  dst_conditions :: "Condition list"

record MxlDomain =
  dom_meta :: ObjectMeta
  dom_spec :: MxlDomainSpec
  dom_status :: MxlDomainStatus

definition domain_status_node :: "MxlDomainStatus \<Rightarrow> string \<Rightarrow> MxlDomainNodeStatus option" where
  "domain_status_node s name = find_first (\<lambda>n. dn_nodeName n = name) (dst_nodes s)"

definition domain_selects :: "MxlDomainSpec \<Rightarrow> (string \<rightharpoonup> string) \<Rightarrow> bool" where
  "domain_selects s nodeLabels = list_all (\<lambda>(k, v). nodeLabels k = Some v) (ds_nodeSelector s)"

definition domain_path :: "MxlDomainSpec \<Rightarrow> string" where
  "domain_path s = (if ds_directory s \<noteq> '''' then ds_directory s else ''domains/'' @ ds_id s)"

subsection \<open>Condition types and reasons\<close>

definition ConditionTypeProbed :: string where "ConditionTypeProbed = ''Probed''"
definition ConditionTypePlaced :: string where "ConditionTypePlaced = ''Placed''"
definition ConditionTypeClaimed :: string where "ConditionTypeClaimed = ''Claimed''"
definition ConditionTypeSourceable :: string where "ConditionTypeSourceable = ''Sourceable''"
definition ConditionTypeLive :: string where "ConditionTypeLive = ''Live''"
definition ConditionTypeOriginFresh :: string where "ConditionTypeOriginFresh = ''OriginFresh''"

lemmas condition_type_defs =
  ConditionTypeProbed_def ConditionTypePlaced_def ConditionTypeClaimed_def
  ConditionTypeSourceable_def ConditionTypeLive_def ConditionTypeOriginFresh_def

definition ReasonRecovered :: string where "ReasonRecovered = ''Recovered''"
definition ReasonLeaseExpired :: string where "ReasonLeaseExpired = ''LeaseExpired''"

subsection \<open>Helpers the flow and the mirror controller each carry a copy of\<close>

definition conditionStatus :: "bool \<Rightarrow> ConditionStatus" where
  "conditionStatus ok = (if ok then ConditionTrue else ConditionFalse)"

definition requeueAt :: "time \<Rightarrow> time \<Rightarrow> Result" where
  "requeueAt now deadline =
     (if deadline = 0 then no_requeue
      else if 0 < time_sub deadline now then after (time_sub deadline now) else again)"

text \<open>What is left of a wait that began at \<open>since\<close>.\<close>

definition remaining :: "duration \<Rightarrow> time \<Rightarrow> time \<Rightarrow> duration" where
  "remaining period now since = sub64 period (time_sub now since)"

lemma remaining_pos:
  assumes "0 \<le> now - since" "now - since < 2 ^ 62" "0 < period" "period < 2 ^ 62"
  shows "remaining period now since = since + period - now"
  using assms by (simp add: remaining_def time_sub_id sub64_id)

lemma remaining_over:
  assumes "remaining d now t \<le> 0" "0 < d" "d < 2 ^ 62" "t < now + 2 ^ 62"
  shows "d \<le> now - t"
proof -
  have "- (2 ^ 62) < time_sub now t" "time_sub now t \<le> maxInt64"
    using assms(4) by (auto simp: time_sub_def maxInt64_def)
  moreover from this have "remaining d now t = d - time_sub now t"
    using assms(2,3) unfolding remaining_def by (intro sub64_id) (simp add: maxInt64_def)
  ultimately show ?thesis using assms by (auto simp: time_sub_def maxInt64_def)
qed

text \<open>How long a condition has read False, in a list of conditions as it was read; and that no transition time lies centuries
  ahead of the clock, where the difference of two times would saturate.\<close>

definition false_for :: "meta_api \<Rightarrow> time \<Rightarrow> Condition list \<Rightarrow> string \<Rightarrow> duration \<Rightarrow> bool" where
  "false_for M now cs typ d \<longleftrightarrow>
     (\<exists>c. findStatusCondition M cs typ = Some c \<and> cond_status c = ConditionFalse \<and> d \<le> now - cond_lastTransitionTime c)"

definition sane_conditions :: "meta_api \<Rightarrow> time \<Rightarrow> Condition list \<Rightarrow> bool" where
  "sane_conditions M now cs \<longleftrightarrow> (\<forall>typ c. findStatusCondition M cs typ = Some c \<longrightarrow> cond_lastTransitionTime c < now + 2 ^ 62)"

text \<open>A wait measured on a condition that was just set to False again is over only if the condition read False before.\<close>

lemma settled_wait_over:
  assumes "remaining d now (let t = cond_lastTransitionTime (settled now (findStatusCondition M cs typ) c) in if t = 0 then now else t) \<le> 0"
    "cond_status c = ConditionFalse" "0 < d" "d < 2 ^ 62" "sane_conditions M now cs"
  shows "false_for M now cs typ d"
proof -
  have now: "\<not> remaining d now now \<le> 0"
    using remaining_over[of d now now] assms(3,4) by auto
  from assms(1,2) obtain old where old: "findStatusCondition M cs typ = Some old" "cond_status old = ConditionFalse"
    "remaining d now (cond_lastTransitionTime old) \<le> 0"
    using now by (cases "findStatusCondition M cs typ") (auto simp: settled_def Let_def split: if_splits)
  with remaining_over[OF old(3) assms(3,4)] assms(5) show ?thesis by (auto simp: false_for_def sane_conditions_def)
qed

text \<open>The wake-up of every object a list call returns and a predicate accepts; nothing when the list
  call fails.\<close>

definition enqueue :: "('a \<Rightarrow> NamespacedName) \<Rightarrow> go_error + 'a list \<Rightarrow> ('a \<Rightarrow> bool) \<Rightarrow> NamespacedName list" where
  "enqueue key objs keep = (case objs of Inl _ \<Rightarrow> [] | Inr os \<Rightarrow> map key (filter keep os))"

end
