(* ===== verification/Selection.thy ===== *)
theory Selection
  imports Api_Types
begin

section \<open>Provider selection (api/selection)\<close>

text \<open>
  Which libmxl-fabrics provider a cross-node mirror uses, from the capabilities the gateways of
  its two nodes publish. The advisory error of \<^verbatim>\<open>Resolve\<close> is a second component of its result.
  Shown here: the answer is always one of efa, verbs and tcp and never auto or shm; it is the most
  preferred provider both nodes offer when they share one; and \<^verbatim>\<open>Supported\<close> agrees with it.
\<close>

datatype selection_error = ErrCapabilitiesUnknown nat nat | ErrNoCommonProvider

definition crossNodePreference :: "MxlFabricsProvider list" where
  "crossNodePreference = [ProviderEFA, ProviderVerbs, ProviderTCP]"

text \<open>The set as the duplicate-free list of its members, in the order they were added.\<close>

definition providerSet :: "meta_api \<Rightarrow> MxlNodeCapabilitiesStatus \<Rightarrow> MxlFabricsProvider list" where
  "providerSet M status =
     (let probed = isStatusConditionTrue M (nc_conditions status) ConditionTypeProbed
      in remdups (map pc_name
           (filter (\<lambda>pc. \<not> (probed \<and> pc_deviceCount pc \<le> 0) \<and> pc_name pc \<in> set crossNodePreference)
             (nc_providers status))))"

definition resolve ::
  "meta_api \<Rightarrow> MxlNodeCapabilitiesStatus \<Rightarrow> MxlNodeCapabilitiesStatus \<Rightarrow>
   MxlFabricsProvider \<times> selection_error option" where
  "resolve M source target =
     (let src = providerSet M source; tgt = providerSet M target
      in if length src = 0 \<or> length tgt = 0
         then (ProviderTCP, Some (ErrCapabilitiesUnknown (length src) (length tgt)))
         else (case find_first (\<lambda>p. p \<in> set src \<and> p \<in> set tgt) crossNodePreference of
                 Some p \<Rightarrow> (p, None)
               | None \<Rightarrow> (ProviderTCP, Some ErrNoCommonProvider)))"

definition supported ::
  "meta_api \<Rightarrow> MxlNodeCapabilitiesStatus \<Rightarrow> MxlNodeCapabilitiesStatus \<Rightarrow> MxlFabricsProvider \<Rightarrow> bool" where
  "supported M source target provider =
     (if provider = ProviderUnset \<or> provider = ProviderAuto then False
      else provider \<in> set (providerSet M source) \<and> provider \<in> set (providerSet M target))"

text \<open>How much a provider is preferred; the specification of the choice.\<close>

fun preference_rank :: "MxlFabricsProvider \<Rightarrow> nat" where
  "preference_rank ProviderEFA = 3"
| "preference_rank ProviderVerbs = 2"
| "preference_rank ProviderTCP = 1"
| "preference_rank _ = 0"

lemma providerSet_cross: "set (providerSet M s) \<subseteq> {ProviderEFA, ProviderVerbs, ProviderTCP}"
  by (auto simp: providerSet_def crossNodePreference_def Let_def)

lemma resolve_concrete: "fst (resolve M s t) \<in> {ProviderEFA, ProviderVerbs, ProviderTCP}"
  by (auto simp: resolve_def Let_def crossNodePreference_def split: option.splits if_splits)

lemma most_preferred:
  assumes "find_first P crossNodePreference = Some p" "P q"
  shows "preference_rank q \<le> preference_rank p"
  using assms by (cases q) (auto simp: crossNodePreference_def split: if_splits)

text \<open>A node that reports a probe and found no device for a provider does not offer it; a node
  that reports no probe offers every cross-node provider it lists.\<close>

lemma mem_providerSet:
  "p \<in> set (providerSet M st) \<longleftrightarrow>
     p \<in> {ProviderEFA, ProviderVerbs, ProviderTCP} \<and>
     (\<exists>pc \<in> set (nc_providers st). pc_name pc = p \<and>
        (isStatusConditionTrue M (nc_conditions st) ConditionTypeProbed \<longrightarrow> 0 < pc_deviceCount pc))"
  by (auto simp: providerSet_def crossNodePreference_def Let_def image_iff not_le)

lemma supported_iff:
  "supported M s t p \<longleftrightarrow> p \<in> set (providerSet M s) \<and> p \<in> set (providerSet M t)"
  using providerSet_cross[of M s] by (auto simp: supported_def)

text \<open>Resolve answers a concrete cross-node provider on every input, never auto and never
  shm. When the two nodes share one, it is supported on both, no supported provider is preferred to
  it (efa before verbs before tcp) and no advisory error is given; when they share none, it is tcp
  and the error says whether a node advertises nothing or the two are disjoint.\<close>

theorem resolve_spec:
  "case resolve M s t of (p, err) \<Rightarrow>
     p \<in> {ProviderEFA, ProviderVerbs, ProviderTCP} \<and>
     (if \<exists>q. supported M s t q
      then err = None \<and> supported M s t p \<and>
           list_all (\<lambda>q. preference_rank q \<le> preference_rank p) (filter (supported M s t) (providerSet M s))
      else p = ProviderTCP \<and>
           err = (if providerSet M s = [] \<or> providerSet M t = []
                  then Some (ErrCapabilitiesUnknown (length (providerSet M s)) (length (providerSet M t)))
                  else Some ErrNoCommonProvider))"
proof (cases "\<exists>q. supported M s t q")
  case True
  let ?P = "\<lambda>p. p \<in> set (providerSet M s) \<and> p \<in> set (providerSet M t)"
  from True obtain q where q: "?P q" by (auto simp: supported_iff)
  then have ne: "providerSet M s \<noteq> []" "providerSet M t \<noteq> []" by auto
  have "q \<in> set crossNodePreference"
    using q providerSet_cross[of M s] by (auto simp: crossNodePreference_def)
  with q obtain p where p: "find_first ?P crossNodePreference = Some p"
    by (cases "find_first ?P crossNodePreference") (auto simp: find_first_None_iff)
  have "supported M s t p"
    using find_first_SomeD[OF p] by (simp add: supported_iff)
  moreover have "list_all (\<lambda>q. preference_rank q \<le> preference_rank p) (filter (supported M s t) (providerSet M s))"
    using most_preferred[OF p] by (auto simp: list_all_iff supported_iff)
  moreover have "resolve M s t = (p, None)"
    using ne p by (simp add: resolve_def Let_def)
  ultimately show ?thesis
    using True resolve_concrete[of M s t] by auto
next
  case False
  then have dis: "p \<in> set (providerSet M s) \<Longrightarrow> p \<in> set (providerSet M t) \<Longrightarrow> False" for p
    by (auto simp: supported_iff)
  then have "find_first (\<lambda>p. p \<in> set (providerSet M s) \<and> p \<in> set (providerSet M t)) crossNodePreference = None"
    by (auto simp: find_first_None_iff)
  with False show ?thesis
    by (simp add: resolve_def Let_def)
qed

end
