(* ===== verification/Origin.thy ===== *)
theory Origin
  imports Selection
begin

section \<open>Where a flow is: ResolveOrigin and the Lease checker\<close>

text \<open>
  \<^verbatim>\<open>api/v1alpha1/origin.go\<close>, the one walk over a flow's locations every component shares, and
  \<^verbatim>\<open>operator/internal/leasecheck\<close>, which answers its freshness callback from the Lease objects.
  The callback is the interface between the two: the locale \<open>lease_checker\<close> states what its
  clients rely on, and \<open>isFresh\<close> discharges it.
\<close>

subsection \<open>ResolveOrigin\<close>

type_synonym LeaseFreshness = "string \<Rightarrow> string \<Rightarrow> go_error + (bool \<times> time)"

record OriginResolution =
  res_node :: string
  res_found :: bool
  res_allStale :: bool
  res_deadline :: time

definition no_origin :: OriginResolution where
  "no_origin = \<lparr>res_node = '''', res_found = False, res_allStale = False, res_deadline = 0\<rparr>"

fun resolveLocations ::
  "LeaseFreshness option \<Rightarrow> string \<Rightarrow> MxlFlowLocation list \<Rightarrow> bool \<Rightarrow> go_error + OriginResolution" where
  "resolveLocations fresh name [] sawOrigin = Inr (no_origin\<lparr>res_allStale := sawOrigin\<rparr>)"
| "resolveLocations fresh name (loc # locs) sawOrigin =
     (if loc_phase loc \<noteq> LocationOrigin then resolveLocations fresh name locs sawOrigin
      else (case fresh of
              None \<Rightarrow> Inr (no_origin\<lparr>res_node := loc_nodeName loc, res_found := True\<rparr>)
            | Some fr \<Rightarrow>
                (case fr name (loc_nodeName loc) of
                   Inl e \<Rightarrow> Inl e
                 | Inr (live, deadline) \<Rightarrow>
                     if live then Inr (no_origin\<lparr>res_node := loc_nodeName loc, res_found := True,
                                                 res_deadline := deadline\<rparr>)
                     else resolveLocations fresh name locs True)))"

definition resolveOrigin ::
  "MxlFlow option \<Rightarrow> LeaseFreshness option \<Rightarrow> go_error + OriginResolution" where
  "resolveOrigin flow fresh =
     (case flow of
        None \<Rightarrow> Inr no_origin
      | Some f \<Rightarrow> resolveLocations fresh (flowref_name (flow_ref f)) (fst_locations (flow_status f)) False)"

definition originNode :: "MxlFlow option \<Rightarrow> string" where
  "originNode flow =
     (case flow of
        None \<Rightarrow> ''''
      | Some f \<Rightarrow> (case find_first (\<lambda>l. loc_phase l = LocationOrigin) (fst_locations (flow_status f)) of
                     None \<Rightarrow> '''' | Some l \<Rightarrow> loc_nodeName l))"

subsection \<open>leasecheck\<close>

record Lease =
  lease_meta :: ObjectMeta
  lease_renewTime :: "time option"
  lease_durationSeconds :: "int option"

definition DefaultLeaseDuration :: duration where
  "DefaultLeaseDuration = 30 * second"

definition lease_window :: "Lease \<Rightarrow> duration" where
  "lease_window lease =
     (case lease_durationSeconds lease of
        Some d \<Rightarrow> if 0 < d then mul64 d second else DefaultLeaseDuration
      | None \<Rightarrow> DefaultLeaseDuration)"

text \<open>A checker without a client answers not fresh; \<open>None\<close> is the nil client.\<close>

definition isFresh ::
  "(NamespacedName \<Rightarrow> go_error + Lease) option \<Rightarrow> time \<Rightarrow> LeaseFreshness" where
  "isFresh client now flowID nodeName =
     (case client of
        None \<Rightarrow> Inr (False, 0)
      | Some get \<Rightarrow>
          (case get \<lparr>nn_namespace = leaseNamespace, nn_name = leaseName flowID nodeName\<rparr> of
             Inl e \<Rightarrow> if isNotFound e then Inr (False, 0) else Inl e
           | Inr lease \<Rightarrow>
               (case lease_renewTime lease of
                  None \<Rightarrow> Inr (False, 0)
                | Some renewed \<Rightarrow>
                    let deadline = renewed + lease_window lease
                    in Inr (now < deadline, deadline))))"

subsection \<open>The interface\<close>

locale lease_checker =
  fixes fresh :: LeaseFreshness and now :: time
  assumes fresh_holds: "fresh flowID node = Inr (True, deadline) \<Longrightarrow> now < deadline"
    and stale_lapsed: "fresh flowID node = Inr (False, deadline) \<Longrightarrow> deadline \<noteq> 0 \<Longrightarrow> deadline \<le> now"
begin

text \<open>An origin the walk returns is sustained until a deadline in the future.\<close>

lemma resolveLocations_deadline:
  "resolveLocations (Some fresh) name locs saw = Inr r \<Longrightarrow> res_found r \<Longrightarrow> now < res_deadline r"
  by (induction locs arbitrary: saw)
    (auto simp: no_origin_def fresh_holds split: if_splits sum.splits prod.splits)

lemma resolve_deadline:
  "resolveOrigin flow (Some fresh) = Inr r \<Longrightarrow> res_found r \<Longrightarrow> now < res_deadline r"
  by (auto simp: resolveOrigin_def no_origin_def dest: resolveLocations_deadline split: option.splits)

end

interpretation leasecheck: lease_checker "isFresh client now" now for client now
  by unfold_locales
    (auto simp: isFresh_def Let_def split: option.splits sum.splits if_splits)

lemma leaseName_ref: "leaseName (flowref_name ref) node = leaseNameFor ref node"
  by (simp add: leaseName_def leaseNameFor_def)

subsection \<open>What the walk answers\<close>

definition origins :: "MxlFlowLocation list \<Rightarrow> string list" where
  "origins locs = map loc_nodeName (filter (\<lambda>l. loc_phase l = LocationOrigin) locs)"

lemma origins_Cons [simp]:
  "origins [] = []"
  "origins (l # ls) = (if loc_phase l = LocationOrigin then loc_nodeName l # origins ls else origins ls)"
  by (simp_all add: origins_def)

definition is_stale :: "LeaseFreshness \<Rightarrow> string \<Rightarrow> string \<Rightarrow> bool" where
  "is_stale fr name node = (case fr name node of Inl _ \<Rightarrow> False | Inr (live, _) \<Rightarrow> \<not> live)"

lemma resolveLocations_allStale:
  "list_all (is_stale fr name) (origins locs) \<Longrightarrow>
   resolveLocations (Some fr) name locs saw =
     Inr (no_origin\<lparr>res_allStale := saw \<or> origins locs \<noteq> []\<rparr>)"
  by (induction locs arbitrary: saw) (auto simp: is_stale_def split: sum.splits)

lemma resolveLocations_first:
  "origins locs = us @ n # vs \<Longrightarrow> list_all (is_stale fr name) us \<Longrightarrow> \<not> is_stale fr name n \<Longrightarrow>
   resolveLocations (Some fr) name locs saw =
     (case fr name n of Inl e \<Rightarrow> Inl e
      | Inr (_, d) \<Rightarrow> Inr (no_origin\<lparr>res_node := n, res_found := True, res_deadline := d\<rparr>))"
proof (induction locs arbitrary: us saw)
  case (Cons l ls)
  show ?case
  proof (cases "loc_phase l = LocationOrigin")
    case True
    show ?thesis
    proof (cases us)
      case Nil
      with Cons.prems True show ?thesis
        by (auto simp: is_stale_def split: sum.splits prod.splits)
    next
      case (Cons u us')
      with Cons.prems True have "is_stale fr name (loc_nodeName l)" and
        ih: "resolveLocations (Some fr) name ls True =
          (case fr name n of Inl e \<Rightarrow> Inl e
           | Inr (_, d) \<Rightarrow> Inr (no_origin\<lparr>res_node := n, res_found := True, res_deadline := d\<rparr>))"
        using Cons.IH[of us' True] by auto
      then show ?thesis using True by (auto simp: is_stale_def split: sum.splits)
    qed
  next
    case False
    with Cons.prems Cons.IH[of us saw] show ?thesis by simp
  qed
qed simp

text \<open>ResolveOrigin, with a Lease checker: it answers the first Origin location whose Lease is
  fresh, with that Lease's deadline, and fails only with an error of the checker on a location
  before it; when no Origin is fresh it finds nothing and says whether there was an Origin at
  all.\<close>

theorem resolveOrigin_first_fresh:
  "let name = flowref_name (flow_ref f); os = origins (fst_locations (flow_status f)) in
   case dropWhile (is_stale fr name) os of
     [] \<Rightarrow> resolveOrigin (Some f) (Some fr) = Inr (no_origin\<lparr>res_allStale := os \<noteq> []\<rparr>)
   | n # _ \<Rightarrow>
       resolveOrigin (Some f) (Some fr) =
         (case fr name n of Inl e \<Rightarrow> Inl e
          | Inr (_, d) \<Rightarrow> Inr (no_origin\<lparr>res_node := n, res_found := True, res_deadline := d\<rparr>)) \<and>
       (\<exists>us vs. os = us @ n # vs \<and> list_all (is_stale fr name) us)"
proof -
  let ?name = "flowref_name (flow_ref f)" and ?os = "origins (fst_locations (flow_status f))"
  let ?st = "is_stale fr ?name"
  show ?thesis
  proof (cases "dropWhile ?st ?os")
    case Nil
    then have "list_all ?st ?os" by (simp add: dropWhile_eq_Nil_conv list_all_iff)
    then show ?thesis
      unfolding Let_def Nil list.case by (simp add: resolveOrigin_def resolveLocations_allStale)
  next
    case (Cons n vs)
    have split: "?os = takeWhile ?st ?os @ n # vs"
      using takeWhile_dropWhile_id[of ?st ?os] Cons by simp
    moreover have st: "list_all ?st (takeWhile ?st ?os)"
      by (auto simp: list_all_iff dest: set_takeWhileD)
    moreover have "\<not> ?st n" using Cons by (simp add: dropWhile_eq_Cons_conv)
    ultimately have "resolveOrigin (Some f) (Some fr) =
        (case fr ?name n of Inl e \<Rightarrow> Inl e
         | Inr (_, d) \<Rightarrow> Inr (no_origin\<lparr>res_node := n, res_found := True, res_deadline := d\<rparr>))"
      by (simp add: resolveOrigin_def resolveLocations_first)
    moreover have "\<exists>us vs. ?os = us @ n # vs \<and> list_all ?st us"
      using split st by blast
    ultimately show ?thesis
      unfolding Let_def Cons list.case by simp
  qed
qed

text \<open>With the operator's own Lease checker, an origin that is found is backed by a Lease
  renewed inside its window: the deadline handed to the caller lies in the future, so the requeue
  the caller schedules on it has a positive wait.\<close>

theorem resolveOrigin_deadline_future:
  assumes "resolveOrigin flow (Some (isFresh client now)) = Inr r" "res_found r"
  shows "now < res_deadline r \<and> 0 < time_sub (res_deadline r) now"
  using leasecheck.resolve_deadline[OF assms] by simp

definition witness_meta :: "string \<Rightarrow> ObjectMeta" where
  "witness_meta name = \<lparr>om_namespace = '''', om_name = name, om_uid = ''u'', om_resourceVersion = ''1'',
     om_generation = 1, om_creationTimestamp = 1, om_deletionTimestamp = 0, om_labels = [],
     om_ownerReferences = [], om_finalizers = []\<rparr>"

definition witness_flow :: MxlFlow where
  "witness_flow = \<lparr>flow_meta = witness_meta ''f'', flow_spec = \<lparr>fs_id = ''f'', fs_domain = '''', fs_definition = ''''\<rparr>,
     flow_status = \<lparr>fst_locations =
        [\<lparr>loc_nodeName = ''a'', loc_phase = LocationReady, loc_lastObserved = None, loc_appearedAt = None\<rparr>,
         \<lparr>loc_nodeName = ''b'', loc_phase = LocationOrigin, loc_lastObserved = None, loc_appearedAt = None\<rparr>],
       fst_originNode = ''b'', fst_previousOriginNode = '''', fst_originChangedAt = None,
       fst_maxSyncBatchSizeHint = 0, fst_maxCommitBatchSizeHint = 0, fst_bitsPerSecond = 0,
       fst_conditions = []\<rparr>\<rparr>"

definition witness_lease :: "NamespacedName \<Rightarrow> go_error + Lease" where
  "witness_lease k = Inr \<lparr>lease_meta = witness_meta ''l'', lease_renewTime = Some 1000, lease_durationSeconds = Some 30\<rparr>"

theorem resolveOrigin_deadline_future_witness:
  "2000 < res_deadline (no_origin\<lparr>res_node := ''b'', res_found := True, res_deadline := 30000001000\<rparr>) \<and>
   0 < time_sub (res_deadline (no_origin\<lparr>res_node := ''b'', res_found := True, res_deadline := 30000001000\<rparr>)) 2000"
  by (rule resolveOrigin_deadline_future[where flow = "Some witness_flow" and client = "Some witness_lease"]) code_simp+

text \<open>A mirror to evaluate the controllers on.\<close>

definition witness_mirror :: "string \<Rightarrow> MxlFlowMirror" where
  "witness_mirror name = \<lparr>mir_meta = (witness_meta name)\<lparr>om_namespace := ''ns''\<rparr>,
     mir_spec = \<lparr>ms_flowID = ''f'', ms_domain = '''', ms_sourceNode = ''a'', ms_targetNode = ''b'',
       ms_provider = ProviderTCP, ms_requestor = None, ms_placement = None\<rparr>,
     mir_status = \<lparr>mst_phase = MirrorPhaseUnset, mst_targetInfo = '''', mst_targetMaxSyncBatchSizeHint = 0,
       mst_observedGeneration = 0, mst_conditions = [], mst_lastGrainAt = None, mst_lastSentAt = None,
       mst_lastError = '''', mst_sourceRetargetedAt = None, mst_previousSourceNode = '''', mst_attemptCount = 0,
       mst_targetAttemptCount = 0, mst_sourceInterface = '''', mst_targetInterface = '''',
       mst_demandBitsPerSecond = 0\<rparr>\<rparr>"

end
