(* ===== verification/Go_Sort.thy ===== *)
theory Go_Sort
  imports Mxl_Prelude "HOL-Library.Multiset"
begin

section \<open>slices.SortFunc and three-way comparison\<close>

text \<open>
  Go's \<^verbatim>\<open>cmp.Compare\<close> and \<^verbatim>\<open>cmp.Or\<close>, and a sort by a comparison function.
  \<^verbatim>\<open>slices.SortFunc\<close> is not stable, so nothing may depend on how it orders elements that
  compare equal. The locale \<open>go_order\<close> states what a comparison function must satisfy and
  shows, once, that the head of \<^emph>\<open>any\<close> sorted permutation is a least element: the clients rest on
  that and not on the insertion sort used to compute.
\<close>

definition go_compare :: "'a::linorder \<Rightarrow> 'a \<Rightarrow> int" where
  "go_compare a b = (if a < b then -1 else if b < a then 1 else 0)"

fun cmp_or :: "int list \<Rightarrow> int" where
  "cmp_or [] = 0"
| "cmp_or (x # xs) = (if x \<noteq> 0 then x else cmp_or xs)"

fun insert_by :: "('a \<Rightarrow> 'a \<Rightarrow> int) \<Rightarrow> 'a \<Rightarrow> 'a list \<Rightarrow> 'a list" where
  "insert_by cmp x [] = [x]"
| "insert_by cmp x (y # ys) = (if cmp y x < 0 then y # insert_by cmp x ys else x # y # ys)"

fun sortFunc :: "('a \<Rightarrow> 'a \<Rightarrow> int) \<Rightarrow> 'a list \<Rightarrow> 'a list" where
  "sortFunc cmp [] = []"
| "sortFunc cmp (x # xs) = insert_by cmp x (sortFunc cmp xs)"

fun sorted_by :: "('a \<Rightarrow> 'a \<Rightarrow> int) \<Rightarrow> 'a list \<Rightarrow> bool" where
  "sorted_by cmp [] = True"
| "sorted_by cmp (x # xs) = (list_all (\<lambda>y. cmp x y \<le> 0) xs \<and> sorted_by cmp xs)"

lemma mset_insert_by [simp]: "mset (insert_by cmp x ys) = add_mset x (mset ys)"
  by (induction ys) auto

lemma mset_sortFunc [simp]: "mset (sortFunc cmp xs) = mset xs"
  by (induction xs) auto

lemma set_sortFunc [simp]: "set (sortFunc cmp xs) = set xs"
  by (metis mset_sortFunc set_mset_mset)

lemma sortFunc_Nil_iff [simp]: "sortFunc cmp xs = [] \<longleftrightarrow> xs = []"
  by (metis mset_sortFunc mset_zero_iff)

lemma go_compare_simps [simp]:
  "go_compare a b < 0 \<longleftrightarrow> a < b" "go_compare a b = 0 \<longleftrightarrow> a = b" "0 < go_compare a b \<longleftrightarrow> b < a"
  by (auto simp: go_compare_def)

text \<open>Comparing one field and then the rest is comparing pairs lexicographically.\<close>

lemma cmp_or_Cons_neg:
  "cmp_or (go_compare a b # xs) < 0 \<longleftrightarrow> a < b \<or> a = b \<and> cmp_or xs < 0"
  by (auto simp: go_compare_def)

lemma cmp_or_Cons_zero: "cmp_or (go_compare a b # xs) = 0 \<longleftrightarrow> a = b \<and> cmp_or xs = 0"
  by (auto simp: go_compare_def)

locale go_order =
  fixes cmp :: "'a \<Rightarrow> 'a \<Rightarrow> int" and key :: "'a \<Rightarrow> 'k::linorder"
  assumes cmp_neg: "cmp a b < 0 \<longleftrightarrow> key a < key b"
    and cmp_zero: "cmp a b = 0 \<longleftrightarrow> key a = key b"
begin

lemma cmp_le: "cmp a b \<le> 0 \<longleftrightarrow> key a \<le> key b"
  using cmp_neg[of a b] cmp_zero[of a b] by (auto simp: order_le_less)

lemma sorted_insert_by: "sorted_by cmp ys \<Longrightarrow> sorted_by cmp (insert_by cmp x ys)"
proof (induction ys)
  case (Cons y ys)
  have "set (insert_by cmp x ys) = insert x (set ys)"
    by (metis mset_insert_by set_mset_add_mset_insert set_mset_mset)
  with Cons show ?case
    by (auto simp: list_all_iff cmp_neg cmp_le dest: order_trans)
qed simp

lemma sorted_sortFunc: "sorted_by cmp (sortFunc cmp xs)"
  by (induction xs) (simp_all add: sorted_insert_by)

text \<open>The head of a sorted permutation has the least key.\<close>

lemma hd_sorted_least:
  assumes "mset ys = mset xs" "sorted_by cmp ys" "x \<in> set xs"
  shows "key (hd ys) \<le> key x"
proof -
  from assms(1) have "set ys = set xs" by (rule mset_eq_setD)
  with assms(3) obtain y zs where "ys = y # zs" "x \<in> set ys" by (cases ys) auto
  with assms(2) show ?thesis by (auto simp: list_all_iff cmp_le)
qed

lemma hd_sorted_mem: "mset ys = mset xs \<Longrightarrow> xs \<noteq> [] \<Longrightarrow> hd ys \<in> set xs"
  by (metis list.set_sel(1) mset_eq_setD mset_zero_iff)

text \<open>Whatever algorithm sorts, the head has the same key.\<close>

lemma hd_sorted_unique:
  assumes "mset ys = mset xs" "sorted_by cmp ys" "xs \<noteq> []"
  shows "key (hd ys) = key (hd (sortFunc cmp xs))"
proof (rule antisym)
  have m: "hd (sortFunc cmp xs) \<in> set xs" "hd ys \<in> set xs"
    using hd_sorted_mem[of "sortFunc cmp xs" xs] hd_sorted_mem[OF assms(1,3)] assms(3) by auto
  show "key (hd ys) \<le> key (hd (sortFunc cmp xs))"
    by (rule hd_sorted_least[OF assms(1,2) m(1)])
  show "key (hd (sortFunc cmp xs)) \<le> key (hd ys)"
    by (rule hd_sorted_least[OF _ sorted_sortFunc m(2)]) simp
qed

end

end
