(* ===== verification/Planner_Choice.thy ===== *)
theory Planner_Choice
  imports Planner
begin

section \<open>The planner: which pair is chosen, and what the ledger holds\<close>

text \<open>
  The comparison function of \<^verbatim>\<open>Place\<close> is an instance of \<open>go_order\<close>: it orders the candidates
  by \<open>cand_key\<close>, the order the comment on \<^verbatim>\<open>Place\<close> describes. A decision depends on a candidate
  only through its key, so it does not depend on the sort algorithm.
\<close>

subsection \<open>The order of the candidates\<close>

definition cand_key :: "candidate \<Rightarrow> bool \<times> int \<times> int \<times> int \<times> int \<times> string \<times> string" where
  "cand_key c = (cd_headroom c < 0, disjointRank c, - cd_headroom c, cd_load c, cd_mirrors c,
     if_address (cd_src c), if_address (cd_tgt c))"

lemma candidate_cmp_neg: "candidate_cmp a b < 0 \<longleftrightarrow> cand_key a < cand_key b"
  by (auto simp: candidate_cmp_def cand_key_def Let_def cmp_or_Cons_neg less_prod_def' simp del: cmp_or.simps(2)
      go_compare_simps)

lemma candidate_cmp_zero: "candidate_cmp a b = 0 \<longleftrightarrow> cand_key a = cand_key b"
  by (auto simp: candidate_cmp_def cand_key_def Let_def cmp_or_Cons_zero simp del: cmp_or.simps(2)
      go_compare_simps)

interpretation cand: go_order candidate_cmp cand_key
  by unfold_locales (rule candidate_cmp_neg candidate_cmp_zero)+

lemma disjointRank_shares:
  "disjointRank a = disjointRank b \<longleftrightarrow>
     cd_sharesSource a = cd_sharesSource b \<and> cd_sharesTarget a = cd_sharesTarget b"
  by (auto simp: disjointRank_def)

lemma decide_key: "cand_key a = cand_key b \<Longrightarrow> decide s a = decide s b"
  by (simp add: cand_key_def decide_def disjointRank_shares)

subsection \<open>Place as a function of the candidates\<close>

lemma candidates_nonempty:
  assumes "candidates ll l s req \<noteq> []"
  shows "routable ll (node_interfaces (ledger_node l (rq_sourceNode req)) (rq_provider req)) \<noteq> []"
    and "routable ll (node_interfaces (ledger_node l (rq_targetNode req)) (rq_provider req)) \<noteq> []"
  using assms
  by (auto simp: candidates_def allowed_pairs_def all_pairs_def Let_def split: Pairing.splits if_splits)

lemma place_eq:
  "place ll l s req =
     (if candidates ll l s req = [] then empty_decision OutcomeNoInterface 0
      else decide s (hd (sortFunc candidate_cmp (candidates ll l s req))))"
  using candidates_nonempty[of ll l s req] by (auto simp: place_def Let_def)

lemma best_mem: "candidates ll l s req \<noteq> [] \<Longrightarrow>
  hd (sortFunc candidate_cmp (candidates ll l s req)) \<in> set (candidates ll l s req)"
  by (rule cand.hd_sorted_mem) simp_all

lemma best_least:
  "c \<in> set (candidates ll l s req) \<Longrightarrow>
   cand_key (hd (sortFunc candidate_cmp (candidates ll l s req))) \<le> cand_key c"
  by (rule cand.hd_sorted_least[OF _ cand.sorted_sortFunc]) simp_all

text \<open>A pair with room comes before one without.\<close>

lemma best_feasible:
  assumes "c \<in> set (candidates ll l s req)" "0 \<le> cd_headroom c"
  shows "0 \<le> cd_headroom (hd (sortFunc candidate_cmp (candidates ll l s req)))"
  using best_least[OF assms(1)] assms(2) by (auto simp: cand_key_def less_eq_prod_def not_le split: if_splits)

lemma decide_outcome:
  "dec_outcome (decide s c) =
     (if cd_headroom c < 0 then (if set_overcommit s = OvercommitHold then OutcomeHeld else OutcomeOvercommitted)
      else OutcomePlaced)"
  by (simp add: decide_def empty_decision_def)

text \<open>C8. The pair Place answers does not depend on the sort algorithm: for every permutation of
  the candidates that is sorted by its comparison function, the decision is the one taken on the
  first of them, and that candidate is least in the documented order: room before no room, then
  fewer ports shared with the redundancy siblings (a shared target being worse than a shared
  source), then more headroom, less load, fewer mirrors, lower addresses.\<close>

theorem place_any_sort:
  assumes "mset ys = mset (candidates ll l s req)" "sorted_by candidate_cmp ys" "ys \<noteq> []"
  shows "place ll l s req = decide s (hd ys) \<and> list_all (\<lambda>c. cand_key (hd ys) \<le> cand_key c) ys"
proof -
  have set: "set ys = set (candidates ll l s req)" using assms(1) by (rule mset_eq_setD)
  have ne: "candidates ll l s req \<noteq> []" using set assms(3) by (metis set_empty)
  have "cand_key (hd ys) = cand_key (hd (sortFunc candidate_cmp (candidates ll l s req)))"
    by (rule cand.hd_sorted_unique[OF assms(1,2) ne])
  then have "place ll l s req = decide s (hd ys)"
    using ne decide_key[of "hd ys" _ s] by (simp add: place_eq)
  moreover have "list_all (\<lambda>c. cand_key (hd ys) \<le> cand_key c) ys"
    unfolding list_all_iff set using cand.hd_sorted_least[OF assms(1,2)] by (intro ballI)
  ultimately show ?thesis ..
qed

text \<open>What each outcome means: NoInterface, that no pair of interfaces qualifies; Placed, that
  the pair named is a candidate that leaves non-negative headroom on both interfaces and on every
  budget they draw on; Overcommitted and Held, that pairs qualify and not one of them has room,
  the policy deciding between the two.\<close>

theorem place_outcome:
  "let cs = candidates ll l s req; d = place ll l s req in
   (dec_outcome d = OutcomeNoInterface \<longleftrightarrow> cs = []) \<and>
   (dec_outcome d = OutcomePlaced \<longleftrightarrow> list_ex (\<lambda>c. 0 \<le> cd_headroom c) cs) \<and>
   (dec_outcome d = OutcomeOvercommitted \<longleftrightarrow>
      cs \<noteq> [] \<and> list_all (\<lambda>c. cd_headroom c < 0) cs \<and> set_overcommit s = OvercommitPlace) \<and>
   (dec_outcome d = OutcomeHeld \<longleftrightarrow>
      cs \<noteq> [] \<and> list_all (\<lambda>c. cd_headroom c < 0) cs \<and> set_overcommit s = OvercommitHold) \<and>
   (if dec_outcome d \<in> {OutcomePlaced, OutcomeOvercommitted}
    then list_ex (\<lambda>c. dec_headroom d = cd_headroom c \<and>
           dec_placement d = \<lparr>pl_sourceInterface = if_address (cd_src c), pl_targetInterface = if_address (cd_tgt c)\<rparr>) cs
    else dec_placement d = no_placement)"
proof (cases "candidates ll l s req = []")
  case True
  then show ?thesis by (simp add: place_eq empty_decision_def)
next
  case False
  let ?b = "hd (sortFunc candidate_cmp (candidates ll l s req))"
  have mem: "?b \<in> set (candidates ll l s req)" using False by (rule best_mem)
  have feas: "0 \<le> cd_headroom ?b \<longleftrightarrow> list_ex (\<lambda>c. 0 \<le> cd_headroom c) (candidates ll l s req)"
    using mem best_feasible by (auto simp: list_ex_iff)
  have full: "cd_headroom ?b < 0 \<longleftrightarrow> list_all (\<lambda>c. cd_headroom c < 0) (candidates ll l s req)"
    using feas by (auto simp: list_ex_iff list_all_iff not_le)
  have excl: "list_ex (\<lambda>c. 0 \<le> cd_headroom c) (candidates ll l s req) \<longleftrightarrow>
      \<not> list_all (\<lambda>c. cd_headroom c < 0) (candidates ll l s req)"
    by (force simp: list_ex_iff list_all_iff)
  have oc: "set_overcommit s \<noteq> OvercommitHold \<longleftrightarrow> set_overcommit s = OvercommitPlace"
    by (cases "set_overcommit s") simp_all
  have ex: "list_ex (\<lambda>c. cd_headroom ?b = cd_headroom c \<and>
      \<lparr>pl_sourceInterface = if_address (cd_src ?b), pl_targetInterface = if_address (cd_tgt ?b)\<rparr> =
      \<lparr>pl_sourceInterface = if_address (cd_src c), pl_targetInterface = if_address (cd_tgt c)\<rparr>) (candidates ll l s req)"
    using mem by (auto simp: list_ex_iff)
  have pl: "place ll l s req = decide s ?b" using False by (simp add: place_eq)
  show ?thesis
    unfolding Let_def pl decide_outcome
    using False feas full oc ex excl by (simp add: decide_def empty_decision_def not_le)
qed

text \<open>Anti-affinity: as long as some qualifying pair with room uses no port of the mirror's
  redundancy siblings, neither does the pair that is chosen; and while some pair with room avoids
  the siblings' target ports, so does the one chosen.\<close>

theorem place_avoids_siblings:
  assumes "c \<in> set (candidates ll l s req)" "0 \<le> cd_headroom c" "\<not> cd_sharesTarget c"
  shows "dec_outcome (place ll l s req) = OutcomePlaced \<and>
         \<not> dec_sharesTarget (place ll l s req) \<and>
         (\<not> cd_sharesSource c \<longrightarrow> \<not> dec_sharesSource (place ll l s req))"
proof -
  let ?b = "hd (sortFunc candidate_cmp (candidates ll l s req))"
  have ne: "candidates ll l s req \<noteq> []" using assms(1) by auto
  have pl: "place ll l s req = decide s ?b" using ne by (simp add: place_eq)
  have b: "0 \<le> cd_headroom ?b" using assms(1,2) by (rule best_feasible)
  have "disjointRank ?b \<le> disjointRank c"
    using best_least[OF assms(1)] b assms(2) by (auto simp: cand_key_def less_eq_prod_def)
  with assms(3) have "\<not> cd_sharesTarget ?b" "\<not> cd_sharesSource c \<longrightarrow> \<not> cd_sharesSource ?b"
    by (auto simp: disjointRank_def split: if_splits)
  with b show ?thesis unfolding pl by (simp add: decide_outcome) (simp add: decide_def)
qed

subsection \<open>The ledger\<close>

lemma charge_nodes [simp]: "led_nodes (charge l p) = led_nodes l"
  by (simp add: charge_def Let_def)

lemma charge_ledger_node [simp]: "ledger_node (charge l p) = ledger_node l"
  by (simp add: ledger_node_def fun_eq_iff)

lemma charge_budgetsOf [simp]: "budgetsOf (charge l p) = budgetsOf l"
  by (simp add: budgetsOf_def fun_eq_iff)

text \<open>What a mirror charges a key: nothing, its demand, or its demand once per budget entry.\<close>

definition source_key :: "Ledger \<Rightarrow> Placed \<Rightarrow> string \<times> string" where
  "source_key l p = (pd_sourceNode p,
     node_port (ledger_node l (pd_sourceNode p)) (pd_provider p) (pl_sourceInterface (pd_placement p)))"

definition target_key :: "Ledger \<Rightarrow> Placed \<Rightarrow> string \<times> string" where
  "target_key l p = (pd_targetNode p,
     node_port (ledger_node l (pd_targetNode p)) (pd_provider p) (pl_targetInterface (pd_placement p)))"

definition budget_hits :: "Ledger \<Rightarrow> string \<Rightarrow> string \<Rightarrow> string \<times> string \<Rightarrow> nat" where
  "budget_hits l node address k =
     (if fst k = node then count_list (map bud_name (budgetsOf l node address)) (snd k) else 0)"

lemma charge_keys [simp]:
  "source_key (charge l p) = source_key l" "target_key (charge l p) = target_key l"
  "budget_hits (charge l p) = budget_hits l"
  by (simp_all add: source_key_def target_key_def budget_hits_def fun_eq_iff)

lemma add64_pow: "((\<lambda>x. add64 x d) ^^ n) (i64 a) = i64 (a + int n * d)"
proof (induction n)
  case (Suc n)
  then have "((\<lambda>x. add64 x d) ^^ Suc n) (i64 a) = i64 (i64 (a + int n * d) + d)"
    by (simp add: add64_def)
  then show ?case using i64_add_left[of "a + int n * d" d] by (simp add: algebra_simps)
qed simp

lemma charge_budgets_at:
  "charge_budgets node d bs m k =
     (if fst k = node then ((\<lambda>x. add64 x d) ^^ count_list (map bud_name bs) (snd k)) (m k) else m k)"
proof (induction bs arbitrary: m)
  case (Cons b bs)
  show ?case
    by (auto simp: Cons.IH funpow_swap1[of "\<lambda>x. add64 x d", symmetric] prod_eq_iff)
qed simp

lemma charge_at:
  "led_egress (charge l p) k =
     (if k = source_key l p then charge_load (led_egress l k) (pd_demand p) else led_egress l k)"
  "led_ingress (charge l p) k =
     (if k = target_key l p then charge_load (led_ingress l k) (pd_demand p) else led_ingress l k)"
  "led_budgetEgress (charge l p) k =
     ((\<lambda>x. add64 x (pd_demand p)) ^^ budget_hits l (pd_sourceNode p) (pl_sourceInterface (pd_placement p)) k)
       (led_budgetEgress l k)"
  "led_budgetIngress (charge l p) k =
     ((\<lambda>x. add64 x (pd_demand p)) ^^ budget_hits l (pd_targetNode p) (pl_targetInterface (pd_placement p)) k)
       (led_budgetIngress l k)"
  by (simp_all add: charge_def Let_def source_key_def target_key_def charge_budgets_at budget_hits_def)

text \<open>A ledger entry as the sum of what its mirrors charge, wrapped once.\<close>

definition demand_sum :: "(Placed \<Rightarrow> nat) \<Rightarrow> Placed list \<Rightarrow> int" where
  "demand_sum hits ps = sum_list (map (\<lambda>p. int (hits p) * pd_demand p) ps)"

lemma foldl_charge_nodes [simp]: "led_nodes (foldl charge l ps) = led_nodes l"
  by (induction ps arbitrary: l) simp_all

lemma foldl_charge_egress:
  assumes "bits (led_egress l k) = i64 a" "mirrors (led_egress l k) = m"
  shows "bits (led_egress (foldl charge l ps) k) =
           i64 (a + demand_sum (\<lambda>p. if source_key l p = k then 1 else 0) ps) \<and>
         mirrors (led_egress (foldl charge l ps) k) = m + int (length (filter (\<lambda>p. source_key l p = k) ps))"
  using assms
proof (induction ps arbitrary: l a m)
  case (Cons p ps)
  show ?case
  proof (cases "source_key l p = k")
    case True
    with Cons.prems have "bits (led_egress (charge l p) k) = i64 (a + pd_demand p)"
      "mirrors (led_egress (charge l p) k) = m + 1"
      by (auto simp: charge_at charge_load_def add64_def i64_add_left)
    from Cons.IH[OF this] True show ?thesis
      by (simp add: demand_sum_def algebra_simps)
  next
    case False
    with Cons.prems have "bits (led_egress (charge l p) k) = i64 a" "mirrors (led_egress (charge l p) k) = m"
      by (auto simp: charge_at)
    from Cons.IH[OF this] False show ?thesis
      by (simp add: demand_sum_def)
  qed
qed (simp add: demand_sum_def)

lemma foldl_charge_ingress:
  assumes "bits (led_ingress l k) = i64 a" "mirrors (led_ingress l k) = m"
  shows "bits (led_ingress (foldl charge l ps) k) =
           i64 (a + demand_sum (\<lambda>p. if target_key l p = k then 1 else 0) ps) \<and>
         mirrors (led_ingress (foldl charge l ps) k) = m + int (length (filter (\<lambda>p. target_key l p = k) ps))"
  using assms
proof (induction ps arbitrary: l a m)
  case (Cons p ps)
  show ?case
  proof (cases "target_key l p = k")
    case True
    with Cons.prems have "bits (led_ingress (charge l p) k) = i64 (a + pd_demand p)"
      "mirrors (led_ingress (charge l p) k) = m + 1"
      by (auto simp: charge_at charge_load_def add64_def i64_add_left)
    from Cons.IH[OF this] True show ?thesis
      by (simp add: demand_sum_def algebra_simps)
  next
    case False
    with Cons.prems have "bits (led_ingress (charge l p) k) = i64 a" "mirrors (led_ingress (charge l p) k) = m"
      by (auto simp: charge_at)
    from Cons.IH[OF this] False show ?thesis
      by (simp add: demand_sum_def)
  qed
qed (simp add: demand_sum_def)

lemma foldl_charge_budgets:
  assumes "led_budgetEgress l k = i64 a" "led_budgetIngress l k = i64 b"
  shows "led_budgetEgress (foldl charge l ps) k =
           i64 (a + demand_sum (\<lambda>p. budget_hits l (pd_sourceNode p) (pl_sourceInterface (pd_placement p)) k) ps) \<and>
         led_budgetIngress (foldl charge l ps) k =
           i64 (b + demand_sum (\<lambda>p. budget_hits l (pd_targetNode p) (pl_targetInterface (pd_placement p)) k) ps)"
  using assms
proof (induction ps arbitrary: l a b)
  case (Cons p ps)
  have "led_budgetEgress (charge l p) k =
      i64 (a + int (budget_hits l (pd_sourceNode p) (pl_sourceInterface (pd_placement p)) k) * pd_demand p)"
    "led_budgetIngress (charge l p) k =
      i64 (b + int (budget_hits l (pd_targetNode p) (pl_targetInterface (pd_placement p)) k) * pd_demand p)"
    using Cons.prems by (simp_all add: charge_at add64_pow)
  from Cons.IH[OF this] show ?case
    by (simp add: demand_sum_def algebra_simps)
qed (simp add: demand_sum_def)

definition node_map :: "Node list \<Rightarrow> (string \<rightharpoonup> Node)" where
  "node_map nodes = foldl (\<lambda>m n. m(node_name n \<mapsto> n)) Map.empty nodes"

lemma newLedger_entries:
  "let l = newLedger nodes ps; e = empty_ledger (node_map nodes) in
   egress l node p = (i64 (demand_sum (\<lambda>q. if source_key e q = (node, p) then 1 else 0) ps),
                      int (length (filter (\<lambda>q. source_key e q = (node, p)) ps))) \<and>
   ingress l node p = (i64 (demand_sum (\<lambda>q. if target_key e q = (node, p) then 1 else 0) ps),
                       int (length (filter (\<lambda>q. target_key e q = (node, p)) ps))) \<and>
   budgetLoad l node b =
     (i64 (demand_sum (\<lambda>q. budget_hits e (pd_sourceNode q) (pl_sourceInterface (pd_placement q)) (node, b)) ps),
      i64 (demand_sum (\<lambda>q. budget_hits e (pd_targetNode q) (pl_targetInterface (pd_placement q)) (node, b)) ps))"
proof -
  let ?e = "empty_ledger (node_map nodes)"
  have z: "i64 0 = 0" by simp
  have "bits (led_egress ?e k) = i64 0" "mirrors (led_egress ?e k) = 0"
    "bits (led_ingress ?e k) = i64 0" "mirrors (led_ingress ?e k) = 0"
    "led_budgetEgress ?e k = i64 0" "led_budgetIngress ?e k = i64 0" for k
    by (simp_all add: empty_ledger_def zero_load_def)
  then show ?thesis
    using foldl_charge_egress[of ?e "(node, p)" 0 0 ps] foldl_charge_ingress[of ?e "(node, p)" 0 0 ps]
      foldl_charge_budgets[of ?e "(node, b)" 0 0 ps]
    by (simp add: Let_def newLedger_def node_map_def egress_def ingress_def budgetLoad_def)
qed

text \<open>The ledger is the accounting it is meant to be: on every port, in each direction, the
  committed rate is the sum of the demands of the mirrors placed there (wrapped to int64 once) and
  the mirror count is their number; and each budget carries, per direction, the sum of the demands
  of the mirrors on an interface that draws on it.\<close>

theorem newLedger_sums:
  "let l = newLedger nodes ps; e = empty_ledger (node_map nodes) in
   egress l node p = (i64 (demand_sum (\<lambda>q. if source_key e q = (node, p) then 1 else 0) ps),
                      int (length (filter (\<lambda>q. source_key e q = (node, p)) ps))) \<and>
   ingress l node p = (i64 (demand_sum (\<lambda>q. if target_key e q = (node, p) then 1 else 0) ps),
                       int (length (filter (\<lambda>q. target_key e q = (node, p)) ps))) \<and>
   budgetLoad l node b =
     (i64 (demand_sum (\<lambda>q. budget_hits e (pd_sourceNode q) (pl_sourceInterface (pd_placement q)) (node, b)) ps),
      i64 (demand_sum (\<lambda>q. budget_hits e (pd_targetNode q) (pl_targetInterface (pd_placement q)) (node, b)) ps))"
  by (rule newLedger_entries)

lemma demand_sum_mset: "demand_sum h ps = sum_mset (image_mset (\<lambda>p. int (h p) * pd_demand p) (mset ps))"
  by (induction ps) (simp_all add: demand_sum_def)

lemma demand_sum_perm: "mset ps = mset qs \<Longrightarrow> demand_sum h ps = demand_sum h qs"
  by (simp only: demand_sum_mset)

lemma filter_length_perm: "mset ps = mset qs \<Longrightarrow> length (filter P ps) = length (filter P qs)"
  by (metis mset_filter size_mset)

text \<open>The order in which placed mirrors are read does not matter: two listings of the same
  mirrors give the same ledger, so the planner's answers do not depend on the order the API server
  lists objects in.\<close>

theorem newLedger_order_independent:
  assumes "mset ps = mset qs"
  shows "newLedger nodes ps = newLedger nodes qs"
proof -
  have l: "l = l'" if "led_nodes l = led_nodes l'"
    "\<And>n p. egress l n p = egress l' n p" "\<And>n p. ingress l n p = ingress l' n p"
    "\<And>n b. budgetLoad l n b = budgetLoad l' n b" for l l' :: Ledger
  proof -
    have "led_egress l k = led_egress l' k" for k
      using that(2)[of "fst k" "snd k"] unfolding egress_def Let_def by (intro load.equality) simp_all
    moreover have "led_ingress l k = led_ingress l' k" for k
      using that(3)[of "fst k" "snd k"] unfolding ingress_def Let_def by (intro load.equality) simp_all
    moreover have "led_budgetEgress l k = led_budgetEgress l' k" "led_budgetIngress l k = led_budgetIngress l' k" for k
      using that(4)[of "fst k" "snd k"] by (simp_all add: budgetLoad_def)
    ultimately have "led_egress l = led_egress l'" "led_ingress l = led_ingress l'"
      "led_budgetEgress l = led_budgetEgress l'" "led_budgetIngress l = led_budgetIngress l'"
      by blast+
    then show ?thesis using that(1) by (intro Ledger.equality) simp_all
  qed
  have nodes: "led_nodes (newLedger nodes ps) = led_nodes (newLedger nodes qs)"
    by (simp add: newLedger_def empty_ledger_def)
  show ?thesis
    by (rule l[OF nodes])
      (simp_all add: newLedger_entries[unfolded Let_def] demand_sum_perm[OF assms] filter_length_perm[OF assms])
qed

end
