(* ===== verification/Planner_Capacity.thy ===== *)
theory Planner_Capacity
  imports Planner_Choice
begin

section \<open>The planner: no interface and no budget is committed beyond its share\<close>

text \<open>
  The invariant of a run of the planner under the hold policy. \<open>within\<close> says that every interface
  and every shared budget of a known capacity carries at most its plannable share, per direction;
  a placement the planner reports as Placed keeps it once it is charged, so every run does.
  What a node reports is assumed well formed (\<open>node_ok\<close>): provider names, addresses and budget
  names are unique, as the list-map keys of the custom resource make them, and the addresses of one
  port report one capacity.
\<close>

subsection \<open>Specification\<close>

definition ifaces :: "Node \<Rightarrow> MxlFabricInterface list" where
  "ifaces n = concat (map pc_interfaces (nc_providers (node_status n)))"

definition node_ok :: "Node \<Rightarrow> bool" where
  "node_ok n \<longleftrightarrow>
     distinct (map pc_name (nc_providers (node_status n))) \<and>
     list_all (\<lambda>p. distinct (map if_address (pc_interfaces p))) (nc_providers (node_status n)) \<and>
     distinct (map bud_name (nc_budgets (node_status n))) \<and>
     list_all (\<lambda>i. list_all (\<lambda>j. port i = port j \<longrightarrow> if_capacity i = if_capacity j) (ifaces n)) (ifaces n) \<and>
     list_all (\<lambda>i. if_capacity i < 2 ^ 63) (ifaces n) \<and>
     list_all (\<lambda>b. bud_capacity b < 2 ^ 63) (nc_budgets (node_status n))"

definition fits :: "int \<Rightarrow> int \<Rightarrow> int \<Rightarrow> bool" where
  "fits capacity util used \<longleftrightarrow> (0 < capacity \<longrightarrow> 0 \<le> used \<and> used \<le> plannable capacity util)"

definition budget_fits :: "int \<Rightarrow> MxlFabricBudget \<Rightarrow> int \<Rightarrow> int \<Rightarrow> bool" where
  "budget_fits util b e i =
     (case bud_mode b of
        FabricBudgetEgress \<Rightarrow> fits (bud_capacity b) util e
      | FabricBudgetCombined \<Rightarrow> 0 < bud_capacity b \<longrightarrow> 0 \<le> e \<and> 0 \<le> i \<and> e + i \<le> plannable (bud_capacity b) util
      | _ \<Rightarrow> fits (bud_capacity b) util i)"

definition node_within :: "Settings \<Rightarrow> Ledger \<Rightarrow> string \<Rightarrow> Node \<Rightarrow> bool" where
  "node_within s l k n \<longleftrightarrow>
     (let u = utilization n (set_maxUtilizationPercent s) in
      list_all (\<lambda>i. fits (if_capacity i) u (fst (egress l k (port i))) \<and>
                    fits (if_capacity i) u (fst (ingress l k (port i)))) (ifaces n) \<and>
      list_all (\<lambda>b. budget_fits u b (fst (budgetLoad l k (bud_name b))) (snd (budgetLoad l k (bud_name b))))
        (nc_budgets (node_status n)))"

definition within :: "Settings \<Rightarrow> Ledger \<Rightarrow> bool" where
  "within s l \<longleftrightarrow> (\<forall>k n. led_nodes l k = Some n \<longrightarrow> node_within s l k n)"

definition nodes_ok :: "Ledger \<Rightarrow> bool" where
  "nodes_ok l \<longleftrightarrow> (\<forall>k n. led_nodes l k = Some n \<longrightarrow> node_name n = k \<and> node_ok n)"

text \<open>A request whose answer is charged, and a run of requests.\<close>

definition placed_by :: "Request \<Rightarrow> Decision \<Rightarrow> Placed" where
  "placed_by req d = \<lparr>pd_sourceNode = rq_sourceNode req, pd_targetNode = rq_targetNode req,
     pd_provider = rq_provider req, pd_placement = dec_placement d, pd_demand = rq_demand req\<rparr>"

definition place_step :: "(string \<Rightarrow> bool) \<Rightarrow> Settings \<Rightarrow> Ledger \<Rightarrow> Request \<Rightarrow> Ledger" where
  "place_step ll s l req =
     (let d = place ll l s req
      in if dec_outcome d \<in> {OutcomePlaced, OutcomeOvercommitted} then charge l (placed_by req d) else l)"

definition place_all :: "(string \<Rightarrow> bool) \<Rightarrow> Settings \<Rightarrow> Ledger \<Rightarrow> Request list \<Rightarrow> Ledger" where
  "place_all ll s l reqs = foldl (place_step ll s) l reqs"

definition request_ok :: "Request \<Rightarrow> bool" where
  "request_ok r \<longleftrightarrow> rq_sourceNode r \<noteq> rq_targetNode r \<and> 0 \<le> rq_demand r \<and> rq_demand r < 2 ^ 63"

subsection \<open>Arithmetic of room\<close>

lemma share_bounds:
  assumes "0 \<le> (c::int)" "0 < u" "u < 100"
  shows "0 \<le> c div 100 * u" "c div 100 * u \<le> c"
proof -
  have "c div 100 * u \<le> c div 100 * 100" using assms by (intro mult_left_mono) auto
  then show "c div 100 * u \<le> c" by linarith
  show "0 \<le> c div 100 * u" using assms by (intro mult_nonneg_nonneg) auto
qed

lemma plannable_bounds:
  assumes "0 \<le> c" "c < 2 ^ 63"
  shows "0 \<le> plannable c u" "plannable c u \<le> c"
proof -
  have "0 \<le> plannable c u \<and> plannable c u \<le> c"
  proof (cases "u \<le> 0 \<or> 100 \<le> u")
    case True
    with assms show ?thesis by (auto simp: plannable_def)
  next
    case False
    then have b: "0 \<le> c div 100 * u" "c div 100 * u \<le> c" using share_bounds[of c u] assms(1) by auto
    then have "in_i64 (c div 100 * u)" using assms(2) by linarith
    then have "plannable c u = c div 100 * u"
      using False assms(1) by (auto simp: plannable_def quot64_nonneg mul64_id)
    with b show ?thesis by simp
  qed
  then show "0 \<le> plannable c u" "plannable c u \<le> c" by simp_all
qed

lemma room_nonneg:
  "0 \<le> room d t h \<longleftrightarrow>
     0 \<le> h \<and> (case t of (c, u, x) \<Rightarrow> 0 < c \<longrightarrow> 0 \<le> sub64 (sub64 (plannable c u) x) d)"
  by (cases t) (simp add: room_def not_less)

lemma room_fold_nonneg:
  "0 \<le> fold (room d) rs h \<longleftrightarrow>
     0 \<le> h \<and> list_all (\<lambda>(c, u, x). 0 < c \<longrightarrow> 0 \<le> sub64 (sub64 (plannable c u) x) d) rs"
  by (induction rs arbitrary: h) (simp_all add: room_nonneg conj_assoc)

lemma room_enough:
  assumes "0 \<le> sub64 (sub64 (plannable c u) x) d" "0 < c" "c < 2 ^ 63" "fits c u x" "0 \<le> d" "d < 2 ^ 63"
  shows "fits c u (x + d)" "add64 x d = x + d"
proof -
  have p: "0 \<le> plannable c u" "plannable c u \<le> c" using plannable_bounds[of c u] assms by auto
  have x: "0 \<le> x" "x \<le> plannable c u" using assms(2,4) by (auto simp: fits_def)
  have "sub64 (sub64 (plannable c u) x) d = plannable c u - x - d"
    using p x assms(3,5,6) by (simp add: sub64_def)
  with assms(1) have le: "x + d \<le> plannable c u" by simp
  then show "fits c u (x + d)" using x assms(5) by (simp add: fits_def)
  show "add64 x d = x + d" using le x p assms(3,5) by (simp add: add64_def)
qed

subsection \<open>The interface a placement names\<close>

lemma node_interfaces_ifaces: "set (node_interfaces n p) \<subseteq> set (ifaces n)"
proof (cases "find_first (\<lambda>q. pc_name q = p) (nc_providers (node_status n))")
  case (Some q)
  then show ?thesis
    using find_first_SomeD[OF Some] by (auto simp: node_interfaces_def ifaces_def)
qed (simp add: node_interfaces_def)

lemma find_first_distinct:
  "distinct (map f xs) \<Longrightarrow> x \<in> set xs \<Longrightarrow> find_first (\<lambda>y. f y = f x) xs = Some x"
  by (induction xs) (auto simp: image_iff)

lemma filter_distinct_key:
  "distinct (map f xs) \<Longrightarrow> x \<in> set xs \<Longrightarrow> filter (\<lambda>y. f y = f x) xs = [x]"
proof (induction xs)
  case (Cons y ys)
  have none: "filter (\<lambda>z. f z = f y) ys = []" using Cons.prems(1) by (auto simp: filter_empty_conv image_iff)
  show ?case
  proof (cases "f y = f x")
    case True
    with Cons.prems have "y = x" by (auto simp: image_iff)
    with none show ?thesis by simp
  next
    case False
    with Cons show ?thesis by auto
  qed
qed simp

lemma node_port_interface:
  assumes "node_ok n" "a \<in> set (node_interfaces n pr)"
  shows "node_port n pr (if_address a) = port a"
proof -
  obtain p where p: "find_first (\<lambda>p. pc_name p = pr) (nc_providers (node_status n)) = Some p"
    and a: "a \<in> set (pc_interfaces p)"
    using assms(2)
    by (cases "find_first (\<lambda>p. pc_name p = pr) (nc_providers (node_status n))")
      (auto simp: node_interfaces_def)
  then have mem: "p \<in> set (nc_providers (node_status n))" "pc_name p = pr"
    by (auto dest: find_first_SomeD)
  with assms(1) have "filter (\<lambda>q. pc_name q = pr) (nc_providers (node_status n)) = [p]"
    using filter_distinct_key[of pc_name _ p] by (auto simp: node_ok_def)
  moreover have "distinct (map if_address (pc_interfaces p))"
    using assms(1) mem by (auto simp: node_ok_def list_all_iff)
  ultimately show ?thesis
    using find_first_distinct[OF _ a, of if_address] by (simp add: node_port_def)
qed

lemma set_routable: "set (routable ll is) \<subseteq> set is"
  by (auto simp: routable_def Let_def)

lemma set_allowed_pairs: "set (allowed_pairs pg xs ys) \<subseteq> set xs \<times> set ys"
  by (auto simp: allowed_pairs_def all_pairs_def Let_def split: Pairing.splits if_splits)

lemma node_interfaces_known:
  "a \<in> set (node_interfaces (ledger_node l k) pr) \<Longrightarrow> \<exists>n. led_nodes l k = Some n \<and> ledger_node l k = n"
  by (cases "led_nodes l k") (auto simp: ledger_node_def zero_node_def empty_caps_def node_interfaces_def)

lemma node_interfaces_ok:
  "nodes_ok l \<Longrightarrow> a \<in> set (node_interfaces (ledger_node l k) pr) \<Longrightarrow> node_ok (ledger_node l k)"
  using node_interfaces_known[of a l k pr] by (auto simp: nodes_ok_def)

text \<open>A placement that was reported Placed names two interfaces of the two nodes with room.\<close>

lemma placed_pair:
  assumes "nodes_ok l" "dec_outcome (place ll l s req) = OutcomePlaced"
  obtains n m a b where "led_nodes l (rq_sourceNode req) = Some n" "led_nodes l (rq_targetNode req) = Some m"
    "a \<in> set (node_interfaces n (rq_provider req))" "b \<in> set (node_interfaces m (rq_provider req))"
    "dec_placement (place ll l s req) = \<lparr>pl_sourceInterface = if_address a, pl_targetInterface = if_address b\<rparr>"
    "list_all (\<lambda>(c, u, x). 0 < c \<longrightarrow> 0 \<le> sub64 (sub64 (plannable c u) x) (rq_demand req)) (rooms l s n m a b)"
proof -
  let ?cs = "candidates ll l s req" and ?src = "ledger_node l (rq_sourceNode req)"
    and ?tgt = "ledger_node l (rq_targetNode req)"
  have ne: "?cs \<noteq> []" using assms(2) by (auto simp: place_eq empty_decision_def)
  define best where "best = hd (sortFunc candidate_cmp ?cs)"
  have pl: "place ll l s req = decide s best" using ne by (simp add: place_eq best_def)
  have h: "0 \<le> cd_headroom best" using assms(2) by (auto simp: pl decide_outcome split: if_splits)
  have "best \<in> set ?cs" using best_mem[OF ne] by (simp add: best_def)
  then obtain a b where ab: "(a, b) \<in> set (node_interfaces ?src (rq_provider req)) \<times>
        set (node_interfaces ?tgt (rq_provider req))" and sc: "best = score l s ?src ?tgt a b req"
    using set_allowed_pairs set_routable unfolding candidates_def Let_def by fastforce
  have cd: "cd_src best = a" "cd_tgt best = b"
    "cd_headroom best = fold (room (rq_demand req)) (rooms l s ?src ?tgt a b) maxInt64"
    by (simp_all add: sc score_def split: prod.splits)
  show thesis
  proof (rule that)
    show "led_nodes l (rq_sourceNode req) = Some ?src" "led_nodes l (rq_targetNode req) = Some ?tgt"
      using ab node_interfaces_known by fastforce+
    show "a \<in> set (node_interfaces ?src (rq_provider req))" "b \<in> set (node_interfaces ?tgt (rq_provider req))"
      using ab by auto
    show "dec_placement (place ll l s req) = \<lparr>pl_sourceInterface = if_address a, pl_targetInterface = if_address b\<rparr>"
      using h by (simp add: pl decide_def cd)
    show "list_all (\<lambda>(c, u, x). 0 < c \<longrightarrow> 0 \<le> sub64 (sub64 (plannable c u) x) (rq_demand req)) (rooms l s ?src ?tgt a b)"
      using h by (simp add: cd room_fold_nonneg)
  qed
qed

subsection \<open>One placement\<close>

text \<open>The facts of one placement the next lemmas share: two distinct nodes, an interface on each,
  the demand, and a ledger that fits.\<close>

definition admitted ::
  "Settings \<Rightarrow> Ledger \<Rightarrow> Request \<Rightarrow> Node \<Rightarrow> Node \<Rightarrow> MxlFabricInterface \<Rightarrow> MxlFabricInterface \<Rightarrow> bool" where
  "admitted s l req n m a b \<longleftrightarrow>
     nodes_ok l \<and> within s l \<and> request_ok req \<and>
     led_nodes l (rq_sourceNode req) = Some n \<and> led_nodes l (rq_targetNode req) = Some m \<and>
     a \<in> set (node_interfaces n (rq_provider req)) \<and> b \<in> set (node_interfaces m (rq_provider req)) \<and>
     list_all (\<lambda>(c, u, x). 0 < c \<longrightarrow> 0 \<le> sub64 (sub64 (plannable c u) x) (rq_demand req)) (rooms l s n m a b)"

lemma admitted_facts:
  assumes "admitted s l req n m a b"
  shows "node_ok n" "node_ok m" "node_name n = rq_sourceNode req" "node_name m = rq_targetNode req"
    "node_within s l (rq_sourceNode req) n" "node_within s l (rq_targetNode req) m"
    "a \<in> set (ifaces n)" "b \<in> set (ifaces m)"
    "0 \<le> rq_demand req" "rq_demand req < 2 ^ 63" "rq_sourceNode req \<noteq> rq_targetNode req"
  using assms node_interfaces_ifaces[of n "rq_provider req"] node_interfaces_ifaces[of m "rq_provider req"]
  by (auto simp: admitted_def nodes_ok_def within_def request_ok_def)

lemma admitted_room:
  assumes "admitted s l req n m a b" "(c, u, x) \<in> set (rooms l s n m a b)" "0 < c" "c < 2 ^ 63" "fits c u x"
  shows "fits c u (x + rq_demand req) \<and> add64 x (rq_demand req) = x + rq_demand req"
proof -
  have "0 \<le> sub64 (sub64 (plannable c u) x) (rq_demand req)"
    using assms(1,2,3) by (auto simp: admitted_def list_all_iff)
  with room_enough[OF this assms(3,4,5)] admitted_facts(9,10)[OF assms(1)] show ?thesis by simp
qed

lemma node_ok_capacity: "node_ok n \<Longrightarrow> i \<in> set (ifaces n) \<Longrightarrow> if_capacity i < 2 ^ 63"
  unfolding node_ok_def list_all_iff by blast

lemma node_ok_port: "node_ok n \<Longrightarrow> i \<in> set (ifaces n) \<Longrightarrow> j \<in> set (ifaces n) \<Longrightarrow> port i = port j \<Longrightarrow>
    if_capacity i = if_capacity j"
  unfolding node_ok_def list_all_iff by blast

lemma node_ok_budget: "node_ok n \<Longrightarrow> b \<in> set (nc_budgets (node_status n)) \<Longrightarrow> bud_capacity b < 2 ^ 63"
  unfolding node_ok_def list_all_iff by blast

lemma egress_admitted:
  assumes ad: "admitted s l req n m a b" and i: "i \<in> set (ifaces n)" "port i = port a"
  shows "fits (if_capacity i) (utilization n (set_maxUtilizationPercent s))
           (add64 (fst (egress l (rq_sourceNode req) (port i))) (rq_demand req))"
proof -
  note f = admitted_facts[OF ad]
  let ?u = "utilization n (set_maxUtilizationPercent s)" and ?x = "fst (egress l (rq_sourceNode req) (port i))"
  have cap: "if_capacity i = if_capacity a" using node_ok_port[OF f(1) i(1) f(7) i(2)] .
  have "(if_capacity i, ?u, ?x) \<in> set (rooms l s n m a b)" by (simp add: rooms_def Let_def cap i(2) f(3))
  moreover have "fits (if_capacity i) ?u ?x" using f(5) i(1) by (simp add: node_within_def Let_def list_all_iff)
  ultimately show ?thesis
    using admitted_room[OF ad] node_ok_capacity[OF f(1) i(1)] by (cases "0 < if_capacity i") (auto simp: fits_def)
qed

lemma ingress_admitted:
  assumes ad: "admitted s l req n m a b" and i: "i \<in> set (ifaces m)" "port i = port b"
  shows "fits (if_capacity i) (utilization m (set_maxUtilizationPercent s))
           (add64 (fst (ingress l (rq_targetNode req) (port i))) (rq_demand req))"
proof -
  note f = admitted_facts[OF ad]
  let ?u = "utilization m (set_maxUtilizationPercent s)" and ?x = "fst (ingress l (rq_targetNode req) (port i))"
  have cap: "if_capacity i = if_capacity b" using node_ok_port[OF f(2) i(1) f(8) i(2)] .
  have "(if_capacity i, ?u, ?x) \<in> set (rooms l s n m a b)" by (simp add: rooms_def Let_def cap i(2) f(4))
  moreover have "fits (if_capacity i) ?u ?x" using f(6) i(1) by (simp add: node_within_def Let_def list_all_iff)
  ultimately show ?thesis
    using admitted_room[OF ad] node_ok_capacity[OF f(2) i(1)] by (cases "0 < if_capacity i") (auto simp: fits_def)
qed

text \<open>The budgets: \<open>e\<close> and \<open>i\<close> are the committed egress and ingress of the budget.\<close>

lemma source_budget_room:
  assumes "bud \<in> set (budgetsOf l (node_name n) (if_address a))"
  shows "case bud_mode bud of
      FabricBudgetEgress \<Rightarrow> (bud_capacity bud, utilization n (set_maxUtilizationPercent s),
        led_budgetEgress l (node_name n, bud_name bud)) \<in> set (rooms l s n m a b)
    | FabricBudgetCombined \<Rightarrow> (bud_capacity bud, utilization n (set_maxUtilizationPercent s),
        add64 (led_budgetEgress l (node_name n, bud_name bud)) (led_budgetIngress l (node_name n, bud_name bud)))
          \<in> set (rooms l s n m a b)
    | _ \<Rightarrow> True"
  using assms by (auto simp: rooms_def source_rooms_def Let_def intro: bexI[of _ bud] split: MxlFabricBudgetMode.splits)

lemma target_budget_room:
  assumes "bud \<in> set (budgetsOf l (node_name m) (if_address b))"
  shows "case bud_mode bud of
      FabricBudgetEgress \<Rightarrow> True
    | FabricBudgetCombined \<Rightarrow> (bud_capacity bud, utilization m (set_maxUtilizationPercent s),
        add64 (led_budgetEgress l (node_name m, bud_name bud)) (led_budgetIngress l (node_name m, bud_name bud)))
          \<in> set (rooms l s n m a b)
    | _ \<Rightarrow> (bud_capacity bud, utilization m (set_maxUtilizationPercent s),
        led_budgetIngress l (node_name m, bud_name bud)) \<in> set (rooms l s n m a b)"
  using assms by (auto simp: rooms_def target_rooms_def Let_def intro: bexI[of _ bud] split: MxlFabricBudgetMode.splits)

lemma combined_room:
  assumes "0 \<le> e" "0 \<le> i" "e + i \<le> plannable c u" "0 < c" "c < 2 ^ 63"
  shows "add64 e i = e + i" "fits c u (add64 e i)"
proof -
  have "plannable c u \<le> c" using plannable_bounds(2)[of c u] assms(4,5) by simp
  then have "in_i64 (e + i)" using assms by linarith
  then show "add64 e i = e + i" by (rule add64_id)
  then show "fits c u (add64 e i)" using assms by (simp add: fits_def)
qed

lemma add64_in_range: "0 \<le> x \<Longrightarrow> 0 \<le> d \<Longrightarrow> x + d \<le> y \<Longrightarrow> y < 2 ^ 63 \<Longrightarrow> add64 x d = x + d"
  by (rule add64_id) linarith

lemma budget_egress_admitted:
  assumes ad: "admitted s l req n m a b" and bud: "bud \<in> set (budgetsOf l (rq_sourceNode req) (if_address a))"
    and mem: "bud \<in> set (nc_budgets (node_status n))"
    and fit: "budget_fits (utilization n (set_maxUtilizationPercent s)) bud e i"
    and ei: "e = led_budgetEgress l (rq_sourceNode req, bud_name bud)"
      "i = led_budgetIngress l (rq_sourceNode req, bud_name bud)"
  shows "budget_fits (utilization n (set_maxUtilizationPercent s)) bud (add64 e (rq_demand req)) i"
proof -
  note f = admitted_facts[OF ad]
  let ?u = "utilization n (set_maxUtilizationPercent s)" and ?c = "bud_capacity bud" and ?d = "rq_demand req"
  have cap: "?c < 2 ^ 63" using node_ok_budget[OF f(1) mem] .
  have rm: "case bud_mode bud of FabricBudgetEgress \<Rightarrow> (?c, ?u, e) \<in> set (rooms l s n m a b)
    | FabricBudgetCombined \<Rightarrow> (?c, ?u, add64 e i) \<in> set (rooms l s n m a b) | _ \<Rightarrow> True"
    using source_budget_room[of bud l n a s m b] bud by (simp add: f(3) ei split: MxlFabricBudgetMode.splits)
  show ?thesis
  proof (cases "0 < ?c")
    case c: True
    show ?thesis
    proof (cases "bud_mode bud")
      case FabricBudgetEgress
      with rm fit have "(?c, ?u, e) \<in> set (rooms l s n m a b)" "fits ?c ?u e"
        by (simp_all add: budget_fits_def)
      from admitted_room[OF ad this(1) c cap this(2)] show ?thesis
        using FabricBudgetEgress by (simp add: budget_fits_def)
    next
      case FabricBudgetCombined
      with fit c have e: "0 \<le> e" "0 \<le> i" "e + i \<le> plannable ?c ?u" by (simp_all add: budget_fits_def)
      note cr = combined_room[OF e c cap]
      from FabricBudgetCombined rm have "(?c, ?u, add64 e i) \<in> set (rooms l s n m a b)" by simp
      from admitted_room[OF ad this c cap cr(2)] cr(1) have sum: "e + i + ?d \<le> plannable ?c ?u"
        using c by (simp add: fits_def)
      have "add64 e ?d = e + ?d"
        by (rule add64_in_range[where y = "plannable ?c ?u"])
          (use e sum f(9) cap plannable_bounds(2)[of ?c ?u] c in linarith)+
      then show ?thesis using FabricBudgetCombined e sum f(9) by (simp add: budget_fits_def)
    qed (use fit in \<open>simp_all add: budget_fits_def\<close>)
  qed (auto simp: budget_fits_def fits_def split: MxlFabricBudgetMode.splits)
qed

lemma budget_ingress_admitted:
  assumes ad: "admitted s l req n m a b" and bud: "bud \<in> set (budgetsOf l (rq_targetNode req) (if_address b))"
    and mem: "bud \<in> set (nc_budgets (node_status m))"
    and fit: "budget_fits (utilization m (set_maxUtilizationPercent s)) bud e i"
    and ei: "e = led_budgetEgress l (rq_targetNode req, bud_name bud)"
      "i = led_budgetIngress l (rq_targetNode req, bud_name bud)"
  shows "budget_fits (utilization m (set_maxUtilizationPercent s)) bud e (add64 i (rq_demand req))"
proof -
  note f = admitted_facts[OF ad]
  let ?u = "utilization m (set_maxUtilizationPercent s)" and ?c = "bud_capacity bud" and ?d = "rq_demand req"
  have cap: "?c < 2 ^ 63" using node_ok_budget[OF f(2) mem] .
  have rm: "case bud_mode bud of FabricBudgetEgress \<Rightarrow> True
    | FabricBudgetCombined \<Rightarrow> (?c, ?u, add64 e i) \<in> set (rooms l s n m a b)
    | _ \<Rightarrow> (?c, ?u, i) \<in> set (rooms l s n m a b)"
    using target_budget_room[of bud l m b s n a] bud by (simp add: f(4) ei split: MxlFabricBudgetMode.splits)
  show ?thesis
  proof (cases "0 < ?c")
    case c: True
    have one: "fits ?c ?u (add64 i ?d)" if "(?c, ?u, i) \<in> set (rooms l s n m a b)" "fits ?c ?u i"
      using admitted_room[OF ad that(1) c cap that(2)] by simp
    show ?thesis
    proof (cases "bud_mode bud")
      case FabricBudgetCombined
      with fit c have e: "0 \<le> e" "0 \<le> i" "e + i \<le> plannable ?c ?u" by (simp_all add: budget_fits_def)
      note cr = combined_room[OF e c cap]
      from FabricBudgetCombined rm have "(?c, ?u, add64 e i) \<in> set (rooms l s n m a b)" by simp
      from admitted_room[OF ad this c cap cr(2)] cr(1) have sum: "e + i + ?d \<le> plannable ?c ?u"
        using c by (simp add: fits_def)
      have "add64 i ?d = i + ?d"
        by (rule add64_in_range[where y = "plannable ?c ?u"])
          (use e sum f(9) cap plannable_bounds(2)[of ?c ?u] c in linarith)+
      then show ?thesis using FabricBudgetCombined e sum f(9) by (simp add: budget_fits_def)
    qed (use fit rm one in \<open>simp_all add: budget_fits_def\<close>)
  qed (auto simp: budget_fits_def fits_def split: MxlFabricBudgetMode.splits)
qed

text \<open>Charging the placement moves the entries of its own two nodes only, and of those only its
  ports and its budgets, each by the demand once.\<close>

lemma count_list_distinct_map:
  "distinct (map f xs) \<Longrightarrow> x \<in> set xs \<Longrightarrow> count_list (map f (filter P xs)) (f x) = (if P x then 1 else 0)"
proof (induction xs)
  case (Cons y ys)
  have "count_list (map f (filter P ys)) (f y) = 0"
    using Cons.prems(1) by (intro count_notin) (auto simp: image_iff)
  then show ?case
    using Cons by (cases "x = y") (auto simp: image_iff)
qed simp

lemma budgetsOf_filter:
  "led_nodes l k = Some n \<Longrightarrow> \<exists>P. budgetsOf l k addr = filter P (nc_budgets (node_status n))"
  by (auto simp: budgetsOf_def Let_def)

lemma budget_hits_own:
  assumes "led_nodes l k = Some n" "node_ok n" "bud \<in> set (nc_budgets (node_status n))"
  shows "budget_hits l k addr (k, bud_name bud) = (if bud \<in> set (budgetsOf l k addr) then 1 else 0)"
proof -
  obtain P where P: "budgetsOf l k addr = filter P (nc_budgets (node_status n))"
    using budgetsOf_filter[OF assms(1)] by blast
  have "distinct (map bud_name (nc_budgets (node_status n)))" using assms(2) unfolding node_ok_def by blast
  from count_list_distinct_map[OF this assms(3), of P] show ?thesis
    by (simp add: budget_hits_def P assms(3))
qed

lemma budget_hits_other [simp]: "k \<noteq> k' \<Longrightarrow> budget_hits l k' addr (k, x) = 0"
  by (simp add: budget_hits_def)

lemma admitted_within_ports:
  assumes ad: "admitted s l req n m a b" and k: "led_nodes l k = Some q" "i \<in> set (ifaces q)"
    and d: "dec_placement d = \<lparr>pl_sourceInterface = if_address a, pl_targetInterface = if_address b\<rparr>"
  defines "u \<equiv> utilization q (set_maxUtilizationPercent s)" and "l' \<equiv> charge l (placed_by req d)"
  shows "fits (if_capacity i) u (fst (egress l' k (port i)))"
    "fits (if_capacity i) u (fst (ingress l' k (port i)))"
proof -
  note f = admitted_facts[OF ad]
  have nm: "led_nodes l (rq_sourceNode req) = Some n" "led_nodes l (rq_targetNode req) = Some m"
    "a \<in> set (node_interfaces n (rq_provider req))" "b \<in> set (node_interfaces m (rq_provider req))" "within s l"
    using ad by (simp_all add: admitted_def)
  have keys: "source_key l (placed_by req d) = (rq_sourceNode req, port a)"
    "target_key l (placed_by req d) = (rq_targetNode req, port b)"
    using node_port_interface[OF f(1) nm(3)] node_port_interface[OF f(2) nm(4)] nm(1,2)
    by (simp_all add: source_key_def target_key_def placed_by_def d ledger_node_def)
  have dm: "pd_demand (placed_by req d) = rq_demand req" by (simp add: placed_by_def)
  have old: "fits (if_capacity i) u (fst (egress l k (port i)))" "fits (if_capacity i) u (fst (ingress l k (port i)))"
    using nm(5) k by (simp_all add: within_def node_within_def u_def Let_def list_all_iff)
  show "fits (if_capacity i) u (fst (egress l' k (port i)))"
  proof (cases "k = rq_sourceNode req \<and> port i = port a")
    case True
    with k nm(1) have "i \<in> set (ifaces n)" "q = n" by simp_all
    with egress_admitted[OF ad, of i] True show ?thesis
      by (simp add: u_def l'_def egress_def Let_def charge_at keys charge_load_def dm)
  next
    case False
    with old(1) show ?thesis by (auto simp: l'_def egress_def Let_def charge_at keys)
  qed
  show "fits (if_capacity i) u (fst (ingress l' k (port i)))"
  proof (cases "k = rq_targetNode req \<and> port i = port b")
    case True
    with k nm(2) have "i \<in> set (ifaces m)" "q = m" by simp_all
    with ingress_admitted[OF ad, of i] True show ?thesis
      by (simp add: u_def l'_def ingress_def Let_def charge_at keys charge_load_def dm)
  next
    case False
    with old(2) show ?thesis by (auto simp: l'_def ingress_def Let_def charge_at keys)
  qed
qed

lemma admitted_within_budgets:
  assumes ad: "admitted s l req n m a b" and k: "led_nodes l k = Some q" "bud \<in> set (nc_budgets (node_status q))"
    and d: "dec_placement d = \<lparr>pl_sourceInterface = if_address a, pl_targetInterface = if_address b\<rparr>"
  defines "u \<equiv> utilization q (set_maxUtilizationPercent s)" and "l' \<equiv> charge l (placed_by req d)"
  shows "budget_fits u bud (led_budgetEgress l' (k, bud_name bud)) (led_budgetIngress l' (k, bud_name bud))"
proof -
  note f = admitted_facts[OF ad]
  have nm: "led_nodes l (rq_sourceNode req) = Some n" "led_nodes l (rq_targetNode req) = Some m" "within s l"
    using ad by (simp_all add: admitted_def)
  let ?e = "led_budgetEgress l (k, bud_name bud)" and ?i = "led_budgetIngress l (k, bud_name bud)"
  have old: "budget_fits u bud ?e ?i"
    using nm(3) k by (simp add: within_def node_within_def u_def Let_def list_all_iff budgetLoad_def)
  have at: "led_budgetEgress l' (k, bud_name bud) =
      ((\<lambda>x. add64 x (rq_demand req)) ^^ budget_hits l (rq_sourceNode req) (if_address a) (k, bud_name bud)) ?e"
    "led_budgetIngress l' (k, bud_name bud) =
      ((\<lambda>x. add64 x (rq_demand req)) ^^ budget_hits l (rq_targetNode req) (if_address b) (k, bud_name bud)) ?i"
    by (simp_all add: l'_def charge_at placed_by_def d)
  consider "k = rq_sourceNode req" "k \<noteq> rq_targetNode req" | "k = rq_targetNode req" "k \<noteq> rq_sourceNode req"
    | "k \<noteq> rq_sourceNode req" "k \<noteq> rq_targetNode req" using f(11) by metis
  then show ?thesis
  proof cases
    case 1
    with k nm(1) have q: "q = n" by simp
    show ?thesis
      using budget_egress_admitted[OF ad, of bud ?e ?i] old budget_hits_own[OF nm(1) f(1), of bud "if_address a"] k(2) 1
      unfolding at q u_def by simp
  next
    case 2
    with k nm(2) have q: "q = m" by simp
    show ?thesis
      using budget_ingress_admitted[OF ad, of bud ?e ?i] old budget_hits_own[OF nm(2) f(2), of bud "if_address b"] k(2) 2
      unfolding at q u_def by simp
  qed (use old in \<open>simp add: at\<close>)
qed

lemma admitted_charge:
  assumes "admitted s l req n m a b"
    and "dec_placement d = \<lparr>pl_sourceInterface = if_address a, pl_targetInterface = if_address b\<rparr>"
  shows "within s (charge l (placed_by req d))"
  unfolding within_def node_within_def Let_def list_all_iff
  using admitted_within_ports[OF assms(1) _ _ assms(2)] admitted_within_budgets[OF assms(1) _ _ assms(2)]
  by (simp add: budgetLoad_def)

lemma placed_keeps_within:
  assumes "nodes_ok l" "within s l" "request_ok req" "dec_outcome (place ll l s req) = OutcomePlaced"
  shows "within s (charge l (placed_by req (place ll l s req)))"
proof -
  from assms(1,4) obtain n m a b where p: "admitted s l req n m a b"
    "dec_placement (place ll l s req) = \<lparr>pl_sourceInterface = if_address a, pl_targetInterface = if_address b\<rparr>"
    by (rule placed_pair) (use assms in \<open>auto simp: admitted_def\<close>)
  then show ?thesis by (rule admitted_charge)
qed

subsection \<open>Runs\<close>

lemma place_step_within:
  assumes "set_overcommit s = OvercommitHold" "nodes_ok l" "within s l" "request_ok req"
  shows "within s (place_step ll s l req) \<and> nodes_ok (place_step ll s l req)"
proof -
  have "dec_outcome (place ll l s req) \<noteq> OutcomeOvercommitted"
    using assms(1) by (auto simp: place_eq decide_outcome empty_decision_def split: if_splits)
  then show ?thesis
    using placed_keeps_within[OF assms(2,3,4), of ll] assms(2,3)
    by (auto simp: place_step_def Let_def nodes_ok_def)
qed

lemma place_all_within:
  "set_overcommit s = OvercommitHold \<Longrightarrow> nodes_ok l \<Longrightarrow> within s l \<Longrightarrow> list_all request_ok reqs \<Longrightarrow>
   within s (place_all ll s l reqs)"
  unfolding place_all_def
  by (induction reqs arbitrary: l) (simp_all add: place_step_within)

lemma foldl_node_map_key:
  "\<forall>k n. m k = Some n \<longrightarrow> node_name n = k \<and> P n \<Longrightarrow> list_all P nodes \<Longrightarrow>
   foldl (\<lambda>m n. m(node_name n \<mapsto> n)) m nodes k = Some n \<Longrightarrow> node_name n = k \<and> P n"
proof (induction nodes arbitrary: m)
  case (Cons x xs)
  then show ?case by (intro Cons.IH[of "m(node_name x \<mapsto> x)"]) auto
qed simp

lemma empty_ledger_ok:
  assumes "list_all node_ok nodes"
  shows "nodes_ok (newLedger nodes []) \<and> within s (newLedger nodes [])"
proof -
  have ok: "nodes_ok (newLedger nodes [])"
    using foldl_node_map_key[of Map.empty node_ok nodes] assms
    by (auto simp: nodes_ok_def newLedger_def empty_ledger_def)
  have fit: "fits c u 0" if "c < 2 ^ 63" for c u
    using that plannable_bounds(1)[of c u] by (simp add: fits_def)
  have port: "fits (if_capacity i) u 0" if "node_ok n" "i \<in> set (ifaces n)" for n i u
    using fit node_ok_capacity[OF that] .
  have "budget_fits u b 0 0" if "node_ok n" "b \<in> set (nc_budgets (node_status n))" for n b u
    using fit[OF node_ok_budget[OF that]] by (simp add: budget_fits_def fits_def split: MxlFabricBudgetMode.splits)
  with port have "node_within s (newLedger nodes []) k n" if "node_ok n" for k n
    using that by (simp add: node_within_def Let_def list_all_iff egress_def ingress_def
        budgetLoad_def newLedger_def empty_ledger_def zero_load_def)
  with ok show ?thesis by (simp add: nodes_ok_def within_def)
qed

text \<open>C1. Under the hold policy the planner never overcommits: starting from a ledger with nothing
  placed, whatever sequence of mirrors is requested, every interface (per direction) and every
  shared budget (in its mode) of a known capacity carries at most its plannable share, and no
  addition in the accounting wraps around.\<close>

theorem hold_never_overcommits:
  assumes "set_overcommit s = OvercommitHold" "list_all node_ok nodes" "list_all request_ok reqs"
  shows "within s (place_all ll s (newLedger nodes []) reqs)"
  using place_all_within[OF assms(1) _ _ assms(3)] empty_ledger_ok[OF assms(2)] by blast

subsection \<open>Check agrees with Place\<close>

lemma find_interface_self:
  assumes "node_ok n" "a \<in> set (node_interfaces n pr)"
  shows "find_interface n pr (if_address a) = a"
proof -
  obtain p where p: "find_first (\<lambda>p. pc_name p = pr) (nc_providers (node_status n)) = Some p"
    and eq: "node_interfaces n pr = filter (\<lambda>i. if_linkState i \<noteq> LinkDown) (pc_interfaces p)"
    using assms(2)
    by (cases "find_first (\<lambda>p. pc_name p = pr) (nc_providers (node_status n))") (auto simp: node_interfaces_def)
  have "distinct (map if_address (pc_interfaces p))"
    using assms(1) find_first_SomeD[OF p] unfolding node_ok_def list_all_iff by blast
  then have "distinct (map if_address (node_interfaces n pr))" unfolding eq by (rule distinct_map_filter)
  from find_first_distinct[OF this assms(2)] show ?thesis by (simp add: find_interface_def)
qed

text \<open>Check and Place score a pair alike: the headroom reported for a chosen pair is the one
  Check computes for that pair against the same ledger, so a placement that has just been written
  is not reported overcommitted by the next look at it.\<close>

theorem check_agrees_with_place:
  assumes "nodes_ok l" "dec_outcome (place ll l s req) \<in> {OutcomePlaced, OutcomeOvercommitted}"
  shows "check l s req (dec_placement (place ll l s req)) = dec_headroom (place ll l s req)"
proof -
  let ?src = "ledger_node l (rq_sourceNode req)" and ?tgt = "ledger_node l (rq_targetNode req)"
  have ne: "candidates ll l s req \<noteq> []" using assms(2) by (auto simp: place_eq empty_decision_def)
  define best where "best = hd (sortFunc candidate_cmp (candidates ll l s req))"
  have pl: "place ll l s req = decide s best" using ne by (simp add: place_eq best_def)
  have "best \<in> set (candidates ll l s req)" using best_mem[OF ne] by (simp add: best_def)
  then obtain a b where ab: "(a, b) \<in> set (node_interfaces ?src (rq_provider req)) \<times>
        set (node_interfaces ?tgt (rq_provider req))" and sc: "best = score l s ?src ?tgt a b req"
    using set_allowed_pairs set_routable unfolding candidates_def Let_def by fastforce
  have cd: "cd_src best = a" "cd_tgt best = b" by (simp_all add: sc score_def split: prod.splits)
  have ok: "node_ok ?src" "node_ok ?tgt"
    using ab node_interfaces_ok[OF assms(1)] by blast+
  have "find_interface ?src (rq_provider req) (if_address a) = a"
    "find_interface ?tgt (rq_provider req) (if_address b) = b"
    using ab find_interface_self[OF ok(1)] find_interface_self[OF ok(2)] by simp_all
  then show ?thesis
    using assms(2) by (auto simp: pl decide_def empty_decision_def check_def Let_def cd sc[symmetric] split: if_splits)
qed

subsection \<open>A fleet of two nodes\<close>

definition example_node :: "string \<Rightarrow> int \<Rightarrow> Node" where
  "example_node name util = \<lparr>node_name = name, node_status = empty_caps\<lparr>
     nc_providers := [\<lparr>pc_name = ProviderTCP, pc_version = '''', pc_deviceCount = 1, pc_interfaces =
       map (\<lambda>(addr, cap). \<lparr>if_address = addr, if_device = '''', if_linkState = LinkUp, if_linkSpeed = 0,
           if_maxMessageSize = 0, if_pciAddress = '''', if_capacity = cap, if_subnet = ''net'',
           if_budgets = [''slot''], if_numaNode = None\<rparr>)
         [(''10.0.0.1'', 1000), (''10.0.0.2'', 2000)]\<rparr>],
     nc_budgets := [\<lparr>bud_name = ''slot'', bud_scope = FabricBudgetNIC, bud_mode = FabricBudgetCombined, bud_capacity = 2000\<rparr>],
     nc_maxUtilizationPercent := util\<rparr>\<rparr>"

definition example_settings :: Settings where
  "example_settings = \<lparr>set_maxUtilizationPercent = 80, set_pairing = PairingPreferSameSubnet,
     set_overcommit = OvercommitHold\<rparr>"

definition example_request :: "string list \<Rightarrow> Request" where
  "example_request avoid = \<lparr>rq_sourceNode = ''a'', rq_targetNode = ''b'', rq_provider = ProviderTCP,
     rq_demand = 600, rq_avoidSource = avoid, rq_avoidTarget = avoid\<rparr>"

abbreviation "example_ledger \<equiv> newLedger [example_node ''a'' 0, example_node ''b'' 90] []"
abbreviation "no_link_local \<equiv> (\<lambda>a :: string. False)"

theorem hold_never_overcommits_witness:
  "within example_settings (place_all no_link_local example_settings example_ledger
     [example_request [], example_request [], example_request []]) \<and>
   map (\<lambda>n. egress (place_all no_link_local example_settings example_ledger (replicate n (example_request [])))
          ''a'' ''10.0.0.2'') [1, 2, 3] = [(600, 1), (1200, 2), (1200, 2)]"
proof
  show "within example_settings (place_all no_link_local example_settings example_ledger
     [example_request [], example_request [], example_request []])"
    by (rule hold_never_overcommits) code_simp+
qed code_simp

lemma example_ledger_ok: "nodes_ok example_ledger \<and> within example_settings example_ledger"
  by (rule empty_ledger_ok) code_simp

theorem check_agrees_with_place_witness:
  "check example_ledger example_settings (example_request [])
     (dec_placement (place no_link_local example_ledger example_settings (example_request []))) = 1000 \<and>
   dec_headroom (place no_link_local example_ledger example_settings (example_request [])) = 1000"
proof -
  have "dec_headroom (place no_link_local example_ledger example_settings (example_request [])) = 1000" by code_simp
  moreover have "check example_ledger example_settings (example_request [])
     (dec_placement (place no_link_local example_ledger example_settings (example_request []))) =
     dec_headroom (place no_link_local example_ledger example_settings (example_request []))"
    by (rule check_agrees_with_place) (use example_ledger_ok in blast, code_simp)
  ultimately show ?thesis by simp
qed

abbreviation "example_candidates avoid \<equiv>
  candidates no_link_local example_ledger example_settings (example_request avoid)"

text \<open>Any order of the four candidates that the comparison function accepts will do; here the one
  that insertion from the right gives.\<close>

theorem place_any_sort_witness:
  "place no_link_local example_ledger example_settings (example_request []) =
     decide example_settings (hd (sortFunc candidate_cmp (rev (example_candidates [])))) \<and>
   list_all (\<lambda>c. cand_key (hd (sortFunc candidate_cmp (rev (example_candidates [])))) \<le> cand_key c)
     (sortFunc candidate_cmp (rev (example_candidates [])))"
  by (rule place_any_sort) (simp, code_simp+)

theorem place_avoids_siblings_witness:
  "dec_outcome (place no_link_local example_ledger example_settings (example_request [''10.0.0.2''])) = OutcomePlaced \<and>
   \<not> dec_sharesTarget (place no_link_local example_ledger example_settings (example_request [''10.0.0.2''])) \<and>
   dec_placement (place no_link_local example_ledger example_settings (example_request [''10.0.0.2''])) =
     \<lparr>pl_sourceInterface = ''10.0.0.1'', pl_targetInterface = ''10.0.0.1''\<rparr>"
proof -
  have "dec_outcome (place no_link_local example_ledger example_settings (example_request [''10.0.0.2''])) = OutcomePlaced \<and>
     \<not> dec_sharesTarget (place no_link_local example_ledger example_settings (example_request [''10.0.0.2''])) \<and>
     (\<not> cd_sharesSource (hd (example_candidates [''10.0.0.2''])) \<longrightarrow>
        \<not> dec_sharesSource (place no_link_local example_ledger example_settings (example_request [''10.0.0.2''])))"
    by (rule place_avoids_siblings[of "hd (example_candidates [''10.0.0.2''])"]) (rule hd_in_set, code_simp+)
  then show ?thesis by code_simp
qed

abbreviation "example_placed d \<equiv> placed_by (example_request [])
  (empty_decision OutcomePlaced 0\<lparr>dec_placement := \<lparr>pl_sourceInterface = ''10.0.0.1'', pl_targetInterface = ''10.0.0.2''\<rparr>\<rparr>)\<lparr>pd_demand := d\<rparr>"

theorem newLedger_order_independent_witness:
  "newLedger [example_node ''a'' 0, example_node ''b'' 0] [example_placed 100, example_placed 250] =
     newLedger [example_node ''a'' 0, example_node ''b'' 0] [example_placed 250, example_placed 100] \<and>
   egress (newLedger [example_node ''a'' 0, example_node ''b'' 0] [example_placed 100, example_placed 250]) ''a'' ''10.0.0.1'' =
     (350, 2)"
proof
  show "newLedger [example_node ''a'' 0, example_node ''b'' 0] [example_placed 100, example_placed 250] =
     newLedger [example_node ''a'' 0, example_node ''b'' 0] [example_placed 250, example_placed 100]"
    by (rule newLedger_order_independent) simp
qed code_simp

end
