(* ===== verification/Placement_Control.thy ===== *)
theory Placement_Control
  imports Planner_Capacity
begin

section \<open>The placement controller (operator/internal/placement/controller.go)\<close>

text \<open>
  The reconciler that asks the planner for a pair of interfaces and writes it to the mirror. Its
  state is when it started and the placements it has written that its cache does not show yet
  (\<open>written\<close>); every operation that touches that map returns the new state. What the API server
  answers is the record \<open>placement_env\<close>, one field per call site; the writes are the log.
  Go iterates a map in no particular order: the node map and the sibling set are iterated here in
  insertion order, and nothing below depends on it. The Prometheus gauges are not part of the
  state; the one histogram observation is logged, because the code decides when to make it.
\<close>

subsection \<open>Constants, texts\<close>

definition unplacedRetry :: duration where "unplacedRetry = 30 * second"
definition overlayTTL :: duration where "overlayTTL = 30 * second"
definition conflictRetry :: duration where "conflictRetry = 100 * millisecond"

definition ReasonPlaced :: string where "ReasonPlaced = ''Placed''"
definition ReasonOvercommitted :: string where "ReasonOvercommitted = ''Overcommitted''"
definition ReasonHeld :: string where "ReasonHeld = ''Held''"
definition ReasonAwaitingDemand :: string where "ReasonAwaitingDemand = ''AwaitingDemand''"
definition ReasonNoInterface :: string where "ReasonNoInterface = ''NoInterface''"

definition outcome_string :: "Outcome \<Rightarrow> string" where
  "outcome_string o' = (case o' of
     OutcomePlaced \<Rightarrow> ReasonPlaced | OutcomeOvercommitted \<Rightarrow> ReasonOvercommitted
   | OutcomeHeld \<Rightarrow> ReasonHeld | OutcomeNoInterface \<Rightarrow> ReasonNoInterface)"

fun provider_string :: "MxlFabricsProvider \<Rightarrow> string" where
  "provider_string ProviderUnset = ''''"
| "provider_string ProviderAuto = ''auto''"
| "provider_string ProviderTCP = ''tcp''"
| "provider_string ProviderVerbs = ''verbs''"
| "provider_string ProviderEFA = ''efa''"
| "provider_string ProviderSHM = ''shm''"
| "provider_string (ProviderOther s) = s"

definition outcomeFor :: "int \<Rightarrow> Outcome" where
  "outcomeFor headroom = (if headroom < 0 then OutcomeOvercommitted else OutcomePlaced)"

definition message :: "Outcome \<Rightarrow> MxlFlowMirrorPlacement \<Rightarrow> int \<Rightarrow> string" where
  "message o' p demand =
     (if o' = OutcomeOvercommitted
      then pl_sourceInterface p @ '' -> '' @ pl_targetInterface p @ '' carries '' @ show_int demand @
           '' bit/s beyond the planned capacity of an interface or budget''
      else pl_sourceInterface p @ '' -> '' @ pl_targetInterface p @ '' carries '' @ show_int demand @ '' bit/s'')"

subsection \<open>Configuration, state, environment\<close>

record placement_config =
  cfg_settings :: Settings
  cfg_overheadPercent :: int
  cfg_provisionalDemand :: int
  cfg_demandWait :: duration
  cfg_redundancySets :: bool

record overlay =
  ov_placed :: Placed
  ov_at :: time

record placement_state =
  ps_started :: time
  ps_written :: "NamespacedName \<rightharpoonup> overlay"

datatype placement_write =
    PatchPlacement MxlFlowMirror MxlFlowMirrorPlacement
  | ApplyPlaced NamespacedName Condition "int option"
  | ObservePlacement duration

text \<open>
  \<open>env_patch\<close> answers the patch of the spec: the object as the server returns it. Its first argument
  is the object the patch was computed from, whose resource version the patch carries.
\<close>

record placement_env =
  env_mirror :: "NamespacedName \<Rightarrow> go_error + MxlFlowMirror"
  env_caps :: "go_error + MxlNodeCapabilities list"
  env_mirrors :: "go_error + MxlFlowMirror list"
  env_sets :: "go_error + MxlFlowRedundancySet list"
  env_mirrorsByFlow :: "string \<Rightarrow> go_error + MxlFlowMirror list"
  env_flow :: "string \<Rightarrow> go_error + MxlFlow"
  env_patch :: "MxlFlowMirror \<Rightarrow> MxlFlowMirrorPlacement \<Rightarrow> go_error + MxlFlowMirror"
  env_apply :: "Condition \<Rightarrow> go_error + unit"

subsection \<open>The placements written and not yet seen\<close>

definition overlay_lookup ::
  "time \<Rightarrow> placement_state \<Rightarrow> NamespacedName \<Rightarrow> MxlFlowMirror \<Rightarrow> placement_state \<times> Placed option" where
  "overlay_lookup now st key cached =
     (case ps_written st key of
        None \<Rightarrow> (st, None)
      | Some ov \<Rightarrow>
          if (ms_placement (mir_spec cached) = Some (pd_placement (ov_placed ov)) \<and>
              mst_demandBitsPerSecond (mir_status cached) = pd_demand (ov_placed ov)) \<or>
             overlayTTL < time_sub now (ov_at ov)
          then (st\<lparr>ps_written := (ps_written st)(key := None)\<rparr>, None)
          else (st, Some (ov_placed ov)))"

definition remember :: "time \<Rightarrow> placement_state \<Rightarrow> NamespacedName \<Rightarrow> Placed \<Rightarrow> placement_state" where
  "remember now st key p = st\<lparr>ps_written := (ps_written st)(key \<mapsto> \<lparr>ov_placed = p, ov_at = now\<rparr>)\<rparr>"

definition forget :: "placement_state \<Rightarrow> NamespacedName \<Rightarrow> placement_state" where
  "forget st key = st\<lparr>ps_written := (ps_written st)(key := None)\<rparr>"

definition prune :: "placement_state \<Rightarrow> NamespacedName list \<Rightarrow> placement_state" where
  "prune st seen = st\<lparr>ps_written := (\<lambda>k. if k \<in> set seen then ps_written st k else None)\<rparr>"

definition placementOf ::
  "time \<Rightarrow> placement_state \<Rightarrow> MxlFlowMirror \<Rightarrow> placement_state \<times> MxlFlowMirrorPlacement option" where
  "placementOf now st m =
     (case overlay_lookup now st (objectKey (mir_meta m)) m of
        (st', Some p) \<Rightarrow> (st', Some (pd_placement p))
      | (st', None) \<Rightarrow> (st', ms_placement (mir_spec m)))"

subsection \<open>Nodes and ledger\<close>

definition caps_node :: "MxlNodeCapabilities \<Rightarrow> Node" where
  "caps_node c = \<lparr>node_name = (if caps_nodeName c = '''' then om_name (caps_meta c) else caps_nodeName c),
                  node_status = caps_status c\<rparr>"

fun put_node :: "Node \<Rightarrow> Node list \<Rightarrow> Node list" where
  "put_node n [] = [n]"
| "put_node n (x # xs) = (if node_name x = node_name n then n # xs else x # put_node n xs)"

definition nodes :: "placement_env \<Rightarrow> go_error + Node list" where
  "nodes env =
     (case env_caps env of
        Inl e \<Rightarrow> Inl (EWrap ''list node capabilities'' e)
      | Inr caps \<Rightarrow> Inr (foldl (\<lambda>out c. put_node (caps_node c) out) [] caps))"

definition node_at :: "Node list \<Rightarrow> string \<Rightarrow> Node" where
  "node_at ns name = (case find_first (\<lambda>n. node_name n = name) ns of None \<Rightarrow> zero_node | Some n \<Rightarrow> n)"

definition spec_placed :: "MxlFlowMirror \<Rightarrow> MxlFlowMirrorPlacement \<Rightarrow> Placed" where
  "spec_placed o' p = \<lparr>pd_sourceNode = ms_sourceNode (mir_spec o'), pd_targetNode = ms_targetNode (mir_spec o'),
     pd_provider = ms_provider (mir_spec o'), pd_placement = p,
     pd_demand = mst_demandBitsPerSecond (mir_status o')\<rparr>"

fun charged ::
  "time \<Rightarrow> NamespacedName \<Rightarrow> placement_state \<Rightarrow> MxlFlowMirror list \<Rightarrow> placement_state \<times> Placed list" where
  "charged now self st [] = (st, [])"
| "charged now self st (o' # os) =
     (let key = objectKey (mir_meta o') in
      if key = self \<or> om_deletionTimestamp (mir_meta o') \<noteq> 0 then charged now self st os
      else case overlay_lookup now st key o' of
             (st', Some p) \<Rightarrow> (case charged now self st' os of (st'', ps) \<Rightarrow> (st'', p # ps))
           | (st', None) \<Rightarrow>
               (case ms_placement (mir_spec o') of
                  None \<Rightarrow> charged now self st' os
                | Some p \<Rightarrow> (case charged now self st' os of (st'', ps) \<Rightarrow> (st'', spec_placed o' p # ps))))"

definition ledger ::
  "placement_env \<Rightarrow> time \<Rightarrow> placement_state \<Rightarrow> Node list \<Rightarrow> NamespacedName \<Rightarrow> placement_state \<times> (go_error + Ledger)" where
  "ledger env now st ns self =
     (case env_mirrors env of
        Inl e \<Rightarrow> (st, Inl (EWrap ''list mirrors'' e))
      | Inr ms \<Rightarrow>
          case charged now self st ms of
            (st', placed) \<Rightarrow> (prune st' (map (\<lambda>o'. objectKey (mir_meta o')) ms), Inr (newLedger ns placed)))"

subsection \<open>Demand and request\<close>

definition demand :: "placement_config \<Rightarrow> placement_env \<Rightarrow> MxlFlowMirror \<Rightarrow> int \<times> bool" where
  "demand cfg env m =
     (case env_flow env (flowref_name (mirror_ref m)) of
        Inl _ \<Rightarrow> (cfg_provisionalDemand cfg, False)
      | Inr f \<Rightarrow>
          if fst_bitsPerSecond (flow_status f) \<le> 0 then (cfg_provisionalDemand cfg, False)
          else (demand_of (fst_bitsPerSecond (flow_status f)) (cfg_overheadPercent cfg) (cfg_provisionalDemand cfg), True))"

text \<open>The other members of every set the flow is a member of.\<close>

definition sibling_refs :: "FlowRef \<Rightarrow> MxlFlowRedundancySet list \<Rightarrow> FlowRef list" where
  "sibling_refs self sets =
     remdups (concat (map (\<lambda>s. let members = map member_ref (ss_members (set_spec s))
                               in if self \<in> set members then filter (\<lambda>r. r \<noteq> self) members else [])
                          sets))"

fun sibling_mirrors :: "placement_env \<Rightarrow> MxlFlowMirror \<Rightarrow> FlowRef list \<Rightarrow> go_error + MxlFlowMirror list" where
  "sibling_mirrors env m [] = Inr []"
| "sibling_mirrors env m (r # rs) =
     (case env_mirrorsByFlow env (flowref_name r) of
        Inl e \<Rightarrow> Inl (EWrap ''list mirrors of'' e)
      | Inr ms \<Rightarrow>
          case sibling_mirrors env m rs of
            Inl e \<Rightarrow> Inl e
          | Inr out \<Rightarrow> Inr (filter (\<lambda>o'. ms_targetNode (mir_spec o') = ms_targetNode (mir_spec m) \<and>
                                       om_deletionTimestamp (mir_meta o') = 0) ms @ out))"

definition siblings :: "placement_env \<Rightarrow> MxlFlowMirror \<Rightarrow> go_error + MxlFlowMirror list" where
  "siblings env m =
     (case env_sets env of
        Inl e \<Rightarrow> Inl (EWrap ''list redundancy sets'' e)
      | Inr sets \<Rightarrow> sibling_mirrors env m (sibling_refs (mirror_ref m) sets))"

text \<open>The loop over the siblings; it looks each one's placement up, which may drop an overlay.\<close>

fun avoid ::
  "time \<Rightarrow> Node list \<Rightarrow> MxlFlowMirror \<Rightarrow> placement_state \<Rightarrow> Request \<Rightarrow> MxlFlowMirror list \<Rightarrow> placement_state \<times> Request" where
  "avoid now ns m st req [] = (st, req)"
| "avoid now ns m st req (s # ss) =
     (case placementOf now st s of
        (st', None) \<Rightarrow> avoid now ns m st' req ss
      | (st', Some p) \<Rightarrow>
          let tp = node_port (node_at ns (ms_targetNode (mir_spec m))) (ms_provider (mir_spec s)) (pl_targetInterface p);
              sp = node_port (node_at ns (ms_sourceNode (mir_spec m))) (ms_provider (mir_spec s)) (pl_sourceInterface p);
              req1 = req\<lparr>rq_avoidTarget := rq_avoidTarget req @ [tp]\<rparr>
          in avoid now ns m st'
               (if ms_sourceNode (mir_spec s) = ms_sourceNode (mir_spec m)
                then req1\<lparr>rq_avoidSource := rq_avoidSource req1 @ [sp]\<rparr> else req1) ss)"

definition request ::
  "placement_config \<Rightarrow> placement_env \<Rightarrow> time \<Rightarrow> placement_state \<Rightarrow> MxlFlowMirror \<Rightarrow> Node list
     \<Rightarrow> placement_state \<times> (go_error + Request)" where
  "request cfg env now st m ns =
     (let req = \<lparr>rq_sourceNode = ms_sourceNode (mir_spec m), rq_targetNode = ms_targetNode (mir_spec m),
                 rq_provider = ms_provider (mir_spec m), rq_demand = 0, rq_avoidSource = [], rq_avoidTarget = []\<rparr>
      in if \<not> cfg_redundancySets cfg then (st, Inr req)
         else case siblings env m of
                Inl e \<Rightarrow> (st, Inl e)
              | Inr sibs \<Rightarrow> (case avoid now ns m st req sibs of (st', r) \<Rightarrow> (st', Inr r)))"

subsection \<open>The condition\<close>

definition placed_condition :: "MxlFlowMirror \<Rightarrow> bool \<Rightarrow> string \<Rightarrow> string \<Rightarrow> Condition" where
  "placed_condition m ok reason msg =
     \<lparr>cond_type = ConditionTypePlaced, cond_status = (if ok then ConditionTrue else ConditionFalse),
      cond_reason = reason, cond_message = msg, cond_observedGeneration = om_generation (mir_meta m),
      cond_lastTransitionTime = 0\<rparr>"

text \<open>The code dereferences what it finds after setting it; nothing found would be a nil dereference.\<close>

definition condition ::
  "meta_api \<Rightarrow> placement_env \<Rightarrow> time \<Rightarrow> MxlFlowMirror \<Rightarrow> bool \<Rightarrow> string \<Rightarrow> string \<Rightarrow> int \<Rightarrow> (placement_write, unit) io" where
  "condition M env now m ok reason msg dem =
     (let cs = mst_conditions (mir_status m);
          conds = fst (setStatusCondition M now cs (placed_condition m ok reason msg))
      in case findStatusCondition M conds ConditionTypePlaced of
           None \<Rightarrow> io_fail (EOther ''nil pointer dereference'')
         | Some c \<Rightarrow>
             if (case findStatusCondition M cs ConditionTypePlaced of
                   None \<Rightarrow> False
                 | Some prev \<Rightarrow> cond_status prev = cond_status c \<and> cond_reason prev = cond_reason c \<and>
                     cond_message prev = cond_message c \<and>
                     cond_observedGeneration prev = cond_observedGeneration c \<and>
                     mst_demandBitsPerSecond (mir_status m) = dem)
             then io_ret ()
             else let c' = c\<lparr>cond_lastTransitionTime := rfc3339 (cond_lastTransitionTime c)\<rparr>
                  in io_write (ApplyPlaced (objectKey (mir_meta m)) c' (if 0 < dem then Some dem else None))
                       (ignoreNotFound (env_apply env c')))"

subsection \<open>Confirm and commit\<close>

definition confirm ::
  "placement_config \<Rightarrow> meta_api \<Rightarrow> placement_env \<Rightarrow> time \<Rightarrow> MxlFlowMirror \<Rightarrow> MxlFlowMirrorPlacement \<Rightarrow> Ledger \<Rightarrow> Request
     \<Rightarrow> (placement_write, unit) io" where
  "confirm cfg M env now m p l req =
     (case demand cfg env m of (d, known) \<Rightarrow>
        let d' = (if \<not> known \<and> 0 < mst_demandBitsPerSecond (mir_status m)
                  then mst_demandBitsPerSecond (mir_status m) else d);
            outcome = outcomeFor (check l (cfg_settings cfg) (req\<lparr>rq_demand := d'\<rparr>) p)
        in condition M env now m True (outcome_string outcome) (message outcome p d') d')"

definition commit ::
  "meta_api \<Rightarrow> placement_env \<Rightarrow> time \<Rightarrow> placement_state \<Rightarrow> MxlFlowMirror \<Rightarrow> MxlFlowMirrorPlacement \<Rightarrow> Request
     \<Rightarrow> Outcome \<Rightarrow> bool \<Rightarrow> placement_state \<times> (placement_write, Result) io" where
  "commit M env now st m p req outcome observe =
     (case env_patch env m p of
        Inl e \<Rightarrow>
          (st, io_write (PatchPlacement m p)
             (if isConflict e then Inr (after conflictRetry)
              else if isNotFound e then Inr no_requeue else Inl e))
      | Inr m' \<Rightarrow>
          (remember now st (objectKey (mir_meta m'))
             \<lparr>pd_sourceNode = ms_sourceNode (mir_spec m'), pd_targetNode = ms_targetNode (mir_spec m'),
              pd_provider = ms_provider (mir_spec m'), pd_placement = p, pd_demand = rq_demand req\<rparr>,
           io_bind (io_write (PatchPlacement m p) (Inr ()))
             (\<lambda>_. io_bind (if observe
                           then io_write (ObservePlacement (time_sub now (om_creationTimestamp (mir_meta m')))) (Inr ())
                           else io_ret ())
             (\<lambda>_. io_bind (condition M env now m' True (outcome_string outcome) (message outcome p (rq_demand req))
                             (rq_demand req))
             (\<lambda>_. io_ret no_requeue)))))"

definition placedBefore :: "meta_api \<Rightarrow> MxlFlowMirror \<Rightarrow> bool" where
  "placedBefore M m =
     (case findStatusCondition M (mst_conditions (mir_status m)) ConditionTypePlaced of
        None \<Rightarrow> False | Some c \<Rightarrow> cond_status c = ConditionTrue)"

subsection \<open>Reconcile\<close>

definition truncate_second :: "time \<Rightarrow> time" where
  "truncate_second t = t - t mod second"

definition valid_placement :: "Node list \<Rightarrow> MxlFlowMirror \<Rightarrow> MxlFlowMirrorPlacement option \<Rightarrow> bool" where
  "valid_placement ns m p =
     (case p of
        None \<Rightarrow> False
      | Some q \<Rightarrow>
          node_has (node_at ns (ms_sourceNode (mir_spec m))) (ms_provider (mir_spec m)) (pl_sourceInterface q) \<and>
          node_has (node_at ns (ms_targetNode (mir_spec m))) (ms_provider (mir_spec m)) (pl_targetInterface q))"

definition bound_placement :: "MxlFlowMirror \<Rightarrow> MxlFlowMirrorPlacement" where
  "bound_placement m = \<lparr>pl_sourceInterface = mst_sourceInterface (mir_status m),
                        pl_targetInterface = mst_targetInterface (mir_status m)\<rparr>"

text \<open>From the point where the mirror has no valid placement.\<close>

definition place_mirror ::
  "placement_config \<Rightarrow> meta_api \<Rightarrow> (string \<Rightarrow> bool) \<Rightarrow> placement_env \<Rightarrow> time \<Rightarrow> placement_state \<Rightarrow> MxlFlowMirror
     \<Rightarrow> Node list \<Rightarrow> Ledger \<Rightarrow> Request \<Rightarrow> placement_state \<times> (placement_write, Result) io" where
  "place_mirror cfg M ll env now st m ns l req =
     (if ms_placement (mir_spec m) = None \<and>
         findStatusCondition M (mst_conditions (mir_status m)) ConditionTypePlaced = None \<and>
         valid_placement ns m (Some (bound_placement m))
      then let req' = req\<lparr>rq_demand := fst (demand cfg env m)\<rparr>
           in commit M env now st m (bound_placement m) req'
                (outcomeFor (check l (cfg_settings cfg) req' (bound_placement m))) False
      else case demand cfg env m of (d, known) \<Rightarrow>
        let wait = time_sub (om_creationTimestamp (mir_meta m) + cfg_demandWait cfg) now
        in if \<not> known \<and> 0 < wait
           then (st, io_bind (condition M env now m False ReasonAwaitingDemand
                                ''Flow has not published its payload rate yet'' 0) (\<lambda>_. io_ret (after wait)))
           else let req' = req\<lparr>rq_demand := d\<rparr>; dec = place ll l (cfg_settings cfg) req'
                in case dec_outcome dec of
                     OutcomeNoInterface \<Rightarrow>
                       (st, io_bind (condition M env now m False ReasonNoInterface
                              (''No '' @ provider_string (ms_provider (mir_spec m)) @ '' interface pair between '' @
                               ms_sourceNode (mir_spec m) @ '' and '' @ ms_targetNode (mir_spec m)) 0)
                            (\<lambda>_. io_ret (after unplacedRetry)))
                   | OutcomeHeld \<Rightarrow>
                       (st, io_bind (condition M env now m False ReasonHeld
                              (''No interface pair has room for '' @ show_int (rq_demand req') @ '' bit/s'') 0)
                            (\<lambda>_. io_ret (after unplacedRetry)))
                   | _ \<Rightarrow>
                       commit M env now st m (dec_placement dec) req' (dec_outcome dec)
                         (\<not> placedBefore M m \<and>
                          \<not> om_creationTimestamp (mir_meta m) < truncate_second (ps_started st)))"

definition reconcile_placement ::
  "placement_config \<Rightarrow> meta_api \<Rightarrow> (string \<Rightarrow> bool) \<Rightarrow> placement_env \<Rightarrow> time \<Rightarrow> placement_state \<Rightarrow> NamespacedName
     \<Rightarrow> placement_state \<times> (placement_write, Result) io" where
  "reconcile_placement cfg M ll env now st0 key =
     (let st = (if ps_started st0 = 0 then st0\<lparr>ps_started := now\<rparr> else st0) in
      case env_mirror env key of
        Inl e \<Rightarrow> if isNotFound e then (forget st key, io_ret no_requeue) else (st, io_fail e)
      | Inr m \<Rightarrow>
          if om_deletionTimestamp (mir_meta m) \<noteq> 0 then (forget st key, io_ret no_requeue)
          else if ms_provider (mir_spec m) \<in> {ProviderUnset, ProviderAuto} then (st, io_ret no_requeue)
          else case nodes env of
                 Inl e \<Rightarrow> (st, io_fail e)
               | Inr ns \<Rightarrow>
          case ledger env now st ns key of
            (st1, Inl e) \<Rightarrow> (st1, io_fail e)
          | (st1, Inr l) \<Rightarrow>
          case request cfg env now st1 m ns of
            (st2, Inl e) \<Rightarrow> (st2, io_fail e)
          | (st2, Inr req) \<Rightarrow>
          case ms_placement (mir_spec m) of
            Some p \<Rightarrow>
              if valid_placement ns m (Some p)
              then (st2, io_bind (confirm cfg M env now m p l req) (\<lambda>_. io_ret no_requeue))
              else place_mirror cfg M ll env now st2 m ns l req
          | None \<Rightarrow> place_mirror cfg M ll env now st2 m ns l req)"

subsection \<open>What wakes a mirror\<close>

definition placementInputsChanged :: "MxlNodeCapabilities \<Rightarrow> MxlNodeCapabilities \<Rightarrow> bool" where
  "placementInputsChanged o' n \<longleftrightarrow>
     nc_providers (caps_status o') \<noteq> nc_providers (caps_status n) \<or>
     nc_budgets (caps_status o') \<noteq> nc_budgets (caps_status n) \<or>
     nc_maxUtilizationPercent (caps_status o') \<noteq> nc_maxUtilizationPercent (caps_status n)"

definition flowRateChanged :: "MxlFlow \<Rightarrow> MxlFlow \<Rightarrow> bool" where
  "flowRateChanged o' n \<longleftrightarrow> fst_bitsPerSecond (flow_status o') \<noteq> fst_bitsPerSecond (flow_status n)"

definition matching ::
  "(string \<Rightarrow> go_error + MxlFlowMirror list) \<Rightarrow> string \<Rightarrow> (MxlFlowMirror \<Rightarrow> bool) \<Rightarrow> NamespacedName list" where
  "matching byIndex val keep =
     (case byIndex val of
        Inl _ \<Rightarrow> []
      | Inr ms \<Rightarrow> map (\<lambda>m. objectKey (mir_meta m)) (filter keep ms))"

definition capsToMirrors ::
  "(string \<Rightarrow> go_error + MxlFlowMirror list) \<Rightarrow> (string \<Rightarrow> go_error + MxlFlowMirror list)
     \<Rightarrow> MxlNodeCapabilities \<Rightarrow> NamespacedName list" where
  "capsToMirrors bySource byTarget c =
     matching bySource (node_name (caps_node c)) (\<lambda>_. True) @ matching byTarget (node_name (caps_node c)) (\<lambda>_. True)"

definition flowToMirrors :: "placement_config \<Rightarrow> placement_env \<Rightarrow> MxlFlow \<Rightarrow> NamespacedName list" where
  "flowToMirrors cfg env f =
     matching (env_mirrorsByFlow env) (flowref_name (flow_ref f))
       (\<lambda>m. ms_placement (mir_spec m) = None \<or>
            (0 < fst_bitsPerSecond (flow_status f) \<and>
             mst_demandBitsPerSecond (mir_status m) \<noteq>
               demand_of (fst_bitsPerSecond (flow_status f)) (cfg_overheadPercent cfg) 0))"

definition setToMirrors :: "placement_env \<Rightarrow> MxlFlowRedundancySet \<Rightarrow> NamespacedName list" where
  "setToMirrors env s =
     concat (map (\<lambda>mem. matching (env_mirrorsByFlow env) (flowref_name (member_ref mem)) (\<lambda>_. True))
                 (ss_members (set_spec s)))"

section \<open>Properties of the placement controller\<close>

subsection \<open>Nodes\<close>

lemma put_node_names:
  "set (map node_name (put_node n ns)) = insert (node_name n) (set (map node_name ns))"
  by (induction ns) auto

lemma put_node_distinct: "distinct (map node_name ns) \<Longrightarrow> distinct (map node_name (put_node n ns))"
proof (induction ns)
  case (Cons x xs)
  then show ?case using put_node_names[of n xs] by auto
qed simp

lemma nodes_distinct: "nodes env = Inr ns \<Longrightarrow> distinct (map node_name ns)"
proof -
  have "distinct (map node_name acc) \<Longrightarrow>
      distinct (map node_name (foldl (\<lambda>out c. put_node (caps_node c) out) acc cs))" for acc cs
    by (induction cs arbitrary: acc) (simp_all add: put_node_distinct)
  from this[of "[]"] show "nodes env = Inr ns \<Longrightarrow> distinct (map node_name ns)"
    by (auto simp: nodes_def split: sum.splits)
qed

lemma node_map_find:
  assumes "distinct (map node_name ns)"
  shows "node_map ns k = find_first (\<lambda>n. node_name n = k) ns"
proof -
  have "distinct (map node_name ns) \<Longrightarrow> foldl (\<lambda>m n. m(node_name n \<mapsto> n)) m ns k =
      (case find_first (\<lambda>n. node_name n = k) ns of None \<Rightarrow> m k | Some n \<Rightarrow> Some n)" for m
  proof (induction ns arbitrary: m)
    case (Cons x xs)
    have "find_first (\<lambda>n. node_name n = k) xs = None" if "node_name x = k"
      using Cons.prems that unfolding find_first_None_iff by (metis distinct.simps(2) list.simps(9) imageI set_map)
    with Cons show ?case by (auto split: option.splits)
  qed simp
  from this[OF assms, of Map.empty] show ?thesis
    by (simp add: node_map_def split: option.splits)
qed

lemma newLedger_nodes: "led_nodes (newLedger ns placed) = node_map ns"
  by (simp add: newLedger_def empty_ledger_def node_map_def)

lemma ledger_node_at: "distinct (map node_name ns) \<Longrightarrow> ledger_node (newLedger ns placed) k = node_at ns k"
  by (simp add: ledger_node_def node_at_def newLedger_nodes node_map_find)

subsection \<open>Whatever the planner answers is an interface both nodes report\<close>

lemma place_has:
  assumes "dec_outcome (place ll l s req) \<in> {OutcomePlaced, OutcomeOvercommitted}"
  shows "node_has (ledger_node l (rq_sourceNode req)) (rq_provider req) (pl_sourceInterface (dec_placement (place ll l s req)))"
    "node_has (ledger_node l (rq_targetNode req)) (rq_provider req) (pl_targetInterface (dec_placement (place ll l s req)))"
proof -
  let ?src = "ledger_node l (rq_sourceNode req)" and ?tgt = "ledger_node l (rq_targetNode req)"
  have ne: "candidates ll l s req \<noteq> []" using assms by (auto simp: place_eq empty_decision_def)
  define best where "best = hd (sortFunc candidate_cmp (candidates ll l s req))"
  have pl: "place ll l s req = decide s best" using ne by (simp add: place_eq best_def)
  have "best \<in> set (candidates ll l s req)" using best_mem[OF ne] by (simp add: best_def)
  then obtain a b where ab: "(a, b) \<in> set (node_interfaces ?src (rq_provider req)) \<times>
        set (node_interfaces ?tgt (rq_provider req))" and sc: "best = score l s ?src ?tgt a b req"
    using set_allowed_pairs set_routable unfolding candidates_def Let_def by fastforce
  have cd: "cd_src best = a" "cd_tgt best = b" by (simp_all add: sc score_def split: prod.splits)
  have "dec_placement (decide s best) = \<lparr>pl_sourceInterface = if_address a, pl_targetInterface = if_address b\<rparr>"
    using assms by (auto simp: pl decide_def empty_decision_def cd split: if_splits)
  with ab show "node_has ?src (rq_provider req) (pl_sourceInterface (dec_placement (place ll l s req)))"
    "node_has ?tgt (rq_provider req) (pl_targetInterface (dec_placement (place ll l s req)))"
    by (auto simp: pl node_has_def list_ex_iff)
qed

subsection \<open>Which writes each part makes\<close>

lemma condition_no_patch: "PatchPlacement b p \<notin> set (fst (condition M env now m ok reason msg d))"
  by (auto simp: condition_def Let_def split: option.splits)

lemma confirm_no_patch: "PatchPlacement b q \<notin> set (fst (confirm cfg M env now m p l req))"
  by (simp add: confirm_def Let_def condition_no_patch split: prod.splits)

lemma commit_patch:
  "PatchPlacement b q \<in> set (fst (snd (commit M env now st m p req oc obs))) \<longleftrightarrow> b = m \<and> q = p"
  by (auto simp: commit_def condition_no_patch io_bind_def split: sum.splits)

lemma avoid_request:
  "avoid now ns m st req ss = (st', r) \<Longrightarrow>
   rq_sourceNode r = rq_sourceNode req \<and> rq_targetNode r = rq_targetNode req \<and> rq_provider r = rq_provider req"
proof (induction ss arbitrary: st req)
  case (Cons s ss)
  show ?case
    using Cons.prems by (auto simp: Let_def split: prod.splits option.splits dest!: Cons.IH)
qed simp

lemma request_fields:
  assumes "request cfg env now st m ns = (st', Inr req)"
  shows "rq_sourceNode req = ms_sourceNode (mir_spec m)" "rq_targetNode req = ms_targetNode (mir_spec m)"
    "rq_provider req = ms_provider (mir_spec m)"
  using assms by (auto simp: request_def Let_def split: if_splits sum.splits prod.splits dest!: avoid_request)

lemma ledger_newLedger:
  "ledger env now st ns self = (st', Inr l) \<Longrightarrow> \<exists>placed. l = newLedger ns placed"
  by (auto simp: ledger_def split: sum.splits prod.splits)

lemma place_mirror_patch:
  assumes "PatchPlacement b p \<in> set (fst (snd (place_mirror cfg M ll env now st m ns (newLedger ns placed) req)))"
    and "distinct (map node_name ns)" "rq_sourceNode req = ms_sourceNode (mir_spec m)"
    "rq_targetNode req = ms_targetNode (mir_spec m)" "rq_provider req = ms_provider (mir_spec m)"
  shows "b = m \<and> valid_placement ns m (Some p)"
proof (cases "ms_placement (mir_spec m) = None \<and>
    findStatusCondition M (mst_conditions (mir_status m)) ConditionTypePlaced = None \<and>
    valid_placement ns m (Some (bound_placement m))")
  case True
  then show ?thesis using assms(1) by (simp add: place_mirror_def Let_def commit_patch)
next
  case False
  define d where "d = place ll (newLedger ns placed) (cfg_settings cfg) (req\<lparr>rq_demand := fst (demand cfg env m)\<rparr>)"
  have "b = m \<and> p = dec_placement d \<and> dec_outcome d \<in> {OutcomePlaced, OutcomeOvercommitted}"
    using assms(1) False unfolding place_mirror_def if_not_P[OF False]
    by (auto simp: Let_def commit_patch condition_no_patch d_def split: prod.splits if_splits Outcome.splits)
  then show ?thesis
    using place_has[of ll "newLedger ns placed" "cfg_settings cfg" "req\<lparr>rq_demand := fst (demand cfg env m)\<rparr>"] assms(2-5)
    by (auto simp: valid_placement_def d_def ledger_node_at)
qed

lemma reconcile_patch:
  assumes "PatchPlacement b p \<in> set (fst (snd (reconcile_placement cfg M ll env now st key)))"
  shows "env_mirror env key = Inr b \<and> om_deletionTimestamp (mir_meta b) = 0 \<and>
    ms_provider (mir_spec b) \<notin> {ProviderUnset, ProviderAuto} \<and>
    (\<exists>ns. nodes env = Inr ns \<and> \<not> valid_placement ns b (ms_placement (mir_spec b)) \<and> valid_placement ns b (Some p))"
proof -
  let ?st = "if ps_started st = 0 then st\<lparr>ps_started := now\<rparr> else st"
  obtain m where m: "env_mirror env key = Inr m" "om_deletionTimestamp (mir_meta m) = 0"
    "ms_provider (mir_spec m) \<notin> {ProviderUnset, ProviderAuto}"
    using assms by (auto simp: reconcile_placement_def Let_def split: sum.splits if_splits)
  obtain ns where ns: "nodes env = Inr ns"
    using assms m by (auto simp: reconcile_placement_def Let_def split: sum.splits if_splits)
  obtain st1 l where l: "ledger env now ?st ns key = (st1, Inr l)"
    using assms m ns by (auto simp: reconcile_placement_def Let_def split: sum.splits if_splits prod.splits)
  obtain st2 req where req: "request cfg env now st1 m ns = (st2, Inr req)"
    using assms m ns l by (auto simp: reconcile_placement_def Let_def split: sum.splits if_splits prod.splits)
  from ledger_newLedger[OF l] obtain placed where placed: "l = newLedger ns placed" by blast
  have eq: "reconcile_placement cfg M ll env now st key =
      (if valid_placement ns m (ms_placement (mir_spec m))
       then (st2, io_bind (confirm cfg M env now m (the (ms_placement (mir_spec m))) l req) (\<lambda>_. io_ret no_requeue))
       else place_mirror cfg M ll env now st2 m ns l req)"
    using m ns l req by (auto simp: reconcile_placement_def Let_def valid_placement_def split: option.splits)
  have nv: "\<not> valid_placement ns m (ms_placement (mir_spec m))"
  proof
    assume "valid_placement ns m (ms_placement (mir_spec m))"
    with assms show False unfolding eq by (simp add: confirm_no_patch)
  qed
  from assms have "PatchPlacement b p \<in> set (fst (snd (place_mirror cfg M ll env now st2 m ns l req)))"
    unfolding eq using nv by simp
  with place_mirror_patch[of b p cfg M ll env now st2 m ns placed req] request_fields[OF req] nodes_distinct[OF ns]
  have "b = m" "valid_placement ns m (Some p)" by (simp_all add: placed)
  with m ns nv show ?thesis by blast
qed

text \<open>C2. A placement is written only where it is needed and only if it can be carried: the patch is
  computed from the very object read (whose resource version it carries), the mirror is not being
  deleted and has a concrete provider, the placement it has is missing or names an interface its
  nodes no longer offer, and both addresses written are on interfaces, not down, that the two nodes
  report for that provider. A placement that still stands is never moved.\<close>

theorem placement_written_only_where_needed:
  assumes "PatchPlacement b p \<in> set (fst (snd (reconcile_placement cfg M ll env now st key)))"
  shows "env_mirror env key = Inr b \<and> om_deletionTimestamp (mir_meta b) = 0 \<and>
    ms_provider (mir_spec b) \<notin> {ProviderUnset, ProviderAuto} \<and>
    (\<exists>ns. nodes env = Inr ns \<and> \<not> valid_placement ns b (ms_placement (mir_spec b)) \<and> valid_placement ns b (Some p))"
  using assms by (rule reconcile_patch)

subsection \<open>An unplaced mirror is looked at again\<close>

lemma commit_result:
  assumes "snd (snd (commit M env now st m p req oc obs)) = Inr r"
  shows "0 < requeueAfter r \<or> (\<exists>m'. env_patch env m p = Inr m') \<or> (\<exists>e. env_patch env m p = Inl e \<and> isNotFound e)"
  using assms
  by (auto simp: commit_def after_def conflictRetry_def millisecond_def split: sum.splits if_splits)

lemma place_mirror_retried:
  assumes "snd (snd (place_mirror cfg M ll env now st m ns l req)) = Inr r"
  shows "0 < requeueAfter r \<or>
    (\<exists>p. PatchPlacement m p \<in> set (fst (snd (place_mirror cfg M ll env now st m ns l req))) \<and>
         ((\<exists>m'. env_patch env m p = Inr m') \<or> (\<exists>e. env_patch env m p = Inl e \<and> isNotFound e)))"
proof -
  have patched: "0 < requeueAfter r \<or>
    (\<exists>p. PatchPlacement m p \<in> set (fst (snd (commit M env now st m q req' oc obs))) \<and>
         ((\<exists>m'. env_patch env m p = Inr m') \<or> (\<exists>e. env_patch env m p = Inl e \<and> isNotFound e)))"
    if "snd (snd (commit M env now st m q req' oc obs)) = Inr r" for q req' oc obs
    using commit_result[OF that] commit_patch[of m q M env now st m q req' oc obs] by blast
  have retry: "0 < requeueAfter r" if "snd (io_bind c (\<lambda>_. io_ret (after d))) = Inr r" "0 < d" for c :: "(placement_write, unit) io" and d
    using io_bind_ret_Inr[OF that(1)] that(2) by (simp add: after_def)
  have [simp]: "0 < unplacedRetry" by (simp add: unplacedRetry_def second_def)
  show ?thesis
  proof (cases "ms_placement (mir_spec m) = None \<and>
      findStatusCondition M (mst_conditions (mir_status m)) ConditionTypePlaced = None \<and>
      valid_placement ns m (Some (bound_placement m))")
    case True
    then have eq: "\<exists>q req' oc obs. place_mirror cfg M ll env now st m ns l req = commit M env now st m q req' oc obs"
      unfolding place_mirror_def if_P[OF True] Let_def by blast
    then show ?thesis using assms patched by metis
  next
    case False
    show ?thesis
      using assms unfolding place_mirror_def if_not_P[OF False]
      by (auto simp: Let_def split: prod.splits if_splits Outcome.splits dest!: retry patched)
  qed
qed

lemma reconcile_unplaced:
  assumes "env_mirror env key = Inr m" "om_deletionTimestamp (mir_meta m) = 0"
    "ms_provider (mir_spec m) \<notin> {ProviderUnset, ProviderAuto}"
    "nodes env = Inr ns" "\<not> valid_placement ns m (ms_placement (mir_spec m))"
    "snd (snd (reconcile_placement cfg M ll env now st key)) = Inr r"
  obtains st2 l req where
    "reconcile_placement cfg M ll env now st key = place_mirror cfg M ll env now st2 m ns l req"
proof -
  let ?st = "if ps_started st = 0 then st\<lparr>ps_started := now\<rparr> else st"
  obtain st1 l where l: "ledger env now ?st ns key = (st1, Inr l)"
    using assms by (auto simp: reconcile_placement_def Let_def split: sum.splits if_splits prod.splits)
  obtain st2 req where req: "request cfg env now st1 m ns = (st2, Inr req)"
    using assms l by (auto simp: reconcile_placement_def Let_def split: sum.splits if_splits prod.splits)
  have "reconcile_placement cfg M ll env now st key = place_mirror cfg M ll env now st2 m ns l req"
    using assms l req by (auto simp: reconcile_placement_def Let_def split: option.splits)
  then show thesis by (rule that)
qed

text \<open>C9. No mirror is left behind: a reconcile that ends without error on a mirror that should be
  placed and is not either asks to be run again after a positive delay, or has written a placement
  that the API server accepted (or answered that the mirror is gone).\<close>

theorem unplaced_is_retried:
  assumes "env_mirror env key = Inr m" "om_deletionTimestamp (mir_meta m) = 0"
    "ms_provider (mir_spec m) \<notin> {ProviderUnset, ProviderAuto}"
    "nodes env = Inr ns" "\<not> valid_placement ns m (ms_placement (mir_spec m))"
    "snd (snd (reconcile_placement cfg M ll env now st key)) = Inr r"
  shows "0 < requeueAfter r \<or>
    (\<exists>p. PatchPlacement m p \<in> set (fst (snd (reconcile_placement cfg M ll env now st key))) \<and>
         ((\<exists>m'. env_patch env m p = Inr m') \<or> (\<exists>e. env_patch env m p = Inl e \<and> isNotFound e)))"
proof -
  obtain st2 l req where eq: "reconcile_placement cfg M ll env now st key = place_mirror cfg M ll env now st2 m ns l req"
    using reconcile_unplaced[OF assms] by blast
  show ?thesis using place_mirror_retried[of cfg M ll env now st2 m ns l req r] assms(6) unfolding eq by blast
qed

subsection \<open>The ledger counts what was written before the cache shows it\<close>

text \<open>The specification: what a mirror is known to carry, from the overlay while it stands and from
  its spec otherwise.\<close>

definition known_placement :: "time \<Rightarrow> (NamespacedName \<rightharpoonup> overlay) \<Rightarrow> MxlFlowMirror \<Rightarrow> Placed option" where
  "known_placement now w o' =
     (case w (objectKey (mir_meta o')) of
        Some ov \<Rightarrow>
          if ms_placement (mir_spec o') = Some (pd_placement (ov_placed ov)) \<and>
             mst_demandBitsPerSecond (mir_status o') = pd_demand (ov_placed ov) \<or>
             overlayTTL < time_sub now (ov_at ov)
          then map_option (spec_placed o') (ms_placement (mir_spec o'))
          else Some (ov_placed ov)
      | None \<Rightarrow> map_option (spec_placed o') (ms_placement (mir_spec o')))"

abbreviation "mirror_key o' \<equiv> objectKey (mir_meta o')"

lemma overlay_lookup_other:
  "k \<noteq> key \<Longrightarrow> ps_written (fst (overlay_lookup now st key o')) k = ps_written st k"
  by (simp add: overlay_lookup_def split: option.splits)

lemma known_placement_lookup:
  "known_placement now (ps_written st) o' =
     (case snd (overlay_lookup now st (mirror_key o') o') of
        Some p \<Rightarrow> Some p | None \<Rightarrow> map_option (spec_placed o') (ms_placement (mir_spec o')))"
  by (simp add: known_placement_def overlay_lookup_def split: option.splits)

lemma known_placement_cong:
  "w (mirror_key o') = w' (mirror_key o') \<Longrightarrow> known_placement now w o' = known_placement now w' o'"
  by (simp add: known_placement_def)

lemma map_filter_cong: "(\<And>x. x \<in> set xs \<Longrightarrow> f x = g x) \<Longrightarrow> List.map_filter f xs = List.map_filter g xs"
  by (induction xs) (simp_all add: List.map_filter_simps split: option.split)

lemma map_filter_known_cong:
  assumes "\<And>o'. o' \<in> set os \<Longrightarrow> w (mirror_key o') = w' (mirror_key o')"
  shows "List.map_filter (known_placement now w) (filter P os) = List.map_filter (known_placement now w') (filter P os)"
proof -
  have "known_placement now w o' = known_placement now w' o'" if "o' \<in> set (filter P os)" for o'
    using that by (intro known_placement_cong assms) simp
  then show ?thesis by (rule map_filter_cong)
qed

lemma charged_known:
  "distinct (map mirror_key os) \<Longrightarrow>
   snd (charged now self st os) =
     List.map_filter (known_placement now (ps_written st))
       (filter (\<lambda>o'. mirror_key o' \<noteq> self \<and> om_deletionTimestamp (mir_meta o') = 0) os)"
proof (induction os arbitrary: st)
  case (Cons o' os)
  let ?P = "\<lambda>o'. mirror_key o' \<noteq> self \<and> om_deletionTimestamp (mir_meta o') = 0"
  let ?st = "fst (overlay_lookup now st (mirror_key o') o')"
  have rest: "snd (charged now self ?st os) = List.map_filter (known_placement now (ps_written st)) (filter ?P os)"
  proof -
    have "ps_written ?st (mirror_key q) = ps_written st (mirror_key q)" if "q \<in> set os" for q
      using Cons.prems that by (intro overlay_lookup_other) (auto simp: image_iff)
    then have "List.map_filter (known_placement now (ps_written ?st)) (filter ?P os) =
        List.map_filter (known_placement now (ps_written st)) (filter ?P os)"
      by (rule map_filter_known_cong)
    moreover have "distinct (map mirror_key os)" using Cons.prems by simp
    ultimately show ?thesis using Cons.IH[of ?st] by metis
  qed
  show ?case
  proof (cases "?P o'")
    case True
    then show ?thesis
      using rest known_placement_lookup[of now st o']
      by (auto simp: List.map_filter_simps split: prod.splits option.splits)
  next
    case False
    then show ?thesis using Cons by auto
  qed
qed (simp add: List.map_filter_simps)

text \<open>C7. The ledger a decision is taken against holds every other live mirror once, at the placement
  and demand it is known to have: the one this controller wrote last, while the cache has not shown
  it and it is younger than the time limit, and otherwise the one in its spec.\<close>

theorem ledger_charges_known:
  assumes "env_mirrors env = Inr ms" "distinct (map mirror_key ms)"
  shows "snd (ledger env now st ns self) =
    Inr (newLedger ns (List.map_filter (known_placement now (ps_written st))
      (filter (\<lambda>o'. mirror_key o' \<noteq> self \<and> om_deletionTimestamp (mir_meta o') = 0) ms)))"
  using charged_known[OF assms(2), of now self st] assms(1)
  by (cases "charged now self st ms") (simp add: ledger_def)

text \<open>What later passes do to the entry \<open>ov\<close> of one mirror. \<open>strict\<close>: it stands. Otherwise it may be gone, and is never
  replaced. A cached object shows an entry when it carries its placement and demand.\<close>

definition shows_overlay :: "MxlFlowMirror \<Rightarrow> overlay \<Rightarrow> bool" where
  "shows_overlay o' ov \<longleftrightarrow>
     ms_placement (mir_spec o') = Some (pd_placement (ov_placed ov)) \<and> mst_demandBitsPerSecond (mir_status o') = pd_demand (ov_placed ov)"

definition stands :: "bool \<Rightarrow> NamespacedName \<Rightarrow> overlay \<Rightarrow> placement_state \<Rightarrow> bool" where
  "stands strict key ov st \<longleftrightarrow> (if strict then ps_written st key = Some ov else ps_written st key \<in> {None, Some ov})"

text \<open>The mirrors a pass may read from the cache.\<close>

definition cached :: "placement_env \<Rightarrow> MxlFlowMirror set" where
  "cached env = {o'. \<exists>ms. (env_mirrors env = Inr ms \<or> (\<exists>n. env_mirrorsByFlow env n = Inr ms)) \<and> o' \<in> set ms}"

lemma lookup_stands:
  assumes "stands strict key ov st" "strict \<Longrightarrow> mirror_key o' = key \<Longrightarrow> \<not> shows_overlay o' ov"
    "strict \<Longrightarrow> time_sub now (ov_at ov) \<le> overlayTTL"
  shows "stands strict key ov (fst (overlay_lookup now st (mirror_key o') o'))"
  using assms overlay_lookup_other[of key "mirror_key o'" now st o']
  by (cases "mirror_key o' = key") (auto simp: stands_def overlay_lookup_def shows_overlay_def split: option.splits if_splits)

lemma placementOf_stands:
  assumes "stands strict key ov st" "strict \<Longrightarrow> mirror_key o' = key \<Longrightarrow> \<not> shows_overlay o' ov"
    "strict \<Longrightarrow> time_sub now (ov_at ov) \<le> overlayTTL"
  shows "stands strict key ov (fst (placementOf now st o'))"
  using lookup_stands[OF assms] by (auto simp: placementOf_def split: prod.splits option.splits)

lemma charged_stands:
  assumes "\<And>o'. o' \<in> set os \<Longrightarrow> strict \<Longrightarrow> mirror_key o' = key \<Longrightarrow> \<not> shows_overlay o' ov"
    "strict \<Longrightarrow> time_sub now (ov_at ov) \<le> overlayTTL"
  shows "stands strict key ov st \<Longrightarrow> stands strict key ov (fst (charged now self st os))"
  using assms(1)
proof (induction os arbitrary: st)
  case (Cons o' os)
  have "stands strict key ov (fst (overlay_lookup now st (mirror_key o') o'))"
    using Cons.prems assms(2) by (intro lookup_stands) auto
  moreover have "o'' \<in> set os \<Longrightarrow> strict \<Longrightarrow> mirror_key o'' = key \<Longrightarrow> \<not> shows_overlay o'' ov" for o''
    using Cons.prems(2) by simp
  ultimately show ?case
    using Cons.IH[of "fst (overlay_lookup now st (mirror_key o') o')"] Cons.IH[of st] Cons.prems(1)
    by (auto simp: Let_def split: prod.splits option.splits)
qed simp

lemma avoid_stands:
  assumes "\<And>o'. o' \<in> set ss \<Longrightarrow> strict \<Longrightarrow> mirror_key o' = key \<Longrightarrow> \<not> shows_overlay o' ov"
    "strict \<Longrightarrow> time_sub now (ov_at ov) \<le> overlayTTL"
  shows "stands strict key ov st \<Longrightarrow> stands strict key ov (fst (avoid now ns m st req ss))"
  using assms(1)
proof (induction ss arbitrary: st req)
  case (Cons o' ss)
  have "stands strict key ov (fst (placementOf now st o'))"
    using Cons.prems assms(2) by (intro placementOf_stands) auto
  moreover have "o'' \<in> set ss \<Longrightarrow> strict \<Longrightarrow> mirror_key o'' = key \<Longrightarrow> \<not> shows_overlay o'' ov" for o''
    using Cons.prems(2) by simp
  ultimately show ?case
    using Cons.IH[of "fst (placementOf now st o')"] by (auto simp: Let_def split: prod.splits option.splits)
qed simp

lemma sibling_mirrors_cached: "sibling_mirrors env m rs = Inr out \<Longrightarrow> set out \<subseteq> cached env"
proof (induction rs arbitrary: out)
  case (Cons r rs)
  then show ?case by (fastforce simp: cached_def split: sum.splits)
qed simp

text \<open>A pass for another mirror, on an environment that answers for the keys it is asked.\<close>

definition pass_of_another :: "NamespacedName \<Rightarrow> placement_env \<Rightarrow> NamespacedName \<Rightarrow> bool" where
  "pass_of_another key env self \<longleftrightarrow>
     self \<noteq> key \<and> (\<forall>m. env_mirror env self = Inr m \<longrightarrow> mirror_key m = self) \<and>
     (\<forall>m p m'. env_patch env m p = Inr m' \<longrightarrow> mirror_key m' = mirror_key m) \<and>
     (\<forall>ms. env_mirrors env = Inr ms \<longrightarrow> (\<exists>o' \<in> set ms. mirror_key o' = key))"

lemma ledger_stands:
  assumes "stands strict key ov st" "\<And>o'. o' \<in> cached env \<Longrightarrow> strict \<Longrightarrow> mirror_key o' = key \<Longrightarrow> \<not> shows_overlay o' ov"
    "strict \<Longrightarrow> time_sub now (ov_at ov) \<le> overlayTTL" "pass_of_another key env self"
  shows "stands strict key ov (fst (ledger env now st ns self))"
proof (cases "env_mirrors env")
  case (Inr ms)
  have "stands strict key ov (fst (charged now self st ms))"
    using assms(2,3) Inr by (intro charged_stands assms(1)) (auto simp: cached_def)
  moreover have "key \<in> set (map mirror_key ms)" using assms(4) Inr by (auto simp: pass_of_another_def)
  ultimately show ?thesis using Inr by (auto simp: ledger_def stands_def prune_def split: prod.splits if_splits)
qed (use assms(1) in \<open>simp add: ledger_def\<close>)

lemma request_stands:
  assumes "stands strict key ov st" "\<And>o'. o' \<in> cached env \<Longrightarrow> strict \<Longrightarrow> mirror_key o' = key \<Longrightarrow> \<not> shows_overlay o' ov"
    "strict \<Longrightarrow> time_sub now (ov_at ov) \<le> overlayTTL"
  shows "stands strict key ov (fst (request cfg env now st m ns))"
proof (cases "siblings env m")
  case (Inr sibs)
  then have "set sibs \<subseteq> cached env" using sibling_mirrors_cached by (auto simp: siblings_def split: sum.splits)
  then have "stands strict key ov (fst (avoid now ns m st req sibs))" for req
    using assms(2,3) by (intro avoid_stands assms(1)) auto
  then have avoided: "avoid now ns m st req sibs = (st', r) \<Longrightarrow> stands strict key ov st'" for req st' r by (metis fst_conv)
  then show ?thesis using assms(1) Inr by (auto simp: request_def Let_def split: prod.splits dest: avoided)
qed (use assms(1) in \<open>simp add: request_def Let_def\<close>)

lemma commit_stands:
  assumes "stands strict key ov st" "mirror_key m \<noteq> key" "\<And>p m'. env_patch env m p = Inr m' \<Longrightarrow> mirror_key m' = mirror_key m"
  shows "stands strict key ov (fst (commit M env now st m p req oc obs))"
  using assms by (auto simp: commit_def remember_def stands_def split: sum.splits)

lemma place_mirror_stands:
  assumes "stands strict key ov st" "mirror_key m \<noteq> key" "\<And>p m'. env_patch env m p = Inr m' \<Longrightarrow> mirror_key m' = mirror_key m"
  shows "stands strict key ov (fst (place_mirror cfg M ll env now st m ns l req))"
  using assms(1) commit_stands[OF assms]
  by (auto simp: place_mirror_def Let_def split: prod.splits Outcome.splits)

lemma forget_stands: "stands strict key ov st \<Longrightarrow> self \<noteq> key \<Longrightarrow> stands strict key ov (forget st self)"
  by (auto simp: stands_def forget_def)

lemma reconcile_stands:
  assumes "stands strict key ov st" "\<And>o'. o' \<in> cached env \<Longrightarrow> strict \<Longrightarrow> mirror_key o' = key \<Longrightarrow> \<not> shows_overlay o' ov"
    "strict \<Longrightarrow> time_sub now (ov_at ov) \<le> overlayTTL" "pass_of_another key env self"
  shows "stands strict key ov (fst (reconcile_placement cfg M ll env now st self))"
proof -
  let ?st = "if ps_started st = 0 then st\<lparr>ps_started := now\<rparr> else st"
  have st: "stands strict key ov ?st" using assms(1) by (simp add: stands_def split: if_splits)
  have self: "self \<noteq> key" using assms(4) by (simp add: pass_of_another_def)
  show ?thesis
  proof (cases "env_mirror env self")
    case (Inl e)
    then show ?thesis using st forget_stands[OF st self] by (simp add: reconcile_placement_def Let_def)
  next
    case (Inr m)
    then have m: "mirror_key m \<noteq> key" and patch: "env_patch env m p = Inr m' \<Longrightarrow> mirror_key m' = mirror_key m" for p m'
      using assms(4) by (auto simp: pass_of_another_def)
    show ?thesis
    proof (cases "om_deletionTimestamp (mir_meta m) \<noteq> 0 \<or> ms_provider (mir_spec m) \<in> {ProviderUnset, ProviderAuto} \<or> (\<exists>e. nodes env = Inl e)")
      case True
      then show ?thesis using Inr st forget_stands[OF st self] by (auto simp: reconcile_placement_def Let_def)
    next
      case False
      then obtain ns where ns: "nodes env = Inr ns" by (cases "nodes env") auto
      obtain st1 l where l: "ledger env now ?st ns self = (st1, l)" by fastforce
      have "stands strict key ov (fst (ledger env now ?st ns self))" by (rule ledger_stands[OF st _ _ assms(4)]) (fact assms(2,3))+
      then have st1: "stands strict key ov st1" unfolding l fst_conv .
      obtain st2 r where r: "request cfg env now st1 m ns = (st2, r)" by fastforce
      have "stands strict key ov (fst (request cfg env now st1 m ns))" by (rule request_stands[OF st1]) (fact assms(2,3))+
      then have st2: "stands strict key ov st2" unfolding r fst_conv .
      have rec: "reconcile_placement cfg M ll env now st self =
          (case l of Inl e \<Rightarrow> (st1, io_fail e) | Inr l \<Rightarrow>
             case r of Inl e \<Rightarrow> (st2, io_fail e) | Inr req \<Rightarrow>
             case ms_placement (mir_spec m) of
               Some p \<Rightarrow>
                 if valid_placement ns m (Some p) then (st2, io_bind (confirm cfg M env now m p l req) (\<lambda>_. io_ret no_requeue))
                 else place_mirror cfg M ll env now st2 m ns l req
             | None \<Rightarrow> place_mirror cfg M ll env now st2 m ns l req)"
        using False Inr ns l r by (simp add: reconcile_placement_def Let_def split: sum.split)
      show ?thesis
        unfolding rec using st1 st2 place_mirror_stands[OF st2 m patch] by (simp split: sum.split option.split)
    qed
  qed
qed

text \<open>Any number of passes, each with its settings, its view of the cluster, its time and its mirror.\<close>

type_synonym placement_pass = "placement_config \<times> meta_api \<times> (string \<Rightarrow> bool) \<times> placement_env \<times> time \<times> NamespacedName"

fun pass_env :: "placement_pass \<Rightarrow> placement_env" where
  "pass_env (cfg, M, ll, env, now, self) = env"

fun placement_run :: "placement_pass list \<Rightarrow> placement_state \<Rightarrow> placement_state" where
  "placement_run [] st = st"
| "placement_run ((cfg, M, ll, env, now, self) # ps) st = placement_run ps (fst (reconcile_placement cfg M ll env now st self))"

lemma placement_run_stands:
  assumes "\<forall>(cfg, M, ll, env, now, self) \<in> set ps. pass_of_another key env self \<and> time_sub now (ov_at ov) \<le> overlayTTL"
    "strict \<Longrightarrow> \<forall>ps' \<in> set ps. \<forall>o' \<in> cached (pass_env ps'). mirror_key o' = key \<longrightarrow> \<not> shows_overlay o' ov"
  shows "stands strict key ov st \<Longrightarrow> stands strict key ov (placement_run ps st)"
  using assms
proof (induction ps arbitrary: st)
  case (Cons a ps)
  obtain cfg M ll env now self where a: "a = (cfg, M, ll, env, now, self)" by (cases a) auto
  have "stands strict key ov (fst (reconcile_placement cfg M ll env now st self))"
    using Cons.prems a by (intro reconcile_stands) auto
  then show ?case using Cons a by auto
qed simp

text \<open>C6. A placement is counted from the moment it is written. After a commit, let any passes for other mirrors follow within
  the time limit, with the mirror in every listing of the cache, and let a cache that has shown the placement go on showing
  it. Then a decision for another mirror within the time limit charges the mirror with the placement and the demand that
  were written, whether its cache shows them already or still something else.\<close>

theorem committed_placement_is_charged:
  assumes "env_patch env m p = Inr m'" "o' \<in> set ms" "mirror_key o' = mirror_key m'"
    "om_deletionTimestamp (mir_meta o') = 0" "mirror_key m' \<noteq> self" "distinct (map mirror_key ms)"
    "time_sub later now \<le> overlayTTL"
    and passes: "\<forall>(cfg, N, ll, e, t, k) \<in> set ps. pass_of_another (mirror_key m') e k \<and> time_sub t now \<le> overlayTTL"
    and catches_up: "(\<exists>pass \<in> set ps. \<exists>c \<in> cached (pass_env pass). mirror_key c = mirror_key m' \<and>
        ms_placement (mir_spec c) = Some p \<and> mst_demandBitsPerSecond (mir_status c) = rq_demand req) \<longrightarrow>
      ms_placement (mir_spec o') = Some p \<and> mst_demandBitsPerSecond (mir_status o') = rq_demand req"
  shows "\<exists>q \<in> set (snd (charged later self (placement_run ps (fst (commit M env now st m p req oc obs))) ms)).
           pd_placement q = p \<and> pd_demand q = rq_demand req"
proof -
  let ?com = "fst (commit M env now st m p req oc obs)" and ?key = "mirror_key m'"
  let ?st = "placement_run ps ?com"
  obtain ov where ov: "ps_written ?com ?key = Some ov" "ov_at ov = now" "pd_placement (ov_placed ov) = p" "pd_demand (ov_placed ov) = rq_demand req"
    using that[of "\<lparr>ov_placed = \<lparr>pd_sourceNode = ms_sourceNode (mir_spec m'), pd_targetNode = ms_targetNode (mir_spec m'),
        pd_provider = ms_provider (mir_spec m'), pd_placement = p, pd_demand = rq_demand req\<rparr>, ov_at = now\<rparr>"] assms(1)
    by (simp add: commit_def remember_def)
  have runs: "stands strict ?key ov ?st"
    if "strict \<Longrightarrow> \<forall>pass \<in> set ps. \<forall>c \<in> cached (pass_env pass). mirror_key c = ?key \<longrightarrow> \<not> shows_overlay c ov" for strict
    using passes ov(1,2) that by (intro placement_run_stands) (auto simp: stands_def)
  have "\<exists>q. known_placement later (ps_written ?st) o' = Some q \<and> pd_placement q = p \<and> pd_demand q = rq_demand req"
  proof (cases "shows_overlay o' ov")
    case True
    have "ps_written ?st ?key = None \<or> ps_written ?st ?key = Some ov" using runs[of False] by (auto simp: stands_def)
    then show ?thesis using True ov assms(3) by (auto simp: known_placement_def shows_overlay_def spec_placed_def)
  next
    case False
    have "ps_written ?st ?key = Some ov"
      using runs[of True] catches_up False ov(3,4) by (auto simp: stands_def shows_overlay_def)
    then show ?thesis using False ov assms(3,7) by (auto simp: known_placement_def shows_overlay_def)
  qed
  then obtain q where q: "known_placement later (ps_written ?st) o' = Some q" "pd_placement q = p" "pd_demand q = rq_demand req"
    by blast
  have "q \<in> set (snd (charged later self ?st ms))"
    unfolding charged_known[OF assms(6)] using q(1) assms(2-5) by (force simp: List.map_filter_def)
  with q show ?thesis by blast
qed

subsection \<open>Lost races, and a condition that does not flap\<close>

text \<open>What commit does on each answer to its patch. Accepted: the placement is remembered under
  the object returned and the condition is then applied. Lost to a concurrent write: nothing is
  remembered, no condition is written, and the mirror is retried shortly. Mirror gone: nothing is
  remembered and there is no error. Anything else: the error, and nothing is remembered.\<close>

theorem commit_on_every_answer:
  "case env_patch env m p of
     Inr m' \<Rightarrow>
       (\<exists>pl. ps_written (fst (commit M env now st m p req oc obs)) =
          (ps_written st)(objectKey (mir_meta m') \<mapsto> \<lparr>ov_placed = pl, ov_at = now\<rparr>) \<and>
          pd_placement pl = p \<and> pd_demand pl = rq_demand req) \<and>
       fst (snd (commit M env now st m p req oc obs)) =
         PatchPlacement m p # (if obs then [ObservePlacement (time_sub now (om_creationTimestamp (mir_meta m')))] else []) @
         fst (condition M env now m' True (outcome_string oc) (message oc p (rq_demand req)) (rq_demand req))
   | Inl e \<Rightarrow>
       fst (commit M env now st m p req oc obs) = st \<and>
       snd (commit M env now st m p req oc obs) =
         ([PatchPlacement m p],
          if isConflict e then Inr (after conflictRetry) else if isNotFound e then Inr no_requeue else Inl e)"
  by (auto simp: commit_def remember_def io_bind_def io_write_def io_ret_def split: sum.splits)

definition shows_condition :: "meta_api \<Rightarrow> MxlFlowMirror \<Rightarrow> Condition \<Rightarrow> int option \<Rightarrow> bool" where
  "shows_condition M m c d \<longleftrightarrow>
     findStatusCondition M (mst_conditions (mir_status m)) ConditionTypePlaced = Some c \<and>
     mst_demandBitsPerSecond (mir_status m) = (case d of None \<Rightarrow> 0 | Some x \<Rightarrow> x)"

text \<open>The condition settles: once a mirror of the same generation shows the condition and the
  demand that were applied, applying the same verdict again writes nothing, at whatever time. So a
  controller that is woken by its own write comes to rest.\<close>

theorem condition_settles:
  assumes "meta_api_ok M" "0 \<le> dem"
    and "ApplyPlaced key c d \<in> set (fst (condition M env now m ok reason msg dem))"
    and "shows_condition M m' c d" "om_generation (mir_meta m') = om_generation (mir_meta m)"
  shows "condition M env' later m' ok reason msg dem = io_ret ()"
proof -
  have c: "cond_status c = (if ok then ConditionTrue else ConditionFalse)" "cond_reason c = reason"
    "cond_message c = msg" "cond_observedGeneration c = om_generation (mir_meta m)" "cond_type c = ConditionTypePlaced"
    "(case d of None \<Rightarrow> 0 | Some x \<Rightarrow> x) = dem"
    using assms(2,3) meta_api_ok_find[OF assms(1)]
    by (auto simp: condition_def Let_def placed_condition_def split: option.splits if_splits)
  show ?thesis
    using assms(4,5) c meta_api_ok_find[OF assms(1)]
    by (simp add: condition_def Let_def shows_condition_def placed_condition_def)
qed

subsection \<open>The watch predicates let through everything a decision depends on\<close>

text \<open>What placement reads of a node.\<close>

definition planning_view :: "Node \<Rightarrow> Node" where
  "planning_view n = \<lparr>node_name = node_name n, node_status = empty_caps\<lparr>
     nc_providers := nc_providers (node_status n), nc_budgets := nc_budgets (node_status n),
     nc_maxUtilizationPercent := nc_maxUtilizationPercent (node_status n)\<rparr>\<rparr>"

definition ledger_view :: "Ledger \<Rightarrow> Ledger" where
  "ledger_view l = l\<lparr>led_nodes := map_option planning_view \<circ> led_nodes l\<rparr>"

lemma planning_view_simps [simp]:
  "node_name (planning_view n) = node_name n"
  "node_interfaces (planning_view n) = node_interfaces n"
  "node_port (planning_view n) = node_port n"
  "utilization (planning_view n) = utilization n"
  "planning_view zero_node = zero_node"
  by (simp_all add: planning_view_def node_interfaces_def node_port_def utilization_def zero_node_def fun_eq_iff
      empty_caps_def)

lemma ledger_view_node [simp]: "ledger_node (ledger_view l) k = planning_view (ledger_node l k)"
  by (simp add: ledger_view_def ledger_node_def split: option.splits)

lemma ledger_view_simps [simp]:
  "budgetsOf (ledger_view l) = budgetsOf l"
  "egress (ledger_view l) = egress l" "ingress (ledger_view l) = ingress l"
  "led_egress (ledger_view l) = led_egress l" "led_ingress (ledger_view l) = led_ingress l"
  "led_budgetEgress (ledger_view l) = led_budgetEgress l" "led_budgetIngress (ledger_view l) = led_budgetIngress l"
  by (simp_all add: ledger_view_def ledger_node_def budgetsOf_def egress_def ingress_def fun_eq_iff Let_def
      planning_view_def split: option.splits)

lemma score_view: "score (ledger_view l) s (planning_view a) (planning_view b) i j req = score l s a b i j req"
proof -
  have "source_rooms (ledger_view l) (planning_view a) u i = source_rooms l a u i"
    "target_rooms (ledger_view l) (planning_view b) u j = target_rooms l b u j" for u
    by (simp_all add: source_rooms_def target_rooms_def Let_def cong: MxlFabricBudgetMode.case_cong)
  then show ?thesis by (simp add: score_def rooms_def Let_def split: prod.splits)
qed

lemma place_view: "place ll (ledger_view l) s req = place ll l s req"
  by (simp add: place_def candidates_def Let_def score_view)

lemma charge_view: "ledger_view (charge l p) = charge (ledger_view l) p"
  by (simp add: charge_def Let_def) (simp add: ledger_view_def)

lemma newLedger_view:
  "ledger_view (newLedger ns ps) = newLedger (map planning_view ns) ps"
proof -
  have fold: "ledger_view (foldl charge l ps) = foldl charge (ledger_view l) ps" for l
    by (induction ps arbitrary: l) (simp_all add: charge_view)
  have "map_option planning_view \<circ> foldl (\<lambda>m n. m(node_name n \<mapsto> n)) m ns =
      foldl (\<lambda>m n. m(node_name n \<mapsto> n)) (map_option planning_view \<circ> m) (map planning_view ns)" for m
    by (induction ns arbitrary: m) (simp_all add: fun_upd_comp)
  from this[of Map.empty] have "ledger_view (empty_ledger (foldl (\<lambda>m n. m(node_name n \<mapsto> n)) Map.empty ns)) =
      empty_ledger (foldl (\<lambda>m n. m(node_name n \<mapsto> n)) Map.empty (map planning_view ns))"
    by (simp add: ledger_view_def empty_ledger_def comp_def)
  then show ?thesis by (simp add: newLedger_def fold)
qed

text \<open>The filter on capability updates drops nothing that matters: replacing a node's report by one
  the predicate does not let through leaves every decision of the planner, for every mirror and
  every ledger, as it was.\<close>

theorem filtered_updates_do_not_matter:
  assumes "\<not> placementInputsChanged old new" "node_name (caps_node old) = node_name (caps_node new)"
  shows "place ll (newLedger (ns @ caps_node old # ms) placed) s req =
         place ll (newLedger (ns @ caps_node new # ms) placed) s req"
proof -
  have "planning_view (caps_node old) = planning_view (caps_node new)"
    using assms by (simp add: planning_view_def placementInputsChanged_def caps_node_def)
  then have "ledger_view (newLedger (ns @ caps_node old # ms) placed) =
      ledger_view (newLedger (ns @ caps_node new # ms) placed)"
    by (simp add: newLedger_view)
  then show ?thesis by (metis place_view)
qed

text \<open>The wake-up on a published rate reaches every mirror it concerns: a placed mirror the handler
  does not enqueue already carries the demand that confirm would charge it for that rate.\<close>

theorem rate_change_wakes:
  assumes "env_mirrorsByFlow env (flowref_name (flow_ref f)) = Inr ms" "m \<in> set ms"
    "env_flow env (flowref_name (mirror_ref m)) = Inr f" "0 < fst_bitsPerSecond (flow_status f)"
    "objectKey (mir_meta m) \<notin> set (flowToMirrors cfg env f)"
  shows "ms_placement (mir_spec m) \<noteq> None \<and> demand cfg env m = (mst_demandBitsPerSecond (mir_status m), True)"
  using assms by (auto simp: flowToMirrors_def matching_def demand_def demand_of_def)

subsection \<open>On a concrete fleet\<close>

definition example_flow :: MxlFlow where
  "example_flow = witness_flow\<lparr>flow_status := (flow_status witness_flow)\<lparr>fst_bitsPerSecond := 600\<rparr>\<rparr>"

definition example_caps :: "string \<Rightarrow> MxlNodeCapabilities" where
  "example_caps name = \<lparr>caps_meta = witness_meta name, caps_nodeName = name, caps_status = node_status (example_node name 0)\<rparr>"

definition example_config :: placement_config where
  "example_config = \<lparr>cfg_settings = example_settings, cfg_overheadPercent = 0, cfg_provisionalDemand = 0,
     cfg_demandWait = 5 * second, cfg_redundancySets = False\<rparr>"

definition example_env :: "MxlFlowMirror \<Rightarrow> placement_env" where
  "example_env m = \<lparr>env_mirror = (\<lambda>_. Inr m), env_caps = Inr [example_caps ''a'', example_caps ''b''],
     env_mirrors = Inr [m], env_sets = Inr [], env_mirrorsByFlow = (\<lambda>_. Inr [m]), env_flow = (\<lambda>_. Inr example_flow),
     env_patch = (\<lambda>m p. Inr (m\<lparr>mir_spec := (mir_spec m)\<lparr>ms_placement := Some p\<rparr>\<rparr>)), env_apply = (\<lambda>_. Inr ())\<rparr>"

definition fresh_state :: placement_state where
  "fresh_state = \<lparr>ps_started = 1, ps_written = Map.empty\<rparr>"

abbreviation "example_pair \<equiv> \<lparr>pl_sourceInterface = ''10.0.0.2'', pl_targetInterface = ''10.0.0.2''\<rparr>"
abbreviation "example_run m \<equiv>
  reconcile_placement example_config list_meta_api no_link_local (example_env m) 10 fresh_state (mirror_key m)"

theorem placement_written_only_where_needed_witness:
  "PatchPlacement (witness_mirror ''m'') example_pair \<in> set (fst (snd (example_run (witness_mirror ''m'')))) \<and>
   (\<exists>ns. nodes (example_env (witness_mirror ''m'')) = Inr ns \<and> valid_placement ns (witness_mirror ''m'') (Some example_pair))"
proof -
  have "PatchPlacement (witness_mirror ''m'') example_pair \<in> set (fst (snd (example_run (witness_mirror ''m''))))"
    by code_simp
  with placement_written_only_where_needed[OF this] show ?thesis by blast
qed

theorem unplaced_is_retried_witness:
  "\<exists>p. PatchPlacement (witness_mirror ''m'') p \<in> set (fst (snd (example_run (witness_mirror ''m''))))"
proof -
  let ?m = "witness_mirror ''m''" and ?ns = "[example_node ''a'' 0, example_node ''b'' 0]"
  have "0 < requeueAfter no_requeue \<or>
    (\<exists>p. PatchPlacement ?m p \<in> set (fst (snd (example_run ?m))) \<and>
         ((\<exists>m'. env_patch (example_env ?m) ?m p = Inr m') \<or>
          (\<exists>e. env_patch (example_env ?m) ?m p = Inl e \<and> isNotFound e)))"
    by (rule unplaced_is_retried[where ns = ?ns]) code_simp+
  then show ?thesis by (auto simp: no_requeue_def)
qed

theorem ledger_charges_known_witness:
  "snd (ledger (example_env (witness_mirror ''m'')) 10 fresh_state [] (mirror_key (witness_mirror ''other''))) =
    Inr (newLedger [] (List.map_filter (known_placement 10 (ps_written fresh_state))
      (filter (\<lambda>o'. mirror_key o' \<noteq> mirror_key (witness_mirror ''other'') \<and> om_deletionTimestamp (mir_meta o') = 0)
        [witness_mirror ''m''])))"
  by (rule ledger_charges_known) (code_simp, simp)

text \<open>Two mirrors; a pass for the second comes between the commit for the first and the next decision.\<close>

definition two_mirrors_env :: placement_env where
  "two_mirrors_env = (example_env (witness_mirror ''other''))\<lparr>env_mirrors := Inr [witness_mirror ''m'', witness_mirror ''other'']\<rparr>"

definition second_pass :: placement_pass where
  "second_pass = (example_config, list_meta_api, no_link_local, two_mirrors_env, 15, mirror_key (witness_mirror ''other''))"

lemma second_pass_other: "pass_of_another (mirror_key (witness_mirror ''m'')) two_mirrors_env (mirror_key (witness_mirror ''other''))"
  by (auto simp: pass_of_another_def two_mirrors_env_def example_env_def witness_mirror_def witness_meta_def objectKey_def)

lemma two_mirrors_unplaced: "c \<in> cached two_mirrors_env \<Longrightarrow> ms_placement (mir_spec c) = None"
  by (auto simp: cached_def two_mirrors_env_def example_env_def witness_mirror_def)

theorem committed_placement_is_charged_witness:
  "\<exists>q \<in> set (snd (charged 20 (mirror_key (witness_mirror ''third'')) (placement_run [second_pass]
       (fst (commit list_meta_api (example_env (witness_mirror ''m'')) 10 fresh_state (witness_mirror ''m'')
              example_pair (example_request []) OutcomePlaced False))) [witness_mirror ''m'', witness_mirror ''other''])).
     pd_placement q = example_pair \<and> pd_demand q = rq_demand (example_request [])"
proof (rule committed_placement_is_charged[where o' = "witness_mirror ''m''" and
      m' = "(witness_mirror ''m'')\<lparr>mir_spec := (mir_spec (witness_mirror ''m''))\<lparr>ms_placement := Some example_pair\<rparr>\<rparr>"])
  show "\<forall>(cfg, N, ll, e, t, k) \<in> set [second_pass].
      pass_of_another (mirror_key ((witness_mirror ''m'')\<lparr>mir_spec := (mir_spec (witness_mirror ''m''))\<lparr>ms_placement := Some example_pair\<rparr>\<rparr>)) e k \<and>
      time_sub t 10 \<le> overlayTTL"
    using second_pass_other by (simp add: second_pass_def overlayTTL_def second_def time_sub_id)
  show "(\<exists>pass \<in> set [second_pass]. \<exists>c \<in> cached (pass_env pass).
        mirror_key c = mirror_key ((witness_mirror ''m'')\<lparr>mir_spec := (mir_spec (witness_mirror ''m''))\<lparr>ms_placement := Some example_pair\<rparr>\<rparr>) \<and>
        ms_placement (mir_spec c) = Some example_pair \<and> mst_demandBitsPerSecond (mir_status c) = rq_demand (example_request [])) \<longrightarrow>
      ms_placement (mir_spec (witness_mirror ''m'')) = Some example_pair \<and>
      mst_demandBitsPerSecond (mir_status (witness_mirror ''m'')) = rq_demand (example_request [])"
    using two_mirrors_unplaced by (fastforce simp: second_pass_def)
qed code_simp+

definition example_condition :: Condition where
  "example_condition = \<lparr>cond_type = ConditionTypePlaced, cond_status = ConditionFalse, cond_reason = ReasonHeld,
     cond_message = '''', cond_observedGeneration = 1, cond_lastTransitionTime = 0\<rparr>"

abbreviation "with_conditions m cs \<equiv> m\<lparr>mir_status := (mir_status m)\<lparr>mst_conditions := cs\<rparr>\<rparr>"

theorem condition_settles_witness:
  "condition list_meta_api (example_env (witness_mirror ''m'')) 20
     (with_conditions (witness_mirror ''m'') [example_condition]) False ReasonHeld '''' 0 = io_ret ()"
  by (rule condition_settles[where m = "witness_mirror ''m''" and c = example_condition and d = None and
        now = 10 and key = "mirror_key (witness_mirror ''m'')" and env = "example_env (witness_mirror ''m'')"])
    (rule list_meta_api_ok, code_simp+)

theorem filtered_updates_do_not_matter_witness:
  "place no_link_local (newLedger ([] @ caps_node (example_caps ''a'') # [example_node ''b'' 0]) [])
     example_settings (example_request []) =
   place no_link_local (newLedger ([] @ caps_node
       ((example_caps ''a'')\<lparr>caps_status := (caps_status (example_caps ''a''))\<lparr>nc_lastSeen := Some 5\<rparr>\<rparr>) # [example_node ''b'' 0]) [])
     example_settings (example_request [])"
  by (rule filtered_updates_do_not_matter) code_simp+

theorem rate_change_wakes_witness:
  "demand example_config (example_env (witness_mirror ''m'')) ((witness_mirror ''m'')\<lparr>
       mir_spec := (mir_spec (witness_mirror ''m''))\<lparr>ms_placement := Some example_pair\<rparr>,
       mir_status := (mir_status (witness_mirror ''m''))\<lparr>mst_demandBitsPerSecond := 600\<rparr>\<rparr>) = (600, True)"
proof -
  let ?m = "(witness_mirror ''m'')\<lparr>mir_spec := (mir_spec (witness_mirror ''m''))\<lparr>ms_placement := Some example_pair\<rparr>,
       mir_status := (mir_status (witness_mirror ''m''))\<lparr>mst_demandBitsPerSecond := 600\<rparr>\<rparr>"
  have "ms_placement (mir_spec ?m) \<noteq> None \<and>
      demand example_config (example_env ?m) ?m = (mst_demandBitsPerSecond (mir_status ?m), True)"
    by (rule rate_change_wakes[where f = example_flow and ms = "[?m]"]) code_simp+
  then show ?thesis by (simp add: example_env_def demand_def)
qed

text \<open>What placedBefore means and what it reads differ. The comment takes it for whether the mirror
  ever carried a placement; it reads whether the condition is true now. A mirror that carries a
  placement whose interface went away, and was then reported Held, counts as never placed: when it
  is placed again, its whole age is observed as the time its placement took.\<close>

theorem placed_again_is_timed:
  "let m = (with_conditions (witness_mirror ''m'') [example_condition])\<lparr>mir_spec := (mir_spec (witness_mirror ''m''))
             \<lparr>ms_placement := Some \<lparr>pl_sourceInterface = ''10.0.0.9'', pl_targetInterface = ''10.0.0.2''\<rparr>\<rparr>\<rparr>
   in \<not> placedBefore list_meta_api m \<and> ms_placement (mir_spec m) \<noteq> None \<and>
      ObservePlacement 9 \<in> set (fst (snd (example_run m)))"
  by code_simp

section \<open>The placement flags (operator/cmd/mxl-operator/placement.go)\<close>

text \<open>\<^verbatim>\<open>resource.ParseQuantity\<close> and \<^verbatim>\<open>AsInt64\<close> are the parameter \<open>parseQuantity\<close>: an error, or the
  quantity as an integer where it is one.\<close>

record placementFlags =
  fl_maxUtilization :: int
  fl_overheadPercent :: int
  fl_provisionalRaw :: string
  fl_provisional :: int
  fl_demandWait :: duration
  fl_pairing :: string
  fl_overcommit :: string

definition pairing_of :: "string \<Rightarrow> Pairing option" where
  "pairing_of s = (if s = ''prefer-same-subnet'' then Some PairingPreferSameSubnet
     else if s = ''same-subnet'' then Some PairingSameSubnet
     else if s = ''any'' then Some PairingAny else None)"

definition overcommit_of :: "string \<Rightarrow> Overcommit option" where
  "overcommit_of s = (if s = ''place'' then Some OvercommitPlace
     else if s = ''hold'' then Some OvercommitHold else None)"

definition validate_flags :: "(string \<Rightarrow> go_error + int option) \<Rightarrow> placementFlags \<Rightarrow> go_error + placementFlags" where
  "validate_flags parseQuantity p =
     (if fl_maxUtilization p < 1 \<or> 100 < fl_maxUtilization p
      then Inl (EOther ''--placement-max-utilization must be 1..100'')
      else if fl_overheadPercent p < 0 \<or> 100 < fl_overheadPercent p
      then Inl (EOther ''--placement-protocol-overhead must be 0..100'')
      else case parseQuantity (fl_provisionalRaw p) of
             Inl e \<Rightarrow> Inl (EWrap ''--placement-provisional-demand'' e)
           | Inr None \<Rightarrow> Inl (EOther ''--placement-provisional-demand must be a non-negative whole number'')
           | Inr (Some v) \<Rightarrow>
               if v < 0 then Inl (EOther ''--placement-provisional-demand must be a non-negative whole number'')
               else if fl_demandWait p < 0 then Inl (EOther ''--placement-demand-wait must not be negative'')
               else if pairing_of (fl_pairing p) = None then Inl (EOther ''--placement-pairing'')
               else if overcommit_of (fl_overcommit p) = None then Inl (EOther ''--placement-overcommit'')
               else Inr (p\<lparr>fl_provisional := v\<rparr>))"

text \<open>The conversions of \<^verbatim>\<open>settings\<close> keep the string; it is one of the constants once validated.\<close>

definition flag_settings :: "placementFlags \<Rightarrow> Settings option" where
  "flag_settings p =
     (case (pairing_of (fl_pairing p), overcommit_of (fl_overcommit p)) of
        (Some pg, Some oc) \<Rightarrow>
          Some \<lparr>set_maxUtilizationPercent = fl_maxUtilization p, set_pairing = pg, set_overcommit = oc\<rparr>
      | _ \<Rightarrow> None)"

lemma demand_of_bounds:
  assumes "0 < rate" "rate \<le> 2 ^ 61" "0 \<le> overhead" "overhead \<le> 100"
  shows "rate \<le> demand_of rate overhead prov" "demand_of rate overhead prov \<le> 2 * rate"
proof -
  have b: "0 \<le> rate div 100 * overhead" "rate div 100 * overhead \<le> rate div 100 * 100"
    using assms by (auto intro: mult_left_mono mult_nonneg_nonneg)
  have "rate div 100 * 100 \<le> rate" by linarith
  with b have x: "rate div 100 * overhead \<le> rate" by linarith
  have r: "in_i64 (rate div 100 * overhead)" "in_i64 (rate + rate div 100 * overhead)"
    using b(1) x assms(1,2) by simp_all
  have "demand_of rate overhead prov = rate + rate div 100 * overhead"
    using assms r by (simp add: demand_of_def quot64_nonneg mul64_id add64_id)
  then show "rate \<le> demand_of rate overhead prov" "demand_of rate overhead prov \<le> 2 * rate"
    using b(1) x by linarith+
qed

text \<open>Flags that validate give settings the arithmetic of the planner is meant for: there are
  settings, the share is between 1 and 100 percent, so that no plannable capacity exceeds the
  capacity, and a published rate up to 2^61 bit/s is charged at least itself and at most twice
  itself, with no wrap-around.\<close>

theorem validated_flags_are_sound:
  assumes "validate_flags parseQuantity p = Inr q" "0 < rate" "rate \<le> 2 ^ 61" "0 \<le> c" "c < 2 ^ 63"
  shows "\<exists>s. flag_settings q = Some s \<and> 1 \<le> set_maxUtilizationPercent s \<and> set_maxUtilizationPercent s \<le> 100 \<and>
    0 \<le> plannable c (set_maxUtilizationPercent s) \<and> plannable c (set_maxUtilizationPercent s) \<le> c \<and>
    0 \<le> fl_provisional q \<and> 0 \<le> fl_demandWait q \<and>
    rate \<le> demand_of rate (fl_overheadPercent q) (fl_provisional q) \<and>
    demand_of rate (fl_overheadPercent q) (fl_provisional q) \<le> 2 * rate"
proof -
  have v: "1 \<le> fl_maxUtilization q" "fl_maxUtilization q \<le> 100" "0 \<le> fl_overheadPercent q" "fl_overheadPercent q \<le> 100"
    "0 \<le> fl_provisional q" "0 \<le> fl_demandWait q"
    "pairing_of (fl_pairing q) \<noteq> None" "overcommit_of (fl_overcommit q) \<noteq> None"
    using assms(1) by (auto simp: validate_flags_def split: if_splits sum.splits option.splits)
  note d = demand_of_bounds[OF assms(2,3) v(3,4), of "fl_provisional q"]
  note pl = plannable_bounds[OF assms(4,5), of "fl_maxUtilization q"]
  from v(7,8) obtain pg oc where "flag_settings q =
      Some \<lparr>set_maxUtilizationPercent = fl_maxUtilization q, set_pairing = pg, set_overcommit = oc\<rparr>"
    by (auto simp: flag_settings_def)
  with v d pl show ?thesis by simp
qed

abbreviation "default_flags \<equiv> \<lparr>fl_maxUtilization = 80, fl_overheadPercent = 5, fl_provisionalRaw = ''0'',
  fl_provisional = 0, fl_demandWait = 5 * second, fl_pairing = ''prefer-same-subnet'', fl_overcommit = ''place''\<rparr>"

theorem validated_flags_are_sound_witness:
  "\<exists>s. flag_settings default_flags = Some s \<and> 1 \<le> set_maxUtilizationPercent s \<and> set_maxUtilizationPercent s \<le> 100 \<and>
    0 \<le> plannable 1000 (set_maxUtilizationPercent s) \<and> plannable 1000 (set_maxUtilizationPercent s) \<le> 1000 \<and>
    0 \<le> fl_provisional default_flags \<and> 0 \<le> fl_demandWait default_flags \<and>
    1000 \<le> demand_of 1000 (fl_overheadPercent default_flags) (fl_provisional default_flags) \<and>
    demand_of 1000 (fl_overheadPercent default_flags) (fl_provisional default_flags) \<le> 2 * 1000"
  by (rule validated_flags_are_sound[where p = default_flags and parseQuantity = "\<lambda>_. Inr (Some 0)"]) (code_simp+)

end
