(* ===== verification/Mirror_Lifecycle.thy ===== *)
theory Mirror_Lifecycle
  imports Origin
begin

section \<open>The mirror lifecycle controller (operator/internal/mirror/controller.go)\<close>

text \<open>
  One reconcile of a mirror: judge whether anything claims it and whether it can be sourced, repoint
  it when its origin has moved, publish the two verdicts, and delete it when nothing justifies it.
  The API server's answers are the record \<open>mirror_env\<close>; a \<open>claim_reader\<close> is one source of the three
  objects that can claim a mirror, so that the cached and the live reader are two values of it. Of
  a receiver and a pod only the metadata is read. The instant of the reconcile is one value \<open>now\<close>.
\<close>

subsection \<open>Constants\<close>

definition legacyIntentFinalizer :: string where
  "legacyIntentFinalizer = ''mxl.qvest-digital.com/intent-gc''"

definition DefaultGracePeriod :: duration where "DefaultGracePeriod = 300 * second"
definition RequestorHandover :: duration where "RequestorHandover = 30 * second"

definition ReasonSourceRetargeted :: string where "ReasonSourceRetargeted = ''SourceRetargeted''"
definition ReasonOriginLocal :: string where "ReasonOriginLocal = ''OriginLocal''"
definition ReasonMirrorCollected :: string where "ReasonMirrorCollected = ''MirrorCollected''"
definition ReasonReceiverOwned :: string where "ReasonReceiverOwned = ''ReceiverOwned''"
definition ReasonRedundancySetOwned :: string where "ReasonRedundancySetOwned = ''RedundancySetOwned''"
definition ReasonRequestorLive :: string where "ReasonRequestorLive = ''RequestorLive''"
definition ReasonUnclaimed :: string where "ReasonUnclaimed = ''Unclaimed''"
definition ReasonTargetNodeGone :: string where "ReasonTargetNodeGone = ''TargetNodeGone''"
definition ReasonOriginUnresolved :: string where "ReasonOriginUnresolved = ''OriginUnresolved''"
definition ReasonOriginResolved :: string where "ReasonOriginResolved = ''OriginResolved''"

subsection \<open>Environment\<close>

record claim_reader =
  rd_receiver :: "NamespacedName \<Rightarrow> go_error + ObjectMeta"
  rd_set :: "string \<Rightarrow> go_error + MxlFlowRedundancySet"
  rd_pod :: "NamespacedName \<Rightarrow> go_error + ObjectMeta"

record mirror_config =
  mc_recorder :: bool
  mc_lease :: "LeaseFreshness option"
  mc_gracePeriod :: duration
  mc_apiReader :: "claim_reader option"
  mc_redundancySets :: bool

datatype mirror_write =
    UpdateMirror MxlFlowMirror
  | PatchSource NamespacedName string MxlFabricsProvider
  | UpdateMirrorStatus MxlFlowMirror
  | ApplyConditions NamespacedName "Condition list"
  | DeleteMirror NamespacedName string string
  | MirrorEvent string string

record mirror_env =
  me_mirror :: "NamespacedName \<Rightarrow> go_error + MxlFlowMirror"
  me_reader :: claim_reader
  me_flow :: "string \<Rightarrow> go_error + MxlFlow"
  me_node :: "string \<Rightarrow> go_error + ObjectMeta"
  me_caps :: "string \<Rightarrow> go_error + MxlNodeCapabilities"
  me_update :: "MxlFlowMirror \<Rightarrow> go_error + MxlFlowMirror"
  me_repoint :: "MxlFlowMirror \<Rightarrow> string \<Rightarrow> MxlFabricsProvider \<Rightarrow> go_error + MxlFlowMirror"
  me_retry :: "(nat \<Rightarrow> (mirror_write, unit) io) \<Rightarrow> (mirror_write, unit) io"
  me_reread :: "nat \<Rightarrow> go_error + MxlFlowMirror"
  me_updateStatus :: "nat \<Rightarrow> MxlFlowMirror \<Rightarrow> go_error + unit"
  me_apply :: "Condition list \<Rightarrow> go_error + string"
  me_delete :: "MxlFlowMirror \<Rightarrow> go_error + unit"

subsection \<open>Judgements\<close>

record judgement =
  j_ok :: bool
  j_reason :: string
  j_message :: string

datatype sourceDisposition = sourceKeep | sourceWait | sourceGone

record sourceJudgement =
  sj_judgement :: judgement
  sj_node :: string
  sj_deadline :: time
  sj_disposition :: sourceDisposition

definition failed_source :: "sourceDisposition \<Rightarrow> string \<Rightarrow> string \<Rightarrow> sourceJudgement" where
  "failed_source d reason msg =
     \<lparr>sj_judgement = \<lparr>j_ok = False, j_reason = reason, j_message = msg\<rparr>, sj_node = '''', sj_deadline = 0, sj_disposition = d\<rparr>"

subsection \<open>Claim\<close>

fun claim_receivers :: "claim_reader \<Rightarrow> string \<Rightarrow> OwnerReference list \<Rightarrow> go_error + judgement option" where
  "claim_receivers rd ns [] = Inr None"
| "claim_receivers rd ns (own # ors) =
     (if or_kind own \<noteq> ''MxlReceiver'' \<or> or_apiVersion own \<noteq> groupVersion then claim_receivers rd ns ors
      else case rd_receiver rd \<lparr>nn_namespace = ns, nn_name = or_name own\<rparr> of
             Inl e \<Rightarrow> if isNotFound e then claim_receivers rd ns ors
                      else Inl (EWrap (''get owning MxlReceiver '' @ ns @ ''/'' @ or_name own) e)
           | Inr recv \<Rightarrow>
               if om_uid recv \<noteq> or_uid own then claim_receivers rd ns ors
               else Inr (Some \<lparr>j_ok = True, j_reason = ReasonReceiverOwned,
                 j_message = ''MxlReceiver '' @ ns @ ''/'' @ om_name recv @ '' owns this mirror''\<rparr>))"

fun claim_sets :: "claim_reader \<Rightarrow> bool \<Rightarrow> string \<Rightarrow> OwnerReference list \<Rightarrow> go_error + judgement option" where
  "claim_sets rd enabled target [] = Inr None"
| "claim_sets rd enabled target (own # ors) =
     (if \<not> enabled \<or> or_kind own \<noteq> ''MxlFlowRedundancySet'' \<or> or_apiVersion own \<noteq> groupVersion
      then claim_sets rd enabled target ors
      else case rd_set rd (or_name own) of
             Inl e \<Rightarrow> if isNotFound e then claim_sets rd enabled target ors
                      else Inl (EWrap (''get owning MxlFlowRedundancySet '' @ or_name own) e)
           | Inr s \<Rightarrow>
               if om_uid (set_meta s) \<noteq> or_uid own \<or> target \<notin> set (sst_nodes (set_status s))
               then claim_sets rd enabled target ors
               else Inr (Some \<lparr>j_ok = True, j_reason = ReasonRedundancySetOwned,
                 j_message = ''MxlFlowRedundancySet '' @ om_name (set_meta s) @ '' merges this flow on '' @ target\<rparr>))"

definition claim_requestor :: "claim_reader \<Rightarrow> PodRef option \<Rightarrow> go_error + judgement option" where
  "claim_requestor rd req =
     (case req of
        None \<Rightarrow> Inr None
      | Some p \<Rightarrow>
          (case rd_pod rd \<lparr>nn_namespace = pr_namespace p, nn_name = pr_name p\<rparr> of
             Inr pod \<Rightarrow>
               if pr_uid p = '''' \<or> om_uid pod = pr_uid p
               then Inr (Some \<lparr>j_ok = True, j_reason = ReasonRequestorLive,
                 j_message = ''requestor pod '' @ pr_namespace p @ ''/'' @ pr_name p @ '' is present''\<rparr>)
               else Inr None
           | Inl e \<Rightarrow> if isNotFound e then Inr None
                      else Inl (EWrap (''get requestor pod '' @ pr_namespace p @ ''/'' @ pr_name p) e)))"

definition unclaimed :: judgement where
  "unclaimed = \<lparr>j_ok = False, j_reason = ReasonUnclaimed,
     j_message = ''no live MxlReceiver owns this mirror and no live requestor pod asks for it''\<rparr>"

definition claimFrom :: "mirror_config \<Rightarrow> claim_reader \<Rightarrow> MxlFlowMirror \<Rightarrow> go_error + judgement" where
  "claimFrom cfg rd m =
     (case claim_receivers rd (om_namespace (mir_meta m)) (om_ownerReferences (mir_meta m)) of
        Inl e \<Rightarrow> Inl e
      | Inr (Some j) \<Rightarrow> Inr j
      | Inr None \<Rightarrow>
      case claim_sets rd (mc_redundancySets cfg) (ms_targetNode (mir_spec m)) (om_ownerReferences (mir_meta m)) of
        Inl e \<Rightarrow> Inl e
      | Inr (Some j) \<Rightarrow> Inr j
      | Inr None \<Rightarrow>
      case claim_requestor rd (ms_requestor (mir_spec m)) of
        Inl e \<Rightarrow> Inl e
      | Inr (Some j) \<Rightarrow> Inr j
      | Inr None \<Rightarrow> Inr unclaimed)"

definition claim :: "mirror_config \<Rightarrow> mirror_env \<Rightarrow> MxlFlowMirror \<Rightarrow> go_error + judgement" where
  "claim cfg env m =
     (case claimFrom cfg (me_reader env) m of
        Inl e \<Rightarrow> Inl e
      | Inr j \<Rightarrow>
          if j_ok j then Inr j
          else case mc_apiReader cfg of None \<Rightarrow> Inr j | Some live \<Rightarrow> claimFrom cfg live m)"

subsection \<open>Source\<close>

definition nodeGone :: "mirror_env \<Rightarrow> string \<Rightarrow> go_error + bool" where
  "nodeGone env name =
     (if name = '''' then Inr False
      else case me_node env name of
             Inr _ \<Rightarrow> Inr False
           | Inl e \<Rightarrow> if isNotFound e then Inr True else Inl (EWrap (''look up node '' @ name) e))"

definition unresolved :: "mirror_env \<Rightarrow> MxlFlowMirror \<Rightarrow> sourceDisposition" where
  "unresolved env m =
     (case nodeGone env (ms_sourceNode (mir_spec m)) of
        Inl _ \<Rightarrow> sourceWait
      | Inr gone \<Rightarrow> if gone then sourceGone else sourceWait)"

definition source :: "mirror_config \<Rightarrow> mirror_env \<Rightarrow> MxlFlowMirror \<Rightarrow> go_error + sourceJudgement" where
  "source cfg env m =
     (case nodeGone env (ms_targetNode (mir_spec m)) of
        Inl e \<Rightarrow> Inl e
      | Inr True \<Rightarrow> Inr (failed_source sourceGone ReasonTargetNodeGone
          (''target node '' @ ms_targetNode (mir_spec m) @ '' has left the cluster''))
      | Inr False \<Rightarrow>
      case me_flow env (flowref_name (mirror_ref m)) of
        Inl e \<Rightarrow>
          if isNotFound e
          then Inr (failed_source (unresolved env m) ReasonOriginUnresolved
            (''MxlFlow '' @ flowref_name (mirror_ref m) @ '' does not exist''))
          else Inl (EWrap (''get MxlFlow '' @ flowref_name (mirror_ref m)) e)
      | Inr flow \<Rightarrow>
      case resolveOrigin (Some flow) (mc_lease cfg) of
        Inl e \<Rightarrow> Inl (EWrap (''resolve origin for '' @ ms_flowID (mir_spec m)) e)
      | Inr res \<Rightarrow>
          if res_allStale res
          then Inr (failed_source sourceKeep ReasonLeaseExpired ''every Origin location of the flow has an expired lease'')
          else if \<not> res_found res
          then Inr (failed_source (unresolved env m) ReasonOriginUnresolved ''the flow names no Origin location'')
          else Inr \<lparr>sj_judgement = \<lparr>j_ok = True, j_reason = ReasonOriginResolved, j_message = ''origin is on '' @ res_node res\<rparr>,
                    sj_node = res_node res, sj_deadline = res_deadline res, sj_disposition = sourceKeep\<rparr>)"

subsection \<open>Repoint\<close>

definition nodeCapabilities :: "mirror_env \<Rightarrow> string \<Rightarrow> go_error + MxlNodeCapabilitiesStatus" where
  "nodeCapabilities env node =
     (case me_caps env node of
        Inl e \<Rightarrow> if isNotFound e then Inr empty_caps else Inl e
      | Inr caps \<Rightarrow> Inr (caps_status caps))"

definition resolveProvider ::
  "meta_api \<Rightarrow> mirror_env \<Rightarrow> MxlFlowMirror \<Rightarrow> string \<Rightarrow> go_error + MxlFabricsProvider" where
  "resolveProvider M env m sourceNode =
     (case nodeCapabilities env sourceNode of
        Inl e \<Rightarrow> Inl (EWrap ''source node capabilities'' e)
      | Inr srcCaps \<Rightarrow>
      case nodeCapabilities env (ms_targetNode (mir_spec m)) of
        Inl e \<Rightarrow> Inl (EWrap ''target node capabilities'' e)
      | Inr tgtCaps \<Rightarrow>
          if supported M srcCaps tgtCaps (ms_provider (mir_spec m)) then Inr (ms_provider (mir_spec m))
          else Inr (fst (resolve M srcCaps tgtCaps)))"

definition recorded :: "mirror_config \<Rightarrow> string \<Rightarrow> string \<Rightarrow> (mirror_write, unit) io" where
  "recorded cfg reason msg = (if mc_recorder cfg then io_write (MirrorEvent reason msg) (Inr ()) else io_ret ())"

text \<open>One attempt of the status write; the object vanishing ends it without error.\<close>

definition retarget_attempt :: "mirror_env \<Rightarrow> time \<Rightarrow> string \<Rightarrow> nat \<Rightarrow> (mirror_write, unit) io" where
  "retarget_attempt env now previous i =
     (case me_reread env i of
        Inl e \<Rightarrow> io_read (ignoreNotFound (Inl e))
      | Inr live \<Rightarrow>
          let live' = live\<lparr>mir_status := (mir_status live)\<lparr>mst_previousSourceNode := previous,
                                                          mst_sourceRetargetedAt := Some now\<rparr>\<rparr>
          in io_write (UpdateMirrorStatus live') (me_updateStatus env i live'))"

definition recordRetarget :: "mirror_env \<Rightarrow> time \<Rightarrow> string \<Rightarrow> (mirror_write, unit) io" where
  "recordRetarget env now previous =
     (if previous = '''' then io_ret () else me_retry env (retarget_attempt env now previous))"

text \<open>An error of the status write is only logged: \<open>swallow\<close>.\<close>

definition swallow :: "('w, unit) io \<Rightarrow> ('w, unit) io" where
  "swallow m = (fst m, Inr ())"

definition repoint ::
  "mirror_config \<Rightarrow> meta_api \<Rightarrow> mirror_env \<Rightarrow> time \<Rightarrow> MxlFlowMirror \<Rightarrow> string \<Rightarrow> (mirror_write, MxlFlowMirror) io" where
  "repoint cfg M env now m node =
     (case resolveProvider M env m node of
        Inl e \<Rightarrow> io_fail (EWrap (''resolve provider for repointed source '' @ node) e)
      | Inr provider \<Rightarrow>
          let key = objectKey (mir_meta m); previous = ms_sourceNode (mir_spec m)
          in case me_repoint env m node provider of
               Inl e \<Rightarrow> io_write (PatchSource key node provider)
                          (if isNotFound e then Inr m else Inl (EWrap ''repoint mirror'' e))
             | Inr m' \<Rightarrow>
                 io_bind (io_write (PatchSource key node provider) (Inr ())) (\<lambda>_.
                 io_bind (swallow (recordRetarget env now previous)) (\<lambda>_.
                 io_bind (recorded cfg ReasonSourceRetargeted
                   (''Source repointed from '' @ previous @ '' to '' @ node @ '' after the flow's origin moved'')) (\<lambda>_.
                 io_ret m'))))"

subsection \<open>Conditions\<close>

definition verdict_condition :: "string \<Rightarrow> MxlFlowMirror \<Rightarrow> judgement \<Rightarrow> Condition" where
  "verdict_condition typ m j = \<lparr>cond_type = typ, cond_status = conditionStatus (j_ok j), cond_reason = j_reason j,
     cond_message = j_message j, cond_observedGeneration = om_generation (mir_meta m), cond_lastTransitionTime = 0\<rparr>"

definition judged :: "meta_api \<Rightarrow> time \<Rightarrow> MxlFlowMirror \<Rightarrow> judgement \<Rightarrow> sourceJudgement \<Rightarrow> Condition list" where
  "judged M now m claimed src =
     fst (setStatusCondition M now
       (fst (setStatusCondition M now (mst_conditions (mir_status m)) (verdict_condition ConditionTypeClaimed m claimed)))
       (verdict_condition ConditionTypeSourceable m (sj_judgement src)))"

text \<open>The entries of the apply. A condition that is not found after it was set would be a nil
  dereference.\<close>

definition applied :: "meta_api \<Rightarrow> Condition list \<Rightarrow> go_error + Condition list" where
  "applied M cs =
     (case (findStatusCondition M cs ConditionTypeClaimed, findStatusCondition M cs ConditionTypeSourceable) of
        (Some c, Some s) \<Rightarrow> Inr (map (\<lambda>x. x\<lparr>cond_lastTransitionTime := rfc3339 (cond_lastTransitionTime x)\<rparr>) [c, s])
      | _ \<Rightarrow> Inl (EOther ''nil pointer dereference''))"

definition writeConditions ::
  "meta_api \<Rightarrow> mirror_env \<Rightarrow> time \<Rightarrow> MxlFlowMirror \<Rightarrow> judgement \<Rightarrow> sourceJudgement \<Rightarrow> (mirror_write, MxlFlowMirror option) io" where
  "writeConditions M env now m claimed src =
     (let conditions = judged M now m claimed src in
      case applied M conditions of
        Inl e \<Rightarrow> io_fail e
      | Inr ours \<Rightarrow>
          io_write (ApplyConditions (objectKey (mir_meta m)) ours)
            (case me_apply env ours of
               Inl e \<Rightarrow> if isNotFound e then Inr None else Inl (EWrap ''apply mirror conditions'' e)
             | Inr rv \<Rightarrow>
                 let out = m\<lparr>mir_status := (mir_status m)\<lparr>mst_conditions := conditions\<rparr>\<rparr>
                 in Inr (Some (if rv \<noteq> '''' then out\<lparr>mir_meta := (mir_meta out)\<lparr>om_resourceVersion := rv\<rparr>\<rparr> else out))))"

subsection \<open>Collect\<close>

definition transitionedAt :: "meta_api \<Rightarrow> time \<Rightarrow> MxlFlowMirror \<Rightarrow> string \<Rightarrow> time" where
  "transitionedAt M now m typ =
     (case findStatusCondition M (mst_conditions (mir_status m)) typ of
        None \<Rightarrow> now
      | Some c \<Rightarrow> if cond_lastTransitionTime c = 0 then now else cond_lastTransitionTime c)"

definition unsourceableSince :: "meta_api \<Rightarrow> time \<Rightarrow> MxlFlowMirror \<Rightarrow> time" where
  "unsourceableSince M now m = transitionedAt M now m ConditionTypeSourceable"

definition unclaimedSince :: "meta_api \<Rightarrow> time \<Rightarrow> MxlFlowMirror \<Rightarrow> time" where
  "unclaimedSince M now m = transitionedAt M now m ConditionTypeClaimed"

definition delete :: "mirror_config \<Rightarrow> mirror_env \<Rightarrow> MxlFlowMirror \<Rightarrow> string \<Rightarrow> string \<Rightarrow> (mirror_write, unit) io" where
  "delete cfg env m reason msg =
     (if om_deletionTimestamp (mir_meta m) \<noteq> 0 then io_ret ()
      else io_bind (recorded cfg reason msg) (\<lambda>_.
        io_write (DeleteMirror (objectKey (mir_meta m)) (om_uid (mir_meta m)) (om_resourceVersion (mir_meta m)))
          (case me_delete env m of
             Inr _ \<Rightarrow> Inr ()
           | Inl e \<Rightarrow> if isNotFound e \<or> isConflict e then Inr () else Inl (EWrap ''delete mirror'' e))))"

definition grace_period :: "mirror_config \<Rightarrow> duration" where
  "grace_period cfg = (if mc_gracePeriod cfg \<le> 0 then DefaultGracePeriod else mc_gracePeriod cfg)"

definition collect ::
  "mirror_config \<Rightarrow> meta_api \<Rightarrow> mirror_env \<Rightarrow> time \<Rightarrow> MxlFlowMirror option \<Rightarrow> judgement \<Rightarrow> sourceJudgement \<Rightarrow> (mirror_write, Result) io" where
  "collect cfg M env now m claimed src =
     (case m of
        None \<Rightarrow> io_ret no_requeue
      | Some m \<Rightarrow>
          if j_ok claimed \<and> sj_disposition src = sourceKeep then io_ret (requeueAt now (sj_deadline src))
          else if \<not> j_ok claimed then
            (let wait = remaining RequestorHandover now (unclaimedSince M now m)
             in if ms_requestor (mir_spec m) \<noteq> None \<and> sj_disposition src \<noteq> sourceGone \<and> 0 < wait
                then io_ret (after wait)
                else io_bind (delete cfg env m ReasonMirrorCollected (''Collected: '' @ j_message claimed))
                       (\<lambda>_. io_ret no_requeue))
          else
            (let wait = remaining (grace_period cfg) now (unsourceableSince M now m)
             in if sj_disposition src = sourceWait \<and> 0 < wait then io_ret (after wait)
                else io_bind (delete cfg env m ReasonMirrorCollected (''Collected: '' @ j_message (sj_judgement src)))
                       (\<lambda>_. io_ret no_requeue)))"

subsection \<open>Reconcile\<close>

text \<open>The update fills the object in when it succeeds and leaves it, without the finalizer, when it
  loses to another write.\<close>

definition stripLegacyFinalizer :: "mirror_env \<Rightarrow> MxlFlowMirror \<Rightarrow> (mirror_write, MxlFlowMirror) io" where
  "stripLegacyFinalizer env m =
     (let m' = m\<lparr>mir_meta := (mir_meta m)\<lparr>om_finalizers :=
                  filter (\<lambda>f. f \<noteq> legacyIntentFinalizer) (om_finalizers (mir_meta m))\<rparr>\<rparr>
      in io_write (UpdateMirror m')
           (case me_update env m' of
              Inr m'' \<Rightarrow> Inr m''
            | Inl e \<Rightarrow> if isConflict e \<or> isNotFound e then Inr m' else Inl (EWrap ''remove legacy intent finalizer'' e)))"

definition reconcile_judged ::
  "mirror_config \<Rightarrow> meta_api \<Rightarrow> mirror_env \<Rightarrow> time \<Rightarrow> MxlFlowMirror \<Rightarrow> (mirror_write, Result) io" where
  "reconcile_judged cfg M env now m =
     io_bind (io_wrap ''evaluate claim'' (io_read (claim cfg env m))) (\<lambda>claimed.
     io_bind (io_wrap ''evaluate source'' (io_read (source cfg env m))) (\<lambda>src.
     if sj_node src \<noteq> '''' \<and> sj_node src = ms_targetNode (mir_spec m)
     then io_bind (delete cfg env m ReasonOriginLocal
            (''Deleting: the flow's origin moved onto '' @ ms_targetNode (mir_spec m) @ '', so this node reads it directly''))
            (\<lambda>_. io_ret no_requeue)
     else io_bind (if sj_node src \<noteq> '''' \<and> sj_node src \<noteq> ms_sourceNode (mir_spec m)
                   then repoint cfg M env now m (sj_node src) else io_ret m) (\<lambda>m'.
          io_bind (writeConditions M env now m' claimed src) (\<lambda>written.
          collect cfg M env now written claimed src))))"

definition reconcile_mirror ::
  "mirror_config \<Rightarrow> meta_api \<Rightarrow> mirror_env \<Rightarrow> time \<Rightarrow> NamespacedName \<Rightarrow> (mirror_write, Result) io" where
  "reconcile_mirror cfg M env now key =
     (case me_mirror env key of
        Inl e \<Rightarrow> if isNotFound e then io_ret no_requeue else io_fail e
      | Inr m0 \<Rightarrow>
          io_bind (if legacyIntentFinalizer \<in> set (om_finalizers (mir_meta m0)) then stripLegacyFinalizer env m0
                   else io_ret m0) (\<lambda>m.
          if om_deletionTimestamp (mir_meta m) \<noteq> 0 then io_ret no_requeue
          else reconcile_judged cfg M env now m))"

subsection \<open>What wakes a mirror\<close>

definition mirrorsMatching :: "go_error + MxlFlowMirror list \<Rightarrow> (MxlFlowMirror \<Rightarrow> bool) \<Rightarrow> NamespacedName list" where
  "mirrorsMatching mirrors keep =
     (case mirrors of Inl _ \<Rightarrow> [] | Inr ms \<Rightarrow> map (\<lambda>m. objectKey (mir_meta m)) (filter keep ms))"

definition podToMirrors :: "go_error + MxlFlowMirror list \<Rightarrow> ObjectMeta \<Rightarrow> NamespacedName list" where
  "podToMirrors mirrors pod = mirrorsMatching mirrors (\<lambda>m.
     case ms_requestor (mir_spec m) of
       None \<Rightarrow> False
     | Some req \<Rightarrow> pr_namespace req = om_namespace pod \<and> pr_name req = om_name pod)"

definition receiverToMirrors :: "go_error + MxlFlowMirror list \<Rightarrow> ObjectMeta \<Rightarrow> NamespacedName list" where
  "receiverToMirrors mirrors recv = mirrorsMatching mirrors (\<lambda>m.
     om_namespace (mir_meta m) = om_namespace recv \<and>
     list_ex (\<lambda>own. or_uid own = om_uid recv) (om_ownerReferences (mir_meta m)))"

definition set_to_mirrors :: "go_error + MxlFlowMirror list \<Rightarrow> ObjectMeta \<Rightarrow> NamespacedName list" where
  "set_to_mirrors mirrors s = mirrorsMatching mirrors (\<lambda>m.
     list_ex (\<lambda>own. or_kind own = ''MxlFlowRedundancySet'' \<and> or_uid own = om_uid s) (om_ownerReferences (mir_meta m)))"

definition flow_to_mirrors :: "go_error + MxlFlowMirror list \<Rightarrow> MxlFlow \<Rightarrow> NamespacedName list" where
  "flow_to_mirrors mirrors f = mirrorsMatching mirrors (\<lambda>m. mirror_ref m = flow_ref f)"

definition leaseToMirrors :: "go_error + MxlFlowMirror list \<Rightarrow> string \<Rightarrow> NamespacedName list" where
  "leaseToMirrors mirrors lease =
     (case parseLeaseNameFor lease of (ref, _, ok) \<Rightarrow>
        if \<not> ok then [] else mirrorsMatching mirrors (\<lambda>m. mirror_ref m = ref))"

definition nodeToMirrors :: "go_error + MxlFlowMirror list \<Rightarrow> string \<Rightarrow> NamespacedName list" where
  "nodeToMirrors mirrors name = mirrorsMatching mirrors (\<lambda>m.
     ms_targetNode (mir_spec m) = name \<or> ms_sourceNode (mir_spec m) = name)"

definition isSystemNamespace :: "string \<Rightarrow> bool" where
  "isSystemNamespace ns \<longleftrightarrow> ns \<in> {''kube-system'', ''kube-public'', ''kube-node-lease''}"

text \<open>The pod events that pass: a creation, a deletion, and an update under a new uid.\<close>

datatype pod_event = PodCreate ObjectMeta | PodDelete ObjectMeta | PodGeneric ObjectMeta | PodUpdate ObjectMeta ObjectMeta

fun podLifecyclePredicate :: "pod_event \<Rightarrow> bool" where
  "podLifecyclePredicate (PodCreate p) = (\<not> isSystemNamespace (om_namespace p))"
| "podLifecyclePredicate (PodDelete p) = (\<not> isSystemNamespace (om_namespace p))"
| "podLifecyclePredicate (PodGeneric p) = False"
| "podLifecyclePredicate (PodUpdate old new) =
     (if isSystemNamespace (om_namespace new) then False else om_uid old \<noteq> om_uid new)"

section \<open>Properties of the mirror controller\<close>

subsection \<open>What a claim is\<close>

definition receiver_claims :: "claim_reader \<Rightarrow> MxlFlowMirror \<Rightarrow> OwnerReference \<Rightarrow> bool" where
  "receiver_claims rd m own \<longleftrightarrow>
     or_kind own = ''MxlReceiver'' \<and> or_apiVersion own = groupVersion \<and>
     (case rd_receiver rd \<lparr>nn_namespace = om_namespace (mir_meta m), nn_name = or_name own\<rparr> of
        Inl _ \<Rightarrow> False | Inr recv \<Rightarrow> om_uid recv = or_uid own)"

definition set_claims :: "mirror_config \<Rightarrow> claim_reader \<Rightarrow> MxlFlowMirror \<Rightarrow> OwnerReference \<Rightarrow> bool" where
  "set_claims cfg rd m own \<longleftrightarrow>
     mc_redundancySets cfg \<and> or_kind own = ''MxlFlowRedundancySet'' \<and> or_apiVersion own = groupVersion \<and>
     (case rd_set rd (or_name own) of
        Inl _ \<Rightarrow> False
      | Inr s \<Rightarrow> om_uid (set_meta s) = or_uid own \<and> ms_targetNode (mir_spec m) \<in> set (sst_nodes (set_status s)))"

definition pod_claims :: "claim_reader \<Rightarrow> PodRef \<Rightarrow> bool" where
  "pod_claims rd p \<longleftrightarrow>
     (case rd_pod rd \<lparr>nn_namespace = pr_namespace p, nn_name = pr_name p\<rparr> of
        Inl _ \<Rightarrow> False | Inr pod \<Rightarrow> pr_uid p = '''' \<or> om_uid pod = pr_uid p)"

definition claimed_by :: "mirror_config \<Rightarrow> claim_reader \<Rightarrow> MxlFlowMirror \<Rightarrow> bool" where
  "claimed_by cfg rd m \<longleftrightarrow>
     list_ex (receiver_claims rd m) (om_ownerReferences (mir_meta m)) \<or>
     list_ex (set_claims cfg rd m) (om_ownerReferences (mir_meta m)) \<or>
     (case ms_requestor (mir_spec m) of None \<Rightarrow> False | Some p \<Rightarrow> pod_claims rd p)"

lemma claim_receivers_spec:
  "claim_receivers rd (om_namespace (mir_meta m)) ors = Inr r \<Longrightarrow>
   (r \<noteq> None \<longleftrightarrow> list_ex (receiver_claims rd m) ors) \<and> (case r of None \<Rightarrow> True | Some j \<Rightarrow> j_ok j)"
  by (induction ors) (auto simp: receiver_claims_def split: if_splits sum.splits)

lemma claim_sets_spec:
  "claim_sets rd (mc_redundancySets cfg) (ms_targetNode (mir_spec m)) ors = Inr r \<Longrightarrow>
   (r \<noteq> None \<longleftrightarrow> list_ex (set_claims cfg rd m) ors) \<and> (case r of None \<Rightarrow> True | Some j \<Rightarrow> j_ok j)"
  by (induction ors) (auto simp: set_claims_def split: if_splits sum.splits)

lemma claim_requestor_spec:
  "claim_requestor rd req = Inr r \<Longrightarrow>
   (r \<noteq> None \<longleftrightarrow> (case req of None \<Rightarrow> False | Some p \<Rightarrow> pod_claims rd p)) \<and> (case r of None \<Rightarrow> True | Some j \<Rightarrow> j_ok j)"
  by (auto simp: claim_requestor_def pod_claims_def split: if_splits sum.splits option.splits)

lemma claimFrom_spec: "claimFrom cfg rd m = Inr j \<Longrightarrow> j_ok j \<longleftrightarrow> claimed_by cfg rd m"
  by (auto simp: claimFrom_def claimed_by_def unclaimed_def split: sum.splits option.splits
      dest!: claim_receivers_spec claim_sets_spec claim_requestor_spec)

lemma claim_spec:
  assumes "claim cfg env m = Inr j"
  shows "j_ok j \<longleftrightarrow> claimed_by cfg (me_reader env) m \<or>
      (case mc_apiReader cfg of None \<Rightarrow> False | Some live \<Rightarrow> claimed_by cfg live m)"
  using assms by (auto simp: claim_def split: sum.splits if_splits option.splits dest!: claimFrom_spec)

text \<open>The claim verdict means what it says, and an unclaimed verdict never rests on the cache
  alone. A mirror is found claimed exactly when, in the cache or as the API server has it, a
  receiver of its namespace that an owner reference names by name and uid exists, or a redundancy
  set it is owned by merges on its target node, or its requestor pod exists under the recorded uid;
  with a live reader wired, unclaimed means the API server itself shows none of the three.\<close>

theorem claim_verdict:
  assumes "claim cfg env m = Inr j" "mc_apiReader cfg = Some live"
  shows "(j_ok j \<longleftrightarrow> claimed_by cfg (me_reader env) m \<or> claimed_by cfg live m) \<and>
         (\<not> j_ok j \<longrightarrow> claimFrom cfg live m = Inr j)"
  using claim_spec[OF assms(1)] assms by (auto simp: claim_def split: sum.splits if_splits)

subsection \<open>When a mirror goes\<close>

text \<open>The specification of the collector: \<open>remaining\<close> is what is left of a wait.\<close>

definition unjustified :: "mirror_config \<Rightarrow> meta_api \<Rightarrow> time \<Rightarrow> MxlFlowMirror \<Rightarrow> judgement \<Rightarrow> sourceJudgement \<Rightarrow> bool" where
  "unjustified cfg M now m claimed src \<longleftrightarrow>
     (if j_ok claimed
      then sj_disposition src = sourceGone \<or>
           sj_disposition src = sourceWait \<and> remaining (grace_period cfg) now (unsourceableSince M now m) \<le> 0
      else ms_requestor (mir_spec m) = None \<or> sj_disposition src = sourceGone \<or>
           remaining RequestorHandover now (unclaimedSince M now m) \<le> 0)"

definition deletes :: "MxlFlowMirror \<Rightarrow> mirror_write" where
  "deletes m = DeleteMirror (objectKey (mir_meta m)) (om_uid (mir_meta m)) (om_resourceVersion (mir_meta m))"

lemma recorded_no_delete: "DeleteMirror k u rv \<notin> set (fst (recorded cfg reason msg))"
  by (simp add: recorded_def)

lemma recorded_result [simp]: "snd (recorded cfg reason msg) = Inr ()"
  by (simp add: recorded_def)

lemma delete_writes:
  "DeleteMirror k u rv \<in> set (fst (delete cfg env m reason msg)) \<longleftrightarrow>
     om_deletionTimestamp (mir_meta m) = 0 \<and> DeleteMirror k u rv = deletes m"
  by (auto simp: delete_def io_bind_def recorded_no_delete deletes_def)

lemma collect_writes:
  "DeleteMirror k u rv \<in> set (fst (collect cfg M env now (Some m) claimed src)) \<longleftrightarrow>
     om_deletionTimestamp (mir_meta m) = 0 \<and> unjustified cfg M now m claimed src \<and> DeleteMirror k u rv = deletes m"
  by (cases "sj_disposition src") (auto simp: collect_def unjustified_def Let_def delete_writes not_less)

lemma attempt_no_delete: "DeleteMirror k u rv \<notin> set (fst (retarget_attempt env now previous i))"
  by (cases "me_reread env i") (simp_all add: retarget_attempt_def Let_def)

lemma retarget_no_delete:
  "retry_ok (me_retry env) \<Longrightarrow> DeleteMirror k u rv \<notin> set (fst (recordRetarget env now previous))"
  using retry_writes[of "me_retry env" "DeleteMirror k u rv" "retarget_attempt env now previous"] attempt_no_delete
  by (auto simp: recordRetarget_def)

lemma repoint_no_delete:
  "retry_ok (me_retry env) \<Longrightarrow> DeleteMirror k u rv \<notin> set (fst (repoint cfg M env now m node))"
  by (auto simp: repoint_def Let_def io_bind_def swallow_def retarget_no_delete recorded_no_delete split: sum.splits)

lemma writeConditions_no_delete: "DeleteMirror k u rv \<notin> set (fst (writeConditions M env now m c s))"
  by (auto simp: writeConditions_def Let_def split: sum.splits)

lemma strip_no_delete: "DeleteMirror k u rv \<notin> set (fst (stripLegacyFinalizer env m))"
  by (simp add: stripLegacyFinalizer_def Let_def)

text \<open>The object the conditions are written on: the mirror judged, or what the API server answered to its repointing.\<close>

definition carried_on :: "mirror_env \<Rightarrow> MxlFlowMirror \<Rightarrow> sourceJudgement \<Rightarrow> MxlFlowMirror \<Rightarrow> bool" where
  "carried_on env m src m' \<longleftrightarrow>
     m' = m \<or>
     sj_node src \<noteq> '''' \<and> sj_node src \<noteq> ms_sourceNode (mir_spec m) \<and> (\<exists>p. me_repoint env m (sj_node src) p = Inr m')"

lemma repoint_carried_on:
  assumes "snd (if sj_node src \<noteq> '''' \<and> sj_node src \<noteq> ms_sourceNode (mir_spec m)
                then repoint cfg M env now m (sj_node src) else io_ret m) = Inr m'"
  shows "carried_on env m src m'"
  using assms by (auto simp: carried_on_def repoint_def Let_def io_bind_def swallow_def split: if_splits sum.splits)

lemma reconcile_judged_delete:
  assumes "retry_ok (me_retry env)" "DeleteMirror k u rv \<in> set (fst (reconcile_judged cfg M env now m))"
  obtains claimed src where "claim cfg env m = Inr claimed" "source cfg env m = Inr src"
    "sj_node src = ms_targetNode (mir_spec m) \<and> sj_node src \<noteq> '''' \<and> DeleteMirror k u rv = deletes m \<or>
     (\<exists>m' w. carried_on env m src m' \<and> snd (writeConditions M env now m' claimed src) = Inr (Some w) \<and>
        unjustified cfg M now w claimed src \<and> DeleteMirror k u rv = deletes w)"
proof -
  obtain claimed where c: "claim cfg env m = Inr claimed"
    using assms(2) by (cases "claim cfg env m") (auto simp: reconcile_judged_def io_bind_def io_wrap_def)
  obtain src where s: "source cfg env m = Inr src"
    using assms(2) c by (cases "source cfg env m") (auto simp: reconcile_judged_def io_bind_def io_wrap_def)
  show thesis
  proof (cases "sj_node src \<noteq> '''' \<and> sj_node src = ms_targetNode (mir_spec m)")
    case True
    with assms(2) c s show thesis
      by (intro that[OF c s]) (auto simp: reconcile_judged_def io_bind_def io_wrap_def delete_writes split: sum.splits)
  next
    case False
    let ?rep = "if sj_node src \<noteq> '''' \<and> sj_node src \<noteq> ms_sourceNode (mir_spec m)
                then repoint cfg M env now m (sj_node src) else io_ret m"
    have "DeleteMirror k u rv \<in> set (fst (io_bind ?rep (\<lambda>m'. io_bind (writeConditions M env now m' claimed src)
        (\<lambda>written. collect cfg M env now written claimed src))))"
      using assms(2) c s False by (simp add: reconcile_judged_def io_bind_def io_wrap_def)
    moreover have "DeleteMirror k u rv \<notin> set (fst ?rep)" using repoint_no_delete[OF assms(1)] by simp
    ultimately obtain m' w where w: "snd ?rep = Inr m'" "snd (writeConditions M env now m' claimed src) = Inr w"
      "DeleteMirror k u rv \<in> set (fst (collect cfg M env now w claimed src))"
      using writeConditions_no_delete by (blast elim: io_bind_write_cases)
    then obtain w' where "w = Some w'" by (cases w) (auto simp: collect_def)
    with w repoint_carried_on[OF w(1)] show thesis by (intro that[OF c s]) (auto simp: collect_writes)
  qed
qed

text \<open>The object a pass judges: the one read, without the legacy finalizer.\<close>

definition judged_object :: "mirror_env \<Rightarrow> NamespacedName \<Rightarrow> MxlFlowMirror \<Rightarrow> bool" where
  "judged_object env key m \<longleftrightarrow>
     (\<exists>m0. me_mirror env key = Inr m0 \<and>
        (if legacyIntentFinalizer \<in> set (om_finalizers (mir_meta m0)) then snd (stripLegacyFinalizer env m0) = Inr m else m = m0))"

lemma judged_object_unique: "judged_object env key m \<Longrightarrow> judged_object env key m' \<Longrightarrow> m = m'"
  by (auto simp: judged_object_def split: if_splits)

lemma reconcile_delete:
  assumes "retry_ok (me_retry env)" "DeleteMirror k u rv \<in> set (fst (reconcile_mirror cfg M env now key))"
  obtains m where "judged_object env key m"
    "om_deletionTimestamp (mir_meta m) = 0" "DeleteMirror k u rv \<in> set (fst (reconcile_judged cfg M env now m))"
proof -
  obtain m0 where m0: "me_mirror env key = Inr m0"
    using assms(2) by (auto simp: reconcile_mirror_def split: sum.splits if_splits)
  let ?strip = "if legacyIntentFinalizer \<in> set (om_finalizers (mir_meta m0)) then stripLegacyFinalizer env m0 else io_ret m0"
  let ?rest = "\<lambda>m. if om_deletionTimestamp (mir_meta m) \<noteq> 0 then io_ret no_requeue else reconcile_judged cfg M env now m"
  have "DeleteMirror k u rv \<in> set (fst (io_bind ?strip ?rest))"
    using assms(2) m0 by (simp add: reconcile_mirror_def)
  moreover have "DeleteMirror k u rv \<notin> set (fst ?strip)" using strip_no_delete by simp
  ultimately obtain m where m: "snd ?strip = Inr m" "DeleteMirror k u rv \<in> set (fst (?rest m))"
    by (blast elim: io_bind_write_cases)
  show thesis
  proof (rule that)
    show "judged_object env key m"
      using m(1) m0 by (auto simp: judged_object_def split: if_splits)
    show "om_deletionTimestamp (mir_meta m) = 0" "DeleteMirror k u rv \<in> set (fst (reconcile_judged cfg M env now m))"
      using m(2) by (auto split: if_splits)
  qed
qed

lemma source_kept:
  assumes "source cfg env m = Inr src" "nodeGone env (ms_targetNode (mir_spec m)) = Inr False"
    "me_flow env (flowref_name (mirror_ref m)) = Inr flow" "resolveOrigin (Some flow) (mc_lease cfg) = Inr res"
    "res_allStale res \<or> res_found res"
  shows "sj_disposition src = sourceKeep \<and> (sj_node src = '''' \<or> sj_node src = res_node res)"
  using assms by (auto simp: source_def failed_source_def split: if_splits)


subsection \<open>The grace period is exact\<close>

lemma judged_find:
  assumes "meta_api_ok M"
  shows "findStatusCondition M (judged M now m claimed src) ConditionTypeClaimed =
      Some (settled now (findStatusCondition M (mst_conditions (mir_status m)) ConditionTypeClaimed)
        (verdict_condition ConditionTypeClaimed m claimed))"
    "findStatusCondition M (judged M now m claimed src) ConditionTypeSourceable =
      Some (settled now (findStatusCondition M (mst_conditions (mir_status m)) ConditionTypeSourceable)
        (verdict_condition ConditionTypeSourceable m (sj_judgement src)))"
  by (simp_all add: judged_def meta_api_ok_find[OF assms] verdict_condition_def condition_type_defs)

lemma writeConditions_result:
  assumes "meta_api_ok M" "me_apply env = (\<lambda>_. Inr rv)"
  shows "\<exists>ours. writeConditions M env now m claimed src =
    ([ApplyConditions (objectKey (mir_meta m)) ours],
     Inr (Some (let out = m\<lparr>mir_status := (mir_status m)\<lparr>mst_conditions := judged M now m claimed src\<rparr>\<rparr>
                in if rv \<noteq> '''' then out\<lparr>mir_meta := (mir_meta out)\<lparr>om_resourceVersion := rv\<rparr>\<rparr> else out)))"
  by (simp add: writeConditions_def Let_def applied_def judged_find[OF assms(1)] assms(2) io_write_def)

lemma source_wait:
  "source cfg env m = Inr src \<Longrightarrow> sj_disposition src \<noteq> sourceKeep \<Longrightarrow> sj_node src = '''' \<and> \<not> j_ok (sj_judgement src)"
  by (auto simp: source_def failed_source_def split: sum.splits if_splits bool.splits)

lemma writeConditions_written:
  assumes "snd (writeConditions M env now m claimed src) = Inr (Some w)"
  shows "\<exists>ours rv. ApplyConditions (objectKey (mir_meta m)) ours \<in> set (fst (writeConditions M env now m claimed src)) \<and>
    me_apply env ours = Inr rv \<and>
    w = m\<lparr>mir_meta := (mir_meta m)\<lparr>om_resourceVersion := (if rv = '''' then om_resourceVersion (mir_meta m) else rv)\<rparr>,
          mir_status := (mir_status m)\<lparr>mst_conditions := judged M now m claimed src\<rparr>\<rparr>"
proof -
  obtain ours where ours: "applied M (judged M now m claimed src) = Inr ours"
    using assms by (cases "applied M (judged M now m claimed src)") (simp_all add: writeConditions_def Let_def)
  obtain rv where rv: "me_apply env ours = Inr rv"
    using assms ours by (cases "me_apply env ours") (simp_all add: writeConditions_def Let_def split: if_splits)
  from assms ours rv show ?thesis
    by (intro exI[of _ ours] exI[of _ rv], cases m) (auto simp: writeConditions_def Let_def split: if_splits)
qed

lemma since_settled:
  assumes "meta_api_ok M" "typ = ConditionTypeClaimed \<and> j = claimed \<or> typ = ConditionTypeSourceable \<and> j = sj_judgement src"
    "\<not> j_ok j" "remaining d now (transitionedAt M now (m\<lparr>mir_meta := mt,
      mir_status := (mir_status m)\<lparr>mst_conditions := judged M now m claimed src\<rparr>\<rparr>) typ) \<le> 0"
    "0 < d" "d < 2 ^ 62" "sane_conditions M now (mst_conditions (mir_status m))"
  shows "false_for M now (mst_conditions (mir_status m)) typ d"
proof -
  have find: "findStatusCondition M (judged M now m claimed src) typ =
      Some (settled now (findStatusCondition M (mst_conditions (mir_status m)) typ) (verdict_condition typ m j))"
    using assms(2) judged_find[OF assms(1), of now m claimed src] by auto
  show ?thesis
    by (rule settled_wait_over[where c = "verdict_condition typ m j"])
      (use assms find in \<open>simp_all add: transitionedAt_def Let_def verdict_condition_def conditionStatus_def\<close>)
qed

lemma unjustified_written:
  assumes "meta_api_ok M" "sane_conditions M now (mst_conditions (mir_status m))" "grace_period cfg < 2 ^ 62" "source cfg env m0 = Inr src"
    "unjustified cfg M now (m\<lparr>mir_meta := mt, mir_status := (mir_status m)\<lparr>mst_conditions := judged M now m claimed src\<rparr>\<rparr>) claimed src"
  shows "sj_disposition src = sourceGone \<or>
    j_ok claimed \<and> sj_disposition src = sourceWait \<and> false_for M now (mst_conditions (mir_status m)) ConditionTypeSourceable (grace_period cfg) \<or>
    \<not> j_ok claimed \<and> (ms_requestor (mir_spec m) = None \<or> false_for M now (mst_conditions (mir_status m)) ConditionTypeClaimed RequestorHandover)"
proof -
  have "0 < grace_period cfg" by (simp add: grace_period_def DefaultGracePeriod_def second_def)
  moreover have "0 < RequestorHandover" "RequestorHandover < 2 ^ 62" by (simp_all add: RequestorHandover_def second_def)
  ultimately show ?thesis
    using assms source_wait[OF assms(4)]
      since_settled[OF assms(1), of ConditionTypeSourceable "sj_judgement src" claimed src "grace_period cfg" now m mt]
      since_settled[OF assms(1), of ConditionTypeClaimed claimed claimed src RequestorHandover now m mt]
    by (cases "sj_disposition src") (auto simp: unjustified_def unsourceableSince_def unclaimedSince_def split: if_splits)
qed

text \<open>C0. A mirror is deleted only on a verdict of this very pass on the object it read, and only for one of these reasons:
  the flow's live origin is on the mirror's own target node; the mirror's source is terminally gone; the mirror is claimed and
  its Sourceable condition has read False for the grace period; or neither the cache nor, where there is one, the live
  reader shows a claim, and no requestor pod is recorded or the Claimed condition has read False for the handover time. The
  delete names that object by key and uid, under the version it was read at or the one the write of the conditions
  produced.\<close>

theorem deleted_only_when_unjustified:
  assumes "retry_ok (me_retry env)" "meta_api_ok M" "grace_period cfg < 2 ^ 62"
    and sane: "\<forall>m src m'. judged_object env key m \<and> carried_on env m src m' \<longrightarrow> sane_conditions M now (mst_conditions (mir_status m'))"
    and del: "DeleteMirror k u rv \<in> set (fst (reconcile_mirror cfg M env now key))"
  shows "\<exists>m claimed src (m' :: MxlFlowMirror). judged_object env key m \<and> om_deletionTimestamp (mir_meta m) = 0 \<and>
    claim cfg env m = Inr claimed \<and> source cfg env m = Inr src \<and> carried_on env m src m' \<and>
    k = objectKey (mir_meta m') \<and> u = om_uid (mir_meta m') \<and>
    (m' = m \<and> sj_node src = ms_targetNode (mir_spec m) \<and> sj_node src \<noteq> '''' \<and> rv = om_resourceVersion (mir_meta m) \<or>
     (\<exists>ours v. me_apply env ours = Inr v \<and> rv = (if v = '''' then om_resourceVersion (mir_meta m') else v)) \<and>
     (sj_disposition src = sourceGone \<or>
      j_ok claimed \<and> sj_disposition src = sourceWait \<and> false_for M now (mst_conditions (mir_status m')) ConditionTypeSourceable (grace_period cfg) \<or>
      \<not> claimed_by cfg (me_reader env) m \<and> (\<forall>live. mc_apiReader cfg = Some live \<longrightarrow> \<not> claimed_by cfg live m) \<and>
      (ms_requestor (mir_spec m') = None \<or> false_for M now (mst_conditions (mir_status m')) ConditionTypeClaimed RequestorHandover)))"
proof -
  obtain m where m: "judged_object env key m" "om_deletionTimestamp (mir_meta m) = 0"
    "DeleteMirror k u rv \<in> set (fst (reconcile_judged cfg M env now m))"
    using reconcile_delete[OF assms(1) del] by blast
  from reconcile_judged_delete[OF assms(1) m(3)] obtain claimed src where cs: "claim cfg env m = Inr claimed" "source cfg env m = Inr src"
    "sj_node src = ms_targetNode (mir_spec m) \<and> sj_node src \<noteq> '''' \<and> DeleteMirror k u rv = deletes m \<or>
     (\<exists>m' w. carried_on env m src m' \<and> snd (writeConditions M env now m' claimed src) = Inr (Some w) \<and>
        unjustified cfg M now w claimed src \<and> DeleteMirror k u rv = deletes w)" .
  from cs(3) show ?thesis
  proof (elim disjE exE conjE)
    assume "sj_node src = ms_targetNode (mir_spec m)" "sj_node src \<noteq> ''''" "DeleteMirror k u rv = deletes m"
    with m cs(1,2) show ?thesis
      by (intro exI[of _ m] exI[of _ claimed] exI[of _ src]) (simp add: deletes_def carried_on_def)
  next
    fix m' w
    assume w: "carried_on env m src m'" "snd (writeConditions M env now m' claimed src) = Inr (Some w)"
      "unjustified cfg M now w claimed src" "DeleteMirror k u rv = deletes w"
    from writeConditions_written[OF w(2)] obtain ours v where v: "me_apply env ours = Inr v"
      "w = m'\<lparr>mir_meta := (mir_meta m')\<lparr>om_resourceVersion := (if v = '''' then om_resourceVersion (mir_meta m') else v)\<rparr>,
          mir_status := (mir_status m')\<lparr>mst_conditions := judged M now m' claimed src\<rparr>\<rparr>" by blast
    have "sane_conditions M now (mst_conditions (mir_status m'))" using sane m(1) w(1) by blast
    from unjustified_written[OF assms(2) this assms(3) cs(2) w(3)[unfolded v(2)]] claim_spec[OF cs(1)]
    have why: "sj_disposition src = sourceGone \<or>
      j_ok claimed \<and> sj_disposition src = sourceWait \<and> false_for M now (mst_conditions (mir_status m')) ConditionTypeSourceable (grace_period cfg) \<or>
      \<not> claimed_by cfg (me_reader env) m \<and> (\<forall>live. mc_apiReader cfg = Some live \<longrightarrow> \<not> claimed_by cfg live m) \<and>
      (ms_requestor (mir_spec m') = None \<or> false_for M now (mst_conditions (mir_status m')) ConditionTypeClaimed RequestorHandover)" by auto
    have "k = objectKey (mir_meta m') \<and> u = om_uid (mir_meta m') \<and> rv = (if v = '''' then om_resourceVersion (mir_meta m') else v)"
      using w(4) v(2) by (simp add: deletes_def objectKey_def)
    with m(1,2) cs(1,2) w(1) v(1) why show ?thesis by blast
  qed
qed


subsection \<open>Repointing\<close>

lemma attempt_no_patch: "PatchSource k n p \<notin> set (fst (retarget_attempt env now previous i))"
  by (cases "me_reread env i") (simp_all add: retarget_attempt_def Let_def)

lemma retarget_no_patch:
  "retry_ok (me_retry env) \<Longrightarrow> PatchSource k n p \<notin> set (fst (recordRetarget env now previous))"
  using retry_writes[of "me_retry env" "PatchSource k n p" "retarget_attempt env now previous"] attempt_no_patch
  by (auto simp: recordRetarget_def)

lemma other_no_patch:
  "PatchSource k n p \<notin> set (fst (recorded cfg reason msg))"
  "PatchSource k n p \<notin> set (fst (writeConditions M env now m c s))"
  "PatchSource k n p \<notin> set (fst (stripLegacyFinalizer env m))"
  by (auto simp: recorded_def writeConditions_def stripLegacyFinalizer_def Let_def split: sum.splits)

lemma delete_no_patch: "PatchSource k n p \<notin> set (fst (delete cfg env m reason msg))"
  by (simp add: delete_def io_bind_def other_no_patch)

lemma collect_no_patch: "PatchSource k n p \<notin> set (fst (collect cfg M env now m c s))"
  by (cases m) (simp_all add: collect_def Let_def delete_no_patch)

lemma repoint_patch:
  "retry_ok (me_retry env) \<Longrightarrow> PatchSource k n p \<in> set (fst (repoint cfg M env now m node)) \<Longrightarrow>
   k = objectKey (mir_meta m) \<and> n = node \<and> resolveProvider M env m node = Inr p"
  by (auto simp: repoint_def Let_def io_bind_def swallow_def retarget_no_patch other_no_patch split: sum.splits)

lemma reconcile_judged_patch:
  assumes "retry_ok (me_retry env)" "PatchSource k n p \<in> set (fst (reconcile_judged cfg M env now m))"
  shows "\<exists>src. source cfg env m = Inr src \<and> sj_node src = n \<and> n \<noteq> '''' \<and> n \<noteq> ms_sourceNode (mir_spec m) \<and>
    n \<noteq> ms_targetNode (mir_spec m) \<and> resolveProvider M env m n = Inr p"
proof -
  obtain claimed where c: "claim cfg env m = Inr claimed"
    using assms(2) by (cases "claim cfg env m") (auto simp: reconcile_judged_def)
  obtain src where s: "source cfg env m = Inr src"
    using assms(2) c by (cases "source cfg env m") (auto simp: reconcile_judged_def)
  have nt: "\<not> (sj_node src \<noteq> '''' \<and> sj_node src = ms_targetNode (mir_spec m))"
    using assms(2) c s delete_no_patch by (auto simp: reconcile_judged_def)
  let ?rep = "if sj_node src \<noteq> '''' \<and> sj_node src \<noteq> ms_sourceNode (mir_spec m)
              then repoint cfg M env now m (sj_node src) else io_ret m"
  have "PatchSource k n p \<in> set (fst (io_bind ?rep (\<lambda>m'. io_bind (writeConditions M env now m' claimed src)
      (\<lambda>written. collect cfg M env now written claimed src))))"
    using assms(2) c s nt by (simp add: reconcile_judged_def)
  then have "PatchSource k n p \<in> set (fst ?rep)"
    by (elim io_bind_write_cases) (simp_all only: other_no_patch collect_no_patch simp_thms)
  with repoint_patch[OF assms(1), of k n p cfg M now m "sj_node src"] have "sj_node src \<noteq> '''' \<and> sj_node src \<noteq> ms_sourceNode (mir_spec m) \<and>
      n = sj_node src \<and> resolveProvider M env m n = Inr p"
    by (auto split: if_splits)
  with s nt show ?thesis by auto
qed

lemma resolveProvider_concrete:
  assumes "resolveProvider M env m node = Inr p"
  shows "p \<in> {ProviderEFA, ProviderVerbs, ProviderTCP}"
proof -
  obtain a b where "supported M a b (ms_provider (mir_spec m)) \<and> p = ms_provider (mir_spec m) \<or> p = fst (resolve M a b)"
    using assms that by (cases "nodeCapabilities env node"; cases "nodeCapabilities env (ms_targetNode (mir_spec m))")
      (auto simp: resolveProvider_def split: if_splits)
  then show ?thesis
    using resolve_concrete[of M a b] providerSet_cross[of M a] by (auto simp: supported_iff)
qed

lemma resolveProvider_keeps:
  assumes "resolveProvider M env m node = Inr p" "nodeCapabilities env node = Inr a"
    "nodeCapabilities env (ms_targetNode (mir_spec m)) = Inr b"
  shows "supported M a b (ms_provider (mir_spec m)) \<longrightarrow> p = ms_provider (mir_spec m)"
    "(\<exists>q. supported M a b q) \<longrightarrow> supported M a b p"
proof -
  have "supported M a b (fst (resolve M a b))" if "supported M a b q" for q
  proof -
    let ?P = "\<lambda>p. p \<in> set (providerSet M a) \<and> p \<in> set (providerSet M b)"
    have q: "?P q" using that by (simp add: supported_iff)
    then have "q \<in> set crossNodePreference" using providerSet_cross[of M a] by (auto simp: crossNodePreference_def)
    with q obtain r where r: "find_first ?P crossNodePreference = Some r"
      by (cases "find_first ?P crossNodePreference") (auto simp: find_first_None_iff)
    have "providerSet M a \<noteq> []" "providerSet M b \<noteq> []" using q by auto
    then have "fst (resolve M a b) = r" using r by (simp add: resolve_def Let_def)
    with find_first_SomeD[OF r] show ?thesis by (simp add: supported_iff)
  qed
  with assms show "supported M a b (ms_provider (mir_spec m)) \<longrightarrow> p = ms_provider (mir_spec m)"
    "(\<exists>q. supported M a b q) \<longrightarrow> supported M a b p"
    by (auto simp: resolveProvider_def split: if_splits)
qed

text \<open>A mirror is repointed only to follow its flow: the node written is the origin this pass
  resolved, is neither the node the mirror pulls from already nor its own target, and the provider
  written with it is concrete. The provider the mirror has is kept whenever both nodes speak it, and
  otherwise one that both speak is written whenever there is one.\<close>

theorem repoint_follows_origin:
  assumes "retry_ok (me_retry env)" "me_mirror env key = Inr m"
    "legacyIntentFinalizer \<notin> set (om_finalizers (mir_meta m))"
    "PatchSource k n p \<in> set (fst (reconcile_mirror cfg M env now key))"
    "nodeCapabilities env n = Inr a" "nodeCapabilities env (ms_targetNode (mir_spec m)) = Inr b"
  shows "(\<exists>src. source cfg env m = Inr src \<and> sj_node src = n) \<and> n \<noteq> ms_sourceNode (mir_spec m) \<and>
    n \<noteq> ms_targetNode (mir_spec m) \<and> p \<in> {ProviderEFA, ProviderVerbs, ProviderTCP} \<and>
    (if supported M a b (ms_provider (mir_spec m)) then p = ms_provider (mir_spec m)
     else (\<exists>q. supported M a b q) = supported M a b p)"
proof -
  have "PatchSource k n p \<in> set (fst (reconcile_judged cfg M env now m))"
    using assms(2,3,4) by (auto simp: reconcile_mirror_def split: if_splits)
  from reconcile_judged_patch[OF assms(1) this] obtain src where
    src: "source cfg env m = Inr src" "sj_node src = n" "n \<noteq> ms_sourceNode (mir_spec m)"
      "n \<noteq> ms_targetNode (mir_spec m)" "resolveProvider M env m n = Inr p"
    by blast
  show ?thesis
    using src resolveProvider_concrete[OF src(5)] resolveProvider_keeps[OF src(5) assms(5,6)] by auto
qed

text \<open>A Lease event wakes exactly the mirrors of its flow: for the Lease the agent on a node holds
  for a flow, the handler enqueues the mirrors that carry this flow and no others.\<close>

theorem lease_wakes_its_mirrors:
  assumes "matchesFlowID (ref_id ref)" "node \<noteq> ''''" "domainSeparator \<notin> set (ref_domain ref)"
    "ref_domain ref = '''' \<Longrightarrow> plainNode node"
  shows "leaseToMirrors (Inr ms) (leaseNameFor ref node) =
    map (\<lambda>m. objectKey (mir_meta m)) (filter (\<lambda>m. mirror_ref m = ref) ms)"
  using lease_name_roundtrip[OF assms] by (simp add: leaseToMirrors_def mirrorsMatching_def)

subsection \<open>On concrete objects\<close>

definition owned_mirror :: MxlFlowMirror where
  "owned_mirror = (witness_mirror ''m'')\<lparr>mir_spec := (mir_spec (witness_mirror ''m''))\<lparr>ms_requestor := Some \<lparr>pr_name = ''p'', pr_namespace = ''ns'', pr_uid = ''u''\<rparr>\<rparr>,
     mir_status := (mir_status (witness_mirror ''m''))\<lparr>mst_conditions := [\<lparr>cond_type = ConditionTypeSourceable,
       cond_status = ConditionFalse, cond_reason = ReasonOriginUnresolved, cond_message = '''', cond_observedGeneration = 1,
       cond_lastTransitionTime = 1000 * second\<rparr>]\<rparr>\<rparr>"

definition example_reader :: "bool \<Rightarrow> claim_reader" where
  "example_reader live = \<lparr>rd_receiver = (\<lambda>_. Inl ENotFound), rd_set = (\<lambda>_. Inl ENotFound),
     rd_pod = (\<lambda>_. if live then Inr (witness_meta ''p'') else Inl ENotFound)\<rparr>"

definition example_mirror_config :: "claim_reader option \<Rightarrow> mirror_config" where
  "example_mirror_config live = \<lparr>mc_recorder = True, mc_lease = None, mc_gracePeriod = 0, mc_apiReader = live,
     mc_redundancySets = False\<rparr>"

definition example_mirror_env :: "MxlFlowMirror \<Rightarrow> bool \<Rightarrow> go_error + MxlFlow \<Rightarrow> mirror_env" where
  "example_mirror_env m live flow = \<lparr>me_mirror = (\<lambda>_. Inr m), me_reader = example_reader live, me_flow = (\<lambda>_. flow),
     me_node = (\<lambda>_. Inr (witness_meta ''node'')), me_caps = (\<lambda>_. Inl ENotFound), me_update = (\<lambda>m. Inr m),
     me_repoint = (\<lambda>m n p. Inr (m\<lparr>mir_spec := (mir_spec m)\<lparr>ms_sourceNode := n, ms_provider := p\<rparr>\<rparr>)),
     me_retry = bounded_retry 4 0, me_reread = (\<lambda>_. Inr m), me_updateStatus = (\<lambda>_ _. Inr ()),
     me_apply = (\<lambda>_. Inr ''2''), me_delete = (\<lambda>_. Inr ())\<rparr>"

lemma example_retry: "retry_ok (me_retry (example_mirror_env m live flow))"
  by (simp add: example_mirror_env_def bounded_retry_ok)

definition moved_flow :: "string \<Rightarrow> MxlFlow" where
  "moved_flow node = witness_flow\<lparr>flow_status := (flow_status witness_flow)\<lparr>fst_locations :=
     [\<lparr>loc_nodeName = node, loc_phase = LocationOrigin, loc_lastObserved = None, loc_appearedAt = None\<rparr>]\<rparr>\<rparr>"

abbreviation "sure_config \<equiv> example_mirror_config (Some (example_reader False))"

theorem claim_verdict_witness:
  "\<not> claimed_by sure_config (example_reader False) owned_mirror \<and>
   claimFrom sure_config (example_reader False) owned_mirror = Inr unclaimed"
proof -
  have "claim sure_config (example_mirror_env owned_mirror False (Inl ENotFound)) owned_mirror = Inr unclaimed" by code_simp
  from claim_verdict[OF this, of "example_reader False"] show ?thesis
    by (simp add: example_mirror_config_def unclaimed_def)
qed

definition unowned_mirror :: MxlFlowMirror where
  "unowned_mirror = owned_mirror\<lparr>mir_spec := (mir_spec owned_mirror)\<lparr>ms_requestor := None\<rparr>\<rparr>"

abbreviation "unowned_env \<equiv> example_mirror_env unowned_mirror False (Inl ENotFound)"

lemma unowned_sane:
  assumes "judged_object unowned_env key m" "carried_on unowned_env m src m'"
  shows "sane_conditions list_meta_api (2000 * second) (mst_conditions (mir_status m'))"
proof -
  have "legacyIntentFinalizer \<notin> set (om_finalizers (mir_meta unowned_mirror))" by code_simp
  with assms(1) have "m = unowned_mirror" by (simp add: judged_object_def example_mirror_env_def)
  with assms(2) have "mst_conditions (mir_status m') = mst_conditions (mir_status unowned_mirror)"
    by (auto simp: carried_on_def example_mirror_env_def)
  then show ?thesis
    by (auto simp: sane_conditions_def unowned_mirror_def owned_mirror_def list_meta_api_def second_def split: if_splits)
qed

theorem deleted_only_when_unjustified_witness:
  "\<exists>m claimed src (m' :: MxlFlowMirror). judged_object unowned_env \<lparr>nn_namespace = ''ns'', nn_name = ''m''\<rparr> m \<and>
     claim sure_config unowned_env m = Inr claimed \<and> source sure_config unowned_env m = Inr src \<and>
     carried_on unowned_env m src m' \<and> ''u'' = om_uid (mir_meta m')"
proof -
  have "DeleteMirror (objectKey (mir_meta unowned_mirror)) ''u'' ''2'' \<in>
      set (fst (reconcile_mirror sure_config list_meta_api unowned_env (2000 * second) \<lparr>nn_namespace = ''ns'', nn_name = ''m''\<rparr>))"
    by code_simp
  moreover have "grace_period sure_config < 2 ^ 62" by code_simp
  ultimately show ?thesis
    using deleted_only_when_unjustified[OF example_retry list_meta_api_ok, of sure_config unowned_mirror False "Inl ENotFound"
        "\<lparr>nn_namespace = ''ns'', nn_name = ''m''\<rparr>" "2000 * second" "objectKey (mir_meta unowned_mirror)" "''u''" "''2''"] unowned_sane
    by blast
qed



theorem repoint_follows_origin_witness:
  "''c'' \<noteq> ms_sourceNode (mir_spec owned_mirror) \<and> ProviderTCP \<in> {ProviderEFA, ProviderVerbs, ProviderTCP} \<and>
   PatchSource (objectKey (mir_meta owned_mirror)) ''c'' ProviderTCP \<in> set (fst (reconcile_mirror (example_mirror_config None)
     list_meta_api (example_mirror_env owned_mirror True (Inr (moved_flow ''c''))) (2000 * second) \<lparr>nn_namespace = ''ns'', nn_name = ''m''\<rparr>))"
proof -
  have p: "PatchSource (objectKey (mir_meta owned_mirror)) ''c'' ProviderTCP \<in> set (fst (reconcile_mirror (example_mirror_config None)
     list_meta_api (example_mirror_env owned_mirror True (Inr (moved_flow ''c''))) (2000 * second) \<lparr>nn_namespace = ''ns'', nn_name = ''m''\<rparr>))"
    by code_simp
  have fin: "me_mirror (example_mirror_env owned_mirror True (Inr (moved_flow ''c''))) \<lparr>nn_namespace = ''ns'', nn_name = ''m''\<rparr> = Inr owned_mirror"
    "legacyIntentFinalizer \<notin> set (om_finalizers (mir_meta owned_mirror))"
    "nodeCapabilities (example_mirror_env owned_mirror True (Inr (moved_flow ''c''))) n = Inr empty_caps" for n
    by (simp add: example_mirror_env_def, code_simp, simp add: example_mirror_env_def nodeCapabilities_def)
  from repoint_follows_origin[OF example_retry fin(1,2) p fin(3,3)] p show ?thesis by simp
qed

theorem lease_wakes_its_mirrors_witness:
  "leaseToMirrors (Inr [witness_mirror ''x'', (witness_mirror ''y'')\<lparr>mir_spec := (mir_spec (witness_mirror ''y''))
       \<lparr>ms_flowID := ''5fbec3b1-1b0f-417d-9059-8b94a47197ed''\<rparr>\<rparr>])
     (leaseNameFor \<lparr>ref_domain = '''', ref_id = ''5fbec3b1-1b0f-417d-9059-8b94a47197ed''\<rparr> ''n1'') =
   [\<lparr>nn_namespace = ''ns'', nn_name = ''y''\<rparr>]"
proof -
  have "leaseToMirrors (Inr ms) (leaseNameFor \<lparr>ref_domain = '''', ref_id = ''5fbec3b1-1b0f-417d-9059-8b94a47197ed''\<rparr> ''n1'') =
     map (\<lambda>m. objectKey (mir_meta m)) (filter (\<lambda>m. mirror_ref m = \<lparr>ref_domain = '''', ref_id = ''5fbec3b1-1b0f-417d-9059-8b94a47197ed''\<rparr>) ms)" for ms
    by (rule lease_wakes_its_mirrors) code_simp+
  then show ?thesis by (simp add: mirror_ref_def witness_mirror_def witness_meta_def objectKey_def)
qed

end
