(* ===== verification/Flow_Collector.thy ===== *)
theory Flow_Collector
  imports Origin
begin

section \<open>The flow controller (operator/internal/flow/controller.go)\<close>

text \<open>
  One reconcile of a flow: drop the locations of nodes that left, judge whether any copy is left
  that a consumer can be routed to, record origin and verdict in one status write, and delete a
  flow that has had no live copy for the grace period. \<open>fe_reread\<close> is what the read inside the
  retried status write returns, attempt by attempt.
\<close>

definition flowGracePeriod :: duration where "flowGracePeriod = 300 * second"

definition ReasonOriginMoved :: string where "ReasonOriginMoved = ''OriginMoved''"
definition ReasonOriginLost :: string where "ReasonOriginLost = ''OriginLost''"
definition ReasonFlowCollected :: string where "ReasonFlowCollected = ''FlowCollected''"
definition ReasonLocationsPruned :: string where "ReasonLocationsPruned = ''LocationsPruned''"
definition ReasonOriginLive :: string where "ReasonOriginLive = ''OriginLive''"
definition ReasonMirrored :: string where "ReasonMirrored = ''Mirrored''"
definition ReasonNoLiveCopy :: string where "ReasonNoLiveCopy = ''NoLiveCopy''"

record flow_config =
  fc_recorder :: bool
  fc_lease :: "LeaseFreshness option"
  fc_gracePeriod :: duration

datatype flow_write =
    UpdateFlowStatus MxlFlow
  | DeleteFlow string string string
  | FlowEvent string string

record verdict =
  v_live :: bool
  v_reason :: string
  v_message :: string
  v_deadline :: time
  v_originClaimed :: bool
  v_originFresh :: bool

text \<open>What one attempt of the status write leaves behind: the object, moved, lost, previous.\<close>

type_synonym attempt = "MxlFlow \<times> bool \<times> bool \<times> string"

record flow_env =
  fe_flow :: "NamespacedName \<Rightarrow> go_error + MxlFlow"
  fe_node :: "string \<Rightarrow> go_error + ObjectMeta"
  fe_mirrors :: "go_error + MxlFlowMirror list"
  fe_retry :: "(nat \<Rightarrow> (flow_write, attempt) io) \<Rightarrow> (flow_write, attempt) io"
  fe_reread :: "nat \<Rightarrow> go_error + MxlFlow"
  fe_updateStatus :: "nat \<Rightarrow> MxlFlow \<Rightarrow> go_error + MxlFlow"
  fe_delete :: "MxlFlow \<Rightarrow> go_error + unit"

definition zero_verdict :: verdict where
  "zero_verdict = \<lparr>v_live = False, v_reason = '''', v_message = '''', v_deadline = 0, v_originClaimed = False,
     v_originFresh = False\<rparr>"

subsection \<open>Departed nodes\<close>

fun departed_from :: "flow_env \<Rightarrow> string list \<Rightarrow> MxlFlowLocation list \<Rightarrow> go_error + string list" where
  "departed_from env seen [] = Inr []"
| "departed_from env seen (loc # locs) =
     (if loc_nodeName loc = '''' \<or> loc_nodeName loc \<in> set seen then departed_from env seen locs
      else case fe_node env (loc_nodeName loc) of
             Inr _ \<Rightarrow> departed_from env (loc_nodeName loc # seen) locs
           | Inl e \<Rightarrow>
               if isNotFound e
               then (case departed_from env (loc_nodeName loc # seen) locs of
                       Inl e' \<Rightarrow> Inl e' | Inr ns \<Rightarrow> Inr (loc_nodeName loc # ns))
               else Inl (EWrap (''look up node '' @ loc_nodeName loc) e))"

definition departedNodes :: "flow_env \<Rightarrow> MxlFlowLocation list \<Rightarrow> go_error + string list" where
  "departedNodes env locs = departed_from env [] locs"

definition keepPresent :: "MxlFlowLocation list \<Rightarrow> string list \<Rightarrow> MxlFlowLocation list" where
  "keepPresent locs departed =
     (if departed = [] then locs else filter (\<lambda>l. loc_nodeName l \<notin> set departed) locs)"

definition originOf :: "MxlFlowLocation list \<Rightarrow> string" where
  "originOf locs = (case find_first (\<lambda>l. loc_phase l = LocationOrigin) locs of None \<Rightarrow> '''' | Some l \<Rightarrow> loc_nodeName l)"

subsection \<open>Judge\<close>

text \<open>The loop over the locations: \<open>Inl\<close> is an early return of the function, with its result.\<close>

fun judge_origins ::
  "LeaseFreshness option \<Rightarrow> string \<Rightarrow> MxlFlowLocation list \<Rightarrow> verdict \<Rightarrow> (go_error + verdict) + verdict" where
  "judge_origins lease name [] v = Inr v"
| "judge_origins lease name (loc # locs) v =
     (if loc_phase loc \<noteq> LocationOrigin then judge_origins lease name locs v
      else let v1 = v\<lparr>v_originClaimed := True\<rparr> in
           case lease of
             None \<Rightarrow> Inl (Inr \<lparr>v_live = True, v_reason = ReasonOriginLive,
                       v_message = ''origin on '' @ loc_nodeName loc, v_deadline = 0,
                       v_originClaimed = True, v_originFresh = True\<rparr>)
           | Some fr \<Rightarrow>
               (case fr name (loc_nodeName loc) of
                  Inl e \<Rightarrow> Inl (Inl (EWrap (''check origin lease for '' @ name @ '' on '' @ loc_nodeName loc) e))
                | Inr (fresh, deadline) \<Rightarrow>
                    if \<not> fresh then judge_origins lease name locs v1
                    else judge_origins lease name locs
                      (v1\<lparr>v_live := True, v_originFresh := True, v_reason := ReasonOriginLive,
                          v_message := ''origin on '' @ loc_nodeName loc @ '' holds a renewed lease'',
                          v_deadline := (if v_deadline v < deadline then deadline else v_deadline v)\<rparr>)))"

definition judge :: "flow_config \<Rightarrow> flow_env \<Rightarrow> MxlFlow \<Rightarrow> MxlFlowLocation list \<Rightarrow> go_error + verdict" where
  "judge cfg env flow locs =
     (case judge_origins (fc_lease cfg) (flowref_name (flow_ref flow)) locs zero_verdict of
        Inl r \<Rightarrow> r
      | Inr v \<Rightarrow>
          if v_live v then Inr v
          else case fe_mirrors env of
                 Inl e \<Rightarrow> Inl (EWrap ''list MxlFlowMirrors'' e)
               | Inr ms \<Rightarrow>
                   (case find_first (\<lambda>m. mirror_ref m = flow_ref flow \<and> om_deletionTimestamp (mir_meta m) = 0) ms of
                      Some m \<Rightarrow> Inr (v\<lparr>v_live := True, v_reason := ReasonMirrored,
                        v_message := ''mirror '' @ om_namespace (mir_meta m) @ ''/'' @ om_name (mir_meta m) @ '' references this flow''\<rparr>)
                    | None \<Rightarrow> Inr (v\<lparr>v_reason := ReasonNoLiveCopy,
                        v_message := ''no origin holds a renewed lease and no mirror references this flow''\<rparr>)))"

subsection \<open>The status write\<close>

definition same_location :: "MxlFlowLocation \<Rightarrow> MxlFlowLocation \<Rightarrow> bool" where
  "same_location a b \<longleftrightarrow> loc_nodeName a = loc_nodeName b \<and> loc_phase a = loc_phase b"

definition same_condition :: "Condition \<Rightarrow> Condition \<Rightarrow> bool" where
  "same_condition a b \<longleftrightarrow> cond_type a = cond_type b \<and> cond_status a = cond_status b \<and>
     cond_reason a = cond_reason b \<and> cond_message a = cond_message b"

definition equalIgnoringTimestamps :: "MxlFlowStatus \<Rightarrow> MxlFlowStatus \<Rightarrow> bool" where
  "equalIgnoringTimestamps a b \<longleftrightarrow>
     fst_originNode a = fst_originNode b \<and> fst_previousOriginNode a = fst_previousOriginNode b \<and>
     list_all2 same_location (fst_locations a) (fst_locations b) \<and>
     list_all2 same_condition (fst_conditions a) (fst_conditions b)"

definition flow_condition :: "MxlFlow \<Rightarrow> string \<Rightarrow> bool \<Rightarrow> string \<Rightarrow> string \<Rightarrow> Condition" where
  "flow_condition f typ ok reason msg = \<lparr>cond_type = typ, cond_status = conditionStatus ok, cond_reason = reason,
     cond_message = msg, cond_observedGeneration = om_generation (flow_meta f), cond_lastTransitionTime = 0\<rparr>"

definition flow_conditions :: "meta_api \<Rightarrow> time \<Rightarrow> MxlFlow \<Rightarrow> verdict \<Rightarrow> Condition list" where
  "flow_conditions M now f v =
     (let cs = fst (setStatusCondition M now (fst_conditions (flow_status f))
                 (flow_condition f ConditionTypeLive (v_live v) (v_reason v) (v_message v)))
      in if \<not> v_originClaimed v then cs
         else fst (setStatusCondition M now cs
           (if v_originFresh v
            then flow_condition f ConditionTypeOriginFresh True ReasonRecovered ''origin lease is within its renewal window''
            else flow_condition f ConditionTypeOriginFresh False ReasonLeaseExpired ''no origin location holds a renewed lease'')))"

text \<open>The status an attempt computes, with moved, lost and previous.\<close>

definition revised :: "meta_api \<Rightarrow> time \<Rightarrow> string list \<Rightarrow> verdict \<Rightarrow> MxlFlow \<Rightarrow> attempt" where
  "revised M now departed v live =
     (let st = flow_status live;
          locs = keepPresent (fst_locations st) departed;
          origin = originOf locs;
          previous = fst_originNode st;
          st1 = (if origin \<noteq> previous
                 then st\<lparr>fst_locations := locs,
                         fst_previousOriginNode := (if previous \<noteq> '''' then previous else fst_previousOriginNode st),
                         fst_originNode := origin, fst_originChangedAt := Some now\<rparr>
                 else st\<lparr>fst_locations := locs\<rparr>);
          st2 = st1\<lparr>fst_conditions := flow_conditions M now live v\<rparr>
      in (live\<lparr>flow_status := st2\<rparr>, origin \<noteq> previous \<and> origin \<noteq> '''', origin \<noteq> previous \<and> origin = '''',
          if origin \<noteq> previous then previous else ''''))"

definition status_attempt :: "meta_api \<Rightarrow> flow_env \<Rightarrow> time \<Rightarrow> string list \<Rightarrow> verdict \<Rightarrow> nat \<Rightarrow> (flow_write, attempt) io" where
  "status_attempt M env now departed v i =
     (case fe_reread env i of
        Inl e \<Rightarrow> io_fail e
      | Inr live \<Rightarrow>
          (case revised M now departed v live of (live', rest) \<Rightarrow>
             if equalIgnoringTimestamps (flow_status live) (flow_status live') then io_ret (live', rest)
             else io_write (UpdateFlowStatus live')
                    (case fe_updateStatus env i live' of Inl e \<Rightarrow> Inl e | Inr out \<Rightarrow> Inr (out, rest))))"

definition flow_event :: "flow_config \<Rightarrow> string \<Rightarrow> string \<Rightarrow> (flow_write, unit) io" where
  "flow_event cfg reason msg = (if fc_recorder cfg then io_write (FlowEvent reason msg) (Inr ()) else io_ret ())"

definition origin_events :: "flow_config \<Rightarrow> attempt \<Rightarrow> (flow_write, unit) io" where
  "origin_events cfg a =
     (case a of (live, moved, lost, previous) \<Rightarrow>
        let origin = fst_originNode (flow_status live) in
        if moved \<and> previous = '''' then flow_event cfg ReasonOriginMoved (''Origin established on '' @ origin)
        else if moved then flow_event cfg ReasonOriginMoved
          (''Origin moved from '' @ previous @ '' to '' @ origin @ ''; mirrors sourcing from '' @ previous @
           '' are repointed by the mirror controller'')
        else if lost \<and> previous \<noteq> '''' then flow_event cfg ReasonOriginLost
          (''Origin left '' @ previous @ '' and no node claims it'')
        else io_ret ())"

definition writeStatus ::
  "flow_config \<Rightarrow> meta_api \<Rightarrow> flow_env \<Rightarrow> time \<Rightarrow> string list \<Rightarrow> verdict \<Rightarrow> (flow_write, MxlFlow) io" where
  "writeStatus cfg M env now departed v =
     io_bind (io_wrap ''update MxlFlow status'' (fe_retry env (status_attempt M env now departed v))) (\<lambda>a.
     io_bind (origin_events cfg a) (\<lambda>_. io_ret (fst a)))"

subsection \<open>Collect and Reconcile\<close>

definition notLiveSince :: "meta_api \<Rightarrow> time \<Rightarrow> MxlFlow \<Rightarrow> time" where
  "notLiveSince M now f =
     (case findStatusCondition M (fst_conditions (flow_status f)) ConditionTypeLive of
        None \<Rightarrow> now
      | Some c \<Rightarrow> if cond_lastTransitionTime c = 0 then now else cond_lastTransitionTime c)"

definition flow_grace :: "flow_config \<Rightarrow> duration" where
  "flow_grace cfg = (if fc_gracePeriod cfg \<le> 0 then flowGracePeriod else fc_gracePeriod cfg)"

definition flow_delete :: "MxlFlow \<Rightarrow> flow_write" where
  "flow_delete f = DeleteFlow (om_name (flow_meta f)) (om_uid (flow_meta f)) (om_resourceVersion (flow_meta f))"

definition collect_flow ::
  "flow_config \<Rightarrow> meta_api \<Rightarrow> flow_env \<Rightarrow> time \<Rightarrow> MxlFlow \<Rightarrow> verdict \<Rightarrow> (flow_write, Result) io" where
  "collect_flow cfg M env now flow v =
     (if v_live v then io_ret (requeueAt now (v_deadline v))
      else let wait = remaining (flow_grace cfg) now (notLiveSince M now flow)
           in if 0 < wait then io_ret (after wait)
              else case fe_delete env flow of
                     Inl e \<Rightarrow> io_write (flow_delete flow)
                       (if isNotFound e then Inr no_requeue
                        else if isConflict e then Inr again
                        else Inl (EWrap ''delete MxlFlow'' e))
                   | Inr _ \<Rightarrow>
                       io_bind (io_write (flow_delete flow) (Inr ())) (\<lambda>_.
                       io_bind (flow_event cfg ReasonFlowCollected (''Collected: '' @ v_message v)) (\<lambda>_.
                       io_ret no_requeue)))"

definition sortedNames :: "string list \<Rightarrow> string list" where
  "sortedNames ns = sort ns"

definition reconcile_flow ::
  "flow_config \<Rightarrow> meta_api \<Rightarrow> flow_env \<Rightarrow> time \<Rightarrow> NamespacedName \<Rightarrow> (flow_write, Result) io" where
  "reconcile_flow cfg M env now key =
     (case fe_flow env key of
        Inl e \<Rightarrow> if isNotFound e then io_ret no_requeue else io_fail e
      | Inr obj \<Rightarrow>
          io_bind (io_read (departedNodes env (fst_locations (flow_status obj)))) (\<lambda>departed.
          io_bind (io_read (judge cfg env obj (keepPresent (fst_locations (flow_status obj)) departed))) (\<lambda>v.
          let w = writeStatus cfg M env now departed v in
          case snd w of
            Inl e \<Rightarrow> (fst w, if isNotFound e then Inr no_requeue else Inl e)
          | Inr _ \<Rightarrow>
              io_bind w (\<lambda>written.
              io_bind (if departed \<noteq> []
                       then flow_event cfg ReasonLocationsPruned
                         (''Dropped locations for departed nodes: ['' @ join_with '' '' (sortedNames departed) @ '']'')
                       else io_ret ()) (\<lambda>_.
              collect_flow cfg M env now written v)))))"

subsection \<open>What wakes a flow\<close>

definition nodeToFlows :: "go_error + MxlFlow list \<Rightarrow> string \<Rightarrow> NamespacedName list" where
  "nodeToFlows flows node =
     enqueue (\<lambda>f. \<lparr>nn_namespace = '''', nn_name = om_name (flow_meta f)\<rparr>) flows
       (\<lambda>f. list_ex (\<lambda>l. loc_nodeName l = node) (fst_locations (flow_status f)))"

definition mirrorToFlow :: "MxlFlowMirror \<Rightarrow> NamespacedName list" where
  "mirrorToFlow m = (if ms_flowID (mir_spec m) = '''' then []
     else [\<lparr>nn_namespace = '''', nn_name = flowref_name (mirror_ref m)\<rparr>])"

definition leaseToFlow :: "string \<Rightarrow> NamespacedName list" where
  "leaseToFlow lease =
     (case parseLeaseNameFor lease of (ref, _, ok) \<Rightarrow>
        if \<not> ok then [] else [\<lparr>nn_namespace = '''', nn_name = flowref_name ref\<rparr>])"

section \<open>Properties of the flow controller\<close>

subsection \<open>What live means\<close>

definition fresh_at :: "LeaseFreshness \<Rightarrow> string \<Rightarrow> string \<Rightarrow> bool" where
  "fresh_at fr name node = (case fr name node of Inl _ \<Rightarrow> False | Inr (fresh, _) \<Rightarrow> fresh)"

definition references :: "MxlFlow \<Rightarrow> MxlFlowMirror \<Rightarrow> bool" where
  "references f m \<longleftrightarrow> mirror_ref m = flow_ref f \<and> om_deletionTimestamp (mir_meta m) = 0"

lemma judge_origins_leased: "judge_origins (Some fr) name locs v \<noteq> Inl (Inr w)"
  by (induction locs arbitrary: v) (auto simp: Let_def split: sum.splits)

lemma judge_origins_spec:
  "judge_origins (Some fr) name locs v = Inr w \<Longrightarrow>
   (v_originFresh w \<longleftrightarrow> v_originFresh v \<or> list_ex (fresh_at fr name) (origins locs)) \<and>
   (v_live w \<longleftrightarrow> v_live v \<or> list_ex (fresh_at fr name) (origins locs)) \<and>
   (v_originClaimed w \<longleftrightarrow> v_originClaimed v \<or> origins locs \<noteq> [])"
proof (induction locs arbitrary: v)
  case (Cons l ls)
  show ?case
  proof (cases "loc_phase l = LocationOrigin")
    case True
    with Cons.prems obtain fresh d where fr: "fr name (loc_nodeName l) = Inr (fresh, d)"
      by (cases "fr name (loc_nodeName l)") auto
    define v' where "v' = (if fresh then v\<lparr>v_originClaimed := True, v_live := True, v_originFresh := True,
        v_reason := ReasonOriginLive, v_message := ''origin on '' @ loc_nodeName l @ '' holds a renewed lease'',
        v_deadline := (if v_deadline v < d then d else v_deadline v)\<rparr> else v\<lparr>v_originClaimed := True\<rparr>)"
    have "judge_origins (Some fr) name ls v' = Inr w"
      using Cons.prems True fr by (simp add: v'_def Let_def split: if_splits)
    from Cons.IH[OF this] show ?thesis
      using True fr by (auto simp: v'_def fresh_at_def)
  qed (use Cons in simp)
qed simp

lemma judge_leased:
  assumes "fc_lease cfg = Some fr" "judge cfg env f locs = Inr v"
  defines "fresh \<equiv> list_ex (fresh_at fr (flowref_name (flow_ref f))) (origins locs)"
  shows "v_originClaimed v \<longleftrightarrow> origins locs \<noteq> []" "v_originFresh v \<longleftrightarrow> fresh"
    "v_live v \<longleftrightarrow> fresh \<or> (\<exists>ms. fe_mirrors env = Inr ms \<and> list_ex (references f) ms)"
    "\<not> v_live v \<Longrightarrow> (\<exists>ms. fe_mirrors env = Inr ms \<and> \<not> list_ex (references f) ms)"
proof -
  obtain w where w: "judge_origins (Some fr) (flowref_name (flow_ref f)) locs zero_verdict = Inr w"
    using assms(1,2) judge_origins_leased by (fastforce simp: judge_def split: sum.splits)
  note spec = judge_origins_spec[OF w]
  have ff: "find_first (\<lambda>m. mirror_ref m = flow_ref f \<and> om_deletionTimestamp (mir_meta m) = 0) ms = None \<longleftrightarrow>
      \<not> list_ex (references f) ms" for ms
    by (auto simp: find_first_None_iff list_ex_iff references_def)
  have ff': "list_ex (references f) ms" if "find_first (\<lambda>m. mirror_ref m = flow_ref f \<and> om_deletionTimestamp (mir_meta m) = 0) ms = Some m" for ms m
    using that ff[of ms] by auto
  show "v_originClaimed v \<longleftrightarrow> origins locs \<noteq> []" "v_originFresh v \<longleftrightarrow> fresh"
    using assms(1,2) spec w by (auto simp: judge_def fresh_def zero_verdict_def split: if_splits sum.splits option.splits)
  show "v_live v \<longleftrightarrow> fresh \<or> (\<exists>ms. fe_mirrors env = Inr ms \<and> list_ex (references f) ms)"
    "\<not> v_live v \<Longrightarrow> (\<exists>ms. fe_mirrors env = Inr ms \<and> \<not> list_ex (references f) ms)"
    using assms(1,2) spec w ff ff' by (auto simp: judge_def fresh_def zero_verdict_def split: if_splits sum.splits option.splits)
qed

text \<open>The verdict on a flow means what it says: it is live exactly when some node that claims to be
  its origin holds a renewed Lease or some mirror that is not being deleted references it (a Ready
  location alone keeps nothing alive); an origin is claimed exactly when some location is an Origin
  location, and fresh exactly when one of those holds a renewed Lease.\<close>

theorem judge_verdict:
  assumes "fc_lease cfg = Some fr" "judge cfg env f locs = Inr v"
  shows "let fresh = list_ex (fresh_at fr (flowref_name (flow_ref f))) (origins locs) in
    (v_live v \<longleftrightarrow> fresh \<or> (\<exists>ms. fe_mirrors env = Inr ms \<and> list_ex (references f) ms)) \<and>
    (v_originClaimed v \<longleftrightarrow> origins locs \<noteq> []) \<and> (v_originFresh v \<longleftrightarrow> fresh)"
  using judge_leased[OF assms] by (simp add: Let_def)

subsection \<open>What is written\<close>

lemma revised_status:
  "case revised M now departed v live of (f, moved, lost, previous) \<Rightarrow>
     fst_locations (flow_status f) = keepPresent (fst_locations (flow_status live)) departed \<and>
     fst_originNode (flow_status f) = originOf (fst_locations (flow_status f)) \<and>
     fst_conditions (flow_status f) = flow_conditions M now live v \<and> flow_meta f = flow_meta live \<and>
     (moved \<longleftrightarrow> fst_originNode (flow_status f) \<noteq> fst_originNode (flow_status live) \<and> fst_originNode (flow_status f) \<noteq> '''') \<and>
     (lost \<longleftrightarrow> fst_originNode (flow_status f) \<noteq> fst_originNode (flow_status live) \<and> fst_originNode (flow_status f) = '''') \<and>
     (fst_originNode (flow_status live) \<noteq> '''' \<and> fst_originNode (flow_status f) \<noteq> fst_originNode (flow_status live) \<longrightarrow>
        fst_previousOriginNode (flow_status f) = fst_originNode (flow_status live))"
  by (simp add: revised_def Let_def)

lemma set_keepPresent: "l \<in> set (keepPresent locs departed) \<longleftrightarrow> l \<in> set locs \<and> loc_nodeName l \<notin> set departed"
  by (auto simp: keepPresent_def)

lemma attempt_writes:
  "UpdateFlowStatus f \<in> set (fst (status_attempt M env now departed v i)) \<Longrightarrow>
   \<exists>live. fe_reread env i = Inr live \<and> f = fst (revised M now departed v live)"
  by (auto simp: status_attempt_def split: sum.splits prod.splits if_splits)

lemma status_attempt_no_delete: "DeleteFlow n u rv \<notin> set (fst (status_attempt M env now departed v i))"
  by (auto simp: status_attempt_def split: sum.splits prod.splits)

lemma flow_event_only:
  "UpdateFlowStatus f \<notin> set (fst (flow_event cfg reason msg))" "DeleteFlow n u rv \<notin> set (fst (flow_event cfg reason msg))"
  "snd (flow_event cfg reason msg) = Inr ()"
  by (simp_all add: flow_event_def)

lemma origin_events_only:
  "UpdateFlowStatus f \<notin> set (fst (origin_events cfg a))" "DeleteFlow n u rv \<notin> set (fst (origin_events cfg a))"
  "snd (origin_events cfg a) = Inr ()"
  by (simp_all add: origin_events_def Let_def flow_event_only split: prod.splits)

lemma writeStatus_writes:
  assumes "retry_ok (fe_retry env)"
  shows "UpdateFlowStatus f \<in> set (fst (writeStatus cfg M env now departed v)) \<Longrightarrow>
      \<exists>i live. fe_reread env i = Inr live \<and> f = fst (revised M now departed v live)"
    "DeleteFlow n u rv \<notin> set (fst (writeStatus cfg M env now departed v))"
proof -
  let ?f = "status_attempt M env now departed v"
  have w: "w \<in> set (fst (writeStatus cfg M env now departed v)) \<Longrightarrow>
      (\<exists>i. w \<in> set (fst (?f i))) \<or> (\<exists>a. w \<in> set (fst (origin_events cfg a)))" for w
    using retry_writes[OF assms, of w ?f] by (auto simp: writeStatus_def io_bind_def split: sum.splits)
  show "UpdateFlowStatus f \<in> set (fst (writeStatus cfg M env now departed v)) \<Longrightarrow>
      \<exists>i live. fe_reread env i = Inr live \<and> f = fst (revised M now departed v live)"
    using w[of "UpdateFlowStatus f"] attempt_writes origin_events_only by blast
  show "DeleteFlow n u rv \<notin> set (fst (writeStatus cfg M env now departed v))"
    using w[of "DeleteFlow n u rv"] status_attempt_no_delete origin_events_only by blast
qed

lemma collect_flow_writes:
  "DeleteFlow n u rv \<in> set (fst (collect_flow cfg M env now f v)) \<longleftrightarrow>
     \<not> v_live v \<and> remaining (flow_grace cfg) now (notLiveSince M now f) \<le> 0 \<and> DeleteFlow n u rv = flow_delete f"
  "UpdateFlowStatus g \<notin> set (fst (collect_flow cfg M env now f v))"
  by (auto simp: collect_flow_def Let_def flow_delete_def not_less io_bind_def flow_event_only split: sum.splits)

lemma reconcile_flow_cases:
  assumes "w \<in> set (fst (reconcile_flow cfg M env now key))"
  obtains obj departed v where "fe_flow env key = Inr obj"
    "departedNodes env (fst_locations (flow_status obj)) = Inr departed"
    "judge cfg env obj (keepPresent (fst_locations (flow_status obj)) departed) = Inr v"
    "w \<in> set (fst (writeStatus cfg M env now departed v)) \<or>
     (\<exists>msg. w \<in> set (fst (flow_event cfg ReasonLocationsPruned msg))) \<or>
     (\<exists>written. snd (writeStatus cfg M env now departed v) = Inr written \<and> w \<in> set (fst (collect_flow cfg M env now written v)))"
proof -
  obtain obj where obj: "fe_flow env key = Inr obj"
    using assms by (auto simp: reconcile_flow_def split: sum.splits if_splits)
  obtain departed where d: "departedNodes env (fst_locations (flow_status obj)) = Inr departed"
    using assms obj by (cases "departedNodes env (fst_locations (flow_status obj))") (auto simp: reconcile_flow_def)
  obtain v where v: "judge cfg env obj (keepPresent (fst_locations (flow_status obj)) departed) = Inr v"
    using assms obj d by (cases "judge cfg env obj (keepPresent (fst_locations (flow_status obj)) departed)")
      (auto simp: reconcile_flow_def)
  show thesis
    by (rule that[OF obj d v], use assms obj d v in
        \<open>auto simp: reconcile_flow_def Let_def io_bind_def flow_event_only split: sum.splits if_splits\<close>)
qed

text \<open>What the API server answers to a status update is the object it was sent, under a new version.\<close>

definition update_answers :: "flow_env \<Rightarrow> bool" where
  "update_answers env \<longleftrightarrow>
     (\<forall>i f out. fe_updateStatus env i f = Inr out \<longrightarrow>
        flow_status out = flow_status f \<and> om_name (flow_meta out) = om_name (flow_meta f) \<and> om_uid (flow_meta out) = om_uid (flow_meta f))"

text \<open>The object the status write leaves, from the object it read.\<close>

lemma writeStatus_left:
  assumes "retry_ok (fe_retry env)" "update_answers env" "snd (writeStatus cfg M env now departed v) = Inr written"
  obtains i live where "fe_reread env i = Inr live" "fst_conditions (flow_status written) = flow_conditions M now live v"
    "om_name (flow_meta written) = om_name (flow_meta live)" "om_uid (flow_meta written) = om_uid (flow_meta live)"
    "written = fst (revised M now departed v live) \<and> om_resourceVersion (flow_meta written) = om_resourceVersion (flow_meta live) \<or>
     fe_updateStatus env i (fst (revised M now departed v live)) = Inr written"
proof -
  obtain i where i: "snd (fe_retry env (status_attempt M env now departed v)) = snd (status_attempt M env now departed v i)"
    using assms(1) unfolding retry_ok_def by blast
  then obtain a where a: "snd (status_attempt M env now departed v i) = Inr a" "written = fst a"
    using assms(3) by (auto simp: writeStatus_def io_bind_def io_wrap_def origin_events_only split: sum.splits)
  then obtain live where live: "fe_reread env i = Inr live"
    by (cases "fe_reread env i") (auto simp: status_attempt_def)
  obtain f rest where f: "revised M now departed v live = (f, rest)" by (cases "revised M now departed v live")
  have rev: "fst_conditions (flow_status f) = flow_conditions M now live v" "flow_meta f = flow_meta live"
    using revised_status[where M = M and now = now and departed = departed and v = v and live = live] f by (simp_all split: prod.splits)
  from a live f have "written = f \<or> fe_updateStatus env i f = Inr written"
    by (simp add: status_attempt_def split: if_splits sum.splits) (metis fst_conv)+
  then show thesis
  proof
    assume "written = f"
    then show thesis using that[OF live] rev f by simp
  next
    assume u: "fe_updateStatus env i f = Inr written"
    with assms(2) have "flow_status written = flow_status f" "om_name (flow_meta written) = om_name (flow_meta f)"
      "om_uid (flow_meta written) = om_uid (flow_meta f)" unfolding update_answers_def by blast+
    then show thesis using that[OF live] rev f u by simp
  qed
qed

lemma flow_conditions_live:
  assumes "meta_api_ok M"
  shows "findStatusCondition M (flow_conditions M now f v) ConditionTypeLive =
    Some (settled now (findStatusCondition M (fst_conditions (flow_status f)) ConditionTypeLive)
      (flow_condition f ConditionTypeLive (v_live v) (v_reason v) (v_message v)))"
  by (simp add: flow_conditions_def Let_def meta_api_ok_find[OF assms] flow_condition_def condition_type_defs)

text \<open>C10. A flow is collected only when it is dead: a delete is issued only if, among the locations of
  nodes still in the cluster, the object this pass judged has no origin with a renewed Lease, no mirror that is not
  being deleted references the flow, and the Live condition of the object, as the status write read it again, has read False
  for the whole grace period. The delete names that object by name and uid, under the version it was read at when its
  status needed no write and otherwise under the version the write produced.\<close>

theorem flow_collected_only_when_dead:
  assumes "retry_ok (fe_retry env)" "meta_api_ok M" "update_answers env" "fc_lease cfg = Some fr" "flow_grace cfg < 2 ^ 62"
    and sane: "\<forall>i live. fe_reread env i = Inr live \<longrightarrow> sane_conditions M now (fst_conditions (flow_status live))"
    and del: "DeleteFlow n u rv \<in> set (fst (reconcile_flow cfg M env now key))"
  shows "\<exists>obj departed ms i (live :: MxlFlow). fe_flow env key = Inr obj \<and>
    departedNodes env (fst_locations (flow_status obj)) = Inr departed \<and>
    \<not> list_ex (fresh_at fr (flowref_name (flow_ref obj))) (origins (keepPresent (fst_locations (flow_status obj)) departed)) \<and>
    fe_mirrors env = Inr ms \<and> \<not> list_ex (references obj) ms \<and>
    fe_reread env i = Inr live \<and> false_for M now (fst_conditions (flow_status live)) ConditionTypeLive (flow_grace cfg) \<and>
    n = om_name (flow_meta live) \<and> u = om_uid (flow_meta live) \<and>
    (rv = om_resourceVersion (flow_meta live) \<or>
     (\<exists>f (out :: MxlFlow). fe_updateStatus env i f = Inr out \<and> flow_meta f = flow_meta live \<and> rv = om_resourceVersion (flow_meta out)))"
proof -
  obtain obj departed v where o: "fe_flow env key = Inr obj"
    "departedNodes env (fst_locations (flow_status obj)) = Inr departed"
    "judge cfg env obj (keepPresent (fst_locations (flow_status obj)) departed) = Inr v"
    and w: "DeleteFlow n u rv \<in> set (fst (writeStatus cfg M env now departed v)) \<or>
     (\<exists>msg. DeleteFlow n u rv \<in> set (fst (flow_event cfg ReasonLocationsPruned msg))) \<or>
     (\<exists>written. snd (writeStatus cfg M env now departed v) = Inr written \<and>
        DeleteFlow n u rv \<in> set (fst (collect_flow cfg M env now written v)))"
    using reconcile_flow_cases[OF del] by metis
  from w obtain written where written: "snd (writeStatus cfg M env now departed v) = Inr written"
    and c: "DeleteFlow n u rv \<in> set (fst (collect_flow cfg M env now written v))"
    using writeStatus_writes(2)[OF assms(1)] flow_event_only by blast
  from c have dead: "\<not> v_live v" and wait: "remaining (flow_grace cfg) now (notLiveSince M now written) \<le> 0"
    and d: "n = om_name (flow_meta written)" "u = om_uid (flow_meta written)" "rv = om_resourceVersion (flow_meta written)"
    by (simp_all add: collect_flow_writes flow_delete_def)
  obtain i live where l: "fe_reread env i = Inr live" "fst_conditions (flow_status written) = flow_conditions M now live v"
    "om_name (flow_meta written) = om_name (flow_meta live)" "om_uid (flow_meta written) = om_uid (flow_meta live)"
    "written = fst (revised M now departed v live) \<and> om_resourceVersion (flow_meta written) = om_resourceVersion (flow_meta live) \<or>
     fe_updateStatus env i (fst (revised M now departed v live)) = Inr written"
    using writeStatus_left[OF assms(1,3) written] by blast
  have "false_for M now (fst_conditions (flow_status live)) ConditionTypeLive (flow_grace cfg)"
    by (rule settled_wait_over[where c = "flow_condition live ConditionTypeLive (v_live v) (v_reason v) (v_message v)"])
      (use wait l(1,2) dead sane assms(5) flow_conditions_live[OF assms(2), of now live v] in
       \<open>simp_all add: notLiveSince_def Let_def flow_condition_def conditionStatus_def flow_grace_def flowGracePeriod_def second_def\<close>)
  moreover have "flow_meta (fst (revised M now departed v live)) = flow_meta live"
    using revised_status[where M = M and now = now and departed = departed and v = v and live = live] by (simp split: prod.splits)
  ultimately show ?thesis
    using judge_leased[OF assms(4) o(3)] dead o(1,2) l(1,3,4,5) d by metis
qed

text \<open>Every status the controller writes is consistent in itself, whatever agents wrote in between:
  the recorded origin node is the first Origin location of the very list written, no location of a
  departed node is left in it and no other is dropped, and when the origin changed the node it was
  on before is recorded as the previous one.\<close>

theorem written_status_is_consistent:
  assumes "retry_ok (fe_retry env)" "UpdateFlowStatus f \<in> set (fst (reconcile_flow cfg M env now key))"
  shows "\<exists>i live obj departed. fe_reread env i = Inr live \<and> fe_flow env key = Inr obj \<and>
    departedNodes env (fst_locations (flow_status obj)) = Inr departed \<and>
    fst_originNode (flow_status f) = originOf (fst_locations (flow_status f)) \<and>
    (\<forall>l. l \<in> set (fst_locations (flow_status f)) \<longleftrightarrow>
         l \<in> set (fst_locations (flow_status live)) \<and> loc_nodeName l \<notin> set departed) \<and>
    (fst_originNode (flow_status f) \<noteq> fst_originNode (flow_status live) \<and> fst_originNode (flow_status live) \<noteq> '''' \<longrightarrow>
       fst_previousOriginNode (flow_status f) = fst_originNode (flow_status live))"
proof -
  obtain obj departed v where o: "fe_flow env key = Inr obj"
    "departedNodes env (fst_locations (flow_status obj)) = Inr departed"
    and w: "UpdateFlowStatus f \<in> set (fst (writeStatus cfg M env now departed v)) \<or>
     (\<exists>msg. UpdateFlowStatus f \<in> set (fst (flow_event cfg ReasonLocationsPruned msg))) \<or>
     (\<exists>written. snd (writeStatus cfg M env now departed v) = Inr written \<and>
        UpdateFlowStatus f \<in> set (fst (collect_flow cfg M env now written v)))"
    using reconcile_flow_cases[OF assms(2)] by metis
  from w have "UpdateFlowStatus f \<in> set (fst (writeStatus cfg M env now departed v))"
    using flow_event_only(1) collect_flow_writes(2) by blast
  from writeStatus_writes(1)[OF assms(1) this]
  obtain i live where l: "fe_reread env i = Inr live" "f = fst (revised M now departed v live)" by blast
  have r: "fst_locations (flow_status f) = keepPresent (fst_locations (flow_status live)) departed"
    "fst_originNode (flow_status f) = originOf (fst_locations (flow_status f))"
    "fst_originNode (flow_status live) \<noteq> '''' \<and> fst_originNode (flow_status f) \<noteq> fst_originNode (flow_status live) \<longrightarrow>
        fst_previousOriginNode (flow_status f) = fst_originNode (flow_status live)"
    using revised_status[where M = M and now = now and departed = departed and v = v and live = live] l(2) by (simp_all split: prod.splits)
  show ?thesis
    by (rule exI[of _ i], rule exI[of _ live], rule exI[of _ obj], rule exI[of _ departed])
      (use o l r in \<open>auto simp: set_keepPresent\<close>)
qed

subsection \<open>On concrete objects\<close>

definition dead_flow :: MxlFlow where
  "dead_flow = witness_flow\<lparr>flow_status := (flow_status witness_flow)\<lparr>fst_locations := [], fst_originNode := '''',
     fst_conditions := [\<lparr>cond_type = ConditionTypeLive, cond_status = ConditionFalse, cond_reason = ReasonNoLiveCopy,
       cond_message = ''no origin holds a renewed lease and no mirror references this flow'',
       cond_observedGeneration = 1, cond_lastTransitionTime = 1000 * second\<rparr>]\<rparr>\<rparr>"

text \<open>The same flow after its agent published it again.\<close>

definition republished_flow :: MxlFlow where
  "republished_flow = dead_flow\<lparr>flow_meta := (flow_meta dead_flow)\<lparr>om_resourceVersion := ''2''\<rparr>,
     flow_status := (flow_status dead_flow)\<lparr>fst_locations :=
       [\<lparr>loc_nodeName = ''b'', loc_phase = LocationOrigin, loc_lastObserved = None, loc_appearedAt = None\<rparr>]\<rparr>\<rparr>"

definition fresh_lease :: LeaseFreshness where
  "fresh_lease flow node = Inr (True, 10000 * second)"

definition example_flow_config :: flow_config where
  "example_flow_config = \<lparr>fc_recorder = True, fc_lease = Some fresh_lease, fc_gracePeriod = 0\<rparr>"

definition example_flow_env :: "MxlFlow \<Rightarrow> MxlFlow \<Rightarrow> flow_env" where
  "example_flow_env obj live = \<lparr>fe_flow = (\<lambda>_. Inr obj), fe_node = (\<lambda>_. Inr (witness_meta ''n'')), fe_mirrors = Inr [],
     fe_retry = bounded_retry 4 0, fe_reread = (\<lambda>_. Inr live),
     fe_updateStatus = (\<lambda>_ f. Inr (f\<lparr>flow_meta := (flow_meta f)\<lparr>om_resourceVersion := ''3''\<rparr>\<rparr>)), fe_delete = (\<lambda>_. Inr ())\<rparr>"

lemma example_flow_retry: "retry_ok (fe_retry (example_flow_env obj live))"
  by (simp add: example_flow_env_def bounded_retry_ok)

abbreviation "flow_key \<equiv> \<lparr>nn_namespace = '''', nn_name = ''f''\<rparr>"

theorem judge_verdict_witness:
  "let v = zero_verdict\<lparr>v_live := True, v_reason := ReasonOriginLive, v_message := ''origin on b holds a renewed lease'',
             v_deadline := 10000 * second, v_originClaimed := True, v_originFresh := True\<rparr>;
       fresh = list_ex (fresh_at fresh_lease (flowref_name (flow_ref republished_flow)))
                 (origins (fst_locations (flow_status republished_flow))) in
   (v_live v \<longleftrightarrow> fresh \<or> (\<exists>ms. fe_mirrors (example_flow_env dead_flow dead_flow) = Inr ms \<and> list_ex (references republished_flow) ms)) \<and>
   (v_originClaimed v \<longleftrightarrow> origins (fst_locations (flow_status republished_flow)) \<noteq> []) \<and> (v_originFresh v \<longleftrightarrow> fresh)"
  unfolding Let_def
  by (rule judge_verdict[unfolded Let_def, where cfg = example_flow_config and env = "example_flow_env dead_flow dead_flow"])
    (simp add: example_flow_config_def, code_simp)

lemma dead_flow_deleted:
  "DeleteFlow ''f'' ''u'' ''1'' \<in> set (fst (reconcile_flow example_flow_config list_meta_api
     (example_flow_env dead_flow dead_flow) (2000 * second) flow_key))"
  by code_simp

lemma dead_flow_sane: "sane_conditions list_meta_api (2000 * second) (fst_conditions (flow_status dead_flow))"
  by (auto simp: sane_conditions_def dead_flow_def list_meta_api_def second_def split: if_splits)

theorem flow_collected_only_when_dead_witness:
  "\<not> list_ex (fresh_at fresh_lease (flowref_name (flow_ref dead_flow))) (origins (keepPresent (fst_locations (flow_status dead_flow)) [])) \<and>
   false_for list_meta_api (2000 * second) (fst_conditions (flow_status dead_flow)) ConditionTypeLive (flow_grace example_flow_config)"
proof -
  have l: "fc_lease example_flow_config = Some fresh_lease" by (simp add: example_flow_config_def)
  have g: "flow_grace example_flow_config < 2 ^ 62" by code_simp
  have "update_answers (example_flow_env dead_flow dead_flow)" by (auto simp: update_answers_def example_flow_env_def)
  moreover have "departedNodes (example_flow_env dead_flow dead_flow) (fst_locations (flow_status dead_flow)) = Inr []" by code_simp
  moreover have "\<forall>i live. fe_reread (example_flow_env dead_flow dead_flow) i = Inr live \<longrightarrow>
      sane_conditions list_meta_api (2000 * second) (fst_conditions (flow_status live))"
    using dead_flow_sane by (simp add: example_flow_env_def)
  ultimately show ?thesis
    using flow_collected_only_when_dead[OF example_flow_retry list_meta_api_ok _ l g _ dead_flow_deleted]
    by (auto simp: example_flow_env_def)
qed

theorem written_status_is_consistent_witness:
  "\<exists>f. UpdateFlowStatus f \<in> set (fst (reconcile_flow example_flow_config list_meta_api
       (example_flow_env dead_flow republished_flow) (2000 * second) flow_key)) \<and>
     fst_originNode (flow_status f) = originOf (fst_locations (flow_status f))"
proof -
  let ?run = "reconcile_flow example_flow_config list_meta_api (example_flow_env dead_flow republished_flow) (2000 * second) flow_key"
  have "list_ex (\<lambda>w. case w of UpdateFlowStatus f \<Rightarrow> True | _ \<Rightarrow> False) (fst ?run)" by code_simp
  then obtain w where w: "w \<in> set (fst ?run)" "case w of UpdateFlowStatus f \<Rightarrow> True | _ \<Rightarrow> False"
    unfolding list_ex_iff by blast
  from w(2) obtain f where "w = UpdateFlowStatus f" by (cases w) simp_all
  with w(1) have f: "UpdateFlowStatus f \<in> set (fst ?run)" by simp
  from written_status_is_consistent[OF example_flow_retry f] f show ?thesis by blast
qed

text \<open>The precondition of the delete does not protect a flow that came back inside the pass. The
  verdict is taken on the first read; the delete carries the version that the later read and status
  write produced. When the agent republishes in between, the controller sees the new Origin, records
  it as the origin node, announces it, and then deletes the flow under the version that contains
  it, although its Lease is fresh.\<close>

theorem republished_flow_is_deleted:
  "let run = reconcile_flow example_flow_config list_meta_api
       (example_flow_env dead_flow republished_flow) (2000 * second) flow_key
   in DeleteFlow ''f'' ''u'' ''3'' \<in> set (fst run) \<and>
      FlowEvent ReasonOriginMoved ''Origin established on b'' \<in> set (fst run) \<and>
      fresh_at fresh_lease (flowref_name (flow_ref republished_flow)) ''b''"
  by code_simp

end
