(* ===== verification/Lease_GC.thy ===== *)
theory Lease_GC
  imports Origin
begin

section \<open>The Lease collector (operator/internal/leasegc/controller.go)\<close>

text \<open>
  Deletes an origin Lease that is past its window and that nothing can renew: its node has left the
  cluster or its flow has been collected. The window is the one the Lease checker of \<open>Origin\<close>
  reads, so that a Lease that backs an origin is never collected.
\<close>

record lease_env =
  le_lease :: "NamespacedName \<Rightarrow> go_error + Lease"
  le_node :: "string \<Rightarrow> go_error + ObjectMeta"
  le_flow :: "string \<Rightarrow> go_error + MxlFlow"
  le_delete :: "Lease \<Rightarrow> go_error + unit"

datatype lease_write = DeleteLease NamespacedName string string

definition expiry :: "Lease \<Rightarrow> time" where
  "expiry lease =
     (case lease_renewTime lease of
        None \<Rightarrow> 0
      | Some renewed \<Rightarrow>
          renewed + (case lease_durationSeconds lease of
                       Some d \<Rightarrow> if 0 < d then mul64 d second else DefaultLeaseDuration
                     | None \<Rightarrow> DefaultLeaseDuration))"

definition orphaned :: "lease_env \<Rightarrow> string \<Rightarrow> string \<Rightarrow> go_error + (bool \<times> string)" where
  "orphaned env flowID nodeName =
     (case le_node env nodeName of
        Inl e \<Rightarrow> if isNotFound e then Inr (True, ''holder node has left the cluster'')
                 else Inl (EWrap (''look up node '' @ nodeName) e)
      | Inr _ \<Rightarrow>
      case le_flow env flowID of
        Inl e \<Rightarrow> if isNotFound e then Inr (True, ''the flow it names has been collected'')
                 else Inl (EWrap (''look up MxlFlow '' @ flowID) e)
      | Inr _ \<Rightarrow> Inr (False, ''''))"

definition reconcile_lease :: "lease_env \<Rightarrow> time \<Rightarrow> NamespacedName \<Rightarrow> (lease_write, Result) io" where
  "reconcile_lease env now key =
     (case le_lease env key of
        Inl e \<Rightarrow> if isNotFound e then io_ret no_requeue else io_fail e
      | Inr lease \<Rightarrow>
      case parseLeaseNameFor (om_name (lease_meta lease)) of (ref, nodeName, ok) \<Rightarrow>
        if \<not> ok then io_ret no_requeue
        else if 0 < time_sub (expiry lease) now then io_ret (after (add64 (time_sub (expiry lease) now) second))
        else case orphaned env (flowref_name ref) nodeName of
               Inl e \<Rightarrow> io_fail e
             | Inr (False, _) \<Rightarrow> io_ret no_requeue
             | Inr (True, _) \<Rightarrow>
                 io_write (DeleteLease (objectKey (lease_meta lease)) (om_uid (lease_meta lease)) (om_resourceVersion (lease_meta lease)))
                   (case le_delete env lease of
                      Inr _ \<Rightarrow> Inr no_requeue
                    | Inl e \<Rightarrow> if isNotFound e then Inr no_requeue
                               else if isConflict e then Inr again
                               else Inl (EWrap ''delete Lease'' e)))"

definition leasesMatching :: "go_error + Lease list \<Rightarrow> (string \<Rightarrow> string \<Rightarrow> bool) \<Rightarrow> NamespacedName list" where
  "leasesMatching leases keep =
     enqueue (\<lambda>l. objectKey (lease_meta l)) leases
       (\<lambda>l. case parseLeaseNameFor (om_name (lease_meta l)) of (ref, node, ok) \<Rightarrow> ok \<and> keep (flowref_name ref) node)"

definition nodeToLeases :: "go_error + Lease list \<Rightarrow> string \<Rightarrow> NamespacedName list" where
  "nodeToLeases leases node = leasesMatching leases (\<lambda>_ n. n = node)"

definition flowToLeases :: "go_error + Lease list \<Rightarrow> MxlFlow \<Rightarrow> NamespacedName list" where
  "flowToLeases leases f = leasesMatching leases (\<lambda>flowID _. flowID = flowref_name (flow_ref f))"

subsection \<open>Properties\<close>

text \<open>The window of the collector is the window of the checker.\<close>

lemma expiry_window: "lease_renewTime lease = Some t \<Longrightarrow> expiry lease = t + lease_window lease"
  by (simp add: expiry_def lease_window_def)

text \<open>A Lease is deleted exactly when it names a flow and a node, its window has passed, and its
  node or its flow is known to be gone; the delete carries the uid and the resource version of the
  Lease that was read. A lookup that fails for another reason deletes nothing.\<close>

theorem lease_deleted_iff_orphaned:
  "DeleteLease k u rv \<in> set (fst (reconcile_lease env now key)) \<longleftrightarrow>
    (\<exists>lease ref node. le_lease env key = Inr lease \<and>
      parseLeaseNameFor (om_name (lease_meta lease)) = (ref, node, True) \<and> expiry lease \<le> now \<and>
      ((\<exists>e. le_node env node = Inl e \<and> isNotFound e) \<or>
       (\<exists>n e. le_node env node = Inr n \<and> le_flow env (flowref_name ref) = Inl e \<and> isNotFound e)) \<and>
      DeleteLease k u rv =
        DeleteLease (objectKey (lease_meta lease)) (om_uid (lease_meta lease)) (om_resourceVersion (lease_meta lease)))"
proof (cases "le_lease env key")
  case (Inr lease)
  obtain ref node ok where p: "parseLeaseNameFor (om_name (lease_meta lease)) = (ref, node, ok)"
    by (cases "parseLeaseNameFor (om_name (lease_meta lease))") auto
  show ?thesis
    by (cases "le_node env node"; cases "le_flow env (flowref_name ref)")
      (auto simp: reconcile_lease_def Inr p orphaned_def not_less)
qed (simp add: reconcile_lease_def)

text \<open>The collector never deletes a Lease that backs an origin: as long as the Lease checker, reading
  the same Leases, answers that the Lease of a flow on a node is fresh, a pass over that Lease
  writes nothing and comes back after the window, when it can be judged.\<close>

theorem fresh_lease_is_kept:
  assumes "isFresh (Some (le_lease env)) now flowID node = Inr (True, deadline)"
    "le_lease env key = Inr lease" "key = \<lparr>nn_namespace = leaseNamespace, nn_name = leaseName flowID node\<rparr>"
    "deadline - now < 2 ^ 62" "snd (snd (parseLeaseNameFor (om_name (lease_meta lease))))"
  shows "reconcile_lease env now key = io_ret (after (deadline - now + second)) \<and> now < deadline"
proof -
  have d: "deadline = expiry lease" "now < deadline"
    using assms(1-3) by (auto simp: isFresh_def Let_def expiry_window split: option.splits)
  have "time_sub (expiry lease) now = deadline - now"
    using d assms(4) by (simp add: time_sub_id)
  moreover have "add64 (deadline - now) second = deadline - now + second"
    using d assms(4) by (intro add64_id) (simp add: second_def)
  ultimately show ?thesis
    using d assms(2,5) by (cases "parseLeaseNameFor (om_name (lease_meta lease))") (simp add: reconcile_lease_def)
qed

definition example_lease_env :: "go_error + ObjectMeta \<Rightarrow> lease_env" where
  "example_lease_env node = \<lparr>le_lease = (\<lambda>k. Inr \<lparr>lease_meta = (witness_meta (nn_name k))\<lparr>om_namespace := nn_namespace k\<rparr>,
       lease_renewTime = Some (1000 * second), lease_durationSeconds = None\<rparr>),
     le_node = (\<lambda>_. node), le_flow = (\<lambda>_. Inr witness_flow), le_delete = (\<lambda>_. Inr ())\<rparr>"

abbreviation "example_lease_key \<equiv> \<lparr>nn_namespace = leaseNamespace, nn_name = leaseName ''5fbec3b1-1b0f-417d-9059-8b94a47197ed'' ''n1''\<rparr>"

theorem fresh_lease_is_kept_witness:
  "reconcile_lease (example_lease_env (Inl ENotFound)) (1010 * second) example_lease_key =
     io_ret (after (1030 * second - 1010 * second + second)) \<and> 1010 * second < 1030 * second"
  by (rule fresh_lease_is_kept[where flowID = "''5fbec3b1-1b0f-417d-9059-8b94a47197ed''" and node = "''n1''" and
        lease = "\<lparr>lease_meta = (witness_meta (nn_name example_lease_key))\<lparr>om_namespace := leaseNamespace\<rparr>,
          lease_renewTime = Some (1000 * second), lease_durationSeconds = None\<rparr>"]) code_simp+

end
