(* ===== verification/Domain_Status.thy ===== *)
theory Domain_Status
  imports Origin
begin

section \<open>The domain controller (operator/internal/domain/controller.go)\<close>

text \<open>
  Keeps a domain's status to nodes that exist, and publishes whether it is materialised on all of
  them and whether a flow written on one can be read on another. Also here, since it is the same
  housekeeping for a node that left: the controller of node capabilities
  (\<^verbatim>\<open>operator/internal/nodecaps/controller.go\<close>).
\<close>

definition ConditionTypeReachable :: string where "ConditionTypeReachable = ''Reachable''"
definition ConditionTypeMaterialised :: string where "ConditionTypeMaterialised = ''Materialised''"

record domain_env =
  de_domain :: "NamespacedName \<Rightarrow> go_error + MxlDomain"
  de_nodes :: "go_error + ObjectMeta list"
  de_delete :: "MxlDomain \<Rightarrow> go_error + unit"
  de_updateStatus :: "MxlDomain \<Rightarrow> go_error + unit"

datatype domain_write = DeleteDomain string | UpdateDomainStatus MxlDomain

definition domain_condition :: "string \<Rightarrow> ConditionStatus \<Rightarrow> string \<Rightarrow> string \<Rightarrow> Condition" where
  "domain_condition typ st reason msg = \<lparr>cond_type = typ, cond_status = st, cond_reason = reason, cond_message = msg,
     cond_observedGeneration = 0, cond_lastTransitionTime = 0\<rparr>"

text \<open>\<^verbatim>\<open>strings.Join\<close> of the sorted names.\<close>

definition joined :: "string list \<Rightarrow> string" where
  "joined ns = (case sort ns of [] \<Rightarrow> '''' | s # rest \<Rightarrow> s @ concat (map (\<lambda>t. '', '' @ t) rest))"

definition reachable :: "MxlDomain \<Rightarrow> Condition" where
  "reachable d =
     (let nodes = dst_nodes (dom_status d);
          unmirrored = map dn_nodeName (filter (\<lambda>n. \<not> dn_mirrored n) nodes)
      in if 1 < length nodes \<and> unmirrored \<noteq> []
         then domain_condition ConditionTypeReachable ConditionFalse ''NotMirrored''
           (''materialised on '' @ show_nat (length nodes) @ '' nodes but not mirrored on '' @ joined unmirrored @
            '': a flow written on one of them cannot be read on another'')
         else domain_condition ConditionTypeReachable ConditionTrue ''Reachable''
           ''every flow of the domain can be read on every node it is materialised on'')"

definition materialised :: "MxlDomain \<Rightarrow> Condition" where
  "materialised d =
     (let nodes = dst_nodes (dom_status d);
          failing = map dn_nodeName (filter (\<lambda>n. \<not> dn_ready n) nodes)
      in if nodes = [] then domain_condition ConditionTypeMaterialised ConditionFalse ''NoNodes'' ''no agent has reported this domain''
         else if failing \<noteq> [] then domain_condition ConditionTypeMaterialised ConditionFalse ''NodesNotReady''
           (''not materialised on '' @ joined failing)
         else domain_condition ConditionTypeMaterialised ConditionTrue ''AllNodesReady''
           (''materialised on '' @ show_nat (length nodes) @ '' node(s)''))"

definition pruneDeparted :: "domain_env \<Rightarrow> MxlDomain \<Rightarrow> go_error + (MxlDomain \<times> bool)" where
  "pruneDeparted env d =
     (case de_nodes env of
        Inl e \<Rightarrow> Inl (EWrap ''list nodes'' e)
      | Inr ns \<Rightarrow>
          let kept = filter (\<lambda>n. dn_nodeName n \<in> om_name ` set ns) (dst_nodes (dom_status d))
          in Inr (d\<lparr>dom_status := (dom_status d)\<lparr>dst_nodes := kept\<rparr>\<rparr>,
                  length kept \<noteq> length (dst_nodes (dom_status d))))"

text \<open>The loop over the two conditions, which are computed before either is set.\<close>

fun set_conditions :: "meta_api \<Rightarrow> time \<Rightarrow> int \<Rightarrow> Condition list \<Rightarrow> bool \<Rightarrow> Condition list \<Rightarrow> Condition list \<times> bool" where
  "set_conditions M now gen [] changed cs = (cs, changed)"
| "set_conditions M now gen (c # rest) changed cs =
     (case setStatusCondition M now cs (c\<lparr>cond_observedGeneration := gen\<rparr>) of
        (cs', ch) \<Rightarrow> set_conditions M now gen rest (changed \<or> ch) cs')"

definition reconcile_domain :: "meta_api \<Rightarrow> domain_env \<Rightarrow> time \<Rightarrow> NamespacedName \<Rightarrow> (domain_write, Result) io" where
  "reconcile_domain M env now key =
     (case de_domain env key of
        Inl e \<Rightarrow> if isNotFound e then io_ret no_requeue else io_fail e
      | Inr d \<Rightarrow>
          if ds_id (dom_spec d) = ''''
          then io_bind (io_write (DeleteDomain (om_name (dom_meta d))) (ignoreNotFound (de_delete env d))) (\<lambda>_. io_ret no_requeue)
          else case pruneDeparted env d of
                 Inl e \<Rightarrow> io_fail e
               | Inr (d1, pruned) \<Rightarrow>
                   (case set_conditions M now (om_generation (dom_meta d1)) [materialised d1, reachable d1] pruned
                           (dst_conditions (dom_status d1)) of
                      (cs, changed) \<Rightarrow>
                        if \<not> changed then io_ret no_requeue
                        else let d2 = d1\<lparr>dom_status := (dom_status d1)\<lparr>dst_conditions := cs\<rparr>\<rparr>
                             in io_bind (io_write (UpdateDomainStatus d2) (de_updateStatus env d2)) (\<lambda>_. io_ret no_requeue)))"

definition allDomains :: "go_error + MxlDomain list \<Rightarrow> NamespacedName list" where
  "allDomains ds = enqueue (\<lambda>d. \<lparr>nn_namespace = '''', nn_name = om_name (dom_meta d)\<rparr>) ds (\<lambda>_. True)"

section \<open>The node capabilities controller\<close>

definition ReasonNodeDeparted :: string where "ReasonNodeDeparted = ''NodeDeparted''"

record caps_env =
  ce_caps :: "NamespacedName \<Rightarrow> go_error + MxlNodeCapabilities"
  ce_node :: "string \<Rightarrow> go_error + ObjectMeta"
  ce_delete :: "MxlNodeCapabilities \<Rightarrow> go_error + unit"

datatype caps_write = DeleteCaps string string | CapsEvent string string

definition caps_node_name :: "MxlNodeCapabilities \<Rightarrow> string" where
  "caps_node_name c = (if caps_nodeName c = '''' then om_name (caps_meta c) else caps_nodeName c)"

definition reconcile_caps :: "bool \<Rightarrow> caps_env \<Rightarrow> NamespacedName \<Rightarrow> (caps_write, Result) io" where
  "reconcile_caps recorder env key =
     (case ce_caps env key of
        Inl e \<Rightarrow> if isNotFound e then io_ret no_requeue else io_fail e
      | Inr obj \<Rightarrow>
          (case ce_node env (caps_node_name obj) of
             Inr _ \<Rightarrow> io_ret no_requeue
           | Inl e \<Rightarrow>
               if \<not> isNotFound e then io_fail (EWrap ''get Node'' e)
               else case ce_delete env obj of
                      Inl e' \<Rightarrow> io_write (DeleteCaps (om_name (caps_meta obj)) (om_uid (caps_meta obj)))
                                  (if isNotFound e' then Inr no_requeue else Inl (EWrap ''delete MxlNodeCapabilities'' e'))
                    | Inr _ \<Rightarrow>
                        io_bind (io_write (DeleteCaps (om_name (caps_meta obj)) (om_uid (caps_meta obj))) (Inr ())) (\<lambda>_.
                        io_bind (if recorder then io_write (CapsEvent ReasonNodeDeparted
                                   (''Deleting: node '' @ caps_node_name obj @ '' is no longer registered'')) (Inr ())
                                 else io_ret ()) (\<lambda>_. io_ret no_requeue))))"

definition nodeToCapabilities :: "go_error + MxlNodeCapabilities list \<Rightarrow> string \<Rightarrow> NamespacedName list" where
  "nodeToCapabilities caps node =
     enqueue (\<lambda>c. \<lparr>nn_namespace = '''', nn_name = om_name (caps_meta c)\<rparr>) caps (\<lambda>c. caps_node_name c = node)"

section \<open>Properties\<close>

lemma set_conditions_find:
  assumes "meta_api_ok M" "set_conditions M now gen conds changed cs = (cs', ch)" "distinct (map cond_type conds)" "c \<in> set conds"
  shows "\<exists>c'. findStatusCondition M cs' (cond_type c) = Some c' \<and> cond_status c' = cond_status c \<and>
     cond_reason c' = cond_reason c \<and> cond_message c' = cond_message c \<and> cond_observedGeneration c' = gen"
  using assms(2-4)
proof (induction conds arbitrary: changed cs)
  case (Cons d ds)
  obtain cs1 b where s: "setStatusCondition M now cs (d\<lparr>cond_observedGeneration := gen\<rparr>) = (cs1, b)" by fastforce
  have keep: "findStatusCondition M cs' t = findStatusCondition M cs1 t"
    if "t \<notin> cond_type ` set ds" "set_conditions M now gen ds x cs1 = (cs', ch)" for t x
    using that
  proof (induction ds arbitrary: x cs1)
    case (Cons e es)
    obtain cs2 b2 where s2: "setStatusCondition M now cs1 (e\<lparr>cond_observedGeneration := gen\<rparr>) = (cs2, b2)" by fastforce
    show ?case using Cons.IH[of "x \<or> b2" cs2] Cons.prems s2
        meta_api_ok_find[OF assms(1), of now cs1 "e\<lparr>cond_observedGeneration := gen\<rparr>" t] by simp
  qed simp
  show ?case
  proof (cases "c \<in> set ds")
    case True
    then show ?thesis using Cons s by simp
  next
    case False
    with Cons.prems have "c = d" by simp
    then show ?thesis
      using keep[of "cond_type d" "changed \<or> b"] Cons.prems s
        meta_api_ok_find[OF assms(1), of now cs "d\<lparr>cond_observedGeneration := gen\<rparr>" "cond_type d"] by simp
  qed
qed simp

text \<open>What the controller publishes for a domain is true of the nodes it publishes: the status it
  writes lists exactly the reported nodes that are still in the cluster; it reads Materialised
  exactly when there is such a node and all of them are ready, and Reachable exactly when there is
  at most one or all of them are mirrored.\<close>

theorem domain_status_is_true:
  assumes "meta_api_ok M" "UpdateDomainStatus d' \<in> set (fst (reconcile_domain M env now key))"
  shows "\<exists>d ns. de_domain env key = Inr d \<and> de_nodes env = Inr ns \<and>
    dst_nodes (dom_status d') = filter (\<lambda>n. dn_nodeName n \<in> om_name ` set ns) (dst_nodes (dom_status d)) \<and>
    (isStatusConditionTrue M (dst_conditions (dom_status d')) ConditionTypeMaterialised \<longleftrightarrow>
       dst_nodes (dom_status d') \<noteq> [] \<and> list_all dn_ready (dst_nodes (dom_status d'))) \<and>
    (isStatusConditionTrue M (dst_conditions (dom_status d')) ConditionTypeReachable \<longleftrightarrow>
       length (dst_nodes (dom_status d')) \<le> 1 \<or> list_all dn_mirrored (dst_nodes (dom_status d')))"
proof -
  obtain d where d: "de_domain env key = Inr d" "ds_id (dom_spec d) \<noteq> ''''"
    using assms(2) by (auto simp: reconcile_domain_def ignoreNotFound_def io_bind_def split: sum.splits if_splits)
  obtain ns where ns: "de_nodes env = Inr ns"
    using assms(2) d by (auto simp: reconcile_domain_def pruneDeparted_def split: sum.splits)
  define d1 where "d1 = d\<lparr>dom_status := (dom_status d)\<lparr>dst_nodes :=
      filter (\<lambda>n. dn_nodeName n \<in> om_name ` set ns) (dst_nodes (dom_status d))\<rparr>\<rparr>"
  obtain p where p: "pruneDeparted env d = Inr (d1, p)" using ns by (simp add: pruneDeparted_def Let_def d1_def)
  obtain cs ch where cs: "set_conditions M now (om_generation (dom_meta d1)) [materialised d1, reachable d1] p
      (dst_conditions (dom_status d1)) = (cs, ch)" by fastforce
  have d': "d' = d1\<lparr>dom_status := (dom_status d1)\<lparr>dst_conditions := cs\<rparr>\<rparr>"
    using assms(2) d p cs by (auto simp: reconcile_domain_def io_bind_def Let_def split: sum.splits if_splits prod.splits)
  have types: "cond_type (materialised d1) = ConditionTypeMaterialised" "cond_type (reachable d1) = ConditionTypeReachable"
    by (simp_all add: materialised_def reachable_def Let_def domain_condition_def)
  have dist: "distinct (map cond_type [materialised d1, reachable d1])"
    by (simp add: types ConditionTypeMaterialised_def ConditionTypeReachable_def)
  obtain cm where m: "findStatusCondition M cs ConditionTypeMaterialised = Some cm" "cond_status cm = cond_status (materialised d1)"
    using set_conditions_find[OF assms(1) cs dist, of "materialised d1"] types by auto
  obtain cr where r: "findStatusCondition M cs ConditionTypeReachable = Some cr" "cond_status cr = cond_status (reachable d1)"
    using set_conditions_find[OF assms(1) cs dist, of "reachable d1"] types by auto
  have sm: "cond_status (materialised d1) = ConditionTrue \<longleftrightarrow>
      dst_nodes (dom_status d1) \<noteq> [] \<and> list_all dn_ready (dst_nodes (dom_status d1))"
    by (auto simp: materialised_def Let_def domain_condition_def filter_empty_conv list_all_iff)
  have sr: "cond_status (reachable d1) = ConditionTrue \<longleftrightarrow>
      length (dst_nodes (dom_status d1)) \<le> 1 \<or> list_all dn_mirrored (dst_nodes (dom_status d1))"
    by (auto simp: reachable_def Let_def domain_condition_def filter_empty_conv list_all_iff)
  have nodes: "dst_nodes (dom_status d1) = filter (\<lambda>n. dn_nodeName n \<in> om_name ` set ns) (dst_nodes (dom_status d))"
    by (simp add: d1_def)
  show ?thesis
    by (rule exI[of _ d], rule exI[of _ ns])
      (use d ns m r sm sr nodes in \<open>simp add: d' isStatusConditionTrue_def\<close>)
qed

text \<open>A node's capabilities are deleted exactly when the node is known to be gone (not when the
  lookup failed otherwise), and under the uid that was read.\<close>

theorem caps_deleted_iff_node_gone:
  "DeleteCaps n u \<in> set (fst (reconcile_caps recorder env key)) \<longleftrightarrow>
    (\<exists>obj e. ce_caps env key = Inr obj \<and> ce_node env (caps_node_name obj) = Inl e \<and> isNotFound e \<and>
       n = om_name (caps_meta obj) \<and> u = om_uid (caps_meta obj))"
  by (auto simp: reconcile_caps_def io_bind_def split: sum.splits)

definition example_domain :: MxlDomain where
  "example_domain = \<lparr>dom_meta = witness_meta ''d'', dom_spec = \<lparr>ds_id = ''d'', ds_directory = '''', ds_label = '''',
       ds_description = '''', ds_tags = [], ds_historyDuration = None, ds_nodeSelector = []\<rparr>,
     dom_status = \<lparr>dst_nodes = map (\<lambda>(n, m). \<lparr>dn_nodeName = n, dn_ready = True, dn_mirrored = m, dn_fanotifyReady = True,
         dn_capacityBytes = 0, dn_freeBytes = 0, dn_message = '''', dn_lastSeen = None\<rparr>)
         [(''a'', True), (''b'', False), (''c'', True)], dst_conditions = []\<rparr>\<rparr>"

definition example_domain_env :: domain_env where
  "example_domain_env = \<lparr>de_domain = (\<lambda>_. Inr example_domain), de_nodes = Inr [witness_meta ''a'', witness_meta ''c''],
     de_delete = (\<lambda>_. Inr ()), de_updateStatus = (\<lambda>_. Inr ())\<rparr>"

theorem domain_status_is_true_witness:
  "\<exists>d'. UpdateDomainStatus d' \<in> set (fst (reconcile_domain list_meta_api example_domain_env 10 \<lparr>nn_namespace = '''', nn_name = ''d''\<rparr>)) \<and>
     map dn_nodeName (dst_nodes (dom_status d')) = [''a'', ''c''] \<and>
     isStatusConditionTrue list_meta_api (dst_conditions (dom_status d')) ConditionTypeReachable"
proof -
  let ?run = "reconcile_domain list_meta_api example_domain_env 10 \<lparr>nn_namespace = '''', nn_name = ''d''\<rparr>"
  have "fst ?run \<noteq> [] \<and> (case hd (fst ?run) of UpdateDomainStatus d \<Rightarrow> True | _ \<Rightarrow> False)" by code_simp
  then obtain d' where d': "UpdateDomainStatus d' \<in> set (fst ?run)"
    using hd_in_set[of "fst ?run"] by (cases "hd (fst ?run)") auto
  have "filter (\<lambda>n. dn_nodeName n \<in> om_name ` set [witness_meta ''a'', witness_meta ''c'']) (dst_nodes (dom_status example_domain)) =
      [dst_nodes (dom_status example_domain) ! 0, dst_nodes (dom_status example_domain) ! 2]" by code_simp
  moreover have "map dn_nodeName [dst_nodes (dom_status example_domain) ! 0, dst_nodes (dom_status example_domain) ! 2] = [''a'', ''c'']"
    "list_all dn_mirrored [dst_nodes (dom_status example_domain) ! 0, dst_nodes (dom_status example_domain) ! 2]" by code_simp+
  ultimately show ?thesis
    using domain_status_is_true[OF list_meta_api_ok d'] d' by (auto simp: example_domain_env_def)
qed

end
