(* ===== verification/Sha256.thy ===== *)
theory Sha256
  imports Main "HOL-Library.Word"
begin

section \<open>SHA-256 and its short form\<close>

text \<open>
  \<^verbatim>\<open>crypto/sha256.Sum256\<close> (FIPS 180-4) on the bytes of a string, as far as the receiver controller
  needs it: \<open>shortHash\<close> of \<^verbatim>\<open>operator/internal/receiver/controller.go\<close> is the lowercase hexadecimal form of the
  first four bytes of the digest. Words are 32 bits wide and additions wrap. Shown here: the short hash is always
  eight hexadecimal digits, so a name it is appended to stays a DNS label.
\<close>

subsection \<open>Constants\<close>

text \<open>The tables are kept eight words to a number of 256 bits, most significant word first.\<close>

definition split_row :: "int \<Rightarrow> 32 word list" where
  "split_row x = map (\<lambda>i. of_int (x div 4294967296 ^ (7 - i) mod 4294967296)) [0..<8]"

definition sha_init :: "32 word list" where
  "sha_init = split_row 0x6a09e667bb67ae853c6ef372a54ff53a510e527f9b05688c1f83d9ab5be0cd19"

definition sha_round :: "32 word list" where
  "sha_round = concat (map split_row
    [0x428a2f9871374491b5c0fbcfe9b5dba53956c25b59f111f1923f82a4ab1c5ed5,
     0xd807aa9812835b01243185be550c7dc372be5d7480deb1fe9bdc06a7c19bf174,
     0xe49b69c1efbe47860fc19dc6240ca1cc2de92c6f4a7484aa5cb0a9dc76f988da,
     0x983e5152a831c66db00327c8bf597fc7c6e00bf3d5a7914706ca635114292967,
     0x27b70a852e1b21384d2c6dfc53380d13650a7354766a0abb81c2c92e92722c85,
     0xa2bfe8a1a81a664bc24b8b70c76c51a3d192e819d6990624f40e3585106aa070,
     0x19a4c1161e376c082748774c34b0bcb5391c0cb34ed8aa4a5b9cca4f682e6ff3,
     0x748f82ee78a5636f84c878148cc7020890befffaa4506cebbef9a3f7c67178f2])"

subsection \<open>The compression function\<close>

unbundle bit_operations_syntax

definition sha_sigma0 :: "32 word \<Rightarrow> 32 word" where
  "sha_sigma0 x = word_rotr 7 x XOR word_rotr 18 x XOR drop_bit 3 x"

definition sha_sigma1 :: "32 word \<Rightarrow> 32 word" where
  "sha_sigma1 x = word_rotr 17 x XOR word_rotr 19 x XOR drop_bit 10 x"

definition sha_sum0 :: "32 word \<Rightarrow> 32 word" where
  "sha_sum0 x = word_rotr 2 x XOR word_rotr 13 x XOR word_rotr 22 x"

definition sha_sum1 :: "32 word \<Rightarrow> 32 word" where
  "sha_sum1 x = word_rotr 6 x XOR word_rotr 11 x XOR word_rotr 25 x"

text \<open>The message schedule, from the sixteen words of a block; the list grows at its end.\<close>

fun sha_schedule :: "nat \<Rightarrow> 32 word list \<Rightarrow> 32 word list" where
  "sha_schedule 0 ws = ws"
| "sha_schedule (Suc n) ws =
     (let t = length ws
      in sha_schedule n (ws @ [sha_sigma1 (ws ! (t - 2)) + ws ! (t - 7) + sha_sigma0 (ws ! (t - 15)) + ws ! (t - 16)]))"

fun sha_step :: "32 word \<times> 32 word \<Rightarrow> 32 word list \<Rightarrow> 32 word list" where
  "sha_step (k, w) [a, b, c, d, e, f, g, h] =
     (let t1 = h + sha_sum1 e + ((e AND f) XOR (NOT e AND g)) + k + w;
          t2 = sha_sum0 a + ((a AND b) XOR (a AND c) XOR (b AND c))
      in [t1 + t2, a, b, c, d + t1, e, f, g])"
| "sha_step kw st = st"

definition sha_block :: "32 word list \<Rightarrow> 32 word list \<Rightarrow> 32 word list" where
  "sha_block block st = map2 (+) st (fold sha_step (zip sha_round (sha_schedule 48 block)) st)"

subsection \<open>Padding, blocks and the digest\<close>

definition bytes_be :: "nat \<Rightarrow> int \<Rightarrow> int list" where
  "bytes_be n x = map (\<lambda>i. x div 256 ^ (n - 1 - i) mod 256) [0..<n]"

definition sha_pad :: "int list \<Rightarrow> int list" where
  "sha_pad bs = bs @ [128] @ replicate ((119 - length bs mod 64) mod 64) 0 @ bytes_be 8 (8 * int (length bs))"

fun words_be :: "int list \<Rightarrow> 32 word list" where
  "words_be (a # b # c # d # bs) = of_int (((a * 256 + b) * 256 + c) * 256 + d) # words_be bs"
| "words_be bs = []"

fun sha_blocks :: "nat \<Rightarrow> 32 word list \<Rightarrow> 32 word list \<Rightarrow> 32 word list" where
  "sha_blocks 0 ws st = st"
| "sha_blocks (Suc n) ws st = sha_blocks n (drop 16 ws) (sha_block (take 16 ws) st)"

definition sum256 :: "int list \<Rightarrow> int list" where
  "sum256 bs =
     (let ws = words_be (sha_pad bs)
      in concat (map (\<lambda>w. bytes_be 4 (uint w)) (sha_blocks (length ws div 16) ws sha_init)))"

subsection \<open>shortHash\<close>

definition hex_digit :: "int \<Rightarrow> char" where
  "hex_digit n = ''0123456789abcdef'' ! nat (n mod 16)"

definition encodeToString :: "int list \<Rightarrow> string" where
  "encodeToString bs = concat (map (\<lambda>b. [hex_digit (b div 16), hex_digit b]) bs)"

definition shortHash :: "string \<Rightarrow> string" where
  "shortHash s = encodeToString (take 4 (sum256 (map of_char s)))"

lemma bytes_be_length [simp]: "length (bytes_be n x) = n"
  by (simp add: bytes_be_def)

lemma sha_step_length: "length st = 8 \<Longrightarrow> length (sha_step kw st) = 8"
  by (cases "(kw, st)" rule: sha_step.cases) (auto simp: Let_def)

lemma sha_fold_length: "length st = 8 \<Longrightarrow> length (fold sha_step kws st) = 8"
  by (induction kws arbitrary: st) (auto simp: sha_step_length)

lemma sha_block_length: "length st = 8 \<Longrightarrow> length (sha_block block st) = 8"
  by (simp add: sha_block_def sha_fold_length)

lemma sha_blocks_length: "length st = 8 \<Longrightarrow> length (sha_blocks n ws st) = 8"
  by (induction n arbitrary: ws st) (auto simp: sha_block_length)

text \<open>A digest is thirty-two bytes.\<close>

lemma concat_uniform_length: "(\<And>x. x \<in> set xs \<Longrightarrow> length (f x) = k) \<Longrightarrow> length (concat (map f xs)) = k * length xs"
  by (induction xs) auto

lemma sum256_length: "length (sum256 bs) = 32"
proof -
  have "length (sha_blocks n ws sha_init) = 8" for n ws
    by (rule sha_blocks_length) (simp add: sha_init_def split_row_def)
  then show ?thesis
    by (simp add: sum256_def Let_def concat_uniform_length[where k = 4])
qed

lemma hex_digit_hex: "hex_digit n \<in> set ''0123456789abcdef''"
  unfolding hex_digit_def by (rule nth_mem) (simp add: nat_less_iff)

lemma shortHash_shape: "length (shortHash s) = 8" "set (shortHash s) \<subseteq> set ''0123456789abcdef''"
proof -
  show "length (shortHash s) = 8"
    by (simp add: shortHash_def encodeToString_def concat_uniform_length[where k = 2] sum256_length)
  show "set (shortHash s) \<subseteq> set ''0123456789abcdef''"
    unfolding shortHash_def encodeToString_def using hex_digit_hex by auto
qed

text \<open>The published test vector.\<close>

lemma shortHash_abc: "shortHash ''abc'' = ''ba7816bf''"
  by code_simp

end
