(* ===== verification/Receiver.thy ===== *)
theory Receiver
  imports Origin Sha256
begin

section \<open>The receiver controller (operator/internal/receiver)\<close>

text \<open>
  One reconcile of an MxlReceiver: find the nodes its pods run on and the node its flow comes from, keep one
  mirror per target node other than the source, release the mirrors no longer wanted, and publish the phase.
  Deletion waits for the mirrors only this receiver can account for.

  The API server's answers are the record \<open>receiver_env\<close>. A \<open>mirror_reader\<close> is one source of mirror lists, so
  that the cached and the live reader are two values of it, numbered by the look taken at it. Label selectors stay
  opaque (\<open>'sel\<close> is the selector of the spec, turned into \<open>'req\<close> by \<^verbatim>\<open>metav1.LabelSelectorAsSelector\<close>). A nil
  dereference is an error value \<open>nil_panic\<close>.
\<close>

subsection \<open>Constants\<close>

definition MxlReceiverFinalizer :: string where "MxlReceiverFinalizer = ''mxl.qvest-digital.com/receiver''"
definition ReasonReceiverPending :: string where "ReasonReceiverPending = ''ReceiverPending''"
definition ReasonReceiverBound :: string where "ReasonReceiverBound = ''ReceiverBound''"
definition ReasonMirrorReleased :: string where "ReasonMirrorReleased = ''MirrorReleased''"

definition LabelCreatedByReceiver :: string where
  "LabelCreatedByReceiver = ''mxl.qvest-digital.com/created-by-receiver''"

definition LabelCreatedByReceiverNamespace :: string where
  "LabelCreatedByReceiverNamespace = ''mxl.qvest-digital.com/created-by-receiver-namespace''"

definition errMirrorTerminating :: go_error where "errMirrorTerminating = ESentinel ''mirror is terminating''"

definition errNotMultiDomain :: go_error where
  "errNotMultiDomain = ESentinel ''gateway mirrors only the primary MXL domain''"

definition errDomainNotMirrored :: go_error where
  "errDomainNotMirrored =
     ESentinel ''not a domain mirrored by name; leave spec.domain empty for the primary domain''"

definition nil_panic :: go_error where "nil_panic = EOther ''invalid memory address or nil pointer dereference''"

subsection \<open>Environment\<close>

record Pod =
  pod_meta :: ObjectMeta
  pod_nodeName :: string

record nodeTarget =
  nt_node :: string
  nt_namespace :: string
  nt_pod :: "Pod option"

text \<open>The lists: by owner uid in a namespace, a namespace, by the receiver label in a namespace, by the receiver
  label in the cluster.\<close>

record mirror_reader =
  rd_byOwner :: "string \<Rightarrow> string \<Rightarrow> go_error + MxlFlowMirror list"
  rd_inNamespace :: "string \<Rightarrow> go_error + MxlFlowMirror list"
  rd_byLabel :: "string \<Rightarrow> string \<Rightarrow> go_error + MxlFlowMirror list"
  rd_labelled :: "string \<Rightarrow> go_error + MxlFlowMirror list"

text \<open>The merge patch of \<^verbatim>\<open>patchMirrorIfDrifted\<close>: the keys it lists.\<close>

record mirror_patch =
  mp_sourceNode :: "string option"
  mp_provider :: "MxlFabricsProvider option"
  mp_requestor :: "PodRef option"

datatype 'sel receiver_write =
    UpdateReceiver "'sel MxlReceiver"
  | UpdateReceiverStatus "'sel MxlReceiver"
  | CreateOwnedMirror MxlFlowMirror
  | UpdateOwners MxlFlowMirror
  | PatchDrifted NamespacedName mirror_patch
  | DeleteOwnedMirror NamespacedName "string option"
  | ReceiverEvent string string
  | ReleaseEvent NamespacedName string

text \<open>Which of the three retried operations reads: taking ownership, releasing it, deleting the emptied mirror.\<close>

datatype retry_stage = AtOwn | AtRelease | AtDelete

record ('sel, 'req) receiver_env =
  re_receiver :: "NamespacedName \<Rightarrow> go_error + 'sel MxlReceiver"
  re_update :: "'sel MxlReceiver \<Rightarrow> go_error + 'sel MxlReceiver"
  re_updateStatus :: "'sel MxlReceiver \<Rightarrow> go_error + 'sel MxlReceiver"
  re_pod :: "NamespacedName \<Rightarrow> go_error + Pod"
  re_selector :: "'sel \<Rightarrow> go_error + 'req"
  re_pods :: "string \<Rightarrow> 'req \<Rightarrow> go_error + Pod list"
  re_flow :: "string \<Rightarrow> go_error + MxlFlow"
  re_domain :: "string \<Rightarrow> go_error + MxlDomain"
  re_caps :: "string \<Rightarrow> go_error + MxlNodeCapabilities"
  re_client :: "nat \<Rightarrow> mirror_reader"
  re_apiReader :: "(nat \<Rightarrow> mirror_reader) option"
  re_mirror :: "nat \<Rightarrow> NamespacedName \<Rightarrow> go_error + MxlFlowMirror"
  re_live :: "retry_stage \<Rightarrow> NamespacedName \<Rightarrow> nat \<Rightarrow> go_error + MxlFlowMirror"
  re_create :: "MxlFlowMirror \<Rightarrow> go_error + MxlFlowMirror"
  re_updateMirror :: "nat \<Rightarrow> MxlFlowMirror \<Rightarrow> go_error + MxlFlowMirror"
  re_patch :: "MxlFlowMirror \<Rightarrow> mirror_patch \<Rightarrow> go_error + MxlFlowMirror"
  re_delete :: "NamespacedName \<Rightarrow> string option \<Rightarrow> nat \<Rightarrow> go_error + unit"
  re_retry :: "(nat \<Rightarrow> ('sel receiver_write, unit) io) \<Rightarrow> ('sel receiver_write, unit) io"
  re_retryRelease ::
    "(nat \<Rightarrow> ('sel receiver_write, nat \<times> string) io) \<Rightarrow> ('sel receiver_write, nat \<times> string) io"

record receiver_config =
  rc_recorder :: bool
  rc_lease :: "LeaseFreshness option"

definition liveReader :: "('sel, 'req) receiver_env \<Rightarrow> nat \<Rightarrow> mirror_reader" where
  "liveReader env = (case re_apiReader env of Some r \<Rightarrow> r | None \<Rightarrow> re_client env)"

definition released_event ::
  "receiver_config \<Rightarrow> NamespacedName \<Rightarrow> string \<Rightarrow> ('sel receiver_write, unit) io" where
  "released_event cfg key msg = (if rc_recorder cfg then io_write (ReleaseEvent key msg) (Inr ()) else io_ret ())"

subsection \<open>Targets\<close>

text \<open>The pods in list order, one target per node.\<close>

fun distinct_targets :: "string list \<Rightarrow> Pod list \<Rightarrow> nodeTarget list" where
  "distinct_targets seen [] = []"
| "distinct_targets seen (p # ps) =
     (if pod_nodeName p = '''' \<or> pod_nodeName p \<in> set seen then distinct_targets seen ps
      else \<lparr>nt_node = pod_nodeName p, nt_namespace = om_namespace (pod_meta p), nt_pod = Some p\<rparr>
           # distinct_targets (pod_nodeName p # seen) ps)"

definition resolveTargets :: "('sel, 'req) receiver_env \<Rightarrow> 'sel MxlReceiver \<Rightarrow> go_error + nodeTarget list" where
  "resolveTargets env recv =
     (case rs_podRef (recv_spec recv) of
        Some ref \<Rightarrow>
          (let ns = (if pr_namespace ref = '''' then om_namespace (recv_meta recv) else pr_namespace ref)
           in case re_pod env \<lparr>nn_namespace = ns, nn_name = pr_name ref\<rparr> of
                Inl e \<Rightarrow> if isNotFound e then Inr [] else Inl e
              | Inr pod \<Rightarrow>
                  if pod_nodeName pod = '''' then Inr []
                  else Inr [\<lparr>nt_node = pod_nodeName pod, nt_namespace = om_namespace (pod_meta pod), nt_pod = Some pod\<rparr>])
      | None \<Rightarrow>
          (case rs_podSelector (recv_spec recv) of
             None \<Rightarrow> Inr []
           | Some sel \<Rightarrow>
               (case re_selector env sel of
                  Inl e \<Rightarrow> Inl (EWrap ''invalid podSelector'' e)
                | Inr req \<Rightarrow>
                    (case re_pods env (om_namespace (recv_meta recv)) req of
                       Inl e \<Rightarrow> Inl e
                     | Inr pods \<Rightarrow> Inr (distinct_targets [] pods)))))"

definition resolveTargetNodes :: "('sel, 'req) receiver_env \<Rightarrow> 'sel MxlReceiver \<Rightarrow> go_error + string list" where
  "resolveTargetNodes env recv =
     (case resolveTargets env recv of Inl e \<Rightarrow> Inl e | Inr ts \<Rightarrow> Inr (map nt_node ts))"

subsection \<open>The source node\<close>

definition resolveSourceNode ::
  "receiver_config \<Rightarrow> ('sel, 'req) receiver_env \<Rightarrow> string \<Rightarrow> go_error + OriginResolution" where
  "resolveSourceNode cfg env flowID =
     (case re_flow env flowID of
        Inl e \<Rightarrow> if isNotFound e then Inr no_origin else Inl e
      | Inr flow \<Rightarrow> resolveOrigin (Some flow) (rc_lease cfg))"

subsection \<open>Names and owner references\<close>

definition mirrorNameForReceiver :: "'sel MxlReceiver \<Rightarrow> nodeTarget \<Rightarrow> string" where
  "mirrorNameForReceiver recv t =
     (let base = mirrorNameFor (receiver_ref recv) (nt_node t)
      in if nt_namespace t = om_namespace (recv_meta recv) then base
         else base @ ''-'' @ shortHash (om_namespace (recv_meta recv) @ ''/'' @ om_name (recv_meta recv)))"

definition target_key :: "'sel MxlReceiver \<Rightarrow> nodeTarget \<Rightarrow> NamespacedName" where
  "target_key recv t = \<lparr>nn_namespace = nt_namespace t, nn_name = mirrorNameForReceiver recv t\<rparr>"

definition ownerRefFor :: "'sel MxlReceiver \<Rightarrow> OwnerReference" where
  "ownerRefFor recv = \<lparr>or_apiVersion = groupVersion, or_kind = ''MxlReceiver'', or_name = om_name (recv_meta recv),
     or_uid = om_uid (recv_meta recv), or_controller = Some False, or_blockOwnerDeletion = Some False\<rparr>"

definition hasMxlReceiverOwner :: "MxlFlowMirror \<Rightarrow> bool" where
  "hasMxlReceiverOwner m =
     list_ex (\<lambda>own. or_kind own = ''MxlReceiver'' \<and> or_apiVersion own = groupVersion) (om_ownerReferences (mir_meta m))"

definition owned_by :: "string \<Rightarrow> MxlFlowMirror \<Rightarrow> bool" where
  "owned_by uid m = list_ex (\<lambda>own. or_uid own = uid) (om_ownerReferences (mir_meta m))"

definition set_owners :: "MxlFlowMirror \<Rightarrow> OwnerReference list \<Rightarrow> MxlFlowMirror" where
  "set_owners m owners = m\<lparr>mir_meta := (mir_meta m)\<lparr>om_ownerReferences := owners\<rparr>\<rparr>"

text \<open>What the two retried operations make of the owner list.\<close>

definition add_owner :: "OwnerReference \<Rightarrow> OwnerReference list \<Rightarrow> OwnerReference list" where
  "add_owner own owners = (if list_ex (\<lambda>x. or_uid x = or_uid own) owners then owners else owners @ [own])"

definition drop_owner :: "string \<Rightarrow> OwnerReference list \<Rightarrow> OwnerReference list" where
  "drop_owner uid owners = filter (\<lambda>own. or_uid own \<noteq> uid) owners"

text \<open>One attempt: read, leave an owner alone, otherwise append the reference and update.\<close>

definition own_attempt ::
  "('sel, 'req) receiver_env \<Rightarrow> 'sel MxlReceiver \<Rightarrow> NamespacedName \<Rightarrow> nat \<Rightarrow> ('sel receiver_write, unit) io" where
  "own_attempt env recv key i =
     (case re_live env AtOwn key i of
        Inl e \<Rightarrow> io_fail e
      | Inr live \<Rightarrow>
          if owned_by (om_uid (recv_meta recv)) live then io_ret ()
          else let live' = set_owners live (add_owner (ownerRefFor recv) (om_ownerReferences (mir_meta live)))
               in io_write (UpdateOwners live')
                    (case re_updateMirror env i live' of Inl e \<Rightarrow> Inl e | Inr _ \<Rightarrow> Inr ()))"

definition ensureOwnerRef ::
  "('sel, 'req) receiver_env \<Rightarrow> 'sel MxlReceiver \<Rightarrow> NamespacedName \<Rightarrow> ('sel receiver_write, unit) io" where
  "ensureOwnerRef env recv key = re_retry env (own_attempt env recv key)"

text \<open>One attempt of the release answers how many owners remain and, when it emptied the list, the resource
  version the update left; each attempt starts with none.\<close>

definition release_attempt ::
  "('sel, 'req) receiver_env \<Rightarrow> 'sel MxlReceiver \<Rightarrow> NamespacedName \<Rightarrow> nat \<Rightarrow> ('sel receiver_write, nat \<times> string) io" where
  "release_attempt env recv key i =
     (case re_live env AtRelease key i of
        Inl e \<Rightarrow> if isNotFound e then io_ret (0, '''') else io_fail e
      | Inr live \<Rightarrow>
          let kept = drop_owner (om_uid (recv_meta recv)) (om_ownerReferences (mir_meta live))
          in if \<not> owned_by (om_uid (recv_meta recv)) live then io_ret (length (om_ownerReferences (mir_meta live)), '''')
             else io_write (UpdateOwners (set_owners live kept))
                    (case re_updateMirror env i (set_owners live kept) of
                       Inl e \<Rightarrow> Inl e
                     | Inr live' \<Rightarrow> Inr (length kept, if length kept = 0 then om_resourceVersion (mir_meta live') else '''')))"

text \<open>The resource version an attempt to delete uses: the one handed in, then the one the latest re-read saw.\<close>

primrec version_at :: "('sel, 'req) receiver_env \<Rightarrow> NamespacedName \<Rightarrow> string \<Rightarrow> nat \<Rightarrow> string" where
  "version_at env key rv 0 = rv"
| "version_at env key rv (Suc i) =
     (case re_live env AtDelete key i of
        Inl _ \<Rightarrow> version_at env key rv i
      | Inr live \<Rightarrow> om_resourceVersion (mir_meta live))"

definition delete_attempt ::
  "receiver_config \<Rightarrow> ('sel, 'req) receiver_env \<Rightarrow> NamespacedName \<Rightarrow> string \<Rightarrow> nat \<Rightarrow> ('sel receiver_write, unit) io" where
  "delete_attempt cfg env key rv0 i =
     (let rv = version_at env key rv0 i
      in io_bind (released_event cfg key ''Deleting: the last MxlReceiver owning this mirror released it'') (\<lambda>_.
         io_write (DeleteOwnedMirror key (Some rv))
           (case re_delete env key (Some rv) i of
              Inr _ \<Rightarrow> Inr ()
            | Inl e \<Rightarrow>
                if isNotFound e then Inr ()
                else if \<not> isConflict e then Inl (EWrap ''delete orphaned mirror'' e)
                else case re_live env AtDelete key i of
                       Inl ge \<Rightarrow> if isNotFound ge then Inr () else Inl (EWrap ''re-read mirror after delete conflict'' ge)
                     | Inr live \<Rightarrow> if 0 < length (om_ownerReferences (mir_meta live)) then Inr () else Inl e)))"

definition deleteIfStillEmpty ::
  "receiver_config \<Rightarrow> ('sel, 'req) receiver_env \<Rightarrow> NamespacedName \<Rightarrow> string \<Rightarrow> ('sel receiver_write, unit) io" where
  "deleteIfStillEmpty cfg env key rv = re_retry env (delete_attempt cfg env key rv)"

definition removeOwnerRef ::
  "receiver_config \<Rightarrow> ('sel, 'req) receiver_env \<Rightarrow> 'sel MxlReceiver \<Rightarrow> NamespacedName \<Rightarrow> ('sel receiver_write, unit) io" where
  "removeOwnerRef cfg env recv key =
     io_bind (re_retryRelease env (release_attempt env recv key)) (\<lambda>(left, deleteRV).
     if deleteRV \<noteq> '''' then deleteIfStillEmpty cfg env key deleteRV else io_ret ())"

subsection \<open>The mirrors a receiver owns\<close>

definition isFieldIndexUnsupported :: "go_error \<Rightarrow> bool" where
  "isFieldIndexUnsupported e = contains ''field label not supported'' (error_text e)"

text \<open>The mirrors whose name was not seen before, in order.\<close>

fun unseen :: "string list \<Rightarrow> MxlFlowMirror list \<Rightarrow> MxlFlowMirror list" where
  "unseen seen [] = []"
| "unseen seen (m # ms) =
     (if om_name (mir_meta m) \<in> set seen then unseen seen ms
      else m # unseen (om_name (mir_meta m) # seen) ms)"

definition listed_by_ref :: "mirror_reader \<Rightarrow> 'sel MxlReceiver \<Rightarrow> go_error + MxlFlowMirror list" where
  "listed_by_ref rd recv =
     (let ns = om_namespace (recv_meta recv); uid = om_uid (recv_meta recv)
      in case rd_byOwner rd ns uid of
           Inr ms \<Rightarrow> Inr (unseen [] ms)
         | Inl e \<Rightarrow>
             if isFieldIndexUnsupported e
             then (case rd_inNamespace rd ns of Inl e' \<Rightarrow> Inl e' | Inr ms \<Rightarrow> Inr (unseen [] (filter (owned_by uid) ms)))
             else Inl e)"

definition listOwnedSameNsMirrorsFrom :: "mirror_reader \<Rightarrow> 'sel MxlReceiver \<Rightarrow> go_error + MxlFlowMirror list" where
  "listOwnedSameNsMirrorsFrom rd recv =
     (case listed_by_ref rd recv of
        Inl e \<Rightarrow> Inl e
      | Inr refs \<Rightarrow>
          (case rd_byLabel rd (om_namespace (recv_meta recv)) (om_name (recv_meta recv)) of
             Inl e \<Rightarrow> Inl e
           | Inr labelled \<Rightarrow>
               Inr (refs @ unseen (map (\<lambda>m. om_name (mir_meta m)) refs)
                             (filter (\<lambda>m. \<not> hasMxlReceiverOwner m) labelled))))"

definition label_value :: "(string \<times> string) list \<Rightarrow> string \<Rightarrow> string" where
  "label_value labels k = (case map_of labels k of None \<Rightarrow> '''' | Some v \<Rightarrow> v)"

definition listOwnedCrossNsMirrorsFrom :: "mirror_reader \<Rightarrow> 'sel MxlReceiver \<Rightarrow> go_error + MxlFlowMirror list" where
  "listOwnedCrossNsMirrorsFrom rd recv =
     (case rd_labelled rd (om_name (recv_meta recv)) of
        Inl e \<Rightarrow> Inl e
      | Inr ms \<Rightarrow>
          Inr (filter (\<lambda>m. om_namespace (mir_meta m) \<noteq> om_namespace (recv_meta recv) \<and>
                 label_value (om_labels (mir_meta m)) LabelCreatedByReceiverNamespace = om_namespace (recv_meta recv)) ms))"

text \<open>The deletion of a cross-namespace mirror, announced first; one already gone is deleted.\<close>

definition delete_cross ::
  "receiver_config \<Rightarrow> ('sel, 'req) receiver_env \<Rightarrow> string \<Rightarrow> string \<Rightarrow> MxlFlowMirror \<Rightarrow> ('sel receiver_write, unit) io" where
  "delete_cross cfg env msg what m =
     (let key = objectKey (mir_meta m)
      in io_bind (released_event cfg key msg) (\<lambda>_.
         io_write (DeleteOwnedMirror key None)
           (case ignoreNotFound (re_delete env key None 0) of
              Inl e \<Rightarrow> Inl (EWrap (what @ nn_namespace key @ ''/'' @ nn_name key) e)
            | Inr _ \<Rightarrow> Inr ())))"

type_synonym desired_set = "(NamespacedName \<times> nodeTarget) list"

definition kept_mirror :: "desired_set \<Rightarrow> MxlFlowMirror \<Rightarrow> bool" where
  "kept_mirror desired m \<longleftrightarrow>
     om_deletionTimestamp (mir_meta m) \<noteq> 0 \<or> map_of desired (objectKey (mir_meta m)) \<noteq> None"

definition release_same ::
  "receiver_config \<Rightarrow> ('sel, 'req) receiver_env \<Rightarrow> 'sel MxlReceiver \<Rightarrow> desired_set \<Rightarrow> MxlFlowMirror \<Rightarrow> ('sel receiver_write, unit) io" where
  "release_same cfg env recv desired m =
     (let key = objectKey (mir_meta m)
      in if kept_mirror desired m then io_ret ()
         else io_wrap (''remove owner ref from orphan mirror '' @ nn_namespace key @ ''/'' @ nn_name key)
                (removeOwnerRef cfg env recv key))"

definition release_cross ::
  "receiver_config \<Rightarrow> ('sel, 'req) receiver_env \<Rightarrow> desired_set \<Rightarrow> MxlFlowMirror \<Rightarrow> ('sel receiver_write, unit) io" where
  "release_cross cfg env desired m =
     (if kept_mirror desired m then io_ret ()
      else delete_cross cfg env ''Deleting: no target of the requesting MxlReceiver needs this mirror''
             ''delete orphan cross-ns mirror '' m)"

definition gcOrphanMirrors ::
  "receiver_config \<Rightarrow> ('sel, 'req) receiver_env \<Rightarrow> 'sel MxlReceiver \<Rightarrow> desired_set \<Rightarrow> ('sel receiver_write, unit) io" where
  "gcOrphanMirrors cfg env recv desired =
     io_bind (io_read (listOwnedSameNsMirrorsFrom (re_client env 0) recv)) (\<lambda>sameNs.
     io_bind (io_each (release_same cfg env recv desired) sameNs) (\<lambda>_.
     io_bind (io_read (listOwnedCrossNsMirrorsFrom (re_client env 0) recv)) (\<lambda>crossNs.
     io_each (release_cross cfg env desired) crossNs)))"

subsection \<open>The mirror of one target\<close>

definition receiver_nodeCapabilities ::
  "('sel, 'req) receiver_env \<Rightarrow> string \<Rightarrow> go_error + MxlNodeCapabilitiesStatus" where
  "receiver_nodeCapabilities env node =
     (case re_caps env node of
        Inl e \<Rightarrow> if isNotFound e then Inr empty_caps else Inl e
      | Inr caps \<Rightarrow> Inr (caps_status caps))"

definition receiver_resolveProvider ::
  "meta_api \<Rightarrow> ('sel, 'req) receiver_env \<Rightarrow> 'sel MxlReceiver \<Rightarrow> string \<Rightarrow> string \<Rightarrow> go_error + MxlFabricsProvider" where
  "receiver_resolveProvider M env recv sourceNode targetNode =
     (let p = rs_provider (recv_spec recv)
      in if p \<noteq> ProviderUnset \<and> p \<noteq> ProviderAuto then Inr p
         else case receiver_nodeCapabilities env sourceNode of
                Inl e \<Rightarrow> Inl (EWrap ''source node capabilities'' e)
              | Inr srcCaps \<Rightarrow>
              case receiver_nodeCapabilities env targetNode of
                Inl e \<Rightarrow> Inl (EWrap ''target node capabilities'' e)
              | Inr tgtCaps \<Rightarrow> Inr (fst (resolve M srcCaps tgtCaps)))"

text \<open>A directory admitted by the API has no character \<^verbatim>\<open>%q\<close> would escape.\<close>

definition requireMirroredDomain :: "('sel, 'req) receiver_env \<Rightarrow> string \<Rightarrow> go_error + unit" where
  "requireMirroredDomain env name =
     (case re_domain env name of
        Inl e \<Rightarrow> if isNotFound e then Inl (EWrap (''MxlDomain '' @ name) errDomainNotMirrored) else Inl e
      | Inr d \<Rightarrow>
          if ds_directory (dom_spec d) \<noteq> ''''
          then Inl (EWrap (''MxlDomain '' @ name @ '' has its own directory '' @ [CHR 0x22] @ ds_directory (dom_spec d) @ [CHR 0x22])
                      errDomainNotMirrored)
          else Inr ())"

fun requireMultiDomain :: "('sel, 'req) receiver_env \<Rightarrow> string list \<Rightarrow> go_error + unit" where
  "requireMultiDomain env [] = Inr ()"
| "requireMultiDomain env (node # nodes) =
     (case receiver_nodeCapabilities env node of
        Inl e \<Rightarrow> Inl (EWrap (''node '' @ node @ '' capabilities'') e)
      | Inr caps \<Rightarrow>
          if \<not> nc_multiDomain caps then Inl (EWrap (''node '' @ node) errNotMultiDomain)
          else requireMultiDomain env nodes)"

definition samePodRef :: "PodRef option \<Rightarrow> PodRef option \<Rightarrow> bool" where
  "samePodRef a b =
     (case (a, b) of
        (Some x, Some y) \<Rightarrow> pr_name x = pr_name y \<and> pr_namespace x = pr_namespace y \<and> pr_uid x = pr_uid y
      | (None, None) \<Rightarrow> True
      | _ \<Rightarrow> False)"

definition drift :: "MxlFlowMirror \<Rightarrow> string \<Rightarrow> MxlFabricsProvider \<Rightarrow> PodRef option \<Rightarrow> mirror_patch" where
  "drift m sourceNode provider requestor =
     \<lparr>mp_sourceNode = (if ms_sourceNode (mir_spec m) \<noteq> sourceNode then Some sourceNode else None),
      mp_provider = (if ms_provider (mir_spec m) \<noteq> provider then Some provider else None),
      mp_requestor = (if requestor \<noteq> None \<and> \<not> samePodRef (ms_requestor (mir_spec m)) requestor then requestor else None)\<rparr>"

definition no_patch :: mirror_patch where
  "no_patch = \<lparr>mp_sourceNode = None, mp_provider = None, mp_requestor = None\<rparr>"

definition patchMirrorIfDrifted ::
  "('sel, 'req) receiver_env \<Rightarrow> MxlFlowMirror \<Rightarrow> string \<Rightarrow> MxlFabricsProvider \<Rightarrow> PodRef option \<Rightarrow> ('sel receiver_write, MxlFlowMirror) io" where
  "patchMirrorIfDrifted env m sourceNode provider requestor =
     (let p = drift m sourceNode provider requestor; key = objectKey (mir_meta m)
      in if p = no_patch then io_ret m
         else io_wrap (''patch mirror '' @ nn_namespace key @ ''/'' @ nn_name key)
                (io_write (PatchDrifted key p) (re_patch env m p)))"

text \<open>The two places where \<^verbatim>\<open>ensureMirror\<close> meets an existing mirror run the same statements.\<close>

definition adopt ::
  "('sel, 'req) receiver_env \<Rightarrow> 'sel MxlReceiver \<Rightarrow> bool \<Rightarrow> MxlFlowMirror \<Rightarrow> string \<Rightarrow> MxlFabricsProvider \<Rightarrow> PodRef option \<Rightarrow>
   ('sel receiver_write, MxlFlowMirror) io" where
  "adopt env recv sameNs existing sourceNode provider requestor =
     (let key = objectKey (mir_meta existing)
      in if om_deletionTimestamp (mir_meta existing) \<noteq> 0 then io_fail errMirrorTerminating
         else io_bind (if sameNs then io_wrap (''ensure owner ref on '' @ nn_namespace key @ ''/'' @ nn_name key)
                                        (ensureOwnerRef env recv key)
                       else io_ret ())
                (\<lambda>_. patchMirrorIfDrifted env existing sourceNode provider requestor))"

definition target_requestor :: "bool \<Rightarrow> nodeTarget \<Rightarrow> PodRef option" where
  "target_requestor sameNs t =
     (case nt_pod t of
        None \<Rightarrow> None
      | Some pod \<Rightarrow>
          if sameNs then None
          else Some \<lparr>pr_name = om_name (pod_meta pod), pr_namespace = om_namespace (pod_meta pod), pr_uid = om_uid (pod_meta pod)\<rparr>)"

text \<open>The object handed to the create call; the fields the server fills in are zero.\<close>

definition new_meta :: "string \<Rightarrow> string \<Rightarrow> (string \<times> string) list \<Rightarrow> OwnerReference list \<Rightarrow> ObjectMeta" where
  "new_meta ns name labels owners = \<lparr>om_namespace = ns, om_name = name, om_uid = '''', om_resourceVersion = '''',
     om_generation = 0, om_creationTimestamp = 0, om_deletionTimestamp = 0, om_labels = labels,
     om_ownerReferences = owners, om_finalizers = []\<rparr>"

definition new_mirror_status :: MxlFlowMirrorStatus where
  "new_mirror_status = \<lparr>mst_phase = MirrorPhaseUnset, mst_targetInfo = '''', mst_targetMaxSyncBatchSizeHint = 0,
     mst_observedGeneration = 0, mst_conditions = [], mst_lastGrainAt = None, mst_lastSentAt = None, mst_lastError = '''',
     mst_sourceRetargetedAt = None, mst_previousSourceNode = '''', mst_attemptCount = 0, mst_targetAttemptCount = 0,
     mst_sourceInterface = '''', mst_targetInterface = '''', mst_demandBitsPerSecond = 0\<rparr>"

definition desired_mirror ::
  "'sel MxlReceiver \<Rightarrow> string \<Rightarrow> nodeTarget \<Rightarrow> MxlFabricsProvider \<Rightarrow> MxlFlowMirror" where
  "desired_mirror recv sourceNode t provider =
     (let sameNs = (nt_namespace t = om_namespace (recv_meta recv))
      in \<lparr>mir_meta = new_meta (nt_namespace t) (mirrorNameForReceiver recv t)
            ((LabelCreatedByReceiver, om_name (recv_meta recv)) #
             (if sameNs then [] else [(LabelCreatedByReceiverNamespace, om_namespace (recv_meta recv))]))
            (if sameNs then [ownerRefFor recv] else []),
          mir_spec = \<lparr>ms_flowID = rs_flowID (recv_spec recv), ms_domain = rs_domain (recv_spec recv),
            ms_sourceNode = sourceNode, ms_targetNode = nt_node t, ms_provider = provider,
            ms_requestor = target_requestor sameNs t, ms_placement = None\<rparr>,
          mir_status = new_mirror_status\<rparr>)"

definition domain_check :: "('sel, 'req) receiver_env \<Rightarrow> 'sel MxlReceiver \<Rightarrow> string \<Rightarrow> nodeTarget \<Rightarrow> go_error + unit" where
  "domain_check env recv sourceNode t =
     (if rs_domain (recv_spec recv) = '''' then Inr ()
      else case requireMirroredDomain env (rs_domain (recv_spec recv)) of
             Inl e \<Rightarrow> Inl e
           | Inr _ \<Rightarrow> requireMultiDomain env [sourceNode, nt_node t])"

definition ensureMirror ::
  "meta_api \<Rightarrow> ('sel, 'req) receiver_env \<Rightarrow> 'sel MxlReceiver \<Rightarrow> string \<Rightarrow> nodeTarget \<Rightarrow> ('sel receiver_write, MxlFlowMirror) io" where
  "ensureMirror M env recv sourceNode t =
     io_bind (io_read (domain_check env recv sourceNode t)) (\<lambda>_.
     io_bind (io_read (receiver_resolveProvider M env recv sourceNode (nt_node t))) (\<lambda>provider.
     let sameNs = (nt_namespace t = om_namespace (recv_meta recv));
         requestor = target_requestor sameNs t; key = target_key recv t
     in case re_mirror env 0 key of
          Inr existing \<Rightarrow> adopt env recv sameNs existing sourceNode provider requestor
        | Inl e \<Rightarrow>
            if \<not> isNotFound e then io_fail e
            else io_try (io_write (CreateOwnedMirror (desired_mirror recv sourceNode t provider))
                          (re_create env (desired_mirror recv sourceNode t provider)))
                   (\<lambda>created. case created of
                      Inr m \<Rightarrow> io_ret m
                    | Inl ce \<Rightarrow>
                        if isAlreadyExists ce
                        then io_bind (io_read (re_mirror env 1 key))
                               (\<lambda>existing. adopt env recv sameNs existing sourceNode provider requestor)
                        else io_fail ce)))"

subsection \<open>Status\<close>

definition with_status :: "'sel MxlReceiver \<Rightarrow> MxlReceiverStatus \<Rightarrow> 'sel MxlReceiver" where
  "with_status recv st = recv\<lparr>recv_status := st\<rparr>"

definition receiver_event :: "receiver_config \<Rightarrow> string \<Rightarrow> string \<Rightarrow> ('sel receiver_write, unit) io" where
  "receiver_event cfg reason msg = (if rc_recorder cfg then io_write (ReceiverEvent reason msg) (Inr ()) else io_ret ())"

definition markPending ::
  "receiver_config \<Rightarrow> ('sel, 'req) receiver_env \<Rightarrow> 'sel MxlReceiver \<Rightarrow> string \<Rightarrow> ('sel receiver_write, Result) io" where
  "markPending cfg env recv reason =
     io_bind
       (if rst_phase (recv_status recv) \<noteq> MxlReceiverPending
        then io_bind (receiver_event cfg ReasonReceiverPending (''Not bound: '' @ reason)) (\<lambda>_.
             let recv' = with_status recv ((recv_status recv)\<lparr>rst_phase := MxlReceiverPending,
                            rst_observedGeneration := om_generation (recv_meta recv)\<rparr>)
             in io_bind (io_write (UpdateReceiverStatus recv') (re_updateStatus env recv')) (\<lambda>_. io_ret ()))
        else io_ret ())
       (\<lambda>_. io_ret (after (10 * second)))"

text \<open>The event formats the fields of \<^verbatim>\<open>primary\<close> whether or not it is nil.\<close>

definition markBound ::
  "receiver_config \<Rightarrow> ('sel, 'req) receiver_env \<Rightarrow> 'sel MxlReceiver \<Rightarrow> MirrorRef option \<Rightarrow> ('sel receiver_write, Result) io" where
  "markBound cfg env recv primary =
     io_bind
       (if rc_recorder cfg \<and> rst_phase (recv_status recv) \<noteq> MxlReceiverBound
        then (case primary of
                None \<Rightarrow> io_fail nil_panic
              | Some p \<Rightarrow> receiver_event cfg ReasonReceiverBound (''Bound to mirror '' @ mr_namespace p @ ''/'' @ mr_name p))
        else io_ret ())
       (\<lambda>_. let recv' = with_status recv ((recv_status recv)\<lparr>rst_boundMirror := primary, rst_phase := MxlReceiverBound,
                            rst_observedGeneration := om_generation (recv_meta recv)\<rparr>)
            in io_bind (io_write (UpdateReceiverStatus recv') (re_updateStatus env recv')) (\<lambda>_. io_ret no_requeue))"

subsection \<open>Deletion\<close>

definition with_finalizers :: "'sel MxlReceiver \<Rightarrow> string list \<Rightarrow> 'sel MxlReceiver" where
  "with_finalizers recv fs = recv\<lparr>recv_meta := (recv_meta recv)\<lparr>om_finalizers := fs\<rparr>\<rparr>"

definition handleDeletion ::
  "receiver_config \<Rightarrow> ('sel, 'req) receiver_env \<Rightarrow> 'sel MxlReceiver \<Rightarrow> ('sel receiver_write, Result) io" where
  "handleDeletion cfg env recv =
     (if MxlReceiverFinalizer \<notin> set (om_finalizers (recv_meta recv)) then io_ret no_requeue
      else
        io_bind (io_wrap ''list cross-ns owned mirrors'' (io_read (listOwnedCrossNsMirrorsFrom (liveReader env 0) recv))) (\<lambda>crossNs.
        io_bind (io_each (\<lambda>m. if om_deletionTimestamp (mir_meta m) \<noteq> 0 then io_ret ()
                              else delete_cross cfg env ''Deleting: the requesting MxlReceiver is going away''
                                     ''delete cross-ns mirror '' m) crossNs) (\<lambda>_.
        io_bind (io_wrap ''re-list cross-ns owned mirrors'' (io_read (listOwnedCrossNsMirrorsFrom (liveReader env 1) recv))) (\<lambda>left.
        if 0 < length left then io_ret (after (2 * second))
        else let recv' = with_finalizers recv (filter (\<lambda>f. f \<noteq> MxlReceiverFinalizer) (om_finalizers (recv_meta recv)))
             in io_write (UpdateReceiver recv')
                  (case re_update env recv' of
                     Inr _ \<Rightarrow> Inr no_requeue
                   | Inl e \<Rightarrow> if isConflict e \<or> isNotFound e then Inr no_requeue else Inl (EWrap ''remove finalizer'' e))))))"

subsection \<open>Reconcile\<close>

definition desired_of :: "'sel MxlReceiver \<Rightarrow> string \<Rightarrow> nodeTarget list \<Rightarrow> desired_set" where
  "desired_of recv sourceNode targets =
     map (\<lambda>t. (target_key recv t, t)) (filter (\<lambda>t. nt_node t \<noteq> sourceNode) targets)"

text \<open>How the loop over the targets ends: pending for a reason no retry helps, or with the first mirror and
  whether a mirror was found terminating.\<close>

datatype ensured = EnsurePending string | Ensured "MirrorRef option" bool

fun ensure_targets ::
  "meta_api \<Rightarrow> ('sel, 'req) receiver_env \<Rightarrow> 'sel MxlReceiver \<Rightarrow> string \<Rightarrow> nodeTarget list \<Rightarrow> MirrorRef option \<Rightarrow> bool \<Rightarrow>
   ('sel receiver_write, ensured) io" where
  "ensure_targets M env recv sourceNode [] primary terminating = io_ret (Ensured primary terminating)"
| "ensure_targets M env recv sourceNode (t # ts) primary terminating =
     (if nt_node t = sourceNode then ensure_targets M env recv sourceNode ts primary terminating
      else io_try (ensureMirror M env recv sourceNode t) (\<lambda>r.
        case r of
          Inl e \<Rightarrow>
            if errorIs e errMirrorTerminating then ensure_targets M env recv sourceNode ts primary True
            else if errorIs e errNotMultiDomain \<or> errorIs e errDomainNotMirrored then io_ret (EnsurePending (error_text e))
            else io_fail (EWrap (''ensure mirror for '' @ nt_node t @ '' in '' @ nt_namespace t) e)
        | Inr m \<Rightarrow>
            ensure_targets M env recv sourceNode ts
              (case primary of
                 None \<Rightarrow> Some \<lparr>mr_name = om_name (mir_meta m), mr_namespace = om_namespace (mir_meta m)\<rparr>
               | Some p \<Rightarrow> Some p) terminating))"

definition wake_at_deadline :: "time \<Rightarrow> OriginResolution \<Rightarrow> Result \<Rightarrow> Result" where
  "wake_at_deadline now res result =
     (if res_deadline res = 0 then result
      else let wake = add64 (time_sub (res_deadline res) now) second
           in if 0 < wake \<and> (requeueAfter result = 0 \<or> wake < requeueAfter result)
              then result\<lparr>requeueAfter := wake\<rparr> else result)"

definition unresolved_reason :: "OriginResolution \<Rightarrow> string" where
  "unresolved_reason res =
     (if res_allStale res then ''all Origin locations have an expired Lease''
      else ''MxlFlow not yet known or no Origin location'')"

definition bind_receiver ::
  "receiver_config \<Rightarrow> meta_api \<Rightarrow> ('sel, 'req) receiver_env \<Rightarrow> time \<Rightarrow> 'sel MxlReceiver \<Rightarrow> nodeTarget list \<Rightarrow> OriginResolution \<Rightarrow>
   ('sel receiver_write, Result) io" where
  "bind_receiver cfg M env now recv targets res =
     io_bind (io_wrap ''gc orphan mirrors'' (gcOrphanMirrors cfg env recv (desired_of recv (res_node res) targets))) (\<lambda>_.
     io_bind (ensure_targets M env recv (res_node res) targets None False) (\<lambda>outcome.
     case outcome of
       EnsurePending reason \<Rightarrow> markPending cfg env recv reason
     | Ensured primary terminating \<Rightarrow>
         if terminating then markPending cfg env recv ''mirror for a target is still terminating''
         else io_bind (markBound cfg env recv primary) (\<lambda>result. io_ret (wake_at_deadline now res result))))"

definition reconcile_live ::
  "receiver_config \<Rightarrow> meta_api \<Rightarrow> ('sel, 'req) receiver_env \<Rightarrow> time \<Rightarrow> 'sel MxlReceiver \<Rightarrow> ('sel receiver_write, Result) io" where
  "reconcile_live cfg M env now recv =
     io_bind (io_wrap ''resolve targets'' (io_read (resolveTargets env recv))) (\<lambda>targets.
     io_bind (io_wrap ''resolve source node'' (io_read (resolveSourceNode cfg env (flowref_name (receiver_ref recv))))) (\<lambda>res.
     if length targets = 0
     then io_bind (io_wrap ''gc orphan mirrors'' (gcOrphanMirrors cfg env recv []))
            (\<lambda>_. markPending cfg env recv ''no target pods scheduled yet'')
     else if \<not> res_found res then markPending cfg env recv (unresolved_reason res)
     else bind_receiver cfg M env now recv targets res))"

definition reconcile_receiver ::
  "receiver_config \<Rightarrow> meta_api \<Rightarrow> ('sel, 'req) receiver_env \<Rightarrow> time \<Rightarrow> NamespacedName \<Rightarrow> ('sel receiver_write, Result) io" where
  "reconcile_receiver cfg M env now key =
     (case re_receiver env key of
        Inl e \<Rightarrow> if isNotFound e then io_ret no_requeue else io_fail e
      | Inr recv \<Rightarrow>
          if om_deletionTimestamp (recv_meta recv) \<noteq> 0 then handleDeletion cfg env recv
          else if MxlReceiverFinalizer \<in> set (om_finalizers (recv_meta recv)) then reconcile_live cfg M env now recv
          else let recv' = with_finalizers recv (om_finalizers (recv_meta recv) @ [MxlReceiverFinalizer])
               in io_try (io_write (UpdateReceiver recv') (re_update env recv')) (\<lambda>r.
                    case r of
                      Inl e \<Rightarrow> if isConflict e then io_ret again else io_fail (EWrap ''add finalizer'' e)
                    | Inr recv'' \<Rightarrow> reconcile_live cfg M env now recv''))"

subsection \<open>What wakes a receiver\<close>

definition receiver_key :: "'sel MxlReceiver \<Rightarrow> NamespacedName" where
  "receiver_key r = objectKey (recv_meta r)"

text \<open>The index key of \<^verbatim>\<open>spec.flowID\<close>; the receivers under it are what the indexed list returns.\<close>

definition flow_index :: "'sel MxlReceiver \<Rightarrow> string list" where
  "flow_index r = (if rs_flowID (recv_spec r) = '''' then [] else [flowref_name (receiver_ref r)])"

definition owner_index :: "MxlFlowMirror \<Rightarrow> string list" where
  "owner_index m = map or_uid (om_ownerReferences (mir_meta m))"

definition mirrorToReceivers :: "(string \<Rightarrow> go_error + 'sel MxlReceiver list) \<Rightarrow> MxlFlowMirror \<Rightarrow> NamespacedName list" where
  "mirrorToReceivers inNamespace m =
     enqueue receiver_key (inNamespace (om_namespace (mir_meta m))) (\<lambda>r. receiver_ref r = mirror_ref m)"

definition podToReceivers :: "(string \<Rightarrow> go_error + 'sel MxlReceiver list) \<Rightarrow> Pod \<Rightarrow> NamespacedName list" where
  "podToReceivers inNamespace p = enqueue receiver_key (inNamespace (om_namespace (pod_meta p))) (\<lambda>_. True)"

definition flowToReceivers :: "(string \<Rightarrow> go_error + 'sel MxlReceiver list) \<Rightarrow> MxlFlow \<Rightarrow> NamespacedName list" where
  "flowToReceivers byFlow f = enqueue receiver_key (byFlow (flowref_name (flow_ref f))) (\<lambda>_. True)"

definition leaseToReceivers :: "(string \<Rightarrow> go_error + 'sel MxlReceiver list) \<Rightarrow> string \<Rightarrow> NamespacedName list" where
  "leaseToReceivers byFlow lease =
     (case parseLeaseNameFor lease of (ref, _, ok) \<Rightarrow>
        if \<not> ok then [] else enqueue receiver_key (byFlow (flowref_name ref)) (\<lambda>_. True))"

definition leaseInMxlSystem :: "ObjectMeta \<Rightarrow> bool" where
  "leaseInMxlSystem m \<longleftrightarrow> om_namespace m = leaseNamespace"

definition systemNamespacesDenied :: "string list" where
  "systemNamespacesDenied = [''kube-system'', ''kube-public'', ''kube-node-lease'']"

definition receiver_isSystemNamespace :: "string \<Rightarrow> bool" where
  "receiver_isSystemNamespace ns \<longleftrightarrow> ns \<in> set systemNamespacesDenied"

datatype placed_pod_event = PlacedCreate Pod | PlacedDelete Pod | PlacedGeneric Pod | PlacedUpdate Pod Pod

fun podNodeChangePredicate :: "placed_pod_event \<Rightarrow> bool" where
  "podNodeChangePredicate (PlacedCreate p) = (\<not> receiver_isSystemNamespace (om_namespace (pod_meta p)))"
| "podNodeChangePredicate (PlacedDelete p) = (\<not> receiver_isSystemNamespace (om_namespace (pod_meta p)))"
| "podNodeChangePredicate (PlacedGeneric p) = False"
| "podNodeChangePredicate (PlacedUpdate old new) =
     (\<not> receiver_isSystemNamespace (om_namespace (pod_meta new)) \<and> pod_nodeName old \<noteq> pod_nodeName new)"

subsection \<open>Editing the owner list\<close>

text \<open>
  Several receivers co-own a mirror, each editing the owner list it read. What makes that safe is a contract on
  the edit: it never changes which other uids the list names. The two edits of the controller satisfy it, and
  any sequence of edits by other receivers leaves a receiver's own claim standing.
\<close>

definition others :: "string \<Rightarrow> OwnerReference list \<Rightarrow> OwnerReference list" where
  "others uid owners = filter (\<lambda>own. or_uid own \<noteq> uid) owners"

definition names_uid :: "string \<Rightarrow> OwnerReference list \<Rightarrow> bool" where
  "names_uid uid owners \<longleftrightarrow> uid \<in> or_uid ` set owners"

locale owner_edit =
  fixes edit :: "'r \<Rightarrow> OwnerReference list \<Rightarrow> OwnerReference list" and uid_of :: "'r \<Rightarrow> string"
  assumes edit_others: "others (uid_of r) (edit r owners) = others (uid_of r) owners"
begin

lemma edit_keeps: "u \<noteq> uid_of r \<Longrightarrow> names_uid u (edit r owners) = names_uid u owners"
proof -
  assume u: "u \<noteq> uid_of r"
  have "names_uid u xs = names_uid u (others (uid_of r) xs)" for xs
    using u by (auto simp: names_uid_def others_def)
  from this[of "edit r owners"] this[of owners] show ?thesis by (simp add: edit_others)
qed

lemma edits_keep: "u \<notin> uid_of ` set rs \<Longrightarrow> names_uid u (fold edit rs owners) = names_uid u owners"
  by (induction rs arbitrary: owners) (simp_all add: edit_keeps)

end

interpretation taking: owner_edit add_owner or_uid
  by unfold_locales (simp add: add_owner_def others_def)

interpretation releasing: owner_edit drop_owner id
  by unfold_locales (simp add: drop_owner_def others_def)

lemma names_uid_owned: "names_uid uid (om_ownerReferences (mir_meta m)) \<longleftrightarrow> owned_by uid m"
  by (auto simp: names_uid_def owned_by_def list_ex_iff)

lemma drop_owner_gone [simp]: "\<not> names_uid uid (drop_owner uid owners)"
  by (auto simp: names_uid_def drop_owner_def)

lemma add_owner_present [simp]: "names_uid (or_uid own) (add_owner own owners)"
  by (auto simp: names_uid_def add_owner_def list_ex_iff intro: rev_image_eqI)

subsection \<open>Which writes each operation makes\<close>

text \<open>The mirror a write is aimed at.\<close>

fun touched :: "'sel receiver_write \<Rightarrow> NamespacedName option" where
  "touched (CreateOwnedMirror m) = Some (objectKey (mir_meta m))"
| "touched (UpdateOwners m) = Some (objectKey (mir_meta m))"
| "touched (PatchDrifted key p) = Some key"
| "touched (DeleteOwnedMirror key v) = Some key"
| "touched _ = None"

lemma released_event_writes [simp]:
  "w \<in> set (fst (released_event cfg key msg)) \<longleftrightarrow> rc_recorder cfg \<and> w = ReleaseEvent key msg"
  "snd (released_event cfg key msg) = Inr ()"
  by (auto simp: released_event_def)

lemma receiver_event_writes [simp]:
  "w \<in> set (fst (receiver_event cfg reason msg)) \<longleftrightarrow> rc_recorder cfg \<and> w = ReceiverEvent reason msg"
  "snd (receiver_event cfg reason msg) = Inr ()"
  by (auto simp: receiver_event_def)

lemma markPending_writes:
  "w \<in> set (fst (markPending cfg env recv reason)) \<Longrightarrow>
   (\<exists>msg. w = ReceiverEvent ReasonReceiverPending msg) \<or>
   (\<exists>r. w = UpdateReceiverStatus r \<and> rst_phase (recv_status r) = MxlReceiverPending)"
  by (auto simp: markPending_def io_bind_writes_iff with_status_def Let_def split: if_splits)

lemma markPending_answer: "snd (markPending cfg env recv reason) = Inr r \<Longrightarrow> r = after (10 * second)"
  unfolding markPending_def by (auto elim!: io_bind_okE)

lemma markBound_writes:
  "w \<in> set (fst (markBound cfg env recv primary)) \<Longrightarrow>
   (\<exists>msg. w = ReceiverEvent ReasonReceiverBound msg) \<or>
   w = UpdateReceiverStatus (with_status recv ((recv_status recv)\<lparr>rst_boundMirror := primary, rst_phase := MxlReceiverBound,
         rst_observedGeneration := om_generation (recv_meta recv)\<rparr>))"
  by (auto simp: markBound_def io_bind_writes_iff Let_def split: if_splits option.splits)

lemma own_attempt_writes:
  "w \<in> set (fst (own_attempt env recv key i)) \<Longrightarrow>
   \<exists>m. re_live env AtOwn key i = Inr m \<and> \<not> owned_by (om_uid (recv_meta recv)) m \<and>
       w = UpdateOwners (set_owners m (add_owner (ownerRefFor recv) (om_ownerReferences (mir_meta m))))"
  by (auto simp: own_attempt_def Let_def split: sum.splits if_splits)

lemma release_attempt_writes:
  "w \<in> set (fst (release_attempt env recv key i)) \<Longrightarrow>
   \<exists>m. re_live env AtRelease key i = Inr m \<and> owned_by (om_uid (recv_meta recv)) m \<and>
       w = UpdateOwners (set_owners m (drop_owner (om_uid (recv_meta recv)) (om_ownerReferences (mir_meta m))))"
  by (auto simp: release_attempt_def Let_def split: sum.splits if_splits)

lemma release_attempt_empties:
  "snd (release_attempt env recv key i) = Inr (n, rv) \<Longrightarrow> rv \<noteq> '''' \<Longrightarrow>
   \<exists>m m'. re_live env AtRelease key i = Inr m \<and> owned_by (om_uid (recv_meta recv)) m \<and>
     drop_owner (om_uid (recv_meta recv)) (om_ownerReferences (mir_meta m)) = [] \<and>
     re_updateMirror env i (set_owners m []) = Inr m' \<and> rv = om_resourceVersion (mir_meta m')"
  by (auto simp: release_attempt_def Let_def split: sum.splits if_splits)

lemma delete_attempt_writes:
  "w \<in> set (fst (delete_attempt cfg env key rv i)) \<Longrightarrow>
   w = DeleteOwnedMirror key (Some (version_at env key rv i)) \<or> (\<exists>msg. w = ReleaseEvent key msg)"
  by (auto simp: delete_attempt_def io_bind_writes_iff Let_def)

lemma delete_cross_writes:
  "w \<in> set (fst (delete_cross cfg env msg what m)) \<Longrightarrow>
   w = DeleteOwnedMirror (objectKey (mir_meta m)) None \<or> w = ReleaseEvent (objectKey (mir_meta m)) msg"
  by (auto simp: delete_cross_def io_bind_writes_iff Let_def)

text \<open>A resource version at which this receiver saw the owner list of a mirror empty: the one its own update
  left, or one it read back after a conflict.\<close>

definition emptied :: "('sel, 'req) receiver_env \<Rightarrow> 'sel MxlReceiver \<Rightarrow> NamespacedName \<Rightarrow> string \<Rightarrow> bool" where
  "emptied env recv key rv \<longleftrightarrow>
     (\<exists>i m m'. re_live env AtRelease key i = Inr m \<and> owned_by (om_uid (recv_meta recv)) m \<and>
        drop_owner (om_uid (recv_meta recv)) (om_ownerReferences (mir_meta m)) = [] \<and>
        re_updateMirror env i (set_owners m []) = Inr m' \<and> rv = om_resourceVersion (mir_meta m')) \<or>
     (\<exists>i m. re_live env AtDelete key i = Inr m \<and> om_ownerReferences (mir_meta m) = [] \<and>
        rv = om_resourceVersion (mir_meta m))"

definition retries_ok :: "('sel, 'req) receiver_env \<Rightarrow> bool" where
  "retries_ok env \<longleftrightarrow> retry_runs (re_retry env) \<and> retry_runs (re_retryRelease env)"

lemma delete_attempt_conflict:
  "snd (delete_attempt cfg env key rv i) = Inl e \<Longrightarrow> re_live env AtDelete key i = Inr m \<Longrightarrow> isConflict e \<Longrightarrow>
   om_ownerReferences (mir_meta m) = []"
  by (auto simp: delete_attempt_def Let_def io_bind_def split: sum.splits if_splits)

lemma version_at_emptied:
  assumes "emptied env recv key rv" "\<And>j. j < i \<Longrightarrow> \<exists>e. snd (delete_attempt cfg env key rv j) = Inl e \<and> isConflict e"
  shows "emptied env recv key (version_at env key rv i)"
  using assms(2)
proof (induction i)
  case (Suc i)
  then have ih: "emptied env recv key (version_at env key rv i)" by simp
  obtain e where e: "snd (delete_attempt cfg env key rv i) = Inl e" "isConflict e" using Suc.prems by blast
  show ?case
  proof (cases "re_live env AtDelete key i")
    case (Inr m)
    then have "om_ownerReferences (mir_meta m) = []" using e delete_attempt_conflict by blast
    with Inr show ?thesis by (auto simp: emptied_def)
  qed (simp add: ih)
qed (simp add: assms(1))

lemma deleteIfStillEmpty_writes:
  assumes "retry_runs (re_retry env)" "emptied env recv key rv" "w \<in> set (fst (deleteIfStillEmpty cfg env key rv))"
  shows "(\<exists>v. w = DeleteOwnedMirror key (Some v) \<and> emptied env recv key v) \<or> (\<exists>msg. w = ReleaseEvent key msg)"
proof -
  obtain i where "w \<in> set (fst (delete_attempt cfg env key rv i))"
    "\<And>j. j < i \<Longrightarrow> \<exists>e. snd (delete_attempt cfg env key rv j) = Inl e \<and> isConflict e"
    using retry_runs_write[OF assms(1) assms(3)[unfolded deleteIfStillEmpty_def]] by metis
  then show ?thesis using delete_attempt_writes version_at_emptied[OF assms(2)] by metis
qed

definition is_release :: "('sel, 'req) receiver_env \<Rightarrow> 'sel MxlReceiver \<Rightarrow> NamespacedName \<Rightarrow> 'sel receiver_write \<Rightarrow> bool" where
  "is_release env recv key w \<longleftrightarrow>
     (\<exists>i m. re_live env AtRelease key i = Inr m \<and> owned_by (om_uid (recv_meta recv)) m \<and>
        w = UpdateOwners (set_owners m (drop_owner (om_uid (recv_meta recv)) (om_ownerReferences (mir_meta m))))) \<or>
     (\<exists>v. w = DeleteOwnedMirror key (Some v) \<and> emptied env recv key v) \<or>
     (\<exists>msg. w = ReleaseEvent key msg)"

lemma removeOwnerRef_writes:
  assumes "retries_ok env" "w \<in> set (fst (removeOwnerRef cfg env recv key))"
  shows "is_release env recv key w"
proof -
  let ?rel = "re_retryRelease env (release_attempt env recv key)"
  from assms(1) have runs: "retry_runs (re_retry env)" "retry_runs (re_retryRelease env)" by (simp_all add: retries_ok_def)
  from assms(2) consider "w \<in> set (fst ?rel)"
    | n rv where "snd ?rel = Inr (n, rv)" "rv \<noteq> ''''" "w \<in> set (fst (deleteIfStillEmpty cfg env key rv))"
    unfolding removeOwnerRef_def io_bind_writes_iff by (auto split: if_splits)
  then show ?thesis
  proof cases
    case 1
    with runs(2) obtain i where "w \<in> set (fst (release_attempt env recv key i))" by (blast elim: retry_runs_write)
    then show ?thesis unfolding is_release_def by (blast dest: release_attempt_writes)
  next
    case 2
    from runs(2) obtain i where "snd ?rel = snd (release_attempt env recv key i)" by (blast elim: retry_runsE)
    with 2 have "emptied env recv key rv" unfolding emptied_def
      using release_attempt_empties[of env recv key i n rv] by auto
    then show ?thesis unfolding is_release_def using deleteIfStillEmpty_writes[OF runs(1) _ 2(3)] by blast
  qed
qed

lemma gcOrphanMirrors_writes:
  assumes "retries_ok env" "w \<in> set (fst (gcOrphanMirrors cfg env recv desired))"
  obtains (same) ms m where "listOwnedSameNsMirrorsFrom (re_client env 0) recv = Inr ms" "m \<in> set ms" "\<not> kept_mirror desired m"
      "is_release env recv (objectKey (mir_meta m)) w"
    | (cross) ms m msg where "listOwnedCrossNsMirrorsFrom (re_client env 0) recv = Inr ms" "m \<in> set ms" "\<not> kept_mirror desired m"
      "w = DeleteOwnedMirror (objectKey (mir_meta m)) None \<or> w = ReleaseEvent (objectKey (mir_meta m)) msg"
proof -
  from assms(2) consider
      ms where "listOwnedSameNsMirrorsFrom (re_client env 0) recv = Inr ms" "w \<in> set (fst (io_each (release_same cfg env recv desired) ms))"
    | ms where "listOwnedCrossNsMirrorsFrom (re_client env 0) recv = Inr ms" "w \<in> set (fst (io_each (release_cross cfg env desired) ms))"
    unfolding gcOrphanMirrors_def io_bind_writes_iff by auto
  then show thesis
  proof cases
    case 1
    then obtain m where "m \<in> set ms" "w \<in> set (fst (release_same cfg env recv desired m))" by (blast dest: io_each_writes)
    with 1 show thesis using removeOwnerRef_writes[OF assms(1)]
      by (intro same[of ms m]) (auto simp: release_same_def Let_def split: if_splits)
  next
    case 2
    then obtain m where "m \<in> set ms" "w \<in> set (fst (release_cross cfg env desired m))" by (blast dest: io_each_writes)
    then have "\<not> kept_mirror desired m" "\<exists>msg what. w \<in> set (fst (delete_cross cfg env msg what m))"
      by (auto simp: release_cross_def split: if_splits)
    with 2 \<open>m \<in> set ms\<close> show thesis using delete_cross_writes by (blast intro: cross)
  qed
qed

text \<open>What a target's mirror is written as: created whole, co-owned, or patched where it drifted.\<close>

definition is_ensure ::
  "('sel, 'req) receiver_env \<Rightarrow> 'sel MxlReceiver \<Rightarrow> string \<Rightarrow> nodeTarget \<Rightarrow> 'sel receiver_write \<Rightarrow> bool" where
  "is_ensure env recv sourceNode t w \<longleftrightarrow>
     (\<exists>p. p \<noteq> ProviderUnset \<and> p \<noteq> ProviderAuto \<and> w = CreateOwnedMirror (desired_mirror recv sourceNode t p)) \<or>
     (\<exists>key i m. re_live env AtOwn key i = Inr m \<and> \<not> owned_by (om_uid (recv_meta recv)) m \<and>
        w = UpdateOwners (set_owners m (add_owner (ownerRefFor recv) (om_ownerReferences (mir_meta m))))) \<or>
     (\<exists>n m p requestor. re_mirror env n (target_key recv t) = Inr m \<and> om_deletionTimestamp (mir_meta m) = 0 \<and>
        p \<noteq> ProviderUnset \<and> p \<noteq> ProviderAuto \<and> drift m sourceNode p requestor \<noteq> no_patch \<and>
        w = PatchDrifted (objectKey (mir_meta m)) (drift m sourceNode p requestor))"

lemma receiver_provider_concrete:
  assumes "receiver_resolveProvider M env recv s t = Inr p"
  shows "p \<noteq> ProviderUnset" "p \<noteq> ProviderAuto"
proof -
  have "fst (resolve M a b) \<noteq> ProviderUnset \<and> fst (resolve M a b) \<noteq> ProviderAuto" for a b
    using resolve_concrete[of M a b] by auto
  then show "p \<noteq> ProviderUnset" "p \<noteq> ProviderAuto"
    using assms by (auto simp: receiver_resolveProvider_def Let_def split: if_splits sum.splits)
qed

lemma adopt_writes:
  assumes "retry_runs (re_retry env)" "w \<in> set (fst (adopt env recv sameNs m sourceNode p requestor))"
  shows "(\<exists>key i m. re_live env AtOwn key i = Inr m \<and> \<not> owned_by (om_uid (recv_meta recv)) m \<and>
            w = UpdateOwners (set_owners m (add_owner (ownerRefFor recv) (om_ownerReferences (mir_meta m))))) \<or>
         (om_deletionTimestamp (mir_meta m) = 0 \<and> drift m sourceNode p requestor \<noteq> no_patch \<and>
            w = PatchDrifted (objectKey (mir_meta m)) (drift m sourceNode p requestor))"
proof -
  from assms(2) consider "w \<in> set (fst (ensureOwnerRef env recv (objectKey (mir_meta m))))"
    | "om_deletionTimestamp (mir_meta m) = 0" "w \<in> set (fst (patchMirrorIfDrifted env m sourceNode p requestor))"
    unfolding adopt_def Let_def by (auto simp: io_bind_writes_iff split: if_splits)
  then show ?thesis
  proof cases
    case 1
    then obtain i where "w \<in> set (fst (own_attempt env recv (objectKey (mir_meta m)) i))"
      using assms(1) unfolding ensureOwnerRef_def by (blast elim: retry_runs_write)
    then show ?thesis by (blast dest: own_attempt_writes)
  next
    case 2
    then show ?thesis by (auto simp: patchMirrorIfDrifted_def Let_def split: if_splits)
  qed
qed

lemma ensureMirror_writes:
  assumes "retry_runs (re_retry env)" "w \<in> set (fst (ensureMirror M env recv sourceNode t))"
  shows "is_ensure env recv sourceNode t w"
proof -
  obtain p where p: "receiver_resolveProvider M env recv sourceNode (nt_node t) = Inr p"
    using assms(2) unfolding ensureMirror_def by (auto simp: io_bind_writes_iff)
  let ?same = "nt_namespace t = om_namespace (recv_meta recv)"
  have w: "w = CreateOwnedMirror (desired_mirror recv sourceNode t p) \<or>
      (\<exists>n m sameNs requestor. re_mirror env n (target_key recv t) = Inr m \<and>
         w \<in> set (fst (adopt env recv sameNs m sourceNode p requestor)))"
  proof (cases "re_mirror env 0 (target_key recv t)")
    case (Inr m)
    then have "w \<in> set (fst (adopt env recv ?same m sourceNode p (target_requestor ?same t)))"
      using assms(2) p unfolding ensureMirror_def Let_def by (auto simp: io_bind_writes_iff)
    with Inr show ?thesis by blast
  next
    case (Inl e)
    with assms(2) p show ?thesis unfolding ensureMirror_def Let_def
      by (auto simp: io_bind_writes_iff split: sum.splits if_splits)
  qed
  note conc = receiver_provider_concrete[OF p]
  from w show ?thesis
  proof
    assume "w = CreateOwnedMirror (desired_mirror recv sourceNode t p)"
    with conc show ?thesis unfolding is_ensure_def by blast
  next
    assume "\<exists>n m sameNs requestor. re_mirror env n (target_key recv t) = Inr m \<and>
         w \<in> set (fst (adopt env recv sameNs m sourceNode p requestor))"
    with conc show ?thesis unfolding is_ensure_def using adopt_writes[OF assms(1)] by blast
  qed
qed

lemma ensure_targets_writes:
  assumes "retry_runs (re_retry env)" "w \<in> set (fst (ensure_targets M env recv sourceNode ts primary terminating))"
  shows "\<exists>t \<in> set ts. nt_node t \<noteq> sourceNode \<and> is_ensure env recv sourceNode t w"
  using assms(2)
proof (induction ts arbitrary: primary terminating)
  case (Cons t ts)
  then show ?case
    using ensureMirror_writes[OF assms(1), of w M recv sourceNode t]
    by (auto split: if_splits sum.splits)
qed simp

lemma ensure_targets_ok:
  "snd (ensure_targets M env recv sourceNode ts primary terminating) = Inr (Ensured p False) \<Longrightarrow>
   \<not> terminating \<and>
   (\<forall>t \<in> set ts. nt_node t \<noteq> sourceNode \<longrightarrow> (\<exists>m. snd (ensureMirror M env recv sourceNode t) = Inr m)) \<and>
   (case primary of
      Some q \<Rightarrow> p = Some q
    | None \<Rightarrow>
        (case filter (\<lambda>t. nt_node t \<noteq> sourceNode) ts of
           [] \<Rightarrow> p = None
         | t # _ \<Rightarrow> (\<exists>m. snd (ensureMirror M env recv sourceNode t) = Inr m \<and>
                       p = Some \<lparr>mr_name = om_name (mir_meta m), mr_namespace = om_namespace (mir_meta m)\<rparr>)))"
proof (induction ts arbitrary: primary terminating)
  case (Cons t ts)
  show ?case
  proof (cases "nt_node t = sourceNode")
    case True
    with Cons.prems Cons.IH[of primary terminating] show ?thesis by (cases primary) simp_all
  next
    case False
    show ?thesis
    proof (cases "snd (ensureMirror M env recv sourceNode t)")
      case (Inl e)
      with Cons.prems False Cons.IH[of primary True] show ?thesis by (auto split: if_splits)
    next
      case (Inr m)
      let ?q = "Some \<lparr>mr_name = om_name (mir_meta m), mr_namespace = om_namespace (mir_meta m)\<rparr>"
      from Cons.prems False Inr Cons.IH[of "case primary of None \<Rightarrow> ?q | Some q \<Rightarrow> Some q" terminating]
      show ?thesis by (auto split: option.splits)
    qed
  qed
qed (auto split: option.splits)

end
