(* ===== verification/Receiver_Safety.thy ===== *)
theory Receiver_Safety
  imports Receiver
begin

section \<open>What the receiver controller guarantees\<close>

text \<open>
  The properties of \<^verbatim>\<open>Reconcile\<close> of the receiver controller, over \<open>reconcile_receiver\<close>: which mirrors it may
  delete and under which resource version, that it never strips a sibling's owner reference, that an unresolved
  origin releases nothing, what a Bound status means, how long deletion is held, and when the receiver is
  looked at again. \<open>retries_ok\<close> is the documented behaviour of client-go's retry, \<open>reader_ok\<close> that of a
  namespaced list call, \<open>api_faithful\<close> that a get, a create and a merge patch answer the object asked for.
\<close>

subsection \<open>The receiver a reconcile works on\<close>

text \<open>The object read, or the one the update that added the finalizer answered.\<close>

definition live_receiver :: "('sel, 'req) receiver_env \<Rightarrow> NamespacedName \<Rightarrow> 'sel MxlReceiver \<Rightarrow> bool" where
  "live_receiver env key recv \<longleftrightarrow>
     (\<exists>r0. re_receiver env key = Inr r0 \<and> om_deletionTimestamp (recv_meta r0) = 0 \<and>
        (if MxlReceiverFinalizer \<in> set (om_finalizers (recv_meta r0)) then recv = r0
         else re_update env (with_finalizers r0 (om_finalizers (recv_meta r0) @ [MxlReceiverFinalizer])) = Inr recv))"

lemma reconcile_receiver_live:
  assumes "live_receiver env key recv"
  obtains pre where
    "fst (reconcile_receiver cfg M env now key) = pre @ fst (reconcile_live cfg M env now recv)"
    "snd (reconcile_receiver cfg M env now key) = snd (reconcile_live cfg M env now recv)"
    "\<And>w. w \<in> set pre \<Longrightarrow> \<exists>r. w = UpdateReceiver r"
proof -
  obtain r0 where r0: "re_receiver env key = Inr r0" "om_deletionTimestamp (recv_meta r0) = 0"
    "if MxlReceiverFinalizer \<in> set (om_finalizers (recv_meta r0)) then recv = r0
     else re_update env (with_finalizers r0 (om_finalizers (recv_meta r0) @ [MxlReceiverFinalizer])) = Inr recv"
    using assms unfolding live_receiver_def by blast
  show thesis
  proof (cases "MxlReceiverFinalizer \<in> set (om_finalizers (recv_meta r0))")
    case True
    with r0 show thesis by (intro that[of "[]"]) (simp_all add: reconcile_receiver_def)
  next
    case False
    with r0 show thesis
      by (intro that[of "[UpdateReceiver (with_finalizers r0 (om_finalizers (recv_meta r0) @ [MxlReceiverFinalizer]))]"])
        (simp_all add: reconcile_receiver_def Let_def)
  qed
qed

lemma live_write:
  assumes "live_receiver env key recv" "w \<in> set (fst (reconcile_receiver cfg M env now key))" "\<And>r. w \<noteq> UpdateReceiver r"
  shows "w \<in> set (fst (reconcile_live cfg M env now recv))"
proof -
  obtain pre where "fst (reconcile_receiver cfg M env now key) = pre @ fst (reconcile_live cfg M env now recv)"
    "\<And>w. w \<in> set pre \<Longrightarrow> \<exists>r. w = UpdateReceiver r"
    using reconcile_receiver_live[OF assms(1), of cfg M now] by metis
  with assms(2,3) show ?thesis by auto
qed

subsection \<open>The ways a pass over a live receiver writes\<close>

definition resolved ::
  "receiver_config \<Rightarrow> ('sel, 'req) receiver_env \<Rightarrow> 'sel MxlReceiver \<Rightarrow> nodeTarget list \<Rightarrow> OriginResolution \<Rightarrow> bool" where
  "resolved cfg env recv targets res \<longleftrightarrow>
     resolveTargets env recv = Inr targets \<and> resolveSourceNode cfg env (flowref_name (receiver_ref recv)) = Inr res"

text \<open>The nodes that need a mirror.\<close>

definition wanted :: "OriginResolution \<Rightarrow> nodeTarget list \<Rightarrow> nodeTarget list" where
  "wanted res targets = filter (\<lambda>t. nt_node t \<noteq> res_node res) targets"

lemma reconcile_live_eq:
  assumes "resolved cfg env recv targets res"
  shows "reconcile_live cfg M env now recv =
     (if length targets = 0
      then io_bind (io_wrap ''gc orphan mirrors'' (gcOrphanMirrors cfg env recv []))
             (\<lambda>_. markPending cfg env recv ''no target pods scheduled yet'')
      else if \<not> res_found res then markPending cfg env recv (unresolved_reason res)
      else bind_receiver cfg M env now recv targets res)"
  using assms by (simp add: reconcile_live_def resolved_def)

lemma reconcile_live_resolved:
  assumes "w \<in> set (fst (reconcile_live cfg M env now recv))"
  obtains targets res where "resolved cfg env recv targets res"
  using assms unfolding reconcile_live_def resolved_def by (auto simp: io_bind_writes_iff io_wrap_def split: sum.splits)

lemma bind_receiver_write_cases:
  assumes "w \<in> set (fst (bind_receiver cfg M env now recv targets res))"
  obtains (gc) "w \<in> set (fst (gcOrphanMirrors cfg env recv (desired_of recv (res_node res) targets)))"
    | (ensure) "w \<in> set (fst (ensure_targets M env recv (res_node res) targets None False))"
    | (pending) reason where "w \<in> set (fst (markPending cfg env recv reason))"
    | (bound) primary where "snd (ensure_targets M env recv (res_node res) targets None False) = Inr (Ensured primary False)"
        "w \<in> set (fst (markBound cfg env recv primary))"
        "set (fst (ensure_targets M env recv (res_node res) targets None False)) \<subseteq> set (fst (bind_receiver cfg M env now recv targets res))"
proof -
  let ?ens = "ensure_targets M env recv (res_node res) targets None False"
  let ?fin = "\<lambda>outcome. case outcome of
       EnsurePending reason \<Rightarrow> markPending cfg env recv reason
     | Ensured primary terminating \<Rightarrow>
         if terminating then markPending cfg env recv ''mirror for a target is still terminating''
         else io_bind (markBound cfg env recv primary) (\<lambda>result. io_ret (wake_at_deadline now res result))"
  from assms consider "w \<in> set (fst (gcOrphanMirrors cfg env recv (desired_of recv (res_node res) targets)))"
    | "w \<in> set (fst ?ens)"
    | x where "snd ?ens = Inr x" "w \<in> set (fst (?fin x))"
        "set (fst ?ens) \<subseteq> set (fst (bind_receiver cfg M env now recv targets res))"
    unfolding bind_receiver_def io_bind_writes_iff subset_iff by auto
  then show thesis
  proof cases
    case 3
    show thesis
    proof (cases x)
      case (EnsurePending reason)
      with 3 show thesis by (auto intro: pending)
    next
      case (Ensured primary terminating)
      with 3 show thesis by (cases terminating) (auto simp: io_bind_writes_iff intro: pending bound)
    qed
  qed (auto intro: gc ensure)
qed

lemma reconcile_live_write_cases:
  assumes "w \<in> set (fst (reconcile_live cfg M env now recv))"
  obtains (gc) targets res desired where "resolved cfg env recv targets res" "targets = [] \<or> res_found res"
        "desired = desired_of recv (res_node res) targets" "w \<in> set (fst (gcOrphanMirrors cfg env recv desired))"
    | (ensure) targets res where "resolved cfg env recv targets res" "res_found res"
        "w \<in> set (fst (ensure_targets M env recv (res_node res) targets None False))"
    | (pending) reason where "w \<in> set (fst (markPending cfg env recv reason))"
    | (bound) targets res primary where "resolved cfg env recv targets res" "targets \<noteq> []" "res_found res"
        "snd (ensure_targets M env recv (res_node res) targets None False) = Inr (Ensured primary False)"
        "w \<in> set (fst (markBound cfg env recv primary))"
        "set (fst (ensure_targets M env recv (res_node res) targets None False)) \<subseteq> set (fst (reconcile_live cfg M env now recv))"
proof -
  obtain targets res where r: "resolved cfg env recv targets res" using assms by (rule reconcile_live_resolved)
  consider "targets = []" "w \<in> set (fst (gcOrphanMirrors cfg env recv []))"
    | reason where "w \<in> set (fst (markPending cfg env recv reason))"
    | "targets \<noteq> []" "res_found res" "w \<in> set (fst (bind_receiver cfg M env now recv targets res))"
    using assms unfolding reconcile_live_eq[OF r] by (auto simp: io_bind_writes_iff split: if_splits)
  then show thesis
  proof cases
    case 1
    with r show thesis by (intro gc[of targets res "[]"]) (simp_all add: desired_of_def)
  next
    case 2
    then show thesis by (rule pending)
  next
    case 3
    then have whole: "reconcile_live cfg M env now recv = bind_receiver cfg M env now recv targets res"
      by (simp add: reconcile_live_eq[OF r])
    from 3(3) show thesis
    proof (cases rule: bind_receiver_write_cases)
      case gc
      with r 3 show ?thesis by (intro that(1)) auto
    qed (use r 3 that whole in simp)+
  qed
qed

subsection \<open>Releases\<close>

definition reader_ok :: "mirror_reader \<Rightarrow> bool" where
  "reader_ok rd \<longleftrightarrow>
     (\<forall>ns uid ms m. rd_byOwner rd ns uid = Inr ms \<longrightarrow> m \<in> set ms \<longrightarrow> om_namespace (mir_meta m) = ns) \<and>
     (\<forall>ns ms m. rd_inNamespace rd ns = Inr ms \<longrightarrow> m \<in> set ms \<longrightarrow> om_namespace (mir_meta m) = ns) \<and>
     (\<forall>ns name ms m. rd_byLabel rd ns name = Inr ms \<longrightarrow> m \<in> set ms \<longrightarrow> om_namespace (mir_meta m) = ns)"

lemma set_unseen: "set (unseen seen ms) \<subseteq> set ms"
  by (induction ms arbitrary: seen) auto

lemma listed_same_ns:
  assumes "reader_ok rd" "listOwnedSameNsMirrorsFrom rd recv = Inr ms" "m \<in> set ms"
  shows "om_namespace (mir_meta m) = om_namespace (recv_meta recv)"
proof -
  obtain refs labelled where refs: "listed_by_ref rd recv = Inr refs"
    and labelled: "rd_byLabel rd (om_namespace (recv_meta recv)) (om_name (recv_meta recv)) = Inr labelled"
    and "m \<in> set refs \<or> m \<in> set labelled"
    using assms(2,3) set_unseen by (fastforce simp: listOwnedSameNsMirrorsFrom_def split: sum.splits)
  then show ?thesis
    using assms(1) set_unseen unfolding reader_ok_def listed_by_ref_def Let_def
    by (fastforce split: sum.splits if_splits)
qed

lemma kept_mirror_desired:
  "\<not> kept_mirror (desired_of recv node targets) m \<Longrightarrow>
   objectKey (mir_meta m) \<notin> target_key recv ` {t \<in> set targets. nt_node t \<noteq> node}"
  by (auto simp: kept_mirror_def desired_of_def map_of_eq_None_iff image_iff)

text \<open>The claim a cross-namespace delete rests on: the mirror the cluster-wide list returned carries both labels.\<close>

definition labelled_for :: "mirror_reader \<Rightarrow> 'sel MxlReceiver \<Rightarrow> NamespacedName \<Rightarrow> bool" where
  "labelled_for rd recv key \<longleftrightarrow>
     (\<exists>ms m. rd_labelled rd (om_name (recv_meta recv)) = Inr ms \<and> m \<in> set ms \<and> objectKey (mir_meta m) = key \<and>
        om_namespace (mir_meta m) \<noteq> om_namespace (recv_meta recv) \<and>
        label_value (om_labels (mir_meta m)) LabelCreatedByReceiverNamespace = om_namespace (recv_meta recv))"

lemma listed_cross_ns:
  "listOwnedCrossNsMirrorsFrom rd recv = Inr ms \<Longrightarrow> m \<in> set ms \<Longrightarrow> labelled_for rd recv (objectKey (mir_meta m))"
  by (auto simp: listOwnedCrossNsMirrorsFrom_def labelled_for_def split: sum.splits)

text \<open>The specification a merge patch leaves, and what the API server answers: a get, a create and a patch the object
  asked for, a create and a patch with the specification and the owner references they were given.\<close>

definition applied_patch :: "mirror_patch \<Rightarrow> MxlFlowMirrorSpec \<Rightarrow> MxlFlowMirrorSpec" where
  "applied_patch p s = s\<lparr>
     ms_sourceNode := (case mp_sourceNode p of None \<Rightarrow> ms_sourceNode s | Some n \<Rightarrow> n),
     ms_provider := (case mp_provider p of None \<Rightarrow> ms_provider s | Some x \<Rightarrow> x),
     ms_requestor := (case mp_requestor p of None \<Rightarrow> ms_requestor s | Some r \<Rightarrow> Some r)\<rparr>"

definition api_faithful :: "('sel, 'req) receiver_env \<Rightarrow> bool" where
  "api_faithful env \<longleftrightarrow>
     (\<forall>n k m. re_mirror env n k = Inr m \<longrightarrow> objectKey (mir_meta m) = k) \<and>
     (\<forall>stage k i m. re_live env stage k i = Inr m \<longrightarrow> objectKey (mir_meta m) = k) \<and>
     (\<forall>d m. re_create env d = Inr m \<longrightarrow> objectKey (mir_meta m) = objectKey (mir_meta d) \<and> mir_spec m = mir_spec d \<and>
        om_ownerReferences (mir_meta m) = om_ownerReferences (mir_meta d)) \<and>
     (\<forall>m p m'. re_patch env m p = Inr m' \<longrightarrow>
        objectKey (mir_meta m') = objectKey (mir_meta m) \<and> mir_spec m' = applied_patch p (mir_spec m))"

text \<open>A write that takes the mirror under a key from this receiver: its deletion, or an update that leaves the
  receiver out of its owner list.\<close>

definition withdraws :: "'sel MxlReceiver \<Rightarrow> NamespacedName \<Rightarrow> 'sel receiver_write \<Rightarrow> bool" where
  "withdraws recv k w =
     (case w of
        DeleteOwnedMirror k' _ \<Rightarrow> k' = k
      | UpdateOwners m \<Rightarrow> objectKey (mir_meta m) = k \<and> \<not> owned_by (om_uid (recv_meta recv)) m
      | _ \<Rightarrow> False)"

text \<open>What the write rests on.\<close>

definition release_basis :: "('sel, 'req) receiver_env \<Rightarrow> 'sel MxlReceiver \<Rightarrow> NamespacedName \<Rightarrow> 'sel receiver_write \<Rightarrow> bool" where
  "release_basis env recv k w =
     (case w of
        DeleteOwnedMirror _ (Some rv) \<Rightarrow> nn_namespace k = om_namespace (recv_meta recv) \<and> emptied env recv k rv
      | DeleteOwnedMirror _ None \<Rightarrow> labelled_for (re_client env 0) recv k
      | UpdateOwners m \<Rightarrow> \<exists>i live. re_live env AtRelease k i = Inr live \<and> owned_by (om_uid (recv_meta recv)) live \<and>
          m = set_owners live (others (om_uid (recv_meta recv)) (om_ownerReferences (mir_meta live)))
      | _ \<Rightarrow> False)"

lemma set_owners_key [simp]:
  "objectKey (mir_meta (set_owners m owners)) = objectKey (mir_meta m)"
  "om_ownerReferences (mir_meta (set_owners m owners)) = owners"
  by (simp_all add: set_owners_def objectKey_def)

lemma ensure_keeps_owner: "is_ensure env recv sourceNode t w \<Longrightarrow> \<not> withdraws recv k w"
  using add_owner_present[of "ownerRefFor recv"] names_uid_owned[of "om_uid (recv_meta recv)", symmetric]
  by (auto simp: is_ensure_def withdraws_def ownerRefFor_def)

lemma release_has_basis:
  assumes "api_faithful env" "is_release env recv key w" "withdraws recv k w" "nn_namespace key = om_namespace (recv_meta recv)"
  shows "k = key \<and> release_basis env recv k w"
  using assms by (fastforce simp: is_release_def withdraws_def release_basis_def api_faithful_def drop_owner_def others_def)


text \<open>Consumers without a resolved origin keep their mirrors. When a live receiver has targets and its flow has no
  Origin with a fresh Lease, the pass writes to no mirror at all (no create, no patch, no owner reference, no
  delete) and, when it ends without error, comes back after ten seconds.\<close>

theorem unresolved_origin_keeps_mirrors:
  assumes "live_receiver env key recv" "resolved cfg env recv targets res" "targets \<noteq> []" "\<not> res_found res"
  shows "list_all (\<lambda>w. touched w = None) (fst (reconcile_receiver cfg M env now key)) \<and>
     (snd (reconcile_receiver cfg M env now key) = Inr r \<longrightarrow> r = after (10 * second))"
proof -
  have live: "reconcile_live cfg M env now recv = markPending cfg env recv (unresolved_reason res)"
    using assms(3,4) by (simp add: reconcile_live_eq[OF assms(2)])
  obtain pre where pre:
    "fst (reconcile_receiver cfg M env now key) = pre @ fst (reconcile_live cfg M env now recv)"
    "snd (reconcile_receiver cfg M env now key) = snd (reconcile_live cfg M env now recv)"
    "\<And>w. w \<in> set pre \<Longrightarrow> \<exists>r. w = UpdateReceiver r"
    using reconcile_receiver_live[OF assms(1), of cfg M now] by metis
  have "touched w = None" if "w \<in> set (fst (reconcile_receiver cfg M env now key))" for w
  proof (cases "w \<in> set pre")
    case True
    then show ?thesis using pre(3) by fastforce
  next
    case False
    with that show ?thesis unfolding pre(1) live by (auto dest!: markPending_writes)
  qed
  then show ?thesis
    using markPending_answer[of cfg env recv "unresolved_reason res" r] by (simp add: list_all_iff pre(2) live)
qed

text \<open>Sibling owners are never stripped. Every update of an owner list a reconcile makes is a list it read in
  the same attempt, on the same object, with this receiver's own reference appended to it or every reference of
  this receiver filtered out of it: the references of the other owners stay as they were, in their order.\<close>

theorem sibling_owners_are_kept:
  assumes "live_receiver env key recv" "retries_ok env"
    and "UpdateOwners m' \<in> set (fst (reconcile_receiver cfg M env now key))"
  shows "\<exists>stage k i m. re_live env stage k i = Inr m \<and> m' = set_owners m (om_ownerReferences (mir_meta m')) \<and>
     others (om_uid (recv_meta recv)) (om_ownerReferences (mir_meta m')) =
       others (om_uid (recv_meta recv)) (om_ownerReferences (mir_meta m)) \<and>
     (owned_by (om_uid (recv_meta recv)) m' \<longleftrightarrow> stage = AtOwn)"
proof -
  let ?uid = "om_uid (recv_meta recv)"
  have w: "UpdateOwners m' \<in> set (fst (reconcile_live cfg M env now recv))"
    using live_write[OF assms(1,3)] by simp
  then have "(\<exists>k i m. re_live env AtRelease k i = Inr m \<and> m' = set_owners m (drop_owner ?uid (om_ownerReferences (mir_meta m)))) \<or>
             (\<exists>k i m. re_live env AtOwn k i = Inr m \<and> m' = set_owners m (add_owner (ownerRefFor recv) (om_ownerReferences (mir_meta m))))"
  proof (cases rule: reconcile_live_write_cases)
    case (gc targets res desired)
    from assms(2) gc(4) show ?thesis by (cases rule: gcOrphanMirrors_writes) (auto simp: is_release_def)
  next
    case (ensure targets res)
    have "retry_runs (re_retry env)" using assms(2) by (simp add: retries_ok_def)
    from ensure_targets_writes[OF this ensure(3)] show ?thesis unfolding is_ensure_def by blast
  qed (auto dest: markPending_writes markBound_writes)
  then show ?thesis
  proof
    assume "\<exists>k i m. re_live env AtRelease k i = Inr m \<and> m' = set_owners m (drop_owner ?uid (om_ownerReferences (mir_meta m)))"
    then obtain k i m where m: "re_live env AtRelease k i = Inr m" "m' = set_owners m (drop_owner ?uid (om_ownerReferences (mir_meta m)))"
      by blast
    then have "om_ownerReferences (mir_meta m') = drop_owner ?uid (om_ownerReferences (mir_meta m))" by (simp add: set_owners_def)
    then show ?thesis using m releasing.edit_others[of ?uid] names_uid_owned[of ?uid m']
      by (intro exI[of _ AtRelease] exI[of _ k] exI[of _ i] exI[of _ m]) simp
  next
    assume "\<exists>k i m. re_live env AtOwn k i = Inr m \<and> m' = set_owners m (add_owner (ownerRefFor recv) (om_ownerReferences (mir_meta m)))"
    then obtain k i m where m: "re_live env AtOwn k i = Inr m" "m' = set_owners m (add_owner (ownerRefFor recv) (om_ownerReferences (mir_meta m)))"
      by blast
    moreover have "or_uid (ownerRefFor recv) = ?uid" by (simp add: ownerRefFor_def)
    moreover have "om_ownerReferences (mir_meta m') = add_owner (ownerRefFor recv) (om_ownerReferences (mir_meta m))"
      using m by (simp add: set_owners_def)
    ultimately show ?thesis
      using taking.edit_others[of "ownerRefFor recv"] names_uid_owned[of ?uid m'] add_owner_present[of "ownerRefFor recv"]
      by (intro exI[of _ AtOwn] exI[of _ k] exI[of _ i] exI[of _ m]) simp
  qed
qed

subsection \<open>Bound\<close>

text \<open>The name of a mirror is made of its flow and its target node, by the same function for everyone who creates
  one (\<^verbatim>\<open>api/v1alpha1/mirror.go\<close>); a mirror found under the name of a target is then one of that flow to that node,
  unless two node names differ in a dot against a dash (\<open>mirrorName_collision\<close>). The two fields never change.\<close>

definition mirrors_as_named :: "('sel, 'req) receiver_env \<Rightarrow> 'sel MxlReceiver \<Rightarrow> bool" where
  "mirrors_as_named env recv \<longleftrightarrow>
     (\<forall>n t m. re_mirror env n (target_key recv t) = Inr m \<longrightarrow>
        mirror_ref m = receiver_ref recv \<and> ms_targetNode (mir_spec m) = nt_node t)"

text \<open>A mirror that serves a target: under the target's name, of the receiver's flow and domain, from the given node
  to the node of the target, with a concrete provider.\<close>

definition serves_target :: "'sel MxlReceiver \<Rightarrow> string \<Rightarrow> nodeTarget \<Rightarrow> MxlFlowMirror \<Rightarrow> bool" where
  "serves_target recv sourceNode t m \<longleftrightarrow>
     objectKey (mir_meta m) = target_key recv t \<and> mirror_ref m = receiver_ref recv \<and>
     ms_sourceNode (mir_spec m) = sourceNode \<and> ms_targetNode (mir_spec m) = nt_node t \<and>
     ms_provider (mir_spec m) \<notin> {ProviderUnset, ProviderAuto}"

text \<open>A mirror the receiver has laid claim to, given the writes of the pass. In the receiver's namespace: it was
  created with the receiver as owner, was read live with the receiver among its owners, or the update that adds the
  receiver to the owners just read was issued and accepted. In another namespace: it names the target's pod.\<close>

definition claimed_for ::
  "('sel, 'req) receiver_env \<Rightarrow> 'sel MxlReceiver \<Rightarrow> 'sel receiver_write list \<Rightarrow> nodeTarget \<Rightarrow> MxlFlowMirror \<Rightarrow> bool" where
  "claimed_for env recv ws t m \<longleftrightarrow>
     (if nt_namespace t = om_namespace (recv_meta recv)
      then CreateOwnedMirror (desired_mirror recv (ms_sourceNode (mir_spec m)) t (ms_provider (mir_spec m))) \<in> set ws \<and>
             owned_by (om_uid (recv_meta recv)) m \<or>
           (\<exists>i live live'. re_live env AtOwn (target_key recv t) i = Inr live \<and>
              live' = set_owners live (add_owner (ownerRefFor recv) (om_ownerReferences (mir_meta live))) \<and>
              (owned_by (om_uid (recv_meta recv)) live \<or>
               UpdateOwners live' \<in> set ws \<and> (\<exists>answer. re_updateMirror env i live' = Inr answer)))
      else \<exists>pod. nt_pod t = Some pod \<and>
             ms_requestor (mir_spec m) =
               Some \<lparr>pr_name = om_name (pod_meta pod), pr_namespace = om_namespace (pod_meta pod), pr_uid = om_uid (pod_meta pod)\<rparr>)"

lemma claimed_for_mono: "claimed_for env recv ws t m \<Longrightarrow> set ws \<subseteq> set ws' \<Longrightarrow> claimed_for env recv ws' t m"
  unfolding claimed_for_def by (auto split: if_splits)

lemma resolved_pods: "resolveTargets env recv = Inr ts \<Longrightarrow> t \<in> set ts \<Longrightarrow> \<exists>pod. nt_pod t = Some pod"
proof -
  have "t \<in> set (distinct_targets seen ps) \<Longrightarrow> \<exists>pod. nt_pod t = Some pod" for seen ps
    by (induction seen ps rule: distinct_targets.induct) (auto split: if_splits)
  then show "resolveTargets env recv = Inr ts \<Longrightarrow> t \<in> set ts \<Longrightarrow> \<exists>pod. nt_pod t = Some pod"
    unfolding resolveTargets_def Let_def by (auto split: option.splits sum.splits if_splits)
qed

lemma ensureOwnerRef_claims:
  assumes "retry_runs (re_retry env)" "snd (ensureOwnerRef env recv key) = Inr u"
  shows "\<exists>i live live'. re_live env AtOwn key i = Inr live \<and>
     live' = set_owners live (add_owner (ownerRefFor recv) (om_ownerReferences (mir_meta live))) \<and>
     (owned_by (om_uid (recv_meta recv)) live \<or>
      UpdateOwners live' \<in> set (fst (ensureOwnerRef env recv key)) \<and> (\<exists>answer. re_updateMirror env i live' = Inr answer))"
proof -
  obtain n where n: "fst (ensureOwnerRef env recv key) = concat (map (\<lambda>i. fst (own_attempt env recv key i)) [0..<Suc n])"
    "snd (ensureOwnerRef env recv key) = snd (own_attempt env recv key n)"
    using assms(1) unfolding ensureOwnerRef_def by (rule retry_runsE[where f = "own_attempt env recv key"]) blast
  have sub: "set (fst (own_attempt env recv key n)) \<subseteq> set (fst (ensureOwnerRef env recv key))" unfolding n(1) by auto
  have "snd (own_attempt env recv key n) = Inr u" using n(2) assms(2) by simp
  then show ?thesis using sub
    by (intro exI[of _ n]) (auto simp: own_attempt_def Let_def split: sum.splits if_splits)
qed

lemma adopt_serves:
  assumes "api_faithful env" "mirrors_as_named env recv" "re_mirror env n (target_key recv t) = Inr m0"
    "snd (adopt env recv sameNs m0 sourceNode p requestor) = Inr m"
    "p \<noteq> ProviderUnset" "p \<noteq> ProviderAuto"
  shows "serves_target recv sourceNode t m \<and> (\<forall>pod. requestor = Some pod \<longrightarrow> ms_requestor (mir_spec m) = Some pod)"
proof -
  have patched: "snd (patchMirrorIfDrifted env m0 sourceNode p requestor) = Inr m"
    using assms(4) unfolding adopt_def Let_def by (auto elim!: io_bind_okE split: if_splits)
  have key: "objectKey (mir_meta m0) = target_key recv t" using assms(1,3) by (auto simp: api_faithful_def)
  have named: "mirror_ref m0 = receiver_ref recv" "ms_targetNode (mir_spec m0) = nt_node t"
    using assms(2,3) by (auto simp: mirrors_as_named_def)
  have same: "samePodRef a b \<longleftrightarrow> a = b" for a b :: "PodRef option"
    by (cases a; cases b) (auto simp: samePodRef_def)
  have "objectKey (mir_meta m) = objectKey (mir_meta m0) \<and> mir_spec m = applied_patch (drift m0 sourceNode p requestor) (mir_spec m0)"
    using patched assms(1) unfolding patchMirrorIfDrifted_def Let_def api_faithful_def
    by (auto simp: io_wrap_def no_patch_def applied_patch_def split: if_splits sum.splits)
  then show ?thesis using key named assms(5,6)
    by (auto simp: serves_target_def applied_patch_def drift_def same mirror_ref_def)
qed

lemma adopt_claims:
  assumes "retry_runs (re_retry env)" "snd (adopt env recv sameNs m0 sourceNode p requestor) = Inr m"
    "objectKey (mir_meta m0) = target_key recv t" "nt_namespace t = om_namespace (recv_meta recv)" "sameNs"
  shows "claimed_for env recv (fst (adopt env recv sameNs m0 sourceNode p requestor)) t m"
proof -
  from assms(2,5) obtain u where u: "snd (ensureOwnerRef env recv (target_key recv t)) = Inr u"
    "set (fst (ensureOwnerRef env recv (target_key recv t))) \<subseteq> set (fst (adopt env recv sameNs m0 sourceNode p requestor))"
    unfolding adopt_def Let_def assms(3)
    by (auto elim!: io_bind_okE simp: io_wrap_def split: if_splits sum.splits)
  from ensureOwnerRef_claims[OF assms(1) u(1)] u(2) show ?thesis unfolding claimed_for_def using assms(4) by (simp, blast)
qed

lemma ensureMirror_serves:
  assumes "retry_runs (re_retry env)" "api_faithful env" "mirrors_as_named env recv" "nt_pod t \<noteq> None"
    "snd (ensureMirror M env recv sourceNode t) = Inr m"
  shows "serves_target recv sourceNode t m \<and> claimed_for env recv (fst (ensureMirror M env recv sourceNode t)) t m"
proof -
  let ?same = "nt_namespace t = om_namespace (recv_meta recv)"
  let ?req = "target_requestor ?same t"
  let ?ws = "fst (ensureMirror M env recv sourceNode t)"
  obtain p where p: "receiver_resolveProvider M env recv sourceNode (nt_node t) = Inr p"
    using assms(5) unfolding ensureMirror_def by (auto elim!: io_bind_okE)
  note conc = receiver_provider_concrete[OF p]
  let ?d = "desired_mirror recv sourceNode t p"
  have ok: "domain_check env recv sourceNode t = Inr ()"
    using assms(5) unfolding ensureMirror_def by (auto elim!: io_bind_okE)
  have adopted: "serves_target recv sourceNode t m \<and> claimed_for env recv ?ws t m"
    if m0: "re_mirror env n (target_key recv t) = Inr m0" "snd (adopt env recv ?same m0 sourceNode p ?req) = Inr m"
      and sub: "set (fst (adopt env recv ?same m0 sourceNode p ?req)) \<subseteq> set ?ws" for n m0
  proof -
    have key: "objectKey (mir_meta m0) = target_key recv t" using assms(2) m0(1) by (auto simp: api_faithful_def)
    note serves = adopt_serves[OF assms(2,3) m0 conc]
    have "claimed_for env recv ?ws t m"
    proof (cases ?same)
      case True
      from adopt_claims[OF assms(1) m0(2) key True True] sub show ?thesis by (rule claimed_for_mono)
    next
      case False
      with serves assms(4) show ?thesis by (auto simp: claimed_for_def target_requestor_def)
    qed
    with serves show ?thesis by blast
  qed
  show ?thesis
  proof (cases "re_mirror env 0 (target_key recv t)")
    case (Inr m0)
    then have "ensureMirror M env recv sourceNode t = adopt env recv ?same m0 sourceNode p ?req"
      using ok p by (simp add: ensureMirror_def Let_def)
    with adopted[OF Inr] assms(5) show ?thesis by simp
  next
    case (Inl e)
    from assms(5) ok p Inl consider "re_create env ?d = Inr m" "CreateOwnedMirror ?d \<in> set ?ws"
      | m0 where "re_mirror env 1 (target_key recv t) = Inr m0" "snd (adopt env recv ?same m0 sourceNode p ?req) = Inr m"
          "set (fst (adopt env recv ?same m0 sourceNode p ?req)) \<subseteq> set ?ws"
      unfolding ensureMirror_def Let_def by (fastforce elim!: io_bind_okE split: sum.splits if_splits)
    then show ?thesis
    proof cases
      case 1
      then have m: "objectKey (mir_meta m) = objectKey (mir_meta ?d)" "mir_spec m = mir_spec ?d"
        "om_ownerReferences (mir_meta m) = om_ownerReferences (mir_meta ?d)"
        using assms(2) unfolding api_faithful_def by blast+
      then have "serves_target recv sourceNode t m" using conc
        by (simp add: serves_target_def desired_mirror_def new_meta_def objectKey_def target_key_def mirror_ref_def receiver_ref_def Let_def)
      moreover have "ms_sourceNode (mir_spec m) = sourceNode" "ms_provider (mir_spec m) = p"
        using m(2) by (simp_all add: desired_mirror_def Let_def)
      then have "claimed_for env recv ?ws t m" using 1(2) m assms(4)
        by (auto simp: claimed_for_def owned_by_def desired_mirror_def new_meta_def ownerRefFor_def target_requestor_def Let_def)
      ultimately show ?thesis by blast
    next
      case 2
      then show ?thesis by (rule adopted)
    qed
  qed
qed

lemma ensure_targets_contains:
  "snd (ensure_targets M env recv sourceNode ts primary terminating) = Inr (Ensured p False) \<Longrightarrow>
   t \<in> set ts \<Longrightarrow> nt_node t \<noteq> sourceNode \<Longrightarrow>
   set (fst (ensureMirror M env recv sourceNode t)) \<subseteq> set (fst (ensure_targets M env recv sourceNode ts primary terminating))"
proof (induction ts arbitrary: primary terminating)
  case (Cons a ts)
  show ?case
  proof (cases "nt_node a = sourceNode")
    case False
    show ?thesis
    proof (cases "snd (ensureMirror M env recv sourceNode a)")
      case (Inl e)
      with Cons.prems(1) False have "errorIs e errMirrorTerminating" by (auto split: if_splits)
      with Cons False Inl Cons.IH[of primary True] show ?thesis by auto
    next
      case (Inr m)
      with Cons.prems False Cons.IH show ?thesis by auto
    qed
  qed (use Cons in auto)
qed simp

lemma live_bound:
  assumes "live_receiver env key recv" "retries_ok env"
    "UpdateReceiverStatus r \<in> set (fst (reconcile_receiver cfg M env now key))" "rst_phase (recv_status r) = MxlReceiverBound"
  obtains targets res primary where "resolved cfg env recv targets res" "targets \<noteq> []" "res_found res"
    "snd (ensure_targets M env recv (res_node res) targets None False) = Inr (Ensured primary False)"
    "recv_meta r = recv_meta recv" "recv_spec r = recv_spec recv" "rst_boundMirror (recv_status r) = primary"
    "rst_observedGeneration (recv_status r) = om_generation (recv_meta recv)"
    "set (fst (ensure_targets M env recv (res_node res) targets None False)) \<subseteq> set (fst (reconcile_receiver cfg M env now key))"
proof -
  have w: "UpdateReceiverStatus r \<in> set (fst (reconcile_live cfg M env now recv))"
    using live_write[OF assms(1,3)] by simp
  then show thesis
  proof (cases rule: reconcile_live_write_cases)
    case (gc targets res desired)
    from assms(2) gc(4) show ?thesis by (cases rule: gcOrphanMirrors_writes) (auto simp: is_release_def)
  next
    case (ensure targets res)
    have "retry_runs (re_retry env)" using assms(2) by (simp add: retries_ok_def)
    from ensure_targets_writes[OF this ensure(3)] show ?thesis by (auto simp: is_ensure_def)
  next
    case (pending reason)
    then show ?thesis using assms(4) by (auto dest!: markPending_writes)
  next
    case (bound targets res primary)
    obtain pre where "fst (reconcile_receiver cfg M env now key) = pre @ fst (reconcile_live cfg M env now recv)"
      using reconcile_receiver_live[OF assms(1), of cfg M now] by metis
    with markBound_writes[OF bound(5)] bound(1-4,6) show ?thesis
      by (intro that[of targets res primary]) (auto simp: with_status_def)
  qed
qed


text \<open>A bound receiver is looked at again one second after its origin's Lease runs out, unless that instant has
  passed when the status has been written: then no wake-up is asked for at all.\<close>

theorem bound_receiver_wakes_after_deadline:
  assumes "live_receiver env key recv" "retries_ok env"
    "UpdateReceiverStatus r \<in> set (fst (reconcile_receiver cfg M env now key))" "rst_phase (recv_status r) = MxlReceiverBound"
    "snd (reconcile_receiver cfg M env now key) = Inr result"
    "resolveSourceNode cfg env (flowref_name (receiver_ref recv)) = Inr res"
    "res_deadline res \<noteq> 0" "\<bar>res_deadline res - now\<bar> < 2 ^ 62"
  shows "\<not> requeue result \<and>
     requeueAfter result = (if now < res_deadline res + second then res_deadline res + second - now else 0)"
proof -
  obtain targets res' primary where b: "resolved cfg env recv targets res'" "targets \<noteq> []" "res_found res'"
    "snd (ensure_targets M env recv (res_node res') targets None False) = Inr (Ensured primary False)"
    using live_bound[OF assms(1-4)] by metis
  have res: "res' = res" using b(1) assms(6) by (simp add: resolved_def)
  have "snd (bind_receiver cfg M env now recv targets res) = Inr result"
    using reconcile_receiver_live[OF assms(1), of cfg M now] assms(5) b(2,3)
    by (metis reconcile_live_eq[OF b(1)] res length_0_conv)
  then have "snd (io_bind (markBound cfg env recv primary) (\<lambda>result. io_ret (wake_at_deadline now res result))) = Inr result"
    unfolding bind_receiver_def using b(4) res by (auto elim!: io_bind_okE)
  moreover have "snd (markBound cfg env recv primary) = Inr x \<Longrightarrow> x = no_requeue" for x
    unfolding markBound_def Let_def by (auto elim!: io_bind_okE)
  ultimately have "result = wake_at_deadline now res no_requeue" by (auto elim!: io_bind_okE)
  then show ?thesis using assms(7,8)
    by (simp add: wake_at_deadline_def no_requeue_def Let_def time_sub_id add64_id second_def)
qed

text \<open>C14. A receiver whose every consumer already runs on the flow's own node never becomes Bound. With an event
  recorder, as the operator is wired, the pass dereferences a nil mirror reference while formatting the Bound event
  and writes no status; the error repeats on every pass.\<close>

theorem local_receiver_panics:
  assumes "live_receiver env key recv" "resolved cfg env recv targets res" "targets \<noteq> []" "res_found res"
    "wanted res targets = []" "rc_recorder cfg" "rst_phase (recv_status recv) \<noteq> MxlReceiverBound"
    "snd (gcOrphanMirrors cfg env recv []) = Inr ()"
  shows "snd (reconcile_receiver cfg M env now key) = Inl nil_panic \<and>
     fst (reconcile_live cfg M env now recv) = fst (gcOrphanMirrors cfg env recv [])"
proof -
  have "ensure_targets M env recv node ts primary terminating = io_ret (Ensured primary terminating)"
    if "filter (\<lambda>t. nt_node t \<noteq> node) ts = []" for node ts primary terminating
    using that by (induction ts) (auto split: if_splits)
  then have ens: "ensure_targets M env recv (res_node res) targets None False = io_ret (Ensured None False)"
    using assms(5) by (simp add: wanted_def)
  have des: "desired_of recv (res_node res) targets = []" using assms(5) by (simp add: desired_of_def wanted_def)
  have "markBound cfg env recv None = io_fail nil_panic" using assms(6,7) by (simp add: markBound_def)
  then have bind: "bind_receiver cfg M env now recv targets res =
      io_bind (io_wrap ''gc orphan mirrors'' (gcOrphanMirrors cfg env recv [])) (\<lambda>_. io_fail nil_panic)"
    by (simp add: bind_receiver_def ens des)
  have "reconcile_live cfg M env now recv = bind_receiver cfg M env now recv targets res"
    using assms(3,4) by (simp add: reconcile_live_eq[OF assms(2)])
  then have live: "snd (reconcile_live cfg M env now recv) = Inl nil_panic"
    "fst (reconcile_live cfg M env now recv) = fst (gcOrphanMirrors cfg env recv [])"
    using assms(8) unfolding bind by (simp_all add: io_bind_def io_wrap_def)
  moreover have "snd (reconcile_receiver cfg M env now key) = snd (reconcile_live cfg M env now recv)"
    using reconcile_receiver_live[OF assms(1), of cfg M now] by metis
  ultimately show ?thesis by simp
qed

subsection \<open>Deletion\<close>

text \<open>The finalizer holds a deleted receiver until its cross-namespace mirrors are gone. The update that removes it
  is issued only when the second listing is empty, and removes nothing else; while that listing is not, the pass
  ends asking for another in two seconds. The only mirrors deleted are those of other namespaces that carry both
  labels of this receiver, and no owner list is touched, so mirrors shared with siblings stay theirs.\<close>

theorem finalizer_waits_for_cross_namespace_mirrors:
  assumes "re_receiver env key = Inr recv" "om_deletionTimestamp (recv_meta recv) \<noteq> 0"
    "w \<in> set (fst (reconcile_receiver cfg M env now key))"
  shows "(case w of
      UpdateReceiver r \<Rightarrow>
        listOwnedCrossNsMirrorsFrom (liveReader env 1) recv = Inr [] \<and>
        r = with_finalizers recv (removeAll MxlReceiverFinalizer (om_finalizers (recv_meta recv)))
    | DeleteOwnedMirror k v \<Rightarrow> v = None \<and> labelled_for (liveReader env 0) recv k
    | ReleaseEvent k msg \<Rightarrow> True
    | _ \<Rightarrow> False) \<and>
    (listOwnedCrossNsMirrorsFrom (liveReader env 1) recv = Inr (m # ms) \<longrightarrow>
       snd (reconcile_receiver cfg M env now key) = Inr result \<longrightarrow> result = after (2 * second))"
proof -
  let ?del = "\<lambda>m. if om_deletionTimestamp (mir_meta m) \<noteq> 0 then io_ret ()
      else delete_cross cfg env ''Deleting: the requesting MxlReceiver is going away'' ''delete cross-ns mirror '' m"
  have rec: "reconcile_receiver cfg M env now key = handleDeletion cfg env recv"
    using assms(1,2) by (simp add: reconcile_receiver_def)
  have fin: "MxlReceiverFinalizer \<in> set (om_finalizers (recv_meta recv))"
    using assms(3) unfolding rec handleDeletion_def by (auto split: if_splits)
  from assms(3) fin consider
      ms where "listOwnedCrossNsMirrorsFrom (liveReader env 0) recv = Inr ms" "w \<in> set (fst (io_each ?del ms))"
    | "listOwnedCrossNsMirrorsFrom (liveReader env 1) recv = Inr []"
      "w = UpdateReceiver (with_finalizers recv (filter (\<lambda>f. f \<noteq> MxlReceiverFinalizer) (om_finalizers (recv_meta recv))))"
    unfolding rec handleDeletion_def Let_def
    by (auto simp: io_bind_writes_iff io_wrap_def split: if_splits sum.splits)
  then have first: "case w of
      UpdateReceiver r \<Rightarrow>
        listOwnedCrossNsMirrorsFrom (liveReader env 1) recv = Inr [] \<and>
        r = with_finalizers recv (removeAll MxlReceiverFinalizer (om_finalizers (recv_meta recv)))
    | DeleteOwnedMirror k v \<Rightarrow> v = None \<and> labelled_for (liveReader env 0) recv k
    | ReleaseEvent k msg \<Rightarrow> True | _ \<Rightarrow> False"
  proof cases
    case 1
    then obtain m where m: "m \<in> set ms" "w \<in> set (fst (?del m))" by (blast dest: io_each_writes)
    from m(2) have "w = DeleteOwnedMirror (objectKey (mir_meta m)) None \<or> (\<exists>msg. w = ReleaseEvent (objectKey (mir_meta m)) msg)"
      by (auto dest!: delete_cross_writes split: if_splits)
    then show ?thesis using listed_cross_ns[OF 1(1) m(1)] by auto
  next
    case 2
    then show ?thesis by (simp add: removeAll_filter_not_eq eq_commute)
  qed
  have "result = after (2 * second)"
    if "listOwnedCrossNsMirrorsFrom (liveReader env 1) recv = Inr (m # ms)"
      "snd (reconcile_receiver cfg M env now key) = Inr result"
    using that fin unfolding rec handleDeletion_def by (auto elim!: io_bind_okE)
  with first show ?thesis by blast
qed

subsection \<open>On concrete objects\<close>

definition example_receiver :: "unit MxlReceiver" where
  "example_receiver = \<lparr>recv_meta = (witness_meta ''r'')\<lparr>om_namespace := ''ns'', om_uid := ''ru'', om_finalizers := [MxlReceiverFinalizer]\<rparr>,
     recv_spec = \<lparr>rs_flowID = ''f'', rs_domain = '''', rs_podSelector = Some (), rs_podRef = None, rs_provider = ProviderTCP\<rparr>,
     recv_status = \<lparr>rst_boundMirror = None, rst_phase = ReceiverPhaseUnset, rst_observedGeneration = 0, rst_conditions = []\<rparr>\<rparr>"

definition example_pod :: "string \<Rightarrow> Pod" where
  "example_pod node = \<lparr>pod_meta = (witness_meta ''p'')\<lparr>om_namespace := ''ns'', om_uid := ''pu''\<rparr>, pod_nodeName = node\<rparr>"

text \<open>A mirror on node z this receiver alone owns.\<close>

definition example_owned :: MxlFlowMirror where
  "example_owned = set_owners (witness_mirror ''f--z'') [ownerRefFor example_receiver]"

definition example_cross :: MxlFlowMirror where
  "example_cross = (witness_mirror ''f--c'')\<lparr>mir_meta := (witness_meta ''f--c'')\<lparr>om_namespace := ''other'',
     om_labels := [(LabelCreatedByReceiverNamespace, ''ns'')]\<rparr>\<rparr>"

definition example_reader :: "MxlFlowMirror list \<Rightarrow> nat \<Rightarrow> mirror_reader" where
  "example_reader labelled i = \<lparr>rd_byOwner = (\<lambda>ns uid. if ns = ''ns'' then Inr [example_owned] else Inr []),
     rd_inNamespace = (\<lambda>ns. Inr []), rd_byLabel = (\<lambda>ns name. Inr []),
     rd_labelled = (\<lambda>name. Inr (if i = 0 then labelled else []))\<rparr>"

definition example_recv_env :: "unit MxlReceiver \<Rightarrow> Pod list \<Rightarrow> (unit, unit) receiver_env" where
  "example_recv_env recv pods = \<lparr>
     re_receiver = (\<lambda>k. Inr recv), re_update = Inr, re_updateStatus = Inr,
     re_pod = (\<lambda>k. Inl ENotFound), re_selector = (\<lambda>_. Inr ()), re_pods = (\<lambda>ns _. Inr pods),
     re_flow = (\<lambda>name. Inr witness_flow), re_domain = (\<lambda>_. Inl ENotFound), re_caps = (\<lambda>_. Inl ENotFound),
     re_client = example_reader [example_cross], re_apiReader = None,
     re_mirror = (\<lambda>i k. Inl ENotFound),
     re_live = (\<lambda>stage k i. if k = objectKey (mir_meta example_owned) then Inr example_owned else Inl ENotFound), re_create = Inr,
     re_updateMirror = (\<lambda>i m. Inr (m\<lparr>mir_meta := (mir_meta m)\<lparr>om_resourceVersion := ''2''\<rparr>\<rparr>)),
     re_patch = (\<lambda>m p. Inr (m\<lparr>mir_spec := applied_patch p (mir_spec m)\<rparr>)), re_delete = (\<lambda>k v i. Inr ()),
     re_retry = bounded_retry 5 0, re_retryRelease = bounded_retry 5 0\<rparr>"

definition example_recv_config :: "(NamespacedName \<Rightarrow> go_error + Lease) option \<Rightarrow> time \<Rightarrow> receiver_config" where
  "example_recv_config client now = \<lparr>rc_recorder = True, rc_lease = Some (isFresh client now)\<rparr>"

abbreviation example_recv_key :: NamespacedName where
  "example_recv_key \<equiv> \<lparr>nn_namespace = ''ns'', nn_name = ''r''\<rparr>"

lemma example_recv_ok [simp]:
  "retries_ok (example_recv_env recv pods)" "reader_ok (re_client (example_recv_env recv pods) i)"
  "api_faithful (example_recv_env recv pods)" "mirrors_as_named (example_recv_env recv pods) recv'"
  by (simp_all add: mirrors_as_named_def retries_ok_def example_recv_env_def bounded_retry_runs reader_ok_def example_reader_def example_owned_def
      witness_mirror_def set_owners_def api_faithful_def objectKey_def)

lemma example_recv_live [simp]: "live_receiver (example_recv_env example_receiver pods) k example_receiver"
  by (simp add: live_receiver_def example_recv_env_def example_receiver_def witness_meta_def)

abbreviation example_recv_run :: "Pod list \<Rightarrow> time \<Rightarrow> (unit receiver_write, Result) io" where
  "example_recv_run pods now \<equiv>
     reconcile_receiver (example_recv_config (Some witness_lease) now) list_meta_api (example_recv_env example_receiver pods) now example_recv_key"

abbreviation example_lost_key :: NamespacedName where
  "example_lost_key \<equiv> \<lparr>nn_namespace = ''ns'', nn_name = ''f--z''\<rparr>"


theorem unresolved_origin_keeps_mirrors_witness:
  "list_all (\<lambda>w. touched w = None) (fst (example_recv_run [example_pod ''c''] (100 * second)))"
  by (rule conjunct1[OF unresolved_origin_keeps_mirrors[where recv = example_receiver and
        targets = "[\<lparr>nt_node = ''c'', nt_namespace = ''ns'', nt_pod = Some (example_pod ''c'')\<rparr>]" and
        res = "no_origin\<lparr>res_allStale := True\<rparr>"]])
    (simp, simp add: resolved_def, code_simp, simp, simp add: no_origin_def)

theorem sibling_owners_are_kept_witness:
  "\<exists>stage k i m. re_live (example_recv_env example_receiver []) stage k i = Inr m \<and>
     set_owners example_owned [] = set_owners m (om_ownerReferences (mir_meta (set_owners example_owned []))) \<and>
     others (om_uid (recv_meta example_receiver)) (om_ownerReferences (mir_meta (set_owners example_owned []))) =
       others (om_uid (recv_meta example_receiver)) (om_ownerReferences (mir_meta m)) \<and>
     (owned_by (om_uid (recv_meta example_receiver)) (set_owners example_owned []) \<longleftrightarrow> stage = AtOwn)"
  by (rule sibling_owners_are_kept[where key = example_recv_key and M = list_meta_api and now = 2000 and
        cfg = "example_recv_config (Some witness_lease) 2000"])
    (simp, simp, code_simp)

definition example_bound :: "unit MxlReceiver" where
  "example_bound = with_status example_receiver \<lparr>rst_boundMirror = Some \<lparr>mr_name = ''f--c'', mr_namespace = ''ns''\<rparr>,
     rst_phase = MxlReceiverBound, rst_observedGeneration = 1, rst_conditions = []\<rparr>"

lemma example_bound_written:
  "UpdateReceiverStatus example_bound \<in> set (fst (example_recv_run [example_pod ''c''] 2000))"
  "rst_phase (recv_status example_bound) = MxlReceiverBound"
  by code_simp+


theorem bound_receiver_wakes_after_deadline_witness:
  "\<not> requeue (after 30999999000) \<and>
   requeueAfter (after 30999999000) =
     (if 2000 < res_deadline (no_origin\<lparr>res_node := ''b'', res_found := True, res_deadline := 30000001000\<rparr>) + second
      then res_deadline (no_origin\<lparr>res_node := ''b'', res_found := True, res_deadline := 30000001000\<rparr>) + second - 2000 else 0)"
  by (rule bound_receiver_wakes_after_deadline[OF example_recv_live example_recv_ok(1) example_bound_written])
    (code_simp, code_simp, code_simp, simp add: no_origin_def)

theorem local_receiver_panics_witness:
  "snd (example_recv_run [example_pod ''b''] 2000) = Inl nil_panic"
  by (rule conjunct1[OF local_receiver_panics[where recv = example_receiver and
        targets = "[\<lparr>nt_node = ''b'', nt_namespace = ''ns'', nt_pod = Some (example_pod ''b'')\<rparr>]" and
        res = "no_origin\<lparr>res_node := ''b'', res_found := True, res_deadline := 30000001000\<rparr>"]])
    (simp, simp add: resolved_def, code_simp, simp, simp add: no_origin_def, code_simp, code_simp, code_simp, code_simp)

definition example_deleted :: "unit MxlReceiver" where
  "example_deleted = example_receiver\<lparr>recv_meta := (recv_meta example_receiver)\<lparr>om_deletionTimestamp := 5\<rparr>\<rparr>"

theorem finalizer_waits_for_cross_namespace_mirrors_witness:
  "listOwnedCrossNsMirrorsFrom (liveReader (example_recv_env example_deleted []) 1) example_deleted = Inr [] \<and>
   with_finalizers example_deleted [] =
     with_finalizers example_deleted (removeAll MxlReceiverFinalizer (om_finalizers (recv_meta example_deleted)))"
  using finalizer_waits_for_cross_namespace_mirrors[where w = "UpdateReceiver (with_finalizers example_deleted [])" and
      env = "example_recv_env example_deleted []" and key = example_recv_key and recv = example_deleted and M = list_meta_api and now = 0 and
      cfg = "example_recv_config (Some witness_lease) 2000"]
  by simp code_simp

end
