(* ===== verification/Merge_Discrete.thy ===== *)
theory Merge_Discrete
  imports Mxl_Prelude
begin

section \<open>Merging video and data flows (gateway/internal/merge/policy.go)\<close>

text \<open>
  The policy that decides, grain by grain, which member of a redundancy set the output shows. An output is a ring of
  views; pointing the view of a slot at a member shows readers that member's grain. \<open>step\<close> advances the published head,
  \<open>retire\<close> moves slots whose member is about to write over them, \<open>drop\<close> empties a member's slots before its ring is
  replaced.

  A \<^verbatim>\<open>uint64\<close> is an integer with the wrap-around written out (\<open>u64\<close>). An index past the end of a slice and a
  division by zero are panics, error values of \<open>Step\<close> and \<open>Retire\<close>. A member is what the policy sees of its ring:
  the head and the header of each slot.
\<close>

type_synonym uint64 = int

definition u64 :: "int \<Rightarrow> uint64" where
  "u64 x = x mod 2 ^ 64"

abbreviation in_u64 :: "int \<Rightarrow> bool" where
  "in_u64 x \<equiv> 0 \<le> x \<and> x < 2 ^ 64"

lemma u64_id [simp]: "in_u64 x \<Longrightarrow> u64 x = x"
  by (simp add: u64_def)

definition index_panic :: go_error where "index_panic = EOther ''index out of range''"
definition divide_panic :: go_error where "divide_panic = EOther ''integer divide by zero''"

subsection \<open>State\<close>

record Grain =
  g_index :: uint64
  g_invalid :: bool
  g_validSlices :: int
  g_totalSlices :: int

record Member =
  mb_head :: uint64
  mb_grain :: "int \<Rightarrow> Grain"

record Discrete =
  d_grains :: int
  d_data :: bool
  d_skew :: uint64
  d_tolerance :: duration
  d_ordered :: bool
  d_placeholder :: int
  d_head :: uint64
  d_primary :: int
  d_current :: "int list"
  d_waitingIndex :: uint64
  d_waitingSince :: time
  d_seen :: "uint64 list"
  d_late :: "uint64 list"

record Select =
  sel_slot :: int
  sel_source :: int
  sel_index :: uint64

definition toleranceFor :: "duration \<Rightarrow> duration" where
  "toleranceFor skew = max (quot64 skew 2) (2 * millisecond)"

definition newDiscrete :: "nat \<Rightarrow> int \<Rightarrow> Discrete" where
  "newDiscrete grains placeholder = \<lparr>d_grains = int grains, d_data = False, d_skew = 0, d_tolerance = 2 * millisecond,
     d_ordered = False, d_placeholder = placeholder, d_head = 0, d_primary = -1, d_current = replicate grains placeholder,
     d_waitingIndex = 0, d_waitingSince = 0, d_seen = [], d_late = []\<rparr>"

subsection \<open>Which member serves an index\<close>

definition serves :: "Discrete \<Rightarrow> Member \<Rightarrow> uint64 \<Rightarrow> bool" where
  "serves d m index =
     (if mb_head m < index \<or> u64 (mb_head m - index) > u64 (d_grains d - 2) then False
      else let g = mb_grain m (index mod d_grains d)
           in if g_index g \<noteq> index \<or> g_invalid g then False
              else d_data d \<or> g_validSlices g \<ge> g_totalSlices g)"

text \<open>The loop over the members: the primary when it serves the index, and the first other member that does.\<close>

fun scan :: "Discrete \<Rightarrow> uint64 \<Rightarrow> int \<Rightarrow> Member list \<Rightarrow> int \<times> int \<Rightarrow> int \<times> int" where
  "scan d index i [] (pick, alt) = (pick, alt)"
| "scan d index i (m # ms) (pick, alt) =
     (if \<not> serves d m index then scan d index (i + 1) ms (pick, alt)
      else if d_ordered d \<and> i = d_primary d then scan d index (i + 1) ms (i, alt)
      else if alt < 0 then scan d index (i + 1) ms (pick, i)
      else scan d index (i + 1) ms (pick, alt))"

subsection \<open>Step\<close>

text \<open>What one turn of the loop decides: return with a wait, break, or publish the index from a source.\<close>

datatype turn = Wait Discrete duration | Stop Discrete | Publish Discrete int

definition lead_of :: "Member list \<Rightarrow> uint64" where
  "lead_of ms = fold (\<lambda>m lead. if mb_head m > lead then mb_head m else lead) ms 0"

definition waited :: "Discrete \<Rightarrow> uint64 \<Rightarrow> time \<Rightarrow> Discrete" where
  "waited d index now =
     (if d_waitingIndex d \<noteq> index then d\<lparr>d_waitingIndex := index, d_waitingSince := now\<rparr> else d)"

definition decide_turn :: "Member list \<Rightarrow> uint64 \<Rightarrow> time \<Rightarrow> Discrete \<Rightarrow> uint64 \<Rightarrow> go_error + turn" where
  "decide_turn ms lead now d index =
     (case scan d index 0 ms (-1, -1) of (pick0, alt) \<Rightarrow>
        let pick = (if \<not> d_ordered d \<and> alt \<ge> 0 \<and> pick0 < 0 then alt else pick0)
        in if pick < 0 \<and> alt \<ge> 0
           then (let d1 = waited d index now
                 in if d_primary d1 < 0 then Inr (Publish d1 alt)
                    else if nat (d_primary d1) \<ge> length ms then Inl index_panic
                    else if mb_head (ms ! nat (d_primary d1)) \<ge> index then Inr (Publish d1 alt)
                    else if time_sub now (d_waitingSince d1) \<ge> d_tolerance d1 then Inr (Publish (d1\<lparr>d_primary := alt\<rparr>) alt)
                    else Inr (Wait d1 (sub64 (d_tolerance d1) (time_sub now (d_waitingSince d1)))))
           else if pick < 0
           then (if lead < u64 (index + d_skew d) then Inr (Stop d) else Inr (Publish d (d_placeholder d)))
           else Inr (Publish d pick))"

text \<open>The end of a turn that publishes: the first member served becomes the primary, and the slot is selected
  when it shows something else.\<close>

definition publish_turn :: "Discrete \<Rightarrow> uint64 \<Rightarrow> int \<Rightarrow> go_error + (Discrete \<times> Select list)" where
  "publish_turn d index pick =
     (let d1 = (if d_primary d < 0 \<and> pick \<noteq> d_placeholder d then d\<lparr>d_primary := pick\<rparr> else d);
          slot = index mod d_grains d1
      in if nat slot \<ge> length (d_current d1) then Inl index_panic
         else if d_current d1 ! nat slot \<noteq> pick
         then Inr (d1\<lparr>d_current := (d_current d1)[nat slot := pick], d_head := index\<rparr>,
                   [\<lparr>sel_slot = slot, sel_source = pick, sel_index = index\<rparr>])
         else Inr (d1\<lparr>d_head := index\<rparr>, []))"

lemma publish_turn_head: "publish_turn d index pick = Inr (d', s) \<Longrightarrow> d_head d' = index"
  by (auto simp: publish_turn_def Let_def split: if_splits)

text \<open>The head stays below the lead, so the index after it does not wrap.\<close>

function step_loop ::
  "Member list \<Rightarrow> uint64 \<Rightarrow> time \<Rightarrow> Discrete \<Rightarrow> Select list \<Rightarrow> go_error + (Discrete \<times> Select list \<times> duration)" where
  "step_loop ms lead now d sels =
     (if d_head d < lead
      then (if d_grains d = 0 then Inl divide_panic
            else case decide_turn ms lead now d (d_head d + 1) of
                   Inl e \<Rightarrow> Inl e
                 | Inr (Wait d' w) \<Rightarrow> Inr (d', sels, w)
                 | Inr (Stop d') \<Rightarrow> Inr (d', sels, 0)
                 | Inr (Publish d' pick) \<Rightarrow>
                     (case publish_turn d' (d_head d + 1) pick of
                        Inl e \<Rightarrow> Inl e
                      | Inr (d'', s) \<Rightarrow> step_loop ms lead now d'' (sels @ s)))
      else Inr (d, sels, 0))"
  by pat_completeness auto

termination
  by (relation "measure (\<lambda>(ms, lead, now, d, sels). nat (lead - d_head d))") (auto dest: publish_turn_head)

declare step_loop.simps [simp del]

text \<open>The published head is part of the returned state. In \<open>retire_loop\<close> below the index does not wrap either, unless
  the head is the last \<^verbatim>\<open>uint64\<close>.\<close>

definition begin_step :: "Member list \<Rightarrow> Discrete \<Rightarrow> Discrete" where
  "begin_step ms d =
     (let d1 = (if d_ordered d \<and> d_primary d < 0 then d\<lparr>d_primary := 0\<rparr> else d)
      in if d_head d1 = 0 \<and> lead_of ms > 0 then d1\<lparr>d_head := lead_of ms - 1\<rparr> else d1)"

definition step :: "Member list \<Rightarrow> time \<Rightarrow> Discrete \<Rightarrow> go_error + (Discrete \<times> Select list \<times> duration)" where
  "step ms now d = step_loop ms (lead_of ms) now (begin_step ms d) []"

subsection \<open>Retire\<close>

text \<open>What \<^verbatim>\<open>Retire\<close> remembers of each member: the head it last saw and how far that was behind.\<close>

fun note_late :: "uint64 \<Rightarrow> Member list \<Rightarrow> uint64 list \<Rightarrow> uint64 list \<Rightarrow> (uint64 \<times> uint64) list" where
  "note_late due (m # ms) (s # ss) (l # ls) =
     (if mb_head m \<noteq> s then (mb_head m, due - min due (mb_head m)) else (s, l)) # note_late due ms ss ls"
| "note_late due _ _ _ = []"

definition noted :: "Member list \<Rightarrow> uint64 \<Rightarrow> Discrete \<Rightarrow> Discrete" where
  "noted ms due d =
     (let seen = (if length (d_seen d) \<noteq> length ms then replicate (length ms) 0 else d_seen d);
          late = (if length (d_seen d) \<noteq> length ms then replicate (length ms) 0 else d_late d);
          nl = note_late due ms seen late
      in d\<lparr>d_seen := map fst nl, d_late := map snd nl\<rparr>)"

text \<open>The highest index a member may write before the next pass.\<close>

definition next_write :: "Member list \<Rightarrow> uint64 \<Rightarrow> Discrete \<Rightarrow> nat \<Rightarrow> uint64" where
  "next_write ms due d m = max (u64 (mb_head (ms ! m) + 1)) (due - min due (d_late d ! m))"

definition reach_of :: "Member list \<Rightarrow> uint64 \<Rightarrow> Discrete \<Rightarrow> uint64" where
  "reach_of ms due d = fold (\<lambda>m r. max r (next_write ms due d m)) [0..<length ms] 0"

definition oldest_trusted :: "Discrete \<Rightarrow> uint64" where
  "oldest_trusted d = (if u64 (d_head d + 2) > d_grains d then u64 (d_head d + 2 - d_grains d) else 1)"

definition replacement :: "Member list \<Rightarrow> uint64 \<Rightarrow> Discrete \<Rightarrow> uint64 \<Rightarrow> int \<Rightarrow> int" where
  "replacement ms due d i cur =
     (case find_first (\<lambda>m. int m \<noteq> cur \<and> serves d (ms ! m) i \<and> next_write ms due d m < u64 (i + d_grains d)) [0..<length ms] of
        None \<Rightarrow> d_placeholder d | Some m \<Rightarrow> int m)"

definition retire_index :: "Member list \<Rightarrow> uint64 \<Rightarrow> Discrete \<Rightarrow> uint64 \<Rightarrow> go_error + (Discrete \<times> Select list)" where
  "retire_index ms due d i =
     (let slot = i mod d_grains d
      in if d_grains d = 0 then Inl divide_panic
         else if nat slot \<ge> length (d_current d) then Inl index_panic
         else let cur = d_current d ! nat slot
              in if cur = d_placeholder d then Inr (d, [])
                 else if cur < 0 \<or> nat cur \<ge> length ms then Inl index_panic
                 else if next_write ms due d (nat cur) < u64 (i + d_grains d) then Inr (d, [])
                 else let to = replacement ms due d i cur
                      in Inr (d\<lparr>d_current := (d_current d)[nat slot := to]\<rparr>,
                              [\<lparr>sel_slot = slot, sel_source = to, sel_index = i\<rparr>]))"

lemma retire_index_keeps: "retire_index ms due d i = Inr (d', s) \<Longrightarrow> d_head d' = d_head d \<and> d_grains d' = d_grains d"
  by (auto simp: retire_index_def Let_def split: if_splits)

function retire_loop :: "Member list \<Rightarrow> uint64 \<Rightarrow> uint64 \<Rightarrow> uint64 \<Rightarrow> Discrete \<Rightarrow> Select list \<Rightarrow> go_error + (Discrete \<times> Select list)" where
  "retire_loop ms due reach i d sels =
     (if i \<le> d_head d \<and> u64 (i + d_grains d) \<le> reach
      then (case retire_index ms due d i of
              Inl e \<Rightarrow> Inl e
            | Inr (d', s) \<Rightarrow> retire_loop ms due reach (i + 1) d' (sels @ s))
      else Inr (d, sels))"
  by pat_completeness auto

termination
  by (relation "measure (\<lambda>(ms, due, reach, i, d, sels). nat (d_head d + 1 - i))") (auto dest: retire_index_keeps)

declare retire_loop.simps [simp del]

definition retire :: "Member list \<Rightarrow> uint64 \<Rightarrow> Discrete \<Rightarrow> go_error + (Discrete \<times> Select list)" where
  "retire ms due d =
     (let d1 = noted ms due d
      in retire_loop ms due (reach_of ms due d1) (oldest_trusted d1) d1 [])"

subsection \<open>Drop\<close>

text \<open>The index a slot holds below the published head, when it holds one.\<close>

definition slot_index :: "Discrete \<Rightarrow> nat \<Rightarrow> uint64 option" where
  "slot_index d slot =
     (let back = u64 (d_head d mod d_grains d + d_grains d - int slot) mod d_grains d
      in if d_head d \<ge> back then Some (d_head d - back) else None)"

definition drop_to :: "Member list \<Rightarrow> Discrete \<Rightarrow> int \<Rightarrow> nat \<Rightarrow> int \<times> uint64" where
  "drop_to ms d m slot =
     (case slot_index d slot of
        None \<Rightarrow> (d_placeholder d, 0)
      | Some index \<Rightarrow>
          (case find_first (\<lambda>o'. int o' \<noteq> m \<and> serves d (ms ! o') index) [0..<length ms] of
             None \<Rightarrow> (d_placeholder d, index) | Some o' \<Rightarrow> (int o', index)))"

fun drop_slots :: "Member list \<Rightarrow> int \<Rightarrow> nat list \<Rightarrow> Discrete \<Rightarrow> Select list \<Rightarrow> Discrete \<times> Select list" where
  "drop_slots ms m [] d sels = (d, sels)"
| "drop_slots ms m (slot # slots) d sels =
     (if d_current d ! slot \<noteq> m then drop_slots ms m slots d sels
      else case drop_to ms d m slot of (to, index) \<Rightarrow>
        drop_slots ms m slots (d\<lparr>d_current := (d_current d)[slot := to]\<rparr>)
          (sels @ [\<lparr>sel_slot = int slot, sel_source = to, sel_index = index\<rparr>]))"

definition drop_member :: "Member list \<Rightarrow> int \<Rightarrow> Discrete \<Rightarrow> Discrete \<times> Select list" where
  "drop_member ms m d = drop_slots ms m [0..<length (d_current d)] d []"

subsection \<open>Well-formed states\<close>

text \<open>A policy over \<open>n\<close> members as the engine builds it: the ring has two slots or more, every slot shows a member or
  the placeholder, which is the source after the last member.\<close>

definition wf_discrete :: "nat \<Rightarrow> Discrete \<Rightarrow> bool" where
  "wf_discrete n d \<longleftrightarrow> 2 \<le> d_grains d \<and> d_grains d < 2 ^ 32 \<and> int (length (d_current d)) = d_grains d \<and>
     d_placeholder d = int n \<and> set (d_current d) \<subseteq> {0..int n} \<and> -1 \<le> d_primary d \<and> d_primary d < int n \<and>
     in_u64 (d_head d) \<and> length (d_late d) = length (d_seen d) \<and> set (d_late d) \<subseteq> {0..}"

definition heads_ok :: "Member list \<Rightarrow> bool" where
  "heads_ok ms \<longleftrightarrow> (\<forall>m \<in> set ms. in_u64 (mb_head m))"

named_theorems discrete_frame \<open>what an operation leaves alone\<close>

text \<open>The settings of a policy: what no operation changes.\<close>

definition same_ring :: "Discrete \<Rightarrow> Discrete \<Rightarrow> bool" where
  "same_ring d d' \<longleftrightarrow> d_grains d' = d_grains d \<and> d_data d' = d_data d \<and> d_skew d' = d_skew d \<and> d_tolerance d' = d_tolerance d \<and>
     d_ordered d' = d_ordered d \<and> d_placeholder d' = d_placeholder d"

lemma same_ring_refl [simp]: "same_ring d d"
  by (simp add: same_ring_def)

lemma same_ring_trans: "same_ring d d' \<Longrightarrow> same_ring d' d'' \<Longrightarrow> same_ring d d''"
  by (simp add: same_ring_def)

lemma serves_same_ring: "same_ring d d' \<Longrightarrow> serves d' m i = serves d m i"
  by (simp add: serves_def same_ring_def)

lemma serves_bounds:
  "serves d m i \<Longrightarrow> i \<le> mb_head m \<and> g_index (mb_grain m (i mod d_grains d)) = i \<and> \<not> g_invalid (mb_grain m (i mod d_grains d))"
  by (auto simp: serves_def Let_def split: if_splits)

lemma slot_bounds: "wf_discrete n d \<Longrightarrow> 0 \<le> i mod d_grains d \<and> nat (i mod d_grains d) < length (d_current d)"
  by (simp add: wf_discrete_def nat_less_iff)

text \<open>Two indices less than a ring apart have different slots.\<close>

lemma slot_distinct:
  fixes i j g :: int
  assumes "i < j" "j < i + g"
  shows "nat (i mod g) \<noteq> nat (j mod g)"
proof
  assume "nat (i mod g) = nat (j mod g)"
  moreover have "0 \<le> i mod g" "0 \<le> j mod g" using assms by simp_all
  ultimately have "i mod g = j mod g" by linarith
  then have "g dvd j - i" by (metis mod_eq_dvd_iff)
  with assms show False using zdvd_not_zless[of "j - i" g] by simp
qed

subsection \<open>The scan\<close>

lemma scan_pick:
  "scan d index i ms (pick, alt) = (pick', alt') \<Longrightarrow> pick' \<noteq> pick \<Longrightarrow>
   \<exists>k < length ms. pick' = i + int k \<and> serves d (ms ! k) index \<and> d_ordered d \<and> pick' = d_primary d"
proof (induction ms arbitrary: i pick alt)
  case (Cons m ms)
  show ?case
  proof (cases "serves d m index \<and> d_ordered d \<and> i = d_primary d \<and> pick' = i")
    case True
    then show ?thesis by (intro exI[of _ 0]) auto
  next
    case False
    with Cons.prems obtain p a where "scan d index (i + 1) ms (p, a) = (pick', alt')" "pick' \<noteq> p"
      by (auto split: if_splits)
    from Cons.IH[OF this] obtain k where "k < length ms" "pick' = i + 1 + int k" "serves d (ms ! k) index" "d_ordered d \<and> pick' = d_primary d"
      by blast
    then show ?thesis by (intro exI[of _ "Suc k"]) auto
  qed
qed simp

lemma scan_alt:
  "scan d index i ms (pick, alt) = (pick', alt') \<Longrightarrow> alt' \<noteq> alt \<Longrightarrow>
   alt < 0 \<and> (\<exists>k < length ms. alt' = i + int k \<and> serves d (ms ! k) index)"
proof (induction ms arbitrary: i pick alt)
  case (Cons m ms)
  show ?case
  proof (cases "serves d m index \<and> alt < 0 \<and> alt' = i")
    case True
    then show ?thesis by (auto intro!: exI[of _ 0])
  next
    case False
    with Cons.prems obtain p a where a: "scan d index (i + 1) ms (p, a) = (pick', alt')" "alt' \<noteq> a" "a = alt \<or> alt < 0"
      by (auto split: if_splits)
    from Cons.IH[OF a(1,2)] obtain k where "a < 0" "k < length ms" "alt' = i + 1 + int k" "serves d (ms ! k) index"
      by blast
    with a(3) show ?thesis by (intro conjI exI[of _ "Suc k"]) auto
  qed
qed simp

lemma scan_mono:
  "0 \<le> i \<Longrightarrow> scan d index i ms (pick, alt) = (pick', alt') \<Longrightarrow> (0 \<le> pick \<longrightarrow> 0 \<le> pick') \<and> (0 \<le> alt \<longrightarrow> 0 \<le> alt')"
proof (induction ms arbitrary: i pick alt)
  case (Cons m ms)
  from Cons.prems obtain p a where "scan d index (i + 1) ms (p, a) = (pick', alt')" "0 \<le> pick \<longrightarrow> 0 \<le> p" "0 \<le> alt \<longrightarrow> 0 \<le> a"
    by (auto split: if_splits)
  with Cons.IH[of "i + 1" p a] Cons.prems(1) show ?case by auto
qed simp

lemma scan_none:
  "0 \<le> i \<Longrightarrow> scan d index i ms (pick, alt) = (pick', alt') \<Longrightarrow> pick' < 0 \<Longrightarrow> alt' < 0 \<Longrightarrow> m \<in> set ms \<Longrightarrow> \<not> serves d m index"
proof (induction ms arbitrary: i pick alt)
  case (Cons m' ms)
  have "\<not> serves d m' index"
  proof
    assume "serves d m' index"
    with Cons.prems(1,2) obtain p a where "scan d index (i + 1) ms (p, a) = (pick', alt')" "0 \<le> p \<or> 0 \<le> a"
      by (fastforce split: if_splits)
    from scan_mono[OF _ this(1)] this(2) Cons.prems(1,3,4) show False by linarith
  qed
  moreover from this Cons.prems(2) have "scan d index (i + 1) ms (pick, alt) = (pick', alt')" by simp
  ultimately show ?case using Cons.IH[of "i + 1" pick alt] Cons.prems by auto
qed simp

lemma scan_primary:
  "scan d index i ms (pick, alt) = (pick', alt') \<Longrightarrow> d_ordered d \<Longrightarrow> k < length ms \<Longrightarrow> d_primary d = i + int k \<Longrightarrow>
   serves d (ms ! k) index \<Longrightarrow> pick' = d_primary d"
proof (induction ms arbitrary: i pick alt k)
  case (Cons m ms)
  show ?case
  proof (cases k)
    case 0
    with Cons.prems have "scan d index (i + 1) ms (d_primary d, alt) = (pick', alt')" by simp
    then show ?thesis using scan_pick by metis
  next
    case (Suc j)
    with Cons.prems obtain p a where "scan d index (i + 1) ms (p, a) = (pick', alt')" by (auto split: if_splits)
    from Cons.IH[OF this Cons.prems(2), of j] Cons.prems Suc show ?thesis by simp
  qed
qed simp

subsection \<open>One turn\<close>

text \<open>A source that may be shown for an index: a member that serves it, or the placeholder when none does and the
  leading member is the skew ahead.\<close>

definition good_source :: "Member list \<Rightarrow> uint64 \<Rightarrow> Discrete \<Rightarrow> uint64 \<Rightarrow> int \<Rightarrow> bool" where
  "good_source ms lead d i src \<longleftrightarrow>
     (\<exists>k < length ms. src = int k \<and> serves d (ms ! k) i) \<or>
     (src = d_placeholder d \<and> (\<forall>m \<in> set ms. \<not> serves d m i) \<and> u64 (i + d_skew d) \<le> lead)"

definition none_serves :: "Member list \<Rightarrow> Discrete \<Rightarrow> uint64 \<Rightarrow> bool" where
  "none_serves ms d i \<longleftrightarrow> (\<forall>m \<in> set ms. \<not> serves d m i)"

text \<open>The primary is replaced only by a member that serves the index while the primary has not reached it and the
  tolerance has passed since the index was first waited for.\<close>

definition replaces_late_primary :: "Member list \<Rightarrow> time \<Rightarrow> Discrete \<Rightarrow> uint64 \<Rightarrow> Discrete \<Rightarrow> bool" where
  "replaces_late_primary ms now d index d' \<longleftrightarrow>
     0 \<le> d_primary d \<and> d_primary d' \<noteq> d_primary d \<and> mb_head (ms ! nat (d_primary d)) < index \<and>
     time_sub now (d_waitingSince (waited d index now)) \<ge> d_tolerance d"

lemma waited_frame:
  "same_ring d (waited d index now)" "d_current (waited d index now) = d_current d" "d_head (waited d index now) = d_head d"
  "d_primary (waited d index now) = d_primary d" "d_seen (waited d index now) = d_seen d" "d_late (waited d index now) = d_late d"
  "d_tolerance (waited d index now) = d_tolerance d"
  by (simp_all add: waited_def same_ring_def)

lemma wf_frame:
  "wf_discrete n d \<Longrightarrow> same_ring d d' \<Longrightarrow> d_current d' = d_current d \<Longrightarrow> d_head d' = d_head d \<Longrightarrow> d_seen d' = d_seen d \<Longrightarrow>
   d_late d' = d_late d \<Longrightarrow> -1 \<le> d_primary d' \<Longrightarrow> d_primary d' < int n \<Longrightarrow> wf_discrete n d'"
  by (simp add: wf_discrete_def same_ring_def)

definition frame_turn :: "nat \<Rightarrow> Discrete \<Rightarrow> Discrete \<Rightarrow> bool" where
  "frame_turn n d d' \<longleftrightarrow> same_ring d d' \<and> d_current d' = d_current d \<and> d_head d' = d_head d \<and> wf_discrete n d'"

lemma decide_turn_spec:
  assumes wf: "wf_discrete n d" and n: "length ms = n"
  obtains (wait) d' k where "decide_turn ms lead now d index = Inr (Wait d' (sub64 (d_tolerance d) (time_sub now (d_waitingSince d'))))"
      "frame_turn n d d'" "d' = waited d index now" "k < n" "serves d (ms ! k) index" "d_ordered d" "0 \<le> d_primary d"
      "mb_head (ms ! nat (d_primary d)) < index" "time_sub now (d_waitingSince d') < d_tolerance d"
    | (stop) "decide_turn ms lead now d index = Inr (Stop d)" "none_serves ms d index" "lead < u64 (index + d_skew d)"
    | (publish) d' pick where "decide_turn ms lead now d index = Inr (Publish d' pick)" "frame_turn n d d'"
      "good_source ms lead d index pick" "d_primary d' = d_primary d \<or> replaces_late_primary ms now d index d'"
      "d_ordered d \<Longrightarrow> 0 \<le> d_primary d \<Longrightarrow> serves d (ms ! nat (d_primary d)) index \<Longrightarrow> pick = d_primary d"
proof -
  obtain pick0 alt where sc: "scan d index 0 ms (-1, -1) = (pick0, alt)" by force
  have bounds: "-1 \<le> d_primary d" "d_primary d < int n" "d_placeholder d = int n" using wf by (simp_all add: wf_discrete_def)
  have pick0: "pick0 = -1 \<or> (\<exists>k < n. pick0 = int k \<and> serves d (ms ! k) index \<and> d_ordered d \<and> pick0 = d_primary d)"
    using scan_pick[OF sc] n by auto
  have alt: "alt = -1 \<or> (\<exists>k < n. alt = int k \<and> serves d (ms ! k) index)" using scan_alt[OF sc] n by auto
  have prim: "d_ordered d \<Longrightarrow> 0 \<le> d_primary d \<Longrightarrow> serves d (ms ! nat (d_primary d)) index \<Longrightarrow> pick0 = d_primary d"
    using scan_primary[OF sc, of "nat (d_primary d)"] bounds n by simp
  have frame_refl: "frame_turn n d d" using wf by (simp add: frame_turn_def)
  have frame_wait: "frame_turn n d (waited d index now)" using wf bounds
    by (auto simp: frame_turn_def waited_frame intro!: wf_frame[OF wf])
  note dt = decide_turn_def[of ms lead now d index, unfolded sc prod.case Let_def]
  show thesis
  proof (cases "0 \<le> pick0")
    case True
    with pick0 have "good_source ms lead d index pick0" "pick0 = d_primary d" "d_ordered d" using n by (auto simp: good_source_def)
    moreover have "decide_turn ms lead now d index = Inr (Publish d pick0)" using True \<open>d_ordered d\<close> by (simp add: dt)
    ultimately show thesis using frame_refl by (intro publish[of d pick0]) auto
  next
    case p0: False
    show thesis
    proof (cases "0 \<le> alt")
      case False
      with p0 have none: "none_serves ms d index" using scan_none[OF _ sc] by (auto simp: none_serves_def)
      show thesis
      proof (cases "lead < u64 (index + d_skew d)")
        case True
        with p0 False none show thesis by (intro stop) (simp_all add: dt)
      next
        case le: False
        have "decide_turn ms lead now d index = Inr (Publish d (d_placeholder d))" using p0 False le by (simp add: dt)
        moreover have "good_source ms lead d index (d_placeholder d)" using none le by (simp add: good_source_def none_serves_def)
        moreover have "\<not> serves d (ms ! nat (d_primary d)) index" if "0 \<le> d_primary d"
          using none that bounds n by (simp add: none_serves_def)
        ultimately show thesis using frame_refl by (intro publish[of d "d_placeholder d"]) auto
      qed
    next
      case a: True
      with alt obtain k where k: "k < n" "alt = int k" "serves d (ms ! k) index" by auto
      then have good: "good_source ms lead d index alt" using n by (auto simp: good_source_def)
      have np: "d_ordered d \<Longrightarrow> 0 \<le> d_primary d \<Longrightarrow> \<not> serves d (ms ! nat (d_primary d)) index" using prim p0 by auto
      show thesis
      proof (cases "d_ordered d")
        case False
        then have "decide_turn ms lead now d index = Inr (Publish d alt)" using a p0 by (simp add: dt)
        with good frame_refl False show thesis by (intro publish[of d alt]) auto
      next
        case ord: True
        let ?d = "waited d index now"
        show thesis
        proof (cases "d_primary d < 0 \<or> index \<le> mb_head (ms ! nat (d_primary d))")
          case True
          then have "decide_turn ms lead now d index = Inr (Publish ?d alt)" using ord a p0 bounds n
            by (auto simp: dt waited_frame)
          with good frame_wait np ord show thesis by (intro publish[of ?d alt]) (auto simp: waited_frame)
        next
          case late: False
          then have behind: "0 \<le> d_primary d" "mb_head (ms ! nat (d_primary d)) < index" by auto
          show thesis
          proof (cases "time_sub now (d_waitingSince ?d) < d_tolerance d")
            case True
            then show thesis using ord a p0 bounds n behind k frame_wait
              by (intro wait[of ?d k]) (simp_all add: dt waited_frame)
          next
            case False
            let ?e = "?d\<lparr>d_primary := alt\<rparr>"
            have "decide_turn ms lead now d index = Inr (Publish ?e alt)" using False ord a p0 bounds n behind
              by (simp add: dt waited_frame)
            moreover have "frame_turn n d ?e" using wf k frame_wait
              by (simp add: frame_turn_def same_ring_def wf_discrete_def)
            moreover have "d_primary ?e = d_primary d \<or> replaces_late_primary ms now d index ?e"
              using behind False by (auto simp: replaces_late_primary_def waited_frame)
            ultimately show thesis using good np ord by (intro publish[of ?e alt]) auto
          qed
        qed
      qed
    qed
  qed
qed

subsection \<open>The loop\<close>

text \<open>What the engine does with the selects: one view per slot.\<close>

definition replay :: "Select list \<Rightarrow> int list \<Rightarrow> int list" where
  "replay sels views = fold (\<lambda>s vs. vs[nat (sel_slot s) := sel_source s]) sels views"

lemma replay_simps [simp]:
  "replay [] vs = vs" "replay (s # ss) vs = replay ss (vs[nat (sel_slot s) := sel_source s])"
  "replay (ss @ ts) vs = replay ts (replay ss vs)"
  by (simp_all add: replay_def)

abbreviation shown :: "Discrete \<Rightarrow> uint64 \<Rightarrow> int" where
  "shown d i \<equiv> d_current d ! nat (i mod d_grains d)"

lemma good_source_range: "wf_discrete n d \<Longrightarrow> length ms = n \<Longrightarrow> good_source ms lead d i src \<Longrightarrow> 0 \<le> src \<and> src \<le> int n"
  by (auto simp: good_source_def wf_discrete_def)

lemma publish_turn_spec:
  assumes wf: "wf_discrete n d" and pick: "0 \<le> pick" "pick \<le> int n" and index: "in_u64 index"
  obtains d' s where "publish_turn d index pick = Inr (d', s)" "same_ring d d'" "wf_discrete n d'" "d_head d' = index"
    "d_current d' = (d_current d)[nat (index mod d_grains d) := pick]" "d_current d' = replay s (d_current d)"
    "\<And>x. x \<in> set s \<Longrightarrow> x = \<lparr>sel_slot = index mod d_grains d, sel_source = pick, sel_index = index\<rparr>" "length s \<le> 1"
    "0 \<le> d_primary d \<Longrightarrow> d_primary d' = d_primary d"
proof -
  let ?d1 = "if d_primary d < 0 \<and> pick \<noteq> d_placeholder d then d\<lparr>d_primary := pick\<rparr> else d"
  let ?slot = "index mod d_grains d"
  have slot: "nat ?slot < length (d_current d)" using slot_bounds[OF wf] by simp
  have ring: "d_grains ?d1 = d_grains d" "d_current ?d1 = d_current d" "same_ring d ?d1" by (simp_all add: same_ring_def)
  have wf1: "wf_discrete n ?d1" using wf pick by (auto simp: wf_discrete_def)
  have wf2: "wf_discrete n (?d1\<lparr>d_current := (d_current d)[nat ?slot := pick], d_head := index\<rparr>)"
    using wf1 wf pick index set_update_subset_insert[of "d_current d" "nat ?slot" pick] ring(1)
    by (auto simp: wf_discrete_def)
  show thesis
  proof (cases "d_current d ! nat ?slot = pick")
    case True
    then have "publish_turn d index pick = Inr (?d1\<lparr>d_head := index\<rparr>, [])" using slot ring by (simp add: publish_turn_def Let_def)
    moreover have "(d_current d)[nat ?slot := pick] = d_current d" using True by auto
    ultimately show thesis using wf1 index ring by (intro that[of "?d1\<lparr>d_head := index\<rparr>" "[]"]) (auto simp: wf_discrete_def same_ring_def)
  next
    case False
    let ?d' = "?d1\<lparr>d_current := (d_current d)[nat ?slot := pick], d_head := index\<rparr>"
    have "publish_turn d index pick = Inr (?d', [\<lparr>sel_slot = ?slot, sel_source = pick, sel_index = index\<rparr>])"
      using False slot ring by (simp add: publish_turn_def Let_def)
    then show thesis using wf2 ring by (intro that[of ?d' "[\<lparr>sel_slot = ?slot, sel_source = pick, sel_index = index\<rparr>]"]) (auto simp: same_ring_def)
  qed
qed

definition advanced :: "Member list \<Rightarrow> uint64 \<Rightarrow> nat \<Rightarrow> Discrete \<Rightarrow> Select list \<Rightarrow> Discrete \<Rightarrow> bool" where
  "advanced ms lead n d new d' \<longleftrightarrow>
     same_ring d d' \<and> wf_discrete n d' \<and> d_head d \<le> d_head d' \<and> d_head d' \<le> max (d_head d) lead \<and>
     d_current d' = replay new (d_current d) \<and> sorted_wrt (<) (map sel_index new) \<and>
     (\<forall>s \<in> set new. d_head d < sel_index s \<and> sel_index s \<le> d_head d' \<and> sel_slot s = sel_index s mod d_grains d) \<and>
     (\<forall>i. d_head d < i \<and> i \<le> d_head d' \<and> d_head d' < i + d_grains d \<longrightarrow> good_source ms lead d i (shown d' i)) \<and>
     (\<forall>i. i \<le> d_head d \<and> d_head d' < i + d_grains d \<longrightarrow> shown d' i = shown d i)"

lemma advanced_good:
  "advanced ms lead n d new d' \<Longrightarrow> d_head d < i \<Longrightarrow> i \<le> d_head d' \<Longrightarrow> d_head d' < i + d_grains d \<Longrightarrow> good_source ms lead d i (shown d' i)"
  unfolding advanced_def by blast

lemma advanced_kept:
  "advanced ms lead n d new d' \<Longrightarrow> i \<le> d_head d \<Longrightarrow> d_head d' < i + d_grains d \<Longrightarrow> shown d' i = shown d i"
  unfolding advanced_def by blast

lemma advanced_refl: "frame_turn n d d' \<Longrightarrow> advanced ms lead n d [] d'"
  by (auto simp: advanced_def frame_turn_def same_ring_def)

lemma good_source_ring: "same_ring d d' \<Longrightarrow> good_source ms lead d' i src = good_source ms lead d i src"
  by (simp add: good_source_def serves_same_ring) (simp add: same_ring_def)

lemma advanced_publish:
  assumes ring: "same_ring d d1" and head: "d_head d1 = d_head d + 1" "d_head d < lead"
    and current: "d_current d1 = (d_current d)[nat (d_head d1 mod d_grains d) := pick]" "d_current d1 = replay s (d_current d)"
    and s: "\<And>x. x \<in> set s \<Longrightarrow> x = \<lparr>sel_slot = d_head d1 mod d_grains d, sel_source = pick, sel_index = d_head d1\<rparr>" "length s \<le> 1"
    and wf: "wf_discrete n d" and good: "good_source ms lead d (d_head d1) pick"
    and rest: "advanced ms lead n d1 new d'"
  shows "advanced ms lead n d (s @ new) d'"
proof -
  have g: "d_grains d1 = d_grains d" "d_grains d' = d_grains d" using ring rest by (simp_all add: advanced_def same_ring_def)
  have slot: "nat (i mod d_grains d) < length (d_current d)" for i using slot_bounds[OF wf] by simp
  have kept: "shown d' i = shown d1 i" if "i \<le> d_head d1" "d_head d' < i + d_grains d" for i
    using rest that g by (auto simp: advanced_def)
  have old: "shown d1 i = shown d i" if "i \<le> d_head d" "d_head d' < i + d_grains d" for i
  proof -
    have "d_head d1 \<le> d_head d'" using rest by (simp add: advanced_def)
    then have "nat (i mod d_grains d) \<noteq> nat (d_head d1 mod d_grains d)"
      using slot_distinct[of i "d_head d1" "d_grains d"] that head by simp
    then show ?thesis using current(1) g by simp
  qed
  have "good_source ms lead d i (shown d' i)" if "d_head d < i" "i \<le> d_head d'" "d_head d' < i + d_grains d" for i
  proof (cases "i = d_head d1")
    case True
    then show ?thesis using kept[of i] that good current(1) slot g by simp
  next
    case False
    then have "d_head d1 < i" using that head by simp
    then show ?thesis using rest that g good_source_ring[OF ring] by (auto simp: advanced_def)
  qed
  moreover have "sorted_wrt (<) (map sel_index (s @ new))"
    using rest s head by (cases s) (auto simp: advanced_def sorted_wrt_append)
  moreover have "\<forall>x \<in> set (s @ new). d_head d < sel_index x \<and> sel_index x \<le> d_head d' \<and> sel_slot x = sel_index x mod d_grains d"
    using rest s(1) head g by (fastforce simp: advanced_def)
  moreover have "shown d' i = shown d i" if "i \<le> d_head d" "d_head d' < i + d_grains d" for i
    using kept[of i] old[of i] that head by simp
  ultimately show ?thesis using rest current(2) head same_ring_trans[OF ring] g by (simp add: advanced_def)
qed

text \<open>Why a pass ends.\<close>

definition ended :: "Member list \<Rightarrow> uint64 \<Rightarrow> time \<Rightarrow> Discrete \<Rightarrow> duration \<Rightarrow> bool" where
  "ended ms lead now d w \<longleftrightarrow>
     (w = 0 \<and> lead \<le> d_head d) \<or>
     (w = 0 \<and> none_serves ms d (d_head d + 1) \<and> lead < u64 (d_head d + 1 + d_skew d)) \<or>
     (w = sub64 (d_tolerance d) (time_sub now (d_waitingSince d)) \<and> time_sub now (d_waitingSince d) < d_tolerance d \<and>
      d_ordered d \<and> 0 \<le> d_primary d \<and> mb_head (ms ! nat (d_primary d)) < d_head d + 1 \<and> d_waitingIndex d = d_head d + 1 \<and>
      \<not> none_serves ms d (d_head d + 1))"

text \<open>The loop passes through every head in between, with the selects up to it.\<close>

definition passes :: "Member list \<Rightarrow> uint64 \<Rightarrow> nat \<Rightarrow> Discrete \<Rightarrow> Select list \<Rightarrow> Discrete \<Rightarrow> bool" where
  "passes ms lead n d new d' \<longleftrightarrow>
     (\<forall>h. d_head d \<le> h \<and> h \<le> d_head d' \<longrightarrow> (\<exists>dh. d_head dh = h \<and> advanced ms lead n d (filter (\<lambda>s. sel_index s \<le> h) new) dh))"

lemma passes_refl: "wf_discrete n d \<Longrightarrow> frame_turn n d d' \<Longrightarrow> passes ms lead n d [] d'"
  unfolding passes_def using advanced_refl[of n d d'] by (auto simp: frame_turn_def intro!: exI[of _ d'])

lemma passes_publish:
  assumes ring: "same_ring d d1" and head: "d_head d1 = d_head d + 1" "d_head d < lead"
    and current: "d_current d1 = (d_current d)[nat (d_head d1 mod d_grains d) := pick]" "d_current d1 = replay s (d_current d)"
    and s: "\<And>x. x \<in> set s \<Longrightarrow> x = \<lparr>sel_slot = d_head d1 mod d_grains d, sel_source = pick, sel_index = d_head d1\<rparr>" "length s \<le> 1"
    and wf: "wf_discrete n d" and good: "good_source ms lead d (d_head d1) pick"
    and rest: "advanced ms lead n d1 new d'" "passes ms lead n d1 new d'"
  shows "passes ms lead n d (s @ new) d'"
  unfolding passes_def
proof (intro allI impI)
  fix h assume h: "d_head d \<le> h \<and> h \<le> d_head d'"
  have idx: "\<And>x. x \<in> set s \<Longrightarrow> sel_index x = d_head d1" using s(1) by (metis Select.select_convs(3))
  show "\<exists>dh. d_head dh = h \<and> advanced ms lead n d (filter (\<lambda>s. sel_index s \<le> h) (s @ new)) dh"
  proof (cases "h = d_head d")
    case True
    then have "filter (\<lambda>s. sel_index s \<le> h) (s @ new) = []"
      using idx head rest(1) by (auto simp: advanced_def filter_empty_conv)
    moreover have "frame_turn n d d" using wf by (simp add: frame_turn_def)
    ultimately show ?thesis using advanced_refl[of n d d ms lead] True by (intro exI[of _ d]) simp
  next
    case False
    then have "d_head d1 \<le> h" using h head by simp
    then obtain dh where dh: "d_head dh = h" "advanced ms lead n d1 (filter (\<lambda>s. sel_index s \<le> h) new) dh"
      using rest(2) h unfolding passes_def by blast
    have "filter (\<lambda>s. sel_index s \<le> h) (s @ new) = s @ filter (\<lambda>s. sel_index s \<le> h) new"
      using idx \<open>d_head d1 \<le> h\<close> by (simp add: filter_id_conv)
    with advanced_publish[OF ring head current s wf good dh(2)] dh(1) show ?thesis by auto
  qed
qed

lemma step_loop_spec:
  assumes "wf_discrete n d" "length ms = n" "in_u64 lead"
  shows "\<exists>d' new w. step_loop ms lead now d sels = Inr (d', sels @ new, w) \<and> advanced ms lead n d new d' \<and>
     passes ms lead n d new d' \<and> ended ms lead now d' w"
  using assms
proof (induction ms lead now d sels rule: step_loop.induct)
  case (1 ms lead now d sels)
  note wf = "1.prems"(1) and n = "1.prems"(2) and lead = "1.prems"(3)
  have g: "d_grains d \<noteq> 0" using wf by (simp add: wf_discrete_def)
  have refl: "advanced ms lead n d [] d" "passes ms lead n d [] d"
    using wf by (auto intro: advanced_refl passes_refl simp: frame_turn_def)
  show ?case
  proof (cases "d_head d < lead")
    case False
    then have "step_loop ms lead now d sels = Inr (d, sels @ [], 0)" by (simp add: step_loop.simps[of ms lead now d sels])
    with False refl show ?thesis by (auto simp: ended_def)
  next
    case True
    have in_range: "in_u64 (d_head d + 1)" using wf True lead by (simp add: wf_discrete_def)
    note unf = step_loop.simps[of ms lead now d sels]
    from wf n show ?thesis
    proof (cases rule: decide_turn_spec[where lead = lead and now = now and index = "d_head d + 1"])
      case (wait d' k)
      then have "step_loop ms lead now d sels = Inr (d', sels @ [], sub64 (d_tolerance d) (time_sub now (d_waitingSince d')))"
        using True g by (simp add: unf)
      moreover have "ended ms lead now d' (sub64 (d_tolerance d) (time_sub now (d_waitingSince d')))"
      proof -
        have "same_ring d d'" "d_head d' = d_head d" "d_primary d' = d_primary d" "d_tolerance d' = d_tolerance d"
          "d_waitingIndex d' = d_head d + 1" "d_ordered d' = d_ordered d"
          using wait(3) waited_frame[of d "d_head d + 1" now] by (simp_all add: waited_def same_ring_def)
        moreover have "\<not> none_serves ms d' (d_head d + 1)"
          using wait(4,5) n serves_same_ring[OF \<open>same_ring d d'\<close>] by (auto simp: none_serves_def)
        ultimately show ?thesis using wait(6-9) by (simp add: ended_def)
      qed
      ultimately show ?thesis using advanced_refl[OF wait(2)] passes_refl[OF wf wait(2)] by blast
    next
      case stop
      then have "step_loop ms lead now d sels = Inr (d, sels @ [], 0)" using True g by (simp add: unf)
      moreover have "ended ms lead now d 0" using stop by (simp add: ended_def)
      ultimately show ?thesis using refl by blast
    next
      case (publish d1 pick)
      from publish(2) have fr: "same_ring d d1" "d_current d1 = d_current d" "wf_discrete n d1" by (simp_all add: frame_turn_def)
      have gr: "d_grains d1 = d_grains d" using fr(1) by (simp add: same_ring_def)
      have pk: "0 \<le> pick" "pick \<le> int n" using good_source_range[OF wf n publish(3)] by simp_all
      obtain d2 s where p: "publish_turn d1 (d_head d + 1) pick = Inr (d2, s)" "same_ring d1 d2" "wf_discrete n d2"
        "d_head d2 = d_head d + 1" "d_current d2 = (d_current d1)[nat ((d_head d + 1) mod d_grains d1) := pick]"
        "d_current d2 = replay s (d_current d1)" "length s \<le> 1"
        "\<And>x. x \<in> set s \<Longrightarrow> x = \<lparr>sel_slot = (d_head d + 1) mod d_grains d1, sel_source = pick, sel_index = d_head d + 1\<rparr>"
        by (rule publish_turn_spec[OF fr(3) pk in_range]) blast
      from "1.IH"[OF True g publish(1) HOL.refl p(1) HOL.refl p(3) n lead]
      obtain d' new w where ih: "step_loop ms lead now d2 (sels @ s) = Inr (d', (sels @ s) @ new, w)"
        "advanced ms lead n d2 new d'" "passes ms lead n d2 new d'" "ended ms lead now d' w" by blast
      have "step_loop ms lead now d sels = Inr (d', sels @ (s @ new), w)" using True g publish(1) p(1) ih(1) by (simp add: unf)
      moreover have "advanced ms lead n d (s @ new) d'"
        using publish(3) p(4-8) fr(2) gr ih(2) True wf same_ring_trans[OF fr(1) p(2)]
        by (intro advanced_publish[of d d2 lead pick s n ms new d']) simp_all
      moreover have "passes ms lead n d (s @ new) d'"
        using publish(3) p(4-8) fr(2) gr ih(2,3) True wf same_ring_trans[OF fr(1) p(2)]
        by (intro passes_publish[of d d2 lead pick s n ms new d']) simp_all
      ultimately show ?thesis using ih(4) by blast
    qed
  qed
qed

end
