(* ===== verification/Merge_Safety.thy ===== *)
theory Merge_Safety
  imports Merge_Discrete
begin

section \<open>What the merge of video and data flows guarantees\<close>

text \<open>
  Properties of \<^verbatim>\<open>Step\<close>, \<^verbatim>\<open>Retire\<close> and \<^verbatim>\<open>Drop\<close> of the discrete policy. Readers of the output trust every index from
  \<open>oldest_trusted\<close> to the published head, and read index \<open>i\<close> from the view of slot \<open>i mod Grains\<close>.
\<close>

subsection \<open>Step\<close>

lemma lead_of_bounds: "heads_ok ms \<Longrightarrow> in_u64 (lead_of ms)"
proof -
  have "in_u64 (fold (\<lambda>m lead. if mb_head m > lead then mb_head m else lead) ms l)" if "heads_ok ms" "in_u64 l" for l
    using that by (induction ms arbitrary: l) (auto simp: heads_ok_def)
  then show "heads_ok ms \<Longrightarrow> in_u64 (lead_of ms)" by (simp add: lead_of_def)
qed

lemma lead_of_ge: "m \<in> set ms \<Longrightarrow> mb_head m \<le> lead_of ms"
proof -
  let ?f = "\<lambda>m lead. if mb_head m > lead then mb_head m else lead"
  have mono: "l \<le> fold ?f ms l" for l ms
  proof (induction ms arbitrary: l)
    case (Cons x xs)
    have "l \<le> ?f x l" by simp
    also have "\<dots> \<le> fold ?f xs (?f x l)" by (rule Cons)
    finally show ?case by simp
  qed simp
  have "m \<in> set ms \<Longrightarrow> mb_head m \<le> fold ?f ms l" for l
  proof (induction ms arbitrary: l)
    case (Cons x xs)
    show ?case
    proof (cases "m = x")
      case True
      then show ?thesis using mono[of "?f x l" xs] by (simp split: if_splits)
    qed (use Cons in simp)
  qed simp
  then show "m \<in> set ms \<Longrightarrow> mb_head m \<le> lead_of ms" by (simp add: lead_of_def)
qed

lemma begin_step_frame:
  assumes "wf_discrete n d" "length ms = n" "heads_ok ms" "0 < n"
  shows "wf_discrete n (begin_step ms d)" "same_ring d (begin_step ms d)" "d_current (begin_step ms d) = d_current d"
    "d_head (begin_step ms d) = (if d_head d = 0 \<and> lead_of ms > 0 then lead_of ms - 1 else d_head d)"
  using assms lead_of_bounds[OF assms(3)] by (auto simp: begin_step_def Let_def wf_discrete_def same_ring_def)

subsection \<open>Two members of a ring of four grains\<close>

text \<open>The concrete policy the theorems below are applied to: member 0 holds the grains up to 8, member 1 those up to 9,
  and the output has published 7, or 9 with what \<^verbatim>\<open>Retire\<close> remembers of the members; later member 0 writes 12.\<close>

definition demo_member :: "uint64 \<Rightarrow> Member" where
  "demo_member h = \<lparr>mb_head = h, mb_grain = (\<lambda>s. \<lparr>g_index = h - (h - s) mod 4, g_invalid = False, g_validSlices = 1, g_totalSlices = 1\<rparr>)\<rparr>"

definition demo_members :: "Member list" where
  "demo_members = [demo_member 8, demo_member 9]"

definition demo_discrete :: Discrete where
  "demo_discrete = (newDiscrete 4 2)\<lparr>d_skew := 1, d_head := 7\<rparr>"

definition demo_served :: Discrete where
  "demo_served = demo_discrete\<lparr>d_primary := 0, d_head := 9, d_current := [0, 1, 2, 2], d_seen := [8, 9], d_late := [0, 3]\<rparr>"

definition demo_later :: "Member list" where
  "demo_later = [(demo_member 8)\<lparr>mb_head := 12, mb_grain := (mb_grain (demo_member 8))(0 := (mb_grain (demo_member 8) 0)\<lparr>g_index := 12\<rparr>)\<rparr>, demo_member 9]"

lemmas demo_defs = demo_member_def demo_members_def demo_later_def demo_discrete_def demo_served_def newDiscrete_def millisecond_def

lemma demo_ok:
  "wf_discrete 2 demo_discrete" "wf_discrete 2 demo_served" "length demo_members = 2" "heads_ok demo_members" "lead_of demo_members = 9"
  by (simp_all add: demo_defs wf_discrete_def heads_ok_def lead_of_def)

lemma demo_step:
  "step demo_members 0 demo_discrete = Inr (demo_discrete\<lparr>d_primary := 0, d_head := 9, d_current := [0, 1, 2, 2]\<rparr>,
     [\<lparr>sel_slot = 0, sel_source = 0, sel_index = 8\<rparr>, \<lparr>sel_slot = 1, sel_source = 1, sel_index = 9\<rparr>], 0)"
  by code_simp

text \<open>C18. Step publishes nothing it cannot show. On every well-formed state it returns without a panic in a well-formed
  state; the head moves forward and never past the leading member; applying the selects in order turns the old views
  into the new ones; and every index published whose slot was not reused since shows a member that serves it
  (committed, not overwritten, complete), or the placeholder when no member does and the leading member is the
  skew budget ahead. Slots of indices published before and still in the ring are left alone.\<close>

theorem step_publishes_truthfully:
  assumes "wf_discrete n d" "length ms = n" "heads_ok ms" "0 < n"
  shows "\<exists>d' sels w. step ms now d = Inr (d', sels, w) \<and>
     wf_discrete n d' \<and> same_ring d d' \<and> d_current d' = replay sels (d_current d) \<and>
     (let h = d_head (begin_step ms d) in
      d_head d \<le> h \<and> h \<le> d_head d' \<and> d_head d' \<le> max (d_head d) (lead_of ms) \<and>
      (\<forall>i. h < i \<and> i \<le> d_head d' \<and> d_head d' < i + d_grains d \<longrightarrow> good_source ms (lead_of ms) d i (shown d' i)) \<and>
      (\<forall>i. i \<le> h \<and> d_head d' < i + d_grains d \<longrightarrow> shown d' i = shown d i))"
proof -
  note b = begin_step_frame[OF assms]
  have head: "d_head d \<le> d_head (begin_step ms d)" "d_head (begin_step ms d) \<le> max (d_head d) (lead_of ms)"
    using assms(1) by (auto simp: b(4) wf_discrete_def)
  obtain d' new w where s: "step ms now d = Inr (d', new, w)" "advanced ms (lead_of ms) n (begin_step ms d) new d'"
    using step_loop_spec[OF b(1) assms(2) lead_of_bounds[OF assms(3)], of now "[]"] by (auto simp: step_def)
  have g: "d_grains (begin_step ms d) = d_grains d" "d_grains d' = d_grains d" using b(2) s(2) by (simp_all add: advanced_def same_ring_def)
  from s(2) have "wf_discrete n d' \<and> same_ring d d' \<and> d_current d' = replay new (d_current d)"
    using same_ring_trans[OF b(2)] by (simp add: advanced_def b(3))
  moreover have "good_source ms (lead_of ms) d i (shown d' i)"
    if "d_head (begin_step ms d) < i" "i \<le> d_head d'" "d_head d' < i + d_grains d" for i
    using advanced_good[OF s(2)] that g good_source_ring[OF b(2)] by simp
  moreover have "shown d' i = shown d i" if "i \<le> d_head (begin_step ms d)" "d_head d' < i + d_grains d" for i
    using advanced_kept[OF s(2)] that g b(3) by simp
  moreover have "d_head (begin_step ms d) \<le> d_head d'" "d_head d' \<le> max (d_head d) (lead_of ms)"
    using s(2) head by (auto simp: advanced_def)
  ultimately show ?thesis using s(1) head(1) by (auto simp: Let_def)
qed

theorem step_publishes_truthfully_witness:
  "\<exists>d' sels w. step demo_members 0 demo_discrete = Inr (d', sels, w) \<and> d_head d' = 9 \<and> d_current d' = replay sels [2, 2, 2, 2] \<and>
     good_source demo_members 9 demo_discrete 8 (shown d' 8) \<and> good_source demo_members 9 demo_discrete 9 (shown d' 9)"
proof -
  note t = step_publishes_truthfully[OF demo_ok(1,3,4), of 0, simplified, unfolded demo_step demo_ok(5) Let_def]
  have c: "d_head (begin_step demo_members demo_discrete) = 7" "d_current demo_discrete = [2, 2, 2, 2]" "d_grains demo_discrete = 4"
    by code_simp+
  from t c have "good_source demo_members 9 demo_discrete 8 0" "good_source demo_members 9 demo_discrete 9 1"
    by (auto dest: spec[of _ 8] spec[of _ 9])
  with c(2,3) show ?thesis unfolding demo_step by simp
qed

text \<open>Step stops only for a reason. When it returns, either the head has caught up with the leading member; or no
  member serves the next index and the leading member is not yet the skew budget ahead of it; or the primary of an
  ordered set has not reached the next index, another member serves it, the tolerance since it was first missed
  has not run out, and the wait returned is what is left of it.\<close>

theorem step_stops_for_a_reason:
  assumes "wf_discrete n d" "length ms = n" "heads_ok ms" "0 < n" "step ms now d = Inr (d', sels, w)"
  shows "ended ms (lead_of ms) now d' w"
  using step_loop_spec[OF begin_step_frame(1)[OF assms(1-4)] assms(2) lead_of_bounds[OF assms(3)], of now "[]"] assms(5)
  by (auto simp: step_def)

theorem step_stops_for_a_reason_witness:
  "\<exists>d'. step demo_members 0 demo_discrete = Inr (d', [\<lparr>sel_slot = 0, sel_source = 0, sel_index = 8\<rparr>, \<lparr>sel_slot = 1, sel_source = 1, sel_index = 9\<rparr>], 0) \<and>
     ended demo_members 9 0 d' 0"
  using step_stops_for_a_reason[OF demo_ok(1,3,4) _ demo_step] unfolding demo_step demo_ok(5) by simp

subsection \<open>Drop\<close>

lemma drop_slots_spec:
  assumes "wf_discrete n d" "length ms = n" "0 \<le> m" "m < int n" "distinct slots" "set slots \<subseteq> {0..<length (d_current d)}"
  shows "case drop_slots ms m slots d sels of (d', sels') \<Rightarrow>
     wf_discrete n d' \<and> same_ring d d' \<and> d_head d' = d_head d \<and> (\<exists>new. sels' = sels @ new \<and> d_current d' = replay new (d_current d)) \<and>
     (\<forall>k < length (d_current d). d_current d' ! k =
        (if k \<in> set slots \<and> d_current d ! k = m then fst (drop_to ms d m k) else d_current d ! k))"
  using assms
proof (induction slots arbitrary: d sels)
  case (Cons k slots)
  show ?case
  proof (cases "d_current d ! k = m")
    case False
    with Cons.IH[of d sels] Cons.prems show ?thesis by (auto split: prod.splits)
  next
    case True
    obtain to index where to: "drop_to ms d m k = (to, index)" by force
    let ?d = "d\<lparr>d_current := (d_current d)[k := to]\<rparr>" and ?s = "\<lparr>sel_slot = int k, sel_source = to, sel_index = index\<rparr>"
    have "0 \<le> to \<and> to \<le> int n"
      using to Cons.prems(1,2) by (auto simp: drop_to_def wf_discrete_def dest!: find_first_SomeD split: option.splits)
    then have wf: "wf_discrete n ?d" using Cons.prems(1) set_update_subset_insert[of "d_current d" k to]
      by (auto simp: wf_discrete_def)
    have same: "drop_to ms ?d m j = drop_to ms d m j" for j
      by (simp add: drop_to_def slot_index_def serves_def[abs_def] Let_def cong: option.case_cong if_cong)
    obtain d' sels' where run: "drop_slots ms m slots ?d (sels @ [?s]) = (d', sels')" by force
    note ih = Cons.IH[OF wf Cons.prems(2-4), of "sels @ [?s]", unfolded run prod.case]
    have frame: "wf_discrete n d'" "same_ring d d'" "d_head d' = d_head d"
      using ih Cons.prems by (auto simp: same_ring_def)
    obtain new where new: "sels' = (sels @ [?s]) @ new" "d_current d' = replay new (d_current ?d)"
      using ih Cons.prems by auto
    have cur: "d_current d' ! j = (if j \<in> set slots \<and> d_current ?d ! j = m then fst (drop_to ms d m j) else d_current ?d ! j)"
      if "j < length (d_current d)" for j
      using ih Cons.prems that same by auto
    have "d_current d' ! j = (if j \<in> set (k # slots) \<and> d_current d ! j = m then fst (drop_to ms d m j) else d_current d ! j)"
      if "j < length (d_current d)" for j
      using cur[OF that] True Cons.prems(5) to that by (cases "j = k") auto
    moreover have "drop_slots ms m (k # slots) d sels = (d', sels')" using True to run by simp
    ultimately show ?thesis using frame new by (auto intro!: exI[of _ "?s # new"])
  qed
qed (simp add: wf_discrete_def)

lemma slot_index_slot:
  assumes "wf_discrete n d" "k < length (d_current d)" "slot_index d k = Some i"
  shows "i mod d_grains d = int k \<and> d_head d - d_grains d < i \<and> i \<le> d_head d \<and> 0 \<le> i"
proof -
  let ?g = "d_grains d"
  have g: "0 < ?g" "int k < ?g" "?g < 2 ^ 32" using assms by (auto simp: wf_discrete_def)
  have r: "0 \<le> d_head d mod ?g" "d_head d mod ?g < ?g" using g by simp_all
  have "in_u64 (d_head d mod ?g + ?g - int k)"
  proof -
    have "?g < 4294967296" "(2::int) ^ 64 = 18446744073709551616" using g(3) by simp_all
    then show ?thesis using g(1,2) r by linarith
  qed
  then have "u64 (d_head d mod ?g + ?g - int k) = d_head d mod ?g + ?g - int k" by (rule u64_id)
  then have i: "i = d_head d - (d_head d mod ?g + ?g - int k) mod ?g" "(d_head d mod ?g + ?g - int k) mod ?g \<le> d_head d"
    using assms(3) by (auto simp: slot_index_def Let_def split: if_splits)
  have "i mod ?g = (d_head d - (d_head d mod ?g + ?g - int k)) mod ?g" by (simp add: i(1) mod_diff_right_eq)
  also have "d_head d - (d_head d mod ?g + ?g - int k) = int k + ?g * (d_head d div ?g - 1)"
    using mult_div_mod_eq[of ?g "d_head d"] unfolding right_diff_distrib by linarith
  also have "(int k + ?g * (d_head d div ?g - 1)) mod ?g = int k" using g by simp
  finally have "i mod ?g = int k" .
  moreover have "0 \<le> (d_head d mod ?g + ?g - int k) mod ?g" "(d_head d mod ?g + ?g - int k) mod ?g < ?g" using g by simp_all
  ultimately show ?thesis using i by linarith
qed

text \<open>Drop leaves a member nothing to serve. Afterwards no slot shows the member; slots that showed another source are
  untouched; and a slot that showed it now shows another member that serves the index the slot holds at or below
  the published head, or the placeholder.\<close>

lemma drop_empties_member:
  assumes "wf_discrete n d" "length ms = n" "0 \<le> m" "m < int n" "drop_member ms m d = (d', sels)"
  shows "wf_discrete n d' \<and> same_ring d d' \<and> d_head d' = d_head d \<and> m \<notin> set (d_current d') \<and> d_current d' = replay sels (d_current d) \<and>
     (\<forall>k < length (d_current d). d_current d' ! k \<noteq> d_current d ! k \<longrightarrow>
        d_current d ! k = m \<and>
        (d_current d' ! k = d_placeholder d \<or>
         (\<exists>i o'. i mod d_grains d = int k \<and> d_head d - d_grains d < i \<and> i \<le> d_head d \<and>
            o' < n \<and> d_current d' ! k = int o' \<and> serves d (ms ! o') i)))"
proof -
  from drop_slots_spec[OF assms(1-4), of "[0..<length (d_current d)]" "[]"] assms(5)
  have spec: "wf_discrete n d'" "same_ring d d'" "d_head d' = d_head d" "d_current d' = replay sels (d_current d)"
    "\<And>k. k < length (d_current d) \<Longrightarrow> d_current d' ! k = (if d_current d ! k = m then fst (drop_to ms d m k) else d_current d ! k)"
    by (auto simp: drop_member_def)
  have len: "length (d_current d') = length (d_current d)"
    using spec(1,2) assms(1) by (simp add: wf_discrete_def same_ring_def)
  have to: "fst (drop_to ms d m k) = d_placeholder d \<or>
      (\<exists>i o'. slot_index d k = Some i \<and> o' < n \<and> int o' \<noteq> m \<and> fst (drop_to ms d m k) = int o' \<and> serves d (ms ! o') i)" for k
    using assms(2) by (auto simp: drop_to_def dest!: find_first_SomeD split: option.splits)
  have ph: "d_placeholder d \<noteq> m" using assms(1,4) by (simp add: wf_discrete_def)
  have "d_current d' ! k \<noteq> m" if "k < length (d_current d)" for k
    using spec(5)[OF that] to[of k] ph by auto
  then have "m \<notin> set (d_current d')" using len by (metis in_set_conv_nth)
  moreover have "d_current d ! k = m \<and> (d_current d' ! k = d_placeholder d \<or>
         (\<exists>i o'. i mod d_grains d = int k \<and> d_head d - d_grains d < i \<and> i \<le> d_head d \<and>
            o' < n \<and> d_current d' ! k = int o' \<and> serves d (ms ! o') i))"
    if "k < length (d_current d)" "d_current d' ! k \<noteq> d_current d ! k" for k
    using spec(5)[OF that(1)] that(2) to[of k] slot_index_slot[OF assms(1) that(1)] by (auto split: if_splits)
  ultimately show ?thesis using spec(1-4) by blast
qed

subsection \<open>Retire\<close>

text \<open>An index whose source will not write over it before the next pass.\<close>

definition protected :: "Member list \<Rightarrow> uint64 \<Rightarrow> Discrete \<Rightarrow> uint64 \<Rightarrow> bool" where
  "protected ms due d i \<longleftrightarrow>
     shown d i = d_placeholder d \<or>
     (\<exists>k < length ms. shown d i = int k \<and> next_write ms due d k < i + d_grains d)"

text \<open>What retiring leaves alone, and how a slot may change.\<close>

definition retired :: "Member list \<Rightarrow> nat \<Rightarrow> uint64 \<Rightarrow> Discrete \<Rightarrow> Select list \<Rightarrow> Discrete \<Rightarrow> bool" where
  "retired ms n i d new d' \<longleftrightarrow>
     wf_discrete n d' \<and> same_ring d d' \<and> d_head d' = d_head d \<and> d_late d' = d_late d \<and> d_current d' = replay new (d_current d) \<and>
     (\<forall>j. d_head d - d_grains d < j \<and> j \<le> d_head d \<longrightarrow>
        shown d' j = shown d j \<or> (i \<le> j \<and> (shown d' j = d_placeholder d \<or> (\<exists>k < n. shown d' j = int k \<and> serves d (ms ! k) j))))"

lemma next_write_late: "d_late d' = d_late d \<Longrightarrow> next_write ms due d' k = next_write ms due d k"
  by (simp add: next_write_def)

lemma protected_frame:
  "same_ring d d' \<Longrightarrow> d_late d' = d_late d \<Longrightarrow> shown d' j = shown d j \<Longrightarrow> protected ms due d' j = protected ms due d j"
  by (simp add: protected_def same_ring_def next_write_def)

lemma replacement_spec:
  assumes "replacement ms due d i cur = to"
  shows "to = d_placeholder d \<or>
    (\<exists>k < length ms. to = int k \<and> serves d (ms ! k) i \<and> next_write ms due d k < u64 (i + d_grains d))"
  using assms by (auto simp: replacement_def dest!: find_first_SomeD split: option.splits)

lemma retire_index_spec:
  assumes wf: "wf_discrete n d" and n: "length ms = n" and i: "in_u64 (i + d_grains d)" "0 \<le> i"
  obtains d' s where "retire_index ms due d i = Inr (d', s)" "wf_discrete n d'" "same_ring d d'" "d_head d' = d_head d"
    "d_late d' = d_late d" "d_current d' = replay s (d_current d)" "protected ms due d' i"
    "\<And>j. nat (j mod d_grains d) \<noteq> nat (i mod d_grains d) \<Longrightarrow> shown d' j = shown d j"
    "shown d' i = shown d i \<or> shown d' i = d_placeholder d \<or> (\<exists>k < n. shown d' i = int k \<and> serves d (ms ! k) i)"
proof -
  let ?slot = "nat (i mod d_grains d)" and ?cur = "shown d i"
  have slot: "?slot < length (d_current d)" and g: "d_grains d \<noteq> 0" using slot_bounds[OF wf] wf by (auto simp: wf_discrete_def)
  have "?cur \<in> set (d_current d)" using slot by simp
  then have cur: "0 \<le> ?cur" "?cur \<le> int n" "d_placeholder d = int n" using wf by (auto simp: wf_discrete_def)
  have u: "u64 (i + d_grains d) = i + d_grains d" using i by simp
  show thesis
  proof (cases "?cur = d_placeholder d \<or> next_write ms due d (nat ?cur) < i + d_grains d")
    case True
    then have "retire_index ms due d i = Inr (d, [])" using slot g cur n u by (auto simp: retire_index_def Let_def)
    moreover have "protected ms due d i" using True cur n by (auto simp: protected_def intro!: exI[of _ "nat ?cur"])
    ultimately show thesis using wf by (intro that[of d "[]"]) auto
  next
    case False
    let ?to = "replacement ms due d i ?cur"
    let ?d = "d\<lparr>d_current := (d_current d)[?slot := ?to]\<rparr>" and ?s = "[\<lparr>sel_slot = i mod d_grains d, sel_source = ?to, sel_index = i\<rparr>]"
    have to: "?to = d_placeholder d \<or> (\<exists>k < n. ?to = int k \<and> serves d (ms ! k) i \<and> next_write ms due d k < i + d_grains d)"
      using replacement_spec[of ms due d i ?cur ?to] n u by simp
    then have "0 \<le> ?to" "?to \<le> int n" using cur by auto
    then have "wf_discrete n ?d" using wf set_update_subset_insert[of "d_current d" ?slot ?to] by (auto simp: wf_discrete_def)
    moreover have "retire_index ms due d i = Inr (?d, ?s)" using False slot g cur n u by (auto simp: retire_index_def Let_def)
    moreover have "protected ms due ?d i" using to slot n by (auto simp: protected_def next_write_def)
    ultimately show thesis using to slot by (intro that[of ?d ?s]) (auto simp: same_ring_def)
  qed
qed

lemma retire_loop_spec:
  assumes "wf_discrete n d" "length ms = n" "d_head d < 2 ^ 63" "d_head d - d_grains d + 1 < i" "0 \<le> i"
  shows "\<exists>d' new. retire_loop ms due reach i d sels = Inr (d', sels @ new) \<and> retired ms n i d new d' \<and>
     (\<forall>j. i \<le> j \<and> j \<le> d_head d \<and> j + d_grains d \<le> reach \<longrightarrow> protected ms due d' j)"
  using assms
proof (induction ms due reach i d sels rule: retire_loop.induct)
  case (1 ms due reach i d sels)
  note wf = "1.prems"(1) and n = "1.prems"(2) and head = "1.prems"(3) and win = "1.prems"(4,5)
  note unf = retire_loop.simps[of ms due reach i d sels]
  have g: "0 < d_grains d" "d_grains d < 4294967296" using wf by (simp_all add: wf_discrete_def)
  show ?case
  proof (cases "i \<le> d_head d \<and> u64 (i + d_grains d) \<le> reach")
    case False
    have "\<not> (i \<le> j \<and> j \<le> d_head d \<and> j + d_grains d \<le> reach)" for j
    proof
      assume j: "i \<le> j \<and> j \<le> d_head d \<and> j + d_grains d \<le> reach"
      have "(2::int) ^ 63 + 4294967296 < 2 ^ 64" by simp
      then have "in_u64 (i + d_grains d)" using j head g win by linarith
      with False j show False by simp
    qed
    moreover have "retire_loop ms due reach i d sels = Inr (d, sels @ [])" using False by (subst unf) auto
    moreover have "retired ms n i d [] d" using wf by (simp add: retired_def)
    ultimately show ?thesis by blast
  next
    case True
    have "(2::int) ^ 63 + 4294967296 < 2 ^ 64" by simp
    then have range: "in_u64 (i + d_grains d)" using True head g win by linarith
    obtain d1 s where r: "retire_index ms due d i = Inr (d1, s)" "wf_discrete n d1" "same_ring d d1" "d_head d1 = d_head d"
      "d_late d1 = d_late d" "d_current d1 = replay s (d_current d)" "protected ms due d1 i"
      "\<And>j. nat (j mod d_grains d) \<noteq> nat (i mod d_grains d) \<Longrightarrow> shown d1 j = shown d j"
      "shown d1 i = shown d i \<or> shown d1 i = d_placeholder d \<or> (\<exists>k < n. shown d1 i = int k \<and> serves d (ms ! k) i)"
      by (rule retire_index_spec[OF wf n range win(2)]) blast
    have gr: "d_grains d1 = d_grains d" "d_placeholder d1 = d_placeholder d" using r(3) by (simp_all add: same_ring_def)
    have "d_head d1 < 2 ^ 63" "d_head d1 - d_grains d1 + 1 < i + 1" "0 \<le> i + 1" using head win r(4) gr by simp_all
    from "1.IH"[OF True r(1) HOL.refl r(2) n this]
    obtain d' new where ih: "retire_loop ms due reach (i + 1) d1 (sels @ s) = Inr (d', (sels @ s) @ new)"
      "retired ms n (i + 1) d1 new d'"
      "\<And>j. i + 1 \<le> j \<Longrightarrow> j \<le> d_head d \<Longrightarrow> j + d_grains d \<le> reach \<Longrightarrow> protected ms due d' j"
      unfolding r(4) gr(1) by blast
    have other: "shown d1 j = shown d j" if "d_head d - d_grains d < j" "j \<le> d_head d" "j \<noteq> i" for j
    proof (cases "j < i")
      case True
      then show ?thesis using slot_distinct[of j i "d_grains d"] that \<open>i \<le> d_head d \<and> _\<close> by (intro r(8)) simp
    next
      case False
      then show ?thesis using slot_distinct[of i j "d_grains d"] that win by (intro r(8)) simp
    qed
    have step: "shown d' j = shown d1 j \<or> (i + 1 \<le> j \<and> (shown d' j = d_placeholder d \<or> (\<exists>k < n. shown d' j = int k \<and> serves d (ms ! k) j)))"
      if "d_head d - d_grains d < j" "j \<le> d_head d" for j
      using ih(2) that gr r(4) serves_same_ring[OF r(3)] by (auto simp: retired_def)
    have fr: "wf_discrete n d'" "same_ring d d'" "d_head d' = d_head d" "d_late d' = d_late d" "d_current d' = replay (s @ new) (d_current d)"
      "same_ring d1 d'" "d_late d' = d_late d1"
      using ih(2) r(4-6) same_ring_trans[OF r(3)] by (simp_all add: retired_def)
    have "retired ms n i d (s @ new) d'"
      unfolding retired_def using fr(1-5)
    proof (intro conjI allI impI)
      fix j assume j: "d_head d - d_grains d < j \<and> j \<le> d_head d"
      show "shown d' j = shown d j \<or> (i \<le> j \<and> (shown d' j = d_placeholder d \<or> (\<exists>k < n. shown d' j = int k \<and> serves d (ms ! k) j)))"
        using step[of j] other[of j] r(9) j by (cases "j = i") auto
    qed
    moreover have "protected ms due d' j" if "i \<le> j" "j \<le> d_head d" "j + d_grains d \<le> reach" for j
    proof (cases "j = i")
      case True
      have "shown d' i = shown d1 i" using step[of i] that True win by auto
      then show ?thesis using protected_frame[OF fr(6,7), of i] r(7) True by simp
    qed (use ih(3)[of j] that in simp)
    moreover have "retire_loop ms due reach i d sels = Inr (d', sels @ (s @ new))" using True r(1) ih(1) by (simp add: unf)
    ultimately show ?thesis by blast
  qed
qed

lemma note_late_length: "length ss = length ms \<Longrightarrow> length ls = length ms \<Longrightarrow> length (note_late due ms ss ls) = length ms"
  by (induction due ms ss ls rule: note_late.induct) auto

lemma note_late_nonneg: "0 \<le> due \<Longrightarrow> set ls \<subseteq> {0..} \<Longrightarrow> p \<in> set (note_late due ms ss ls) \<Longrightarrow> 0 \<le> snd p"
  by (induction due ms ss ls rule: note_late.induct) (auto split: if_splits)

lemma noted_frame:
  assumes "wf_discrete n d" "length ms = n" "0 \<le> due"
  shows "wf_discrete n (noted ms due d)" "same_ring d (noted ms due d)" "d_current (noted ms due d) = d_current d"
    "d_head (noted ms due d) = d_head d" "length (d_late (noted ms due d)) = n"
proof -
  let ?seen = "if length (d_seen d) \<noteq> length ms then replicate (length ms) 0 else d_seen d"
  let ?late = "if length (d_seen d) \<noteq> length ms then replicate (length ms) 0 else d_late d"
  have late: "set ?late \<subseteq> {0..}" "length ?late = length ms" "length ?seen = length ms" using assms(1) by (auto simp: wf_discrete_def)
  have "set (map snd (note_late due ms ?seen ?late)) \<subseteq> {0..}" using note_late_nonneg[OF assms(3) late(1), of _ ms ?seen] by auto
  then show "wf_discrete n (noted ms due d)" using assms(1) by (simp add: noted_def Let_def wf_discrete_def)
  show "same_ring d (noted ms due d)" "d_current (noted ms due d) = d_current d" "d_head (noted ms due d) = d_head d"
    by (simp_all add: noted_def Let_def same_ring_def)
  show "length (d_late (noted ms due d)) = n"
    using note_late_length[OF late(3,2), of due] assms(2) by (simp add: noted_def Let_def)
qed

lemma reach_of_ge: "k < length ms \<Longrightarrow> next_write ms due d k \<le> reach_of ms due d"
proof -
  have mono: "r \<le> fold (\<lambda>m r. max r (next_write ms due d m)) ks r" for r ks
    by (induction ks arbitrary: r) (auto intro: order.trans[OF max.cobounded1])
  have "k \<in> set ks \<Longrightarrow> next_write ms due d k \<le> fold (\<lambda>m r. max r (next_write ms due d m)) ks r" for r ks
    by (induction ks arbitrary: r) (auto intro: order.trans[OF max.cobounded2 mono])
  then show "k < length ms \<Longrightarrow> next_write ms due d k \<le> reach_of ms due d" by (simp add: reach_of_def)
qed

lemma retire_spec:
  assumes "wf_discrete n d" "length ms = n" "d_head d < 2 ^ 63" "0 \<le> due"
  obtains d' sels where "retire ms due d = Inr (d', sels)" "retired ms n (oldest_trusted d) (noted ms due d) sels d'"
    "\<And>j. oldest_trusted d \<le> j \<Longrightarrow> j \<le> d_head d \<Longrightarrow> protected ms due d' j"
proof -
  let ?d = "noted ms due d"
  note nf = noted_frame[OF assms(1,2,4)]
  have g: "2 \<le> d_grains d" "d_grains d < 4294967296" "0 \<le> d_head d" "d_grains ?d = d_grains d" "d_placeholder ?d = int n" "set (d_current d) \<subseteq> {0..int n}"
    using assms(1) nf(2) by (simp_all add: wf_discrete_def same_ring_def)
  have "u64 (d_head d + 2) = d_head d + 2" using assms(3) g by simp
  moreover have "u64 (d_head d + 2 - d_grains d) = d_head d + 2 - d_grains d" if "d_grains d < d_head d + 2"
    using assms(3) g that by (intro u64_id) simp
  ultimately have old: "oldest_trusted d = max 1 (d_head d + 2 - d_grains d)"
    using g(1) by (auto simp: oldest_trusted_def)
  have old': "oldest_trusted ?d = oldest_trusted d" using nf(4) g(4) by (simp add: oldest_trusted_def)
  have "d_head ?d < 2 ^ 63" "d_head ?d - d_grains ?d + 1 < oldest_trusted d" "0 \<le> oldest_trusted d"
    using assms(3) old nf(4) g by auto
  from retire_loop_spec[OF nf(1) assms(2) this, of due "reach_of ms due ?d" "[]"]
  obtain d' new where r: "retire ms due d = Inr (d', new)" "retired ms n (oldest_trusted d) ?d new d'"
    "\<And>j. oldest_trusted d \<le> j \<Longrightarrow> j \<le> d_head d \<Longrightarrow> j + d_grains d \<le> reach_of ms due ?d \<Longrightarrow> protected ms due d' j"
    unfolding nf(4) g(4) by (auto simp: retire_def Let_def old')
  have "protected ms due d' j" if "oldest_trusted d \<le> j" "j \<le> d_head d" for j
  proof (cases "j + d_grains d \<le> reach_of ms due ?d")
    case False
    have wf': "wf_discrete n d'" "same_ring ?d d'" "d_late d' = d_late ?d" using r(2) by (simp_all add: retired_def)
    have "shown d' j \<in> set (d_current d')" using slot_bounds[OF wf'(1), of j] by simp
    then have sh: "0 \<le> shown d' j" "shown d' j \<le> int n" using wf'(1) by (auto simp: wf_discrete_def)
    have "next_write ms due d' k < j + d_grains d'" if "k < length ms" for k
      using reach_of_ge[OF that, of due ?d] False next_write_late[OF wf'(3)] wf'(2) g(4) by (simp add: same_ring_def)
    then show ?thesis using sh wf'(2) g(5) assms(2) unfolding protected_def
      by (cases "shown d' j = int n") (auto simp: same_ring_def intro!: exI[of _ "nat (shown d' j)"])
  qed (use r(3) that in blast)
  with r(1,2) show thesis by (rule that)
qed

text \<open>Between two passes a member's ring only moves forward, and no further than the index \<open>next_write\<close> allows it: what a
  member writing at the clock does, the engine being back a guard before every boundary.\<close>

definition writes_within :: "Member list \<Rightarrow> uint64 \<Rightarrow> Discrete \<Rightarrow> Member list \<Rightarrow> bool" where
  "writes_within ms due d ms' \<longleftrightarrow> length ms' = length ms \<and>
     (\<forall>k < length ms. \<forall>s. mb_grain (ms' ! k) s = mb_grain (ms ! k) s \<or>
        (g_index (mb_grain (ms ! k) s) < g_index (mb_grain (ms' ! k) s) \<and>
         g_index (mb_grain (ms' ! k) s) mod d_grains d = s \<and> g_index (mb_grain (ms' ! k) s) \<le> next_write ms due d k))"

text \<open>C19. After Retire no reader is shown the next ring period under a trusted index. For every index readers trust, the
  slot keeps its source, or moves to a member that holds the index, or to the placeholder; and a member's grain
  that is shown for a trusted index and is that index's is still the same grain at the next pass, whatever the members
  write until then within the bound.\<close>

theorem retire_keeps_trusted_grains:
  assumes "wf_discrete n d" "length ms = n" "d_head d < 2 ^ 63" "0 \<le> due" "retire ms due d = Inr (d', sels)"
    and "oldest_trusted d \<le> i" "i \<le> d_head d" "writes_within ms due d' ms'"
  shows "wf_discrete n d' \<and> same_ring d d' \<and> d_head d' = d_head d \<and> d_current d' = replay sels (d_current d) \<and>
     (shown d' i = shown d i \<or> shown d' i = d_placeholder d \<or> (\<exists>k < n. shown d' i = int k \<and> serves d (ms ! k) i)) \<and>
     (shown d' i = int k \<and> k < n \<and> g_index (mb_grain (ms ! k) (i mod d_grains d)) = i \<longrightarrow>
      mb_grain (ms' ! k) (i mod d_grains d) = mb_grain (ms ! k) (i mod d_grains d))"
proof -
  note nf = noted_frame[OF assms(1,2,4)]
  have wf': "retired ms n (oldest_trusted d) (noted ms due d) sels d'" "protected ms due d' i"
    using retire_spec[OF assms(1-4)] assms(5-7) by (metis Inr_inject prod.inject)+
  have ring: "same_ring d d'" and g: "d_grains d' = d_grains d" "d_grains (noted ms due d) = d_grains d" "0 < d_grains d" "d_placeholder d' = int n"
    using wf'(1) nf(2) assms(1) same_ring_trans[of d "noted ms due d" d'] by (auto simp: retired_def same_ring_def wf_discrete_def)
  have trusted: "d_head d - d_grains d < i"
  proof -
    have "u64 (d_head d + 2) = d_head d + 2" using assms(1,3) by (simp add: wf_discrete_def)
    then show ?thesis using assms(1,6) unfolding oldest_trusted_def wf_discrete_def
      by (auto split: if_splits simp: u64_def)
  qed
  have "shown d' i = shown d i \<or> shown d' i = d_placeholder d \<or> (\<exists>k < n. shown d' i = int k \<and> serves d (ms ! k) i)"
    using wf'(1) trusted assms(7) nf g serves_same_ring[OF nf(2)] by (auto simp: retired_def same_ring_def)
  moreover have "mb_grain (ms' ! k) (i mod d_grains d) = mb_grain (ms ! k) (i mod d_grains d)"
    if k: "shown d' i = int k" "k < n" and idx: "g_index (mb_grain (ms ! k) (i mod d_grains d)) = i"
  proof (rule ccontr)
    let ?w = "g_index (mb_grain (ms' ! k) (i mod d_grains d))"
    assume "mb_grain (ms' ! k) (i mod d_grains d) \<noteq> mb_grain (ms ! k) (i mod d_grains d)"
    then have w: "i < ?w" "?w mod d_grains d = i mod d_grains d" "?w \<le> next_write ms due d' k"
      using assms(2,8) k(2) idx g(1) unfolding writes_within_def by metis+
    have "next_write ms due d' k < i + d_grains d"
      using wf'(2) k g assms(2) by (auto simp: protected_def)
    with w slot_distinct[of i ?w "d_grains d"] show False by simp
  qed
  ultimately show ?thesis using wf'(1) nf ring by (auto simp: retired_def)
qed

theorem retire_keeps_trusted_grains_witness:
  "\<exists>d'. retire demo_members 12 demo_served = Inr (d', [\<lparr>sel_slot = 0, sel_source = 1, sel_index = 8\<rparr>]) \<and> shown demo_served 8 = 0 \<and> shown d' 8 = 1 \<and>
     writes_within demo_members 12 d' demo_later \<and> g_index (mb_grain (demo_later ! 0) 0) = 12 \<and>
     mb_grain (demo_later ! 1) 0 = mb_grain (demo_members ! 1) 0"
proof -
  let ?d = "demo_served\<lparr>d_current := [1, 1, 2, 2]\<rparr>" and ?s = "[\<lparr>sel_slot = 0, sel_source = 1, sel_index = 8\<rparr>]"
  have r: "retire demo_members 12 demo_served = Inr (?d, ?s)" by code_simp
  have p: "oldest_trusted demo_served \<le> 8" "d_head demo_served = 9" "d_grains demo_served = 4" by code_simp+
  have n: "next_write demo_members 12 ?d 0 = 12" by code_simp
  have w: "writes_within demo_members 12 ?d demo_later"
    using n by (auto simp: writes_within_def demo_defs less_Suc_eq)
  have "mb_grain (demo_later ! 1) (8 mod 4) = mb_grain (demo_members ! 1) (8 mod 4)"
    using retire_keeps_trusted_grains[OF demo_ok(2,3) _ _ r p(1) _ w, of 1] p(2,3) by (simp add: demo_defs)
  with r w show ?thesis by (simp add: demo_defs)
qed

end
