(* ===== verification/Merge_Audio_Safety.thy ===== *)
theory Merge_Audio_Safety
  imports Merge_Audio
begin

section \<open>What the merge of audio flows guarantees\<close>

text \<open>
  Well-formed states of the audio policy, their preservation by every operation, and what a published page shows.
\<close>

subsection \<open>Well-formed states\<close>

definition cov_ok :: "coverage \<Rightarrow> bool" where
  "cov_ok c \<longleftrightarrow> (c_valid c \<longrightarrow> c_n c * pageSamples \<le> c_to c \<and> c_to c \<le> (c_n c + 1) * pageSamples)"

definition wf_audio :: "nat \<Rightarrow> Audio \<Rightarrow> bool" where
  "wf_audio n a \<longleftrightarrow> 0 < a_pages a \<and> a_pages a < 2 ^ 32 \<and> int (length (a_current a)) = a_pages a \<and> a_silence a = int n \<and>
     set (a_current a) \<subseteq> {0..int n} \<and> length (a_cov a) = n \<and> (\<forall>cs \<in> set (a_cov a). int (length cs) = a_pages a \<and> list_all cov_ok cs) \<and>
     length (a_evHead a) = n \<and> length (a_batch a) = n \<and> 0 \<le> a_primary a \<and> a_primary a < int n \<and> 0 \<le> a_head a"

lemma newAudio_wf: "0 < members \<Longrightarrow> 0 < pages \<Longrightarrow> pages < 2 ^ 32 \<Longrightarrow> wf_audio members (newAudio members pages (int members))"
  by (auto simp: wf_audio_def newAudio_def no_coverage_def cov_ok_def list_all_iff nat_less_iff)

definition same_audio :: "Audio \<Rightarrow> Audio \<Rightarrow> bool" where
  "same_audio a b \<longleftrightarrow> a_pages b = a_pages a \<and> a_skew b = a_skew a \<and> a_silence b = a_silence a \<and> a_cov b = a_cov a \<and>
     a_evHead b = a_evHead a \<and> a_batch b = a_batch a \<and> a_started b = a_started a \<and> a_tolerance b = a_tolerance a \<and> a_ahead b = a_ahead a"

lemma same_audio_refl [simp]: "same_audio a a"
  by (simp add: same_audio_def)

lemma same_audio_trans: "same_audio a b \<Longrightarrow> same_audio b c \<Longrightarrow> same_audio a c"
  by (simp add: same_audio_def)

abbreviation page_slot :: "Audio \<Rightarrow> uint64 \<Rightarrow> nat" where
  "page_slot a n \<equiv> nat (n mod a_pages a)"

lemma page_slot_bound: "wf_audio n a \<Longrightarrow> page_slot a k < length (a_current a)"
  by (simp add: wf_audio_def nat_less_iff)

lemma wf_audio_cov: "wf_audio n a \<Longrightarrow> m < n \<Longrightarrow> p < length (a_current a) \<Longrightarrow> cov_ok (a_cov a ! m ! p) \<and> p < length (a_cov a ! m)"
proof -
  assume a: "wf_audio n a" "m < n" "p < length (a_current a)"
  then have "a_cov a ! m \<in> set (a_cov a)" by (simp add: wf_audio_def)
  with a(1) have "int (length (a_cov a ! m)) = a_pages a" "list_all cov_ok (a_cov a ! m)" "int (length (a_current a)) = a_pages a"
    by (simp_all add: wf_audio_def)
  with a(3) show ?thesis by (simp add: list_all_length)
qed

lemma wf_audio_set:
  "wf_audio n a \<Longrightarrow> 0 \<le> src \<Longrightarrow> src \<le> int n \<Longrightarrow> 0 \<le> h \<Longrightarrow> wf_audio n (a\<lparr>a_current := (a_current a)[p := src], a_head := h\<rparr>)"
  using set_update_subset_insert[of "a_current a" p src] by (auto simp: wf_audio_def)

text \<open>How far member \<open>m\<close> holds page \<open>n\<close>.\<close>

abbreviation held :: "Audio \<Rightarrow> uint64 \<Rightarrow> nat \<Rightarrow> uint64" where
  "held a n m \<equiv> upto n (a_cov a ! m ! page_slot a n)"

lemma held_bound: "wf_audio k a \<Longrightarrow> m < k \<Longrightarrow> 0 \<le> n \<Longrightarrow> held a n m \<le> (n + 1) * pageSamples"
  using wf_audio_cov[of k a m "page_slot a n"] page_slot_bound[of k a n] by (auto simp: upto_def cov_ok_def pageSamples_def)

subsection \<open>Committed\<close>

lemma cover_ok: "n * pageSamples < end \<Longrightarrow> cov_ok c \<Longrightarrow> cov_ok (cover start end n c)"
  by (auto simp: cover_def cov_ok_def Let_def pageSamples_def)

lemma cover_pages_ok:
  "0 < pages \<Longrightarrow> list_all cov_ok cs \<Longrightarrow> int (length cs) = pages \<Longrightarrow>
   list_all cov_ok (cover_pages pages start end n cs) \<and> int (length (cover_pages pages start end n cs)) = pages"
proof (induction pages start "end" n cs rule: cover_pages.induct)
  case (1 pages start "end" n cs)
  show ?case
  proof (cases "n * pageSamples < end")
    case True
    let ?p = "nat (n mod pages)"
    have p: "?p < length cs" using "1.prems" by (simp add: nat_less_iff)
    then have "cov_ok (cs ! ?p)" using "1.prems"(2) by (simp add: list_all_length)
    then have "list_all cov_ok (cs[?p := cover start end n (cs ! ?p)])"
      using "1.prems"(2) cover_ok[OF True] p by (auto simp: list_all_length nth_list_update)
    with "1.IH"[OF True "1.prems"(1)] "1.prems"(3) show ?thesis by (subst (1 2) cover_pages.simps) (simp add: True)
  qed (use "1.prems" in \<open>simp add: cover_pages.simps\<close>)
qed

lemma committed_wf:
  assumes "wf_audio n a" "m < n" "0 \<le> start" "in_u64 end"
  shows "\<exists>a'. committed m start end a = Inr a' \<and> wf_audio n a'"
proof -
  let ?cs = "cover_pages (a_pages a) start end (start div pageSamples) (a_cov a ! m)"
  have "a_cov a ! m \<in> set (a_cov a)" using assms by (simp add: wf_audio_def)
  then have cs: "list_all cov_ok ?cs \<and> int (length ?cs) = a_pages a"
    using assms(1) cover_pages_ok[of "a_pages a" "a_cov a ! m" start "end" "start div pageSamples"] by (auto simp: wf_audio_def)
  have cov: "\<forall>cs \<in> set ((a_cov a)[m := ?cs]). int (length cs) = a_pages a \<and> list_all cov_ok cs"
    using cs assms(1) set_update_subset_insert[of "a_cov a" m ?cs] by (auto simp: wf_audio_def)
  have u: "0 \<le> u64 x div pageSamples * pageSamples" for x by (simp add: u64_def pageSamples_def)
  have len: "m < length (a_cov a)" "m < length (a_evHead a)" "m < length (a_batch a)" "a_pages a \<noteq> 0"
    using assms(1,2) by (simp_all add: wf_audio_def)
  show ?thesis
    using assms(1) cov u len by (cases "a_started a"; cases "end > a_evHead a ! m") (simp_all add: committed_def Let_def wf_audio_def)
qed

subsection \<open>One turn\<close>

lemma audio_scan_none:
  "audio_scan head n primary m all us (pick, alt) = (pick', alt') \<Longrightarrow> 0 \<le> m \<Longrightarrow> pick' < 0 \<Longrightarrow> alt' < 0 \<Longrightarrow>
   pick < 0 \<and> alt < 0 \<and> (\<forall>u \<in> set us. u \<le> head)"
proof (induction us arbitrary: m pick alt)
  case (Cons u us)
  obtain p a where pa: "audio_scan head n primary (m + 1) all us (p, a) = (pick', alt')"
    "(p = pick \<and> a = alt \<and> (u \<le> head \<or> \<not> alt < 0)) \<or> p = m \<or> a = m"
    using Cons.prems(1) by (auto split: if_splits)
  from Cons.IH[OF pa(1) _ Cons.prems(3,4)] Cons.prems(2) have "p < 0 \<and> a < 0 \<and> (\<forall>u \<in> set us. u \<le> head)" by simp
  with pa(2) Cons.prems(2) show ?case by auto
qed simp

text \<open>A source that may be shown for page \<open>n\<close> published from \<open>h\<close> to \<open>e\<close>: a member that holds the page from its start
  up to \<open>e\<close>, or silence when no member holds a sample past \<open>h\<close> and the lead is the skew ahead.\<close>

definition good_page :: "Audio \<Rightarrow> uint64 \<Rightarrow> uint64 \<Rightarrow> uint64 \<Rightarrow> int \<Rightarrow> uint64 \<Rightarrow> bool" where
  "good_page a lead n h src e \<longleftrightarrow>
     (\<exists>m < length (a_cov a). src = int m \<and> h < e \<and> e = held a n m) \<or>
     (src = a_silence a \<and> (\<forall>m < length (a_cov a). held a n m \<le> h) \<and> u64 (h + a_skew a) \<le> lead \<and> e = min ((n + 1) * pageSamples) lead)"

lemma audio_decide_spec:
  assumes wf: "wf_audio k a" and lead: "a_head a < lead"
  defines "n \<equiv> a_head a div pageSamples"
  obtains (wait) a' w where "audio_decide lead now a = Inr (AWait a' w)" "same_audio a a'" "a_current a' = a_current a" "a_head a' = a_head a" "wf_audio k a'"
    | (stop) "audio_decide lead now a = Inr (AStop a)" "lead < u64 (a_head a + a_skew a)" "\<And>m. m < k \<Longrightarrow> held a n m \<le> a_head a"
    | (publish) a' pick e where "audio_decide lead now a = Inr (APublish a' pick e)" "same_audio a a'" "a_current a' = a_current a"
      "a_head a' = a_head a" "wf_audio k a'" "good_page a lead n (a_head a) pick e"
proof -
  let ?p = "page_slot a n"
  let ?us = "map (\<lambda>cs. upto n (cs ! ?p)) (a_cov a)"
  obtain pick alt where sc: "audio_scan (a_head a) n (a_primary a) 0 ?us ?us (-1, -1) = (pick, alt)" by force
  have past: "0 \<le> pick \<Longrightarrow> nat pick < k \<and> a_head a < ?us ! nat pick" "0 \<le> alt \<Longrightarrow> nat alt < k \<and> a_head a < ?us ! nat alt"
    using audio_scan_past[OF sc, of "[]"] wf by (auto simp: wf_audio_def)
  have len: "length (a_cov a) = k" "a_pages a \<noteq> 0" "0 \<le> a_primary a" "nat (a_primary a) < k" "length (a_evHead a) = k" using wf by (auto simp: wf_audio_def)
  have cols: "list_all (\<lambda>cs. ?p < length cs) (a_cov a)" using wf page_slot_bound[OF wf, of n] by (auto simp: wf_audio_def list_all_iff)
  have us: "?us ! m = held a n m" if "m < k" for m using that len by simp
  have frame: "same_audio a (audio_waited a n now)" "a_current (audio_waited a n now) = a_current a" "a_head (audio_waited a n now) = a_head a"
    "wf_audio k (audio_waited a n now)" "a_primary (audio_waited a n now) = a_primary a"
    using wf by (simp_all add: audio_waited_def same_audio_def wf_audio_def)
  note dec = audio_decide_def[of lead now a, unfolded Let_def, folded n_def, unfolded sc prod.case]
  consider "0 \<le> pick" | "pick < 0" "0 \<le> alt" | "pick < 0" "alt < 0" by linarith
  then show thesis
  proof cases
    case 1
    then have "audio_decide lead now a = Inr (APublish a pick (?us ! nat pick))" using len cols by (simp add: dec)
    moreover have "good_page a lead n (a_head a) pick (?us ! nat pick)"
      using past(1) 1 us len by (auto simp: good_page_def intro!: exI[of _ "nat pick"])
    ultimately show thesis using wf by (intro publish[of a pick "?us ! nat pick"]) simp_all
  next
    case 2
    let ?w = "audio_waited a n now" and ?e = "?us ! nat alt"
    have good: "good_page a lead n (a_head a) alt ?e" using past(2) 2 us len by (auto simp: good_page_def intro!: exI[of _ "nat alt"])
    have wf': "wf_audio k (?w\<lparr>a_primary := alt\<rparr>)" using frame(4) past(2) 2 by (auto simp: wf_audio_def)
    have "length (a_cov ?w) = k" "length (a_evHead ?w) = k" using frame(4) by (simp_all add: wf_audio_def)
    then have dec2: "audio_decide lead now a =
        (if audio_gap ?w n ?p then Inr (APublish ?w alt ?e)
         else if time_sub now (a_waitingSince ?w) \<ge> a_tolerance ?w then Inr (APublish (?w\<lparr>a_primary := alt\<rparr>) alt ?e)
         else Inr (AWait ?w (sub64 (a_tolerance ?w) (time_sub now (a_waitingSince ?w)))))"
      using 2 len cols frame(5) by (simp add: dec)
    consider "audio_decide lead now a = Inr (APublish ?w alt ?e)" | "audio_decide lead now a = Inr (APublish (?w\<lparr>a_primary := alt\<rparr>) alt ?e)"
      | w where "audio_decide lead now a = Inr (AWait ?w w)"
      by (cases "audio_gap ?w n ?p"; cases "time_sub now (a_waitingSince ?w) \<ge> a_tolerance ?w") (simp_all add: dec2)
    then show thesis
    proof cases
      case 1
      then show thesis using frame good by (intro publish[of ?w alt ?e]) simp_all
    next
      case 2
      then show thesis using frame good wf' by (intro publish[of "?w\<lparr>a_primary := alt\<rparr>" alt ?e]) (simp_all add: same_audio_def)
    next
      case (3 w)
      then show thesis using frame by (intro wait[of ?w w]) simp_all
    qed
  next
    case 3
    have none: "held a n m \<le> a_head a" if "m < k" for m
      using audio_scan_none[OF sc] 3 that len us[OF that] by (auto simp: set_conv_nth)
    show thesis
    proof (cases "lead < u64 (a_head a + a_skew a)")
      case True
      then show thesis using 3 len cols none by (intro stop) (simp_all add: dec)
    next
      case False
      have "audio_decide lead now a = Inr (APublish a (a_silence a) (min ((n + 1) * pageSamples) lead))" using False 3 len cols by (simp add: dec)
      moreover have "good_page a lead n (a_head a) (a_silence a) (min ((n + 1) * pageSamples) lead)"
        using False none len by (simp add: good_page_def)
      ultimately show thesis using wf by (intro publish[of a "a_silence a" "min ((n + 1) * pageSamples) lead"]) simp_all
    qed
  qed
qed

subsection \<open>The loop\<close>

definition replay_pages :: "PageSelect list \<Rightarrow> int list \<Rightarrow> int list" where
  "replay_pages sels views = fold (\<lambda>s vs. vs[nat (ps_page s) := ps_source s]) sels views"

lemma replay_pages_simps [simp]:
  "replay_pages [] vs = vs" "replay_pages (s # ss) vs = replay_pages ss (vs[nat (ps_page s) := ps_source s])"
  "replay_pages (ss @ ts) vs = replay_pages ts (replay_pages ss vs)"
  by (simp_all add: replay_pages_def)

text \<open>What a page published since the head was at \<open>h0\<close> shows: a member that holds all of it that is published, or
  silence, decided on when no member held the next sample and the leading member was the skew ahead.\<close>

definition page_true :: "Audio \<Rightarrow> uint64 \<Rightarrow> uint64 \<Rightarrow> uint64 \<Rightarrow> bool" where
  "page_true a lead h0 n \<longleftrightarrow>
     (\<exists>m < length (a_cov a). a_current a ! page_slot a n = int m \<and> min ((n + 1) * pageSamples) (a_head a) \<le> held a n m) \<or>
     (a_current a ! page_slot a n = a_silence a \<and>
      (\<exists>h. h0 \<le> h \<and> h < a_head a \<and> h div pageSamples = n \<and> (\<forall>m < length (a_cov a). held a n m \<le> h) \<and> u64 (h + a_skew a) \<le> lead))"

definition pages_true :: "Audio \<Rightarrow> uint64 \<Rightarrow> uint64 \<Rightarrow> bool" where
  "pages_true a lead h0 \<longleftrightarrow>
     (\<forall>n. h0 < a_head a \<and> n * pageSamples < a_head a \<and> h0 < (n + 1) * pageSamples \<and> (a_head a - 1) div pageSamples < n + a_pages a \<longrightarrow>
        page_true a lead h0 n)"

lemma same_audio_held: "same_audio a b \<Longrightarrow> held b n m = held a n m"
  by (simp add: same_audio_def)

lemma pageSamples_pos: "0 < pageSamples"
  by (simp add: pageSamples_def)

lemma page_before:
  assumes "n' < h div pageSamples" shows "(n' + 1) * pageSamples \<le> h"
proof -
  have "(n' + 1) * pageSamples \<le> h div pageSamples * pageSamples"
    using assms pageSamples_pos by (intro mult_right_mono) auto
  also have "\<dots> \<le> h" by (rule page_start)
  finally show ?thesis .
qed

lemma page_less: "q * pageSamples \<le> x \<Longrightarrow> x < (r + 1) * pageSamples \<Longrightarrow> q \<le> r"
  using mult_less_cancel_right_pos[OF pageSamples_pos, of q "r + 1"] by simp

lemma page_of_end:
  assumes "h < e" "e \<le> (h div pageSamples + 1) * pageSamples"
  shows "(e - 1) div pageSamples = h div pageSamples" "n' * pageSamples < e \<Longrightarrow> n' \<le> h div pageSamples" "(h - 1) div pageSamples \<le> h div pageSamples"
proof -
  show "(e - 1) div pageSamples = h div pageSamples"
    using page_less[OF page_start[of "e - 1"], of "h div pageSamples"] page_less[of "h div pageSamples" "e - 1" "(e - 1) div pageSamples"]
      page_start[of h] page_end[of "e - 1"] assms by (intro antisym) auto
  show "n' * pageSamples < e \<Longrightarrow> n' \<le> h div pageSamples"
    using page_less[of n' "e - 1" "h div pageSamples"] assms by simp
  show "(h - 1) div pageSamples \<le> h div pageSamples" by (simp add: pageSamples_def zdiv_mono1)
qed

lemma pages_true_publish:
  assumes wf: "wf_audio k a" and "h0 \<le> a_head a" and pt: "pages_true a lead h0" and lead: "a_head a < lead"
    and good: "good_page a lead (a_head a div pageSamples) (a_head a) pick e"
    and b: "same_audio a b" "a_head b = e" "a_current b = (a_current a)[page_slot a (a_head a div pageSamples) := pick]"
  shows "pages_true b lead h0"
  unfolding pages_true_def
proof (intro allI impI)
  let ?n = "a_head a div pageSamples"
  have n0: "0 \<le> ?n" using wf by (simp add: wf_audio_def pageSamples_def pos_imp_zdiv_nonneg_iff)
  have len: "length (a_cov a) = k" using wf by (simp add: wf_audio_def)
  have bb: "a_cov b = a_cov a" "a_pages b = a_pages a" "a_silence b = a_silence a" "a_skew b = a_skew a" using b(1) by (simp_all add: same_audio_def)
  have e: "a_head a < e" "e \<le> (?n + 1) * pageSamples"
    using good lead page_end[of "a_head a"] held_bound[OF wf _ n0] len unfolding good_page_def by auto
  fix n assume n: "h0 < a_head b \<and> n * pageSamples < a_head b \<and> h0 < (n + 1) * pageSamples \<and> (a_head b - 1) div pageSamples < n + a_pages b"
  then have le: "n \<le> ?n" "?n < n + a_pages a" using page_of_end[OF e] b(2) bb by auto
  show "page_true b lead h0 n"
  proof (cases "n = ?n")
    case True
    have cur: "a_current b ! page_slot b n = pick" using b(3) bb page_slot_bound[OF wf, of ?n] True by simp
    from good consider m where "m < k" "pick = int m" "e = held a ?n m"
      | "pick = a_silence a" "\<forall>m < k. held a ?n m \<le> a_head a" "u64 (a_head a + a_skew a) \<le> lead"
      unfolding good_page_def len by blast
    then show ?thesis
    proof cases
      case 1
      then show ?thesis using cur True bb len b(2) unfolding page_true_def by (intro disjI1 exI[of _ m]) simp
    next
      case 2
      then show ?thesis using cur True bb len b(2) e(1) assms(2) unfolding page_true_def by (intro disjI2 conjI exI[of _ "a_head a"]) simp_all
    qed
  next
    case False
    then have lt: "n < ?n" using le by simp
    then have slot: "page_slot b n \<noteq> page_slot a ?n" using slot_distinct[of n ?n "a_pages a"] le bb by simp
    have full: "(n + 1) * pageSamples \<le> a_head a" using page_before[OF lt] .
    have "page_true a lead h0 n"
      using pt n full le page_of_end(3)[OF e] unfolding pages_true_def pageSamples_def by auto
    moreover have cur: "a_current b ! page_slot b n = a_current a ! page_slot a n" using slot b(3) bb(2) by simp
    moreover have "min ((n + 1) * pageSamples) (a_head b) = min ((n + 1) * pageSamples) (a_head a)" using full e(1) b(2) by simp
    moreover have "h < a_head b" if "h < a_head a" for h using that e(1) b(2) by simp
    ultimately show ?thesis unfolding page_true_def bb cur by metis
  qed
qed

lemma audio_publish_spec:
  assumes wf: "wf_audio k a" and "0 \<le> pick" "pick \<le> int k" "0 \<le> e"
  obtains b s where "audio_publish a pick e = Inr (b, s)" "same_audio a b" "wf_audio k b" "a_head b = e"
    "a_current b = (a_current a)[page_slot a (a_head a div pageSamples) := pick]" "a_current b = replay_pages s (a_current a)"
proof -
  let ?p = "a_head a div pageSamples mod a_pages a"
  have p: "nat ?p < length (a_current a)" using page_slot_bound[OF wf] by simp
  show thesis
  proof (cases "a_current a ! nat ?p = pick")
    case True
    then have "(a_current a)[nat ?p := pick] = a_current a" by auto
    moreover from True p have "audio_publish a pick e = Inr (a\<lparr>a_head := e\<rparr>, [])" by (simp add: audio_publish_def Let_def)
    ultimately show thesis using wf assms(4) by (intro that[of "a\<lparr>a_head := e\<rparr>" "[]"]) (simp_all add: same_audio_def wf_audio_def)
  next
    case False
    let ?b = "a\<lparr>a_current := (a_current a)[nat ?p := pick], a_head := e\<rparr>"
    have "audio_publish a pick e = Inr (?b, [\<lparr>ps_page = ?p, ps_source = pick\<rparr>])" using False p by (simp add: audio_publish_def Let_def)
    then show thesis using wf_audio_set[OF wf assms(2-4)] by (intro that[of ?b "[\<lparr>ps_page = ?p, ps_source = pick\<rparr>]"]) (simp_all add: same_audio_def)
  qed
qed

lemma audio_loop_spec:
  assumes "wf_audio k a" "h0 \<le> a_head a" "pages_true a lead h0"
  shows "\<exists>b new w. audio_loop lead now a sels = Inr (b, sels @ new, w) \<and> wf_audio k b \<and> same_audio a b \<and>
     a_head a \<le> a_head b \<and> a_head b \<le> max (a_head a) (max lead (((lead - 1) div pageSamples + 1) * pageSamples)) \<and>
     a_current b = replay_pages new (a_current a) \<and> pages_true b lead h0"
  using assms
proof (induction lead now a sels rule: audio_loop.induct)
  case (1 lead now a sels)
  note wf = "1.prems"(1)
  note unf = audio_loop.simps[of lead now a sels]
  show ?case
  proof (cases "a_started a \<and> a_head a < lead")
    case False
    then have "audio_loop lead now a sels = Inr (a, sels @ [], 0)" by (subst unf) auto
    with "1.prems" show ?thesis by fastforce
  next
    case run: True
    then have lead: "a_head a < lead" by simp
    let ?n = "a_head a div pageSamples"
    from wf lead show ?thesis
    proof (cases rule: audio_decide_spec[where now = now])
      case (wait b w)
      then have "audio_loop lead now a sels = Inr (b, sels @ [], w)" using run by (simp add: unf)
      moreover have "pages_true b lead h0" using "1.prems"(3) wait(2-4) unfolding pages_true_def page_true_def same_audio_def by simp
      ultimately show ?thesis using wait by fastforce
    next
      case stop
      then have "audio_loop lead now a sels = Inr (a, sels @ [], 0)" using run by (simp add: unf)
      with "1.prems" show ?thesis by fastforce
    next
      case (publish a1 pick e)
      have n0: "0 \<le> ?n" using wf by (simp add: wf_audio_def pageSamples_def pos_imp_zdiv_nonneg_iff)
      have len: "length (a_cov a) = k" "a_silence a = int k" "0 \<le> a_head a" using wf by (simp_all add: wf_audio_def)
      have e: "a_head a < e" "e \<le> (?n + 1) * pageSamples" "0 \<le> pick" "pick \<le> int k"
        using publish(6) lead page_end[of "a_head a"] held_bound[OF wf _ n0] len unfolding good_page_def by auto
      have "?n \<le> (lead - 1) div pageSamples" using lead by (simp add: pageSamples_def zdiv_mono1)
      then have ub: "e \<le> ((lead - 1) div pageSamples + 1) * pageSamples" using e(2) by (simp add: pageSamples_def)
      have e0: "0 \<le> e" using e(1) len(3) by simp
      have pg: "a_pages a1 = a_pages a" using publish(2) by (simp add: same_audio_def)
      obtain b s where p: "audio_publish a1 pick e = Inr (b, s)" "same_audio a1 b" "wf_audio k b" "a_head b = e"
        "a_current b = (a_current a1)[page_slot a1 (a_head a1 div pageSamples) := pick]" "a_current b = replay_pages s (a_current a1)"
        by (rule audio_publish_spec[OF publish(5) e(3,4) e0]) blast
      have ab: "same_audio a b" using same_audio_trans[OF publish(2) p(2)] .
      have "pages_true b lead h0"
        using pages_true_publish[OF wf "1.prems"(2,3) lead publish(6) ab p(4)] p(5) publish(3,4) pg by simp
      moreover have "h0 \<le> a_head b" using "1.prems"(2) p(4) e(1) by simp
      ultimately obtain c new w where ih: "audio_loop lead now b (sels @ s) = Inr (c, (sels @ s) @ new, w)" "wf_audio k c" "same_audio b c"
        "a_head b \<le> a_head c" "a_head c \<le> max (a_head b) (max lead (((lead - 1) div pageSamples + 1) * pageSamples))"
        "a_current c = replay_pages new (a_current b)" "pages_true c lead h0"
        using "1.IH"[OF run publish(1) HOL.refl p(1) HOL.refl p(3)] by blast
      have "audio_loop lead now a sels = Inr (c, sels @ (s @ new), w)" using run publish(1) p(1) ih(1) by (simp add: unf)
      moreover have "a_current c = replay_pages (s @ new) (a_current a)" using ih(6) p(6) publish(3) by simp
      moreover have "a_head a \<le> a_head c" "a_head c \<le> max (a_head a) (max lead (((lead - 1) div pageSamples + 1) * pageSamples))"
        using ih(4,5) e(1) p(4) ub by auto
      ultimately show ?thesis using ih(2,7) same_audio_trans[OF ab ih(3)] by blast
    qed
  qed
qed

subsection \<open>Two members of a channel buffer of four pages\<close>

text \<open>The concrete policy the theorems below are applied to: both members committed page 4, samples 4096 to 5120, in
  batches of 1024 and of 256 samples; the output starts at the page, or has published it from member 0.\<close>

definition demo_audio :: Audio where
  "demo_audio = (newAudio 2 4 2)\<lparr>a_skew := 256, a_ahead := 1, a_head := 4096, a_started := True, a_evHead := [5120, 5120],
     a_batch := [1024, 256], a_cov := replicate 2 (\<lparr>c_n = 4, c_to = 5120, c_broken = False, c_valid = True\<rparr> # replicate 3 no_coverage)\<rparr>"

definition demo_played :: Audio where
  "demo_played = demo_audio\<lparr>a_head := 5120, a_current := [0, 2, 2, 2]\<rparr>"

lemma demo_audio_wf: "wf_audio 2 demo_audio" "wf_audio 2 demo_played"
  by (simp_all add: demo_audio_def demo_played_def newAudio_def no_coverage_def wf_audio_def cov_ok_def pageSamples_def numeral_3_eq_3 numeral_2_eq_2)

lemma demo_audio_step: "audio_step 0 demo_audio = Inr (demo_played, [\<lparr>ps_page = 0, ps_source = 0\<rparr>], 0)"
  by code_simp

text \<open>C20. Audio is published only from members that delivered it. On every well-formed state Step returns, without a
  panic and in a well-formed state; the head moves forward and stays below the end of the page the leading member is
  in; applying the selects turns the old page views into the new ones; and every page with a sample published in this
  step, still in the ring, shows a member that delivered it from its start to the published end without a gap, or
  silence that was chosen when no member held the next sample and the leading member was the skew budget ahead.\<close>

theorem audio_step_publishes_truthfully:
  assumes "wf_audio k a"
  shows "\<exists>b sels w. audio_step now a = Inr (b, sels, w) \<and> wf_audio k b \<and> same_audio a b \<and> a_head a \<le> a_head b \<and>
     a_head b \<le> max (a_head a) (max (audio_lead a) (((audio_lead a - 1) div pageSamples + 1) * pageSamples)) \<and>
     a_current b = replay_pages sels (a_current a) \<and> pages_true b (audio_lead a) (a_head a)"
proof -
  have "pages_true a (audio_lead a) (a_head a)" by (simp add: pages_true_def)
  from audio_loop_spec[OF assms order.refl this, of now "[]"] show ?thesis by (simp add: audio_step_def)
qed

theorem audio_step_publishes_truthfully_witness:
  "\<exists>b. audio_step 0 demo_audio = Inr (b, [\<lparr>ps_page = 0, ps_source = 0\<rparr>], 0) \<and> a_head b = 5120 \<and> page_true b 5120 4096 4"
proof -
  have c: "audio_lead demo_audio = 5120" "a_head demo_audio = 4096" "a_head demo_played = 5120" by code_simp+
  have "pages_true demo_played 5120 4096"
    using audio_step_publishes_truthfully[OF demo_audio_wf(1), of 0] unfolding demo_audio_step c by simp
  then have "page_true demo_played 5120 4096 4" unfolding pages_true_def c by (auto dest!: spec[of _ 4] simp: pageSamples_def demo_played_def demo_audio_def newAudio_def)
  then show ?thesis using demo_audio_step c(3) by simp
qed

subsection \<open>Drop\<close>

lemma audio_drop_to_range: "wf_audio k a \<Longrightarrow> 0 \<le> audio_drop_to a m p \<and> audio_drop_to a m p \<le> int k"
  by (auto simp: audio_drop_to_def Let_def wf_audio_def dest!: find_first_SomeD split: option.splits)

lemma audio_drop_to_spec:
  assumes "m < int (length (a_cov a))" "a_silence a = int (length (a_cov a))"
  shows "audio_drop_to a m p \<noteq> m"
    "audio_drop_to a m p = a_silence a \<or> (\<exists>n o'. o' < length (a_cov a) \<and> audio_drop_to a m p = int o' \<and> holds_page a p n o')"
  using assms by (auto simp: audio_drop_to_def Let_def dest!: find_first_SomeD split: option.splits)

lemma audio_drop_to_current: "audio_drop_to (a\<lparr>a_current := vs\<rparr>) m p = audio_drop_to a m p"
  by (simp add: audio_drop_to_def holds_page_def[abs_def] Let_def cong: if_cong option.case_cong)

lemma audio_drop_pages_spec:
  assumes "wf_audio k a" "distinct ps" "set ps \<subseteq> {0..<length (a_current a)}"
  shows "case audio_drop_pages m ps a sels of (b, sels') \<Rightarrow>
     wf_audio k b \<and> same_audio a b \<and> a_head b = a_head a \<and> (\<exists>new. sels' = sels @ new \<and> a_current b = replay_pages new (a_current a)) \<and>
     (\<forall>p < length (a_current a). a_current b ! p = (if p \<in> set ps \<and> a_current a ! p = m then audio_drop_to a m p else a_current a ! p))"
  using assms
proof (induction ps arbitrary: a sels)
  case (Cons q ps)
  show ?case
  proof (cases "a_current a ! q = m")
    case False
    with Cons.IH[of a sels] Cons.prems show ?thesis by (auto split: prod.splits)
  next
    case True
    let ?to = "audio_drop_to a m q"
    let ?a = "a\<lparr>a_current := (a_current a)[q := ?to]\<rparr>" and ?s = "\<lparr>ps_page = int q, ps_source = ?to\<rparr>"
    have wf: "wf_audio k ?a" using Cons.prems(1) audio_drop_to_range[OF Cons.prems(1), of m q] set_update_subset_insert[of "a_current a" q ?to]
      by (auto simp: wf_audio_def)
    have same: "audio_drop_to ?a m p = audio_drop_to a m p" for p by (rule audio_drop_to_current)
    obtain b sels' where run: "audio_drop_pages m ps ?a (sels @ [?s]) = (b, sels')" by force
    note ih = Cons.IH[OF wf, of "sels @ [?s]", unfolded run prod.case]
    have fr: "wf_audio k b" "same_audio a b" "a_head b = a_head a" using ih Cons.prems by (auto simp: same_audio_def)
    obtain new where new: "sels' = (sels @ [?s]) @ new" "a_current b = replay_pages new (a_current ?a)" using ih Cons.prems by auto
    have "a_current b ! p = (if p \<in> set (q # ps) \<and> a_current a ! p = m then audio_drop_to a m p else a_current a ! p)"
      if "p < length (a_current a)" for p
      using ih Cons.prems that same True by (cases "p = q") auto
    moreover have "audio_drop_pages m (q # ps) a sels = (b, sels')" using True run by simp
    ultimately show ?thesis using fr new by (auto intro!: exI[of _ "?s # new"])
  qed
qed simp

text \<open>Dropping a member of an audio output returns without a panic and leaves the member no page to serve: pages that
  showed another source are untouched, a page that showed it shows a member that holds it whole as far as it is
  published, or silence; and what the member had committed is forgotten, so its new ring is not read as having skipped it.\<close>

lemma audio_drop_empties_member:
  assumes "wf_audio k a" "m < k"
  shows "\<exists>b sels. audio_drop m a = Inr (b, sels) \<and> wf_audio k b \<and> a_head b = a_head a \<and> int m \<notin> set (a_current b) \<and>
     a_current b = replay_pages sels (a_current a) \<and> a_evHead b ! m = 0 \<and> list_all (\<lambda>c. \<not> c_valid c) (a_cov b ! m) \<and>
     (\<forall>p < length (a_current a). a_current b ! p \<noteq> a_current a ! p \<longrightarrow>
        a_current a ! p = int m \<and> (a_current b ! p = a_silence a \<or> (\<exists>n o'. o' < k \<and> a_current b ! p = int o' \<and> holds_page a p n o')))"
proof -
  obtain a1 sels where run: "audio_drop_pages (int m) [0..<length (a_current a)] a [] = (a1, sels)" by force
  note sp = audio_drop_pages_spec[OF assms(1), where ps = "[0..<length (a_current a)]" and m = "int m" and sels = "[]", unfolded run prod.case]
  let ?cov = "replicate (nat (a_pages a1)) no_coverage"
  let ?b = "a1\<lparr>a_cov := (a_cov a1)[m := ?cov], a_evHead := (a_evHead a1)[m := 0]\<rparr>"
  have a1: "wf_audio k a1" "same_audio a a1" "a_head a1 = a_head a" "a_current a1 = replay_pages sels (a_current a)"
    and cur: "\<And>p. p < length (a_current a) \<Longrightarrow> a_current a1 ! p = (if a_current a ! p = int m then audio_drop_to a (int m) p else a_current a ! p)"
    using sp by auto
  have len: "length (a_cov a) = k" "a_silence a = int k" "length (a_current a1) = length (a_current a)" "length (a_cov a1) = k" "length (a_evHead a1) = k"
    using assms(1) a1(1,2) by (simp_all add: wf_audio_def same_audio_def)
  note to = audio_drop_to_spec[of "int m" a, unfolded len(1,2), simplified, OF assms(2)]
  have "audio_drop m a = Inr (?b, sels)" using run len assms(2) by (simp add: audio_drop_def)
  moreover have "wf_audio k ?b"
    using a1(1) set_update_subset_insert[of "a_cov a1" m ?cov] by (auto simp: wf_audio_def no_coverage_def cov_ok_def list_all_iff)
  moreover have "int m \<notin> set (a_current ?b)"
  proof
    assume "int m \<in> set (a_current ?b)"
    then obtain p where "p < length (a_current a)" "a_current a1 ! p = int m" by (auto simp: in_set_conv_nth len)
    then show False using cur[of p] to(1)[of p] by (auto split: if_splits)
  qed
  moreover have "a_evHead ?b ! m = 0" "list_all (\<lambda>c. \<not> c_valid c) (a_cov ?b ! m)"
    using len assms(2) by (simp_all add: no_coverage_def list_all_iff)
  moreover have "a_current a ! p = int m \<and> (a_current ?b ! p = a_silence a \<or> (\<exists>n o'. o' < k \<and> a_current ?b ! p = int o' \<and> holds_page a p n o'))"
    if "p < length (a_current a)" "a_current ?b ! p \<noteq> a_current a ! p" for p
    using cur[OF that(1)] that(2) to(2)[of p] len by (auto split: if_splits)
  ultimately show ?thesis using a1 by auto
qed

subsection \<open>Retire\<close>

text \<open>A page whose source overwrites none of its trusted samples before the next pass.\<close>

definition safe_page :: "uint64 \<Rightarrow> uint64 \<Rightarrow> Audio \<Rightarrow> uint64 \<Rightarrow> bool" where
  "safe_page due lo a n \<longleftrightarrow>
     a_current a ! page_slot a n = a_silence a \<or>
     (\<exists>m < length (a_cov a). a_current a ! page_slot a n = int m \<and> audio_reach due a m \<le> max lo (n * pageSamples))"

definition moved_page :: "Audio \<Rightarrow> Audio \<Rightarrow> uint64 \<Rightarrow> bool" where
  "moved_page a b n \<longleftrightarrow>
     a_current b ! page_slot a n = a_silence a \<or> (\<exists>m < length (a_cov a). a_current b ! page_slot a n = int m \<and> holds_page a (page_slot a n) n m)"

lemma audio_reach_same: "same_audio a b \<Longrightarrow> audio_reach due b m = audio_reach due a m"
  by (simp add: audio_reach_def same_audio_def)

lemma audio_retire_page_spec:
  assumes wf: "wf_audio k a"
  obtains b s where "audio_retire_page due a n (max lo (n * pageSamples)) = Inr (b, s)" "wf_audio k b" "same_audio a b" "a_head b = a_head a"
    "a_current b = replay_pages s (a_current a)" "safe_page due lo b n" "\<And>p. p \<noteq> page_slot a n \<Longrightarrow> a_current b ! p = a_current a ! p"
    "a_current b ! page_slot a n = a_current a ! page_slot a n \<or> moved_page a b n"
proof -
  let ?p = "page_slot a n" and ?first = "max lo (n * pageSamples)"
  let ?cur = "a_current a ! ?p"
  have p: "?p < length (a_current a)" using page_slot_bound[OF wf] .
  have w: "a_pages a \<noteq> 0" "0 \<le> a_pages a" "length (a_cov a) = k" "length (a_evHead a) = k" "length (a_batch a) = k" "a_silence a = int k" "0 \<le> a_head a"
    using wf by (auto simp: wf_audio_def)
  have "?cur \<in> set (a_current a)" using p by simp
  then have cur: "0 \<le> ?cur" "?cur \<le> int k" using wf by (auto simp: wf_audio_def)
  show thesis
  proof (cases "?cur = a_silence a \<or> audio_reach due a (nat ?cur) \<le> ?first")
    case True
    then have "audio_retire_page due a n ?first = Inr (a, [])" using p w cur by (auto simp: audio_retire_page_def Let_def)
    moreover have "safe_page due lo a n" using True w cur by (auto simp: safe_page_def intro!: exI[of _ "nat ?cur"])
    ultimately show thesis using wf by (intro that[of a "[]"]) simp_all
  next
    case False
    let ?to = "audio_replacement due a n ?first ?p ?cur"
    let ?b = "a\<lparr>a_current := (a_current a)[?p := ?to]\<rparr>"
    have to: "?to = a_silence a \<or> (\<exists>m < k. ?to = int m \<and> holds_page a ?p n m \<and> audio_reach due a m \<le> ?first)"
      using w by (auto simp: audio_replacement_def dest!: find_first_SomeD split: option.splits)
    then have "0 \<le> ?to" "?to \<le> int k" using w by auto
    then have "wf_audio k ?b" using wf set_update_subset_insert[of "a_current a" ?p ?to] by (auto simp: wf_audio_def)
    moreover have "audio_retire_page due a n ?first = Inr (?b, [\<lparr>ps_page = int ?p, ps_source = ?to\<rparr>])"
      using False p w cur by (auto simp: audio_retire_page_def Let_def)
    moreover have "safe_page due lo ?b n" using to p w by (auto simp: safe_page_def audio_reach_def)
    moreover have "moved_page a ?b n" using to p w by (auto simp: moved_page_def)
    ultimately show thesis by (intro that[of ?b "[\<lparr>ps_page = int ?p, ps_source = ?to\<rparr>]"]) (simp_all add: same_audio_def)
  qed
qed

lemma audio_retire_loop_frame:
  "wf_audio k a \<Longrightarrow> \<exists>b new. audio_retire_loop due most lo n a sels = Inr (b, sels @ new) \<and> wf_audio k b \<and> same_audio a b \<and> a_head b = a_head a \<and>
     a_current b = replay_pages new (a_current a) \<and> (\<forall>s \<in> set new. 0 \<le> ps_page s \<and> ps_page s < a_pages a)"
proof (induction due most lo n a sels rule: audio_retire_loop.induct)
  case (1 due most lo n a sels)
  note unf = audio_retire_loop.simps[of due most lo n a sels]
  show ?case
  proof (cases "max lo (n * pageSamples) \<ge> a_head a \<or> max lo (n * pageSamples) \<ge> most")
    case True
    then have "audio_retire_loop due most lo n a sels = Inr (a, sels @ [])" by (simp add: unf Let_def)
    then show ?thesis using "1.prems" by (metis empty_iff list.set(1) replay_pages_simps(1) same_audio_refl)
  next
    case False
    obtain a1 s where r: "audio_retire_page due a n (max lo (n * pageSamples)) = Inr (a1, s)" "wf_audio k a1" "same_audio a a1" "a_head a1 = a_head a"
      "a_current a1 = replay_pages s (a_current a)" by (rule audio_retire_page_spec[OF "1.prems"]) blast
    have s: "\<forall>x \<in> set s. 0 \<le> ps_page x \<and> ps_page x < a_pages a"
      using r(1) "1.prems" by (auto simp: audio_retire_page_def Let_def wf_audio_def split: if_splits)
    from "1.IH"[OF HOL.refl False r(1) HOL.refl r(2)] obtain b new where
      ih: "audio_retire_loop due most lo (n + 1) a1 (sels @ s) = Inr (b, (sels @ s) @ new)" "wf_audio k b" "same_audio a1 b" "a_head b = a_head a1"
       "a_current b = replay_pages new (a_current a1)" "\<forall>x \<in> set new. 0 \<le> ps_page x \<and> ps_page x < a_pages a1" by blast
    have "audio_retire_loop due most lo n a sels = Inr (b, sels @ (s @ new))" using False r(1) ih(1) by (simp add: unf Let_def)
    moreover have "a_pages a1 = a_pages a" using r(3) by (simp add: same_audio_def)
    ultimately show ?thesis using ih r s same_audio_trans[OF r(3) ih(3)]
      by (intro exI[of _ b] exI[of _ "s @ new"]) auto
  qed
qed

lemma audio_retire_frame:
  assumes "wf_audio k a"
  shows "\<exists>b sels. audio_retire due a = Inr (b, sels) \<and> wf_audio k b \<and> same_audio a b \<and> a_head b = a_head a \<and>
    a_current b = replay_pages sels (a_current a) \<and> (\<forall>s \<in> set sels. 0 \<le> ps_page s \<and> ps_page s < a_pages a)"
proof (cases "a_started a")
  case True
  then show ?thesis
    using audio_retire_loop_frame[OF assms, of due "audio_most due a" "audio_lo a" "audio_lo a div pageSamples" "[]"] by (simp add: audio_retire_def)
qed (use assms in \<open>simp add: audio_retire_def\<close>)

text \<open>The pages selected are pages of the buffer.\<close>

lemma audio_decide_frame:
  "audio_decide lead now a = Inr (APublish a' pick e) \<Longrightarrow> a_current a' = a_current a \<and> a_pages a' = a_pages a"
  by (auto simp: audio_decide_def audio_waited_def Let_def split: if_splits prod.splits)

lemma audio_publish_frame:
  "audio_publish a pick e = Inr (b, s) \<Longrightarrow> 0 < a_pages a \<Longrightarrow>
   length (a_current b) = length (a_current a) \<and> a_pages b = a_pages a \<and> (\<forall>x \<in> set s. 0 \<le> ps_page x \<and> nat (ps_page x) < length (a_current a))"
  by (auto simp: audio_publish_def Let_def split: if_splits)

lemma audio_loop_sels:
  "audio_loop lead now a sels = Inr (b, sels', w) \<Longrightarrow> 0 < a_pages a \<Longrightarrow>
   \<exists>new. sels' = sels @ new \<and> (\<forall>x \<in> set new. 0 \<le> ps_page x \<and> nat (ps_page x) < length (a_current a))"
proof (induction lead now a sels rule: audio_loop.induct)
  case (1 lead now a sels)
  note unf = audio_loop.simps[of lead now a sels]
  from "1.prems"(1) consider "sels' = sels"
    | a' pick e a2 s where "a_started a \<and> a_head a < lead" "audio_decide lead now a = Inr (APublish a' pick e)" "audio_publish a' pick e = Inr (a2, s)"
      "audio_loop lead now a2 (sels @ s) = Inr (b, sels', w)"
    by (subst (asm) unf) (auto split: if_splits sum.splits audio_turn.splits)
  then show ?case
  proof cases
    case 2
    have fr: "a_current a' = a_current a" "a_pages a' = a_pages a" using audio_decide_frame[OF 2(2)] by simp_all
    have s: "length (a_current a2) = length (a_current a)" "a_pages a2 = a_pages a" "\<forall>x \<in> set s. 0 \<le> ps_page x \<and> nat (ps_page x) < length (a_current a)"
      using audio_publish_frame[OF 2(3)] "1.prems"(2) fr by auto
    from "1.IH"[OF 2(1,2) HOL.refl 2(3) HOL.refl 2(4)] "1.prems"(2) s(2)
    obtain new where "sels' = (sels @ s) @ new" "\<forall>x \<in> set new. 0 \<le> ps_page x \<and> nat (ps_page x) < length (a_current a2)" by auto
    then show ?thesis using s by (intro exI[of _ "s @ new"]) auto
  qed simp
qed

lemma audio_drop_pages_sels:
  "audio_drop_pages m ps a sels = (b, sels') \<Longrightarrow> \<exists>new. sels' = sels @ new \<and> (\<forall>x \<in> set new. \<exists>p \<in> set ps. ps_page x = int p)"
proof (induction ps arbitrary: a sels)
  case (Cons p ps)
  then show ?case by (fastforce split: if_splits)
qed simp

lemma audio_retire_loop_spec:
  assumes "wf_audio k a" "(a_head a - 1) div pageSamples < n + a_pages a"
  shows "\<exists>b new. audio_retire_loop due most lo n a sels = Inr (b, sels @ new) \<and> wf_audio k b \<and> same_audio a b \<and> a_head b = a_head a \<and>
     a_current b = replay_pages new (a_current a) \<and>
     (\<forall>j. n \<le> j \<and> max lo (j * pageSamples) < a_head a \<and> max lo (j * pageSamples) < most \<longrightarrow> safe_page due lo b j) \<and>
     (\<forall>j. n \<le> j \<and> j \<le> (a_head a - 1) div pageSamples \<longrightarrow> a_current b ! page_slot a j = a_current a ! page_slot a j \<or> moved_page a b j) \<and>
     (\<forall>p. (\<forall>j. n \<le> j \<and> j * pageSamples < a_head a \<longrightarrow> p \<noteq> page_slot a j) \<longrightarrow> a_current b ! p = a_current a ! p)"
  using assms
proof (induction due most lo n a sels rule: audio_retire_loop.induct)
  case (1 due most lo n a sels)
  note wf = "1.prems"(1)
  let ?first = "max lo (n * pageSamples)" and ?N = "(a_head a - 1) div pageSamples"
  note unf = audio_retire_loop.simps[of due most lo n a sels]
  show ?case
  proof (cases "?first \<ge> a_head a \<or> ?first \<ge> most")
    case True
    have "?first \<le> max lo (j * pageSamples)" if "n \<le> j" for j
    proof -
      have "n * pageSamples \<le> j * pageSamples" using that pageSamples_pos by (intro mult_right_mono) auto
      then show ?thesis by linarith
    qed
    then have "\<not> (n \<le> j \<and> max lo (j * pageSamples) < a_head a \<and> max lo (j * pageSamples) < most)" for j
      using True by fastforce
    moreover have "audio_retire_loop due most lo n a sels = Inr (a, sels @ [])" using True by (subst unf) (simp add: Let_def)
    ultimately show ?thesis using wf by (intro exI[of _ a] exI[of _ "[]"]) (simp, blast)
  next
    case False
    obtain a1 s where r: "audio_retire_page due a n ?first = Inr (a1, s)" "wf_audio k a1" "same_audio a a1" "a_head a1 = a_head a"
      "a_current a1 = replay_pages s (a_current a)" "safe_page due lo a1 n" "\<And>p. p \<noteq> page_slot a n \<Longrightarrow> a_current a1 ! p = a_current a ! p"
      "a_current a1 ! page_slot a n = a_current a ! page_slot a n \<or> moved_page a a1 n"
      by (rule audio_retire_page_spec[OF wf]) blast
    have sa: "a_pages a1 = a_pages a" "a_silence a1 = a_silence a" "a_cov a1 = a_cov a" using r(3) by (simp_all add: same_audio_def)
    have "(a_head a1 - 1) div pageSamples < (n + 1) + a_pages a1" using "1.prems"(2) r(4) sa by simp
    from "1.IH"[OF HOL.refl False r(1) HOL.refl r(2) this]
    obtain b new where ih: "audio_retire_loop due most lo (n + 1) a1 (sels @ s) = Inr (b, (sels @ s) @ new)" "wf_audio k b" "same_audio a1 b"
      "a_head b = a_head a" "a_current b = replay_pages new (a_current a1)"
      "\<And>j. n + 1 \<le> j \<Longrightarrow> max lo (j * pageSamples) < a_head a \<Longrightarrow> max lo (j * pageSamples) < most \<Longrightarrow> safe_page due lo b j"
      "\<And>j. n + 1 \<le> j \<Longrightarrow> j \<le> ?N \<Longrightarrow> a_current b ! page_slot a j = a_current a1 ! page_slot a j \<or> moved_page a1 b j"
      "\<And>p. (\<And>j. n + 1 \<le> j \<Longrightarrow> j * pageSamples < a_head a \<Longrightarrow> p \<noteq> page_slot a j) \<Longrightarrow> a_current b ! p = a_current a1 ! p"
      unfolding r(4) sa(1) by blast
    have sb: "a_pages b = a_pages a" "a_silence b = a_silence a" "a_cov b = a_cov a" "same_audio a b"
      using ih(3) sa same_audio_trans[OF r(3) ih(3)] by (simp_all add: same_audio_def)
    have later: "page_slot a n \<noteq> page_slot a j" if "n + 1 \<le> j" "j * pageSamples < a_head a" for j
    proof -
      have "j \<le> ?N" using that(2) page_less[of j "a_head a - 1" ?N] page_end[of "a_head a - 1"] by simp
      then show ?thesis using slot_distinct[of n j "a_pages a"] that(1) "1.prems"(2) by simp
    qed
    have keep: "a_current b ! page_slot a n = a_current a1 ! page_slot a n" using ih(8)[of "page_slot a n"] later by blast
    have "safe_page due lo b n"
      using r(6) keep sa sb audio_reach_same[OF ih(3)] unfolding safe_page_def by simp
    then have safe: "safe_page due lo b j" if "n \<le> j" "max lo (j * pageSamples) < a_head a" "max lo (j * pageSamples) < most" for j
      using ih(6)[of j] that by (cases "j = n") auto
    have head': "a_head a1 = a_head a" by (rule r(4))
    have move: "a_current b ! page_slot a j = a_current a ! page_slot a j \<or> moved_page a b j" if "n \<le> j" "j \<le> ?N" for j
    proof (cases "j = n")
      case True
      then show ?thesis using keep r(8) by (simp add: moved_page_def)
    next
      case False
      have "j * pageSamples \<le> ?N * pageSamples" using that(2) pageSamples_pos by (intro mult_right_mono) auto
      then have "j * pageSamples < a_head a" using page_start[of "a_head a - 1"] by linarith
      then have "page_slot a j \<noteq> page_slot a n" using later[of j] that(1) False by auto
      moreover have "moved_page a1 b j \<Longrightarrow> moved_page a b j" using sa head' by (simp add: moved_page_def holds_page_def)
      ultimately show ?thesis using ih(7)[of j] that False r(7)[of "page_slot a j"] by auto
    qed
    have "n * pageSamples < a_head a" using False by linarith
    then have rest: "a_current b ! p = a_current a ! p" if "\<forall>j. n \<le> j \<and> j * pageSamples < a_head a \<longrightarrow> p \<noteq> page_slot a j" for p
      using ih(8)[of p] r(7)[of p] that by (metis order.refl add_le_cancel_left zle_add1_eq_le less_imp_le order.trans zless_add1_eq)
    have "audio_retire_loop due most lo n a sels = Inr (b, sels @ (s @ new))" using False r(1) ih(1) by (simp add: unf Let_def)
    then show ?thesis using ih(2,4,5) r(5) sb(4) safe move rest by (intro exI[of _ b] exI[of _ "s @ new"]) simp
  qed
qed

lemma audio_most_ge: "m < length (a_cov a) \<Longrightarrow> audio_reach due a m \<le> audio_most due a"
proof -
  let ?f = "\<lambda>m most. max most (audio_reach due a m)"
  have mono: "r \<le> fold ?f ks r" for r ks by (induction ks arbitrary: r) (auto intro: order.trans[OF max.cobounded1])
  have "m \<in> set ks \<Longrightarrow> audio_reach due a m \<le> fold ?f ks r" for r ks
    by (induction ks arbitrary: r) (auto intro: order.trans[OF max.cobounded2 mono])
  then show "m < length (a_cov a) \<Longrightarrow> audio_reach due a m \<le> audio_most due a" by (simp add: audio_most_def)
qed

lemma audio_retire_spec:
  assumes "wf_audio k a" "a_started a" "2 \<le> a_pages a"
  shows "\<exists>b sels. audio_retire due a = Inr (b, sels) \<and> wf_audio k b \<and> same_audio a b \<and> a_head b = a_head a \<and>
     a_current b = replay_pages sels (a_current a) \<and>
     (\<forall>n. audio_lo a < (n + 1) * pageSamples \<and> n * pageSamples < a_head a \<and> audio_lo a < a_head a \<longrightarrow>
        safe_page due (audio_lo a) b n \<and>
        (a_current b ! page_slot a n = a_current a ! page_slot a n \<or> moved_page a b n))"
proof -
  let ?lo = "audio_lo a" and ?N = "(a_head a - 1) div pageSamples"
  let ?n = "?lo div pageSamples"
  have "a_head a - 1 < ?lo + a_pages a * pageSamples div 2"
    using assms(1) by (auto simp: audio_lo_def wf_audio_def pageSamples_def)
  also have "a_pages a * pageSamples div 2 = a_pages a * 512" by (simp add: pageSamples_def)
  finally have "?N * pageSamples < (?n + 1) * pageSamples + a_pages a * 512" using page_start[of "a_head a - 1"] page_end[of ?lo] by simp
  then have win: "?N < ?n + a_pages a" using assms(3) by (simp add: pageSamples_def)
  obtain b new where r: "audio_retire due a = Inr (b, new)" "wf_audio k b" "same_audio a b" "a_head b = a_head a"
    "a_current b = replay_pages new (a_current a)"
    "\<And>j. ?n \<le> j \<Longrightarrow> max ?lo (j * pageSamples) < a_head a \<Longrightarrow> max ?lo (j * pageSamples) < audio_most due a \<Longrightarrow> safe_page due ?lo b j"
    "\<And>j. ?n \<le> j \<Longrightarrow> j \<le> ?N \<Longrightarrow> a_current b ! page_slot a j = a_current a ! page_slot a j \<or> moved_page a b j"
    using audio_retire_loop_spec[OF assms(1) win, of due "audio_most due a" ?lo "[]"] assms(2) by (auto simp: audio_retire_def)
  have sb: "a_pages b = a_pages a" "a_silence b = a_silence a" "a_cov b = a_cov a" using r(3) by (simp_all add: same_audio_def)
  have "safe_page due ?lo b n \<and> (a_current b ! page_slot a n = a_current a ! page_slot a n \<or> moved_page a b n)"
    if n: "?lo < (n + 1) * pageSamples" "n * pageSamples < a_head a" "?lo < a_head a" for n
  proof
    have lo: "?n \<le> n" using page_less[OF page_start n(1)] .
    have hi: "n \<le> ?N" using page_less[of n "a_head a - 1" ?N] page_end[of "a_head a - 1"] n(2) by simp
    show "a_current b ! page_slot a n = a_current a ! page_slot a n \<or> moved_page a b n" using r(7)[OF lo hi] .
    show "safe_page due ?lo b n"
    proof (cases "max ?lo (n * pageSamples) < audio_most due a")
      case True
      then show ?thesis using r(6)[OF lo] n by simp
    next
      case False
      have wb: "length (a_cov b) = k" "a_silence b = int k" using r(2) by (simp_all add: wf_audio_def)
      have "a_current b ! page_slot b n \<in> set (a_current b)" using page_slot_bound[OF r(2)] by simp
      then have src: "0 \<le> a_current b ! page_slot b n" "a_current b ! page_slot b n \<le> int k" using r(2) by (auto simp: wf_audio_def)
      have "audio_reach due b m \<le> max ?lo (n * pageSamples)" if "m < k" for m
      proof -
        have "audio_reach due b m \<le> audio_most due a" using audio_most_ge[of m a due] audio_reach_same[OF r(3)] that sb wb by simp
        with False show ?thesis by linarith
      qed
      then show ?thesis using src wb unfolding safe_page_def
        by (cases "a_current b ! page_slot b n = int k") (auto intro!: exI[of _ "nat (a_current b ! page_slot b n)"])
    qed
  qed
  then show ?thesis using r(1-5) by blast
qed

text \<open>The members' buffers, as the index of the sample each slot of a member's buffer holds. Between two passes a member
  writes forward, sample \<open>w\<close> into slot \<open>w\<close> modulo the length of the buffer, and what it has written by the next pass lies
  before a batch as long as its last one past the clock, or past its last batch where that is later, the clock having
  moved on by \<open>a_ahead\<close>: what the comment on \<^verbatim>\<open>Retire\<close> takes a member to do.\<close>

definition buffer_length :: "Audio \<Rightarrow> int" where
  "buffer_length a = a_pages a * pageSamples"

definition written_until :: "uint64 \<Rightarrow> Audio \<Rightarrow> nat \<Rightarrow> int" where
  "written_until due a m = max (a_evHead a ! m) due + a_ahead a + a_batch a ! m"

definition members_write :: "uint64 \<Rightarrow> Audio \<Rightarrow> (nat \<Rightarrow> int \<Rightarrow> int) \<Rightarrow> (nat \<Rightarrow> int \<Rightarrow> int) \<Rightarrow> bool" where
  "members_write due a buf buf' \<longleftrightarrow>
     (\<forall>m < length (a_cov a). \<forall>x. buf' m x = buf m x \<or>
        buf m x < buf' m x \<and> buf' m x mod buffer_length a = x \<and> buf' m x < written_until due a m)"

text \<open>The samples readers trust: the half buffer before the published head.\<close>

definition trusted_sample :: "Audio \<Rightarrow> int \<Rightarrow> bool" where
  "trusted_sample a s \<longleftrightarrow> 0 \<le> s \<and> s < a_head a \<and> a_head a - buffer_length a div 2 \<le> s"

lemma safe_page_keeps:
  assumes "wf_audio k b" "safe_page due lo b (s div pageSamples)" "lo \<le> s" "m < k" "in_u64 (written_until due b m)"
    and "a_current b ! page_slot b (s div pageSamples) = int m" "buf m (s mod buffer_length b) = s" "members_write due b buf buf'"
  shows "buf' m (s mod buffer_length b) = s"
proof (rule ccontr)
  let ?L = "buffer_length b" and ?w = "buf' m (s mod buffer_length b)"
  have wf: "length (a_cov b) = k" "a_silence b = int k" "0 < ?L" using assms(1) by (auto simp: wf_audio_def buffer_length_def pageSamples_def)
  assume "?w \<noteq> s"
  then have w: "s < ?w" "?w mod ?L = s mod ?L" "?w < written_until due b m"
    using assms(4,7,8) wf(1) unfolding members_write_def by metis+
  have "?L dvd ?w - s" using w(2) by (simp add: mod_eq_dvd_iff)
  then have far: "s + ?L \<le> ?w" using w(1) zdvd_imp_le[of ?L "?w - s"] by simp
  have "audio_reach due b m \<le> max lo (s div pageSamples * pageSamples)" using assms(2,4,6) wf by (auto simp: safe_page_def)
  also have "\<dots> \<le> s" using assms(3) page_start[of s] by simp
  finally have "audio_reach due b m \<le> s" .
  moreover have "u64 (written_until due b m) = written_until due b m" using assms(5) by simp
  then have "written_until due b m - ?L \<le> audio_reach due b m"
    by (simp add: audio_reach_def written_until_def buffer_length_def Let_def)
  ultimately show False using far w(3) by linarith
qed

text \<open>C21. After Retire the trusted samples stay what they are until the next pass. On a started output of two pages or more,
  for every sample readers trust (the half buffer before the published head), the page it lies in keeps its source,
  or moves to silence or to a member that holds the page whole; and when the member shown for it holds the sample, the
  slot of the member's buffer still holds that sample at the next pass, whatever the members write until
  then: samples before the batch each of them may add past the clock, each into its slot of the buffer. (The
  indices are taken not to reach the end of 64 bits.)\<close>

theorem audio_retire_protects_trusted_pages:
  assumes "wf_audio k a" "a_started a" "2 \<le> a_pages a" "list_all (\<lambda>m. in_u64 (written_until due a m)) [0..<k]"
    and "trusted_sample a s" "members_write due a buf buf'"
  shows "\<exists>b sels. audio_retire due a = Inr (b, sels) \<and> wf_audio k b \<and> same_audio a b \<and> a_head b = a_head a \<and>
     a_current b = replay_pages sels (a_current a) \<and>
     (a_current b ! page_slot a (s div pageSamples) = a_current a ! page_slot a (s div pageSamples) \<or> moved_page a b (s div pageSamples)) \<and>
     (m < k \<and> a_current b ! page_slot a (s div pageSamples) = int m \<and> buf m (s mod buffer_length a) = s \<longrightarrow>
        buf' m (s mod buffer_length a) = s)"
proof -
  let ?n = "s div pageSamples"
  have s: "0 \<le> s" "s < a_head a" "audio_lo a \<le> s" using assms(5) by (auto simp: trusted_sample_def buffer_length_def audio_lo_def)
  then have n: "audio_lo a < (?n + 1) * pageSamples \<and> ?n * pageSamples < a_head a \<and> audio_lo a < a_head a"
    using page_end[of s] page_start[of s] by linarith
  from audio_retire_spec[OF assms(1-3), of due] n
  obtain b sels where r: "audio_retire due a = Inr (b, sels)" "wf_audio k b" "same_audio a b" "a_head b = a_head a"
    "a_current b = replay_pages sels (a_current a)" "safe_page due (audio_lo a) b ?n"
    "a_current b ! page_slot a ?n = a_current a ! page_slot a ?n \<or> moved_page a b ?n" by blast
  have same: "buffer_length b = buffer_length a" "page_slot b n = page_slot a n" "written_until due b m = written_until due a m"
    "members_write due b buf buf'" for n m
    using r(3) assms(6) by (auto simp: same_audio_def buffer_length_def written_until_def members_write_def)
  have "m < k \<Longrightarrow> a_current b ! page_slot a ?n = int m \<Longrightarrow> buf m (s mod buffer_length a) = s \<Longrightarrow> buf' m (s mod buffer_length a) = s"
    using safe_page_keeps[OF r(2,6) s(3), of m buf buf'] same assms(4) by (simp add: list_all_iff)
  with r show ?thesis by blast
qed

text \<open>Four pages of two members; at the pass, the clock at 7500, both hold samples 1024 to 5119. Until the next one the
  first, whose batches are long, writes 8192 to 8524 over the beginning of the trusted page 4.\<close>

definition demo_held :: "nat \<Rightarrow> int \<Rightarrow> int" where
  "demo_held m x = (if x < 1024 then 4096 + x else x)"

definition demo_held_later :: "nat \<Rightarrow> int \<Rightarrow> int" where
  "demo_held_later m x = (if m = 0 \<and> 0 \<le> x \<and> x \<le> 332 then 8192 + x else demo_held m x)"

theorem audio_retire_protects_trusted_pages_witness:
  "\<exists>b. audio_retire 7500 demo_played = Inr (b, [\<lparr>ps_page = 0, ps_source = 1\<rparr>]) \<and> a_current b ! 0 = 1 \<and> a_current demo_played ! 0 = 0 \<and>
     demo_held_later 1 (4100 mod buffer_length demo_played) = 4100 \<and> demo_held_later 0 (4100 mod buffer_length demo_played) \<noteq> 4100"
proof -
  have c: "a_started demo_played" "2 \<le> a_pages demo_played" "list_all (\<lambda>m. in_u64 (written_until 7500 demo_played m)) [0..<2]"
    "trusted_sample demo_played 4100" "buffer_length demo_played = 4096" "page_slot demo_played (4100 div pageSamples) = 0"
    "length (a_cov demo_played) = 2" "written_until 7500 demo_played 0 = 8525" by code_simp+
  have slot: "(8192 + x) mod 4096 = x" if "0 \<le> x" "x \<le> 332" for x :: int
    using that mod_mult_self2[of x 4096 2] by (simp add: add.commute)
  have w: "members_write 7500 demo_played demo_held demo_held_later"
    unfolding members_write_def c(5,7) by (auto simp: demo_held_later_def demo_held_def c(8) slot)
  have "map_sum id (\<lambda>(b, s). (a_current b ! 0, s)) (audio_retire 7500 demo_played) = Inr (1, [\<lparr>ps_page = 0, ps_source = 1\<rparr>])" by code_simp
  then obtain b where b: "audio_retire 7500 demo_played = Inr (b, [\<lparr>ps_page = 0, ps_source = 1\<rparr>])" "a_current b ! 0 = 1"
    by (cases "audio_retire 7500 demo_played") auto
  have "demo_held_later 1 (4100 mod buffer_length demo_played) = 4100"
    using audio_retire_protects_trusted_pages[OF demo_audio_wf(2) c(1-4) w, of 1] b c(5,6) by (simp add: demo_held_def)
  moreover have "demo_held_later 0 (4100 mod buffer_length demo_played) \<noteq> 4100" "a_current demo_played ! 0 = 0"
    unfolding c(5) by (simp_all add: demo_held_later_def demo_played_def)
  ultimately show ?thesis using b by blast
qed

end
