(* ===== verification/Merge_Engine.thy ===== *)
theory Merge_Engine
  imports Merge_Safety Merge_Audio_Safety
begin

section \<open>The engine's loop (gateway/internal/merge/engine.go)\<close>

text \<open>
  An engine serves one output: every pass of \<^verbatim>\<open>run\<close> asks the policy of \<open>Merge_Discrete\<close> or \<open>Merge_Audio\<close> what to show, points
  the output's views at the sources it returned and publishes the head. The output is what readers see: the published
  head, and what source each view slot shows. Modelled here are the passes, \<open>apply_selects\<close>, \<open>publish\<close>, \<open>selectPages\<close>,
  \<open>retireDue\<close>, \<open>take\<close> with its \<open>drop\<close>, \<open>Committed\<close>, and the alignment check of \<^verbatim>\<open>Start\<close>. Shown: at no moment of a pass does
  the output show a reader anything but what the policy stands for at the head then published; after a pass without a
  failed select the views are the policy's; after a replacement no view shows the replaced member.

  A view ioctl succeeds or fails: \<open>fails k\<close> is the error of the \<open>k\<close>-th one, if it fails. The rings are written by
  other processes: a pass takes what it read of them, the members at \<^verbatim>\<open>Step\<close> and again at \<^verbatim>\<open>Retire\<close>. A Go panic is \<open>Inl\<close>.
\<close>

subsection \<open>The output\<close>

record out_ring =
  o_head :: uint64
  o_views :: "int list"
  o_calls :: nat
  o_seen :: "(uint64 \<times> int list) list"

text \<open>\<open>o_seen\<close> lists what readers were shown, the published head with the views, after every change.\<close>

definition seen :: "out_ring \<Rightarrow> out_ring" where
  "seen out = out\<lparr>o_seen := o_seen out @ [(o_head out, o_views out)]\<rparr>"

definition publish :: "uint64 \<Rightarrow> out_ring \<Rightarrow> out_ring" where
  "publish head out = seen (out\<lparr>o_head := head\<rparr>)"

definition selectAll :: "(nat \<Rightarrow> go_error option) \<Rightarrow> int \<Rightarrow> int \<Rightarrow> out_ring \<Rightarrow> go_error option \<times> out_ring" where
  "selectAll fails slot source out =
     (case fails (o_calls out) of
        Some e \<Rightarrow> (Some (EWrap ''MXLFS_IOC_VIEW_SELECT'' e), out\<lparr>o_calls := o_calls out + 1\<rparr>)
      | None \<Rightarrow> (None, seen (out\<lparr>o_calls := o_calls out + 1, o_views := (o_views out)[nat slot := source]\<rparr>)))"

fun apply_selects :: "(nat \<Rightarrow> go_error option) \<Rightarrow> Select list \<Rightarrow> out_ring \<Rightarrow> go_error + (go_error option \<times> out_ring)" where
  "apply_selects fails [] out = Inr (None, out)"
| "apply_selects fails (s # ss) out =
     (let out1 = (if sel_index s > u64 (o_head out + 1) then publish (u64 (sel_index s - 1)) out else out)
      in if sel_slot s < 0 \<or> nat (sel_slot s) \<ge> length (o_views out1) then Inl index_panic
         else case selectAll fails (sel_slot s) (sel_source s) out1 of
                (Some e, out2) \<Rightarrow> Inr (Some e, out2)
              | (None, out2) \<Rightarrow> apply_selects fails ss out2)"

subsection \<open>One pass over a discrete flow\<close>

text \<open>The body of the loop in \<^verbatim>\<open>run\<close> for a discrete flow: \<^verbatim>\<open>Step\<close> on the members as read, \<^verbatim>\<open>Retire\<close> on them as read again, the
  selects of both in order, and the head when all of them were made. The result is the policy, the error logged if
  one was, the wait and the number of selects.\<close>

definition discrete_pass ::
  "(nat \<Rightarrow> go_error option) \<Rightarrow> time \<Rightarrow> Member list \<Rightarrow> uint64 \<Rightarrow> Member list \<Rightarrow> Discrete \<Rightarrow> out_ring \<Rightarrow>
   go_error + (Discrete \<times> out_ring \<times> go_error option \<times> duration \<times> nat)" where
  "discrete_pass fails now ms due ms' d out =
     (case step ms now d of
        Inl e \<Rightarrow> Inl e
      | Inr (d1, sel, wait) \<Rightarrow>
          (case retire ms' due d1 of
             Inl e \<Rightarrow> Inl e
           | Inr (d2, sel') \<Rightarrow>
               (case apply_selects fails (sel @ sel') out of
                  Inl e \<Rightarrow> Inl e
                | Inr (err, out1) \<Rightarrow>
                    Inr (d2, (if err = None \<and> d_head d1 > o_head out1 then publish (d_head d1) out1 else out1),
                         err, wait, length (sel @ sel')))))"

subsection \<open>What readers are shown while selects are applied\<close>

lemma seen_simps [simp]:
  "o_head (seen out) = o_head out" "o_views (seen out) = o_views out" "o_seen (seen out) = o_seen out @ [(o_head out, o_views out)]"
  "o_head (publish h out) = h" "o_views (publish h out) = o_views out" "o_seen (publish h out) = o_seen out @ [(h, o_views out)]"
  by (simp_all add: seen_def publish_def)

text \<open>The views at a moment are those of the selects up to the published head, or up to the index after it, whose slot
  no reader trusts any more.\<close>

definition shows_at :: "Select list \<Rightarrow> int list \<Rightarrow> uint64 \<Rightarrow> int list \<Rightarrow> bool" where
  "shows_at new cur h V \<longleftrightarrow> V = replay (filter (\<lambda>s. sel_index s \<le> h) new) cur \<or> V = replay (filter (\<lambda>s. sel_index s \<le> h + 1) new) cur"

lemma length_replay [simp]: "length (replay sels vs) = length vs"
  by (induction sels arbitrary: vs) simp_all

lemma apply_selects_Cons_cases:
  assumes "0 \<le> sel_slot s" "nat (sel_slot s) < length (o_views out)" "in_u64 (sel_index s)" "0 \<le> o_head out" "o_head out < 2 ^ 64 - 1"
  defines "h \<equiv> max (o_head out) (sel_index s - 1)"
  obtains (failed) e out2 where "apply_selects fails (s # ss) out = Inr (Some e, out2)" "o_head out2 = h" "o_views out2 = o_views out"
      "o_seen out2 = o_seen out @ (if o_head out < h then [(h, o_views out)] else [])"
  | (made) out2 where "apply_selects fails (s # ss) out = apply_selects fails ss out2" "o_head out2 = h"
      "o_views out2 = (o_views out)[nat (sel_slot s) := sel_source s]"
      "o_seen out2 = o_seen out @ (if o_head out < h then [(h, o_views out)] else []) @ [(h, (o_views out)[nat (sel_slot s) := sel_source s])]"
proof -
  let ?out1 = "if sel_index s > u64 (o_head out + 1) then publish (u64 (sel_index s - 1)) out else out"
  have u: "u64 (o_head out + 1) = o_head out + 1" using assms(4,5) by simp
  have "sel_index s > o_head out + 1 \<Longrightarrow> u64 (sel_index s - 1) = sel_index s - 1" using assms(3,4) by simp
  then have 1: "o_head ?out1 = h" "o_views ?out1 = o_views out" "o_seen ?out1 = o_seen out @ (if o_head out < h then [(h, o_views out)] else [])"
    by (auto simp: u h_def)
  show thesis
  proof (cases "fails (o_calls ?out1)")
    case None
    then show thesis using assms(1,2) 1
      by (intro made[of "snd (selectAll fails (sel_slot s) (sel_source s) ?out1)"]) (simp_all add: selectAll_def Let_def)
  next
    case (Some e)
    then show thesis using assms(1,2) 1
      by (intro failed[of "EWrap ''MXLFS_IOC_VIEW_SELECT'' e" "snd (selectAll fails (sel_slot s) (sel_source s) ?out1)"])
        (simp_all add: selectAll_def Let_def)
  qed
qed

text \<open>Everything added to \<open>o_seen\<close> satisfies a property.\<close>

definition added_seen :: "(uint64 \<Rightarrow> int list \<Rightarrow> bool) \<Rightarrow> out_ring \<Rightarrow> out_ring \<Rightarrow> bool" where
  "added_seen P out out' \<longleftrightarrow> (\<exists>add. o_seen out' = o_seen out @ add \<and> (\<forall>(h, V) \<in> set add. P h V))"

lemma added_seen_refl [simp]: "added_seen P out out"
  by (simp add: added_seen_def)

lemma added_seen_trans: "added_seen P out out1 \<Longrightarrow> added_seen P out1 out2 \<Longrightarrow> added_seen P out out2"
  by (auto simp: added_seen_def)

lemma added_seen_mono: "added_seen P out out' \<Longrightarrow> (\<And>h V. P h V \<Longrightarrow> Q h V) \<Longrightarrow> added_seen Q out out'"
  by (fastforce simp: added_seen_def)

lemma added_seen_append:
  "o_seen out' = o_seen out @ add \<Longrightarrow> (\<And>h V. (h, V) \<in> set add \<Longrightarrow> P h V) \<Longrightarrow> added_seen P out out'"
  by (auto simp: added_seen_def)

text \<open>The selects of \<open>Step\<close>: in the order of their indices, all past the published head.\<close>

lemma apply_step_selects:
  assumes "sorted_wrt (<) (map sel_index (pre @ ss))" "\<forall>s \<in> set pre. sel_index s \<le> o_head out + 1"
    and "\<forall>s \<in> set ss. o_head out < sel_index s \<and> sel_index s \<le> H \<and> 0 \<le> sel_slot s \<and> nat (sel_slot s) < length cur"
    and "o_views out = replay pre cur" "0 \<le> o_head out" "o_head out \<le> H" "H < 2 ^ 64 - 1"
  shows "\<exists>err out'. apply_selects fails (ss @ rest) out = (if err = None then apply_selects fails rest out' else Inr (err, out')) \<and>
     added_seen (\<lambda>h V. o_head out \<le> h \<and> h \<le> H \<and> shows_at (pre @ ss) cur h V) out out' \<and> o_head out \<le> o_head out' \<and> o_head out' \<le> H \<and>
     (err = None \<longrightarrow> o_views out' = replay (pre @ ss) cur \<and> (\<forall>s \<in> set (pre @ ss). sel_index s \<le> o_head out' + 1))"
  using assms
proof (induction ss arbitrary: pre out)
  case Nil
  then show ?case by (intro exI[of _ None] exI[of _ out]) simp
next
  case (Cons s ss)
  define h where "h = max (o_head out) (sel_index s - 1)"
  have idx: "o_head out < sel_index s" "sel_index s \<le> H" "0 \<le> sel_slot s" "nat (sel_slot s) < length (o_views out)" "in_u64 (sel_index s)"
    using Cons.prems(3,4,5,7) by auto
  have h: "h = sel_index s - 1" "o_head out \<le> h" "h \<le> H" using idx by (auto simp: h_def)
  have ord: "\<forall>x \<in> set pre. sel_index x < sel_index s" "\<forall>x \<in> set ss. sel_index s < sel_index x"
    using Cons.prems(1) by (auto simp: sorted_wrt_append)
  have upto: "filter (\<lambda>s. sel_index s \<le> h) (pre @ s # ss) = pre" "filter (\<lambda>s. sel_index s \<le> h + 1) (pre @ s # ss) = pre @ [s]"
    using ord h by (simp_all add: less_le_not_le)
  have at: "shows_at (pre @ s # ss) cur h (o_views out)" "shows_at (pre @ s # ss) cur h ((o_views out)[nat (sel_slot s) := sel_source s])"
    unfolding shows_at_def upto using Cons.prems(4) by simp_all
  have "o_head out < 2 ^ 64 - 1" using Cons.prems(6,7) by simp
  from idx(3,4,5) Cons.prems(5) this show ?case
  proof (cases rule: apply_selects_Cons_cases[where fails = fails and ss = "ss @ rest"])
    case (failed e out2)
    from failed(4) have "added_seen (\<lambda>h V. o_head out \<le> h \<and> h \<le> H \<and> shows_at (pre @ s # ss) cur h V) out out2"
      by (rule added_seen_append) (use at h in \<open>auto simp: h_def[symmetric] split: if_splits\<close>)
    then show ?thesis using failed(1,2) h unfolding h_def[symmetric]
      by (intro exI[of _ "Some e"] exI[of _ out2]) simp
  next
    case (made out2)
    note m = made(2-4)[folded h_def]
    from m(3) have add: "added_seen (\<lambda>h V. o_head out \<le> h \<and> h \<le> H \<and> shows_at (pre @ s # ss) cur h V) out out2"
      by (rule added_seen_append) (use at h in \<open>auto split: if_splits\<close>)
    have "\<exists>err out'. apply_selects fails (ss @ rest) out2 = (if err = None then apply_selects fails rest out' else Inr (err, out')) \<and>
       added_seen (\<lambda>h V. o_head out2 \<le> h \<and> h \<le> H \<and> shows_at ((pre @ [s]) @ ss) cur h V) out2 out' \<and> o_head out2 \<le> o_head out' \<and> o_head out' \<le> H \<and>
       (err = None \<longrightarrow> o_views out' = replay ((pre @ [s]) @ ss) cur \<and> (\<forall>s \<in> set ((pre @ [s]) @ ss). sel_index s \<le> o_head out' + 1))"
      by (rule Cons.IH) (use Cons.prems ord h m in auto)
    then obtain err out' where ih: "apply_selects fails (ss @ rest) out2 = (if err = None then apply_selects fails rest out' else Inr (err, out'))"
      "added_seen (\<lambda>h V. o_head out2 \<le> h \<and> h \<le> H \<and> shows_at (pre @ s # ss) cur h V) out2 out'" "o_head out2 \<le> o_head out'" "o_head out' \<le> H"
      "err = None \<longrightarrow> o_views out' = replay (pre @ s # ss) cur \<and> (\<forall>x \<in> set (pre @ s # ss). sel_index x \<le> o_head out' + 1)"
      by auto
    have "added_seen (\<lambda>h V. o_head out \<le> h \<and> h \<le> H \<and> shows_at (pre @ s # ss) cur h V) out out'"
      by (rule added_seen_trans[OF add added_seen_mono[OF ih(2)]]) (use m(1) h in auto)
    then show ?thesis using made(1) ih(1,3,4,5) m(1) h by (intro exI[of _ err] exI[of _ out']) simp
  qed
qed

text \<open>The selects of \<open>Retire\<close> after them: at every moment a prefix of them is made, none past the index after the
  published head.\<close>

lemma apply_retire_selects:
  assumes "\<forall>s \<in> set rs. 0 \<le> sel_index s \<and> sel_index s \<le> H \<and> 0 \<le> sel_slot s \<and> nat (sel_slot s) < length cur"
    and "o_views out = replay pre cur" "\<forall>s \<in> set pre. sel_index s \<le> o_head out + 1" "0 \<le> o_head out" "o_head out \<le> H" "H < 2 ^ 64 - 1"
  shows "\<exists>err out'. apply_selects fails rs out = Inr (err, out') \<and> o_head out \<le> o_head out' \<and> o_head out' \<le> H \<and>
     added_seen (\<lambda>h V. o_head out \<le> h \<and> h \<le> H \<and> (\<exists>p. set p \<subseteq> set (pre @ rs) \<and> V = replay p cur \<and> (\<forall>s \<in> set p. sel_index s \<le> h + 1))) out out' \<and>
     (err = None \<longrightarrow> o_views out' = replay (pre @ rs) cur)"
  using assms
proof (induction rs arbitrary: pre out)
  case Nil
  then show ?case by (intro exI[of _ None] exI[of _ out]) simp
next
  case (Cons s rs)
  define h where "h = max (o_head out) (sel_index s - 1)"
  have idx: "0 \<le> sel_slot s" "nat (sel_slot s) < length (o_views out)" "in_u64 (sel_index s)" "o_head out < 2 ^ 64 - 1"
    using Cons.prems by auto
  have h: "sel_index s \<le> h + 1" "o_head out \<le> h" "h \<le> H" using Cons.prems(1,5) by (auto simp: h_def)
  let ?P = "\<lambda>h V. o_head out \<le> h \<and> h \<le> H \<and> (\<exists>p. set p \<subseteq> set (pre @ s # rs) \<and> V = replay p cur \<and> (\<forall>s \<in> set p. sel_index s \<le> h + 1))"
  have "?P h (o_views out)" using h Cons.prems(2,3) by (intro conjI exI[of _ pre]) auto
  moreover have "?P h ((o_views out)[nat (sel_slot s) := sel_source s])" using h Cons.prems(2,3) by (intro conjI exI[of _ "pre @ [s]"]) auto
  ultimately have at: "?P h (o_views out)" "?P h ((o_views out)[nat (sel_slot s) := sel_source s])" .
  from idx(1-3) Cons.prems(4) idx(4) show ?case
  proof (cases rule: apply_selects_Cons_cases[where fails = fails and ss = rs])
    case (failed e out2)
    from failed(4) have "added_seen ?P out out2" by (rule added_seen_append) (use at in \<open>auto simp: h_def[symmetric] split: if_splits\<close>)
    then show ?thesis using failed(1,2) h unfolding h_def[symmetric] by (intro exI[of _ "Some e"] exI[of _ out2]) simp
  next
    case (made out2)
    note m = made(2-4)[folded h_def]
    from m(3) have add: "added_seen ?P out out2" by (rule added_seen_append) (use at in \<open>auto split: if_splits\<close>)
    have "\<exists>err out'. apply_selects fails rs out2 = Inr (err, out') \<and> o_head out2 \<le> o_head out' \<and> o_head out' \<le> H \<and>
       added_seen (\<lambda>h V. o_head out2 \<le> h \<and> h \<le> H \<and> (\<exists>p. set p \<subseteq> set ((pre @ [s]) @ rs) \<and> V = replay p cur \<and> (\<forall>s \<in> set p. sel_index s \<le> h + 1))) out2 out' \<and>
       (err = None \<longrightarrow> o_views out' = replay ((pre @ [s]) @ rs) cur)"
      by (rule Cons.IH) (use Cons.prems h m in auto)
    then obtain err out' where ih: "apply_selects fails rs out2 = Inr (err, out')" "o_head out2 \<le> o_head out'" "o_head out' \<le> H"
      "added_seen (\<lambda>h V. o_head out2 \<le> h \<and> h \<le> H \<and> (\<exists>p. set p \<subseteq> set (pre @ s # rs) \<and> V = replay p cur \<and> (\<forall>s \<in> set p. sel_index s \<le> h + 1))) out2 out'"
      "err = None \<longrightarrow> o_views out' = replay (pre @ s # rs) cur" by auto
    have "added_seen ?P out out'" by (rule added_seen_trans[OF add added_seen_mono[OF ih(4)]]) (use m(1) h in auto)
    then show ?thesis using made(1) ih(1,2,3,5) m(1) h by (intro exI[of _ err] exI[of _ out']) simp
  qed
qed

subsection \<open>The selects of Retire\<close>

definition retire_sel_ok :: "Member list \<Rightarrow> Discrete \<Rightarrow> uint64 \<Rightarrow> Select \<Rightarrow> bool" where
  "retire_sel_ok ms d lo s \<longleftrightarrow> lo \<le> sel_index s \<and> sel_index s \<le> d_head d \<and> sel_slot s = sel_index s mod d_grains d \<and>
     (sel_source s = d_placeholder d \<or> (\<exists>k < length ms. sel_source s = int k \<and> serves d (ms ! k) (sel_index s)))"

lemma retire_sel_ok_ring:
  "same_ring d d' \<Longrightarrow> d_head d' = d_head d \<Longrightarrow> lo \<le> lo' \<Longrightarrow> retire_sel_ok ms d' lo' s \<Longrightarrow> retire_sel_ok ms d lo s"
  by (auto simp: retire_sel_ok_def serves_same_ring) (auto simp: same_ring_def)

lemma retire_index_sels:
  assumes "retire_index ms due d i = Inr (d', s)" "i \<le> d_head d"
  shows "same_ring d d' \<and> d_head d' = d_head d \<and> (\<forall>x \<in> set s. retire_sel_ok ms d i x)"
proof -
  let ?cur = "d_current d ! nat (i mod d_grains d)"
  have "retire_sel_ok ms d i \<lparr>sel_slot = i mod d_grains d, sel_source = replacement ms due d i ?cur, sel_index = i\<rparr>"
    using replacement_spec[OF HOL.refl, of ms due d i ?cur] assms(2) by (auto simp: retire_sel_ok_def)
  then show ?thesis using assms(1) by (auto simp: retire_index_def Let_def same_ring_def split: if_splits)
qed

lemma retire_loop_sels:
  "retire_loop ms due reach i d sels = Inr (d', sels') \<Longrightarrow> \<exists>new. sels' = sels @ new \<and> (\<forall>s \<in> set new. retire_sel_ok ms d i s)"
proof (induction ms due reach i d sels rule: retire_loop.induct)
  case (1 ms due reach i d sels)
  note unf = retire_loop.simps[of ms due reach i d sels]
  show ?case
  proof (cases "i \<le> d_head d \<and> u64 (i + d_grains d) \<le> reach")
    case True
    with "1.prems" obtain d1 s where r: "retire_index ms due d i = Inr (d1, s)" "retire_loop ms due reach (i + 1) d1 (sels @ s) = Inr (d', sels')"
      by (auto simp: unf split: sum.splits)
    from "1.IH"[OF True r(1) HOL.refl r(2)] obtain new where
      new: "sels' = (sels @ s) @ new" "\<forall>x \<in> set new. retire_sel_ok ms d1 (i + 1) x" by blast
    have d1: "same_ring d d1" "d_head d1 = d_head d" "\<forall>x \<in> set s. retire_sel_ok ms d i x" using retire_index_sels[OF r(1)] True by auto
    have "retire_sel_ok ms d i x" if "x \<in> set new" for x using retire_sel_ok_ring[OF d1(1,2), of i "i + 1" ms x] new(2) that by simp
    then show ?thesis using new(1) d1(3) by (intro exI[of _ "s @ new"]) auto
  next
    case False
    then have "retire_loop ms due reach i d sels = Inr (d, sels)" unfolding unf by (rule if_not_P)
    then show ?thesis using "1.prems" by simp
  qed
qed

subsection \<open>What readers are shown during a pass\<close>

text \<open>The engine between two passes: the output is at the policy's head and shows what the policy says.\<close>

definition engine_ok :: "nat \<Rightarrow> Discrete \<Rightarrow> out_ring \<Rightarrow> bool" where
  "engine_ok n d out \<longleftrightarrow> wf_discrete n d \<and> o_head out = d_head d \<and> o_views out = d_current d"

text \<open>What a reader trusting index \<open>j\<close> may be shown for it: a source \<^verbatim>\<open>Step\<close> may pick, what it was shown before if \<open>j\<close> was
  published before, or what \<^verbatim>\<open>Retire\<close> may move it to.\<close>

definition truthful :: "Member list \<Rightarrow> Member list \<Rightarrow> Discrete \<Rightarrow> uint64 \<Rightarrow> int \<Rightarrow> bool" where
  "truthful ms ms' d j src \<longleftrightarrow>
     (if j \<le> d_head (begin_step ms d) then src = shown d j else good_source ms (lead_of ms) d j src) \<or>
     src = d_placeholder d \<or> (\<exists>k < length ms'. src = int k \<and> serves d (ms' ! k) j)"

definition trusted :: "int \<Rightarrow> uint64 \<Rightarrow> uint64 \<Rightarrow> bool" where
  "trusted g h j \<longleftrightarrow> 1 \<le> j \<and> h + 2 - g \<le> j \<and> j \<le> h"

lemma replay_slot:
  "(\<And>s. s \<in> set sels \<Longrightarrow> nat (sel_slot s) = p \<Longrightarrow> Q (sel_source s)) \<Longrightarrow> Q (cur ! p) \<Longrightarrow> p < length cur \<Longrightarrow> Q (replay sels cur ! p)"
proof (induction sels arbitrary: cur)
  case (Cons a sels)
  have "Q (cur[nat (sel_slot a) := sel_source a] ! p)" using Cons.prems(1)[of a] Cons.prems(2,3) by (cases "nat (sel_slot a) = p") simp_all
  with Cons.IH[of "cur[nat (sel_slot a) := sel_source a]"] Cons.prems show ?case by simp
qed simp

lemma trusted_slot:
  assumes "trusted g h j" "h + 2 - g \<le> i" "i \<le> h + 1" "nat (i mod g) = nat (j mod g)"
  shows "i = j"
proof (rule ccontr)
  assume "i \<noteq> j"
  then consider "i < j" "j < i + g" | "j < i" "i < j + g" using assms(1-3) unfolding trusted_def by linarith
  then show False using slot_distinct[of i j g] slot_distinct[of j i g] assms(4) by cases auto
qed

lemma shows_at_base:
  assumes adv: "advanced ms lead n b new d1" and pas: "passes ms lead n b new d1" and wf: "wf_discrete n b"
    and h: "h \<le> d_head d1" and V: "shows_at new (d_current b) h V" and j: "trusted (d_grains b) h j"
  shows "if j \<le> d_head b then V ! nat (j mod d_grains b) = shown b j else good_source ms lead b j (V ! nat (j mod d_grains b))"
proof (cases "d_head b \<le> h")
  case False
  then have "filter (\<lambda>s. sel_index s \<le> h) new = []" "filter (\<lambda>s. sel_index s \<le> h + 1) new = []"
    using adv by (auto simp: advanced_def filter_empty_conv)
  then have "V = d_current b" using V by (auto simp: shows_at_def)
  then show ?thesis using False j by (auto simp: trusted_def)
next
  case True
  with pas h obtain dh where dh: "d_head dh = h" "advanced ms lead n b (filter (\<lambda>s. sel_index s \<le> h) new) dh" unfolding passes_def by blast
  let ?p = "nat (j mod d_grains b)"
  have cur: "d_current dh = replay (filter (\<lambda>s. sel_index s \<le> h) new) (d_current b)" "d_grains dh = d_grains b"
    using dh(2) by (simp_all add: advanced_def same_ring_def)
  have slots: "s \<in> set new \<Longrightarrow> sel_slot s = sel_index s mod d_grains b" "sorted_wrt (<) (map sel_index new)" for s
    using adv by (auto simp: advanced_def)
  have "filter (\<lambda>s. sel_index s \<le> h + 1) new = filter (\<lambda>s. sel_index s \<le> h) new @ filter (\<lambda>s. sel_index s = h + 1) new"
    using slots(2)
  proof (induction new)
    case (Cons a new)
    then have "filter (\<lambda>s. sel_index s \<le> h) new = []" if "h < sel_index a" using that by (fastforce simp: filter_empty_conv)
    with Cons show ?case by auto
  qed simp
  then have "V = replay (filter (\<lambda>s. sel_index s \<le> h) new) (d_current b) \<or> V = replay (filter (\<lambda>s. sel_index s = h + 1) new) (d_current dh)"
    using V cur(1) by (simp add: shows_at_def)
  moreover have "replay (filter (\<lambda>s. sel_index s = h + 1) new) (d_current dh) ! ?p = d_current dh ! ?p"
  proof (rule replay_slot[of _ _ "\<lambda>x. x = d_current dh ! ?p"])
    fix s assume s: "s \<in> set (filter (\<lambda>s. sel_index s = h + 1) new)" "nat (sel_slot s) = ?p"
    then have "h + 1 = j" using trusted_slot[OF j, of "h + 1"] slots(1)[of s] wf j by (auto simp: wf_discrete_def trusted_def)
    then show "sel_source s = d_current dh ! ?p" using j by (simp add: trusted_def)
  qed (use slot_bounds[OF wf, of j] cur(1) in simp_all)
  ultimately have "V ! ?p = shown dh j" using cur by auto
  moreover have "d_head dh < j + d_grains b" "j \<le> d_head dh" using j dh(1) by (auto simp: trusted_def)
  ultimately show ?thesis using advanced_good[OF dh(2), of j] advanced_kept[OF dh(2), of j] by auto
qed

lemma oldest_trusted_max:
  assumes "wf_discrete n d" "d_head d < 2 ^ 63"
  shows "oldest_trusted d = max 1 (d_head d + 2 - d_grains d)"
proof -
  have g: "2 \<le> d_grains d" "d_grains d < 4294967296" "0 \<le> d_head d" using assms(1) by (simp_all add: wf_discrete_def)
  have "u64 (d_head d + 2) = d_head d + 2" using g assms(2) by simp
  moreover have "d_grains d < d_head d + 2 \<Longrightarrow> u64 (d_head d + 2 - d_grains d) = d_head d + 2 - d_grains d" using g assms(2) by simp
  ultimately show ?thesis using g(1) by (auto simp: oldest_trusted_def)
qed

lemma retire_sels:
  assumes wf: "wf_discrete n d" and "length ms = n" "d_head d < 2 ^ 63" "0 \<le> due" and r: "retire ms due d = Inr (d', sels)"
  shows "\<forall>s \<in> set sels. retire_sel_ok ms d (max 1 (d_head d + 2 - d_grains d)) s"
proof -
  note nf = noted_frame[OF assms(1,2,4)]
  have old: "oldest_trusted (noted ms due d) = oldest_trusted d"
    using nf by (simp add: oldest_trusted_def same_ring_def)
  from retire_loop_sels[OF r[unfolded retire_def Let_def]] obtain new where
    "sels = new" "\<forall>s \<in> set new. retire_sel_ok ms (noted ms due d) (oldest_trusted d) s" unfolding old by auto
  then show ?thesis using retire_sel_ok_ring[OF nf(2) _ order.refl] nf oldest_trusted_max[OF wf assms(3)] by auto
qed

lemma moved_or_base:
  assumes d: "wf_discrete n d" "d_grains d = g" and h: "h \<le> d_head d" and j: "trusted g h j"
    and p: "\<And>s. s \<in> set p \<Longrightarrow> retire_sel_ok ms d (max 1 (d_head d + 2 - g)) s \<and> sel_index s \<le> h + 1"
    and base: "length base = length (d_current d)"
  shows "replay p base ! nat (j mod g) = base ! nat (j mod g) \<or> replay p base ! nat (j mod g) = d_placeholder d \<or>
    (\<exists>k < length ms. replay p base ! nat (j mod g) = int k \<and> serves d (ms ! k) j)"
proof (rule replay_slot[where Q = "\<lambda>x. x = base ! nat (j mod g) \<or> x = d_placeholder d \<or> (\<exists>k < length ms. x = int k \<and> serves d (ms ! k) j)"])
  fix s assume s: "s \<in> set p" "nat (sel_slot s) = nat (j mod g)"
  have "sel_index s = j" by (rule trusted_slot[OF j]) (use p[OF s(1)] s(2) d h in \<open>auto simp: retire_sel_ok_def\<close>)
  then show "sel_source s = base ! nat (j mod g) \<or> sel_source s = d_placeholder d \<or> (\<exists>k < length ms. sel_source s = int k \<and> serves d (ms ! k) j)"
    using p[OF s(1)] by (auto simp: retire_sel_ok_def)
qed (use slot_bounds[OF d(1), of j] d(2) base in simp_all)

text \<open>What the policy decides in a pass: the heads it starts and ends at, the selects of \<open>Step\<close> and those of \<open>Retire\<close>.\<close>

definition decided :: "Member list \<Rightarrow> Member list \<Rightarrow> nat \<Rightarrow> Discrete \<Rightarrow> Select list \<Rightarrow> Discrete \<Rightarrow> Select list \<Rightarrow> bool" where
  "decided ms ms' n d new d1 rs \<longleftrightarrow>
     wf_discrete n d \<and> wf_discrete n d1 \<and> same_ring d d1 \<and> d_head d \<le> d_head d1 \<and> d_head d1 < 2 ^ 63 \<and> d_current d1 = replay new (d_current d) \<and>
     sorted_wrt (<) (map sel_index new) \<and>
     (\<forall>s \<in> set new. d_head d < sel_index s \<and> sel_index s \<le> d_head d1 \<and> 0 \<le> sel_slot s \<and> nat (sel_slot s) < length (d_current d)) \<and>
     (\<forall>h V j. h \<le> d_head d1 \<and> shows_at new (d_current d) h V \<and> trusted (d_grains d) h j \<longrightarrow>
        (if j \<le> d_head (begin_step ms d) then V ! nat (j mod d_grains d) = shown d j
         else good_source ms (lead_of ms) d j (V ! nat (j mod d_grains d)))) \<and>
     (\<forall>s \<in> set rs. retire_sel_ok ms' d1 (max 1 (d_head d1 + 2 - d_grains d)) s)"

lemma pass_decides:
  assumes wf: "wf_discrete n d" and "length ms = n" "length ms' = n" "heads_ok ms" "0 < n"
    and "lead_of ms < 2 ^ 63" "d_head d < 2 ^ 63" "0 \<le> due"
  obtains d1 new w d2 rs where "step ms now d = Inr (d1, new, w)" "retire ms' due d1 = Inr (d2, rs)" "decided ms ms' n d new d1 rs"
    "wf_discrete n d2" "same_ring d d2" "d_head d2 = d_head d1" "d_current d2 = replay rs (d_current d1)"
proof -
  let ?g = "d_grains d" and ?b = "begin_step ms d"
  note b = begin_step_frame[OF wf assms(2,4,5)]
  obtain d1 new w where s: "step ms now d = Inr (d1, new, w)" "advanced ms (lead_of ms) n ?b new d1" "passes ms (lead_of ms) n ?b new d1"
    using step_loop_spec[OF b(1) assms(2) lead_of_bounds[OF assms(4)], of now "[]"] by (auto simp: step_def)
  have ring1: "same_ring d d1" "wf_discrete n d1" using same_ring_trans[OF b(2)] s(2) by (simp_all add: advanced_def)
  have g: "d_grains ?b = ?g" "d_grains d1 = ?g" "0 \<le> d_head d"
    using b(2) ring1 wf by (simp_all add: same_ring_def wf_discrete_def)
  have "d_head ?b \<le> d_head d1" "d_head d1 \<le> max (d_head ?b) (lead_of ms)" using s(2) by (simp_all add: advanced_def)
  then have H: "d_head d \<le> d_head ?b" "d_head ?b \<le> d_head d1" "d_head d1 < 2 ^ 63"
    using b(4) assms(6,7) g(3) by (auto split: if_splits)
  obtain d2 rs where r: "retire ms' due d1 = Inr (d2, rs)" "retired ms' n (oldest_trusted d1) (noted ms' due d1) rs d2"
    using retire_spec[OF ring1(2) assms(3) H(3) assms(8)] by metis
  note nf = noted_frame[OF ring1(2) assms(3,8)]
  have d2: "wf_discrete n d2" "same_ring d d2" "d_head d2 = d_head d1" "d_current d2 = replay rs (d_current d1)"
    using r(2) nf same_ring_trans[OF ring1(1) same_ring_trans[OF nf(2), of d2]] by (simp_all add: retired_def)
  have "if j \<le> d_head ?b then V ! nat (j mod ?g) = shown d j else good_source ms (lead_of ms) d j (V ! nat (j mod ?g))"
    if "h \<le> d_head d1" "shows_at new (d_current d) h V" "trusted ?g h j" for h V j
    using shows_at_base[OF s(2,3) b(1) that(1), of V j] that(2,3) b(3) g good_source_ring[OF b(2)] by (auto split: if_splits)
  moreover have "\<forall>s \<in> set new. d_head d < sel_index s \<and> sel_index s \<le> d_head d1 \<and> 0 \<le> sel_slot s \<and> nat (sel_slot s) < length (d_current d)"
    using s(2) H(1) g(1) slot_bounds[OF wf] by (fastforce simp: advanced_def)
  ultimately have "decided ms ms' n d new d1 rs"
    using wf ring1 H s(2) b(3) retire_sels[OF ring1(2) assms(3) H(3) assms(8) r(1), unfolded g]
    unfolding decided_def advanced_def by auto
  then show thesis using that s(1) r(1) d2 by blast
qed

text \<open>What readers may be shown at head \<open>h\<close>.\<close>

definition shown_truly :: "Member list \<Rightarrow> Member list \<Rightarrow> Discrete \<Rightarrow> uint64 \<Rightarrow> uint64 \<Rightarrow> int list \<Rightarrow> bool" where
  "shown_truly ms ms' d H h V \<longleftrightarrow> d_head d \<le> h \<and> h \<le> H \<and> (\<forall>j. trusted (d_grains d) h j \<longrightarrow> truthful ms ms' d j (V ! nat (j mod d_grains d)))"

lemma shown_truly_moved:
  assumes D: "decided ms ms' n d new d1 rs" and h: "d_head d \<le> h" "h \<le> d_head d1" "set p \<subseteq> set rs" "\<forall>s \<in> set p. sel_index s \<le> h + 1"
    and new: "\<forall>s \<in> set new. sel_index s \<le> h + 1"
  shows "shown_truly ms ms' d (d_head d1) h (replay p (d_current d1))"
  unfolding shown_truly_def
proof (intro conjI allI impI h(1,2))
  have d1: "wf_discrete n d1" "same_ring d d1" "d_grains d1 = d_grains d" "d_placeholder d1 = d_placeholder d" "d_current d1 = replay new (d_current d)"
    and rs_ok: "\<forall>s \<in> set rs. retire_sel_ok ms' d1 (max 1 (d_head d1 + 2 - d_grains d)) s"
    using D by (simp_all add: decided_def same_ring_def)
  fix j assume j: "trusted (d_grains d) h j"
  have "filter (\<lambda>s. sel_index s \<le> h + 1) new = new" using new by (auto simp: filter_id_conv)
  then have "shows_at new (d_current d) h (d_current d1)" by (simp add: shows_at_def d1(5))
  then have "if j \<le> d_head (begin_step ms d) then d_current d1 ! nat (j mod d_grains d) = shown d j
     else good_source ms (lead_of ms) d j (d_current d1 ! nat (j mod d_grains d))"
    using D h(2) j unfolding decided_def by blast
  moreover have "replay p (d_current d1) ! nat (j mod d_grains d) = d_current d1 ! nat (j mod d_grains d) \<or>
     replay p (d_current d1) ! nat (j mod d_grains d) = d_placeholder d \<or>
     (\<exists>k < length ms'. replay p (d_current d1) ! nat (j mod d_grains d) = int k \<and> serves d (ms' ! k) j)"
    using moved_or_base[OF d1(1,3) h(2) j, of p ms' "d_current d1"] rs_ok h(3,4) serves_same_ring[OF d1(2)] d1(4) by auto
  ultimately show "truthful ms ms' d j (replay p (d_current d1) ! nat (j mod d_grains d))" unfolding truthful_def by metis
qed

lemma apply_pass:
  assumes D: "decided ms ms' n d new d1 rs" and out: "o_head out = d_head d" "o_views out = d_current d"
  obtains err out' where "apply_selects fails (new @ rs) out = Inr (err, out')" "added_seen (shown_truly ms ms' d (d_head d1)) out out'"
    "o_head out' \<le> d_head d1" "err = None \<Longrightarrow> o_views out' = replay rs (d_current d1)"
proof -
  note D' = D[unfolded decided_def]
  have len: "d_grains d1 = d_grains d" "d_head d \<ge> 0" using D' by (simp_all add: same_ring_def wf_discrete_def)
  have wf1: "wf_discrete n d1" and H: "d_head d1 < 2 ^ 63" and rs_ok: "\<forall>s \<in> set rs. retire_sel_ok ms' d1 (max 1 (d_head d1 + 2 - d_grains d)) s"
    using D' by simp_all
  have "\<exists>err out1. apply_selects fails (new @ rs) out = (if err = None then apply_selects fails rs out1 else Inr (err, out1)) \<and>
     added_seen (\<lambda>h V. o_head out \<le> h \<and> h \<le> d_head d1 \<and> shows_at ([] @ new) (d_current d) h V) out out1 \<and> o_head out \<le> o_head out1 \<and> o_head out1 \<le> d_head d1 \<and>
     (err = None \<longrightarrow> o_views out1 = replay ([] @ new) (d_current d) \<and> (\<forall>s \<in> set ([] @ new). sel_index s \<le> o_head out1 + 1))"
    by (rule apply_step_selects) (use D' out len in auto)
  then obtain err out1 where a: "apply_selects fails (new @ rs) out = (if err = None then apply_selects fails rs out1 else Inr (err, out1))"
     "added_seen (\<lambda>h V. o_head out \<le> h \<and> h \<le> d_head d1 \<and> shows_at new (d_current d) h V) out out1" "o_head out \<le> o_head out1" "o_head out1 \<le> d_head d1"
     "err = None \<Longrightarrow> o_views out1 = d_current d1 \<and> (\<forall>s \<in> set new. sel_index s \<le> o_head out1 + 1)" using D' by auto
  have P1: "added_seen (shown_truly ms ms' d (d_head d1)) out out1"
  proof (rule added_seen_mono[OF a(2)])
    fix h V assume hV: "o_head out \<le> h \<and> h \<le> d_head d1 \<and> shows_at new (d_current d) h V"
    then have "if j \<le> d_head (begin_step ms d) then V ! nat (j mod d_grains d) = shown d j
       else good_source ms (lead_of ms) d j (V ! nat (j mod d_grains d))" if "trusted (d_grains d) h j" for j
      using D' that by blast
    then show "shown_truly ms ms' d (d_head d1) h V" using hV out(1) by (auto simp: shown_truly_def truthful_def)
  qed
  show thesis
  proof (cases err)
    case (Some e)
    then show thesis using that[of err out1] a(1,4) P1 by simp
  next
    case None
    note a5 = a(5)[OF None]
    have "\<exists>err' out2. apply_selects fails rs out1 = Inr (err', out2) \<and> o_head out1 \<le> o_head out2 \<and> o_head out2 \<le> d_head d1 \<and>
       added_seen (\<lambda>h V. o_head out1 \<le> h \<and> h \<le> d_head d1 \<and> (\<exists>p. set p \<subseteq> set ([] @ rs) \<and> V = replay p (d_current d1) \<and> (\<forall>s \<in> set p. sel_index s \<le> h + 1))) out1 out2 \<and>
       (err' = None \<longrightarrow> o_views out2 = replay ([] @ rs) (d_current d1))"
    proof (rule apply_retire_selects)
      show "\<forall>s \<in> set rs. 0 \<le> sel_index s \<and> sel_index s \<le> d_head d1 \<and> 0 \<le> sel_slot s \<and> nat (sel_slot s) < length (d_current d1)"
        using rs_ok slot_bounds[OF wf1] by (auto simp: retire_sel_ok_def)
    qed (use a(3,4) a5 out(1) len(2) H in simp_all)
    then obtain err' out2 where c: "apply_selects fails rs out1 = Inr (err', out2)" "o_head out2 \<le> d_head d1"
       "added_seen (\<lambda>h V. o_head out1 \<le> h \<and> h \<le> d_head d1 \<and> (\<exists>p. set p \<subseteq> set rs \<and> V = replay p (d_current d1) \<and> (\<forall>s \<in> set p. sel_index s \<le> h + 1))) out1 out2"
       "err' = None \<Longrightarrow> o_views out2 = replay rs (d_current d1)" by auto
    have "added_seen (shown_truly ms ms' d (d_head d1)) out out2"
    proof (rule added_seen_trans[OF P1 added_seen_mono[OF c(3)]], elim conjE exE)
      fix h V p assume h: "o_head out1 \<le> h" "h \<le> d_head d1" "set p \<subseteq> set rs" "V = replay p (d_current d1)" "\<forall>s \<in> set p. sel_index s \<le> h + 1"
      have "\<forall>s \<in> set new. sel_index s \<le> h + 1" using a5 h(1) by auto
      then show "shown_truly ms ms' d (d_head d1) h V"
        unfolding h(4) using shown_truly_moved[OF D _ h(2,3,5)] a(3) h(1) out(1) by simp
    qed
    then show thesis using that[of err' out2] a(1) None c by simp
  qed
qed

lemma discrete_pass_spec:
  assumes "engine_ok n d out" "length ms = n" "length ms' = n" "heads_ok ms" "0 < n"
    and "lead_of ms < 2 ^ 63" "d_head d < 2 ^ 63" "0 \<le> due"
  shows "\<exists>d' out' err w k. discrete_pass fails now ms due ms' d out = Inr (d', out', err, w, k) \<and> wf_discrete n d' \<and> same_ring d d' \<and>
     added_seen (shown_truly ms ms' d (d_head d')) out out' \<and>
     (err = None \<longrightarrow> engine_ok n d' out')"
proof -
  have wf: "wf_discrete n d" and out: "o_head out = d_head d" "o_views out = d_current d" using assms(1) by (simp_all add: engine_ok_def)
  obtain d1 new w d2 rs where s: "step ms now d = Inr (d1, new, w)" "retire ms' due d1 = Inr (d2, rs)" and D: "decided ms ms' n d new d1 rs"
    and d2: "wf_discrete n d2" "same_ring d d2" "d_head d2 = d_head d1" "d_current d2 = replay rs (d_current d1)"
    by (rule pass_decides[OF wf assms(2-8)])
  obtain err out1 where a: "apply_selects fails (new @ rs) out = Inr (err, out1)" "added_seen (shown_truly ms ms' d (d_head d1)) out out1"
    "o_head out1 \<le> d_head d1" "err = None \<Longrightarrow> o_views out1 = d_current d2"
    unfolding d2(4) by (rule apply_pass[OF D out, where fails = fails]) blast
  let ?out = "if err = None \<and> d_head d1 > o_head out1 then publish (d_head d1) out1 else out1"
  have "shown_truly ms ms' d (d_head d1) (d_head d1) (d_current d2)"
    unfolding d2(4) by (rule shown_truly_moved[OF D]) (use D in \<open>auto simp: decided_def retire_sel_ok_def\<close>)
  then have "err = None \<Longrightarrow> added_seen (shown_truly ms ms' d (d_head d1)) out1 (publish (d_head d1) out1)"
    using a(4) by (intro added_seen_append[of _ _ "[(d_head d1, o_views out1)]"]) auto
  then have "added_seen (shown_truly ms ms' d (d_head d1)) out ?out" using a(2) added_seen_trans[OF a(2)] by auto
  moreover have "discrete_pass fails now ms due ms' d out = Inr (d2, ?out, err, w, length (new @ rs))"
    using s a(1) by (simp add: discrete_pass_def)
  moreover have "err = None \<longrightarrow> engine_ok n d2 ?out" using a(3,4) d2 by (auto simp: engine_ok_def)
  ultimately show ?thesis using d2(1,2,3) by auto
qed

text \<open>C1. Readers of the output are never shown anything but the truth. Take an engine whose output is at the policy's head
  and shows what the policy says, and any outcome of the view ioctls. A pass of the loop does not panic; at
  every moment of it, for the head then published and every index readers trust at that head, the slot shows a
  member that serves the index (or the INVALID grain once no member does and the leading one is the skew ahead), or what
  it showed before if it was published before, or what \<^verbatim>\<open>Retire\<close> moved it to; and if no ioctl failed, the engine is
  again at the policy's head, showing what the policy says.\<close>

theorem discrete_pass_shows_the_truth:
  assumes "engine_ok n d out" "length ms = n" "length ms' = n" "heads_ok ms" "0 < n"
    and "lead_of ms < 2 ^ 63" "d_head d < 2 ^ 63" "0 \<le> due"
  shows "\<exists>d' out' err w k. discrete_pass fails now ms due ms' d out = Inr (d', out', err, w, k) \<and> wf_discrete n d' \<and> same_ring d d' \<and>
     added_seen (shown_truly ms ms' d (d_head d')) out out' \<and>
     (err = None \<longrightarrow> engine_ok n d' out')"
  by (rule discrete_pass_spec[OF assms])

definition demo_out :: out_ring where
  "demo_out = \<lparr>o_head = 7, o_views = [2, 2, 2, 2], o_calls = 0, o_seen = []\<rparr>"

theorem discrete_pass_shows_the_truth_witness:
  "\<exists>d' out' w k. discrete_pass (\<lambda>_. None) 0 demo_members 9 demo_members demo_discrete demo_out = Inr (d', out', None, w, k) \<and>
     o_seen out' = [(7, [0, 2, 2, 2]), (8, [0, 2, 2, 2]), (8, [0, 1, 2, 2]), (9, [0, 1, 2, 2])] \<and>
     added_seen (shown_truly demo_members demo_members demo_discrete 9) demo_out out' \<and> engine_ok 2 d' out'"
proof -
  have ok: "engine_ok 2 demo_discrete demo_out" "lead_of demo_members < 2 ^ 63" "d_head demo_discrete < 2 ^ 63"
    using demo_ok by (simp_all add: engine_ok_def demo_out_def demo_discrete_def newDiscrete_def numeral_eq_Suc)
  have e: "map_sum id (\<lambda>(d, out, err, _). (d_head d, o_seen out, err)) (discrete_pass (\<lambda>_. None) 0 demo_members 9 demo_members demo_discrete demo_out) =
      Inr (9, [(7, [0, 2, 2, 2]), (8, [0, 2, 2, 2]), (8, [0, 1, 2, 2]), (9, [0, 1, 2, 2])], None)" by code_simp
  show ?thesis using discrete_pass_shows_the_truth[OF ok(1) demo_ok(3,3,4) _ ok(2,3), of 9 "\<lambda>_. None" 0] e by auto
qed

end
