(* ===== verification/Merge_Run.thy ===== *)
theory Merge_Run
  imports Merge_Engine
begin

section \<open>The engine: passes, arrivals and replacements (gateway/internal/merge/engine.go)\<close>

text \<open>
  The engine's state, what each turn of \<^verbatim>\<open>run\<close> does to it for a discrete and for an audio flow, what \<^verbatim>\<open>Committed\<close> and
  \<^verbatim>\<open>Replace\<close> do in between, and when the next pass is. Shown: however passes, arrivals and replacements follow each other, as long
  as no view ioctl fails, the views are what the policy says and the head is the policy's; no view shows a member while
  its ring is being replaced; \<open>retireDue\<close> names the index whose period the clock is in; two rings
  are aligned exactly when their layouts read the same; and, by an example, a select that failed once is never made.
\<close>

subsection \<open>State\<close>

datatype policy = Disc Discrete | Aud Audio

record Engine =
  en_policy :: policy
  en_out :: out_ring
  en_members :: nat
  en_feeds :: "bool list option"
  en_lastHead :: "uint64 list"
  en_selects :: uint64
  en_channels :: nat
  en_length :: uint64
  en_replaced :: "(nat \<times> nat) list"

text \<open>\<open>en_replaced\<close> lists the view sources replaced so far, by view and member.\<close>

definition fed :: "Engine \<Rightarrow> nat \<Rightarrow> bool" where
  "fed e i = (case en_feeds e of None \<Rightarrow> False | Some fs \<Rightarrow> i < length fs \<and> fs ! i)"

definition count_selects :: "nat \<Rightarrow> Engine \<Rightarrow> Engine" where
  "count_selects k e = e\<lparr>en_selects := u64 (en_selects e + int k)\<rparr>"

subsection \<open>Audio views\<close>

text \<open>One view holds every channel's buffer, one after another; a range of 4096 bytes is one page of one channel.\<close>

definition selectRange :: "(nat \<Rightarrow> go_error option) \<Rightarrow> int \<Rightarrow> uint64 \<Rightarrow> out_ring \<Rightarrow> go_error option \<times> out_ring" where
  "selectRange fails source offset out =
     (case fails (o_calls out) of
        Some e \<Rightarrow> (Some (EWrap ''MXLFS_IOC_VIEW_SELECT_RANGE'' e), out\<lparr>o_calls := o_calls out + 1\<rparr>)
      | None \<Rightarrow> (None, seen (out\<lparr>o_calls := o_calls out + 1, o_views := (o_views out)[nat (offset div 4096) := source]\<rparr>)))"

definition page_offset :: "uint64 \<Rightarrow> nat \<Rightarrow> uint64 \<Rightarrow> uint64" where
  "page_offset len c page = u64 ((int c * len + page * pageSamples) * 4)"

fun select_channels :: "(nat \<Rightarrow> go_error option) \<Rightarrow> uint64 \<Rightarrow> PageSelect \<Rightarrow> nat list \<Rightarrow> out_ring \<Rightarrow> go_error option \<times> out_ring" where
  "select_channels fails len s [] out = (None, out)"
| "select_channels fails len s (c # cs) out =
     (case selectRange fails (ps_source s) (page_offset len c (ps_page s)) out of
        (Some e, out1) \<Rightarrow> (Some e, out1)
      | (None, out1) \<Rightarrow> select_channels fails len s cs out1)"

fun selectPages :: "(nat \<Rightarrow> go_error option) \<Rightarrow> nat \<Rightarrow> uint64 \<Rightarrow> PageSelect list \<Rightarrow> out_ring \<Rightarrow> go_error option \<times> out_ring" where
  "selectPages fails channels len [] out = (None, out)"
| "selectPages fails channels len (s # ss) out =
     (case select_channels fails len s [0..<channels] out of
        (Some e, out1) \<Rightarrow> (Some e, out1)
      | (None, out1) \<Rightarrow> selectPages fails channels len ss out1)"

subsection \<open>Passes\<close>

text \<open>A member the gateway does not feed is followed by its head.\<close>

fun follow :: "Engine \<Rightarrow> nat \<Rightarrow> uint64 list \<Rightarrow> uint64 list \<Rightarrow> Audio \<Rightarrow> go_error + (Audio \<times> uint64 list)" where
  "follow e i (h # hs) (l # ls) a =
     (if h > l
      then (case (if l \<noteq> 0 \<and> \<not> fed e i then committed i l h a else Inr a) of
              Inl err \<Rightarrow> Inl err
            | Inr a1 \<Rightarrow> map_sum id (\<lambda>(a2, ls'). (a2, h # ls')) (follow e (i + 1) hs ls a1))
      else map_sum id (\<lambda>(a2, ls'). (a2, l # ls')) (follow e (i + 1) hs ls a))"
| "follow e i _ ls a = Inr (a, ls)"

definition audio_pass ::
  "(nat \<Rightarrow> go_error option) \<Rightarrow> time \<Rightarrow> uint64 list \<Rightarrow> uint64 \<Rightarrow> Engine \<Rightarrow> Audio \<Rightarrow> go_error + (Engine \<times> go_error option \<times> duration)" where
  "audio_pass fails now heads due e a0 =
     (case follow e 0 heads (en_lastHead e) a0 of
        Inl err \<Rightarrow> Inl err
      | Inr (a, lh) \<Rightarrow>
          (case audio_step now a of
             Inl err \<Rightarrow> Inl err
           | Inr (a1, sel, wait) \<Rightarrow>
               (case audio_retire due a1 of
                  Inl err \<Rightarrow> Inl err
                | Inr (a2, sel') \<Rightarrow>
                    (case selectPages fails (en_channels e) (en_length e) (sel @ sel') (en_out e) of
                       (err, out) \<Rightarrow>
                         Inr (count_selects (length (sel @ sel'))
                                (e\<lparr>en_policy := Aud a2, en_lastHead := lh,
                                   en_out := (if err = None \<and> a_head a1 > o_head out then publish (a_head a1) out else out)\<rparr>),
                              err, wait)))))"

record turn_input =
  in_fails :: "nat \<Rightarrow> go_error option"
  in_now :: time
  in_members :: "Member list"
  in_again :: "Member list"
  in_heads :: "uint64 list"
  in_due :: uint64

definition run_pass :: "turn_input \<Rightarrow> Engine \<Rightarrow> go_error + (Engine \<times> go_error option \<times> duration)" where
  "run_pass i e =
     (case en_policy e of
        Disc d \<Rightarrow>
          (case discrete_pass (in_fails i) (in_now i) (in_members i) (in_due i) (in_again i) d (en_out e) of
             Inl err \<Rightarrow> Inl err
           | Inr (d', out, err, wait, k) \<Rightarrow> Inr (count_selects k (e\<lparr>en_policy := Disc d', en_out := out\<rparr>), err, wait))
      | Aud a \<Rightarrow> audio_pass (in_fails i) (in_now i) (in_heads i) (in_due i) e a)"

subsection \<open>Arrivals\<close>

definition engine_committed :: "nat \<Rightarrow> uint64 \<Rightarrow> uint64 \<Rightarrow> uint64 \<Rightarrow> Engine \<Rightarrow> go_error + Engine" where
  "engine_committed member start end ring_head e =
     (case en_policy e of
        Disc d \<Rightarrow> Inr e
      | Aud a \<Rightarrow>
          (let feeds = (case en_feeds e of None \<Rightarrow> replicate (en_members e) False | Some fs \<Rightarrow> fs)
           in if member \<ge> length feeds then Inl index_panic
              else let e1 = e\<lparr>en_feeds := Some (feeds[member := True])\<rparr>; end' = min end ring_head
                   in if end' > start
                      then map_sum id (\<lambda>a'. e1\<lparr>en_policy := Aud a'\<rparr>) (committed member start end' a)
                      else Inr e1))"

subsection \<open>Replacing a member's ring\<close>

fun replace_sources :: "(nat \<Rightarrow> go_error option) \<Rightarrow> nat \<Rightarrow> nat list \<Rightarrow> Engine \<Rightarrow> go_error option \<times> Engine" where
  "replace_sources fails member [] e = (None, e)"
| "replace_sources fails member (v # vs) e =
     (let e1 = e\<lparr>en_out := (en_out e)\<lparr>o_calls := o_calls (en_out e) + 1\<rparr>\<rparr>
      in case fails (o_calls (en_out e)) of
           Some err \<Rightarrow> (Some (EWrap ''MXLFS_IOC_VIEW_REPLACE_SOURCE'' err), e1)
         | None \<Rightarrow> replace_sources fails member vs (e1\<lparr>en_replaced := en_replaced e1 @ [(v, member)]\<rparr>))"

definition engine_drop :: "(nat \<Rightarrow> go_error option) \<Rightarrow> Member list \<Rightarrow> nat \<Rightarrow> Engine \<Rightarrow> go_error + (go_error option \<times> Engine)" where
  "engine_drop fails ms member e =
     (case en_policy e of
        Disc d \<Rightarrow>
          (case drop_member ms (int member) d of (d', sel) \<Rightarrow>
             map_sum id (\<lambda>(err, out). (err, count_selects (length sel) (e\<lparr>en_policy := Disc d', en_out := out\<rparr>)))
               (apply_selects fails sel (en_out e)))
      | Aud a \<Rightarrow>
          (case audio_drop member a of
             Inl err \<Rightarrow> Inl err
           | Inr (a', sel) \<Rightarrow>
               (case selectPages fails (en_channels e) (en_length e) sel (en_out e) of
                  (err, out) \<Rightarrow> Inr (err, count_selects (length sel) (e\<lparr>en_policy := Aud a', en_out := out\<rparr>)))))"

text \<open>\<^verbatim>\<open>take\<close>, and what \<^verbatim>\<open>run\<close> does after it. There is one view per grain slot, or one for all the channels.\<close>

definition view_count :: "Engine \<Rightarrow> nat" where
  "view_count e = (case en_policy e of Disc d \<Rightarrow> length (o_views (en_out e)) | Aud a \<Rightarrow> 1)"

definition take_ring :: "(nat \<Rightarrow> go_error option) \<Rightarrow> Member list \<Rightarrow> nat \<Rightarrow> Engine \<Rightarrow> go_error + (go_error option \<times> Engine)" where
  "take_ring fails ms member e =
     (case engine_drop fails ms member e of
        Inl err \<Rightarrow> Inl err
      | Inr (Some err, e1) \<Rightarrow> Inr (Some err, e1)
      | Inr (None, e1) \<Rightarrow>
          (case replace_sources fails member [0..<view_count e1] e1 of
             (Some err, e2) \<Rightarrow> Inr (Some err, e2)
           | (None, e2) \<Rightarrow> Inr (None, e2\<lparr>en_lastHead := (en_lastHead e2)[member := 0]\<rparr>)))"

subsection \<open>Audio views show what the policy says\<close>

text \<open>Every channel's pages show the policy's sources.\<close>

definition audio_views :: "nat \<Rightarrow> int list \<Rightarrow> int list \<Rightarrow> bool" where
  "audio_views channels cur views \<longleftrightarrow>
     length views = channels * length cur \<and> (\<forall>c < channels. \<forall>p < length cur. views ! (c * length cur + p) = cur ! p)"

definition audio_layout :: "nat \<Rightarrow> uint64 \<Rightarrow> nat \<Rightarrow> bool" where
  "audio_layout channels len pages \<longleftrightarrow> len = int pages * pageSamples \<and> int channels * len * 4 < 2 ^ 64"

lemma page_offset_slot:
  assumes "audio_layout channels len pages" "c < channels" "0 \<le> page" "page < int pages"
  shows "page_offset len c page div 4096 = int c * int pages + page"
proof -
  have off: "(int c * len + page * pageSamples) * 4 = 4096 * (int c * int pages + page)"
    using assms(1) by (simp add: audio_layout_def pageSamples_def algebra_simps)
  have "int c * int pages + page < (int c + 1) * int pages" using assms(4) by (simp add: algebra_simps)
  also have "\<dots> \<le> int channels * int pages" using assms(2) by (intro mult_right_mono) auto
  finally have "4096 * (int c * int pages + page) < int channels * len * 4" using assms(1) by (simp add: audio_layout_def pageSamples_def)
  then have "u64 (4096 * (int c * int pages + page)) = 4096 * (int c * int pages + page)"
    using assms(1,3) unfolding audio_layout_def by (intro u64_id conjI, simp, linarith)
  then show ?thesis unfolding page_offset_def off by simp
qed

lemma nth_updates:
  "distinct cs \<Longrightarrow> p < pages \<Longrightarrow> q < pages \<Longrightarrow> c * pages + q < length vs \<Longrightarrow>
   fold (\<lambda>c vs. vs[c * pages + p := x]) cs vs ! (c * pages + q) = (if c \<in> set cs \<and> q = p then x else vs ! (c * pages + q))"
proof (induction cs arbitrary: vs)
  case (Cons b cs)
  have eq: "b * pages + p = c * pages + q \<longleftrightarrow> b = c \<and> p = q"
  proof
    assume "b * pages + p = c * pages + q"
    then have "(b * pages + p) div pages = (c * pages + q) div pages" "(b * pages + p) mod pages = (c * pages + q) mod pages" by simp_all
    then show "b = c \<and> p = q" using Cons.prems(2,3) by (simp add: div_mult_self1)
  qed simp
  show ?case using Cons eq by (auto simp: nth_list_update)
qed simp

lemma length_updates: "length (fold (\<lambda>c vs. vs[c * pages + p := x]) cs vs) = length vs"
  by (induction cs arbitrary: vs) simp_all

lemma select_channels_views:
  assumes "audio_layout channels len pages" "0 \<le> ps_page s" "ps_page s < int pages" "set cs \<subseteq> {0..<channels}"
    and "select_channels fails len s cs out = (None, out')"
  shows "o_views out' = fold (\<lambda>c vs. vs[c * pages + nat (ps_page s) := ps_source s]) cs (o_views out) \<and> o_head out' = o_head out"
  using assms(4,5)
proof (induction cs arbitrary: out)
  case (Cons c cs)
  have "nat (page_offset len c (ps_page s) div 4096) = c * pages + nat (ps_page s)"
    using page_offset_slot[OF assms(1) _ assms(2,3), of c] Cons.prems(1) assms(2) by (simp add: nat_add_distrib nat_mult_distrib)
  then show ?case using Cons by (auto simp: selectRange_def split: option.splits)
qed simp

text \<open>The pages of every channel follow the policy. When no range select fails, pointing the pages the policy returned at
  their sources turns views that show, in every channel, the sources the policy had into views that show
  in every channel the sources it has now; the byte offsets neither overflow nor meet another channel's pages; and the
  published head stays.\<close>

lemma selectPages_follows_policy:
  assumes "audio_layout channels len (length cur)" "\<forall>s \<in> set sels. 0 \<le> ps_page s \<and> ps_page s < int (length cur)"
    and "audio_views channels cur (o_views out)" "selectPages fails channels len sels out = (None, out')"
  shows "audio_views channels (replay_pages sels cur) (o_views out') \<and> o_head out' = o_head out"
  using assms
proof (induction sels arbitrary: cur out)
  case (Cons s ss)
  let ?p = "nat (ps_page s)" and ?n = "length cur"
  from Cons.prems(4) obtain out1 where r: "select_channels fails len s [0..<channels] out = (None, out1)" "selectPages fails channels len ss out1 = (None, out')"
    by (auto split: prod.splits option.splits)
  have s: "0 \<le> ps_page s" "ps_page s < int ?n" "?p < ?n" using Cons.prems(2) by auto
  have v: "o_views out1 = fold (\<lambda>c vs. vs[c * ?n + ?p := ps_source s]) [0..<channels] (o_views out)" "o_head out1 = o_head out"
    using select_channels_views[OF Cons.prems(1) s(1,2) _ r(1)] by simp_all
  have "c * ?n + q < channels * ?n" if "c < channels" "q < ?n" for c q
  proof -
    have "c * ?n + q < Suc c * ?n" using that by simp
    also have "\<dots> \<le> channels * ?n" using that by (intro mult_right_mono) auto
    finally show ?thesis .
  qed
  then have "audio_views channels (cur[?p := ps_source s]) (o_views out1)"
    using Cons.prems(3) s(3) unfolding audio_views_def v(1) by (auto simp: length_updates nth_updates nth_list_update)
  with Cons.IH[of "cur[?p := ps_source s]" out1] Cons.prems(1,2) r(2) v(2) show ?case by simp
qed simp

subsection \<open>The engine serves\<close>

text \<open>The engine between two turns of the loop.\<close>

definition serving :: "Engine \<Rightarrow> bool" where
  "serving e \<longleftrightarrow> 0 < en_members e \<and> length (en_lastHead e) = en_members e \<and> (\<forall>l \<in> set (en_lastHead e). 0 \<le> l) \<and>
     (\<forall>fs. en_feeds e = Some fs \<longrightarrow> length fs = en_members e) \<and>
     (case en_policy e of
        Disc d \<Rightarrow> engine_ok (en_members e) d (en_out e) \<and> d_head d < 2 ^ 63
      | Aud a \<Rightarrow> wf_audio (en_members e) a \<and> (o_head (en_out e) = a_head a \<or> o_head (en_out e) = 0) \<and> (a_started a \<or> a_head a = 0) \<and>
          audio_layout (en_channels e) (en_length e) (length (a_current a)) \<and>
          audio_views (en_channels e) (a_current a) (o_views (en_out e)))"

text \<open>The head readers see is the policy's. Between the first arrival of an audio flow, which puts the policy's head
  at its first whole page, and the next pass it is still 0.\<close>

definition head_published :: "Engine \<Rightarrow> bool" where
  "head_published e \<longleftrightarrow> o_head (en_out e) = (case en_policy e of Disc d \<Rightarrow> d_head d | Aud a \<Rightarrow> a_head a)"

text \<open>What \<^verbatim>\<open>buildDiscrete\<close> and \<^verbatim>\<open>buildAudio\<close> leave: every view at the INVALID grain or silence, the head 0.\<close>

definition built_discrete :: "nat \<Rightarrow> nat \<Rightarrow> bool \<Rightarrow> bool \<Rightarrow> duration \<Rightarrow> duration \<Rightarrow> Engine" where
  "built_discrete members grains data ordered skew period =
     \<lparr>en_policy = Disc ((newDiscrete grains (int members))\<lparr>d_data := data, d_ordered := ordered,
        d_skew := max (u64 (quot64 skew period)) 1, d_tolerance := toleranceFor skew\<rparr>),
      en_out = \<lparr>o_head = 0, o_views = replicate grains (int members), o_calls = 0, o_seen = []\<rparr>, en_members = members, en_feeds = None,
      en_lastHead = replicate members 0, en_selects = 0, en_channels = 0, en_length = 0, en_replaced = []\<rparr>"

definition built_audio :: "nat \<Rightarrow> nat \<Rightarrow> uint64 \<Rightarrow> uint64 \<Rightarrow> uint64 \<Rightarrow> duration \<Rightarrow> go_error + Engine" where
  "built_audio members channels len skew ahead tolerance =
     (if len mod pageSamples \<noteq> 0 then Inl (EOther (''channel buffer of '' @ show_int len @ '' samples is not whole pages''))
      else let pages = nat (len div pageSamples)
           in Inr \<lparr>en_policy = Aud ((newAudio members pages (int members))\<lparr>a_skew := skew, a_tolerance := tolerance, a_ahead := ahead\<rparr>),
                   en_out = \<lparr>o_head = 0, o_views = replicate (channels * pages) (int members), o_calls = 0, o_seen = []\<rparr>,
                   en_members = members, en_feeds = None, en_lastHead = replicate members 0, en_selects = 0,
                   en_channels = channels, en_length = len, en_replaced = []\<rparr>)"

text \<open>A turn the engine can take: a pass over what it reads of the members, an arrival, a replacement, no ioctl failing.\<close>

definition input_ok :: "Engine \<Rightarrow> turn_input \<Rightarrow> bool" where
  "input_ok e i \<longleftrightarrow> length (in_members i) = en_members e \<and> length (in_again i) = en_members e \<and> heads_ok (in_members i) \<and>
     lead_of (in_members i) < 2 ^ 63 \<and> 0 \<le> in_due i \<and> length (in_heads i) = en_members e \<and> (\<forall>h \<in> set (in_heads i). in_u64 h)"

inductive engine_turn :: "Engine \<Rightarrow> Engine \<Rightarrow> bool" where
  pass: "input_ok e i \<Longrightarrow> run_pass i e = Inr (e', None, w) \<Longrightarrow> engine_turn e e'"
| arrival: "m < en_members e \<Longrightarrow> 0 \<le> start \<Longrightarrow> in_u64 end \<Longrightarrow> 0 \<le> head \<Longrightarrow> engine_committed m start end head e = Inr e' \<Longrightarrow> engine_turn e e'"
| replacement: "m < en_members e \<Longrightarrow> length ms = en_members e \<Longrightarrow> take_ring fails ms m e = Inr (None, e') \<Longrightarrow> engine_turn e e'"

inductive engine_runs :: "Engine \<Rightarrow> Engine \<Rightarrow> bool" where
  start: "engine_runs e e"
| turn: "engine_runs e e1 \<Longrightarrow> engine_turn e1 e2 \<Longrightarrow> engine_runs e e2"

lemma built_discrete_serving:
  assumes "0 < members" "2 \<le> grains" "grains < 2 ^ 32"
  shows "serving (built_discrete members grains data ordered skew period)"
  using assms by (auto simp: serving_def built_discrete_def engine_ok_def wf_discrete_def newDiscrete_def)

lemma built_audio_serving:
  assumes "0 < members" "built_audio members channels len skew ahead tolerance = Inr e" "0 < len" "len < 2 ^ 32" "int channels * len * 4 < 2 ^ 64"
  shows "serving e"
proof -
  let ?pages = "nat (len div pageSamples)"
  have len: "len mod pageSamples = 0" using assms(2) by (auto simp: built_audio_def split: if_splits)
  then have pages: "len = int ?pages * pageSamples" using assms(3) by (auto simp: pageSamples_def)
  then have "0 < ?pages" "?pages < 2 ^ 32" using assms(3,4) len by (auto simp: pageSamples_def)
  then have "wf_audio members ((newAudio members ?pages (int members))\<lparr>a_skew := skew, a_tolerance := tolerance, a_ahead := ahead\<rparr>)"
    using newAudio_wf[OF assms(1), of ?pages] by (simp add: wf_audio_def)
  moreover have "c < channels \<Longrightarrow> p < ?pages \<Longrightarrow> c * ?pages + p < channels * ?pages" for c p
    using mult_le_mono1[of "Suc c" channels ?pages] by simp
  ultimately show ?thesis using assms(1,2,5) pages len
    by (auto simp: serving_def built_audio_def Let_def audio_views_def audio_layout_def newAudio_def)
qed

subsection \<open>Every turn keeps the engine serving\<close>

lemma slot_index_range: "0 < d_grains d \<Longrightarrow> slot_index d k = Some i \<Longrightarrow> 0 \<le> i \<and> i \<le> d_head d"
  by (auto simp: slot_index_def Let_def split: if_splits)

lemma drop_slots_sels:
  "drop_slots ms m slots d sels = (d', sels') \<Longrightarrow> 0 < d_grains d \<Longrightarrow> 0 \<le> d_head d \<Longrightarrow>
   \<exists>new. sels' = sels @ new \<and> (\<forall>s \<in> set new. 0 \<le> sel_index s \<and> sel_index s \<le> d_head d \<and> (\<exists>k \<in> set slots. sel_slot s = int k))"
proof (induction slots arbitrary: d sels)
  case (Cons k slots)
  obtain to i where t: "drop_to ms d m k = (to, i)" by force
  then have i: "0 \<le> i" "i \<le> d_head d"
    using slot_index_range[OF Cons.prems(2), of k] Cons.prems(3) by (auto simp: drop_to_def split: option.splits)
  show ?case
  proof (cases "d_current d ! k = m")
    case True
    with Cons.IH[of "d\<lparr>d_current := (d_current d)[k := to]\<rparr>" "sels @ [\<lparr>sel_slot = int k, sel_source = to, sel_index = i\<rparr>]"] Cons.prems t
    obtain new where "sels' = (sels @ [\<lparr>sel_slot = int k, sel_source = to, sel_index = i\<rparr>]) @ new"
      "\<forall>s \<in> set new. 0 \<le> sel_index s \<and> sel_index s \<le> d_head d \<and> (\<exists>k \<in> set slots. sel_slot s = int k)" by auto
    then show ?thesis using i by (intro exI[of _ "\<lparr>sel_slot = int k, sel_source = to, sel_index = i\<rparr> # new"]) auto
  next
    case False
    then show ?thesis using Cons by fastforce
  qed
qed simp

text \<open>Dropping a member moves every slot off it; when no select fails, the output follows.\<close>

lemma drop_discrete_serving:
  assumes "serving e" "en_policy e = Disc d" "m < en_members e" "length ms = en_members e" "engine_drop fails ms m e = Inr (None, e')"
  shows "serving e' \<and> int m \<notin> set (o_views (en_out e')) \<and> en_replaced e' = en_replaced e \<and> o_head (en_out e') = o_head (en_out e)"
proof -
  let ?out = "en_out e"
  have ok: "wf_discrete (en_members e) d" "o_head ?out = d_head d" "o_views ?out = d_current d" "d_head d < 2 ^ 63"
    using assms(1,2) by (simp_all add: serving_def engine_ok_def)
  obtain d1 sel where d: "drop_member ms (int m) d = (d1, sel)" by force
  have g: "0 < d_grains d" "0 \<le> d_head d" using ok(1) by (simp_all add: wf_discrete_def)
  have s: "\<forall>s \<in> set sel. 0 \<le> sel_index s \<and> sel_index s \<le> d_head d \<and> 0 \<le> sel_slot s \<and> nat (sel_slot s) < length (d_current d)"
    using drop_slots_sels[OF d[unfolded drop_member_def] g] by force
  have spec: "wf_discrete (en_members e) d1" "d_head d1 = d_head d" "int m \<notin> set (d_current d1)" "d_current d1 = replay sel (d_current d)"
    using drop_empties_member[OF ok(1) assms(4) _ _ d] assms(3) by auto
  have "\<exists>err out'. apply_selects fails sel ?out = Inr (err, out') \<and> o_head ?out \<le> o_head out' \<and> o_head out' \<le> d_head d \<and>
     added_seen (\<lambda>h V. o_head ?out \<le> h \<and> h \<le> d_head d \<and> (\<exists>p. set p \<subseteq> set ([] @ sel) \<and> V = replay p (d_current d) \<and> (\<forall>s \<in> set p. sel_index s \<le> h + 1))) ?out out' \<and>
     (err = None \<longrightarrow> o_views out' = replay ([] @ sel) (d_current d))"
    by (rule apply_retire_selects) (use s ok g in auto)
  then show ?thesis using assms(1,2,5) d spec ok(2,4)
    by (auto simp: engine_drop_def serving_def engine_ok_def count_selects_def)
qed

lemma length_replay_pages [simp]: "length (replay_pages sels vs) = length vs"
  by (induction sels arbitrary: vs) simp_all

lemma drop_audio_serving:
  assumes "serving e" "en_policy e = Aud a" "m < en_members e" "engine_drop fails ms m e = Inr (None, e')"
  shows "serving e' \<and> int m \<notin> set (o_views (en_out e')) \<and> en_replaced e' = en_replaced e \<and> o_head (en_out e') = o_head (en_out e)"
proof -
  have ok: "wf_audio (en_members e) a" "o_head (en_out e) = a_head a \<or> o_head (en_out e) = 0" "audio_layout (en_channels e) (en_length e) (length (a_current a))"
    "audio_views (en_channels e) (a_current a) (o_views (en_out e))" "a_started a \<or> a_head a = 0"
    using assms(1,2) by (simp_all add: serving_def)
  obtain b sels where b: "audio_drop m a = Inr (b, sels)" "wf_audio (en_members e) b" "a_head b = a_head a" "int m \<notin> set (a_current b)"
    "a_current b = replay_pages sels (a_current a)" using audio_drop_empties_member[OF ok(1) assms(3)] by auto
  have len: "length (a_current b) = length (a_current a)" "int (length (a_current a)) = a_pages a"
    using b(5) ok(1) by (simp_all add: wf_audio_def)
  from b(1) obtain a1 where "audio_drop_pages (int m) [0..<length (a_current a)] a [] = (a1, sels)"
    by (auto simp: audio_drop_def split: prod.splits if_splits)
  then have s: "\<forall>s \<in> set sels. 0 \<le> ps_page s \<and> ps_page s < int (length (a_current a))" by (drule_tac audio_drop_pages_sels) auto
  have st: "a_started b = a_started a"
    using b(1) audio_drop_pages_spec[OF ok(1), where ps = "[0..<length (a_current a)]" and m = "int m" and sels = "[]"]
    by (auto simp: audio_drop_def same_audio_def split: prod.splits if_splits)
  from assms(2,4) b(1) obtain out where o: "selectPages fails (en_channels e) (en_length e) sels (en_out e) = (None, out)"
    "e' = count_selects (length sels) (e\<lparr>en_policy := Aud b, en_out := out\<rparr>)" by (auto simp: engine_drop_def split: prod.splits)
  note v = selectPages_follows_policy[OF ok(3) s ok(4) o(1), folded b(5)]
  have "int m \<notin> set (o_views out)"
  proof
    assume "int m \<in> set (o_views out)"
    then obtain i where i: "i < length (o_views out)" "o_views out ! i = int m" by (auto simp: in_set_conv_nth)
    let ?n = "length (a_current b)"
    have "i < en_channels e * ?n" using v i(1) by (simp add: audio_views_def)
    then have "i div ?n < en_channels e" "i mod ?n < ?n" by (simp_all add: less_mult_imp_div_less) (metis mod_less_divisor mult_0_right not_less_zero zero_less_iff_neq_zero)
    moreover have "i div ?n * ?n + i mod ?n = i" by simp
    ultimately have "o_views out ! i = a_current b ! (i mod ?n)" using v unfolding audio_views_def by metis
    then show False using b(4) i(2) \<open>i mod ?n < ?n\<close> nth_mem by metis
  qed
  then show ?thesis using assms(1,2) b(2,3) v ok(2,3,5) len(1) st unfolding o(2) by (simp add: serving_def count_selects_def)
qed

lemma drop_serving:
  assumes "serving e" "m < en_members e" "length ms = en_members e" "engine_drop fails ms m e = Inr (None, e')"
  shows "serving e' \<and> int m \<notin> set (o_views (en_out e')) \<and> en_replaced e' = en_replaced e \<and> o_head (en_out e') = o_head (en_out e)"
  using drop_discrete_serving[OF assms(1) _ assms(2-4)] drop_audio_serving[OF assms(1) _ assms(2,4)] by (cases "en_policy e") auto

lemma serving_frame:
  "serving e \<Longrightarrow> serving (e\<lparr>en_out := (en_out e)\<lparr>o_calls := c\<rparr>\<rparr>)" "serving e \<Longrightarrow> serving (e\<lparr>en_replaced := r\<rparr>)"
  "serving e \<Longrightarrow> serving (e\<lparr>en_lastHead := (en_lastHead e)[m := 0]\<rparr>)"
  unfolding serving_def engine_ok_def by (auto split: policy.splits dest: set_update_subset_insert[THEN subsetD])

lemma replace_sources_keeps:
  "replace_sources fails member vs e = (err, e') \<Longrightarrow>
   (serving e \<longrightarrow> serving e') \<and> o_views (en_out e') = o_views (en_out e) \<and> o_head (en_out e') = o_head (en_out e) \<and>
   (err = None \<longrightarrow> en_replaced e' = en_replaced e @ map (\<lambda>v. (v, member)) vs)"
proof (induction vs arbitrary: e)
  case (Cons v vs)
  show ?case
  proof (cases "fails (o_calls (en_out e))")
    case None
    with Cons.prems have "replace_sources fails member vs ((e\<lparr>en_out := (en_out e)\<lparr>o_calls := o_calls (en_out e) + 1\<rparr>\<rparr>)\<lparr>en_replaced := en_replaced e @ [(v, member)]\<rparr>) = (err, e')"
      by (simp add: Let_def)
    from Cons.IH[OF this] show ?thesis using serving_frame(1,2) by fastforce
  qed (use Cons.prems serving_frame(1) in \<open>auto simp: Let_def\<close>)
qed simp

lemma apply_selects_length: "apply_selects fails sel out = Inr (err, out') \<Longrightarrow> length (o_views out') = length (o_views out)"
proof (induction sel arbitrary: out)
  case (Cons s sel)
  let ?out1 = "if sel_index s > u64 (o_head out + 1) then publish (u64 (sel_index s - 1)) out else out"
  obtain e out2 where r: "selectAll fails (sel_slot s) (sel_source s) ?out1 = (e, out2)" by force
  then have "length (o_views out2) = length (o_views ?out1)" by (auto simp: selectAll_def split: option.splits)
  then show ?case using Cons r by (auto simp: Let_def split: if_splits option.splits)
qed simp

lemma engine_drop_views:
  assumes "engine_drop fails ms m e = Inr (err, e')" shows "view_count e' = view_count e \<and> en_replaced e' = en_replaced e"
proof (cases "en_policy e")
  case (Disc d)
  obtain d1 sel where d: "drop_member ms (int m) d = (d1, sel)" by force
  with assms Disc obtain out where "apply_selects fails sel (en_out e) = Inr (err, out)" "e' = count_selects (length sel) (e\<lparr>en_policy := Disc d1, en_out := out\<rparr>)"
    by (cases "apply_selects fails sel (en_out e)") (auto simp: engine_drop_def)
  then show ?thesis using Disc apply_selects_length by (simp add: view_count_def count_selects_def)
qed (use assms in \<open>auto simp: engine_drop_def view_count_def count_selects_def split: sum.splits prod.splits\<close>)

lemma take_ring_spec:
  assumes "serving e" "m < en_members e" "length ms = en_members e" "take_ring fails ms m e = Inr (err, e')"
  shows "(en_replaced e' \<noteq> en_replaced e \<longrightarrow> int m \<notin> set (o_views (en_out e'))) \<and>
    (err = None \<longrightarrow> serving e' \<and> int m \<notin> set (o_views (en_out e')) \<and> o_head (en_out e') = o_head (en_out e) \<and>
       en_replaced e' = en_replaced e @ map (\<lambda>v. (v, m)) [0..<view_count e])"
proof -
  from assms(4) obtain derr e1 where d: "engine_drop fails ms m e = Inr (derr, e1)" by (auto simp: take_ring_def split: sum.splits)
  show ?thesis
  proof (cases derr)
    case None
    note ds = drop_serving[OF assms(1-3) d[unfolded None]]
    obtain rerr e2 where r: "replace_sources fails m [0..<view_count e1] e1 = (rerr, e2)" by force
    note vc = conjunct1[OF engine_drop_views[OF d]]
    from assms(4) d None r have e': "(rerr = None \<and> err = None \<and> e' = e2\<lparr>en_lastHead := (en_lastHead e2)[m := 0]\<rparr>) \<or> (err \<noteq> None \<and> e' = e2)"
      by (auto simp: take_ring_def split: option.splits)
    show ?thesis using replace_sources_keeps[OF r] ds e' serving_frame(3)[of e2 m] unfolding vc by auto
  next
    case (Some x)
    then have "e' = e1" "err = Some x" using assms(4) d by (auto simp: take_ring_def)
    then show ?thesis using engine_drop_views[OF d] by simp
  qed
qed

text \<open>C22. A ring is put in place of another only under views that show neither. In any state a replacement leaves, failed half
  way or not, a view source of the member was replaced only after every slot or page of every view had moved off the
  member; and when it succeeds, the source was replaced in every view and the engine serves on at the same head.\<close>

theorem ring_replaced_under_no_reader:
  assumes "serving e" "m < en_members e" "length ms = en_members e" "take_ring fails ms m e = Inr (err, e')"
  shows "(en_replaced e' \<noteq> en_replaced e \<longrightarrow> int m \<notin> set (o_views (en_out e'))) \<and>
    (err = None \<longrightarrow> serving e' \<and> int m \<notin> set (o_views (en_out e')) \<and> o_head (en_out e') = o_head (en_out e) \<and>
       en_replaced e' = en_replaced e @ map (\<lambda>v. (v, m)) [0..<view_count e])"
  by (rule take_ring_spec[OF assms])

lemma pass_discrete_serving:
  assumes "serving e" "en_policy e = Disc d" "input_ok e i"
  shows "\<exists>e' err w. run_pass i e = Inr (e', err, w) \<and> (err = None \<longrightarrow> serving e' \<and> head_published e')"
proof -
  have ok: "engine_ok (en_members e) d (en_out e)" "d_head d < 2 ^ 63" "0 < en_members e" using assms(1,2) by (simp_all add: serving_def)
  have inp: "length (in_members i) = en_members e" "length (in_again i) = en_members e" "heads_ok (in_members i)" "lead_of (in_members i) < 2 ^ 63" "0 \<le> in_due i"
    using assms(3) by (simp_all add: input_ok_def)
  have wf: "wf_discrete (en_members e) d" using ok(1) by (simp add: engine_ok_def)
  obtain d1 new w1 d2 rs where "step (in_members i) (in_now i) d = Inr (d1, new, w1)" "retire (in_again i) (in_due i) d1 = Inr (d2, rs)"
    "decided (in_members i) (in_again i) (en_members e) d new d1 rs" "d_head d2 = d_head d1"
    by (rule pass_decides[OF wf inp(1-3) ok(3) inp(4) ok(2) inp(5)])
  then have head: "discrete_pass (in_fails i) (in_now i) (in_members i) (in_due i) (in_again i) d (en_out e) = Inr (d', out', err, w, k) \<Longrightarrow> d_head d' < 2 ^ 63"
    for d' out' err w k by (auto simp: discrete_pass_def decided_def split: sum.splits prod.splits if_splits)
  from discrete_pass_spec[OF ok(1) inp(1-3) ok(3) inp(4) ok(2) inp(5), of "in_fails i" "in_now i"]
  obtain d' out' err w k where r: "discrete_pass (in_fails i) (in_now i) (in_members i) (in_due i) (in_again i) d (en_out e) = Inr (d', out', err, w, k)"
    "err = None \<longrightarrow> engine_ok (en_members e) d' out'" by blast
  then have "run_pass i e = Inr (count_selects k (e\<lparr>en_policy := Disc d', en_out := out'\<rparr>), err, w)" using assms(2) by (simp add: run_pass_def)
  moreover have "err = None \<longrightarrow> serving (count_selects k (e\<lparr>en_policy := Disc d', en_out := out'\<rparr>)) \<and>
      head_published (count_selects k (e\<lparr>en_policy := Disc d', en_out := out'\<rparr>))"
    using assms(1) r(2) head[OF r(1)] by (simp add: serving_def count_selects_def head_published_def engine_ok_def)
  ultimately show ?thesis by blast
qed

lemma committed_frame:
  assumes "committed m start end a = Inr b"
  shows "a_current b = a_current a" "a_started b" "a_started a \<Longrightarrow> a_head b = a_head a"
  using assms by (simp_all add: committed_def Let_def split: if_split_asm, auto)

lemma follow_wf:
  assumes "length hs = length ls" "\<forall>h \<in> set hs. in_u64 h" "\<forall>l \<in> set ls. 0 \<le> l" "i + length hs \<le> n" "wf_audio n a" "h0 = a_head a \<or> h0 = 0" "a_started a \<or> a_head a = 0"
  shows "\<exists>b ls'. follow e i hs ls a = Inr (b, ls') \<and> wf_audio n b \<and> length ls' = length ls \<and> (\<forall>l \<in> set ls'. 0 \<le> l) \<and>
    a_current b = a_current a \<and> (h0 = a_head b \<or> h0 = 0) \<and> (a_started b \<or> a_head b = 0)"
  using assms
proof (induction hs ls arbitrary: i a rule: list_induct2)
  case (Cons h hs l ls)
  let ?c = "if h > l \<and> l \<noteq> 0 \<and> \<not> fed e i then committed i l h a else Inr a"
  have "\<exists>a1. ?c = Inr a1 \<and> wf_audio n a1 \<and> a_current a1 = a_current a \<and> (h0 = a_head a1 \<or> h0 = 0) \<and> (a_started a1 \<or> a_head a1 = 0)"
  proof (cases "h > l \<and> l \<noteq> 0 \<and> \<not> fed e i")
    case True
    from committed_wf[OF Cons.prems(4), of i l h] Cons.prems(1,2,3) obtain a1 where a1: "committed i l h a = Inr a1" "wf_audio n a1" by auto
    then have "a_current a1 = a_current a" "h0 = a_head a1 \<or> h0 = 0" "a_started a1 \<or> a_head a1 = 0"
      using Cons.prems(5,6) committed_frame[OF a1(1)] by (auto simp: wf_audio_def)
    then show ?thesis using True a1 by auto
  qed (use Cons.prems in auto)
  then obtain a1 where a1: "?c = Inr a1" "wf_audio n a1" "a_current a1 = a_current a" "h0 = a_head a1 \<or> h0 = 0" "a_started a1 \<or> a_head a1 = 0" by blast
  have "\<exists>b ls'. follow e (i + 1) hs ls a1 = Inr (b, ls') \<and> wf_audio n b \<and> length ls' = length ls \<and> (\<forall>l \<in> set ls'. 0 \<le> l) \<and>
    a_current b = a_current a1 \<and> (h0 = a_head b \<or> h0 = 0) \<and> (a_started b \<or> a_head b = 0)"
    by (rule Cons.IH) (use Cons.prems a1 in auto)
  then obtain b ls' where ih: "follow e (i + 1) hs ls a1 = Inr (b, ls')" "wf_audio n b" "length ls' = length ls" "\<forall>l \<in> set ls'. 0 \<le> l"
    "a_current b = a_current a1" "h0 = a_head b \<or> h0 = 0" "a_started b \<or> a_head b = 0" by blast
  have "follow e i (h # hs) (l # ls) a = Inr (b, max h l # ls')" using a1(1) ih(1) by (auto split: if_splits)
  then show ?case using ih a1(3) Cons.prems(1,2) by auto
qed simp

lemma audio_step_frame:
  assumes "wf_audio n a"
  shows "\<exists>b sels w. audio_step now a = Inr (b, sels, w) \<and> wf_audio n b \<and> same_audio a b \<and> a_head a \<le> a_head b \<and>
     a_current b = replay_pages sels (a_current a) \<and> (\<forall>s \<in> set sels. 0 \<le> ps_page s \<and> ps_page s < int (length (a_current a)))"
proof -
  have "pages_true a (audio_lead a) (a_head a)" by (simp add: pages_true_def)
  from audio_loop_spec[OF assms order.refl this, of now "[]"]
  obtain b sels w where r: "audio_step now a = Inr (b, sels, w)" "wf_audio n b" "same_audio a b" "a_head a \<le> a_head b" "a_current b = replay_pages sels (a_current a)"
    by (auto simp: audio_step_def)
  then have "\<forall>s \<in> set sels. 0 \<le> ps_page s \<and> ps_page s < int (length (a_current a))"
    using audio_loop_sels[OF r(1)[unfolded audio_step_def]] assms by (auto simp: wf_audio_def)
  then show ?thesis using r by blast
qed

lemma pass_audio_serving:
  assumes "serving e" "en_policy e = Aud a0" "input_ok e i"
  shows "\<exists>e' err w. run_pass i e = Inr (e', err, w) \<and> (err = None \<longrightarrow> serving e' \<and> head_published e')"
proof -
  let ?n = "en_members e" and ?out = "en_out e"
  have ok: "wf_audio ?n a0" "o_head ?out = a_head a0 \<or> o_head ?out = 0" "a_started a0 \<or> a_head a0 = 0"
    "audio_layout (en_channels e) (en_length e) (length (a_current a0))" "audio_views (en_channels e) (a_current a0) (o_views ?out)"
    using assms(1,2) by (simp_all add: serving_def)
  have "\<exists>b ls'. follow e 0 (in_heads i) (en_lastHead e) a0 = Inr (b, ls') \<and> wf_audio ?n b \<and> length ls' = length (en_lastHead e) \<and> (\<forall>l \<in> set ls'. 0 \<le> l) \<and>
    a_current b = a_current a0 \<and> (o_head ?out = a_head b \<or> o_head ?out = 0) \<and> (a_started b \<or> a_head b = 0)"
    by (rule follow_wf) (use assms(1,3) ok in \<open>auto simp: input_ok_def serving_def\<close>)
  then obtain a lh where f: "follow e 0 (in_heads i) (en_lastHead e) a0 = Inr (a, lh)" "wf_audio ?n a" "length lh = length (en_lastHead e)" "\<forall>l \<in> set lh. 0 \<le> l"
    "a_current a = a_current a0" "o_head ?out = a_head a \<or> o_head ?out = 0" "a_started a \<or> a_head a = 0" by blast
  obtain a1 sel w where s: "audio_step (in_now i) a = Inr (a1, sel, w)" "wf_audio ?n a1" "same_audio a a1" "a_head a \<le> a_head a1"
    "a_current a1 = replay_pages sel (a_current a)" "\<forall>s \<in> set sel. 0 \<le> ps_page s \<and> ps_page s < int (length (a_current a))"
    using audio_step_frame[OF f(2)] by blast
  obtain a2 sel' where r: "audio_retire (in_due i) a1 = Inr (a2, sel')" "wf_audio ?n a2" "same_audio a1 a2" "a_head a2 = a_head a1"
    "a_current a2 = replay_pages sel' (a_current a1)" "\<forall>s \<in> set sel'. 0 \<le> ps_page s \<and> ps_page s < a_pages a1"
    using audio_retire_frame[OF s(2)] by blast
  have len: "a_pages a1 = int (length (a_current a0))" "length (a_current a2) = length (a_current a0)" "a_started a2 = a_started a"
    using s(3,5) r(3,5) f(2,5) by (simp_all add: same_audio_def wf_audio_def)
  obtain err out where p: "selectPages (in_fails i) (en_channels e) (en_length e) (sel @ sel') ?out = (err, out)" by force
  let ?out' = "if err = None \<and> a_head a1 > o_head out then publish (a_head a1) out else out"
  let ?e = "count_selects (length (sel @ sel')) (e\<lparr>en_policy := Aud a2, en_lastHead := lh, en_out := ?out'\<rparr>)"
  have run: "run_pass i e = Inr (?e, err, w)" using assms(2) f(1) s(1) r(1) p by (simp add: run_pass_def audio_pass_def)
  have "serving ?e \<and> head_published ?e" if "err = None"
  proof -
    have pages: "\<forall>s \<in> set (sel @ sel'). 0 \<le> ps_page s \<and> ps_page s < int (length (a_current a0))" using s(6) r(6) len(1) f(5) by auto
    have "audio_views (en_channels e) (a_current a2) (o_views out) \<and> o_head out = o_head ?out"
      using selectPages_follows_policy[OF ok(4) pages ok(5) p[unfolded that]] s(5) r(5) f(5) by simp
    moreover have "\<not> a_started a \<Longrightarrow> a_head a1 = a_head a" using s(1) by (auto simp: audio_step_def audio_loop.simps)
    moreover have "0 \<le> a_head a" using f(2) by (simp add: wf_audio_def)
    then have "o_head ?out \<le> a_head a1" using f(6) s(4) by auto
    ultimately show ?thesis using assms(1) f(3,4,7) s(4) r(2,4) len(2,3) ok(4) that
      by (auto simp: serving_def head_published_def count_selects_def)
  qed
  then show ?thesis using run by blast
qed

lemma arrival_serving:
  assumes "serving e" "m < en_members e" "0 \<le> start" "in_u64 end" "0 \<le> head"
  shows "\<exists>e'. engine_committed m start end head e = Inr e' \<and> serving e' \<and> en_out e' = en_out e"
proof (cases "en_policy e")
  case (Aud a)
  let ?feeds = "case en_feeds e of None \<Rightarrow> replicate (en_members e) False | Some fs \<Rightarrow> fs"
  have feeds: "length ?feeds = en_members e" using assms(1) by (auto simp: serving_def split: option.splits)
  have ok: "wf_audio (en_members e) a" "a_started a \<or> a_head a = 0" "o_head (en_out e) = a_head a \<or> o_head (en_out e) = 0" using assms(1) Aud by (simp_all add: serving_def)
  have "in_u64 (min end head)" using assms(4,5) by auto
  from committed_wf[OF ok(1) assms(2,3) this] obtain a' where a': "committed m start (min end head) a = Inr a'" "wf_audio (en_members e) a'" by blast
  note fr = committed_frame[OF a'(1)]
  have "o_head (en_out e) = a_head a' \<or> o_head (en_out e) = 0" using fr(3) ok(2,3) by auto
  then show ?thesis using Aud assms(1,2) feeds a' fr(1,2)
    by (cases "start < min end head") (auto simp: engine_committed_def Let_def serving_def simp del: min_less_iff_conj)
qed (use assms in \<open>auto simp: engine_committed_def\<close>)

lemma engine_turn_serving: "engine_turn e e' \<Longrightarrow> serving e \<Longrightarrow> serving e'"
proof (induction rule: engine_turn.induct)
  case (pass e i e' w)
  then show ?case using pass_discrete_serving[of e _ i] pass_audio_serving[of e _ i] by (cases "en_policy e") fastforce+
next
  case (arrival m e start "end" head e')
  then show ?case using arrival_serving[OF arrival.prems arrival.hyps(1-4)] by auto
next
  case (replacement m e ms fails e')
  then show ?case using take_ring_spec[OF replacement.prems replacement.hyps] by simp
qed

text \<open>C17. However passes, arrivals and replacements follow each other, none of them failing at the kernel, the output shows
  what the policy says: every turn from a state the engine was built in leaves the engine serving, which is to say
  that for a discrete flow the published head is the policy's head and each view the policy's source, and for audio
  that in every channel each page shows the policy's source and the published head is the policy's, or 0 while nothing
  has been published. A pass and an arrival always return: they neither panic nor index out of range; and after
  a pass in which no ioctl failed the published head is the policy's, for audio too.\<close>

theorem engine_always_serves:
  assumes "engine_runs e0 e" "serving e0"
  shows "serving e \<and>
    (input_ok e i \<longrightarrow> (\<exists>e' err w. run_pass i e = Inr (e', err, w) \<and> (err = None \<longrightarrow> serving e' \<and> head_published e'))) \<and>
    (m < en_members e \<and> 0 \<le> start \<and> in_u64 end \<and> 0 \<le> head \<longrightarrow> (\<exists>e'. engine_committed m start end head e = Inr e'))"
proof -
  from assms have s: "serving e" by (induction rule: engine_runs.induct) (auto dest: engine_turn_serving)
  then show ?thesis
    using pass_discrete_serving[OF s] pass_audio_serving[OF s] arrival_serving[OF s] by (cases "en_policy e") blast+
qed

subsection \<open>When the next pass is\<close>

text \<open>The clock of libmxl at the flow's rate: the index of a time, and the time of an index.\<close>

record mxl_clock =
  clk_index :: "uint64 \<Rightarrow> uint64"
  clk_time :: "uint64 \<Rightarrow> uint64"

definition maxSleep :: duration where "maxSleep = 20 * millisecond"
definition maxRetireGuard :: duration where "maxRetireGuard = 3 * millisecond"

definition retireGuard :: "duration \<Rightarrow> duration" where
  "retireGuard period = min maxRetireGuard (quot64 period 4)"

definition retireDue :: "mxl_clock \<Rightarrow> uint64 \<Rightarrow> duration \<Rightarrow> uint64 \<times> duration" where
  "retireDue clk now guard =
     (let t = u64 (now + u64 guard); due0 = clk_index clk t;
          due = (if clk_time clk due0 > t then u64 (due0 - 1) else due0)
      in (due, i64 (u64 (clk_time clk (u64 (due + 1)) - t))))"

text \<open>How long the loop waits after a pass: until the next boundary less the guard for a discrete flow, until the policy's wait
  if that is sooner, and never longer than \<open>maxSleep\<close>.\<close>

definition pass_timeout :: "duration option \<Rightarrow> duration \<Rightarrow> duration" where
  "pass_timeout nxt wait =
     (let timeout = (case nxt of None \<Rightarrow> maxSleep | Some n \<Rightarrow> min maxSleep n)
      in if wait > 0 \<and> wait < timeout then wait else timeout)"

text \<open>libmxl rounds a time to the nearest index, and times of indices increase.\<close>

definition clock_ok :: "mxl_clock \<Rightarrow> bool" where
  "clock_ok clk \<longleftrightarrow> clk_time clk 0 = 0 \<and> (\<forall>i j. i < j \<longrightarrow> clk_time clk i < clk_time clk j) \<and>
     (\<forall>t. 0 \<le> t \<longrightarrow> 0 \<le> clk_index clk t \<and> (\<forall>j. 0 \<le> j \<longrightarrow> \<bar>clk_time clk (clk_index clk t) - t\<bar> \<le> \<bar>clk_time clk j - t\<bar>))"

text \<open>C3. A pass retires up to the index whose period the clock is in a guard from now: that index begins no later than the
  guard from now and the one after it begins later; and the next pass is a guard before the boundary between them, a
  positive time away. The loop never waits longer than that, nor than \<open>maxSleep\<close>.\<close>

theorem retireDue_is_the_current_period:
  assumes "clock_ok clk" "0 \<le> now" "0 \<le> guard" "now + guard < 2 ^ 62" "clk_time clk (clk_index clk (now + guard) + 1) < 2 ^ 63" "clk_index clk (now + guard) < 2 ^ 62"
    and "retireDue clk now guard = (due, nxt)"
  shows "0 \<le> due \<and> clk_time clk due \<le> now + guard \<and> now + guard < clk_time clk (due + 1) \<and> nxt = clk_time clk (due + 1) - (now + guard) \<and>
    0 < pass_timeout (Some nxt) wait \<and> pass_timeout (Some nxt) wait \<le> nxt \<and> pass_timeout (Some nxt) wait \<le> maxSleep"
proof -
  let ?t = "now + guard" and ?i = "clk_index clk (now + guard)" and ?T = "clk_time clk"
  have mono: "i < j \<Longrightarrow> ?T i < ?T j" for i j using assms(1) by (simp add: clock_ok_def)
  have near: "0 \<le> ?i" "0 \<le> j \<Longrightarrow> \<bar>?T ?i - ?t\<bar> \<le> \<bar>?T j - ?t\<bar>" for j using assms(1,2,3) by (simp_all add: clock_ok_def)
  have T0: "?T 0 = 0" using assms(1) by (simp add: clock_ok_def)
  define d where "d = (if ?T ?i > ?t then ?i - 1 else ?i)"
  have pos: "?T ?i > ?t \<Longrightarrow> 0 < ?i" using T0 near(1) assms(2,3) by (cases "?i = 0") auto
  have d: "0 \<le> d" "?T d \<le> ?t" "?t < ?T (d + 1)" "d < 2 ^ 62"
    using pos near(1) near(2)[of "?i - 1"] near(2)[of "?i + 1"] mono[of "?i - 1" ?i] mono[of ?i "?i + 1"] assms(6) unfolding d_def by auto
  have t: "u64 (now + u64 guard) = ?t" using assms(2-4) by simp
  have due: "due = d" "nxt = i64 (u64 (?T (u64 (d + 1)) - ?t))"
    using assms(7) pos near(1) assms(6) unfolding retireDue_def t Let_def d_def by auto
  have "?T (d + 1) \<le> ?T (?i + 1)" using mono[of ?i "?i + 1"] unfolding d_def by auto
  then have "u64 (d + 1) = d + 1" "?T (d + 1) < 2 ^ 63" using d assms(5) by auto
  then have nxt: "nxt = ?T (d + 1) - ?t" "0 < nxt" using due(2) d(3) assms(2,3) by (simp_all add: i64_def)
  then show ?thesis using due(1) d by (auto simp: pass_timeout_def Let_def maxSleep_def millisecond_def)
qed

text \<open>A clock of 50 grains a second.\<close>

definition clock50 :: mxl_clock where
  "clock50 = \<lparr>clk_index = (\<lambda>t. (t + 10000000) div 20000000), clk_time = (\<lambda>i. i * 20000000)\<rparr>"

lemma clock50_ok: "clock_ok clock50"
proof -
  have "\<bar>(t + 10000000) div 20000000 * 20000000 - t\<bar> \<le> \<bar>j * 20000000 - t\<bar>" for t j :: int
  proof -
    let ?q = "(t + 10000000) div 20000000"
    have q: "?q * 20000000 \<le> t + 10000000" "t + 10000000 < ?q * 20000000 + 20000000"
      using div_mult_mod_eq[of "t + 10000000" 20000000] pos_mod_sign[of 20000000 "t + 10000000"] pos_mod_bound[of 20000000 "t + 10000000"] by linarith+
    show ?thesis
    proof (cases "j = ?q")
      case False
      then have "j + 1 \<le> ?q \<or> ?q + 1 \<le> j" by linarith
      then show ?thesis using q by linarith
    qed simp
  qed
  then show ?thesis by (simp add: clock_ok_def clock50_def pos_imp_zdiv_nonneg_iff)
qed

theorem retireDue_is_the_current_period_witness:
  "retireDue clock50 1000000000 3000000 = (50, 17000000) \<and> clk_time clock50 50 \<le> 1003000000 \<and> 1003000000 < clk_time clock50 51 \<and>
   pass_timeout (Some 17000000) 0 \<le> maxSleep"
proof -
  have r: "retireDue clock50 1000000000 3000000 = (50, 17000000)" by code_simp
  show ?thesis using retireDue_is_the_current_period[OF clock50_ok _ _ _ _ _ r, of 0] r by (simp add: clock50_def)
qed

subsection \<open>Which rings can be merged\<close>

text \<open>What a flow's header says of its ring; \<open>formatAudio\<close> is libmxl's number of the audio format.\<close>

record ring_header =
  rh_format :: int
  rh_num :: int
  rh_den :: int
  rh_grains :: int
  rh_channels :: int
  rh_length :: int

definition layout :: "int \<Rightarrow> ring_header \<Rightarrow> string" where
  "layout formatAudio h =
     (if rh_format h = formatAudio
      then ''format '' @ show_int (rh_format h) @ '' at '' @ show_int (rh_num h) @ ''/'' @ show_int (rh_den h) @ '', '' @
           show_int (rh_channels h) @ '' channels of '' @ show_int (rh_length h) @ '' samples''
      else ''format '' @ show_int (rh_format h) @ '' at '' @ show_int (rh_num h) @ ''/'' @ show_int (rh_den h) @ '', '' @
           show_int (rh_grains h) @ '' grains'')"

definition aligned :: "int \<Rightarrow> ring_header \<Rightarrow> ring_header \<Rightarrow> bool" where
  "aligned formatAudio ref m =
     (if rh_format m \<noteq> rh_format ref \<or> rh_num m \<noteq> rh_num ref \<or> rh_den m \<noteq> rh_den ref then False
      else if rh_format ref = formatAudio then rh_channels m = rh_channels ref \<and> rh_length m = rh_length ref
      else rh_grains m = rh_grains ref)"

fun check_rest :: "int \<Rightarrow> string \<Rightarrow> ring_header \<Rightarrow> (string \<times> ring_header) list \<Rightarrow> go_error + unit" where
  "check_rest formatAudio id0 m0 [] = Inr ()"
| "check_rest formatAudio id0 m0 ((mid, m) # ms) =
     (if \<not> aligned formatAudio m0 m
      then Inl (EOther (''member '' @ mid @ '' has '' @ layout formatAudio m @ '', '' @ id0 @ '' '' @ layout formatAudio m0))
      else check_rest formatAudio id0 m0 ms)"

fun checkAligned :: "int \<Rightarrow> (string \<times> ring_header) list \<Rightarrow> go_error + unit" where
  "checkAligned formatAudio [] = Inl index_panic"
| "checkAligned formatAudio ((id0, m0) # ms) = check_rest formatAudio id0 m0 ms"

definition maxSources :: nat where "maxSources = 8"

text \<open>What \<^verbatim>\<open>Start\<close> checks before it builds the output, the members' headers having been mapped.\<close>

definition start_check :: "int \<Rightarrow> (string \<times> ring_header) list \<Rightarrow> go_error + unit" where
  "start_check formatAudio ms =
     (if length ms < 1 \<or> length ms > maxSources - 1
      then Inl (EOther (show_nat (length ms) @ '' members; 1 to '' @ show_nat (maxSources - 1)))
      else checkAligned formatAudio ms)"

text \<open>Two rings are aligned exactly when their layouts read the same, whatever the numbers in their headers: the text
  the engine reports, and the reconciler compares, separates all that alignment compares. So members pass the check
  exactly when they all have the first one's layout, and there are one to seven of them.\<close>

theorem aligned_iff_layout:
  "(aligned fa a b \<longleftrightarrow> layout fa a = layout fa b) \<and>
   (start_check fa ms = Inr () \<longleftrightarrow> 1 \<le> length ms \<and> length ms \<le> 7 \<and> list_all (\<lambda>m. layout fa (snd m) = layout fa (snd (hd ms))) ms)"
proof -
  have al: "aligned fa a b \<longleftrightarrow> layout fa a = layout fa b" for fa a b by (auto simp: aligned_def layout_def dest: show_int_inj)
  have "check_rest fa i m rest = Inr () \<longleftrightarrow> (\<forall>x \<in> set rest. layout fa (snd x) = layout fa m)" for i m rest
    by (induction fa i m rest rule: check_rest.induct) (auto simp: al)
  then have "start_check fa ms = Inr () \<longleftrightarrow> 1 \<le> length ms \<and> length ms \<le> 7 \<and> list_all (\<lambda>m. layout fa (snd m) = layout fa (snd (hd ms))) ms"
    by (cases ms) (force simp: start_check_def maxSources_def list_all_iff)+
  with al show ?thesis by blast
qed

subsection \<open>Two members of a ring of four grains\<close>

definition demo_engine :: Engine where
  "demo_engine = (built_discrete 2 4 False False 0 20000000)\<lparr>en_policy := Disc demo_served, en_out := \<lparr>o_head = 9, o_views = [0, 1, 2, 2], o_calls = 0, o_seen = []\<rparr>\<rparr>"

definition demo_turn :: "(nat \<Rightarrow> go_error option) \<Rightarrow> turn_input" where
  "demo_turn fails = \<lparr>in_fails = fails, in_now = 0, in_members = demo_members, in_again = demo_members, in_heads = [8, 9], in_due = 9\<rparr>"

lemma demo_engine_serving: "serving demo_engine"
  using demo_ok(2) by (simp add: serving_def demo_engine_def built_discrete_def engine_ok_def demo_served_def demo_discrete_def newDiscrete_def numeral_2_eq_2)

theorem ring_replaced_under_no_reader_witness:
  "\<exists>e'. take_ring (\<lambda>_. None) demo_members 1 demo_engine = Inr (None, e') \<and> o_views (en_out e') = [0, 2, 2, 2] \<and> (1::int) \<notin> set (o_views (en_out e')) \<and>
     en_replaced e' = map (\<lambda>v. (v, 1)) [0..<view_count demo_engine]"
proof -
  have c: "map_sum id (\<lambda>(err, e). (err, o_views (en_out e))) (take_ring (\<lambda>_. None) demo_members 1 demo_engine) = Inr (None, [0, 2, 2, 2])"
    "en_replaced demo_engine = []" "en_members demo_engine = 2" by code_simp+
  then obtain e' where r: "take_ring (\<lambda>_. None) demo_members 1 demo_engine = Inr (None, e')" "o_views (en_out e') = [0, 2, 2, 2]"
    by (cases "take_ring (\<lambda>_. None) demo_members 1 demo_engine") auto
  then show ?thesis using ring_replaced_under_no_reader[OF demo_engine_serving _ _ r(1)] c(2,3) demo_ok(3) by simp
qed

theorem engine_always_serves_witness:
  "\<exists>e. engine_runs (built_discrete 2 4 False False 0 20000000) e \<and> o_head (en_out e) = 9 \<and> o_views (en_out e) = [2, 1, 2, 2] \<and> serving e"
proof -
  let ?e0 = "built_discrete 2 4 False False 0 20000000" and ?i = "demo_turn (\<lambda>_. None)"
  have s0: "serving ?e0" by (rule built_discrete_serving) simp_all
  have c: "map_sum id (\<lambda>(e, err, _). (o_head (en_out e), o_views (en_out e), err)) (run_pass ?i ?e0) = Inr (9, [2, 1, 2, 2], None)" by code_simp
  then obtain e w where e: "run_pass ?i ?e0 = Inr (e, None, w)" "o_head (en_out e) = 9" "o_views (en_out e) = [2, 1, 2, 2]"
    by (cases "run_pass ?i ?e0") auto
  have "input_ok ?e0 ?i" using demo_ok(3,4,5) by (simp add: input_ok_def demo_turn_def built_discrete_def)
  then have r: "engine_runs ?e0 e" using e(1) by (meson engine_runs.intros engine_turn.pass)
  show ?thesis using conjunct1[OF engine_always_serves[OF r s0]] r e by blast
qed

text \<open>The hypothesis that no select fails is needed. The policy counts a slot as moved once it has returned the select, and
  the loop only logs one that failed: it is not made again. Here the first of two selects fails at one pass; the
  next pass, with the same members and no failure, publishes both indices, with the view of the first
  still at the INVALID grain while the policy says member 0.\<close>

lemma okE: "(case x of Inl e \<Rightarrow> False | Inr (a, b, c) \<Rightarrow> Q a b c) \<Longrightarrow> (\<And>a b c. x = Inr (a, b, c) \<Longrightarrow> Q a b c \<Longrightarrow> P) \<Longrightarrow> P"
  by (auto split: sum.splits)

lemma failed_select_is_not_made_again:
  "\<exists>e1 e2 err d. serving (demo_engine\<lparr>en_policy := Disc demo_discrete, en_out := demo_out\<rparr>) \<and>
     run_pass (demo_turn (\<lambda>k. if k = 0 then Some (EOther ''EIO'') else None)) (demo_engine\<lparr>en_policy := Disc demo_discrete, en_out := demo_out\<rparr>) = Inr (e1, Some err, 0) \<and>
     run_pass (demo_turn (\<lambda>_. None)) e1 = Inr (e2, None, 0) \<and> en_policy e2 = Disc d \<and>
     o_head (en_out e2) = 9 \<and> serves d (demo_members ! 0) 8 \<and> shown d 8 = 0 \<and> o_views (en_out e2) ! nat (8 mod d_grains d) = 2"
proof -
  let ?e = "demo_engine\<lparr>en_policy := Disc demo_discrete, en_out := demo_out\<rparr>"
  let ?r1 = "run_pass (demo_turn (\<lambda>k. if k = 0 then Some (EOther ''EIO'') else None)) ?e"
  have s: "serving ?e"
    using demo_ok(1) by (simp add: serving_def demo_engine_def built_discrete_def engine_ok_def demo_out_def demo_discrete_def newDiscrete_def numeral_eq_Suc)
  have "case ?r1 of Inl _ \<Rightarrow> False | Inr (e1, err, w1) \<Rightarrow>
       (case run_pass (demo_turn (\<lambda>_. None)) e1 of Inl _ \<Rightarrow> False | Inr (e2, err2, w2) \<Rightarrow>
          err \<noteq> None \<and> err2 = None \<and> w1 = 0 \<and> w2 = 0 \<and> o_head (en_out e2) = 9 \<and>
          (case en_policy e2 of Disc d \<Rightarrow> serves d (demo_members ! 0) 8 \<and> shown d 8 = 0 \<and> o_views (en_out e2) ! nat (8 mod d_grains d) = 2 | Aud _ \<Rightarrow> False))"
    by code_simp
  then obtain e1 err w1 e2 err2 w2 where r: "?r1 = Inr (e1, err, w1)" "run_pass (demo_turn (\<lambda>_. None)) e1 = Inr (e2, err2, w2)"
    "err \<noteq> None \<and> err2 = None \<and> w1 = 0 \<and> w2 = 0 \<and> o_head (en_out e2) = 9 \<and>
     (case en_policy e2 of Disc d \<Rightarrow> serves d (demo_members ! 0) 8 \<and> shown d 8 = 0 \<and> o_views (en_out e2) ! nat (8 mod d_grains d) = 2 | Aud _ \<Rightarrow> False)"
    by (elim okE)
  then obtain d where "en_policy e2 = Disc d" "serves d (demo_members ! 0) 8" "shown d 8 = 0" "o_views (en_out e2) ! nat (8 mod d_grains d) = 2"
    by (cases "en_policy e2") simp_all
  with r show ?thesis using s by blast
qed

end
