(* ===== verification/Merge_Progress.thy ===== *)
theory Merge_Progress
  imports Mxl_Prelude
begin

section \<open>Which members stand still (gateway/internal/merge/progress.go)\<close>

text \<open>
  A member of a merge whose head stands still is reported stalled, and moving again once it moved steadily for a while. Modelled
  are \<^verbatim>\<open>progress\<close> and its operations; the parallel slices of the Go struct are one list of members. A zero
  \<^verbatim>\<open>time.Time\<close> is \<open>None\<close>: it lies so far back that subtracting it saturates. The clock is the monotonic one: it
  never goes back between two observations.

  Shown: the loop hears of a change exactly when what \<^verbatim>\<open>stalled\<close> returns changes; a stalled member is not reported moving before
  it moved for \<open>RecoverAfter\<close>, and when it then stalls again at least half a stall window has passed, so that it changes
  state at most twice in \<open>RecoverAfter\<close> plus half its window; a member that moves steadily is reported moving
  after \<open>RecoverAfter\<close>; one that stands still is reported after its window.
\<close>

definition StallAfter :: duration where "StallAfter = 2 * second"
definition stallGrains :: int where "stallGrains = 3"
definition StartGrace :: duration where "StartGrace = 10 * second"
definition RecoverAfter :: duration where "RecoverAfter = 5 * second"

definition stallWindow :: "duration \<Rightarrow> duration" where
  "stallWindow period = max StallAfter (mul64 stallGrains period)"

record member_progress =
  mp_head :: int
  mp_moved :: "time option"
  mp_steady :: "time option"
  mp_known :: bool
  mp_stall :: bool

record progress =
  pg_window :: duration
  pg_start :: time
  pg_members :: "member_progress list"

definition newProgress :: "int list \<Rightarrow> time \<Rightarrow> duration \<Rightarrow> progress" where
  "newProgress heads now window = \<lparr>pg_window = window, pg_start = now,
     pg_members = map (\<lambda>h. \<lparr>mp_head = h, mp_moved = None, mp_steady = None, mp_known = False, mp_stall = False\<rparr>) heads\<rparr>"

text \<open>\<open>reported\<close> has an entry for each member, as the caller makes it.\<close>

definition stalledFrom :: "bool list \<Rightarrow> progress \<Rightarrow> progress" where
  "stalledFrom reported p = p\<lparr>pg_members := map2 (\<lambda>m r. m\<lparr>mp_known := r, mp_stall := r\<rparr>) (pg_members p) reported\<rparr>"

definition since :: "time \<Rightarrow> time option \<Rightarrow> duration" where
  "since now t = (case t of None \<Rightarrow> maxInt64 | Some u \<Rightarrow> time_sub now u)"

definition note_head :: "duration \<Rightarrow> time \<Rightarrow> int \<Rightarrow> member_progress \<Rightarrow> member_progress" where
  "note_head window now h m =
     (if h \<noteq> mp_head m
      then m\<lparr>mp_steady := (if mp_stall m \<and> since now (mp_moved m) \<ge> quot64 window 2 then Some now else mp_steady m),
             mp_head := h, mp_moved := Some now\<rparr>
      else m)"

definition judge_member :: "duration \<Rightarrow> time \<Rightarrow> time \<Rightarrow> member_progress \<Rightarrow> bool \<times> bool" where
  "judge_member window start now m =
     (if mp_known m \<and> mp_stall m
      then let moving = mp_moved m \<noteq> None \<and> since now (mp_moved m) < quot64 window 2
           in (True, \<not> moving \<or> since now (mp_steady m) < RecoverAfter)
      else if mp_moved m \<noteq> None then (True, since now (mp_moved m) \<ge> window)
      else if time_sub now start \<ge> StartGrace then (True, True)
      else (False, mp_stall m))"

definition observe_member :: "duration \<Rightarrow> time \<Rightarrow> time \<Rightarrow> int \<Rightarrow> member_progress \<Rightarrow> member_progress" where
  "observe_member window start now h m =
     (let m1 = note_head window now h m
      in case judge_member window start now m1 of (known, stall) \<Rightarrow> m1\<lparr>mp_known := known, mp_stall := stall\<rparr>)"

definition observe :: "int list \<Rightarrow> time \<Rightarrow> progress \<Rightarrow> (bool \<times> progress) option" where
  "observe heads now p =
     (if length heads > length (pg_members p) then None
      else let ms = map2 (observe_member (pg_window p) (pg_start p) now) heads (pg_members p);
               rest = drop (length heads) (pg_members p)
           in Some (list_ex (\<lambda>(m, m'). mp_known m' \<noteq> mp_known m \<or> mp_stall m' \<noteq> mp_stall m) (zip (pg_members p) ms),
                    p\<lparr>pg_members := ms @ rest\<rparr>))"

definition stalled :: "progress \<Rightarrow> nat list \<times> nat list" where
  "stalled p =
     (filter (\<lambda>i. mp_known (pg_members p ! i) \<and> mp_stall (pg_members p ! i)) [0..<length (pg_members p)],
      filter (\<lambda>i. \<not> mp_known (pg_members p ! i)) [0..<length (pg_members p)])"

subsection \<open>What the loop hears of\<close>

lemma stallWindow_ge: "StallAfter \<le> stallWindow period"
  by (simp add: stallWindow_def)

text \<open>A member reported stalled is decided, and one decided as moving has moved.\<close>

definition judged_ok :: "member_progress \<Rightarrow> bool" where
  "judged_ok m \<longleftrightarrow> (mp_stall m \<longrightarrow> mp_known m) \<and> (mp_known m \<and> \<not> mp_stall m \<longrightarrow> mp_moved m \<noteq> None)"

lemma newProgress_ok: "list_all judged_ok (pg_members (newProgress heads now window))"
  by (simp add: newProgress_def judged_ok_def list_all_iff)

lemma stalledFrom_ok: "list_all judged_ok (pg_members p) \<Longrightarrow> length reported = length (pg_members p) \<Longrightarrow> list_all judged_ok (pg_members (stalledFrom reported p))"
  by (auto simp: stalledFrom_def judged_ok_def list_all_length)

lemma observe_member_ok: "judged_ok m \<Longrightarrow> judged_ok (observe_member window start now h m)"
  by (auto simp: judged_ok_def observe_member_def note_head_def judge_member_def Let_def)

lemma stalled_eq_iff:
  assumes "length (pg_members p) = length (pg_members q)" "list_all judged_ok (pg_members p)" "list_all judged_ok (pg_members q)"
  shows "stalled p = stalled q \<longleftrightarrow>
    (\<forall>i < length (pg_members p). mp_known (pg_members p ! i) = mp_known (pg_members q ! i) \<and> mp_stall (pg_members p ! i) = mp_stall (pg_members q ! i))"
proof -
  have eq: "filter P [0..<n] = filter Q [0..<n] \<longleftrightarrow> (\<forall>i < n. P i = Q i)" for P Q and n :: nat
  proof
    assume "filter P [0..<n] = filter Q [0..<n]"
    then have "set (filter P [0..<n]) = set (filter Q [0..<n])" by simp
    then show "\<forall>i < n. P i = Q i" by (auto simp: set_eq_iff)
  qed (auto intro: filter_cong)
  show ?thesis using assms unfolding stalled_def by (auto simp: eq list_all_length judged_ok_def)
qed

text \<open>C1. The loop hears of a change exactly when there is one to report: on members as \<^verbatim>\<open>newProgress\<close> and \<^verbatim>\<open>stalledFrom\<close> leave
  them, observing all the heads returns true exactly when the lists \<^verbatim>\<open>stalled\<close> returns afterwards, of
  members stalled and not yet decided, differ from those before.\<close>

theorem observe_reports_every_change:
  assumes "list_all judged_ok (pg_members p)" "length heads = length (pg_members p)"
  shows "\<exists>changed q. observe heads now p = Some (changed, q) \<and> list_all judged_ok (pg_members q) \<and> length (pg_members q) = length (pg_members p) \<and>
    (changed \<longleftrightarrow> stalled q \<noteq> stalled p)"
proof -
  let ?f = "observe_member (pg_window p) (pg_start p) now"
  let ?q = "p\<lparr>pg_members := map2 ?f heads (pg_members p)\<rparr>"
  let ?c = "list_ex (\<lambda>(m, m'). mp_known m' \<noteq> mp_known m \<or> mp_stall m' \<noteq> mp_stall m) (zip (pg_members p) (pg_members ?q))"
  have len: "length (pg_members ?q) = length (pg_members p)" using assms(2) by simp
  have ok: "list_all judged_ok (pg_members ?q)" using assms observe_member_ok by (auto simp: list_all_length)
  have "observe heads now p = Some (?c, ?q)" using assms(2) by (simp add: observe_def Let_def)
  moreover have "?c \<longleftrightarrow> stalled ?q \<noteq> stalled p"
    unfolding stalled_eq_iff[OF len ok assms(1)] using len by (auto simp: list_ex_length)
  ultimately show ?thesis using ok len by blast
qed

theorem observe_reports_every_change_witness:
  "\<exists>q. observe [5] 2000000000 (newProgress [4] 0 2000000000) = Some (True, q) \<and> stalled q = ([], []) \<and> stalled (newProgress [4] 0 2000000000) = ([], [0]) \<and>
     length (pg_members q) = 1"
proof -
  let ?p = "newProgress [4] 0 2000000000"
  have c: "map_option (\<lambda>(c, q). (c, stalled q)) (observe [5] 2000000000 ?p) = Some (True, [], [])" "stalled ?p = ([], [0])" "length (pg_members ?p) = 1" by code_simp+
  show ?thesis using observe_reports_every_change[OF newProgress_ok, of "[5]" "[4]" 0 2000000000 2000000000] c by auto
qed

subsection \<open>Stalling and recovering\<close>

definition window_ok :: "duration \<Rightarrow> bool" where
  "window_ok window \<longleftrightarrow> StallAfter \<le> window \<and> window < maxInt64"

lemma since_cases:
  assumes "0 \<le> d" "d < maxInt64"
  shows "since now (Some u) < d \<longleftrightarrow> now - u < d" "d \<le> since now (Some u) \<longleftrightarrow> d \<le> now - u" "\<not> since now None < d" "d \<le> since now None"
  using assms by (auto simp: since_def time_sub_def maxInt64_def)

lemma window_facts:
  assumes "window_ok window"
  shows "quot64 window 2 = window div 2" "0 \<le> window div 2" "window div 2 < maxInt64" "0 \<le> window" "window < maxInt64" "window div 2 \<le> window" "1 \<le> window div 2"
    "0 \<le> RecoverAfter" "RecoverAfter < maxInt64"
  using assms by (auto simp: window_ok_def quot64_def StallAfter_def second_def maxInt64_def RecoverAfter_def i64_def sgn_if)

lemmas observe_defs = observe_member_def note_head_def judge_member_def Let_def

text \<open>A member that has been stalled since \<open>s\<close>: it has not moved since, having stood still for a pause then, or its steady moves
  began later.\<close>

definition stalled_since :: "duration \<Rightarrow> time \<Rightarrow> member_progress \<Rightarrow> bool" where
  "stalled_since window s m \<longleftrightarrow> mp_known m \<and> mp_stall m \<and>
     (case mp_moved m of None \<Rightarrow> True | Some t \<Rightarrow> t + window div 2 \<le> s \<or> (\<exists>u. mp_steady m = Some u \<and> s \<le> u))"

lemma becomes_stalled:
  assumes "window_ok window" "\<not> (mp_known m \<and> mp_stall m)" "mp_known m' \<and> mp_stall m'" "m' = observe_member window start now h m" "judged_ok m"
  shows "stalled_since window now m'"
  using assms window_facts[OF assms(1)] since_cases(2)[of window now]
  by (auto simp: stalled_since_def observe_defs judged_ok_def split: if_splits option.splits)

lemma stays_stalled:
  assumes "window_ok window" "stalled_since window s m" "s \<le> now" "mp_stall (observe_member window start now h m)"
  shows "stalled_since window s (observe_member window start now h m)"
  using assms window_facts[OF assms(1)] since_cases(2)[of "window div 2" now] since_cases(4)[of "window div 2" now]
  by (auto simp: stalled_since_def observe_defs split: if_splits option.splits)

lemma recovers_late:
  assumes "window_ok window" "stalled_since window s m" "s \<le> now" "\<not> mp_stall (observe_member window start now h m)"
  shows "RecoverAfter \<le> now - s"
  using assms window_facts[OF assms(1)] since_cases[of "window div 2" now] since_cases[of RecoverAfter now]
  by (auto simp: stalled_since_def observe_defs split: if_splits option.splits)

text \<open>A member over a sequence of observations, a time and a head each: what it is after them, and whether it counted as stalled after
  each.\<close>

fun observes :: "duration \<Rightarrow> time \<Rightarrow> (time \<times> int) list \<Rightarrow> member_progress \<Rightarrow> member_progress" where
  "observes window start [] m = m"
| "observes window start ((now, h) # obs) m = observes window start obs (observe_member window start now h m)"

fun verdicts :: "duration \<Rightarrow> time \<Rightarrow> (time \<times> int) list \<Rightarrow> member_progress \<Rightarrow> bool list" where
  "verdicts window start [] m = []"
| "verdicts window start ((now, h) # obs) m =
     (let m' = observe_member window start now h m in (mp_known m' \<and> mp_stall m') # verdicts window start obs m')"

lemma verdicts_append [simp]:
  "verdicts window start (xs @ ys) m = verdicts window start xs m @ verdicts window start ys (observes window start xs m)"
  by (induction window start xs m rule: verdicts.induct) (simp_all add: Let_def)

lemma length_verdicts [simp]: "length (verdicts window start obs m) = length obs"
  by (induction window start obs m rule: verdicts.induct) (simp_all add: Let_def)

lemma observes_stalled:
  "window_ok window \<Longrightarrow> stalled_since window s m \<Longrightarrow> \<forall>(t, h) \<in> set obs. s \<le> t \<Longrightarrow> verdicts window start obs m = replicate (length obs) True \<Longrightarrow>
   stalled_since window s (observes window start obs m)"
  by (induction window start obs m rule: verdicts.induct) (auto simp: Let_def intro: stays_stalled)

text \<open>A member counted as moving at \<open>r\<close> or after moved less than half a window before \<open>r\<close>.\<close>

definition moving_since :: "duration \<Rightarrow> time \<Rightarrow> member_progress \<Rightarrow> bool" where
  "moving_since window r m \<longleftrightarrow> mp_known m \<and> \<not> mp_stall m \<and> (\<exists>t. mp_moved m = Some t \<and> r < t + window div 2)"

lemma recovers_moving:
  assumes "window_ok window" "mp_known m" "mp_stall m" "\<not> mp_stall (observe_member window start now h m)"
  shows "moving_since window now (observe_member window start now h m)"
  using assms window_facts[OF assms(1)] since_cases(1)[of "window div 2" now]
  by (auto simp: moving_since_def observe_defs split: if_splits)

lemma stays_moving:
  assumes "window_ok window" "moving_since window r m" "r \<le> now" "\<not> mp_stall (observe_member window start now h m)"
  shows "moving_since window r (observe_member window start now h m)"
  using assms window_facts[OF assms(1)] by (auto simp: moving_since_def observe_defs split: if_splits)

lemma observes_moving:
  "window_ok window \<Longrightarrow> moving_since window r m \<Longrightarrow> \<forall>(t, h) \<in> set obs. r \<le> t \<Longrightarrow> verdicts window start obs m = replicate (length obs) False \<Longrightarrow>
   moving_since window r (observes window start obs m)"
proof (induction window start obs m rule: verdicts.induct)
  case (2 window start now h obs m)
  let ?m = "observe_member window start now h m"
  have "mp_known ?m" using "2.prems"(2) by (auto simp: moving_since_def observe_defs)
  then have "\<not> mp_stall ?m" using "2.prems"(4) by (simp add: Let_def)
  then have "moving_since window r ?m" using stays_moving[OF "2.prems"(1,2)] "2.prems"(3) by auto
  then show ?case using "2.IH" "2.prems" by (simp add: Let_def)
qed simp

lemma stalls_late:
  assumes "window_ok window" "moving_since window r m" "r \<le> now" "mp_stall (observe_member window start now h m)"
  shows "window - window div 2 < now - r"
  using assms window_facts[OF assms(1)] since_cases(2)[of window now] by (auto simp: moving_since_def observe_defs split: if_splits)

text \<open>C2. A stalled member is not reported moving on every commit. Take a member stalled since \<open>s\<close> (just judged so, or reported so when
  the engine started) and any later observations after each of which it counts as stalled, up to one at \<open>r\<close> after
  which it does not: then it was at least \<open>RecoverAfter\<close>. And if, still moving after any further observations, it
  counts as stalled at \<open>q\<close>, more than half its window passed since \<open>r\<close>: it changed state twice in no less than
  \<open>RecoverAfter\<close> plus half its window.\<close>

theorem stall_flapping_is_bounded:
  assumes "window_ok window" "stalled_since window s m" "\<forall>(t, h) \<in> set obs. s \<le> t" "s \<le> r" "\<forall>(t, h) \<in> set obs'. r \<le> t" "r \<le> q"
    and "verdicts window start (obs @ (r, h) # obs' @ [(q, h')]) m =
         replicate (length obs) True @ False # replicate (length obs') False @ [True]"
  shows "RecoverAfter \<le> r - s \<and> RecoverAfter + window div 2 < q - s"
proof -
  let ?m1 = "observes window start obs m"
  let ?m2 = "observe_member window start r h ?m1"
  let ?m3 = "observes window start obs' ?m2"
  have v: "verdicts window start obs m = replicate (length obs) True" "\<not> (mp_known ?m2 \<and> mp_stall ?m2)"
    "verdicts window start obs' ?m2 = replicate (length obs') False" "mp_stall (observe_member window start q h' ?m3)"
    using assms(7) by (simp_all add: Let_def append_eq_append_conv)
  have s1: "stalled_since window s ?m1" by (rule observes_stalled[OF assms(1,2,3) v(1)])
  then have k: "mp_known ?m1" "mp_stall ?m1" by (simp_all add: stalled_since_def)
  then have "mp_known ?m2" by (auto simp: observe_defs)
  then have r: "\<not> mp_stall ?m2" using v(2) by simp
  have "RecoverAfter \<le> r - s" by (rule recovers_late[OF assms(1) s1 assms(4) r])
  moreover have "moving_since window r ?m3" by (rule observes_moving[OF assms(1) recovers_moving[OF assms(1) k r] assms(5) v(3)])
  then have "window - window div 2 < q - r" using stalls_late[OF assms(1) _ assms(6) v(4)] by blast
  ultimately show ?thesis by linarith
qed

text \<open>A member reported stalled at 0 that commits every half second from 1 s on, and stops at 6 s.\<close>

definition demo_stalled :: member_progress where
  "demo_stalled = \<lparr>mp_head = 1, mp_moved = None, mp_steady = None, mp_known = True, mp_stall = True\<rparr>"

definition demo_obs :: "(time \<times> int) list" where
  "demo_obs = map (\<lambda>k. (k * 500000000, k)) [2..11]"

lemma demo_window: "window_ok 2000000000" "stalled_since 2000000000 0 demo_stalled"
  by (simp_all add: window_ok_def StallAfter_def second_def maxInt64_def stalled_since_def demo_stalled_def)

theorem stall_flapping_is_bounded_witness:
  "verdicts 2000000000 0 (demo_obs @ (6000000000, 12) # [] @ [(8000000000, 12)]) demo_stalled = replicate 10 True @ False # replicate 0 False @ [True] \<and>
   RecoverAfter \<le> 6000000000 - 0 \<and> RecoverAfter + 2000000000 div 2 < 8000000000 - 0"
proof -
  have v: "verdicts 2000000000 0 (demo_obs @ (6000000000, 12) # [] @ [(8000000000, 12)]) demo_stalled =
      replicate (length demo_obs) True @ False # replicate (length ([] :: (time \<times> int) list)) False @ [True]" by code_simp
  have "length demo_obs = 10" "\<forall>(t, h) \<in> set demo_obs. 0 \<le> t" by (simp_all add: demo_obs_def)
  then show ?thesis using stall_flapping_is_bounded[OF demo_window, of demo_obs 6000000000 "[]" 8000000000, OF _ _ _ _ v] v by simp
qed

subsection \<open>A member that moves is reported moving, one that stands still stalled\<close>

text \<open>Observations each of which sees a new head, never a pause apart.\<close>

fun steady_moves :: "duration \<Rightarrow> time \<Rightarrow> int \<Rightarrow> (time \<times> int) list \<Rightarrow> bool" where
  "steady_moves window t h [] \<longleftrightarrow> True"
| "steady_moves window t h ((t', h') # obs) \<longleftrightarrow> h' \<noteq> h \<and> t \<le> t' \<and> t' - t < window div 2 \<and> steady_moves window t' h' obs"

definition recovering :: "time \<Rightarrow> time \<Rightarrow> int \<Rightarrow> member_progress \<Rightarrow> bool" where
  "recovering u t h m \<longleftrightarrow> mp_known m \<and> mp_head m = h \<and> mp_moved m = Some t \<and> (case mp_steady m of None \<Rightarrow> True | Some v \<Rightarrow> v \<le> u)"

lemma recovering_move:
  fixes start :: time
  assumes "window_ok window" "recovering u t h m" "h' \<noteq> h" "t \<le> t'" "t' - t < window div 2"
  defines "m' \<equiv> observe_member window start t' h' m"
  shows "recovering u t' h' m' \<and> (u + RecoverAfter \<le> t' \<longrightarrow> \<not> mp_stall m')"
proof -
  have n: "note_head window t' h' m = m\<lparr>mp_head := h', mp_moved := Some t'\<rparr>"
    using assms(1-5) window_facts[OF assms(1)] since_cases(2)[of "window div 2" t' t] by (auto simp: note_head_def recovering_def)
  have z: "since t' (Some t') = 0" by (simp add: since_def time_sub_def maxInt64_def)
  show ?thesis using assms(1,2) window_facts[OF assms(1)] z since_cases(1,3)[of RecoverAfter t']
    unfolding m'_def observe_member_def n Let_def by (auto simp: judge_member_def recovering_def split: option.splits)
qed

lemma recovering_moves:
  "window_ok window \<Longrightarrow> recovering u t h m \<Longrightarrow> steady_moves window t h obs \<Longrightarrow> obs \<noteq> [] \<Longrightarrow> u + RecoverAfter \<le> fst (last obs) \<Longrightarrow>
   \<not> mp_stall (observes window start obs m)"
proof (induction window t h obs arbitrary: m rule: steady_moves.induct)
  case (2 window t h t' h' obs)
  have m: "recovering u t' h' (observe_member window start t' h' m)" "u + RecoverAfter \<le> t' \<longrightarrow> \<not> mp_stall (observe_member window start t' h' m)"
    using recovering_move[OF "2.prems"(1,2)] "2.prems"(3) by auto
  show ?case
  proof (cases "obs = []")
    case False
    then show ?thesis using "2.IH"[OF "2.prems"(1) m(1)] "2.prems"(3,5) by simp
  qed (use m "2.prems"(5) in simp)
qed simp

text \<open>C3. A member that moves steadily is reported moving after \<open>RecoverAfter\<close>, and one that stands still is reported stalled after its
  window: a stalled member whose head changes at \<open>u\<close> and at every later observation, never half a window apart,
  counts as moving after the first observation at or past \<open>u + RecoverAfter\<close>; a member that last moved at \<open>t\<close> counts as
  stalled after any observation of the same head from \<open>t + window\<close> on, and one that never moved from \<open>StartGrace\<close>
  after the start on.\<close>

theorem progress_is_reported:
  assumes "window_ok window"
  shows "(mp_known m \<and> mp_stall m \<and> (\<forall>t. mp_steady m = Some t \<longrightarrow> t \<le> u) \<and> h \<noteq> mp_head m \<and> steady_moves window u h obs \<and> obs \<noteq> [] \<and>
       u + RecoverAfter \<le> fst (last obs) \<longrightarrow> \<not> mp_stall (observes window start ((u, h) # obs) m)) \<and>
    (mp_moved m = Some t \<and> t + window \<le> now \<longrightarrow> mp_stall (observe_member window start now (mp_head m) m)) \<and>
    (mp_moved m = None \<and> start + StartGrace \<le> now \<longrightarrow> mp_stall (observe_member window start now (mp_head m) m))"
proof (intro conjI impI)
  assume a: "mp_known m \<and> mp_stall m \<and> (\<forall>t. mp_steady m = Some t \<longrightarrow> t \<le> u) \<and> h \<noteq> mp_head m \<and> steady_moves window u h obs \<and> obs \<noteq> [] \<and>
     u + RecoverAfter \<le> fst (last obs)"
  then have "recovering u u h (observe_member window start u h m)"
    by (auto simp: recovering_def observe_defs split: option.splits)
  then show "\<not> mp_stall (observes window start ((u, h) # obs) m)" using recovering_moves[OF assms] a by simp
next
  assume "mp_moved m = Some t \<and> t + window \<le> now"
  then show "mp_stall (observe_member window start now (mp_head m) m)"
    using window_facts[OF assms] since_cases(1,2)[of window now t] since_cases(1)[of "window div 2" now t] by (auto simp: observe_defs)
next
  assume "mp_moved m = None \<and> start + StartGrace \<le> now"
  then show "mp_stall (observe_member window start now (mp_head m) m)"
    by (auto simp: observe_defs time_sub_def StartGrace_def second_def maxInt64_def)
qed

theorem progress_is_reported_witness:
  "steady_moves 2000000000 1000000000 2 (map (\<lambda>k. (k * 500000000, k)) [3..12]) \<and>
   \<not> mp_stall (observes 2000000000 0 ((1000000000, 2) # map (\<lambda>k. (k * 500000000, k)) [3..12]) demo_stalled) \<and>
   mp_stall (observe_member 2000000000 0 3000000000 7 \<lparr>mp_head = 7, mp_moved = Some 1000000000, mp_steady = None, mp_known = True, mp_stall = False\<rparr>)"
proof -
  let ?obs = "map (\<lambda>k. (k * 500000000, k)) [3..12] :: (time \<times> int) list"
  have st: "steady_moves 2000000000 1000000000 2 ?obs" "?obs \<noteq> []" "1000000000 + RecoverAfter \<le> fst (last ?obs)" by code_simp+
  then show ?thesis
    using conjunct1[OF progress_is_reported[OF demo_window(1), of demo_stalled 1000000000 2 ?obs 0]]
      progress_is_reported[OF demo_window(1), where start = 0 and t = 1000000000 and now = 3000000000 and m = "\<lparr>mp_head = 7, mp_moved = Some 1000000000, mp_steady = None, mp_known = True, mp_stall = False\<rparr>"]
    by (simp add: demo_stalled_def)
qed

end
