(* ===== verification/Redundancy_Set.thy ===== *)
theory Redundancy_Set
  imports Planner Receiver Mirror_Lifecycle
begin

section \<open>The redundancy set controller (operator/internal/redundancyset)\<close>

text \<open>
  One reconcile of an MxlFlowRedundancySet: drop the nodes that left the cluster, read every member's flow, origin
  and definition, judge the four conditions (Valid, MembersReady, OutputReady, PathsDisjoint), mirror every member
  that is produced elsewhere to every node the output is wanted on, and publish the status.

  What the API server answers is the record \<open>set_env\<close>. Flow definitions are JSON text; \<open>json_api\<close> is what the
  controller uses of \<^verbatim>\<open>encoding/json\<close>: decoding an object to the values of its keys (\<open>'v\<close>, a key that is absent
  has the nil value; the literal null leaves the map nil, \<open>None\<close>) and printing one value. \<^verbatim>\<open>reflect.DeepEqual\<close> on
  two decoded values is equality on \<open>'v\<close>.
\<close>

subsection \<open>Constants\<close>

definition ConditionValid :: string where "ConditionValid = ''Valid''"
definition ConditionMembersReady :: string where "ConditionMembersReady = ''MembersReady''"
definition ConditionOutputReady :: string where "ConditionOutputReady = ''OutputReady''"
definition ConditionTypePathsDisjoint :: string where "ConditionTypePathsDisjoint = ''PathsDisjoint''"

lemmas set_condition_types =
  ConditionValid_def ConditionMembersReady_def ConditionOutputReady_def ConditionTypePathsDisjoint_def

definition ReasonMembersAligned :: string where "ReasonMembersAligned = ''MembersAligned''"
definition ReasonMembersReady :: string where "ReasonMembersReady = ''MembersReady''"
definition ReasonMemberMissing :: string where "ReasonMemberMissing = ''MemberMissing''"
definition ReasonMemberStalled :: string where "ReasonMemberStalled = ''MemberStalled''"
definition ReasonOtherDomain :: string where "ReasonOtherDomain = ''MemberInOtherDomain''"
definition ReasonMisaligned :: string where "ReasonMisaligned = ''MembersMisaligned''"
definition ReasonOutputTaken :: string where "ReasonOutputTaken = ''OutputIsAFlow''"
definition ReasonGatewaysReady :: string where "ReasonGatewaysReady = ''GatewaysReady''"
definition ReasonGatewayNotReady :: string where "ReasonGatewayNotReady = ''GatewayNotReady''"
definition ReasonNoNodes :: string where "ReasonNoNodes = ''NoNodes''"
definition ReasonDisjoint :: string where "ReasonDisjoint = ''Disjoint''"
definition ReasonSharedSourceInterface :: string where "ReasonSharedSourceInterface = ''SharedSourceInterface''"
definition ReasonSharedTargetInterface :: string where "ReasonSharedTargetInterface = ''SharedTargetInterface''"
definition ReasonUnplaced :: string where "ReasonUnplaced = ''Unplaced''"

lemmas set_reasons =
  ReasonMembersAligned_def ReasonMembersReady_def ReasonMemberMissing_def ReasonMemberStalled_def
  ReasonOtherDomain_def ReasonMisaligned_def ReasonOutputTaken_def ReasonGatewaysReady_def
  ReasonGatewayNotReady_def ReasonNoNodes_def ReasonDisjoint_def ReasonSharedSourceInterface_def
  ReasonSharedTargetInterface_def ReasonUnplaced_def

definition gatewayComponent :: string where "gatewayComponent = ''gateway''"

definition componentLabel :: string where "componentLabel = ''app.kubernetes.io/component''"

definition gatewaySettle :: duration where "gatewaySettle = 5 * second"

definition alignedKeys :: "string list" where
  "alignedKeys = [''format'', ''media_type'', ''grain_rate'', ''sample_rate'', ''frame_width'', ''frame_height'',
     ''interlace_mode'', ''components'', ''channel_count'', ''bit_depth'']"

subsection \<open>Environment\<close>

record 'v json_api =
  unmarshal :: "string \<Rightarrow> go_error + (string \<Rightarrow> 'v) option"
  marshal :: "'v \<Rightarrow> string"

record GatewayPod =
  gp_meta :: ObjectMeta
  gp_nodeName :: string
  gp_conditions :: "Condition list"

datatype set_write =
    CreateMemberMirror MxlFlowMirror
  | PatchMemberMirror NamespacedName mirror_patch
  | UpdateSetStatus MxlFlowRedundancySet

record set_env =
  se_set :: "NamespacedName \<Rightarrow> go_error + MxlFlowRedundancySet"
  se_node :: "string \<Rightarrow> go_error + unit"
  se_flow :: "string \<Rightarrow> go_error + MxlFlow"
  se_caps :: "string \<Rightarrow> go_error + MxlNodeCapabilities"
  se_pods :: "string \<Rightarrow> string \<times> string \<Rightarrow> go_error + GatewayPod list"
  se_mirror :: "NamespacedName \<Rightarrow> go_error + MxlFlowMirror"
  se_mirrors :: "string \<Rightarrow> go_error + MxlFlowMirror list"
  se_create :: "MxlFlowMirror \<Rightarrow> go_error + unit"
  se_patch :: "NamespacedName \<Rightarrow> mirror_patch \<Rightarrow> go_error + unit"
  se_updateStatus :: "MxlFlowRedundancySet \<Rightarrow> go_error + unit"

record set_config =
  sc_namespace :: string
  sc_gatewayNamespace :: string
  sc_lease :: "LeaseFreshness option"

definition gatewayNamespace :: "set_config \<Rightarrow> string" where
  "gatewayNamespace cfg = (if sc_gatewayNamespace cfg \<noteq> '''' then sc_gatewayNamespace cfg else sc_namespace cfg)"

text \<open>A condition as the controller builds it, the generation and the transition time not set yet.\<close>

definition condition_of :: "string \<Rightarrow> ConditionStatus \<Rightarrow> string \<Rightarrow> string \<Rightarrow> Condition" where
  "condition_of t st reason msg = \<lparr>cond_type = t, cond_status = st, cond_reason = reason, cond_message = msg,
     cond_observedGeneration = 0, cond_lastTransitionTime = 0\<rparr>"

lemma condition_of_simps [simp]:
  "cond_type (condition_of t st reason msg) = t" "cond_status (condition_of t st reason msg) = st"
  "cond_reason (condition_of t st reason msg) = reason" "cond_message (condition_of t st reason msg) = msg"
  by (simp_all add: condition_of_def)

subsection \<open>Nodes\<close>

fun existingNodes :: "set_env \<Rightarrow> string list \<Rightarrow> go_error + string list" where
  "existingNodes env [] = Inr []"
| "existingNodes env (n # ns) =
     (case se_node env n of
        Inl e \<Rightarrow> if isNotFound e then existingNodes env ns else Inl e
      | Inr _ \<Rightarrow> (case existingNodes env ns of Inl e \<Rightarrow> Inl e | Inr out \<Rightarrow> Inr (n # out)))"

definition stalledOn :: "NodeStalledMembers list \<Rightarrow> string list \<Rightarrow> NodeStalledMembers list" where
  "stalledOn entries nodes = filter (\<lambda>s. sm_node s \<in> set nodes) entries"

subsection \<open>Members\<close>

record 'v member =
  mb_ref :: FlowRef
  mb_flow :: "MxlFlow option"
  mb_origin :: OriginResolution
  mb_def :: "(string \<Rightarrow> 'v) option"
  mb_unreadable :: string

definition read_member :: "set_config \<Rightarrow> 'v json_api \<Rightarrow> set_env \<Rightarrow> RedundancyFlowRef \<Rightarrow> go_error + 'v member" where
  "read_member cfg J env m =
     (let blank = \<lparr>mb_ref = member_ref m, mb_flow = None, mb_origin = no_origin, mb_def = None, mb_unreadable = ''''\<rparr>
      in case se_flow env (flowref_name (member_ref m)) of
           Inl e \<Rightarrow> if isNotFound e then Inr blank else Inl e
         | Inr f \<Rightarrow>
             (case resolveOrigin (Some f) (sc_lease cfg) of
                Inl e \<Rightarrow> Inl e
              | Inr origin \<Rightarrow>
                  Inr (case unmarshal J (fs_definition (flow_spec f)) of
                         Inl e \<Rightarrow> blank\<lparr>mb_flow := Some f, mb_origin := origin,
                            mb_unreadable := ''member '' @ flowref_name (member_ref m) @ '': '' @ error_text e\<rparr>
                       | Inr d \<Rightarrow> blank\<lparr>mb_flow := Some f, mb_origin := origin, mb_def := d\<rparr>)))"

fun read_members :: "set_config \<Rightarrow> 'v json_api \<Rightarrow> set_env \<Rightarrow> RedundancyFlowRef list \<Rightarrow> go_error + 'v member list" where
  "read_members cfg J env [] = Inr []"
| "read_members cfg J env (m # ms) =
     (case read_member cfg J env m of
        Inl e \<Rightarrow> Inl e
      | Inr x \<Rightarrow> (case read_members cfg J env ms of Inl e \<Rightarrow> Inl e | Inr xs \<Rightarrow> Inr (x # xs)))"

definition members :: "set_config \<Rightarrow> 'v json_api \<Rightarrow> set_env \<Rightarrow> MxlFlowRedundancySet \<Rightarrow> go_error + 'v member list" where
  "members cfg J env s = read_members cfg J env (ss_members (set_spec s))"

text \<open>The members with a definition, in order, and whether one of them has another value than the first.\<close>

definition readable :: "'v member list \<Rightarrow> (FlowRef \<times> (string \<Rightarrow> 'v)) list" where
  "readable ms = concat (map (\<lambda>m. case mb_def m of None \<Rightarrow> [] | Some d \<Rightarrow> [(mb_ref m, d)]) ms)"

fun differs :: "string \<Rightarrow> (FlowRef \<times> (string \<Rightarrow> 'v)) list \<Rightarrow> bool" where
  "differs k [] = False"
| "differs k ((_, first) # rest) = list_ex (\<lambda>(_, d). first k \<noteq> d k) rest"

definition key_text :: "'v json_api \<Rightarrow> (FlowRef \<times> (string \<Rightarrow> 'v)) list \<Rightarrow> string \<Rightarrow> string" where
  "key_text J rs k = k @ '': '' @ join_with '', '' (map (\<lambda>(ref, d). flowref_name ref @ '' '' @ marshal J (d k)) rs)"

definition disagreement :: "'v json_api \<Rightarrow> 'v member list \<Rightarrow> string" where
  "disagreement J ms =
     (let rs = readable ms; keys = filter (\<lambda>k. differs k rs) alignedKeys
      in if keys = [] then '''' else ''members differ in '' @ join_with ''; '' (map (key_text J rs) keys))"

subsection \<open>Valid\<close>

definition output_ref :: "MxlFlowRedundancySet \<Rightarrow> FlowRef" where
  "output_ref s = member_ref (ss_output (set_spec s))"

definition published :: "'v member list \<Rightarrow> nat" where
  "published ms = length (filter (\<lambda>m. mb_def m \<noteq> None) ms)"

text \<open>The set was found valid at the generation it has now.\<close>

definition validated :: "meta_api \<Rightarrow> MxlFlowRedundancySet \<Rightarrow> bool" where
  "validated M s =
     (case findStatusCondition M (sst_conditions (set_status s)) ConditionValid of
        None \<Rightarrow> False
      | Some c \<Rightarrow> cond_status c = ConditionTrue \<and> cond_observedGeneration c = om_generation (set_meta s))"

definition valid_message :: "string \<Rightarrow> 'v member list \<Rightarrow> string" where
  "valid_message differ ms =
     (if differ \<noteq> '''' then ''members agreed when the set was checked; MembersReady names those apart now''
      else if published ms < length ms then ''members agree in format, rate and geometry as far as published''
      else ''members agree in format, rate and geometry'')"

definition validate ::
  "meta_api \<Rightarrow> 'v json_api \<Rightarrow> set_env \<Rightarrow> MxlFlowRedundancySet \<Rightarrow> 'v member list \<Rightarrow> Condition" where
  "validate M J env s ms =
     (let fail = condition_of ConditionValid ConditionFalse; differ = disagreement J ms;
          ok = condition_of ConditionValid ConditionTrue ReasonMembersAligned (valid_message differ ms)
      in case se_flow env (flowref_name (output_ref s)) of
           Inr _ \<Rightarrow> fail ReasonOutputTaken (''output '' @ flowref_name (output_ref s) @ '' is a flow of its own'')
         | Inl _ \<Rightarrow>
         case find_first (\<lambda>m. rf_domain m \<noteq> rf_domain (ss_output (set_spec s))) (ss_members (set_spec s)) of
           Some m \<Rightarrow> fail ReasonOtherDomain (''member '' @ rf_flowID m @
             '' is not in the output's domain; one output selects among pages of one domain'')
         | None \<Rightarrow>
         if validated M s then ok
         else case find_first (\<lambda>m. mb_unreadable m \<noteq> '''') ms of
                Some m \<Rightarrow> fail ReasonMisaligned (mb_unreadable m)
              | None \<Rightarrow>
                  if differ \<noteq> '''' then fail ReasonMisaligned differ
                  else if published ms = 0 then fail ReasonMemberMissing ''no member has an MxlFlow yet''
                  else ok)"

subsection \<open>MembersReady\<close>

datatype member_fault = MissingMember string | ApartMember string | StalledMember string | NoFault

definition stalled_nodes :: "NodeStalledMembers list \<Rightarrow> string \<Rightarrow> string list" where
  "stalled_nodes stalled flowID = map sm_node (filter (\<lambda>s. flowID \<in> set (sm_flowIDs s)) stalled)"

definition fault_of :: "NodeStalledMembers list \<Rightarrow> 'v member \<Rightarrow> member_fault" where
  "fault_of stalled m =
     (if mb_flow m = None then MissingMember (''member '' @ flowref_name (mb_ref m) @ '' has no MxlFlow'')
      else if mb_unreadable m \<noteq> '''' then ApartMember (mb_unreadable m)
      else if \<not> res_found (mb_origin m) then MissingMember (''member '' @ flowref_name (mb_ref m) @ '' has no producer'')
      else let on = stalled_nodes stalled (ref_id (mb_ref m))
           in if on \<noteq> [] then StalledMember (''member '' @ flowref_name (mb_ref m) @ '' has not advanced on '' @ join_with '', '' on)
              else NoFault)"

fun missing_text :: "member_fault \<Rightarrow> string list" where
  "missing_text (MissingMember s) = [s]" | "missing_text _ = []"

fun apart_text :: "member_fault \<Rightarrow> string list" where
  "apart_text (ApartMember s) = [s]" | "apart_text _ = []"

fun stalled_text :: "member_fault \<Rightarrow> string list" where
  "stalled_text (StalledMember s) = [s]" | "stalled_text _ = []"

definition membersReady :: "'v json_api \<Rightarrow> 'v member list \<Rightarrow> NodeStalledMembers list \<Rightarrow> Condition" where
  "membersReady J ms stalled =
     (let faults = map (fault_of stalled) ms;
          missing = concat (map missing_text faults);
          apart = concat (map apart_text faults) @ (if disagreement J ms \<noteq> '''' then [disagreement J ms] else []);
          stalls = concat (map stalled_text faults);
          fail = condition_of ConditionMembersReady ConditionFalse
      in if missing \<noteq> [] then fail ReasonMemberMissing (join_with ''; '' (missing @ apart @ stalls))
         else if apart \<noteq> [] then fail ReasonMisaligned (join_with ''; '' (apart @ stalls))
         else if stalls \<noteq> [] then fail ReasonMemberStalled (join_with ''; '' stalls)
         else condition_of ConditionMembersReady ConditionTrue ReasonMembersReady
                ''every member is produced in the output's geometry'')"

subsection \<open>OutputReady\<close>

definition pod_serves :: "string \<Rightarrow> GatewayPod \<Rightarrow> bool" where
  "pod_serves node p \<longleftrightarrow> gp_nodeName p = node \<and> om_deletionTimestamp (gp_meta p) = 0"

definition ready_condition :: "Condition \<Rightarrow> bool" where
  "ready_condition c \<longleftrightarrow> cond_type c = ''Ready'' \<and> cond_status c = ConditionTrue"

text \<open>The two nested loops, over the conditions of the pods that count.\<close>

fun earliest :: "time option \<Rightarrow> Condition list \<Rightarrow> time option" where
  "earliest since [] = since"
| "earliest since (c # cs) =
     earliest (if ready_condition c \<and> (case since of None \<Rightarrow> True | Some t \<Rightarrow> cond_lastTransitionTime c < t)
               then Some (cond_lastTransitionTime c) else since) cs"

definition gatewayReadySince :: "GatewayPod list \<Rightarrow> string \<Rightarrow> time option" where
  "gatewayReadySince pods node = earliest None (concat (map gp_conditions (filter (pod_serves node) pods)))"

definition settle_left :: "time \<Rightarrow> time \<Rightarrow> duration" where
  "settle_left now since = sub64 gatewaySettle (time_sub now since)"

fun gateways_down :: "time \<Rightarrow> GatewayPod list \<Rightarrow> string list \<Rightarrow> string list \<Rightarrow> duration \<Rightarrow> string list \<times> duration" where
  "gateways_down now pods [] down settling = (down, settling)"
| "gateways_down now pods (n # ns) down settling =
     (case gatewayReadySince pods n of
        None \<Rightarrow> gateways_down now pods ns (down @ [n]) settling
      | Some since \<Rightarrow>
          if 0 < settle_left now since
          then gateways_down now pods ns (down @ [n]) (max settling (settle_left now since))
          else gateways_down now pods ns down settling)"

definition judge_output :: "time \<Rightarrow> GatewayPod list \<Rightarrow> string list \<Rightarrow> Condition \<times> duration" where
  "judge_output now pods nodes =
     (case gateways_down now pods nodes [] 0 of (down, settling) \<Rightarrow>
        if down \<noteq> []
        then (condition_of ConditionOutputReady ConditionFalse ReasonGatewayNotReady
                (''the output is not served on '' @ join_with '', '' down @ '': no gateway there has been Ready for 5s''), settling)
        else (condition_of ConditionOutputReady ConditionTrue ReasonGatewaysReady
                ''a gateway is up to merge the output on every node that wants it'', 0))"

definition outputReady :: "set_config \<Rightarrow> set_env \<Rightarrow> time \<Rightarrow> string list \<Rightarrow> go_error + Condition \<times> duration" where
  "outputReady cfg env now nodes =
     (if nodes = []
      then Inr (condition_of ConditionOutputReady ConditionTrue ReasonNoNodes ''no node wants the output'', 0)
      else case se_pods env (gatewayNamespace cfg) (componentLabel, gatewayComponent) of
             Inl e \<Rightarrow> Inl e
           | Inr pods \<Rightarrow> Inr (judge_output now pods nodes))"

subsection \<open>Member mirrors\<close>

definition caps_of :: "set_env \<Rightarrow> string \<Rightarrow> go_error + MxlNodeCapabilitiesStatus" where
  "caps_of env node =
     (case se_caps env node of
        Inl e \<Rightarrow> if isNotFound e then Inr empty_caps else Inl e
      | Inr c \<Rightarrow> Inr (caps_status c))"

definition set_provider :: "meta_api \<Rightarrow> set_env \<Rightarrow> string \<Rightarrow> string \<Rightarrow> go_error + MxlFabricsProvider" where
  "set_provider M env src target =
     (case caps_of env src of
        Inl e \<Rightarrow> Inl e
      | Inr srcCaps \<Rightarrow> (case caps_of env target of Inl e \<Rightarrow> Inl e | Inr tgtCaps \<Rightarrow> Inr (fst (resolve M srcCaps tgtCaps))))"

definition member_mirror_key :: "set_config \<Rightarrow> FlowRef \<Rightarrow> string \<Rightarrow> NamespacedName" where
  "member_mirror_key cfg ref target = \<lparr>nn_namespace = sc_namespace cfg, nn_name = mirrorNameFor ref target\<rparr>"

definition set_owner :: "MxlFlowRedundancySet \<Rightarrow> OwnerReference" where
  "set_owner s = \<lparr>or_apiVersion = groupVersion, or_kind = ''MxlFlowRedundancySet'', or_name = om_name (set_meta s),
     or_uid = om_uid (set_meta s), or_controller = None, or_blockOwnerDeletion = None\<rparr>"

definition member_mirror ::
  "set_config \<Rightarrow> MxlFlowRedundancySet \<Rightarrow> RedundancyFlowRef \<Rightarrow> string \<Rightarrow> string \<Rightarrow> MxlFabricsProvider \<Rightarrow> MxlFlowMirror" where
  "member_mirror cfg s m src target provider =
     \<lparr>mir_meta = new_meta (sc_namespace cfg) (mirrorNameFor (member_ref m) target) [] [set_owner s],
      mir_spec = \<lparr>ms_flowID = rf_flowID m, ms_domain = rf_domain m, ms_sourceNode = src, ms_targetNode = target,
        ms_provider = provider, ms_requestor = None, ms_placement = None\<rparr>,
      mir_status = new_mirror_status\<rparr>"

definition set_ensureMirror ::
  "set_config \<Rightarrow> meta_api \<Rightarrow> set_env \<Rightarrow> MxlFlowRedundancySet \<Rightarrow> RedundancyFlowRef \<Rightarrow> string \<Rightarrow> string \<Rightarrow> (set_write, unit) io" where
  "set_ensureMirror cfg M env s m src target =
     io_bind (io_read (set_provider M env src target)) (\<lambda>provider.
     let key = member_mirror_key cfg (member_ref m) target
     in case se_mirror env key of
          Inr existing \<Rightarrow>
            if ms_sourceNode (mir_spec existing) = src \<and> ms_provider (mir_spec existing) = provider then io_ret ()
            else io_write (PatchMemberMirror key (drift existing src provider None))
                   (se_patch env key (drift existing src provider None))
        | Inl e \<Rightarrow>
            if \<not> isNotFound e then io_fail e
            else let mirror = member_mirror cfg s m src target provider
                 in io_write (CreateMemberMirror mirror)
                      (case se_create env mirror of
                         Inl ce \<Rightarrow> if isAlreadyExists ce then Inr () else Inl ce
                       | Inr _ \<Rightarrow> Inr ()))"

text \<open>One turn of the inner loop, then both loops.\<close>

definition ensure_member ::
  "set_config \<Rightarrow> meta_api \<Rightarrow> set_env \<Rightarrow> MxlFlowRedundancySet \<Rightarrow> string \<Rightarrow> RedundancyFlowRef \<times> 'v member \<Rightarrow> (set_write, unit) io" where
  "ensure_member cfg M env s node im =
     (case im of (spec, m) \<Rightarrow>
        if \<not> res_found (mb_origin m) \<or> res_node (mb_origin m) = node then io_ret ()
        else set_ensureMirror cfg M env s spec (res_node (mb_origin m)) node)"

definition ensureMirrors ::
  "set_config \<Rightarrow> meta_api \<Rightarrow> set_env \<Rightarrow> MxlFlowRedundancySet \<Rightarrow> 'v member list \<Rightarrow> (set_write, unit) io" where
  "ensureMirrors cfg M env s ms =
     io_each (\<lambda>node. io_each (ensure_member cfg M env s node) (zip (ss_members (set_spec s)) ms)) (sst_nodes (set_status s))"

subsection \<open>PathsDisjoint\<close>

definition by_name :: "MxlFlowMirror list \<Rightarrow> string \<Rightarrow> MxlFlowMirror option" where
  "by_name ms = map_of (rev (map (\<lambda>m. (om_name (mir_meta m), m)) ms))"

text \<open>The capabilities are read once per node; one that cannot be read counts as empty.\<close>

definition port_at :: "set_env \<Rightarrow> string \<Rightarrow> MxlFabricsProvider \<Rightarrow> string \<Rightarrow> string" where
  "port_at env node provider address =
     portOf (case se_caps env node of Inl _ \<Rightarrow> empty_caps | Inr c \<Rightarrow> caps_status c) provider address"

definition target_port :: "set_env \<Rightarrow> string \<Rightarrow> MxlFlowMirror \<Rightarrow> MxlFlowMirrorPlacement \<Rightarrow> string" where
  "target_port env node m p = port_at env node (ms_provider (mir_spec m)) (pl_targetInterface p)"

definition source_port :: "set_env \<Rightarrow> MxlFlowMirror \<Rightarrow> MxlFlowMirrorPlacement \<Rightarrow> string \<times> string" where
  "source_port env m p =
     (ms_sourceNode (mir_spec m),
      port_at env (ms_sourceNode (mir_spec m)) (ms_provider (mir_spec m)) (pl_sourceInterface p))"

definition shared_target_text :: "string \<Rightarrow> string \<Rightarrow> string \<Rightarrow> string \<Rightarrow> string" where
  "shared_target_text other name node tport =
     ''Members '' @ other @ '' and '' @ name @ '' both arrive on '' @ node @ '' at port '' @ tport"

definition shared_source_text :: "string \<Rightarrow> string \<Rightarrow> string \<Rightarrow> string \<times> string \<Rightarrow> string" where
  "shared_source_text other name node key =
     ''Members '' @ other @ '' and '' @ name @ '' to '' @ node @ '' both leave '' @ fst key @ '' at port '' @ snd key"

lemma shared_source_text_nonempty [simp]: "shared_source_text other name node key \<noteq> ''''"
  by (simp add: shared_source_text_def)

text \<open>The inner loop over the members of one node: the ports taken so far, the first shared source and the number of
  mirrors without a placement. A shared target port ends everything (\<open>Inl\<close>).\<close>

fun node_paths ::
  "set_env \<Rightarrow> (string \<Rightarrow> MxlFlowMirror option) \<Rightarrow> string \<Rightarrow> RedundancyFlowRef list \<Rightarrow> (string \<times> string) list \<Rightarrow>
   ((string \<times> string) \<times> string) list \<Rightarrow> string \<Rightarrow> nat \<Rightarrow> Condition + string \<times> nat" where
  "node_paths env byName node [] targets sources shared unplaced = Inr (shared, unplaced)"
| "node_paths env byName node (mem # mems) targets sources shared unplaced =
     (let skip = node_paths env byName node mems targets sources shared;
          name = flowref_name (member_ref mem)
      in case byName (mirrorNameFor (member_ref mem) node) of
           None \<Rightarrow> skip unplaced
         | Some m \<Rightarrow>
             if om_deletionTimestamp (mir_meta m) \<noteq> 0 then skip unplaced
             else case ms_placement (mir_spec m) of
                    None \<Rightarrow> skip (unplaced + 1)
                  | Some p \<Rightarrow>
                      let tport = target_port env node m p; key = source_port env m p
                      in case map_of targets tport of
                           Some other \<Rightarrow>
                             Inl (condition_of ConditionTypePathsDisjoint ConditionFalse ReasonSharedTargetInterface
                               (shared_target_text other name node tport))
                         | None \<Rightarrow>
                             node_paths env byName node mems ((tport, name) # targets) ((key, name) # sources)
                               (case map_of sources key of
                                  Some other \<Rightarrow>
                                    if shared = '''' then shared_source_text other name node key else shared
                                | None \<Rightarrow> shared) unplaced)"

fun all_paths ::
  "set_env \<Rightarrow> (string \<Rightarrow> MxlFlowMirror option) \<Rightarrow> RedundancyFlowRef list \<Rightarrow> string list \<Rightarrow> string \<Rightarrow> nat \<Rightarrow> Condition + string \<times> nat" where
  "all_paths env byName mems [] shared unplaced = Inr (shared, unplaced)"
| "all_paths env byName mems (node # nodes) shared unplaced =
     (case node_paths env byName node mems [] [] shared unplaced of
        Inl c \<Rightarrow> Inl c
      | Inr (shared', unplaced') \<Rightarrow> all_paths env byName mems nodes shared' unplaced')"

definition judge_paths :: "set_env \<Rightarrow> MxlFlowMirror list \<Rightarrow> MxlFlowRedundancySet \<Rightarrow> Condition" where
  "judge_paths env ms s =
     (case all_paths env (by_name ms) (ss_members (set_spec s)) (sst_nodes (set_status s)) '''' 0 of
        Inl c \<Rightarrow> c
      | Inr (shared, unplaced) \<Rightarrow>
          if shared \<noteq> '''' then condition_of ConditionTypePathsDisjoint ConditionFalse ReasonSharedSourceInterface shared
          else if 0 < unplaced
          then condition_of ConditionTypePathsDisjoint ConditionUnknown ReasonUnplaced (show_nat unplaced @ '' member mirror(s) not placed yet'')
          else condition_of ConditionTypePathsDisjoint ConditionTrue ReasonDisjoint ''No two member mirrors to a node share a fabric port'')"

definition pathsDisjoint :: "set_config \<Rightarrow> set_env \<Rightarrow> MxlFlowRedundancySet \<Rightarrow> go_error + Condition" where
  "pathsDisjoint cfg env s =
     (case se_mirrors env (sc_namespace cfg) of
        Inl e \<Rightarrow> Inl (EWrap ''list member mirrors'' e)
      | Inr ms \<Rightarrow> Inr (judge_paths env ms s))"

subsection \<open>Reconcile\<close>

definition at_generation :: "int \<Rightarrow> Condition \<Rightarrow> Condition" where
  "at_generation g c = c\<lparr>cond_observedGeneration := g\<rparr>"

fun apply_conditions :: "meta_api \<Rightarrow> time \<Rightarrow> Condition list \<Rightarrow> Condition list \<Rightarrow> Condition list \<times> bool" where
  "apply_conditions M now cs [] = (cs, False)"
| "apply_conditions M now cs (c # rest) =
     (case setStatusCondition M now cs c of (cs', changed) \<Rightarrow>
      case apply_conditions M now cs' rest of (cs'', changed') \<Rightarrow> (cs'', changed' \<or> changed))"

definition set_requeue :: "Condition \<Rightarrow> duration \<Rightarrow> Result" where
  "set_requeue ready settling =
     (let base = (if cond_status ready \<noteq> ConditionTrue then 10 * second else 0)
      in after (if 0 < settling \<and> (base = 0 \<or> settling < base) then settling else base))"

definition prune_set :: "MxlFlowRedundancySet \<Rightarrow> string list \<Rightarrow> MxlFlowRedundancySet" where
  "prune_set s nodes = s\<lparr>set_status := (set_status s)\<lparr>sst_nodes := nodes,
     sst_stalledMembers := stalledOn (sst_stalledMembers (set_status s)) nodes\<rparr>\<rparr>"

definition publish_set ::
  "meta_api \<Rightarrow> set_env \<Rightarrow> time \<Rightarrow> bool \<Rightarrow> MxlFlowRedundancySet \<Rightarrow> Condition list \<Rightarrow> (set_write, unit) io" where
  "publish_set M env now pruned s conds =
     (let g = om_generation (set_meta s); st = set_status s
      in case apply_conditions M now (sst_conditions st) (map (at_generation g) conds) of (cs, changed) \<Rightarrow>
         if changed \<or> sst_observedGeneration st \<noteq> g \<or> pruned
         then let s' = s\<lparr>set_status := st\<lparr>sst_conditions := cs, sst_observedGeneration := g\<rparr>\<rparr>
              in io_write (UpdateSetStatus s') (se_updateStatus env s')
         else io_ret ())"

definition was_pruned :: "MxlFlowRedundancySet \<Rightarrow> string list \<Rightarrow> bool" where
  "was_pruned s nodes \<longleftrightarrow>
     length nodes \<noteq> length (sst_nodes (set_status s)) \<or>
     length (stalledOn (sst_stalledMembers (set_status s)) nodes) \<noteq> length (sst_stalledMembers (set_status s))"

definition reconcile_set ::
  "set_config \<Rightarrow> meta_api \<Rightarrow> 'v json_api \<Rightarrow> set_env \<Rightarrow> time \<Rightarrow> NamespacedName \<Rightarrow> (set_write, Result) io" where
  "reconcile_set cfg M J env now key =
     (case se_set env key of
        Inl e \<Rightarrow> if isNotFound e then io_ret no_requeue else io_fail e
      | Inr s0 \<Rightarrow>
          if om_deletionTimestamp (set_meta s0) \<noteq> 0 then io_ret no_requeue
          else
            io_bind (io_read (existingNodes env (sst_nodes (set_status s0)))) (\<lambda>nodes.
            let s = prune_set s0 nodes
            in io_bind (io_read (members cfg J env s)) (\<lambda>ms.
               let valid = validate M J env s ms; ready = membersReady J ms (sst_stalledMembers (set_status s))
               in io_bind (io_read (outputReady cfg env now nodes)) (\<lambda>(served, settling).
                  io_bind (if cond_status valid = ConditionTrue then ensureMirrors cfg M env s ms else io_ret ()) (\<lambda>_.
                  io_bind (io_read (pathsDisjoint cfg env s)) (\<lambda>disjoint.
                  io_bind (publish_set M env now (was_pruned s0 nodes) s [valid, ready, served, disjoint]) (\<lambda>_.
                  io_ret (set_requeue ready settling))))))))"

subsection \<open>What wakes a set\<close>

definition isGatewayPod :: "set_config \<Rightarrow> ObjectMeta \<Rightarrow> bool" where
  "isGatewayPod cfg m \<longleftrightarrow>
     om_namespace m = gatewayNamespace cfg \<and> label_value (om_labels m) componentLabel = gatewayComponent"

definition set_key :: "MxlFlowRedundancySet \<Rightarrow> NamespacedName" where
  "set_key s = \<lparr>nn_namespace = '''', nn_name = om_name (set_meta s)\<rparr>"

definition setsOn :: "go_error + MxlFlowRedundancySet list \<Rightarrow> string \<Rightarrow> NamespacedName list" where
  "setsOn sets node =
     (if node = '''' then [] else enqueue set_key sets (\<lambda>s. node \<in> set (sst_nodes (set_status s))))"

definition setsOf :: "go_error + MxlFlowRedundancySet list \<Rightarrow> string \<Rightarrow> NamespacedName list" where
  "setsOf sets flowName =
     enqueue set_key sets (\<lambda>s. list_ex (\<lambda>r. flowref_name (member_ref r) = flowName)
       (ss_output (set_spec s) # ss_members (set_spec s)))"

end
