(* ===== verification/Merge_Reconciler.thy ===== *)
theory Merge_Reconciler
  imports Redundancy_Set
begin

section \<open>The gateway's set reconciler (gateway/internal/merge/reconciler.go)\<close>

text \<open>
  Which redundancy sets a node serves, and when the engine of one is kept, has a member's ring replaced underneath it,
  or is built again. The engine itself is a value \<open>'e\<close> of which the reconciler only asks which members stand still
  and that it take a member's new ring; what starting one answers is an argument (\<open>merge_env\<close>), and so are the
  filesystem reads, which may differ between the three moments of a pass that make them: replacing restarted members,
  judging the engine, and building a new one. The flow definitions are compared by \<^verbatim>\<open>placeholder.SameGeometry\<close>.

  A pass maps the running engines to the running engines after it, with the log of what it did to the node: engines
  stopped and started, output directories removed, reports applied. The spec of a set changes only with its
  generation, so the per-member lists of an engine at the set's generation have one entry per member.
\<close>

subsection \<open>Geometry\<close>

definition geometryKeys :: "string list" where
  "geometryKeys = [''format'', ''media_type'', ''grain_rate'', ''sample_rate'', ''frame_width'', ''frame_height'',
     ''interlace_mode'', ''components'', ''channel_count'', ''bit_depth'']"

text \<open>A nil byte slice decodes to nothing; the literal null is an object without keys (\<open>nil_value\<close> is the value of an
  absent key).\<close>

definition decoded :: "'v json_api \<Rightarrow> 'v \<Rightarrow> string option \<Rightarrow> (string \<Rightarrow> 'v) option" where
  "decoded J nil_value def =
     (case def of
        None \<Rightarrow> None
      | Some raw \<Rightarrow> (case unmarshal J raw of Inl _ \<Rightarrow> None | Inr None \<Rightarrow> Some (\<lambda>_. nil_value) | Inr (Some d) \<Rightarrow> Some d))"

definition sameGeometry :: "'v json_api \<Rightarrow> 'v \<Rightarrow> string option \<Rightarrow> string option \<Rightarrow> bool" where
  "sameGeometry J nil_value a b =
     (case (decoded J nil_value a, decoded J nil_value b) of
        (Some x, Some y) \<Rightarrow> list_all (\<lambda>k. x k = y k) geometryKeys
      | _ \<Rightarrow> False)"

subsection \<open>State and environment\<close>

definition recheck :: duration where "recheck = 5 * second"
definition stalledRecheck :: duration where "stalledRecheck = second"
definition retryFor :: duration where "retryFor = 3 * recheck"

record 'e running =
  rn_engine :: 'e
  rn_uid :: string
  rn_gen :: int
  rn_domain :: string
  rn_def :: "string option"
  rn_layout :: string
  rn_seen :: "nat list"
  rn_started :: "nat list"
  rn_failed :: bool
  rn_retrying :: "nat list"
  rn_failing :: "(nat \<times> time) list"

type_synonym 'e engines = "string \<Rightarrow> 'e running option"

record merge_spec =
  sp_domainDir :: string
  sp_outputID :: string
  sp_members :: "string list"
  sp_skew :: duration
  sp_ordered :: bool
  sp_stalled :: "string list"

datatype gateway_write =
    StopEngine string
  | RemoveOutput string
  | StartEngine merge_spec
  | ApplyStalled string string "string list"

text \<open>What one look at the filesystem finds: the names in a directory, the inode of a file, a flow's definition.\<close>

record fs_view =
  fv_names :: "string \<Rightarrow> string list"
  fv_ino :: "string \<Rightarrow> nat option"
  fv_def :: "string \<Rightarrow> go_error + string"

record 'e merge_env =
  ge_set :: "string \<Rightarrow> go_error + MxlFlowRedundancySet"
  ge_atReplace :: fs_view
  ge_atServes :: fs_view
  ge_atBuild :: fs_view
  ge_noted :: "nat \<Rightarrow> time"
  ge_tried :: "nat \<Rightarrow> time"
  ge_replace :: "'e \<Rightarrow> nat \<Rightarrow> 'e \<times> (go_error + nat)"
  ge_stalled :: "'e \<Rightarrow> string list \<times> string list"
  ge_domainPath :: "string \<Rightarrow> go_error + string \<times> bool"
  ge_ringLayout :: "string \<Rightarrow> string \<Rightarrow> go_error + string"
  ge_writers :: "string \<Rightarrow> go_error + nat"
  ge_start :: "merge_spec \<Rightarrow> go_error + 'e"
  ge_apply :: "string \<Rightarrow> string \<Rightarrow> string list \<Rightarrow> go_error + unit"

definition ErrNotOpened :: go_error where "ErrNotOpened = ESentinel ''the member's ring could not be opened''"

definition flowDir :: "string \<Rightarrow> string \<Rightarrow> string" where
  "flowDir domain flowID = domain @ ''/'' @ flowID @ ''.mxl-flow''"

definition dataFile :: "string \<Rightarrow> string \<Rightarrow> string" where
  "dataFile domain flowID = flowDir domain flowID @ ''/data''"

definition member_ino :: "fs_view \<Rightarrow> string \<Rightarrow> RedundancyFlowRef \<Rightarrow> nat" where
  "member_ino fs domain m =
     (if rf_flowID m @ ''.mxl-flow'' \<in> set (fv_names fs domain)
      then (case fv_ino fs (dataFile domain (rf_flowID m)) of None \<Rightarrow> 0 | Some i \<Rightarrow> i)
      else 0)"

definition inodes :: "fs_view \<Rightarrow> string \<Rightarrow> RedundancyFlowRef list \<Rightarrow> nat list" where
  "inodes fs domain ms = map (member_ino fs domain) ms"

subsection \<open>Keeping an engine\<close>

text \<open>\<open>cur\<close> is of this object at this generation.\<close>

definition current :: "'e running \<Rightarrow> MxlFlowRedundancySet \<Rightarrow> bool" where
  "current cur s \<longleftrightarrow> rn_uid cur = om_uid (set_meta s) \<and> rn_gen cur = om_generation (set_meta s)"

fun serves_loop :: "'e running \<Rightarrow> (nat \<times> nat) list \<Rightarrow> bool \<Rightarrow> bool \<Rightarrow> bool" where
  "serves_loop cur [] startedLeft leftOut = (startedLeft \<or> \<not> leftOut)"
| "serves_loop cur ((i, ino) # rest) startedLeft leftOut =
     (if ino = 0 then serves_loop cur rest startedLeft leftOut
      else if ino \<noteq> rn_seen cur ! i \<and> i \<notin> set (rn_retrying cur) then False
      else if i \<in> set (rn_started cur) then serves_loop cur rest True leftOut
      else serves_loop cur rest startedLeft True)"

definition running_serves :: "fs_view \<Rightarrow> 'e running option \<Rightarrow> MxlFlowRedundancySet \<Rightarrow> bool" where
  "running_serves fs cur s =
     (case cur of
        None \<Rightarrow> False
      | Some c \<Rightarrow>
          if rn_failed c \<or> \<not> current c s then False
          else serves_loop c (enumerate 0 (inodes fs (rn_domain c) (ss_members (set_spec s)))) False False)"

text \<open>\<^verbatim>\<open>slices.Index\<close>.\<close>

fun index_of :: "'a list \<Rightarrow> 'a \<Rightarrow> nat option" where
  "index_of [] x = None"
| "index_of (y # ys) x = (if y = x then Some 0 else map_option Suc (index_of ys x))"

text \<open>The closure \<^verbatim>\<open>retry\<close>: since when the member has been tried in vain, whether the engine is kept for it; the flag
  tells whether the loop goes on.\<close>

definition retry_member :: "'e merge_env \<Rightarrow> nat \<Rightarrow> 'e running \<Rightarrow> 'e running \<times> bool" where
  "retry_member env i cur =
     (let since = (case map_of (rn_failing cur) i of Some t \<Rightarrow> t | None \<Rightarrow> ge_noted env i);
          cur' = cur\<lparr>rn_failing := (i, since) # filter (\<lambda>(j, _). j \<noteq> i) (rn_failing cur)\<rparr>
      in if retryFor \<le> time_sub (ge_tried env i) since then (cur'\<lparr>rn_failed := True\<rparr>, False)
         else (cur'\<lparr>rn_retrying := i # rn_retrying cur'\<rparr>, True))"

definition forget_failing :: "nat \<Rightarrow> 'e running \<Rightarrow> 'e running" where
  "forget_failing i cur = cur\<lparr>rn_failing := filter (\<lambda>(j, _). j \<noteq> i) (rn_failing cur)\<rparr>"

definition replace_member ::
  "'v json_api \<Rightarrow> 'v \<Rightarrow> 'e merge_env \<Rightarrow> RedundancyFlowRef list \<Rightarrow> nat \<Rightarrow> nat \<Rightarrow> 'e running \<Rightarrow> 'e running \<times> bool" where
  "replace_member J nil_value env mems i ino cur =
     (case index_of (rn_started cur) i of
        None \<Rightarrow> (forget_failing i cur, True)
      | Some m \<Rightarrow>
          if ino = 0 \<or> ino = rn_seen cur ! i then (forget_failing i cur, True)
          else case fv_def (ge_atReplace env) (flowDir (rn_domain cur) (rf_flowID (mems ! i))) of
                 Inl _ \<Rightarrow> retry_member env i cur
               | Inr def \<Rightarrow>
                   if \<not> sameGeometry J nil_value (rn_def cur) (Some def) then (cur, True)
                   else (case ge_replace env (rn_engine cur) m of (e, answer) \<Rightarrow>
                     let cur' = cur\<lparr>rn_engine := e\<rparr>
                     in case answer of
                          Inr got \<Rightarrow> (forget_failing i (cur'\<lparr>rn_seen := (rn_seen cur)[i := got]\<rparr>), True)
                        | Inl err \<Rightarrow>
                            if errorIs err ErrNotOpened then retry_member env i cur'
                            else (cur'\<lparr>rn_failed := True\<rparr>, False)))"

fun replace_loop ::
  "'v json_api \<Rightarrow> 'v \<Rightarrow> 'e merge_env \<Rightarrow> RedundancyFlowRef list \<Rightarrow> (nat \<times> nat) list \<Rightarrow> 'e running \<Rightarrow> 'e running" where
  "replace_loop J nil_value env mems [] cur = cur"
| "replace_loop J nil_value env mems ((i, ino) # rest) cur =
     (case replace_member J nil_value env mems i ino cur of (cur', go_on) \<Rightarrow>
        if go_on then replace_loop J nil_value env mems rest cur' else cur')"

definition replaceRestarted ::
  "'v json_api \<Rightarrow> 'v \<Rightarrow> 'e merge_env \<Rightarrow> MxlFlowRedundancySet \<Rightarrow> 'e running option \<Rightarrow> 'e running option" where
  "replaceRestarted J nil_value env s cur =
     (case cur of
        None \<Rightarrow> None
      | Some c \<Rightarrow>
          if \<not> current c s then Some c
          else Some (replace_loop J nil_value env (ss_members (set_spec s))
                 (enumerate 0 (inodes (ge_atReplace env) (rn_domain c) (ss_members (set_spec s)))) (c\<lparr>rn_retrying := []\<rparr>)))"

subsection \<open>Reporting stalled members\<close>

definition reported :: "string \<Rightarrow> MxlFlowRedundancySet \<Rightarrow> string list" where
  "reported node s =
     (case find_first (\<lambda>e. sm_node e = node) (sst_stalledMembers (set_status s)) of None \<Rightarrow> [] | Some e \<Rightarrow> sm_flowIDs e)"

definition reportOf :: "'e merge_env \<Rightarrow> 'e running \<Rightarrow> string list \<Rightarrow> string list" where
  "reportOf env cur rep =
     (case ge_stalled env (rn_engine cur) of (stalled, undecided) \<Rightarrow>
        sort (stalled @ filter (\<lambda>x. x \<in> set undecided) rep))"

definition stalledMembersFieldOwner :: "string \<Rightarrow> string" where
  "stalledMembersFieldOwner node = ''mxl-merge-gateway-'' @ node"

text \<open>The report of this node: what it writes and whether the entry names a member afterwards.\<close>

definition reportStalled ::
  "string \<Rightarrow> 'e merge_env \<Rightarrow> 'e running option \<Rightarrow> MxlFlowRedundancySet \<Rightarrow> (gateway_write, bool) io" where
  "reportStalled node env cur s =
     (let rep = reported node s;
          stalled = (case cur of None \<Rightarrow> [] | Some c \<Rightarrow> reportOf env c rep);
          name = om_name (set_meta s)
      in if stalled = sort rep then io_ret (stalled \<noteq> [])
         else io_write (ApplyStalled name (stalledMembersFieldOwner node) stalled)
                (case ge_apply env name node stalled of Inl e \<Rightarrow> Inl e | Inr _ \<Rightarrow> Inr (stalled \<noteq> [])))"

subsection \<open>Building an output\<close>

fun outputGeometry :: "'v json_api \<Rightarrow> 'v \<Rightarrow> string option \<Rightarrow> string option list \<Rightarrow> string option \<Rightarrow> string option" where
  "outputGeometry J nil_value prev [] first = first"
| "outputGeometry J nil_value prev (d # ds) first =
     (if d = None then outputGeometry J nil_value prev ds first
      else if prev \<noteq> None \<and> sameGeometry J nil_value prev d then prev
      else outputGeometry J nil_value prev ds (if first = None then d else first))"

definition outputLayout :: "string \<Rightarrow> string list \<Rightarrow> string" where
  "outputLayout prev layouts =
     (if prev \<in> set layouts then prev else case layouts of [] \<Rightarrow> '''' | l # _ \<Rightarrow> l)"

text \<open>A candidate is a member of the set by its index, with the layout of its ring.\<close>

definition candidate_member ::
  "'v json_api \<Rightarrow> 'v \<Rightarrow> 'e merge_env \<Rightarrow> string \<Rightarrow> string option \<Rightarrow> nat \<times> RedundancyFlowRef \<times> nat \<times> string option \<Rightarrow> (nat \<times> string \<times> string) list" where
  "candidate_member J nil_value env dir def x =
     (case x of (i, m, ino, d) \<Rightarrow>
        if ino = 0 \<or> d = None \<or> \<not> sameGeometry J nil_value def d then []
        else case ge_ringLayout env dir (rf_flowID m) of Inl _ \<Rightarrow> [] | Inr l \<Rightarrow> [(i, rf_flowID m, l)])"

definition member_defs :: "'e merge_env \<Rightarrow> string \<Rightarrow> RedundancyFlowRef list \<Rightarrow> nat list \<Rightarrow> string option list" where
  "member_defs env dir mems seen =
     map2 (\<lambda>m ino. if ino \<noteq> 0
                   then (case fv_def (ge_atBuild env) (flowDir dir (rf_flowID m)) of Inl _ \<Rightarrow> None | Inr d \<Rightarrow> Some d)
                   else None) mems seen"

definition default_skew :: duration where "default_skew = 40 * millisecond"

definition spec_skew :: "MxlFlowRedundancySet \<Rightarrow> duration" where
  "spec_skew s = (if ss_skewBudget (set_spec s) \<le> 0 then default_skew else ss_skewBudget (set_spec s))"

definition candidates_of ::
  "'v json_api \<Rightarrow> 'v \<Rightarrow> 'e merge_env \<Rightarrow> string \<Rightarrow> string option \<Rightarrow> RedundancyFlowRef list \<Rightarrow> nat list \<Rightarrow> string option list \<Rightarrow> (nat \<times> string \<times> string) list" where
  "candidates_of J nil_value env dir def mems seen defs =
     concat (map (candidate_member J nil_value env dir def) (enumerate 0 (zip mems (zip seen defs))))"

record output_plan =
  op_spec :: merge_spec
  op_def :: "string option"
  op_layout :: string
  op_seen :: "nat list"
  op_started :: "nat list"

definition plan_output ::
  "'v json_api \<Rightarrow> 'v \<Rightarrow> 'e merge_env \<Rightarrow> MxlFlowRedundancySet \<Rightarrow> string \<Rightarrow> string option \<Rightarrow> string \<Rightarrow> string list \<Rightarrow> output_plan" where
  "plan_output J nil_value env s dir prev prevLayout carried =
     (let mems = ss_members (set_spec s);
          seen = inodes (ge_atBuild env) dir mems;
          defs = member_defs env dir mems seen;
          def = outputGeometry J nil_value prev defs None;
          agree = candidates_of J nil_value env dir def mems seen defs;
          layout = outputLayout prevLayout (map (\<lambda>(_, _, l). l) agree);
          picked = filter (\<lambda>(_, _, l). l = layout) agree
      in \<lparr>op_spec = \<lparr>sp_domainDir = dir, sp_outputID = rf_flowID (ss_output (set_spec s)),
            sp_members = map (\<lambda>(_, flowID, _). flowID) picked, sp_skew = spec_skew s,
            sp_ordered = (ss_preference (set_spec s) \<noteq> RedundancyFirstArrival), sp_stalled = carried\<rparr>,
          op_def = def, op_layout = layout, op_seen = seen, op_started = map fst picked\<rparr>)"

definition stop_engine :: "string \<Rightarrow> 'e engines \<Rightarrow> gateway_write list \<times> 'e engines" where
  "stop_engine name engines = (if engines name = None then [] else [StopEngine name], engines(name := None))"

definition running_of :: "MxlFlowRedundancySet \<Rightarrow> string \<Rightarrow> output_plan \<Rightarrow> 'e \<Rightarrow> 'e running" where
  "running_of s dir plan e = \<lparr>rn_engine = e, rn_uid = om_uid (set_meta s), rn_gen = om_generation (set_meta s), rn_domain = dir,
     rn_def = op_def plan, rn_layout = op_layout plan, rn_seen = op_seen plan, rn_started = op_started plan, rn_failed = False,
     rn_retrying = [], rn_failing = []\<rparr>"

text \<open>The rest of a pass once the engine no longer serves: \<open>cur\<close> is the engine just stopped.\<close>

definition build_output ::
  "string \<Rightarrow> 'v json_api \<Rightarrow> 'v \<Rightarrow> 'e merge_env \<Rightarrow> 'e engines \<Rightarrow> string \<Rightarrow> MxlFlowRedundancySet \<Rightarrow> 'e running option \<Rightarrow>
   gateway_write list \<times> 'e engines \<times> (go_error + Result)" where
  "build_output node J nil_value env engines name s cur =
     (let prev = (case cur of None \<Rightarrow> None | Some c \<Rightarrow> rn_def c);
          prevLayout = (case cur of None \<Rightarrow> '''' | Some c \<Rightarrow> rn_layout c);
          carried = (case cur of None \<Rightarrow> reported node s | Some c \<Rightarrow> reportOf env c (reported node s));
          outDomain = rf_domain (ss_output (set_spec s))
      in case ge_domainPath env outDomain of
           Inl e \<Rightarrow> ([], engines, Inl e)
         | Inr (dir, onMxlfs) \<Rightarrow>
             if \<not> onMxlfs \<or> list_ex (\<lambda>m. rf_domain m \<noteq> outDomain) (ss_members (set_spec s))
             then ([], engines, Inr no_requeue)
             else let plan = plan_output J nil_value env s dir prev prevLayout carried;
                      out = flowDir dir (sp_outputID (op_spec plan))
                  in if sp_members (op_spec plan) = [] then ([], engines, Inr (after (2 * second)))
                     else case ge_writers env (out @ ''/data'') of
                            Inl _ \<Rightarrow> ([], engines, Inr (after (10 * second)))
                          | Inr n \<Rightarrow>
                              if 0 < n then ([], engines, Inr (after (10 * second)))
                              else case ge_start env (op_spec plan) of
                                     Inl _ \<Rightarrow> ([RemoveOutput out, StartEngine (op_spec plan)], engines, Inr (after (10 * second)))
                                   | Inr e \<Rightarrow> ([RemoveOutput out, StartEngine (op_spec plan)],
                                       engines(name := Some (running_of s dir plan e)), Inr (after recheck)))"

text \<open>The body of Reconcile between the read of the set and the deferred report.\<close>

definition serve_pass ::
  "string \<Rightarrow> meta_api \<Rightarrow> 'v json_api \<Rightarrow> 'v \<Rightarrow> 'e merge_env \<Rightarrow> 'e engines \<Rightarrow> string \<Rightarrow> MxlFlowRedundancySet \<Rightarrow>
   gateway_write list \<times> 'e engines \<times> (go_error + Result)" where
  "serve_pass node M J nil_value env engines name s =
     (if om_deletionTimestamp (set_meta s) \<noteq> 0 \<or> node \<notin> set (sst_nodes (set_status s)) \<or> \<not> validated M s
      then (case stop_engine name engines of (ws, engines') \<Rightarrow> (ws, engines', Inr no_requeue))
      else let cur = replaceRestarted J nil_value env s (engines name); kept = engines(name := cur)
           in if running_serves (ge_atServes env) cur s then ([], kept, Inr (after recheck))
              else (case stop_engine name kept of (ws, engines') \<Rightarrow>
                    case build_output node J nil_value env engines' name s cur of (ws', rest) \<Rightarrow> (ws @ ws', rest)))"

text \<open>What the deferred report makes of the result.\<close>

definition with_report :: "go_error + bool \<Rightarrow> go_error + Result \<Rightarrow> go_error + Result" where
  "with_report rep res =
     (case (rep, res) of
        (Inl _, Inr r) \<Rightarrow> if r = no_requeue then Inr (after recheck) else Inr r
      | (Inr True, Inr r) \<Rightarrow> if requeueAfter r = recheck then Inr (r\<lparr>requeueAfter := stalledRecheck\<rparr>) else Inr r
      | (_, res) \<Rightarrow> res)"

definition reconcile_merge ::
  "string \<Rightarrow> meta_api \<Rightarrow> 'v json_api \<Rightarrow> 'v \<Rightarrow> 'e merge_env \<Rightarrow> 'e engines \<Rightarrow> string \<Rightarrow>
   gateway_write list \<times> 'e engines \<times> (go_error + Result)" where
  "reconcile_merge node M J nil_value env engines name =
     (case ge_set env name of
        Inl e \<Rightarrow>
          if isNotFound e then (case stop_engine name engines of (ws, engines') \<Rightarrow> (ws, engines', Inr no_requeue))
          else ([], engines, Inl e)
      | Inr s \<Rightarrow>
          (case serve_pass node M J nil_value env engines name s of (ws, engines', res) \<Rightarrow>
           let report = reportStalled node env (engines' (om_name (set_meta s))) s
           in (ws @ fst report, engines', with_report (snd report) res)))"

text \<open>An audio arrival goes to every engine that merges that flow in that domain; \<open>index\<close> and \<open>commit\<close> are
  \<^verbatim>\<open>Engine.MemberIndex\<close> and \<^verbatim>\<open>Engine.Committed\<close>.\<close>

definition samplesCommitted ::
  "('e \<Rightarrow> string \<Rightarrow> nat option) \<Rightarrow> ('e \<Rightarrow> nat \<Rightarrow> nat \<Rightarrow> nat \<Rightarrow> 'e) \<Rightarrow> string \<Rightarrow> string \<Rightarrow> nat \<Rightarrow> nat \<Rightarrow> 'e engines \<Rightarrow> 'e engines" where
  "samplesCommitted index commit domain flowID first upTo engines = (\<lambda>name.
     case engines name of
       None \<Rightarrow> None
     | Some c \<Rightarrow>
         if rn_domain c \<noteq> domain then Some c
         else case index (rn_engine c) flowID of
                None \<Rightarrow> Some c
              | Some m \<Rightarrow> Some (c\<lparr>rn_engine := commit (rn_engine c) m first upTo\<rparr>))"

text \<open>Shutdown stops every engine.\<close>

definition shutdown :: "string list \<Rightarrow> 'e engines \<Rightarrow> gateway_write list \<times> 'e engines" where
  "shutdown names engines =
     (map StopEngine (filter (\<lambda>n. engines n \<noteq> None) names), \<lambda>n. if n \<in> set names then None else engines n)"

end
