(* ===== verification/Redundancy_Safety.thy ===== *)
theory Redundancy_Safety
  imports Redundancy_Set
begin

section \<open>Redundancy sets: what the conditions mean and what is mirrored\<close>

text \<open>
  The verdicts of the redundancy set controller against what the operator reads: PathsDisjoint as distinctness of
  the ports the member mirrors use, OutputReady as a gateway that has been Ready for the settling time, MembersReady
  as the absence of every fault, Valid as a verdict a running set does not lose. The mirrors a pass writes are those
  of members produced elsewhere, they are complete, and the mirror controller finds each of them claimed.
\<close>

subsection \<open>PathsDisjoint\<close>

definition live_member :: "(string \<Rightarrow> MxlFlowMirror option) \<Rightarrow> string \<Rightarrow> RedundancyFlowRef \<Rightarrow> MxlFlowMirror list" where
  "live_member byName node mem =
     (case byName (mirrorNameFor (member_ref mem) node) of
        None \<Rightarrow> []
      | Some m \<Rightarrow> if om_deletionTimestamp (mir_meta m) = 0 then [m] else [])"

definition arrivals :: "(string \<Rightarrow> MxlFlowMirror option) \<Rightarrow> RedundancyFlowRef list \<Rightarrow> string \<Rightarrow> MxlFlowMirror list" where
  "arrivals byName mems node = concat (map (live_member byName node) mems)"

definition placed_at :: "MxlFlowMirror \<Rightarrow> (MxlFlowMirror \<times> MxlFlowMirrorPlacement) list" where
  "placed_at m = (case ms_placement (mir_spec m) of None \<Rightarrow> [] | Some p \<Rightarrow> [(m, p)])"

definition target_ports :: "set_env \<Rightarrow> string \<Rightarrow> MxlFlowMirror list \<Rightarrow> string list" where
  "target_ports env node ms = map (\<lambda>(m, p). target_port env node m p) (concat (map placed_at ms))"

definition source_ports :: "set_env \<Rightarrow> MxlFlowMirror list \<Rightarrow> (string \<times> string) list" where
  "source_ports env ms = map (\<lambda>(m, p). source_port env m p) (concat (map placed_at ms))"

definition unplaced_in :: "MxlFlowMirror list \<Rightarrow> nat" where
  "unplaced_in ms = length (filter (\<lambda>m. ms_placement (mir_spec m) = None) ms)"

lemma arrivals_Cons: "arrivals byName (mem # mems) node = live_member byName node mem @ arrivals byName mems node"
  by (simp add: arrivals_def)

lemma ports_simps:
  "target_ports env node [] = []" "source_ports env [] = []" "unplaced_in [] = 0"
  "ms_placement (mir_spec m) = None \<Longrightarrow> target_ports env node (m # ms) = target_ports env node ms"
  "ms_placement (mir_spec m) = None \<Longrightarrow> source_ports env (m # ms) = source_ports env ms"
  "ms_placement (mir_spec m) = None \<Longrightarrow> unplaced_in (m # ms) = Suc (unplaced_in ms)"
  "ms_placement (mir_spec m) = Some p \<Longrightarrow> target_ports env node (m # ms) = target_port env node m p # target_ports env node ms"
  "ms_placement (mir_spec m) = Some p \<Longrightarrow> source_ports env (m # ms) = source_port env m p # source_ports env ms"
  "ms_placement (mir_spec m) = Some p \<Longrightarrow> unplaced_in (m # ms) = unplaced_in ms"
  by (simp_all add: target_ports_def source_ports_def unplaced_in_def placed_at_def)

text \<open>The three ways a member is passed.\<close>

lemma node_paths_gone:
  "live_member byName node mem = [] \<Longrightarrow>
   node_paths env byName node (mem # mems) targets sources shared unplaced =
   node_paths env byName node mems targets sources shared unplaced"
  by (cases "byName (mirrorNameFor (member_ref mem) node)") (auto simp: live_member_def split: if_splits)

lemma node_paths_unplaced:
  "live_member byName node mem = [m] \<Longrightarrow> ms_placement (mir_spec m) = None \<Longrightarrow>
   node_paths env byName node (mem # mems) targets sources shared unplaced =
   node_paths env byName node mems targets sources shared (unplaced + 1)"
  by (cases "byName (mirrorNameFor (member_ref mem) node)") (auto simp: live_member_def split: if_splits)

lemma live_member_SomeD:
  "live_member byName node mem = [m] \<Longrightarrow>
   byName (mirrorNameFor (member_ref mem) node) = Some m \<and> om_deletionTimestamp (mir_meta m) = 0"
  by (auto simp: live_member_def split: if_splits option.splits)

text \<open>One node: the walk ends early exactly on a shared target port, and otherwise remembers whether a source port
  was shared and counts the mirrors not placed.\<close>

lemma node_paths_spec:
  fixes env node byName mems
  defines "ts \<equiv> target_ports env node (arrivals byName mems node)"
    and "ss \<equiv> source_ports env (arrivals byName mems node)"
  shows
    "if distinct ts \<and> set ts \<inter> fst ` set targets = {}
     then \<exists>shared'. node_paths env byName node mems targets sources shared unplaced =
            Inr (shared', unplaced + unplaced_in (arrivals byName mems node)) \<and>
          (shared' = '''' \<longleftrightarrow> shared = '''' \<and> distinct ss \<and> set ss \<inter> fst ` set sources = {})
     else \<exists>msg. node_paths env byName node mems targets sources shared unplaced =
            Inl (condition_of ConditionTypePathsDisjoint ConditionFalse ReasonSharedTargetInterface msg)"
  unfolding ts_def ss_def
proof (induction mems arbitrary: targets sources shared unplaced)
  case Nil
  then show ?case by (simp add: arrivals_def ports_simps)
next
  case (Cons mem mems)
  let ?name = "mirrorNameFor (member_ref mem) node"
  consider (gone) "live_member byName node mem = []"
    | (unplaced) m where "live_member byName node mem = [m]" "ms_placement (mir_spec m) = None"
    | (placed) m p where "live_member byName node mem = [m]" "ms_placement (mir_spec m) = Some p"
      "byName ?name = Some m" "om_deletionTimestamp (mir_meta m) = 0"
  proof (cases "live_member byName node mem")
    case (Cons m rest)
    then have m: "live_member byName node mem = [m]" by (auto simp: live_member_def split: if_splits option.splits)
    then show thesis
      using that(2,3) live_member_SomeD[OF m] by (cases "ms_placement (mir_spec m)") auto
  qed (use that(1) in auto)
  then show ?case
  proof cases
    case gone
    with Cons.IH[of targets sources shared unplaced] show ?thesis
      unfolding node_paths_gone[OF gone] by (simp add: arrivals_Cons cong: if_cong)
  next
    case unplaced
    with Cons.IH[of targets sources shared "unplaced + 1"] show ?thesis
      unfolding node_paths_unplaced[OF unplaced] by (simp add: arrivals_Cons ports_simps cong: if_cong)
  next
    case placed
    let ?t = "target_port env node m p" and ?k = "source_port env m p"
    show ?thesis
    proof (cases "map_of targets ?t")
      case (Some other)
      then have "?t \<in> fst ` set targets" by (force dest: map_of_SomeD)
      with placed Some show ?thesis by (auto simp: arrivals_Cons ports_simps Let_def)
    next
      case None
      then have fresh: "?t \<notin> fst ` set targets" by (simp add: map_of_eq_None_iff)
      define name where "name = flowref_name (member_ref mem)"
      define sh where "sh = (case map_of sources ?k of
          Some other \<Rightarrow> if shared = '''' then shared_source_text other name node ?k else shared | None \<Rightarrow> shared)"
      let ?ts = "target_ports env node (arrivals byName mems node)" and ?ss = "source_ports env (arrivals byName mems node)"
      have sh: "sh = '''' \<longleftrightarrow> shared = '''' \<and> ?k \<notin> fst ` set sources"
        unfolding sh_def by (auto simp: map_of_eq_None_iff split: option.splits dest: map_of_SomeD intro: rev_image_eqI)
      have step: "node_paths env byName node (mem # mems) targets sources shared unplaced =
          node_paths env byName node mems ((?t, name) # targets) ((?k, name) # sources) sh unplaced"
        unfolding sh_def name_def using placed None by (simp add: Let_def)
      have ts: "distinct ?ts \<and> set ?ts \<inter> fst ` set ((?t, name) # targets) = {} \<longleftrightarrow>
          distinct (?t # ?ts) \<and> set (?t # ?ts) \<inter> fst ` set targets = {}"
        using fresh by auto
      have ss: "sh = '''' \<and> distinct ?ss \<and> set ?ss \<inter> fst ` set ((?k, name) # sources) = {} \<longleftrightarrow>
          shared = '''' \<and> distinct (?k # ?ss) \<and> set (?k # ?ss) \<inter> fst ` set sources = {}"
        unfolding sh by auto
      have "arrivals byName (mem # mems) node = m # arrivals byName mems node"
        by (simp add: arrivals_Cons placed(1))
      then show ?thesis
        using Cons.IH[of "(?t, name) # targets" "(?k, name) # sources" sh unplaced]
        unfolding step ts ss by (simp only: ports_simps(7-9)[OF placed(2)])
    qed
  qed
qed

lemma all_paths_spec:
  fixes env byName mems nodes
  defines "arr \<equiv> arrivals byName mems"
  shows
    "if list_all (\<lambda>n. distinct (target_ports env n (arr n))) nodes
     then \<exists>shared'. all_paths env byName mems nodes shared unplaced =
            Inr (shared', unplaced + sum_list (map (\<lambda>n. unplaced_in (arr n)) nodes)) \<and>
          (shared' = '''' \<longleftrightarrow> shared = '''' \<and> list_all (\<lambda>n. distinct (source_ports env (arr n))) nodes)
     else \<exists>msg. all_paths env byName mems nodes shared unplaced =
            Inl (condition_of ConditionTypePathsDisjoint ConditionFalse ReasonSharedTargetInterface msg)"
  unfolding arr_def
proof (induction nodes arbitrary: shared unplaced)
  case (Cons node nodes)
  let ?arr = "arrivals byName mems node"
  show ?case
  proof (cases "distinct (target_ports env node ?arr)")
    case True
    then obtain sh where sh: "node_paths env byName node mems [] [] shared unplaced = Inr (sh, unplaced + unplaced_in ?arr)"
      "sh = '''' \<longleftrightarrow> shared = '''' \<and> distinct (source_ports env ?arr)"
      using node_paths_spec[of env node byName mems "[]" "[]" shared unplaced] by auto
    show ?thesis
      using Cons.IH[of sh "unplaced + unplaced_in ?arr"] True sh(2)
      by (simp add: sh(1) add.assoc cong: if_cong)
  next
    case False
    then show ?thesis using node_paths_spec[of env node byName mems "[]" "[]" shared unplaced] by auto
  qed
qed simp

text \<open>The four outcomes of the condition, read off the ports.\<close>

definition paths_verdict :: "set_env \<Rightarrow> MxlFlowMirror list \<Rightarrow> MxlFlowRedundancySet \<Rightarrow> ConditionStatus \<times> string" where
  "paths_verdict env ms s =
     (let arr = arrivals (by_name ms) (ss_members (set_spec s)); nodes = sst_nodes (set_status s)
      in if \<not> list_all (\<lambda>n. distinct (target_ports env n (arr n))) nodes
         then (ConditionFalse, ReasonSharedTargetInterface)
         else if \<not> list_all (\<lambda>n. distinct (source_ports env (arr n))) nodes
         then (ConditionFalse, ReasonSharedSourceInterface)
         else if \<not> list_all (\<lambda>n. list_all (\<lambda>m. ms_placement (mir_spec m) \<noteq> None) (arr n)) nodes
         then (ConditionUnknown, ReasonUnplaced)
         else (ConditionTrue, ReasonDisjoint))"

lemma unplaced_sum: "0 < sum_list (map (\<lambda>n. unplaced_in (arr n)) nodes) \<longleftrightarrow>
    \<not> list_all (\<lambda>n. list_all (\<lambda>m. ms_placement (mir_spec m) \<noteq> None) (arr n)) nodes"
  by (induction nodes) (auto simp: unplaced_in_def list_all_iff filter_empty_conv)

text \<open>C25. The verdict on separate paths is exact: the pass answers True when, for every node the output is wanted on, the
  member mirrors that exist there and are not going away are all placed, arrive on pairwise different ports and leave
  each sending node on pairwise different ports; it blames a receiving port first, a sending port only when no
  receiving port is shared, and answers Unknown only when nothing is shared but a mirror is not placed. Ports are
  devices, so two addresses of one device count as shared.\<close>

theorem pathsDisjoint_exact:
  "pathsDisjoint cfg env s =
     (case se_mirrors env (sc_namespace cfg) of
        Inl e \<Rightarrow> Inl (EWrap ''list member mirrors'' e)
      | Inr ms \<Rightarrow> Inr (condition_of ConditionTypePathsDisjoint (fst (paths_verdict env ms s)) (snd (paths_verdict env ms s))
                         (cond_message (judge_paths env ms s))))"
proof -
  have "judge_paths env ms s = condition_of ConditionTypePathsDisjoint (fst (paths_verdict env ms s))
      (snd (paths_verdict env ms s)) (cond_message (judge_paths env ms s))" for ms
  proof -
    let ?arr = "arrivals (by_name ms) (ss_members (set_spec s))" and ?nodes = "sst_nodes (set_status s)"
    let ?walk = "all_paths env (by_name ms) (ss_members (set_spec s)) ?nodes '''' 0"
    note walk = all_paths_spec[of env "by_name ms" "ss_members (set_spec s)" ?nodes "''''" 0, simplified add_0]
    show ?thesis
    proof (cases "list_all (\<lambda>n. distinct (target_ports env n (?arr n))) ?nodes")
      case False
      with walk obtain msg where "?walk = Inl (condition_of ConditionTypePathsDisjoint ConditionFalse ReasonSharedTargetInterface msg)"
        by auto
      with False show ?thesis by (simp add: judge_paths_def paths_verdict_def)
    next
      case True
      with walk obtain sh u where sh: "?walk = Inr (sh, u)"
        "sh = '''' \<longleftrightarrow> list_all (\<lambda>n. distinct (source_ports env (?arr n))) ?nodes"
        and "u = sum_list (map (\<lambda>n. unplaced_in (?arr n)) ?nodes)"
        by auto
      then have u: "(\<not> list_all (\<lambda>n. list_all (\<lambda>m. ms_placement (mir_spec m) \<noteq> None) (?arr n)) ?nodes) = (0 < u)"
        by (simp add: unplaced_sum)
      with True sh show ?thesis
        unfolding judge_paths_def paths_verdict_def Let_def u by (cases "sh = ''''"; cases "0 < u") simp_all
    qed
  qed
  then show ?thesis by (simp add: pathsDisjoint_def split: sum.split)
qed

subsection \<open>OutputReady\<close>

definition gateway_up :: "GatewayPod list \<Rightarrow> string \<Rightarrow> bool" where
  "gateway_up pods node = list_ex (\<lambda>p. pod_serves node p \<and> list_ex ready_condition (gp_conditions p)) pods"

definition served_at :: "time \<Rightarrow> GatewayPod list \<Rightarrow> string \<Rightarrow> bool" where
  "served_at now pods node =
     list_ex (\<lambda>p. pod_serves node p \<and>
       list_ex (\<lambda>c. ready_condition c \<and> cond_lastTransitionTime c + gatewaySettle \<le> now) (gp_conditions p)) pods"

text \<open>The clocks of the API server and the operator differ by less than a hundred years.\<close>

definition clocks_agree :: "time \<Rightarrow> GatewayPod list \<Rightarrow> bool" where
  "clocks_agree now pods =
     list_all (\<lambda>p. list_all (\<lambda>c. \<bar>now - cond_lastTransitionTime c\<bar> < 2 ^ 61) (gp_conditions p)) pods"

lemma earliest_spec:
  "case earliest since cs of
     None \<Rightarrow> since = None \<and> \<not> list_ex ready_condition cs
   | Some t \<Rightarrow> (since = Some t \<or> (\<exists>c \<in> set cs. ready_condition c \<and> cond_lastTransitionTime c = t)) \<and>
       (\<forall>u. since = Some u \<longrightarrow> t \<le> u) \<and> (\<forall>c \<in> set cs. ready_condition c \<longrightarrow> t \<le> cond_lastTransitionTime c)"
proof (induction cs arbitrary: since)
  case (Cons c cs)
  show ?case
    using Cons.IH[of "if ready_condition c \<and> (case since of None \<Rightarrow> True | Some t \<Rightarrow> cond_lastTransitionTime c < t)
        then Some (cond_lastTransitionTime c) else since"]
    by (cases since) (force split: option.splits if_splits)+
qed (simp split: option.split)

lemma gatewayReadySince_None: "gatewayReadySince pods n = None \<Longrightarrow> \<not> gateway_up pods n"
  using earliest_spec[of None "concat (map gp_conditions (filter (pod_serves n) pods))"]
  by (auto simp: gatewayReadySince_def gateway_up_def list_ex_iff)

lemma gatewayReadySince_Some:
  assumes "gatewayReadySince pods n = Some t"
  shows "gateway_up pods n" "served_at now pods n \<longleftrightarrow> t + gatewaySettle \<le> now"
    "clocks_agree now pods \<Longrightarrow> \<bar>now - t\<bar> < 2 ^ 61"
proof -
  have t: "\<exists>p \<in> set pods. pod_serves n p \<and> (\<exists>c \<in> set (gp_conditions p). ready_condition c \<and> cond_lastTransitionTime c = t)"
    and least: "\<And>p c. p \<in> set pods \<Longrightarrow> pod_serves n p \<Longrightarrow> c \<in> set (gp_conditions p) \<Longrightarrow> ready_condition c \<Longrightarrow>
      t \<le> cond_lastTransitionTime c"
    using assms earliest_spec[of None "concat (map gp_conditions (filter (pod_serves n) pods))"]
    by (auto simp: gatewayReadySince_def)
  show "gateway_up pods n" using t by (auto simp: gateway_up_def list_ex_iff)
  show "served_at now pods n \<longleftrightarrow> t + gatewaySettle \<le> now"
  proof
    assume "served_at now pods n"
    then show "t + gatewaySettle \<le> now" unfolding served_at_def list_ex_iff using least by force
  next
    assume "t + gatewaySettle \<le> now"
    with t show "served_at now pods n" unfolding served_at_def list_ex_iff by auto
  qed
  show "\<bar>now - t\<bar> < 2 ^ 61" if "clocks_agree now pods"
    using t that unfolding clocks_agree_def list_all_iff by auto
qed

lemma settle_left_eq: "\<bar>now - t\<bar> < 2 ^ 61 \<Longrightarrow> settle_left now t = t + gatewaySettle - now"
proof -
  assume "\<bar>now - t\<bar> < 2 ^ 61"
  then have "- (2 ^ 61) < now - t" "now - t < 2 ^ 61" by linarith+
  then show ?thesis by (simp add: settle_left_def gatewaySettle_def second_def time_sub_id sub64_id)
qed

lemma up_not_served: "served_at now pods n \<Longrightarrow> gateway_up pods n"
  by (auto simp: served_at_def gateway_up_def list_ex_iff)

text \<open>The loop over the nodes: those not served, and the longest wait among those that are up.\<close>

lemma gateways_down_spec:
  assumes "clocks_agree now pods" "0 \<le> settling"
  shows "fst (gateways_down now pods ns down settling) = down @ filter (\<lambda>n. \<not> served_at now pods n) ns"
    "0 \<le> snd (gateways_down now pods ns down settling)"
    "0 \<le> d \<Longrightarrow> snd (gateways_down now pods ns down settling) \<le> d \<longleftrightarrow>
       settling \<le> d \<and> list_all (\<lambda>n. gateway_up pods n \<longrightarrow> served_at (now + d) pods n) ns"
  using assms(2)
proof (induction ns arbitrary: down settling)
  case (Cons n ns)
  case 1
  show ?case
  proof (cases "gatewayReadySince pods n")
    case None
    then show ?thesis using Cons(1) 1 gatewayReadySince_None[OF None] up_not_served[of now pods n] by auto
  next
    case (Some t)
    note t = gatewayReadySince_Some[OF Some]
    have "settle_left now t = t + gatewaySettle - now" using t(3)[OF assms(1)] by (rule settle_left_eq)
    then show ?thesis using Cons(1) 1 t(2)[of now] by (auto simp: Some)
  qed
next
  case (Cons n ns)
  case 2
  then show ?case using Cons(2) by (auto split: option.split)
next
  case (Cons n ns)
  case 3
  show ?case
  proof (cases "gatewayReadySince pods n")
    case None
    then show ?thesis using Cons(3)[OF 3] gatewayReadySince_None[OF None] by simp
  next
    case (Some t)
    note t = gatewayReadySince_Some[OF Some]
    have left: "settle_left now t = t + gatewaySettle - now"
      using t(3)[OF assms(1)] by (rule settle_left_eq)
    show ?thesis
      using Cons(3)[OF 3(1)] 3 t(1) t(2)[of "now + d"] by (auto simp: Some left)
  qed
qed simp_all

text \<open>The output counts as ready exactly when every node that wants it has a gateway pod, not being deleted, that has
  been Ready for the settling time, and the pass asks to be woken at the right moment: waiting any shorter time
  leaves a node out whose gateway is up, and waiting that long leaves none out.\<close>

theorem outputReady_exact:
  assumes "nodes \<noteq> []" "se_pods env (gatewayNamespace cfg) (componentLabel, gatewayComponent) = Inr pods"
    "clocks_agree now pods"
  shows "\<exists>c settling. outputReady cfg env now nodes = Inr (c, settling) \<and>
    (cond_status c = ConditionTrue \<longleftrightarrow> list_all (served_at now pods) nodes) \<and>
    (cond_status c = ConditionFalse \<longleftrightarrow> \<not> list_all (served_at now pods) nodes) \<and>
    (\<forall>d \<ge> 0. list_all (\<lambda>n. gateway_up pods n \<longrightarrow> served_at (now + d) pods n) nodes \<longleftrightarrow> settling \<le> d)"
proof -
  obtain down settling where g: "gateways_down now pods nodes [] 0 = (down, settling)" by fastforce
  note spec = gateways_down_spec[where settling = 0 and ns = nodes and down = "[]", OF assms(3) order_refl, unfolded g fst_conv snd_conv append_Nil]
  have down: "down = [] \<longleftrightarrow> list_all (served_at now pods) nodes"
    using spec(1) by (auto simp: filter_empty_conv list_all_iff)
  have wait: "list_all (\<lambda>n. gateway_up pods n \<longrightarrow> served_at (now + d) pods n) nodes \<longleftrightarrow> settling \<le> d" if "0 \<le> d" for d
    using spec(3)[OF that] that by simp
  have "settling = 0" if "down = []"
    using wait[of 0] spec(2) that down by (auto simp: list_all_iff)
  then show ?thesis
    using assms(1,2) down wait by (cases "down = []") (auto simp: outputReady_def judge_output_def g)
qed

subsection \<open>MembersReady and Valid\<close>

lemma differs_iff: "differs k rs \<longleftrightarrow> (\<exists>x \<in> set rs. \<exists>y \<in> set rs. snd x k \<noteq> snd y k)"
proof (cases rs)
  case (Cons x rest)
  obtain ref first where x: "x = (ref, first)" by fastforce
  have d: "differs k rs \<longleftrightarrow> (\<exists>y \<in> set rest. first k \<noteq> snd y k)"
    by (simp add: Cons x list_ex_iff split_beta)
  show ?thesis
  proof
    assume "differs k rs"
    then obtain y where "y \<in> set rest" "snd x k \<noteq> snd y k" unfolding d x by auto
    then show "\<exists>x \<in> set rs. \<exists>y \<in> set rs. snd x k \<noteq> snd y k" unfolding Cons by auto
  next
    assume "\<exists>x \<in> set rs. \<exists>y \<in> set rs. snd x k \<noteq> snd y k"
    then obtain y z where "y \<in> set rs" "z \<in> set rs" "snd y k \<noteq> snd z k" by blast
    then show "differs k rs" unfolding d unfolding Cons x by (metis set_ConsD snd_conv)
  qed
qed simp

definition members_agree :: "'v member list \<Rightarrow> bool" where
  "members_agree ms \<longleftrightarrow>
     list_all (\<lambda>k. list_all (\<lambda>x. list_all (\<lambda>y. snd x k = snd y k) (readable ms)) (readable ms)) alignedKeys"

lemma disagreement_empty: "disagreement J ms = '''' \<longleftrightarrow> members_agree ms"
proof -
  have "disagreement J ms = '''' \<longleftrightarrow> filter (\<lambda>k. differs k (readable ms)) alignedKeys = []"
    by (simp add: disagreement_def Let_def)
  also have "\<dots> \<longleftrightarrow> members_agree ms"
    unfolding filter_empty_conv differs_iff members_agree_def list_all_iff by simp
  finally show ?thesis .
qed

definition delivering :: "NodeStalledMembers list \<Rightarrow> 'v member \<Rightarrow> bool" where
  "delivering stalled m \<longleftrightarrow>
     mb_flow m \<noteq> None \<and> mb_unreadable m = '''' \<and> res_found (mb_origin m) \<and>
     list_all (\<lambda>s. ref_id (mb_ref m) \<notin> set (sm_flowIDs s)) stalled"

lemma fault_of_NoFault: "fault_of stalled m = NoFault \<longleftrightarrow> delivering stalled m"
  by (auto simp: fault_of_def delivering_def stalled_nodes_def Let_def filter_empty_conv list_all_iff)

lemma no_fault_texts:
  "concat (map missing_text faults) = [] \<and> concat (map apart_text faults) = [] \<and> concat (map stalled_text faults) = [] \<longleftrightarrow>
   list_all (\<lambda>f. f = NoFault) faults"
proof (induction faults)
  case (Cons f faults)
  then show ?case by (cases f) auto
qed simp

text \<open>The members count as ready exactly when each has a flow with a readable definition and a live origin, none is
  reported stalled on a node the output is served on, and any two published definitions agree in every aligned
  key.\<close>

theorem membersReady_exact:
  "cond_status (membersReady J ms stalled) =
     (if list_all (delivering stalled) ms \<and> members_agree ms then ConditionTrue else ConditionFalse)"
proof -
  have "list_all (\<lambda>f. f = NoFault) (map (fault_of stalled) ms) \<longleftrightarrow> list_all (delivering stalled) ms"
    by (simp add: list_all_iff fault_of_NoFault)
  with no_fault_texts[of "map (fault_of stalled) ms"] show ?thesis
    unfolding membersReady_def Let_def disagreement_empty by auto
qed

lemma validate_type [simp]: "cond_type (validate M J env s ms) = ConditionValid"
  by (simp add: validate_def Let_def split: sum.split option.split)

lemma validate_status:
  "cond_status (validate M J env s ms) = ConditionTrue \<longleftrightarrow>
     (\<exists>e. se_flow env (flowref_name (output_ref s)) = Inl e) \<and>
     list_all (\<lambda>m. rf_domain m = rf_domain (ss_output (set_spec s))) (ss_members (set_spec s)) \<and>
     (validated M s \<or>
      list_all (\<lambda>m. mb_unreadable m = '''') ms \<and> members_agree ms \<and> list_ex (\<lambda>m. mb_def m \<noteq> None) ms)"
proof -
  have pub: "published ms = 0 \<longleftrightarrow> \<not> list_ex (\<lambda>m. mb_def m \<noteq> None) ms"
    by (auto simp: published_def list_ex_iff filter_empty_conv)
  show ?thesis
    unfolding validate_def Let_def disagreement_empty pub
    by (auto simp: list_all_iff find_first_None_iff split: sum.split option.split dest!: find_first_SomeD)
qed

lemma validate_not_unknown: "cond_status (validate M J env s ms) \<noteq> ConditionUnknown"
  by (simp add: validate_def Let_def split: sum.split option.split)

subsection \<open>One pass\<close>

lemma prune_set_simps [simp]:
  "set_meta (prune_set s nodes) = set_meta s" "set_spec (prune_set s nodes) = set_spec s"
  "sst_nodes (set_status (prune_set s nodes)) = nodes"
  "sst_conditions (set_status (prune_set s nodes)) = sst_conditions (set_status s)"
  "sst_stalledMembers (set_status (prune_set s nodes)) = stalledOn (sst_stalledMembers (set_status s)) nodes"
  "output_ref (prune_set s nodes) = output_ref s" "validated M (prune_set s nodes) = validated M s"
  by (simp_all add: prune_set_def output_ref_def validated_def split: option.split)

lemma existingNodes_spec:
  "existingNodes env ns = Inr nodes \<Longrightarrow>
   set nodes \<subseteq> set ns \<and> (\<forall>n \<in> set nodes. se_node env n = Inr ()) \<and>
   (\<forall>n \<in> set ns - set nodes. \<exists>e. se_node env n = Inl e \<and> isNotFound e)"
proof (induction ns arbitrary: nodes)
  case (Cons a ns)
  show ?case
  proof (cases "se_node env a")
    case (Inl e)
    with Cons.prems have "isNotFound e" "existingNodes env ns = Inr nodes" by (auto split: if_splits)
    with Cons.IH[of nodes] Inl show ?thesis by auto
  next
    case (Inr u)
    with Cons.prems obtain out where "existingNodes env ns = Inr out" "nodes = a # out" by (auto split: sum.splits)
    with Cons.IH[of out] Inr show ?thesis by auto
  qed
qed simp

lemma read_members_all2:
  "read_members cfg J env specs = Inr ms \<Longrightarrow> list_all2 (\<lambda>spec m. read_member cfg J env spec = Inr m) specs ms"
  by (induction specs arbitrary: ms) (auto split: sum.splits)

lemma members_zip:
  "members cfg J env s = Inr ms \<Longrightarrow> (spec, m) \<in> set (zip (ss_members (set_spec s)) ms) \<Longrightarrow>
   spec \<in> set (ss_members (set_spec s)) \<and> read_member cfg J env spec = Inr m"
  unfolding members_def by (drule read_members_all2) (auto simp: list_all2_iff dest: set_zip_leftD)

lemma members_zip_covers:
  "members cfg J env s = Inr ms \<Longrightarrow> spec \<in> set (ss_members (set_spec s)) \<Longrightarrow>
   \<exists>m. (spec, m) \<in> set (zip (ss_members (set_spec s)) ms)"
  unfolding members_def
  by (drule read_members_all2) (metis in_set_impl_in_set_zip1 list_all2_lengthD)

text \<open>What a pass has read by the time it writes.\<close>

definition pass_read ::
  "set_config \<Rightarrow> 'v json_api \<Rightarrow> set_env \<Rightarrow> NamespacedName \<Rightarrow> MxlFlowRedundancySet \<Rightarrow> string list \<Rightarrow> 'v member list \<Rightarrow> bool" where
  "pass_read cfg J env key s0 nodes ms \<longleftrightarrow>
     se_set env key = Inr s0 \<and> om_deletionTimestamp (set_meta s0) = 0 \<and>
     existingNodes env (sst_nodes (set_status s0)) = Inr nodes \<and> members cfg J env s0 = Inr ms"

lemma members_prune [simp]: "members cfg J env (prune_set s nodes) = members cfg J env s"
  by (simp add: members_def)

lemma reconcile_set_writes:
  assumes "w \<in> set (fst (reconcile_set cfg M J env now key))"
  obtains s0 nodes ms where "pass_read cfg J env key s0 nodes ms"
      "cond_status (validate M J env (prune_set s0 nodes) ms) = ConditionTrue"
      "w \<in> set (fst (ensureMirrors cfg M env (prune_set s0 nodes) ms))"
  | s0 nodes ms served settling disjoint where "pass_read cfg J env key s0 nodes ms"
      "outputReady cfg env now nodes = Inr (served, settling)"
      "pathsDisjoint cfg env (prune_set s0 nodes) = Inr disjoint"
      "w \<in> set (fst (publish_set M env now (was_pruned s0 nodes) (prune_set s0 nodes)
        [validate M J env (prune_set s0 nodes) ms,
         membersReady J ms (stalledOn (sst_stalledMembers (set_status s0)) nodes), served, disjoint]))"
  using assms unfolding reconcile_set_def Let_def
  by (auto simp: io_bind_writes_iff pass_read_def split: sum.splits if_splits prod.splits)

lemma reconcile_set_ok:
  assumes "snd (reconcile_set cfg M J env now key) = Inr r" "pass_read cfg J env key s0 nodes ms"
    "cond_status (validate M J env (prune_set s0 nodes) ms) = ConditionTrue"
  shows "snd (ensureMirrors cfg M env (prune_set s0 nodes) ms) = Inr ()"
    "set (fst (ensureMirrors cfg M env (prune_set s0 nodes) ms)) \<subseteq> set (fst (reconcile_set cfg M J env now key))"
proof -
  obtain served settling where out: "outputReady cfg env now nodes = Inr (served, settling)"
    using assms unfolding reconcile_set_def pass_read_def Let_def
    by (auto elim!: io_bind_okE split: prod.splits)
  show "snd (ensureMirrors cfg M env (prune_set s0 nodes) ms) = Inr ()"
    using assms out unfolding reconcile_set_def pass_read_def Let_def by (auto elim!: io_bind_okE)
  show "set (fst (ensureMirrors cfg M env (prune_set s0 nodes) ms)) \<subseteq> set (fst (reconcile_set cfg M J env now key))"
    using assms out unfolding reconcile_set_def pass_read_def Let_def by (auto simp: io_bind_writes_iff)
qed

lemma ensureMirrors_writes:
  assumes "w \<in> set (fst (ensureMirrors cfg M env s ms))"
  obtains node spec m where "node \<in> set (sst_nodes (set_status s))" "(spec, m) \<in> set (zip (ss_members (set_spec s)) ms)"
    "res_found (mb_origin m)" "res_node (mb_origin m) \<noteq> node"
    "w \<in> set (fst (set_ensureMirror cfg M env s spec (res_node (mb_origin m)) node))"
  using assms unfolding ensureMirrors_def ensure_member_def
  by (auto dest!: io_each_writes split: if_splits prod.splits)

lemma ensureMirrors_no_status: "UpdateSetStatus s' \<notin> set (fst (ensureMirrors cfg M env s ms))"
proof
  assume "UpdateSetStatus s' \<in> set (fst (ensureMirrors cfg M env s ms))"
  then obtain node spec src where "UpdateSetStatus s' \<in> set (fst (set_ensureMirror cfg M env s spec src node))"
    by (rule ensureMirrors_writes) blast
  then show False
    by (cases "se_mirror env (member_mirror_key cfg (member_ref spec) node)")
      (auto simp: set_ensureMirror_def io_bind_writes_iff Let_def split: if_splits)
qed

lemma set_ensureMirror_create:
  "CreateMemberMirror mirror \<in> set (fst (set_ensureMirror cfg M env s spec src target)) \<Longrightarrow>
   \<exists>provider. set_provider M env src target = Inr provider \<and> mirror = member_mirror cfg s spec src target provider \<and>
     (\<exists>e. se_mirror env (member_mirror_key cfg (member_ref spec) target) = Inl e \<and> isNotFound e)"
  by (cases "se_mirror env (member_mirror_key cfg (member_ref spec) target)")
    (auto simp: set_ensureMirror_def io_bind_writes_iff Let_def split: if_splits)

lemma io_each_ok_writes: "snd (io_each f xs) = Inr u \<Longrightarrow> x \<in> set xs \<Longrightarrow> set (fst (f x)) \<subseteq> set (fst (io_each f xs))"
  by (induction xs) (auto elim!: io_bind_okE)

lemma created_spec:
  assumes "CreateMemberMirror mirror \<in> set (fst (reconcile_set cfg M J env now key))"
  obtains s0 nodes ms spec m provider where "pass_read cfg J env key s0 nodes ms"
    "spec \<in> set (ss_members (set_spec s0))" "read_member cfg J env spec = Inr m" "res_found (mb_origin m)"
    "ms_targetNode (mir_spec mirror) \<in> set nodes" "res_node (mb_origin m) \<noteq> ms_targetNode (mir_spec mirror)"
    "cond_status (validate M J env (prune_set s0 nodes) ms) = ConditionTrue"
    "mirror = member_mirror cfg (prune_set s0 nodes) spec (res_node (mb_origin m)) (ms_targetNode (mir_spec mirror)) provider"
    "\<exists>e. se_mirror env (objectKey (mir_meta mirror)) = Inl e \<and> isNotFound e"
  using assms
proof (rule reconcile_set_writes)
  fix s0 nodes ms
  assume p: "pass_read cfg J env key s0 nodes ms"
    and v: "cond_status (validate M J env (prune_set s0 nodes) ms) = ConditionTrue"
    and w: "CreateMemberMirror mirror \<in> set (fst (ensureMirrors cfg M env (prune_set s0 nodes) ms))"
  from w obtain node spec m where n: "node \<in> set nodes" "(spec, m) \<in> set (zip (ss_members (set_spec s0)) ms)"
    "res_found (mb_origin m)" "res_node (mb_origin m) \<noteq> node"
    "CreateMemberMirror mirror \<in> set (fst (set_ensureMirror cfg M env (prune_set s0 nodes) spec (res_node (mb_origin m)) node))"
    by (rule ensureMirrors_writes) auto
  from set_ensureMirror_create[OF n(5)] obtain provider where
    c: "mirror = member_mirror cfg (prune_set s0 nodes) spec (res_node (mb_origin m)) node provider"
      "\<exists>e. se_mirror env (member_mirror_key cfg (member_ref spec) node) = Inl e \<and> isNotFound e"
    by blast
  then have t: "ms_targetNode (mir_spec mirror) = node"
    "objectKey (mir_meta mirror) = member_mirror_key cfg (member_ref spec) node"
    by (simp_all add: member_mirror_def objectKey_def new_meta_def member_mirror_key_def)
  have "spec \<in> set (ss_members (set_spec s0)) \<and> read_member cfg J env spec = Inr m"
    using members_zip[of cfg J env s0 ms spec m] p n(2) by (simp add: pass_read_def)
  then show thesis using that[of s0 nodes ms spec m provider] p v n(1,3,4) c t by auto
next
  fix s0 nodes ms served settling disjoint
  assume "CreateMemberMirror mirror \<in> set (fst (publish_set M env now (was_pruned s0 nodes) (prune_set s0 nodes)
        [validate M J env (prune_set s0 nodes) ms,
         membersReady J ms (stalledOn (sst_stalledMembers (set_status s0)) nodes), served, disjoint]))"
  then show thesis by (auto simp: publish_set_def Let_def split: prod.splits if_splits)
qed


text \<open>C23. And it creates all of them: when a pass of a valid set ends without an error, every member with a live origin has,
  for every node of the set that is still in the cluster and is not the origin's own, a mirror with the right source
  and provider, or the pass has written one or corrected it.\<close>

theorem set_mirrors_every_member:
  assumes "snd (reconcile_set cfg M J env now key) = Inr r" "pass_read cfg J env key s nodes ms"
    "cond_status (validate M J env (prune_set s nodes) ms) = ConditionTrue"
    "node \<in> set nodes" "spec \<in> set (ss_members (set_spec s))" "read_member cfg J env spec = Inr m"
    "res_found (mb_origin m)" "res_node (mb_origin m) \<noteq> node"
  shows "\<exists>provider. set_provider M env (res_node (mb_origin m)) node = Inr provider \<and>
    (case se_mirror env (member_mirror_key cfg (member_ref spec) node) of
       Inr existing \<Rightarrow>
         ms_sourceNode (mir_spec existing) = res_node (mb_origin m) \<and> ms_provider (mir_spec existing) = provider \<or>
         PatchMemberMirror (member_mirror_key cfg (member_ref spec) node) (drift existing (res_node (mb_origin m)) provider None)
           \<in> set (fst (reconcile_set cfg M J env now key))
     | Inl _ \<Rightarrow> CreateMemberMirror (member_mirror cfg s spec (res_node (mb_origin m)) node provider)
           \<in> set (fst (reconcile_set cfg M J env now key)))"
proof -
  let ?ens = "set_ensureMirror cfg M env (prune_set s nodes) spec (res_node (mb_origin m)) node"
  note ok = reconcile_set_ok[OF assms(1-3)]
  obtain m' where zip: "(spec, m') \<in> set (zip (ss_members (set_spec s)) ms)"
    using members_zip_covers[of cfg J env s ms spec] assms(2,5) by (auto simp: pass_read_def)
  then have "m' = m" using members_zip[of cfg J env s ms spec m'] assms(2,6) by (auto simp: pass_read_def)
  with zip assms(7,8) have inner: "ensure_member cfg M env (prune_set s nodes) node (spec, m') = ?ens"
    by (simp add: ensure_member_def)
  let ?turn = "\<lambda>node. io_each (ensure_member cfg M env (prune_set s nodes) node) (zip (ss_members (set_spec s)) ms)"
  have each: "snd (io_each ?turn nodes) = Inr ()" using ok(1) by (simp add: ensureMirrors_def)
  have turn: "snd (?turn node) = Inr ()" using io_each_ok[OF each assms(4)] .
  have "snd ?ens = Inr ()" using io_each_ok[OF turn zip] by (simp add: inner)
  moreover have "set (fst ?ens) \<subseteq> set (fst (reconcile_set cfg M J env now key))"
    using io_each_ok_writes[OF turn zip] io_each_ok_writes[OF each assms(4)] ok(2)
    by (auto simp: inner ensureMirrors_def)
  moreover have "member_mirror cfg (prune_set s nodes) spec src target provider = member_mirror cfg s spec src target provider"
    for src target provider by (simp add: member_mirror_def set_owner_def)
  ultimately show ?thesis
    unfolding set_ensureMirror_def Let_def
    by (auto elim!: io_bind_okE split: sum.splits if_splits)
qed

subsection \<open>The published status\<close>

lemma apply_conditions_other:
  "meta_api_ok M \<Longrightarrow> t \<notin> cond_type ` set conds \<Longrightarrow>
   findStatusCondition M (fst (apply_conditions M now cs conds)) t = findStatusCondition M cs t"
  by (induction conds arbitrary: cs) (auto simp: split_beta meta_api_ok_find)

lemma apply_conditions_find:
  "meta_api_ok M \<Longrightarrow> distinct (map cond_type conds) \<Longrightarrow> c \<in> set conds \<Longrightarrow>
   findStatusCondition M (fst (apply_conditions M now cs conds)) (cond_type c) =
     Some (settled now (findStatusCondition M cs (cond_type c)) c)"
proof (induction conds arbitrary: cs)
  case (Cons d conds)
  then consider "c = d" "cond_type c \<notin> cond_type ` set conds" | "c \<in> set conds" "cond_type c \<noteq> cond_type d"
    by (metis distinct.simps(2) image_eqI list.set_map list.simps(9) set_ConsD)
  then show ?case
    using Cons by cases (auto simp: split_beta meta_api_ok_find apply_conditions_other)
qed simp

lemma membersReady_type [simp]: "cond_type (membersReady J ms stalled) = ConditionMembersReady"
  by (simp add: membersReady_def Let_def)

lemma outputReady_type: "outputReady cfg env now nodes = Inr (c, d) \<Longrightarrow> cond_type c = ConditionOutputReady"
  by (auto simp: outputReady_def judge_output_def split: if_splits sum.splits prod.splits)

lemma pathsDisjoint_type: "pathsDisjoint cfg env s = Inr c \<Longrightarrow> cond_type c = ConditionTypePathsDisjoint"
  using all_paths_spec[of env]
  by (auto simp: pathsDisjoint_def judge_paths_def split: if_splits sum.splits prod.splits) (metis sum.distinct(1) sum.inject(1) condition_of_simps(1))

lemma published_spec:
  assumes "UpdateSetStatus s' \<in> set (fst (reconcile_set cfg M J env now key))"
  obtains s nodes ms served settling disjoint conds where "pass_read cfg J env key s nodes ms"
    "outputReady cfg env now nodes = Inr (served, settling)" "pathsDisjoint cfg env (prune_set s nodes) = Inr disjoint"
    "conds = map (at_generation (om_generation (set_meta s))) [validate M J env (prune_set s nodes) ms,
       membersReady J ms (stalledOn (sst_stalledMembers (set_status s)) nodes), served, disjoint]"
    "distinct (map cond_type conds)"
    "s' = (prune_set s nodes)\<lparr>set_status := (set_status (prune_set s nodes))\<lparr>
       sst_conditions := fst (apply_conditions M now (sst_conditions (set_status s)) conds),
       sst_observedGeneration := om_generation (set_meta s)\<rparr>\<rparr>"
  using assms
proof (rule reconcile_set_writes)
  fix s nodes ms served settling disjoint
  assume p: "pass_read cfg J env key s nodes ms"
    and o: "outputReady cfg env now nodes = Inr (served, settling)" and d: "pathsDisjoint cfg env (prune_set s nodes) = Inr disjoint"
    and w: "UpdateSetStatus s' \<in> set (fst (publish_set M env now (was_pruned s nodes) (prune_set s nodes)
      [validate M J env (prune_set s nodes) ms, membersReady J ms (stalledOn (sst_stalledMembers (set_status s)) nodes), served, disjoint]))"
  define conds where "conds = map (at_generation (om_generation (set_meta s))) [validate M J env (prune_set s nodes) ms,
       membersReady J ms (stalledOn (sst_stalledMembers (set_status s)) nodes), served, disjoint]"
  have "distinct (map cond_type conds)"
    using outputReady_type[OF o] pathsDisjoint_type[OF d]
    by (simp add: conds_def at_generation_def set_condition_types)
  moreover have "s' = (prune_set s nodes)\<lparr>set_status := (set_status (prune_set s nodes))\<lparr>
       sst_conditions := fst (apply_conditions M now (sst_conditions (set_status s)) conds),
       sst_observedGeneration := om_generation (set_meta s)\<rparr>\<rparr>"
    using w unfolding publish_set_def Let_def prune_set_simps conds_def[symmetric]
    by (auto split: prod.splits if_splits)
  ultimately show thesis using that p o d conds_def by blast
next
  fix s nodes ms
  assume "UpdateSetStatus s' \<in> set (fst (ensureMirrors cfg M env (prune_set s nodes) ms))"
  then show thesis by (simp add: ensureMirrors_no_status)
qed

text \<open>A set that was found valid is not found invalid at the same generation because of its members: as long as no flow
  takes the output's name, whatever status a pass publishes still carries Valid at that generation, so the gateways go
  on serving the output from the members that remain.\<close>

theorem validity_survives_members:
  assumes "meta_api_ok M" "se_set env key = Inr s" "validated M s"
    "se_flow env (flowref_name (output_ref s)) = Inl e"
    "list_all (\<lambda>r. rf_domain r = rf_domain (ss_output (set_spec s))) (ss_members (set_spec s))"
    "UpdateSetStatus s' \<in> set (fst (reconcile_set cfg M J env now key))"
  shows "validated M s'"
  using assms(6)
proof (rule published_spec)
  fix s0 nodes ms served settling disjoint conds
  assume p: "pass_read cfg J env key s0 nodes ms"
    and conds: "conds = map (at_generation (om_generation (set_meta s0))) [validate M J env (prune_set s0 nodes) ms,
       membersReady J ms (stalledOn (sst_stalledMembers (set_status s0)) nodes), served, disjoint]"
      "distinct (map cond_type conds)"
    and s': "s' = (prune_set s0 nodes)\<lparr>set_status := (set_status (prune_set s0 nodes))\<lparr>
       sst_conditions := fst (apply_conditions M now (sst_conditions (set_status s0)) conds),
       sst_observedGeneration := om_generation (set_meta s0)\<rparr>\<rparr>"
  let ?c = "at_generation (om_generation (set_meta s0)) (validate M J env (prune_set s0 nodes) ms)"
  have [simp]: "s0 = s" using p assms(2) by (simp add: pass_read_def)
  have "cond_status (validate M J env (prune_set s0 nodes) ms) = ConditionTrue"
    using assms(3-5) by (simp add: validate_status)
  moreover have "findStatusCondition M (fst (apply_conditions M now (sst_conditions (set_status s0)) conds)) ConditionValid =
      Some (settled now (findStatusCondition M (sst_conditions (set_status s0)) ConditionValid) ?c)"
    using apply_conditions_find[OF assms(1) conds(2), of ?c now "sst_conditions (set_status s0)"]
    by (simp add: conds(1) at_generation_def)
  ultimately show ?thesis by (simp add: validated_def s' at_generation_def)
qed

text \<open>The two controllers agree on who wants a member mirror: the mirror controller, once it reads the set with the node
  still in its status, finds every mirror a pass created claimed, and so does not collect it.\<close>

theorem member_mirror_is_claimed:
  assumes "CreateMemberMirror mirror \<in> set (fst (reconcile_set cfg M J env now key))" "se_set env key = Inr s"
    "mc_redundancySets mcfg" "rd_set (me_reader menv) (om_name (set_meta s)) = Inr s'"
    "om_uid (set_meta s') = om_uid (set_meta s)" "ms_targetNode (mir_spec mirror) \<in> set (sst_nodes (set_status s'))"
    "claim mcfg menv mirror = Inr j"
  shows "j_ok j"
  using assms(1)
proof (rule created_spec)
  fix s0 nodes ms spec m provider
  assume "pass_read cfg J env key s0 nodes ms"
    and c: "mirror = member_mirror cfg (prune_set s0 nodes) spec (res_node (mb_origin m)) (ms_targetNode (mir_spec mirror)) provider"
  then have [simp]: "s0 = s" using assms(2) by (simp add: pass_read_def)
  have "om_ownerReferences (mir_meta mirror) = [set_owner s]"
    by (subst c) (simp add: member_mirror_def new_meta_def set_owner_def)
  moreover have "set_claims mcfg (me_reader menv) mirror (set_owner s)"
    using assms(3-6) by (simp add: set_claims_def set_owner_def)
  ultimately show ?thesis using claim_spec[OF assms(7)] by (simp add: claimed_by_def)
qed

text \<open>Whatever status a pass publishes names only nodes of the old status that are still in the cluster, keeps stalled
  entries only of those, is marked with the generation it was computed from, and carries the four verdicts of this
  pass at that generation.\<close>

theorem published_status:
  assumes "meta_api_ok M" "UpdateSetStatus s' \<in> set (fst (reconcile_set cfg M J env now key))"
  shows "\<exists>s nodes ms served settling disjoint. pass_read cfg J env key s nodes ms \<and>
    set_meta s' = set_meta s \<and> set_spec s' = set_spec s \<and>
    sst_nodes (set_status s') = nodes \<and> list_all (\<lambda>n. n \<in> set (sst_nodes (set_status s)) \<and> se_node env n = Inr ()) nodes \<and>
    list_all (\<lambda>e. sm_node e \<in> set nodes) (sst_stalledMembers (set_status s')) \<and>
    sst_observedGeneration (set_status s') = om_generation (set_meta s) \<and>
    outputReady cfg env now nodes = Inr (served, settling) \<and> pathsDisjoint cfg env (prune_set s nodes) = Inr disjoint \<and>
    list_all (\<lambda>c. case findStatusCondition M (sst_conditions (set_status s')) (cond_type c) of
        None \<Rightarrow> False
      | Some d \<Rightarrow> cond_status d = cond_status c \<and> cond_reason d = cond_reason c \<and>
          cond_observedGeneration d = om_generation (set_meta s))
      [validate M J env (prune_set s nodes) ms, membersReady J ms (sst_stalledMembers (set_status s')), served, disjoint]"
  using assms(2)
proof (rule published_spec)
  fix s nodes ms served settling disjoint conds
  assume p: "pass_read cfg J env key s nodes ms"
    and o: "outputReady cfg env now nodes = Inr (served, settling)" "pathsDisjoint cfg env (prune_set s nodes) = Inr disjoint"
    and conds: "conds = map (at_generation (om_generation (set_meta s))) [validate M J env (prune_set s nodes) ms,
       membersReady J ms (stalledOn (sst_stalledMembers (set_status s)) nodes), served, disjoint]"
      "distinct (map cond_type conds)"
    and s': "s' = (prune_set s nodes)\<lparr>set_status := (set_status (prune_set s nodes))\<lparr>
       sst_conditions := fst (apply_conditions M now (sst_conditions (set_status s)) conds),
       sst_observedGeneration := om_generation (set_meta s)\<rparr>\<rparr>"
  have nodes: "list_all (\<lambda>n. n \<in> set (sst_nodes (set_status s)) \<and> se_node env n = Inr ()) nodes"
    using existingNodes_spec[of env "sst_nodes (set_status s)" nodes] p by (auto simp: pass_read_def list_all_iff)
  have fields: "set_meta s' = set_meta s" "set_spec s' = set_spec s" "sst_nodes (set_status s') = nodes"
    "sst_stalledMembers (set_status s') = stalledOn (sst_stalledMembers (set_status s)) nodes"
    "sst_observedGeneration (set_status s') = om_generation (set_meta s)"
    "sst_conditions (set_status s') = fst (apply_conditions M now (sst_conditions (set_status s)) conds)"
    by (simp_all add: s' del: apply_conditions.simps)
  have "case findStatusCondition M (sst_conditions (set_status s')) (cond_type c) of
        None \<Rightarrow> False
      | Some d \<Rightarrow> cond_status d = cond_status c \<and> cond_reason d = cond_reason c \<and>
          cond_observedGeneration d = om_generation (set_meta s)" if "at_generation (om_generation (set_meta s)) c \<in> set conds" for c
    using apply_conditions_find[OF assms(1) conds(2) that, of now "sst_conditions (set_status s)"]
    by (simp add: fields at_generation_def)
  then have "list_all (\<lambda>c. case findStatusCondition M (sst_conditions (set_status s')) (cond_type c) of
        None \<Rightarrow> False
      | Some d \<Rightarrow> cond_status d = cond_status c \<and> cond_reason d = cond_reason c \<and>
          cond_observedGeneration d = om_generation (set_meta s))
      [validate M J env (prune_set s nodes) ms, membersReady J ms (sst_stalledMembers (set_status s')), served, disjoint]"
    unfolding list_all_iff fields(4) conds(1) set_map by (meson image_eqI)
  moreover have "list_all (\<lambda>e. sm_node e \<in> set nodes) (sst_stalledMembers (set_status s'))"
    by (simp add: fields stalledOn_def list_all_iff)
  ultimately show ?thesis using p o nodes fields(1,2,3,5) by blast
qed

subsection \<open>Witnesses\<close>

text \<open>Two members produced on node b, the output wanted on nodes c and gone; the gateway of c has been Ready for 3 s.\<close>

definition example_set :: MxlFlowRedundancySet where
  "example_set = \<lparr>set_meta = witness_meta ''s'',
     set_spec = \<lparr>ss_members = [\<lparr>rf_flowID = ''f'', rf_domain = ''''\<rparr>, \<lparr>rf_flowID = ''g'', rf_domain = ''''\<rparr>],
       ss_output = \<lparr>rf_flowID = ''o'', rf_domain = ''''\<rparr>, ss_skewBudget = 0, ss_preference = RedundancyOrdered\<rparr>,
     set_status = \<lparr>sst_nodes = [''c'', ''gone''], sst_stalledMembers = [], sst_observedGeneration = 0, sst_conditions = []\<rparr>\<rparr>"

definition example_gateway :: GatewayPod where
  "example_gateway = \<lparr>gp_meta = witness_meta ''gw'', gp_nodeName = ''c'',
     gp_conditions = [(condition_of ''Ready'' ConditionTrue '''' '''')\<lparr>cond_lastTransitionTime := 7 * second\<rparr>]\<rparr>"

definition example_set_env :: "MxlFlowRedundancySet \<Rightarrow> set_env" where
  "example_set_env s = \<lparr>se_set = (\<lambda>_. Inr s), se_node = (\<lambda>n. if n = ''gone'' then Inl ENotFound else Inr ()),
     se_flow = (\<lambda>n. if n = ''o'' then Inl ENotFound else Inr witness_flow), se_caps = (\<lambda>_. Inl ENotFound),
     se_pods = (\<lambda>_ _. Inr [example_gateway]), se_mirror = (\<lambda>_. Inl ENotFound), se_mirrors = (\<lambda>_. Inr []),
     se_create = (\<lambda>_. Inr ()), se_patch = (\<lambda>_ _. Inr ()), se_updateStatus = (\<lambda>_. Inr ())\<rparr>"

definition example_set_config :: set_config where
  "example_set_config = \<lparr>sc_namespace = ''mxl'', sc_gatewayNamespace = '''', sc_lease = None\<rparr>"

definition example_json :: "unit json_api" where
  "example_json = \<lparr>unmarshal = (\<lambda>_. Inr (Some (\<lambda>_. ()))), marshal = (\<lambda>_. '''')\<rparr>"

abbreviation example_set_run :: "MxlFlowRedundancySet \<Rightarrow> (set_write, Result) io" where
  "example_set_run s \<equiv> reconcile_set example_set_config list_meta_api example_json (example_set_env s) (10 * second)
     \<lparr>nn_namespace = '''', nn_name = ''s''\<rparr>"

definition example_member_mirror :: MxlFlowMirror where
  "example_member_mirror = member_mirror example_set_config example_set \<lparr>rf_flowID = ''f'', rf_domain = ''''\<rparr> ''b'' ''c''
     (fst (resolve list_meta_api empty_caps empty_caps))"

lemma example_created: "CreateMemberMirror example_member_mirror \<in> set (fst (example_set_run example_set))"
  by code_simp


lemma example_pass:
  "pass_read example_set_config example_json (example_set_env example_set) k example_set [''c'']
     [\<lparr>mb_ref = \<lparr>ref_domain = '''', ref_id = ''f''\<rparr>, mb_flow = Some witness_flow,
        mb_origin = no_origin\<lparr>res_node := ''b'', res_found := True\<rparr>, mb_def = Some (\<lambda>_. ()), mb_unreadable = ''''\<rparr>,
      \<lparr>mb_ref = \<lparr>ref_domain = '''', ref_id = ''g''\<rparr>, mb_flow = Some witness_flow,
        mb_origin = no_origin\<lparr>res_node := ''b'', res_found := True\<rparr>, mb_def = Some (\<lambda>_. ()), mb_unreadable = ''''\<rparr>]"
  by (simp add: pass_read_def example_set_env_def example_set_def example_set_config_def example_json_def witness_meta_def
      members_def read_member_def member_ref_def flowref_name_def witness_flow_def resolveOrigin_def flow_ref_def Let_def)

theorem set_mirrors_every_member_witness:
  "CreateMemberMirror example_member_mirror \<in> set (fst (example_set_run example_set))"
proof -
  let ?m = "\<lparr>mb_ref = \<lparr>ref_domain = '''', ref_id = ''f''\<rparr>, mb_flow = Some witness_flow,
          mb_origin = no_origin\<lparr>res_node := ''b'', res_found := True\<rparr>, mb_def = Some (\<lambda>_. ()), mb_unreadable = ''''\<rparr>"
  let ?g = "\<lparr>mb_ref = \<lparr>ref_domain = '''', ref_id = ''g''\<rparr>, mb_flow = Some witness_flow,
          mb_origin = no_origin\<lparr>res_node := ''b'', res_found := True\<rparr>, mb_def = Some (\<lambda>_. ()), mb_unreadable = ''''\<rparr>"
  let ?f = "\<lparr>rf_flowID = ''f'', rf_domain = ''''\<rparr>" and ?env = "example_set_env example_set"
  have run: "snd (example_set_run example_set) = Inr (after (2 * second))" by code_simp
  have valid: "cond_status (validate list_meta_api example_json ?env (prune_set example_set [''c'']) [?m, ?g]) = ConditionTrue"
    unfolding validate_status
    by (simp add: members_agree_def list_all_iff example_set_env_def example_set_def output_ref_def member_ref_def flowref_name_def)
  have spec: "?f \<in> set (ss_members (set_spec example_set))" by (simp add: example_set_def)
  have m: "read_member example_set_config example_json ?env ?f = Inr ?m"
    by (simp add: example_set_env_def example_set_config_def example_json_def read_member_def member_ref_def flowref_name_def
        witness_flow_def resolveOrigin_def flow_ref_def)
  have "set_provider list_meta_api ?env ''b'' ''c'' = Inr (fst (resolve list_meta_api empty_caps empty_caps))"
    by (simp add: set_provider_def caps_of_def example_set_env_def)
  then show ?thesis
    using set_mirrors_every_member[OF run example_pass valid _ spec m]
    by (simp add: example_set_env_def no_origin_def example_member_mirror_def)
qed

theorem outputReady_exact_witness:
  "\<exists>c settling. outputReady example_set_config (example_set_env example_set) (10 * second) [''c''] = Inr (c, settling) \<and>
     cond_status c = ConditionFalse \<and> settling \<le> 2 * second \<and> \<not> settling \<le> 1 * second"
proof -
  have "clocks_agree (10 * second) [example_gateway]" by code_simp
  moreover have "se_pods (example_set_env example_set) (gatewayNamespace example_set_config) (componentLabel, gatewayComponent) =
      Inr [example_gateway]" by (simp add: example_set_env_def)
  ultimately obtain c settling where o: "outputReady example_set_config (example_set_env example_set) (10 * second) [''c''] = Inr (c, settling)"
    "cond_status c = ConditionFalse \<longleftrightarrow> \<not> list_all (served_at (10 * second) [example_gateway]) [''c'']"
    "\<forall>d \<ge> 0. list_all (\<lambda>n. gateway_up [example_gateway] n \<longrightarrow> served_at (10 * second + d) [example_gateway] n) [''c''] \<longleftrightarrow> settling \<le> d"
    using outputReady_exact[of "[''c'']" "example_set_env example_set" example_set_config "[example_gateway]" "10 * second"] by blast
  have "\<not> list_all (served_at (10 * second) [example_gateway]) [''c'']"
    "list_all (\<lambda>n. gateway_up [example_gateway] n \<longrightarrow> served_at (10 * second + 2 * second) [example_gateway] n) [''c'']"
    "\<not> list_all (\<lambda>n. gateway_up [example_gateway] n \<longrightarrow> served_at (10 * second + 1 * second) [example_gateway] n) [''c'']"
    "0 \<le> 2 * second" "0 \<le> 1 * second"
    by code_simp+
  with o show ?thesis by blast
qed

definition example_valid_set :: MxlFlowRedundancySet where
  "example_valid_set = example_set\<lparr>set_status := (set_status example_set)\<lparr>sst_nodes := [''gone''], sst_conditions :=
     [(condition_of ConditionValid ConditionTrue ReasonMembersAligned '''')\<lparr>cond_observedGeneration := 1\<rparr>]\<rparr>\<rparr>"

lemma example_set_published:
  obtains s' where "UpdateSetStatus s' \<in> set (fst (example_set_run example_valid_set))"
proof -
  let ?env = "example_set_env example_valid_set" and ?s = "prune_set example_valid_set []"
  obtain ms where ms: "members example_set_config example_json ?env example_valid_set = Inr ms"
    by (auto simp: example_set_env_def example_valid_set_def example_set_def example_set_config_def example_json_def
        members_def read_member_def member_ref_def flowref_name_def witness_flow_def resolveOrigin_def flow_ref_def Let_def)
  have "existingNodes ?env (sst_nodes (set_status example_valid_set)) = Inr []" "was_pruned example_valid_set []"
    by (simp_all add: example_set_env_def example_valid_set_def example_set_def was_pruned_def)
  moreover have "se_set ?env k = Inr example_valid_set" "om_deletionTimestamp (set_meta example_valid_set) = 0" for k
    by (simp_all add: example_set_env_def example_valid_set_def example_set_def witness_meta_def)
  moreover have "pathsDisjoint example_set_config ?env ?s = Inr (judge_paths ?env [] ?s)"
    by (simp add: pathsDisjoint_def example_set_env_def)
  moreover have "ensureMirrors example_set_config M ?env ?s ms = io_ret ()" for M
    by (simp add: ensureMirrors_def)
  moreover have "outputReady example_set_config ?env now [] =
      Inr (condition_of ConditionOutputReady ConditionTrue ReasonNoNodes ''no node wants the output'', 0)" for now
    by (simp add: outputReady_def)
  moreover have "\<exists>s'. UpdateSetStatus s' \<in> set (fst (publish_set M ?env now True s conds))" for M now s conds
    by (auto simp: publish_set_def Let_def split: prod.split)
  ultimately have "\<exists>s'. UpdateSetStatus s' \<in> set (fst (example_set_run example_valid_set))"
    using ms unfolding reconcile_set_def Let_def by (simp add: io_bind_writes_iff)
  then show thesis using that by blast
qed

theorem validity_survives_members_witness:
  "\<exists>s'. UpdateSetStatus s' \<in> set (fst (example_set_run example_valid_set)) \<and> validated list_meta_api s'"
proof -
  have "se_set (example_set_env example_valid_set) \<lparr>nn_namespace = '''', nn_name = ''s''\<rparr> = Inr example_valid_set"
    "se_flow (example_set_env example_valid_set) (flowref_name (output_ref example_valid_set)) = Inl ENotFound"
    "list_all (\<lambda>r. rf_domain r = rf_domain (ss_output (set_spec example_valid_set))) (ss_members (set_spec example_valid_set))"
    by (simp_all add: example_set_env_def example_valid_set_def example_set_def output_ref_def member_ref_def flowref_name_def)
  moreover have "validated list_meta_api example_valid_set" by code_simp
  moreover obtain s' where "UpdateSetStatus s' \<in> set (fst (example_set_run example_valid_set))"
    by (rule example_set_published)
  ultimately show ?thesis using validity_survives_members[OF list_meta_api_ok] by blast
qed

theorem published_status_witness:
  "\<exists>s' nodes. UpdateSetStatus s' \<in> set (fst (example_set_run example_valid_set)) \<and> sst_nodes (set_status s') = nodes \<and>
     list_all (\<lambda>n. se_node (example_set_env example_valid_set) n = Inr ()) nodes"
proof -
  obtain s' where "UpdateSetStatus s' \<in> set (fst (example_set_run example_valid_set))"
    by (rule example_set_published)
  with published_status[OF list_meta_api_ok this] show ?thesis by (auto simp: list_all_iff)
qed

theorem member_mirror_is_claimed_witness:
  "j_ok \<lparr>j_ok = True, j_reason = ReasonRedundancySetOwned, j_message = ''MxlFlowRedundancySet s merges this flow on c''\<rparr>"
  by (rule member_mirror_is_claimed[OF example_created, of example_set "(example_mirror_config None)\<lparr>mc_redundancySets := True\<rparr>"
        "(example_mirror_env example_member_mirror False (Inl ENotFound))\<lparr>me_reader := (example_reader False)\<lparr>rd_set := (\<lambda>_. Inr example_set)\<rparr>\<rparr>"
        example_set])
    code_simp+

end
