(* ===== verification/Merge_Serving.thy ===== *)
theory Merge_Serving
  imports Merge_Reconciler Redundancy_Safety "HOL-Library.Sublist"
begin

section \<open>Serving redundancy sets on a node\<close>

text \<open>
  What a pass of the gateway's reconciler keeps, builds and reports: an engine is kept exactly while no member appeared
  or was replaced underneath it and one it was started over remains, a new one is only started over members of one
  geometry and ring layout and only over an output nobody writes, a member whose ring cannot be opened holds a rebuild
  off for less than a bounded time, and the operator and the gateway judge geometry alike.
\<close>

subsection \<open>When an engine is kept\<close>

definition member_settled :: "'e running \<Rightarrow> nat \<times> nat \<Rightarrow> bool" where
  "member_settled cur x \<longleftrightarrow> snd x = 0 \<or> snd x = rn_seen cur ! fst x \<or> fst x \<in> set (rn_retrying cur)"

definition present_in :: "(nat \<times> nat) list \<Rightarrow> (nat \<Rightarrow> bool) \<Rightarrow> bool" where
  "present_in xs P = list_ex (\<lambda>(i, ino). ino \<noteq> 0 \<and> P i) xs"

lemma serves_loop_iff:
  "serves_loop cur xs startedLeft leftOut \<longleftrightarrow>
     list_all (member_settled cur) xs \<and>
     (startedLeft \<or> present_in xs (\<lambda>i. i \<in> set (rn_started cur)) \<or>
      \<not> (leftOut \<or> present_in xs (\<lambda>i. i \<notin> set (rn_started cur))))"
  by (induction cur xs startedLeft leftOut rule: serves_loop.induct) (auto simp: member_settled_def present_in_def)

definition keeps_engine :: "fs_view \<Rightarrow> 'e running \<Rightarrow> MxlFlowRedundancySet \<Rightarrow> bool" where
  "keeps_engine fs cur s \<longleftrightarrow>
     \<not> rn_failed cur \<and> current cur s \<and>
     (let xs = enumerate 0 (inodes fs (rn_domain cur) (ss_members (set_spec s)))
      in list_all (member_settled cur) xs \<and>
         (present_in xs (\<lambda>i. i \<in> set (rn_started cur)) \<or> \<not> present_in xs (\<lambda>i. i \<notin> set (rn_started cur))))"

lemma running_serves_iff: "running_serves fs cur s \<longleftrightarrow> (case cur of None \<Rightarrow> False | Some c \<Rightarrow> keeps_engine fs c s)"
  by (cases cur) (auto simp: running_serves_def keeps_engine_def serves_loop_iff Let_def)

text \<open>A set this node has to serve.\<close>

definition served_here :: "string \<Rightarrow> meta_api \<Rightarrow> MxlFlowRedundancySet \<Rightarrow> bool" where
  "served_here node M s \<longleftrightarrow>
     om_deletionTimestamp (set_meta s) = 0 \<and> node \<in> set (sst_nodes (set_status s)) \<and> validated M s"

lemma reportStalled_writes: "w \<in> set (fst (reportStalled node env cur s)) \<Longrightarrow> \<exists>n own ids. w = ApplyStalled n own ids"
  by (auto simp: reportStalled_def Let_def split: if_splits)

lemma build_output_no_stop: "StopEngine n \<notin> set (fst (build_output node J nv env engines name s cur))"
  by (auto simp: build_output_def Let_def split: sum.split prod.split if_splits)

lemma serve_pass_stops:
  "served_here node M s \<Longrightarrow>
   StopEngine n \<in> set (fst (serve_pass node M J nv env engines name s)) \<longleftrightarrow>
     n = name \<and> (\<exists>c. replaceRestarted J nv env s (engines name) = Some c \<and> \<not> keeps_engine (ge_atServes env) c s)"
  using build_output_no_stop[of n node J nv env "(engines(name := replaceRestarted J nv env s (engines name)))(name := None)" name s
      "replaceRestarted J nv env s (engines name)"]
  by (auto simp: serve_pass_def served_here_def Let_def running_serves_iff stop_engine_def split: prod.splits option.splits)

text \<open>An output is taken from under its readers only for a reason: for a set this node serves, a pass stops an engine
  exactly when it was that set's, and a replacement failed in it, or it is of another object or generation, or a member
  directory appeared or changed that the engine neither saw nor waits for, or every member it was started over is gone
  while one it left out is there. In every other case the pass does nothing to the node but report.\<close>

theorem engine_stopped_only_for_a_reason:
  assumes "ge_set env name = Inr s" "served_here node M s" "reconcile_merge node M J nv env engines name = (ws, engines', res)"
    "replaceRestarted J nv env s (engines name) = Some c"
  shows "(StopEngine n \<in> set ws \<longleftrightarrow> n = name \<and> \<not> keeps_engine (ge_atServes env) c s) \<and>
    (keeps_engine (ge_atServes env) c s \<longrightarrow>
      engines' = engines(name := Some c) \<and> list_all (\<lambda>w. \<exists>n own ids. w = ApplyStalled n own ids) ws)"
proof -
  obtain ws' es res' where p: "serve_pass node M J nv env engines name s = (ws', es, res')" by (metis prod_cases3)
  have r: "ws = ws' @ fst (reportStalled node env (es (om_name (set_meta s))) s)" "engines' = es"
    using assms(1,3) by (auto simp: reconcile_merge_def p Let_def)
  have "StopEngine n \<in> set ws \<longleftrightarrow> n = name \<and> \<not> keeps_engine (ge_atServes env) c s"
    using serve_pass_stops[OF assms(2), of n J nv env engines name] assms(4) by (auto simp: r p dest: reportStalled_writes)
  moreover have "ws' = []" "es = engines(name := Some c)" if "keeps_engine (ge_atServes env) c s"
    using p assms(2,4) that by (auto simp: serve_pass_def served_here_def Let_def running_serves_iff)
  ultimately show ?thesis by (auto simp: r list_all_iff dest: reportStalled_writes)
qed

subsection \<open>What is built\<close>

lemma outputGeometry_spec:
  "outputGeometry J nv prev ds first =
     (if prev \<noteq> None \<and> list_ex (\<lambda>d. d \<noteq> None \<and> sameGeometry J nv prev d) ds then prev
      else if first \<noteq> None then first
      else case filter (\<lambda>d. d \<noteq> None) ds of [] \<Rightarrow> None | d # _ \<Rightarrow> d)"
  by (induction ds arbitrary: first) auto

lemma candidates_members:
  "(i, flowID, l) \<in> set (candidates_of J nv env dir def mems seen defs) \<Longrightarrow>
   \<exists>m ino d. (i, m, ino, d) \<in> set (enumerate 0 (zip mems (zip seen defs))) \<and> rf_flowID m = flowID \<and> ino \<noteq> 0 \<and> d \<noteq> None \<and>
     sameGeometry J nv def d \<and> ge_ringLayout env dir flowID = Inr l"
  by (force simp: candidates_of_def candidate_member_def split: if_splits sum.splits)

lemma candidates_subseq: "subseq (map (\<lambda>(_, flowID, _). flowID) (candidates_of J nv env dir def mems seen defs)) (map rf_flowID mems)"
proof -
  have "subseq (map (\<lambda>(_, flowID, _). flowID) (concat (map (candidate_member J nv env dir def) (enumerate n xs))))
      (map (\<lambda>x. rf_flowID (fst x)) xs)" for n xs
  proof (induction xs arbitrary: n)
    case (Cons x xs)
    obtain m ino d where x: "x = (m, ino, d)" by (cases x)
    have "map (\<lambda>(_, flowID, _). flowID) (candidate_member J nv env dir def (n, x)) \<in> {[], [rf_flowID m]}"
      by (simp add: x candidate_member_def split: sum.split)
    then show ?case using Cons.IH[of "Suc n"] by (auto simp: x)
  qed simp
  from this[of 0 "zip mems (zip seen defs)"] have "subseq (map (\<lambda>(_, flowID, _). flowID) (candidates_of J nv env dir def mems seen defs))
      (map rf_flowID (map fst (zip mems (zip seen defs))))"
    by (simp add: candidates_of_def comp_def)
  moreover have "subseq (map rf_flowID (map fst (zip mems (zip seen defs)))) (map rf_flowID mems)"
  proof -
    have "map fst (zip mems (zip seen defs)) = take (min (length mems) (length (zip seen defs))) mems"
      by (simp add: map_fst_zip_take)
    moreover have "subseq (take k mems) mems" for k by (rule prefix_imp_subseq) (rule take_is_prefix)
    ultimately show ?thesis by (simp add: subseq_map)
  qed
  ultimately show ?thesis by (rule subseq_order.order_trans)
qed

lemma filtered_subseq: "subseq (map f (filter P xs)) (map f xs)"
  by (intro subseq_map subseq_filter_left)

text \<open>Every member picked for the new output has a directory, a definition of the output's geometry and a ring of the
  output's layout.\<close>

definition fits_output :: "'v json_api \<Rightarrow> 'v \<Rightarrow> 'e merge_env \<Rightarrow> string \<Rightarrow> string option \<Rightarrow> string \<Rightarrow> string \<Rightarrow> bool" where
  "fits_output J nv env dir def layout flowID \<longleftrightarrow>
     flowID @ ''.mxl-flow'' \<in> set (fv_names (ge_atBuild env) dir) \<and>
     (\<exists>d. fv_def (ge_atBuild env) (flowDir dir flowID) = Inr d \<and> sameGeometry J nv def (Some d)) \<and>
     ge_ringLayout env dir flowID = Inr layout"

lemma enumerate_zip_defs:
  assumes "(i, m, ino, d) \<in> set (enumerate 0 (zip mems (zip (inodes fs dir mems) (member_defs env dir mems (inodes fs dir mems)))))"
  shows "m \<in> set mems" "ino = member_ino fs dir m"
    "d = (if ino \<noteq> 0 then (case fv_def (ge_atBuild env) (flowDir dir (rf_flowID m)) of Inl _ \<Rightarrow> None | Inr d \<Rightarrow> Some d) else None)"
  using assms by (auto simp: in_set_enumerate_eq inodes_def member_defs_def split: if_splits)

lemma picked_fits:
  assumes "plan = plan_output J nv env s dir prev prevLayout carried" "flowID \<in> set (sp_members (op_spec plan))"
  shows "fits_output J nv env dir (op_def plan) (op_layout plan) flowID"
proof -
  let ?seen = "inodes (ge_atBuild env) dir (ss_members (set_spec s))"
  let ?defs = "member_defs env dir (ss_members (set_spec s)) ?seen"
  from assms obtain i where "(i, flowID, op_layout plan) \<in>
      set (candidates_of J nv env dir (op_def plan) (ss_members (set_spec s)) ?seen ?defs)"
    by (auto simp: plan_output_def Let_def)
  then obtain m ino d where c: "(i, m, ino, d) \<in> set (enumerate 0 (zip (ss_members (set_spec s)) (zip ?seen ?defs)))"
    "rf_flowID m = flowID" "ino \<noteq> 0" "d \<noteq> None" "sameGeometry J nv (op_def plan) d" "ge_ringLayout env dir flowID = Inr (op_layout plan)"
    by (auto dest!: candidates_members)
  from enumerate_zip_defs[OF c(1)] c(2-5) show ?thesis
    using c(6) by (auto simp: fits_output_def member_ino_def split: if_splits sum.splits)
qed

lemma plan_output_subseq:
  "subseq (sp_members (op_spec (plan_output J nv env s dir prev prevLayout carried))) (map rf_flowID (ss_members (set_spec s)))"
  by (simp add: plan_output_def Let_def split_beta')
    (rule subseq_order.order_trans[OF filtered_subseq], insert candidates_subseq, simp add: split_beta')

text \<open>What an engine is started over. \<open>prev\<close> is the geometry of the engine it replaces.\<close>

definition prev_def :: "'e running option \<Rightarrow> string option" where
  "prev_def cur = (case cur of None \<Rightarrow> None | Some c \<Rightarrow> rn_def c)"

lemma build_output_starts:
  assumes "StartEngine spec \<in> set (fst (build_output node J nv env engines name s cur))"
  obtains dir plan prevLayout carried where "ge_domainPath env (rf_domain (ss_output (set_spec s))) = Inr (dir, True)"
    "list_all (\<lambda>m. rf_domain m = rf_domain (ss_output (set_spec s))) (ss_members (set_spec s))"
    "plan = plan_output J nv env s dir (prev_def cur) prevLayout carried" "spec = op_spec plan" "sp_members spec \<noteq> []"
    "ge_writers env (dataFile dir (sp_outputID spec)) = Inr 0"
    "fst (build_output node J nv env engines name s cur) = [RemoveOutput (flowDir dir (sp_outputID spec)), StartEngine spec]"
  using assms unfolding build_output_def Let_def prev_def_def dataFile_def
  by (auto simp: list_all_iff list_ex_iff split: sum.splits prod.splits if_splits)

lemma build_output_removes:
  "RemoveOutput out \<in> set (fst (build_output node J nv env engines name s cur)) \<Longrightarrow>
   \<exists>spec. fst (build_output node J nv env engines name s cur) = [RemoveOutput out, StartEngine spec]"
  unfolding build_output_def Let_def by (auto split: sum.splits prod.splits if_splits)

lemma spec_skew_pos: "0 < spec_skew s"
  by (simp add: spec_skew_def default_skew_def millisecond_def)

lemma reconcile_merge_builds:
  assumes "w \<in> set (fst (reconcile_merge node M J nv env engines name))" "w = StartEngine spec \<or> w = RemoveOutput out"
  obtains s engines' where "ge_set env name = Inr s" "served_here node M s"
    "w \<in> set (fst (build_output node J nv env engines' name s (replaceRestarted J nv env s (engines name))))"
    "\<not> running_serves (ge_atServes env) (replaceRestarted J nv env s (engines name)) s"
proof -
  have not_stop: "w \<notin> set (fst (stop_engine name es))" for es :: "'a engines" using assms(2) by (auto simp: stop_engine_def)
  obtain s where s: "ge_set env name = Inr s"
    using assms(1) not_stop[of engines] by (auto simp: reconcile_merge_def split_beta split: sum.splits if_splits)
  let ?cur = "replaceRestarted J nv env s (engines name)"
  have "w \<in> set (fst (serve_pass node M J nv env engines name s))"
    using assms(1,2) s by (auto simp: reconcile_merge_def split_beta Let_def dest: reportStalled_writes)
  then have "served_here node M s \<and> \<not> running_serves (ge_atServes env) ?cur s \<and>
      w \<in> set (fst (build_output node J nv env (snd (stop_engine name (engines(name := ?cur)))) name s ?cur))"
    using not_stop by (auto simp: serve_pass_def served_here_def split_beta Let_def split: if_splits)
  then show thesis using that s by blast
qed

text \<open>C26. An output is only built, and what stands in its place only removed, for a set that is there, wanted on this node and
  valid at its generation, on mxlfs, and when no process writes a flow of the output's id. The engine is started over
  at least one member; they are in the order of preference, all in the output's domain, and every one has a directory,
  a definition of one geometry and a ring of one layout; the budget for late grains is positive.\<close>

theorem output_built_soundly:
  assumes "w \<in> set (fst (reconcile_merge node M J nv env engines name))" "w = StartEngine spec \<or> w = RemoveOutput out"
  shows "\<exists>s dir def layout spec'. ge_set env name = Inr s \<and> served_here node M s \<and>
    ge_domainPath env (rf_domain (ss_output (set_spec s))) = Inr (dir, True) \<and>
    (w = StartEngine spec' \<or> w = RemoveOutput (flowDir dir (sp_outputID spec'))) \<and>
    sp_domainDir spec' = dir \<and> sp_outputID spec' = rf_flowID (ss_output (set_spec s)) \<and>
    ge_writers env (dataFile dir (sp_outputID spec')) = Inr 0 \<and>
    sp_members spec' \<noteq> [] \<and> subseq (sp_members spec') (map rf_flowID (ss_members (set_spec s))) \<and>
    list_all (\<lambda>m. rf_domain m = rf_domain (ss_output (set_spec s))) (ss_members (set_spec s)) \<and>
    list_all (fits_output J nv env dir def layout) (sp_members spec') \<and> 0 < sp_skew spec'"
  using assms
proof (rule reconcile_merge_builds)
  fix s engines'
  let ?cur = "replaceRestarted J nv env s (engines name)"
  assume s: "ge_set env name = Inr s" "served_here node M s"
    and w: "w \<in> set (fst (build_output node J nv env engines' name s ?cur))"
  from w assms(2) obtain spec' where st: "StartEngine spec' \<in> set (fst (build_output node J nv env engines' name s ?cur))"
    by (metis build_output_removes list.set_intros)
  from build_output_starts[OF this] obtain dir plan prevLayout carried where
    b: "ge_domainPath env (rf_domain (ss_output (set_spec s))) = Inr (dir, True)"
    "list_all (\<lambda>m. rf_domain m = rf_domain (ss_output (set_spec s))) (ss_members (set_spec s))"
    "plan = plan_output J nv env s dir (prev_def ?cur) prevLayout carried" "spec' = op_spec plan" "sp_members spec' \<noteq> []"
    "ge_writers env (dataFile dir (sp_outputID spec')) = Inr 0"
    "fst (build_output node J nv env engines' name s ?cur) = [RemoveOutput (flowDir dir (sp_outputID spec')), StartEngine spec']"
    by metis
  have "subseq (sp_members spec') (map rf_flowID (ss_members (set_spec s)))"
    using plan_output_subseq by (simp add: b(3,4))
  moreover have "list_all (fits_output J nv env dir (op_def plan) (op_layout plan)) (sp_members spec')"
    using picked_fits[OF b(3)] by (auto simp: list_all_iff b(4))
  moreover have "w = StartEngine spec' \<or> w = RemoveOutput (flowDir dir (sp_outputID spec'))"
    using w by (auto simp: b(7))
  moreover have "sp_domainDir spec' = dir" "sp_outputID spec' = rf_flowID (ss_output (set_spec s))" "0 < sp_skew spec'"
    by (simp_all add: b(3,4) plan_output_def Let_def spec_skew_pos)
  ultimately show ?thesis using s b(1,2,5,6) by blast
qed

text \<open>Readers keep the geometry they opened: an output that is built again is built in the geometry it had, as long as one
  member present still has it; a member that came back in another geometry is left out instead.\<close>

theorem output_geometry_is_kept:
  assumes "StartEngine spec \<in> set (fst (reconcile_merge node M J nv env engines name))" "ge_set env name = Inr s"
    "replaceRestarted J nv env s (engines name) = Some c" "rn_def c = Some old"
    "ge_domainPath env (rf_domain (ss_output (set_spec s))) = Inr (dir, True)"
    "m \<in> set (ss_members (set_spec s))" "member_ino (ge_atBuild env) dir m \<noteq> 0"
    "fv_def (ge_atBuild env) (flowDir dir (rf_flowID m)) = Inr d" "sameGeometry J nv (Some old) (Some d)"
  shows "list_all (\<lambda>flowID. \<exists>d. fv_def (ge_atBuild env) (flowDir dir flowID) = Inr d \<and> sameGeometry J nv (Some old) (Some d))
    (sp_members spec)"
  using assms(1)
proof (rule reconcile_merge_builds)
  fix s' engines'
  assume s: "ge_set env name = Inr s'"
    and w: "StartEngine spec \<in> set (fst (build_output node J nv env engines' name s' (replaceRestarted J nv env s' (engines name))))"
  have [simp]: "s' = s" using s assms(2) by simp
  from build_output_starts[OF w] obtain dir' plan prevLayout carried where
    b: "ge_domainPath env (rf_domain (ss_output (set_spec s))) = Inr (dir', True)"
    "plan = plan_output J nv env s dir' (prev_def (Some c)) prevLayout carried" "spec = op_spec plan"
    using assms(3) by (metis \<open>s' = s\<close>)
  have [simp]: "dir' = dir" using b(1) assms(5) by simp
  let ?seen = "inodes (ge_atBuild env) dir (ss_members (set_spec s))"
  have "Some d \<in> set (member_defs env dir (ss_members (set_spec s)) ?seen)"
    using assms(6-8) by (force simp: member_defs_def inodes_def set_zip in_set_conv_nth)
  then have "op_def plan = Some old"
    using assms(4,9) unfolding b(2) plan_output_def Let_def
    by (auto simp: outputGeometry_spec prev_def_def list_ex_iff)
  with picked_fits[OF b(2)] show ?thesis by (auto simp: list_all_iff b(3) fits_output_def)
qed simp

subsection \<open>How long a member holds off a rebuild\<close>

text \<open>Since when a member has been tried in vain, as a pass finds it.\<close>

definition failing_since :: "'e merge_env \<Rightarrow> 'e running \<Rightarrow> nat \<Rightarrow> time" where
  "failing_since env cur i = (case map_of (rn_failing cur) i of Some t \<Rightarrow> t | None \<Rightarrow> ge_noted env i)"

definition waits_within :: "'e merge_env \<Rightarrow> 'e running \<Rightarrow> 'e running \<Rightarrow> nat \<Rightarrow> bool" where
  "waits_within env cur0 cur i \<longleftrightarrow>
     map_of (rn_failing cur) i = Some (failing_since env cur0 i) \<and> time_sub (ge_tried env i) (failing_since env cur0 i) < retryFor"

lemma map_of_filter_key: "map_of (filter (\<lambda>(j, _). j \<noteq> i) xs) k = (if k = i then None else map_of xs k)"
  by (induction xs) auto

lemma replace_member_step:
  assumes "replace_member J nv env mems i ino cur = (cur', go_on)"
  shows "rn_uid cur' = rn_uid cur" "rn_gen cur' = rn_gen cur"
    "j \<noteq> i \<Longrightarrow> map_of (rn_failing cur') j = map_of (rn_failing cur) j"
    "set (rn_retrying cur') \<subseteq> insert i (set (rn_retrying cur))"
    "\<not> rn_failed cur' \<Longrightarrow> i \<in> set (rn_retrying cur') \<Longrightarrow> i \<notin> set (rn_retrying cur) \<Longrightarrow> waits_within env cur cur' i"
    "rn_failed cur \<Longrightarrow> rn_failed cur'"
  using assms
  by (auto simp: replace_member_def retry_member_def forget_failing_def waits_within_def failing_since_def Let_def map_of_filter_key
      split: option.splits if_splits sum.splits prod.splits)

lemma replace_loop_keeps:
  "rn_uid (replace_loop J nv env mems xs cur) = rn_uid cur" "rn_gen (replace_loop J nv env mems xs cur) = rn_gen cur"
  "rn_failed cur \<Longrightarrow> rn_failed (replace_loop J nv env mems xs cur)"
proof -
  show "rn_uid (replace_loop J nv env mems xs cur) = rn_uid cur" "rn_gen (replace_loop J nv env mems xs cur) = rn_gen cur"
    by (induction xs arbitrary: cur) (auto split: prod.splits dest: replace_member_step(1,2))
  show "rn_failed cur \<Longrightarrow> rn_failed (replace_loop J nv env mems xs cur)"
  proof (induction xs arbitrary: cur)
    case (Cons x xs)
    obtain i ino cur' go_on where x: "x = (i, ino)" "replace_member J nv env mems i ino cur = (cur', go_on)" by fastforce
    then show ?case using Cons.IH[of cur'] replace_member_step(6)[OF x(2) Cons.prems] by simp
  qed simp
qed

lemma replace_loop_waits:
  assumes "distinct (map fst xs)" "set (rn_retrying cur) \<inter> fst ` set xs = {}"
    "\<And>i. i \<in> set (rn_retrying cur) \<Longrightarrow> waits_within env cur0 cur i"
    "\<And>i. i \<in> fst ` set xs \<Longrightarrow> map_of (rn_failing cur) i = map_of (rn_failing cur0) i"
    "\<not> rn_failed (replace_loop J nv env mems xs cur)" "i \<in> set (rn_retrying (replace_loop J nv env mems xs cur))"
  shows "waits_within env cur0 (replace_loop J nv env mems xs cur) i"
  using assms
proof (induction xs arbitrary: cur)
  case (Cons x xs)
  obtain k ino where x: "x = (k, ino)" by fastforce
  obtain cur' go_on where c: "replace_member J nv env mems k ino cur = (cur', go_on)" by fastforce
  note st = replace_member_step[OF c]
  have k: "k \<notin> set (rn_retrying cur)" "k \<notin> fst ` set xs" using Cons.prems(1,2) by (auto simp: x)
  have same: "failing_since env cur k = failing_since env cur0 k"
    using Cons.prems(4)[of k] by (simp add: x failing_since_def)
  have next_waits: "waits_within env cur0 cur' j" if "\<not> rn_failed cur'" "j \<in> set (rn_retrying cur')" for j
  proof (cases "j = k")
    case True
    then show ?thesis using st(5) that k(1) same by (simp add: waits_within_def)
  next
    case False
    then have "j \<in> set (rn_retrying cur)" using st(4) that by auto
    then show ?thesis using Cons.prems(3)[of j] st(3)[OF False] by (simp add: waits_within_def)
  qed
  show ?case
  proof (cases go_on)
    case False
    then show ?thesis using Cons.prems(5,6) next_waits by (simp add: x c)
  next
    case True
    then have loop: "replace_loop J nv env mems (x # xs) cur = replace_loop J nv env mems xs cur'" by (simp add: x c)
    have nf: "\<not> rn_failed cur'" using Cons.prems(5) loop replace_loop_keeps(3) by metis
    show ?thesis unfolding loop
    proof (rule Cons.IH)
      show "distinct (map fst xs)" using Cons.prems(1) by simp
      show "set (rn_retrying cur') \<inter> fst ` set xs = {}" using st(4) nf Cons.prems(2) k(2) by (auto simp: x)
      show "waits_within env cur0 cur' j" if "j \<in> set (rn_retrying cur')" for j using next_waits nf that by blast
      show "map_of (rn_failing cur') j = map_of (rn_failing cur0) j" if "j \<in> fst ` set xs" for j
        using st(3)[of j] Cons.prems(4)[of j] k(2) that by (auto simp: x)
    qed (use Cons.prems(5,6) loop in auto)
  qed
qed simp

lemma replaceRestarted_waits:
  assumes "current cur s" "replaceRestarted J nv env s (Some cur) = Some cur'" "\<not> rn_failed cur'" "i \<in> set (rn_retrying cur')"
  shows "waits_within env cur cur' i"
proof -
  let ?cur = "cur\<lparr>rn_retrying := []\<rparr>"
    and ?xs = "enumerate 0 (inodes (ge_atReplace env) (rn_domain cur) (ss_members (set_spec s)))"
  have loop: "cur' = replace_loop J nv env (ss_members (set_spec s)) ?xs ?cur"
    using assms(1,2) by (simp add: replaceRestarted_def)
  have "waits_within env ?cur (replace_loop J nv env (ss_members (set_spec s)) ?xs ?cur) i"
    using assms(3,4) unfolding loop by (intro replace_loop_waits) (auto simp: distinct_enumerate)
  then show ?thesis by (simp add: loop waits_within_def failing_since_def)
qed

lemma replaceRestarted_current:
  "current cur s \<Longrightarrow> replaceRestarted J nv env s (Some cur) = Some cur' \<Longrightarrow> current cur' s"
  by (auto simp: replaceRestarted_def current_def replace_loop_keeps)

text \<open>Passes in a row after each of which the engine is kept, member \<open>i\<close> still waiting for its new ring to open.\<close>

fun held_off :: "'v json_api \<Rightarrow> 'v \<Rightarrow> MxlFlowRedundancySet \<Rightarrow> nat \<Rightarrow> 'e merge_env list \<Rightarrow> 'e running \<Rightarrow> bool" where
  "held_off J nv s i [] cur = True"
| "held_off J nv s i (env # envs) cur =
     (case replaceRestarted J nv env s (Some cur) of
        None \<Rightarrow> False
      | Some cur' \<Rightarrow> keeps_engine (ge_atServes env) cur' s \<and> i \<in> set (rn_retrying cur') \<and> held_off J nv s i envs cur')"

lemma held_off_since:
  assumes "current cur s" "held_off J nv s i envs cur" "map_of (rn_failing cur) i = Some t" "env \<in> set envs"
  shows "time_sub (ge_tried env i) t < retryFor"
  using assms
proof (induction envs arbitrary: cur)
  case (Cons e envs)
  then obtain cur' where c: "replaceRestarted J nv e s (Some cur) = Some cur'" "keeps_engine (ge_atServes e) cur' s"
    "i \<in> set (rn_retrying cur')" "held_off J nv s i envs cur'"
    by (auto split: option.splits)
  have "waits_within e cur cur' i"
    using replaceRestarted_waits[OF Cons.prems(1) c(1)] c(2,3) by (simp add: keeps_engine_def)
  then have w: "map_of (rn_failing cur') i = Some t" "time_sub (ge_tried e i) t < retryFor"
    using Cons.prems(3) by (simp_all add: waits_within_def failing_since_def)
  then show ?case
    using Cons.IH[OF replaceRestarted_current[OF Cons.prems(1) c(1)] c(4) w(1)] Cons.prems(4) by auto
qed simp

text \<open>A restarted member whose ring cannot be opened holds off a rebuild for less than three rechecks: however many passes
  follow each other, from the first that tried it in vain to any later one after which the engine was kept with the
  member still waiting, less than that time passes. Counting passes would not bound it, since a set that reports a
  stall is looked at more often.\<close>

theorem rebuild_held_off_boundedly:
  assumes "current cur s" "map_of (rn_failing cur) i = None" "held_off J nv s i (first # later) cur" "env \<in> set (first # later)"
  shows "time_sub (ge_tried env i) (ge_noted first i) < retryFor"
proof -
  obtain cur' where c: "replaceRestarted J nv first s (Some cur) = Some cur'" "keeps_engine (ge_atServes first) cur' s"
    "i \<in> set (rn_retrying cur')" "held_off J nv s i later cur'"
    using assms(3) by (auto split: option.splits)
  have "waits_within first cur cur' i"
    using replaceRestarted_waits[OF assms(1) c(1)] c(2,3) by (simp add: keeps_engine_def)
  then have w: "map_of (rn_failing cur') i = Some (ge_noted first i)" "time_sub (ge_tried first i) (ge_noted first i) < retryFor"
    using assms(2) by (simp_all add: waits_within_def failing_since_def)
  then show ?thesis
    using held_off_since[OF replaceRestarted_current[OF assms(1) c(1)] c(4) w(1)] assms(4) by auto
qed

subsection \<open>Reports\<close>

text \<open>What this node's entry in the set's status should name: what the engine finds stalled, and of what it named
  before, what the engine has not decided on; nothing without an engine.\<close>

definition entry_for :: "'e merge_env \<Rightarrow> 'e running option \<Rightarrow> string list \<Rightarrow> string set" where
  "entry_for env cur rep =
     (case cur of
        None \<Rightarrow> {}
      | Some c \<Rightarrow> set (fst (ge_stalled env (rn_engine c))) \<union> (set rep \<inter> set (snd (ge_stalled env (rn_engine c)))))"

definition report_list :: "string \<Rightarrow> 'e merge_env \<Rightarrow> 'e running option \<Rightarrow> MxlFlowRedundancySet \<Rightarrow> string list" where
  "report_list node env cur s = (case cur of None \<Rightarrow> [] | Some c \<Rightarrow> reportOf env c (reported node s))"

lemma report_list_set: "set (report_list node env cur s) = entry_for env cur (reported node s)"
  by (cases cur) (auto simp: report_list_def entry_for_def reportOf_def split_beta)

lemma reportStalled_spec:
  "fst (reportStalled node env cur s) =
     (if report_list node env cur s = sort (reported node s) then []
      else [ApplyStalled (om_name (set_meta s)) (stalledMembersFieldOwner node) (report_list node env cur s)])"
  by (simp add: reportStalled_def report_list_def Let_def)

lemma stop_engine_writes: "w \<in> set (fst (stop_engine name engines)) \<Longrightarrow> w = StopEngine name"
  by (simp add: stop_engine_def split: if_splits)

lemma serve_pass_no_report: "ApplyStalled n own ids \<notin> set (fst (serve_pass node M J nv env engines name s))"
proof -
  have "ApplyStalled n own ids \<notin> set (fst (build_output node J nv env es name s cur))" for es cur
    by (simp add: build_output_def Let_def split: sum.split prod.split)
  then show ?thesis by (auto simp: serve_pass_def Let_def split_beta dest: stop_engine_writes)
qed

text \<open>The report follows the engine: after a pass the node's entry, the one applied or the one left as it was, names
  exactly what it should; it is applied under the node's own field manager and only when it differs.\<close>

theorem report_is_exact:
  assumes "ge_set env name = Inr s" "om_name (set_meta s) = name" "reconcile_merge node M J nv env engines name = (ws, engines', res)"
  shows "(\<forall>n own ids. ApplyStalled n own ids \<in> set ws \<longrightarrow>
            n = name \<and> own = stalledMembersFieldOwner node \<and> set ids = entry_for env (engines' name) (reported node s) \<and>
            ids \<noteq> sort (reported node s)) \<and>
         (list_all (\<lambda>w. \<not> (\<exists>n own ids. w = ApplyStalled n own ids)) ws \<longrightarrow>
            set (reported node s) = entry_for env (engines' name) (reported node s))"
proof -
  obtain ws' es res' where p: "serve_pass node M J nv env engines name s = (ws', es, res')" by (metis prod_cases3)
  have w: "engines' = es" "ws = ws' @ fst (reportStalled node env (es name) s)"
    using assms by (auto simp: reconcile_merge_def p Let_def)
  have none: "ApplyStalled n own ids \<notin> set ws'" for n own ids
    using serve_pass_no_report[of n own ids node M J nv env engines name s] by (simp add: p)
  show ?thesis
  proof (cases "report_list node env (es name) s = sort (reported node s)")
    case True
    then have "set (reported node s) = entry_for env (es name) (reported node s)"
      using report_list_set[of node env "es name" s] by simp
    with True none show ?thesis unfolding w by (simp add: reportStalled_spec)
  next
    case False
    with none assms(2) show ?thesis unfolding w by (auto simp: reportStalled_spec report_list_set)
  qed
qed

subsection \<open>Which engines run\<close>

lemma replaceRestarted_engine: "replaceRestarted J nv env s cur = Some c \<Longrightarrow> \<exists>c0. cur = Some c0"
  by (auto simp: replaceRestarted_def split: option.splits)

lemma build_output_engines:
  assumes "build_output node J nv env engines name s cur = (ws, engines', res)" "engines name = None"
  shows "n \<noteq> name \<Longrightarrow> engines' n = engines n" "engines' name = Some c \<Longrightarrow> current c s \<and> \<not> rn_failed c \<and> res = Inr (after recheck)"
    "length (rn_seen c) = length (ss_members (set_spec s)) \<or> engines' name \<noteq> Some c"
  using assms unfolding build_output_def Let_def
  by (auto simp: current_def running_of_def plan_output_def Let_def inodes_def split: sum.splits prod.splits if_splits)

text \<open>C27. No engine outlives the reason it runs for: after a pass that read the set or found it gone, an engine runs under
  its name only if the set is there, wanted on this node and valid, and then it is the engine of that object at that
  generation with no failed replacement; the pass asks to come back within a recheck. Engines of other sets are left
  alone.\<close>

theorem engines_run_for_served_sets:
  assumes "reconcile_merge node M J nv env engines name = (ws, engines', res)"
  shows "(\<forall>n. n \<noteq> name \<longrightarrow> engines' n = engines n) \<and>
    (case ge_set env name of
       Inl e \<Rightarrow> if isNotFound e then engines' name = None else engines' = engines \<and> ws = [] \<and> res = Inl e
     | Inr s \<Rightarrow> \<forall>c. engines' name = Some c \<longrightarrow> served_here node M s \<and> current c s \<and> \<not> rn_failed c \<and>
         (\<exists>r. res = Inr r \<and> 0 < requeueAfter r \<and> requeueAfter r \<le> recheck))"
proof (cases "ge_set env name")
  case (Inl e)
  then show ?thesis using assms by (auto simp: reconcile_merge_def stop_engine_def split: if_splits)
next
  case (Inr s)
  obtain ws' es res' where p: "serve_pass node M J nv env engines name s = (ws', es, res')" by (metis prod_cases3)
  have r: "engines' = es" "res = with_report (snd (reportStalled node env (es (om_name (set_meta s))) s)) res'"
    using assms Inr by (auto simp: reconcile_merge_def p Let_def)
  let ?cur = "replaceRestarted J nv env s (engines name)"
  consider (unserved) "\<not> served_here node M s" "es = engines(name := None)"
    | (kept) c where "served_here node M s" "?cur = Some c" "keeps_engine (ge_atServes env) c s" "es = engines(name := Some c)"
        "res' = Inr (after recheck)"
    | (built) ws'' where "served_here node M s"
        "build_output node J nv env ((engines(name := ?cur))(name := None)) name s ?cur = (ws'', es, res')"
    using p by (auto simp: serve_pass_def served_here_def Let_def stop_engine_def running_serves_iff split: if_splits option.splits prod.splits)
  then have "(\<forall>n. n \<noteq> name \<longrightarrow> es n = engines n) \<and>
      (\<forall>c. es name = Some c \<longrightarrow> served_here node M s \<and> current c s \<and> \<not> rn_failed c \<and> res' = Inr (after recheck))"
  proof cases
    case built
    then show ?thesis using build_output_engines[OF built(2)] by auto
  qed (auto simp: keeps_engine_def)
  moreover have "\<exists>r. with_report rep (Inr (after recheck)) = Inr r \<and> 0 < requeueAfter r \<and> requeueAfter r \<le> recheck" for rep
    by (cases rep) (auto simp: with_report_def after_def no_requeue_def recheck_def stalledRecheck_def second_def split: bool.split)
  ultimately show ?thesis by (auto simp: Inr r)
qed

subsection \<open>Operator and gateway judge geometry alike\<close>

definition raw_definition :: "'v member \<Rightarrow> string option" where
  "raw_definition m = map_option (\<lambda>f. fs_definition (flow_spec f)) (mb_flow m)"

lemma geometryKeys_aligned: "geometryKeys = alignedKeys"
  by (simp add: geometryKeys_def alignedKeys_def)

lemma read_member_decoded:
  "read_member cfg J env spec = Inr m \<Longrightarrow> mb_def m = Some d \<Longrightarrow> decoded J nv (raw_definition m) = Some d"
  by (auto simp: read_member_def Let_def decoded_def raw_definition_def split: sum.splits if_splits option.splits)

lemma in_readable: "x \<in> set (readable ms) \<longleftrightarrow> (\<exists>m \<in> set ms. mb_def m = Some (snd x) \<and> mb_ref m = fst x)"
  by (cases x) (force simp: readable_def split: option.splits)

text \<open>The operator finds the published members of a set in agreement exactly when the gateway finds any two of their
  definitions of one geometry, so a set is not called valid for members no gateway would merge, nor the other way
  round.\<close>

theorem geometry_is_judged_alike:
  assumes "read_members cfg J env specs = Inr ms"
  shows "members_agree ms \<longleftrightarrow>
    list_all (\<lambda>x. list_all (\<lambda>y. sameGeometry J nv (raw_definition x) (raw_definition y)) (filter (\<lambda>m. mb_def m \<noteq> None) ms))
      (filter (\<lambda>m. mb_def m \<noteq> None) ms)"
proof -
  have read: "\<exists>spec. read_member cfg J env spec = Inr m" if "m \<in> set ms" for m
    using read_members_all2[OF assms] that by (auto simp: list_all2_conv_all_nth in_set_conv_nth)
  have geo: "sameGeometry J nv (raw_definition x) (raw_definition y) \<longleftrightarrow> list_all (\<lambda>k. d k = d' k) alignedKeys"
    if prem: "x \<in> set ms" "y \<in> set ms" "mb_def x = Some d" "mb_def y = Some d'" for x y d d'
  proof -
    obtain spec spec' where "read_member cfg J env spec = Inr x" "read_member cfg J env spec' = Inr y"
      using read prem(1,2) by blast
    then have "decoded J nv (raw_definition x) = Some d" "decoded J nv (raw_definition y) = Some d'"
      using prem(3,4) by (simp_all add: read_member_decoded)
    then show ?thesis by (simp add: sameGeometry_def geometryKeys_aligned)
  qed
  have "members_agree ms \<longleftrightarrow> (\<forall>x \<in> set ms. \<forall>y \<in> set ms. \<forall>d d'. mb_def x = Some d \<longrightarrow> mb_def y = Some d' \<longrightarrow>
      list_all (\<lambda>k. d k = d' k) alignedKeys)"
    (is "_ \<longleftrightarrow> ?pairs")
  proof
    assume agree: "members_agree ms"
    have "list_all (\<lambda>k. d k = d' k) alignedKeys" if "x \<in> set ms" "y \<in> set ms" "mb_def x = Some d" "mb_def y = Some d'" for x y d d'
    proof -
      have "(mb_ref x, d) \<in> set (readable ms)" "(mb_ref y, d') \<in> set (readable ms)" using that by (auto simp: in_readable)
      with agree show ?thesis unfolding members_agree_def list_all_iff by (metis snd_conv)
    qed
    then show ?pairs by blast
  next
    assume p: ?pairs
    have "snd x k = snd y k" if "k \<in> set alignedKeys" "x \<in> set (readable ms)" "y \<in> set (readable ms)" for k x y
      using p that unfolding in_readable list_all_iff by blast
    then show "members_agree ms" unfolding members_agree_def list_all_iff by blast
  qed
  also have "\<dots> \<longleftrightarrow> (\<forall>x \<in> set ms. \<forall>y \<in> set ms. mb_def x \<noteq> None \<longrightarrow> mb_def y \<noteq> None \<longrightarrow>
      sameGeometry J nv (raw_definition x) (raw_definition y))"
    (is "_ \<longleftrightarrow> ?geo")
  proof
    assume p: "\<forall>x \<in> set ms. \<forall>y \<in> set ms. \<forall>d d'. mb_def x = Some d \<longrightarrow> mb_def y = Some d' \<longrightarrow> list_all (\<lambda>k. d k = d' k) alignedKeys"
    show ?geo
    proof (intro ballI impI)
      fix x y assume xy: "x \<in> set ms" "y \<in> set ms" "mb_def x \<noteq> None" "mb_def y \<noteq> None"
      then obtain d d' where "mb_def x = Some d" "mb_def y = Some d'" by blast
      with xy p geo[of x y d d'] show "sameGeometry J nv (raw_definition x) (raw_definition y)" by blast
    qed
  next
    assume g: ?geo
    show "\<forall>x \<in> set ms. \<forall>y \<in> set ms. \<forall>d d'. mb_def x = Some d \<longrightarrow> mb_def y = Some d' \<longrightarrow> list_all (\<lambda>k. d k = d' k) alignedKeys"
    proof (intro ballI allI impI)
      fix x y d d' assume "x \<in> set ms" "y \<in> set ms" "mb_def x = Some d" "mb_def y = Some d'"
      with g geo[of x y d d'] show "list_all (\<lambda>k. d k = d' k) alignedKeys" by simp
    qed
  qed
  finally show ?thesis by (auto simp: list_all_iff)
qed

subsection \<open>Witnesses\<close>

text \<open>An engine is a list of the members it merges. The first member of the set is on disk; the engine runs over it.\<close>

definition example_fs :: "nat \<Rightarrow> fs_view" where
  "example_fs ino = \<lparr>fv_names = (\<lambda>_. [''f.mxl-flow'']), fv_ino = (\<lambda>_. Some ino), fv_def = (\<lambda>_. Inr ''def'')\<rparr>"

definition example_merge_env :: "MxlFlowRedundancySet \<Rightarrow> nat \<Rightarrow> time \<Rightarrow> string list merge_env" where
  "example_merge_env s ino now = \<lparr>ge_set = (\<lambda>_. Inr s), ge_atReplace = example_fs ino, ge_atServes = example_fs ino,
     ge_atBuild = example_fs ino, ge_noted = (\<lambda>_. now), ge_tried = (\<lambda>_. now), ge_replace = (\<lambda>e _. (e, Inl ErrNotOpened)),
     ge_stalled = (\<lambda>e. ([], e)), ge_domainPath = (\<lambda>_. Inr (''/d'', True)), ge_ringLayout = (\<lambda>_ _. Inr ''l''),
     ge_writers = (\<lambda>_. Inr 0), ge_start = (\<lambda>sp. Inr (sp_members sp)), ge_apply = (\<lambda>_ _ _. Inr ())\<rparr>"

definition example_served_set :: MxlFlowRedundancySet where
  "example_served_set = example_valid_set\<lparr>set_status := (set_status example_valid_set)\<lparr>sst_nodes := [''c''],
     sst_stalledMembers := [\<lparr>sm_node = ''c'', sm_flowIDs = [''g'', ''f'']\<rparr>]\<rparr>\<rparr>"

definition example_running :: "string list running" where
  "example_running = \<lparr>rn_engine = [''f''], rn_uid = ''u'', rn_gen = 1, rn_domain = ''/d'', rn_def = Some ''def'', rn_layout = ''l'',
     rn_seen = [7, 0], rn_started = [0], rn_failed = False, rn_retrying = [], rn_failing = []\<rparr>"

abbreviation example_merge_pass :: "nat \<Rightarrow> time \<Rightarrow> string list running option \<Rightarrow>
    gateway_write list \<times> string list engines \<times> (go_error + Result)" where
  "example_merge_pass ino now cur \<equiv>
     reconcile_merge ''c'' list_meta_api example_json () (example_merge_env example_served_set ino now) (\<lambda>_. cur) ''s''"

lemma example_served_here: "served_here ''c'' list_meta_api example_served_set"
  by code_simp

lemma example_replaced:
  "replaceRestarted example_json () (example_merge_env example_served_set 7 0) example_served_set (Some example_running) = Some example_running"
  "replaceRestarted example_json () (example_merge_env example_served_set 9 0) example_served_set (Some example_running) =
     Some (example_running\<lparr>rn_retrying := [0], rn_failing := [(0, 0)]\<rparr>)"
  by code_simp+

lemma example_merge_set: "ge_set (example_merge_env s ino now) n = Inr s"
  by (simp add: example_merge_env_def)

theorem engine_stopped_only_for_a_reason_witness:
  "StopEngine ''s'' \<notin> set (fst (example_merge_pass 7 0 (Some example_running)))"
proof -
  obtain ws es res where p: "example_merge_pass 7 0 (Some example_running) = (ws, es, res)" by (metis prod_cases3)
  have "keeps_engine (ge_atServes (example_merge_env example_served_set 7 0)) example_running example_served_set" by code_simp
  with engine_stopped_only_for_a_reason[OF example_merge_set example_served_here p example_replaced(1), of "''s''"] p
  show ?thesis by simp
qed

lemma example_started:
  "StartEngine \<lparr>sp_domainDir = ''/d'', sp_outputID = ''o'', sp_members = [''f''], sp_skew = default_skew, sp_ordered = True,
     sp_stalled = [''f'']\<rparr> \<in> set (fst (example_merge_pass 7 0 (Some (example_running\<lparr>rn_failed := True\<rparr>))))"
  by code_simp

theorem output_built_soundly_witness:
  "\<exists>dir def layout. list_all (fits_output example_json () (example_merge_env example_served_set 7 0) dir def layout) [''f'']"
proof -
  have "\<exists>s dir def layout spec'. (StartEngine spec = StartEngine spec' \<or> StartEngine spec = RemoveOutput (flowDir dir (sp_outputID spec'))) \<and>
      list_all (fits_output J nv env dir def layout) (sp_members spec')"
    if "StartEngine spec \<in> set (fst (reconcile_merge node M J nv env engines name))" for spec node M J nv env engines name
    using output_built_soundly[OF that disjI1[OF refl]] by blast
  from this[OF example_started] show ?thesis by auto
qed

theorem output_geometry_is_kept_witness:
  "list_all (\<lambda>flowID. \<exists>d. fv_def (example_fs 7) (flowDir ''/d'' flowID) = Inr d \<and>
      sameGeometry example_json () (Some ''def'') (Some d)) [''f'']"
proof -
  let ?env = "example_merge_env example_served_set 7 0" and ?c = "example_running\<lparr>rn_failed := True\<rparr>"
  have c: "replaceRestarted example_json () ?env example_served_set (Some ?c) = Some ?c" "rn_def ?c = Some ''def''" by code_simp+
  have m: "ge_domainPath ?env (rf_domain (ss_output (set_spec example_served_set))) = Inr (''/d'', True)"
    "\<lparr>rf_flowID = ''f'', rf_domain = ''''\<rparr> \<in> set (ss_members (set_spec example_served_set))"
    "member_ino (ge_atBuild ?env) ''/d'' \<lparr>rf_flowID = ''f'', rf_domain = ''''\<rparr> \<noteq> 0"
    "fv_def (ge_atBuild ?env) (flowDir ''/d'' (rf_flowID \<lparr>rf_flowID = ''f'', rf_domain = ''''\<rparr>)) = Inr ''def''"
    "sameGeometry example_json () (Some ''def'') (Some ''def'')"
    by code_simp+
  show ?thesis
    using output_geometry_is_kept[OF example_started example_merge_set c m] by (simp add: example_merge_env_def)
qed

theorem rebuild_held_off_boundedly_witness: "time_sub 0 0 < retryFor"
proof -
  let ?env = "example_merge_env example_served_set 9 0"
  have "held_off example_json () example_served_set 0 [?env] example_running" "current example_running example_served_set"
    "map_of (rn_failing example_running) 0 = None"
    by code_simp+
  from rebuild_held_off_boundedly[OF this(2,3,1), of ?env] show ?thesis by (simp add: example_merge_env_def)
qed

theorem report_is_exact_witness:
  "\<exists>ws es res. example_merge_pass 7 0 (Some example_running) = (ws, es, res) \<and>
     (\<forall>n own ids. ApplyStalled n own ids \<in> set ws \<longrightarrow> set ids = entry_for (example_merge_env example_served_set 7 0) (es ''s'') [''g'', ''f''])"
proof -
  obtain ws es res where p: "example_merge_pass 7 0 (Some example_running) = (ws, es, res)" by (metis prod_cases3)
  have "om_name (set_meta example_served_set) = ''s''" "reported ''c'' example_served_set = [''g'', ''f'']" by code_simp+
  with report_is_exact[OF example_merge_set _ p] p show ?thesis by auto
qed

theorem engines_run_for_served_sets_witness:
  "\<exists>ws es res. example_merge_pass 7 0 None = (ws, es, res) \<and>
     (\<forall>c. es ''s'' = Some c \<longrightarrow> current c example_served_set \<and> \<not> rn_failed c)"
proof -
  obtain ws es res where p: "example_merge_pass 7 0 None = (ws, es, res)" by (metis prod_cases3)
  with engines_run_for_served_sets[OF p] show ?thesis by (auto simp: example_merge_set)
qed

theorem geometry_is_judged_alike_witness:
  "\<exists>ms. read_members example_set_config example_json (example_set_env example_set) [\<lparr>rf_flowID = ''f'', rf_domain = ''''\<rparr>] = Inr ms \<and>
     (members_agree ms \<longleftrightarrow>
      list_all (\<lambda>x. list_all (\<lambda>y. sameGeometry example_json () (raw_definition x) (raw_definition y)) (filter (\<lambda>m. mb_def m \<noteq> None) ms))
        (filter (\<lambda>m. mb_def m \<noteq> None) ms))"
proof -
  obtain ms where ms: "read_members example_set_config example_json (example_set_env example_set) [\<lparr>rf_flowID = ''f'', rf_domain = ''''\<rparr>] = Inr ms"
    by (auto simp: example_set_env_def example_set_config_def example_json_def read_member_def member_ref_def flowref_name_def
        witness_flow_def resolveOrigin_def flow_ref_def Let_def)
  from geometry_is_judged_alike[OF ms] ms show ?thesis by blast
qed

end
