(* ===== verification/Agent_Sets.thy ===== *)
theory Agent_Sets
  imports Redundancy_Safety
begin

section \<open>The agent's side of redundancy sets (agent/internal/redundancy)\<close>

text \<open>
  The domain agent lists its node in the status of a redundancy set while a reader there waits for or uses the output
  (\<open>want\<close>), and takes the node out again once nobody used the output for a grace period (\<open>release\<close>, \<open>leave\<close>). The
  two run concurrently: readers call \<open>want\<close> from their own goroutines while one loop calls \<open>release\<close>. The first
  half models each operation; the second is the interleaving of their steps, with the lock and the API server's
  optimistic concurrency, and shows that a reader's want is not lost. The agent reads through an uncached client, so a
  read answers what the server holds.
\<close>

subsection \<open>Operations\<close>

definition ReleaseGrace :: duration where "ReleaseGrace = 60 * second"
definition leaveTimeout :: duration where "leaveTimeout = 5 * second"

type_synonym use_times = "string \<Rightarrow> time option"

datatype nodes_write = UpdateNodes MxlFlowRedundancySet

record agent_sets_env =
  ae_list :: "go_error + MxlFlowRedundancySet list"
  ae_get :: "nat \<Rightarrow> string \<Rightarrow> go_error + MxlFlowRedundancySet"
  ae_update :: "nat \<Rightarrow> MxlFlowRedundancySet \<Rightarrow> go_error + unit"
  ae_now :: "nat \<Rightarrow> time"
  ae_retry :: "(nat \<Rightarrow> (nodes_write, unit) io) \<Rightarrow> (nodes_write, unit) io"
  ae_inUse :: "go_error + (FlowRef \<Rightarrow> bool)"

definition mark_used :: "string \<Rightarrow> time \<Rightarrow> use_times \<Rightarrow> use_times" where
  "mark_used name now lastUsed = lastUsed(name \<mapsto> now)"

definition outputOf :: "agent_sets_env \<Rightarrow> string \<Rightarrow> string \<Rightarrow> go_error + MxlFlowRedundancySet option" where
  "outputOf env domain flowID =
     (case ae_list env of
        Inl e \<Rightarrow> Inl e
      | Inr sets \<Rightarrow> Inr (find_first (\<lambda>s. rf_flowID (ss_output (set_spec s)) = flowID \<and> rf_domain (ss_output (set_spec s)) = domain) sets))"

definition isOutput :: "agent_sets_env \<Rightarrow> string \<Rightarrow> string \<Rightarrow> go_error + bool" where
  "isOutput env domain flowID = (case outputOf env domain flowID of Inl e \<Rightarrow> Inl e | Inr s \<Rightarrow> Inr (s \<noteq> None))"

definition with_nodes :: "MxlFlowRedundancySet \<Rightarrow> string list \<Rightarrow> MxlFlowRedundancySet" where
  "with_nodes s nodes = s\<lparr>set_status := (set_status s)\<lparr>sst_nodes := nodes\<rparr>\<rparr>"

definition want_attempt :: "agent_sets_env \<Rightarrow> string \<Rightarrow> string \<Rightarrow> nat \<Rightarrow> (nodes_write, unit) io" where
  "want_attempt env node name i =
     io_bind (io_read (ae_get env i name)) (\<lambda>cur.
     if node \<in> set (sst_nodes (set_status cur)) then io_ret ()
     else let cur' = with_nodes cur (sst_nodes (set_status cur) @ [node])
          in io_write (UpdateNodes cur') (ae_update env i cur'))"

text \<open>The answer is whether the flow is an output, beside the error; the use is recorded before the set is read.\<close>

definition want ::
  "agent_sets_env \<Rightarrow> string \<Rightarrow> time \<Rightarrow> use_times \<Rightarrow> string \<Rightarrow> string \<Rightarrow> nodes_write list \<times> (bool \<times> go_error option) \<times> use_times" where
  "want env node now lastUsed domain flowID =
     (case outputOf env domain flowID of
        Inl e \<Rightarrow> ([], (False, Some e), lastUsed)
      | Inr None \<Rightarrow> ([], (False, None), lastUsed)
      | Inr (Some s) \<Rightarrow>
          let name = om_name (set_meta s); r = ae_retry env (want_attempt env node name)
          in (fst r, (True, case snd r of Inl e \<Rightarrow> Some e | Inr _ \<Rightarrow> None), mark_used name now lastUsed))"

text \<open>Whether an output last used at \<open>last\<close> has not been used for the grace period.\<close>

definition within_grace :: "duration \<Rightarrow> time \<Rightarrow> time option \<Rightarrow> bool" where
  "within_grace grace now last_use = (case last_use of None \<Rightarrow> False | Some t \<Rightarrow> time_sub now t < grace)"

definition leave_attempt ::
  "agent_sets_env \<Rightarrow> string \<Rightarrow> duration \<Rightarrow> use_times \<Rightarrow> string \<Rightarrow> nat \<Rightarrow> (nodes_write, unit) io" where
  "leave_attempt env node grace lastUsed name i =
     (case ae_get env i name of
        Inl e \<Rightarrow> io_read (ignoreNotFound (Inl e))
      | Inr cur \<Rightarrow>
          if node \<notin> set (sst_nodes (set_status cur)) then io_ret ()
          else if within_grace grace (ae_now env i) (lastUsed name) then io_ret ()
          else let cur' = with_nodes cur (remove1 node (sst_nodes (set_status cur)))
               in io_write (UpdateNodes cur') (ae_update env i cur'))"

definition leave :: "agent_sets_env \<Rightarrow> string \<Rightarrow> duration \<Rightarrow> use_times \<Rightarrow> string \<Rightarrow> (nodes_write, unit) io" where
  "leave env node grace lastUsed name = ae_retry env (leave_attempt env node grace lastUsed name)"

definition output_used :: "(FlowRef \<Rightarrow> bool) \<Rightarrow> MxlFlowRedundancySet \<Rightarrow> bool" where
  "output_used inUse s = inUse (output_ref s)"

text \<open>The loop over the sets that list this node: the use times after it and the sets to leave.\<close>

fun scan_here :: "duration \<Rightarrow> time \<Rightarrow> (FlowRef \<Rightarrow> bool) \<Rightarrow> MxlFlowRedundancySet list \<Rightarrow> use_times \<Rightarrow> use_times \<times> string list" where
  "scan_here grace now inUse [] lastUsed = (lastUsed, [])"
| "scan_here grace now inUse (s # rest) lastUsed =
     (let name = om_name (set_meta s)
      in if output_used inUse s \<or> lastUsed name = None
         then scan_here grace now inUse rest (lastUsed(name \<mapsto> now))
         else if within_grace grace now (lastUsed name) then scan_here grace now inUse rest lastUsed
         else (case scan_here grace now inUse rest lastUsed of (lu, idle) \<Rightarrow> (lu, name # idle)))"

definition forget_unlisted :: "string list \<Rightarrow> use_times \<Rightarrow> use_times" where
  "forget_unlisted names lastUsed = (\<lambda>n. if n \<in> set names then lastUsed n else None)"

definition release ::
  "agent_sets_env \<Rightarrow> string \<Rightarrow> duration \<Rightarrow> time \<Rightarrow> use_times \<Rightarrow> (nodes_write, unit) io \<times> use_times" where
  "release env node grace now lastUsed =
     (case ae_list env of
        Inl e \<Rightarrow> (io_fail e, lastUsed)
      | Inr sets \<Rightarrow>
          let here = filter (\<lambda>s. node \<in> set (sst_nodes (set_status s))) sets
          in case (if here = [] then Inr (\<lambda>_. False) else ae_inUse env) of
               Inl e \<Rightarrow> (io_fail e, lastUsed)
             | Inr inUse \<Rightarrow>
                 (case scan_here grace now inUse here lastUsed of (lu, idle) \<Rightarrow>
                  let lu' = forget_unlisted (map (\<lambda>s. om_name (set_meta s)) here) lu
                  in (io_each (leave env node grace lu') idle, lu')))"

subsection \<open>What the operations write\<close>

lemma scan_here_idle:
  assumes "distinct (map (\<lambda>s. om_name (set_meta s)) here)" "name \<in> set (snd (scan_here grace now inUse here lastUsed))"
  shows "\<exists>s \<in> set here. om_name (set_meta s) = name \<and> \<not> output_used inUse s \<and>
    (\<exists>t. lastUsed name = Some t \<and> grace \<le> time_sub now t)"
  using assms
proof (induction here arbitrary: lastUsed)
  case (Cons s here)
  let ?n = "om_name (set_meta s)"
  show ?case
  proof (cases "output_used inUse s \<or> lastUsed ?n = None")
    case True
    with Cons.prems have "name \<in> set (snd (scan_here grace now inUse here (lastUsed(?n \<mapsto> now))))" by (simp add: Let_def)
    from Cons.IH[OF _ this] Cons.prems(1) obtain s' t where "s' \<in> set here" "om_name (set_meta s') = name" "\<not> output_used inUse s'"
      "(lastUsed(?n \<mapsto> now)) name = Some t" "grace \<le> time_sub now t" by auto
    moreover from this Cons.prems(1) have "name \<noteq> ?n" by (auto intro: rev_image_eqI)
    ultimately show ?thesis by auto
  next
    case False
    then obtain t where t: "lastUsed ?n = Some t" by auto
    show ?thesis
      using Cons.IH[of lastUsed] Cons.prems False t
      by (auto simp: Let_def within_grace_def split_beta split: if_splits)
  qed
qed simp

lemma leave_attempt_writes:
  "UpdateNodes s' \<in> set (fst (leave_attempt env node grace lastUsed name i)) \<Longrightarrow>
   \<exists>cur. ae_get env i name = Inr cur \<and> node \<in> set (sst_nodes (set_status cur)) \<and>
     s' = with_nodes cur (remove1 node (sst_nodes (set_status cur))) \<and> \<not> within_grace grace (ae_now env i) (lastUsed name)"
  by (auto simp: leave_attempt_def Let_def split: sum.splits if_splits)

text \<open>A release takes the node out of a set only when no process on the node uses its output, it was not used for the
  whole grace period before the pass nor again before the write, and it was seen before; and it changes nothing of the
  status but this node's entry.\<close>

theorem released_only_when_idle:
  assumes "retry_ok (ae_retry env)" "ae_list env = Inr sets" "distinct (map (\<lambda>s. om_name (set_meta s)) sets)"
    "UpdateNodes s' \<in> set (fst (fst (release env node grace now lastUsed)))"
  shows "\<exists>s inUse t i cur. s \<in> set sets \<and> node \<in> set (sst_nodes (set_status s)) \<and> ae_inUse env = Inr inUse \<and>
    \<not> inUse (output_ref s) \<and> lastUsed (om_name (set_meta s)) = Some t \<and> grace \<le> time_sub now t \<and>
    ae_get env i (om_name (set_meta s)) = Inr cur \<and> s' = with_nodes cur (remove1 node (sst_nodes (set_status cur)))"
proof -
  define here where "here = filter (\<lambda>s. node \<in> set (sst_nodes (set_status s))) sets"
  have dist: "distinct (map (\<lambda>s. om_name (set_meta s)) here)" unfolding here_def using assms(3) by (rule distinct_map_filter)
  have ne: "here \<noteq> []" using assms(2,4) by (auto simp: release_def here_def[symmetric] Let_def)
  then obtain inUse where u: "ae_inUse env = Inr inUse"
    using assms(2,4) by (auto simp: release_def here_def[symmetric] Let_def split: sum.splits)
  obtain lu idle where sc: "scan_here grace now inUse here lastUsed = (lu, idle)" by fastforce
  let ?lu = "forget_unlisted (map (\<lambda>s. om_name (set_meta s)) here) lu"
  from assms(4) obtain name where n: "name \<in> set idle" "UpdateNodes s' \<in> set (fst (leave env node grace ?lu name))"
    using assms(2) ne u by (auto simp: release_def here_def[symmetric] Let_def sc dest!: io_each_writes)
  from retry_writes[OF assms(1)] n(2) obtain i where "UpdateNodes s' \<in> set (fst (leave_attempt env node grace ?lu name i))"
    unfolding leave_def by blast
  from leave_attempt_writes[OF this] obtain cur where c: "ae_get env i name = Inr cur"
    "s' = with_nodes cur (remove1 node (sst_nodes (set_status cur)))" by blast
  from scan_here_idle[OF dist, of name grace now inUse lastUsed] n(1) sc
  obtain s t where "s \<in> set here" "om_name (set_meta s) = name" "\<not> output_used inUse s" "lastUsed name = Some t" "grace \<le> time_sub now t"
    by auto
  with c u show ?thesis unfolding here_def output_used_def by auto
qed

subsection \<open>Interleaving\<close>

text \<open>
  One set and this node. A want goes through recording its use, reading the set, and writing it when the node is
  missing; a write succeeds only at the version that was read. The release loop takes a list, scans it, and leaves:
  reads the set, and under the lock checks the last use and writes. The lock is held in \<open>RCrit\<close> only, and a want
  cannot record its use meanwhile. Time passes, and others write the status (\<open>other\<close>) without touching this node's
  entry. With \<open>late\<close> a write the agent gave up on after \<open>leaveTimeout\<close> may still be applied by the server after
  the lock was released.
\<close>

datatype want_pc = WIdle | WUsed time | WRead time nat | WDone time

datatype release_pc = RIdle | RSnap bool | RLeave | RRead nat | RCrit nat

record 'r sets_state =
  st_listed :: bool
  st_version :: nat
  st_clock :: time
  st_lastUsed :: "time option"
  st_want :: "'r \<Rightarrow> want_pc"
  st_release :: release_pc
  st_pending :: "nat option"

definition recent :: "duration \<Rightarrow> 'r sets_state \<Rightarrow> bool" where
  "recent grace s = (case st_lastUsed s of None \<Rightarrow> False | Some t \<Rightarrow> st_clock s - t < grace)"

fun in_crit :: "release_pc \<Rightarrow> bool" where
  "in_crit (RCrit _) = True"
| "in_crit _ = False"

inductive sets_step :: "bool \<Rightarrow> duration \<Rightarrow> 'r sets_state \<Rightarrow> 'r sets_state \<Rightarrow> bool" for late grace where
  want_use: "st_want s r \<in> {WIdle, WDone u} \<Longrightarrow> \<not> in_crit (st_release s) \<Longrightarrow>
    sets_step late grace s (s\<lparr>st_lastUsed := Some (st_clock s), st_want := (st_want s)(r := WUsed (st_clock s))\<rparr>)"
| want_found: "st_want s r = WUsed u \<Longrightarrow> st_listed s \<Longrightarrow> sets_step late grace s (s\<lparr>st_want := (st_want s)(r := WDone u)\<rparr>)"
| want_missing: "st_want s r = WUsed u \<Longrightarrow> \<not> st_listed s \<Longrightarrow>
    sets_step late grace s (s\<lparr>st_want := (st_want s)(r := WRead u (st_version s))\<rparr>)"
| want_added: "st_want s r = WRead u v \<Longrightarrow> v = st_version s \<Longrightarrow>
    sets_step late grace s (s\<lparr>st_listed := True, st_version := v + 1, st_want := (st_want s)(r := WDone u)\<rparr>)"
| want_conflict: "st_want s r = WRead u v \<Longrightarrow> v \<noteq> st_version s \<Longrightarrow>
    sets_step late grace s (s\<lparr>st_want := (st_want s)(r := WUsed u)\<rparr>)"
| release_list: "st_release s = RIdle \<Longrightarrow> sets_step late grace s (s\<lparr>st_release := RSnap (st_listed s)\<rparr>)"
| release_used: "st_release s = RSnap True \<Longrightarrow>
    sets_step late grace s (s\<lparr>st_lastUsed := Some (st_clock s), st_release := RIdle\<rparr>)"
| release_recent: "st_release s = RSnap True \<Longrightarrow> recent grace s \<Longrightarrow> sets_step late grace s (s\<lparr>st_release := RIdle\<rparr>)"
| release_idle: "st_release s = RSnap True \<Longrightarrow> st_lastUsed s \<noteq> None \<Longrightarrow> \<not> recent grace s \<Longrightarrow>
    sets_step late grace s (s\<lparr>st_release := RLeave\<rparr>)"
| release_forget: "st_release s = RSnap False \<Longrightarrow> sets_step late grace s (s\<lparr>st_lastUsed := None, st_release := RIdle\<rparr>)"
| leave_gone: "st_release s = RLeave \<Longrightarrow> \<not> st_listed s \<Longrightarrow> sets_step late grace s (s\<lparr>st_release := RIdle\<rparr>)"
| leave_read: "st_release s = RLeave \<Longrightarrow> st_listed s \<Longrightarrow> sets_step late grace s (s\<lparr>st_release := RRead (st_version s)\<rparr>)"
| leave_stay: "st_release s = RRead v \<Longrightarrow> recent grace s \<Longrightarrow> sets_step late grace s (s\<lparr>st_release := RIdle\<rparr>)"
| leave_lock: "st_release s = RRead v \<Longrightarrow> \<not> recent grace s \<Longrightarrow> sets_step late grace s (s\<lparr>st_release := RCrit v\<rparr>)"
| leave_write: "st_release s = RCrit v \<Longrightarrow> v = st_version s \<Longrightarrow>
    sets_step late grace s (s\<lparr>st_listed := False, st_version := v + 1, st_release := RIdle\<rparr>)"
| leave_conflict: "st_release s = RCrit v \<Longrightarrow> v \<noteq> st_version s \<Longrightarrow> sets_step late grace s (s\<lparr>st_release := RLeave\<rparr>)"
| leave_timeout: "st_release s = RCrit v \<Longrightarrow>
    sets_step late grace s (s\<lparr>st_release := RIdle, st_pending := (if late then Some v else None)\<rparr>)"
| late_write: "st_pending s = Some v \<Longrightarrow> v = st_version s \<Longrightarrow>
    sets_step late grace s (s\<lparr>st_listed := False, st_version := v + 1, st_pending := None\<rparr>)"
| tick: "0 \<le> d \<Longrightarrow> sets_step late grace s (s\<lparr>st_clock := st_clock s + d\<rparr>)"
| other: "sets_step late grace s (s\<lparr>st_version := st_version s + 1\<rparr>)"

definition sets_start :: "time \<Rightarrow> bool \<Rightarrow> 'r sets_state \<Rightarrow> bool" where
  "sets_start now listed s \<longleftrightarrow>
     s = \<lparr>st_listed = listed, st_version = 0, st_clock = now, st_lastUsed = None, st_want = (\<lambda>_. WIdle), st_release = RIdle, st_pending = None\<rparr>"

inductive sets_reach :: "bool \<Rightarrow> duration \<Rightarrow> 'r sets_state \<Rightarrow> bool" for late grace where
  reach_start: "sets_start now listed s \<Longrightarrow> sets_reach late grace s"
| reach_step: "sets_reach late grace s \<Longrightarrow> sets_step late grace s t \<Longrightarrow> sets_reach late grace t"

text \<open>When a want recorded its use, from then on.\<close>

fun use_of :: "want_pc \<Rightarrow> time option" where
  "use_of WIdle = None"
| "use_of (WUsed u) = Some u"
| "use_of (WRead u v) = Some u"
| "use_of (WDone u) = Some u"

definition leaving :: "release_pc \<Rightarrow> bool" where
  "leaving p \<longleftrightarrow> p = RLeave \<or> (\<exists>v. p = RRead v) \<or> (\<exists>v. p = RCrit v)"

text \<open>Every use recorded lies in the past and is not later than the last use kept; a want that is done is listed, or done
  long ago.\<close>

definition uses_ok :: "time \<Rightarrow> time option \<Rightarrow> ('r \<Rightarrow> want_pc) \<Rightarrow> bool" where
  "uses_ok now last_use w \<longleftrightarrow>
     (\<forall>t. last_use = Some t \<longrightarrow> t \<le> now) \<and>
     (\<forall>r u. use_of (w r) = Some u \<longrightarrow> u \<le> now \<and> (\<forall>t. last_use = Some t \<longrightarrow> u \<le> t))"

definition done_ok :: "duration \<Rightarrow> time \<Rightarrow> bool \<Rightarrow> ('r \<Rightarrow> want_pc) \<Rightarrow> bool" where
  "done_ok grace now listed w \<longleftrightarrow> (\<forall>r u. w r = WDone u \<longrightarrow> listed \<or> u + grace \<le> now)"

definition sets_inv :: "duration \<Rightarrow> 'r sets_state \<Rightarrow> bool" where
  "sets_inv grace s \<longleftrightarrow>
     uses_ok (st_clock s) (st_lastUsed s) (st_want s) \<and> done_ok grace (st_clock s) (st_listed s) (st_want s) \<and>
     (leaving (st_release s) \<longrightarrow> st_lastUsed s \<noteq> None) \<and> (in_crit (st_release s) \<longrightarrow> \<not> recent grace s) \<and> st_pending s = None"

lemma uses_ok_simps:
  "uses_ok now last_use w \<Longrightarrow> use_of p = use_of (w r) \<Longrightarrow> uses_ok now last_use (w(r := p))"
  "uses_ok now last_use w \<Longrightarrow> uses_ok now (Some now) w"
  "uses_ok now last_use w \<Longrightarrow> uses_ok now (Some now) (w(r := WUsed now))"
  "uses_ok now last_use w \<Longrightarrow> uses_ok now None w"
  "uses_ok now last_use w \<Longrightarrow> 0 \<le> d \<Longrightarrow> uses_ok (now + d) last_use w"
  unfolding uses_ok_def by (auto split: if_splits) force+

lemma done_ok_simps:
  "done_ok grace now True w"
  "done_ok grace now listed w \<Longrightarrow> (\<And>u. p \<noteq> WDone u) \<Longrightarrow> done_ok grace now listed (w(r := p))"
  "done_ok grace now listed w \<Longrightarrow> 0 \<le> d \<Longrightarrow> done_ok grace (now + d) listed w"
proof -
  show "done_ok grace now True w" by (simp add: done_ok_def)
  show "done_ok grace now listed w \<Longrightarrow> (\<And>u. p \<noteq> WDone u) \<Longrightarrow> done_ok grace now listed (w(r := p))"
    by (simp add: done_ok_def)
  assume d: "done_ok grace now listed w" "0 \<le> d"
  have "listed \<or> u + grace \<le> now + d" if "w r = WDone u" for r u
    using d that unfolding done_ok_def by (cases listed) (auto intro: add_increasing2)
  then show "done_ok grace (now + d) listed w" by (simp add: done_ok_def)
qed

lemma recent_simps:
  "\<not> recent grace s \<Longrightarrow> 0 \<le> d \<Longrightarrow> \<not> recent grace (s\<lparr>st_clock := st_clock s + d\<rparr>)"
  "recent grace (s\<lparr>st_want := w\<rparr>) = recent grace s" "recent grace (s\<lparr>st_version := v\<rparr>) = recent grace s"
  "recent grace (s\<lparr>st_release := p\<rparr>) = recent grace s" "recent grace (s\<lparr>st_listed := l\<rparr>) = recent grace s"
  by (auto simp: recent_def split: option.splits)

text \<open>What the lock is for: when the write goes through, every want done so far was done a grace period ago.\<close>

lemma leaving_done:
  assumes "sets_inv grace s" "in_crit (st_release s)" "leaving (st_release s)"
  shows "done_ok grace (st_clock s) False (st_want s)"
proof -
  obtain t where t: "st_lastUsed s = Some t" "grace \<le> st_clock s - t"
    using assms by (auto simp: sets_inv_def recent_def split: option.splits)
  have "u + grace \<le> st_clock s" if w: "st_want s r = WDone u" for r u
  proof -
    have "use_of (st_want s r) = Some u" by (simp add: w)
    then have "u \<le> t" using assms(1) t(1) unfolding sets_inv_def uses_ok_def by blast
    with t(2) show ?thesis by linarith
  qed
  then show ?thesis by (simp add: done_ok_def)
qed

lemma sets_inv_start: "sets_start now listed s \<Longrightarrow> sets_inv grace s"
  by (auto simp: sets_start_def sets_inv_def leaving_def uses_ok_def done_ok_def)

lemma sets_inv_step: "sets_step False grace s t \<Longrightarrow> sets_inv grace s \<Longrightarrow> sets_inv grace t"
proof (induction rule: sets_step.induct)
  case (leave_write s v)
  then have "done_ok grace (st_clock s) False (st_want s)" by (intro leaving_done) (simp_all add: leaving_def)
  with leave_write show ?case by (simp add: sets_inv_def leaving_def)
next
  case (want_found s r u)
  then show ?case by (auto simp: sets_inv_def recent_simps done_ok_simps uses_ok_simps(1))
next
  case (want_use s r u)
  then show ?case
    by (auto simp: sets_inv_def recent_def leaving_def intro: uses_ok_simps(3) done_ok_simps(2))
qed (auto simp: sets_inv_def recent_simps leaving_def uses_ok_simps done_ok_simps)

lemma sets_reach_inv: "sets_reach False grace s \<Longrightarrow> sets_inv grace s"
  by (induction rule: sets_reach.induct) (auto intro: sets_inv_start sets_inv_step)

text \<open>The check of \<open>leave\<close> is the one the interleaving makes.\<close>

lemma within_grace_recent:
  "in_i64 (st_clock s - t) \<Longrightarrow> st_lastUsed s = Some t \<Longrightarrow> within_grace grace (st_clock s) (st_lastUsed s) = recent grace s"
  by (simp add: within_grace_def recent_def time_sub_id)


definition sets_at :: "bool \<Rightarrow> time \<Rightarrow> nat sets_state" where
  "sets_at listed now = \<lparr>st_listed = listed, st_version = 0, st_clock = now, st_lastUsed = None, st_want = (\<lambda>_. WIdle),
     st_release = RIdle, st_pending = None\<rparr>"

lemma sets_at_reach: "sets_reach late grace (sets_at listed now)"
  by (rule reach_start[of now listed]) (simp add: sets_start_def sets_at_def)


text \<open>The argument needs the write to be over when the lock is released. A write the agent gave up on after its timeout,
  and the server applies afterwards, takes the node out under a reader whose want has just been answered.\<close>

theorem late_leave_loses_a_want:
  "\<exists>s :: nat sets_state. sets_reach True ReleaseGrace s \<and> st_want s 0 = WDone (st_clock s) \<and> \<not> st_listed s"
proof -
  let ?g = "ReleaseGrace"
  let ?s0 = "sets_at True 0"
  let ?s1 = "?s0\<lparr>st_release := RSnap (st_listed ?s0)\<rparr>"
  let ?s2 = "?s1\<lparr>st_lastUsed := Some (st_clock ?s1), st_release := RIdle\<rparr>"
  let ?s3 = "?s2\<lparr>st_clock := st_clock ?s2 + ?g\<rparr>"
  let ?s4 = "?s3\<lparr>st_release := RSnap (st_listed ?s3)\<rparr>"
  let ?s5 = "?s4\<lparr>st_release := RLeave\<rparr>"
  let ?s6 = "?s5\<lparr>st_release := RRead (st_version ?s5)\<rparr>"
  let ?s7 = "?s6\<lparr>st_release := RCrit 0\<rparr>"
  let ?s8 = "?s7\<lparr>st_release := RIdle, st_pending := (if True then Some 0 else None)\<rparr>"
  let ?s9 = "?s8\<lparr>st_lastUsed := Some (st_clock ?s8), st_want := (st_want ?s8)(0 := WUsed (st_clock ?s8))\<rparr>"
  let ?s10 = "?s9\<lparr>st_want := (st_want ?s9)(0 := WDone ?g)\<rparr>"
  let ?s11 = "?s10\<lparr>st_listed := False, st_version := 0 + 1, st_pending := None\<rparr>"
  note defs = sets_at_def recent_def ReleaseGrace_def second_def
  have 1: "sets_reach True ?g ?s1" by (rule reach_step[OF sets_at_reach release_list]) (simp add: defs)
  have 2: "sets_reach True ?g ?s2" by (rule reach_step[OF 1 release_used]) (simp add: defs)
  have 3: "sets_reach True ?g ?s3" by (rule reach_step[OF 2 tick]) (simp add: defs)
  have 4: "sets_reach True ?g ?s4" by (rule reach_step[OF 3 release_list]) (simp add: defs)
  have 5: "sets_reach True ?g ?s5" by (rule reach_step[OF 4 release_idle]) (simp_all add: defs)
  have 6: "sets_reach True ?g ?s6" by (rule reach_step[OF 5 leave_read]) (simp_all add: defs)
  have 7: "sets_reach True ?g ?s7" by (rule reach_step[OF 6 leave_lock]) (simp_all add: defs)
  have 8: "sets_reach True ?g ?s8" by (rule reach_step[OF 7 leave_timeout]) (simp add: defs)
  have 9: "sets_reach True ?g ?s9" by (rule reach_step[OF 8 want_use]) (simp_all add: defs)
  have 10: "sets_reach True ?g ?s10" by (rule reach_step[OF 9 want_found]) (simp_all add: defs)
  have 11: "sets_reach True ?g ?s11" by (rule reach_step[OF 10 late_write]) (simp_all add: defs)
  moreover have "st_want ?s11 0 = WDone (st_clock ?s11) \<and> \<not> st_listed ?s11" by (simp add: sets_at_def)
  ultimately show ?thesis by blast
qed

definition example_sets_env :: agent_sets_env where
  "example_sets_env = \<lparr>ae_list = Inr [example_set], ae_get = (\<lambda>_ _. Inr example_set), ae_update = (\<lambda>_ _. Inr ()),
     ae_now = (\<lambda>_. 100 * second), ae_retry = bounded_retry 3 0, ae_inUse = Inr (\<lambda>_. False)\<rparr>"

theorem released_only_when_idle_witness:
  "\<exists>s t. s \<in> set [example_set] \<and> ''c'' \<in> set (sst_nodes (set_status s)) \<and>
     ([''s'' \<mapsto> 0] :: use_times) (om_name (set_meta s)) = Some t \<and> ReleaseGrace \<le> time_sub (100 * second) t"
proof -
  have w: "UpdateNodes (with_nodes example_set [''gone'']) \<in>
      set (fst (fst (release example_sets_env ''c'' ReleaseGrace (100 * second) [''s'' \<mapsto> 0])))"
    by code_simp
  have "retry_ok (ae_retry example_sets_env)" "ae_list example_sets_env = Inr [example_set]"
    "distinct (map (\<lambda>s. om_name (set_meta s)) [example_set])"
    by (simp_all add: example_sets_env_def bounded_retry_ok)
  from released_only_when_idle[OF this w] show ?thesis by blast
qed

end
