(* ===== verification/Intent_Limits.thy ===== *)
theory Intent_Limits
  imports Api_Types
begin

section \<open>Limits on mirrors created on demand (agent/internal/intent/dispatcher.go)\<close>

text \<open>
  The agent creates a mirror when a process opens a flow that is not on the node. A process that opens every flow of a
  domain would get one for each, so a pod may have only \<open>lim_burst\<close> created within a window, and only so many alive.
  Here are the burst history of the pods and the refusals with the time to ask again. Shown: no pod ever gets more than
  its burst created within a window, whatever it asks and whenever, and a refusal names a time that is ahead and at
  which the pod's window has room again.
\<close>

record Limits =
  lim_perPod :: int
  lim_perNode :: int
  lim_burst :: int
  lim_burstWindow :: duration

record LimitError =
  le_msg :: string
  le_retryAfter :: duration

record waiter =
  w_flow :: string
  w_at :: time

text \<open>A pod as far as a burst keeps it.\<close>

record pod_id =
  pi_namespace :: string
  pi_name :: string
  pi_uid :: string

record burst =
  b_pod :: pod_id
  b_created :: "time list"
  b_waiting :: "waiter list"

type_synonym bursts = "string \<Rightarrow> burst option"

definition in_window :: "Limits \<Rightarrow> time \<Rightarrow> time \<Rightarrow> bool" where
  "in_window lim now t \<longleftrightarrow> time_sub now t < lim_burstWindow lim"

definition prune_burst :: "Limits \<Rightarrow> time \<Rightarrow> burst \<Rightarrow> burst" where
  "prune_burst lim now b =
     b\<lparr>b_created := filter (in_window lim now) (b_created b), b_waiting := filter (\<lambda>w. in_window lim now (w_at w)) (b_waiting b)\<rparr>"

definition pruneBursts :: "Limits \<Rightarrow> time \<Rightarrow> bursts \<Rightarrow> bursts" where
  "pruneBursts lim now bs = (\<lambda>uid.
     case bs uid of
       None \<Rightarrow> None
     | Some b \<Rightarrow> (let b' = prune_burst lim now b in if b_created b' = [] \<and> b_waiting b' = [] then None else Some b'))"

text \<open>\<^verbatim>\<open>slices.IndexFunc\<close> over the waiting flows.\<close>

fun waiting_index :: "string \<Rightarrow> waiter list \<Rightarrow> nat option" where
  "waiting_index flow [] = None"
| "waiting_index flow (w # ws) = (if w_flow w = flow then Some 0 else map_option Suc (waiting_index flow ws))"

definition drop_index :: "nat \<Rightarrow> 'a list \<Rightarrow> 'a list" where
  "drop_index i xs = take i xs @ drop (Suc i) xs"

text \<open>When the \<open>i\<close>-th flow refused may ask again, with \<open>n\<close> the burst.\<close>

definition retry_at :: "duration \<Rightarrow> nat \<Rightarrow> time list \<Rightarrow> nat \<Rightarrow> time" where
  "retry_at window n created i = created ! (length created - n + i mod n) + mul64 (int (i div n + 1)) window"

definition burst_text :: "Limits \<Rightarrow> burst \<Rightarrow> (duration \<Rightarrow> string) \<Rightarrow> string" where
  "burst_text lim b show_duration =
     ''pod '' @ pi_namespace (b_pod b) @ ''/'' @ pi_name (b_pod b) @ '' had '' @ show_nat (length (b_created b)) @
     '' mirrors created on demand in the last '' @ show_duration (lim_burstWindow lim) @ '', its limit''"

definition burstRefusal ::
  "Limits \<Rightarrow> (duration \<Rightarrow> string) \<Rightarrow> burst \<Rightarrow> string \<Rightarrow> time \<Rightarrow> burst \<times> LimitError option" where
  "burstRefusal lim show_duration b flow now =
     (let i = waiting_index flow (b_waiting b)
      in if lim_burst lim \<le> 0 \<or> int (length (b_created b)) < lim_burst lim
         then ((case i of None \<Rightarrow> b | Some k \<Rightarrow> b\<lparr>b_waiting := drop_index k (b_waiting b)\<rparr>), None)
         else let waiting = (case i of None \<Rightarrow> b_waiting b @ [\<lparr>w_flow = flow, w_at = 0\<rparr>] | Some _ \<Rightarrow> b_waiting b);
                  k = (case i of None \<Rightarrow> length (b_waiting b) | Some k \<Rightarrow> k);
                  due = retry_at (lim_burstWindow lim) (nat (lim_burst lim)) (b_created b) k;
                  b' = b\<lparr>b_waiting := waiting[k := (waiting ! k)\<lparr>w_at := due\<rparr>]\<rparr>
              in (b', Some \<lparr>le_msg = burst_text lim b show_duration, le_retryAfter = time_sub due now\<rparr>))"

text \<open>The first half of \<^verbatim>\<open>admit\<close>: forget what left the window, find or make the pod's burst, and refuse by it.\<close>

definition admit_burst ::
  "Limits \<Rightarrow> (duration \<Rightarrow> string) \<Rightarrow> bursts \<Rightarrow> pod_id \<Rightarrow> string \<Rightarrow> time \<Rightarrow> bursts \<times> LimitError option" where
  "admit_burst lim show_duration bs pod flow now =
     (let bs' = pruneBursts lim now bs;
          b = (case bs' (pi_uid pod) of Some b \<Rightarrow> b | None \<Rightarrow> \<lparr>b_pod = pod, b_created = [], b_waiting = []\<rparr>)
      in case burstRefusal lim show_duration b flow now of (b', err) \<Rightarrow> (bs'(pi_uid pod \<mapsto> b'), err))"

text \<open>The end of \<^verbatim>\<open>ensureMirror\<close>: a mirror that was created is noted.\<close>

definition note_created :: "bursts \<Rightarrow> string \<Rightarrow> time \<Rightarrow> bursts" where
  "note_created bs uid now = (case bs uid of None \<Rightarrow> bs | Some b \<Rightarrow> bs(uid \<mapsto> b\<lparr>b_created := b_created b @ [now]\<rparr>))"

definition no_bursts :: bursts where "no_bursts = (\<lambda>_. None)"

text \<open>\<^verbatim>\<open>refuseEarly\<close> takes the lock twice: to see whether the window of the pod is full, and, once the flow turned out to
  need a mirror, to refuse it.\<close>

definition full_burst :: "Limits \<Rightarrow> bursts \<Rightarrow> string \<Rightarrow> burst option" where
  "full_burst lim bs uid =
     (case bs uid of None \<Rightarrow> None | Some b \<Rightarrow> if lim_burst lim \<le> int (length (b_created b)) then Some b else None)"

definition early_check :: "Limits \<Rightarrow> string \<Rightarrow> time \<Rightarrow> bursts \<Rightarrow> bursts \<times> burst option" where
  "early_check lim uid now bs = (let bs' = pruneBursts lim now bs in (bs', full_burst lim bs' uid))"

definition early_refuse ::
  "Limits \<Rightarrow> (duration \<Rightarrow> string) \<Rightarrow> string \<Rightarrow> string \<Rightarrow> time \<Rightarrow> time \<Rightarrow> bursts \<Rightarrow> bursts \<times> LimitError option" where
  "early_refuse lim show_duration uid flow now later bs =
     (case early_check lim uid now bs of
        (bs', None) \<Rightarrow> (bs', None)
      | (bs', Some b) \<Rightarrow> (case burstRefusal lim show_duration b flow later of (b', err) \<Rightarrow> (bs'(uid \<mapsto> b'), err)))"

subsection \<open>Runs\<close>

text \<open>
  A run is the list of the critical sections in the order the lock admits them. A request that reaches the server is one
  section: the pod, the flow, the clock when it is admitted and when its mirror, if nothing else refuses it, is noted.
  \<open>run_events\<close> gives the creations, with the pod each was for.
\<close>

record asking =
  rq_pod :: pod_id
  rq_flow :: string
  rq_admitted :: time
  rq_noted :: time
  rq_accepted :: bool

datatype burst_event =
    Ask asking
  | Early_check string time
  | Early_refuse string string time time

definition serve_request :: "Limits \<Rightarrow> (duration \<Rightarrow> string) \<Rightarrow> asking \<Rightarrow> bursts \<Rightarrow> bursts \<times> (string \<times> time) list" where
  "serve_request lim show_duration q bs =
     (case admit_burst lim show_duration bs (rq_pod q) (rq_flow q) (rq_admitted q) of
        (bs', Some _) \<Rightarrow> (bs', [])
      | (bs', None) \<Rightarrow>
          if rq_accepted q
          then (note_created bs' (pi_uid (rq_pod q)) (rq_noted q), [(pi_uid (rq_pod q), rq_noted q)]) else (bs', []))"

fun serve_event :: "Limits \<Rightarrow> (duration \<Rightarrow> string) \<Rightarrow> burst_event \<Rightarrow> bursts \<Rightarrow> bursts \<times> (string \<times> time) list" where
  "serve_event lim show_duration (Ask q) bs = serve_request lim show_duration q bs"
| "serve_event lim show_duration (Early_check uid now) bs = (fst (early_check lim uid now bs), [])"
| "serve_event lim show_duration (Early_refuse uid flow now later) bs =
     (fst (early_refuse lim show_duration uid flow now later bs), [])"

fun run_events :: "Limits \<Rightarrow> (duration \<Rightarrow> string) \<Rightarrow> burst_event list \<Rightarrow> bursts \<Rightarrow> bursts \<times> (string \<times> time) list" where
  "run_events lim show_duration [] bs = (bs, [])"
| "run_events lim show_duration (e # es) bs =
     (let (bs', made) = serve_event lim show_duration e bs; (bs'', log) = run_events lim show_duration es bs'
      in (bs'', made @ log))"

text \<open>The clock does not go back within a section nor from one to the next.\<close>

fun event_starts :: "burst_event \<Rightarrow> time" where
  "event_starts (Ask q) = rq_admitted q"
| "event_starts (Early_check uid now) = now"
| "event_starts (Early_refuse uid flow now later) = now"

fun event_finishes :: "burst_event \<Rightarrow> time" where
  "event_finishes (Ask q) = rq_noted q"
| "event_finishes (Early_check uid now) = now"
| "event_finishes (Early_refuse uid flow now later) = later"

fun clock_runs :: "time \<Rightarrow> burst_event list \<Rightarrow> bool" where
  "clock_runs t [] = True"
| "clock_runs t (e # es) = (t \<le> event_starts e \<and> event_starts e \<le> event_finishes e \<and> clock_runs (event_finishes e) es)"

subsection \<open>The history holds every creation of the window\<close>

definition created_of :: "bursts \<Rightarrow> string \<Rightarrow> time list" where
  "created_of bs uid = (case bs uid of None \<Rightarrow> [] | Some b \<Rightarrow> b_created b)"

definition times_of :: "string \<Rightarrow> (string \<times> time) list \<Rightarrow> time list" where
  "times_of uid log = map snd (filter (\<lambda>(u, t). u = uid) log)"

lemma times_of_append [simp]: "times_of uid (xs @ ys) = times_of uid xs @ times_of uid ys"
  by (simp add: times_of_def)

lemma times_of_single [simp]: "times_of uid [(u, t)] = (if u = uid then [t] else [])" "times_of uid [] = []"
  by (simp_all add: times_of_def)

text \<open>\<open>remembered\<close>: from \<open>now\<close> on, the history of a pod has exactly the creations of the log that are in the window.\<close>

definition remembered :: "Limits \<Rightarrow> time \<Rightarrow> (string \<times> time) list \<Rightarrow> bursts \<Rightarrow> bool" where
  "remembered lim now log bs \<longleftrightarrow>
     (\<forall>later\<ge>now. \<forall>uid. filter (in_window lim later) (created_of bs uid) = filter (in_window lim later) (times_of uid log))"

definition within_burst :: "Limits \<Rightarrow> (string \<times> time) list \<Rightarrow> bool" where
  "within_burst lim log \<longleftrightarrow>
     (\<forall>uid start. int (length (filter (\<lambda>t. start \<le> t \<and> t < start + lim_burstWindow lim) (times_of uid log))) \<le> lim_burst lim)"

text \<open>The window is a positive duration; \<^verbatim>\<open>config.Validate\<close> refuses a burst without one.\<close>

definition window_ok :: "Limits \<Rightarrow> bool" where
  "window_ok lim \<longleftrightarrow> 0 < lim_burstWindow lim \<and> in_i64 (lim_burstWindow lim)"

lemma in_window_iff: "window_ok lim \<Longrightarrow> in_window lim now t \<longleftrightarrow> now - t < lim_burstWindow lim"
  by (auto simp: window_ok_def in_window_def time_sub_def maxInt64_def)

lemma in_window_mono:
  "window_ok lim \<Longrightarrow> now \<le> later \<Longrightarrow> in_window lim later t \<Longrightarrow> in_window lim now t"
  by (simp add: in_window_iff)

lemma filter_in_window:
  assumes "window_ok lim" "now \<le> later"
  shows "filter (in_window lim later) (filter (in_window lim now) ts) = filter (in_window lim later) ts"
proof -
  have "(in_window lim now t \<and> in_window lim later t) = in_window lim later t" for t
    using in_window_mono[OF assms] by blast
  then show ?thesis by (simp add: conj_commute)
qed

lemma created_of_pruneBursts [simp]:
  "created_of (pruneBursts lim now bs) uid = filter (in_window lim now) (created_of bs uid)"
  by (auto simp: created_of_def pruneBursts_def prune_burst_def Let_def split: option.splits)

lemma created_of_upd [simp]: "created_of (bs(u \<mapsto> b)) uid = (if uid = u then b_created b else created_of bs uid)"
  by (simp add: created_of_def)

lemma burstRefusal_created: "b_created (fst (burstRefusal lim sd b flow now)) = b_created b"
  by (simp add: burstRefusal_def Let_def split: option.splits)

lemma burstRefusal_passes:
  "snd (burstRefusal lim sd b flow now) = None \<longleftrightarrow> lim_burst lim \<le> 0 \<or> int (length (b_created b)) < lim_burst lim"
  by (simp add: burstRefusal_def Let_def)

lemma created_of_admit_burst [simp]:
  "created_of (fst (admit_burst lim sd bs pod flow now)) uid = filter (in_window lim now) (created_of bs uid)"
proof -
  let ?b = "case pruneBursts lim now bs (pi_uid pod) of Some b \<Rightarrow> b | None \<Rightarrow> \<lparr>b_pod = pod, b_created = [], b_waiting = []\<rparr>"
  have "b_created ?b = created_of (pruneBursts lim now bs) (pi_uid pod)"
    by (simp add: created_of_def split: option.splits)
  moreover obtain b' err where r: "burstRefusal lim sd ?b flow now = (b', err)" by fastforce
  then have "b_created b' = b_created ?b" using burstRefusal_created[of lim sd ?b flow now] by simp
  ultimately show ?thesis using r by (simp add: admit_burst_def Let_def)
qed

lemma admit_burst_known: "\<exists>b. fst (admit_burst lim sd bs pod flow now) (pi_uid pod) = Some b"
  by (simp add: admit_burst_def Let_def split: prod.splits)

lemma admit_burst_passes:
  assumes "snd (admit_burst lim sd bs pod flow now) = None" "0 < lim_burst lim"
  shows "int (length (filter (in_window lim now) (created_of bs (pi_uid pod)))) < lim_burst lim"
proof -
  let ?b = "case pruneBursts lim now bs (pi_uid pod) of Some b \<Rightarrow> b | None \<Rightarrow> \<lparr>b_pod = pod, b_created = [], b_waiting = []\<rparr>"
  have "b_created ?b = created_of (pruneBursts lim now bs) (pi_uid pod)"
    by (simp add: created_of_def split: option.splits)
  moreover have "snd (burstRefusal lim sd ?b flow now) = None"
    using assms(1) by (simp add: admit_burst_def Let_def split: prod.splits)
  ultimately show ?thesis using assms(2) by (simp add: burstRefusal_passes)
qed

lemma created_of_early_check [simp]:
  "created_of (fst (early_check lim uid now bs)) u = filter (in_window lim now) (created_of bs u)"
  by (simp add: early_check_def Let_def)

lemma created_of_early_refuse [simp]:
  "created_of (fst (early_refuse lim sd uid flow now later bs)) u = filter (in_window lim now) (created_of bs u)"
proof -
  obtain bs' ob where c: "early_check lim uid now bs = (bs', ob)" by fastforce
  then have created: "created_of bs' u = filter (in_window lim now) (created_of bs u)" for u
    using created_of_early_check[of lim uid now bs u] by simp
  show ?thesis
  proof (cases ob)
    case None
    then show ?thesis using c created by (simp add: early_refuse_def)
  next
    case (Some b)
    then have "bs' uid = Some b"
      using c by (auto simp: early_check_def full_burst_def Let_def split: option.splits if_splits)
    then have "b_created b = created_of bs' uid" by (simp add: created_of_def)
    then show ?thesis
      using c Some created burstRefusal_created[of lim sd b flow later]
      by (auto simp: early_refuse_def split: prod.splits)
  qed
qed

lemma remembered_pruned:
  assumes "window_ok lim" "remembered lim t log bs" "t \<le> now"
    and "\<And>u. created_of bs' u = filter (in_window lim now) (created_of bs u)"
  shows "remembered lim now log bs'"
  using assms filter_in_window[OF assms(1)] by (simp add: remembered_def)

lemma remembered_mono: "remembered lim t log bs \<Longrightarrow> t \<le> now \<Longrightarrow> remembered lim now log bs"
  by (simp add: remembered_def)

lemma remembered_note_created:
  assumes "remembered lim now log bs" "bs uid = Some b"
  shows "remembered lim now (log @ [(uid, t)]) (note_created bs uid t)"
proof -
  have "created_of bs uid = b_created b" using assms(2) by (simp add: created_of_def)
  then have "filter (in_window lim later) (b_created b) = filter (in_window lim later) (times_of uid log)" if "now \<le> later" for later
    using assms(1) that unfolding remembered_def by metis
  then show ?thesis using assms by (auto simp: remembered_def note_created_def)
qed

text \<open>A creation is within the burst when fewer than the burst are in the window that it ends.\<close>

lemma within_burst_snoc:
  assumes i64: "window_ok lim" and before: "within_burst lim log" and le: "now \<le> t"
    and room: "int (length (filter (in_window lim now) (times_of uid log))) < lim_burst lim"
  shows "within_burst lim (log @ [(uid, t)])"
proof -
  let ?W = "lim_burstWindow lim"
  have "int (length (filter (\<lambda>x. start \<le> x \<and> x < start + ?W) (times_of u (log @ [(uid, t)])))) \<le> lim_burst lim" for u start
  proof (cases "u = uid \<and> start \<le> t \<and> t < start + ?W")
    case True
    have "length (filter (\<lambda>x. start \<le> x \<and> x < start + ?W) xs) \<le> length (filter (in_window lim now) xs)" for xs
      using True le by (induction xs) (auto simp: in_window_iff[OF i64])
    from this[of "times_of uid log"] show ?thesis using True room by simp
  next
    case False
    then have "filter (\<lambda>x. start \<le> x \<and> x < start + ?W) (times_of u (log @ [(uid, t)])) =
        filter (\<lambda>x. start \<le> x \<and> x < start + ?W) (times_of u log)" by auto
    then show ?thesis using before by (simp add: within_burst_def)
  qed
  then show ?thesis by (simp add: within_burst_def)
qed

lemma serve_event_keeps:
  assumes i64: "window_ok lim" and pos: "0 < lim_burst lim"
    and mem: "remembered lim t log bs" and ok: "within_burst lim log"
    and clock: "t \<le> event_starts e" "event_starts e \<le> event_finishes e"
    and step: "serve_event lim sd e bs = (bs', made)"
  shows "remembered lim (event_finishes e) (log @ made) bs' \<and> within_burst lim (log @ made)"
proof (cases e)
  case (Ask q)
  obtain bs1 err where a: "admit_burst lim sd bs (rq_pod q) (rq_flow q) (rq_admitted q) = (bs1, err)" by fastforce
  have mem1: "remembered lim (rq_admitted q) log bs1"
    using remembered_pruned[OF i64 mem, of "rq_admitted q" bs1] clock Ask a
      created_of_admit_burst[of lim sd bs "rq_pod q" "rq_flow q" "rq_admitted q"] by simp
  show ?thesis
  proof (cases "err = None \<and> rq_accepted q")
    case True
    have room: "int (length (filter (in_window lim (rq_admitted q)) (times_of (pi_uid (rq_pod q)) log))) < lim_burst lim"
      using admit_burst_passes[of lim sd bs "rq_pod q" "rq_flow q" "rq_admitted q"] a True pos mem clock Ask
      by (simp add: remembered_def)
    obtain b where "bs1 (pi_uid (rq_pod q)) = Some b"
      using admit_burst_known[of lim sd bs "rq_pod q" "rq_flow q" "rq_admitted q"] a by auto
    from remembered_note_created[OF mem1 this] within_burst_snoc[OF i64 ok _ room]
    show ?thesis using True step a Ask clock by (auto simp: serve_request_def intro: remembered_mono)
  next
    case False
    then show ?thesis
      using step a Ask clock ok mem1 by (auto simp: serve_request_def split: option.splits if_splits intro: remembered_mono)
  qed
next
  case (Early_check uid now)
  then show ?thesis using remembered_pruned[OF i64 mem, of now bs'] clock ok step by auto
next
  case (Early_refuse uid flow now later)
  then show ?thesis using remembered_pruned[OF i64 mem, of now bs'] clock ok step by (auto intro: remembered_mono)
qed

lemma run_events_keeps:
  assumes "window_ok lim" "0 < lim_burst lim"
    and "remembered lim t log bs" "within_burst lim log" "clock_runs t es"
  shows "within_burst lim (log @ snd (run_events lim sd es bs))"
  using assms(3-)
proof (induction es arbitrary: t log bs)
  case (Cons e es)
  obtain bs' made where s: "serve_event lim sd e bs = (bs', made)" by fastforce
  from serve_event_keeps[OF assms(1,2) Cons.prems(1,2) _ _ s] Cons.prems(3)
  have "within_burst lim ((log @ made) @ snd (run_events lim sd es bs'))" by (intro Cons.IH) auto
  then show ?case using s by (simp add: case_prod_beta)
qed simp

subsection \<open>When a refused flow asks again\<close>

lemma waiting_index_less: "waiting_index flow ws = Some k \<Longrightarrow> k < length ws"
  by (induction ws arbitrary: k) (auto split: if_splits)

lemma sorted_window_count:
  assumes sorted: "sorted ts" and j: "j < length ts" and i64: "window_ok lim"
    and late: "ts ! j + lim_burstWindow lim \<le> due"
  shows "length (filter (in_window lim due) ts) + Suc j \<le> length ts"
proof -
  have "filter (in_window lim due) (take (Suc j) ts) = []"
  proof (rule filter_False, rule ballI)
    fix t assume "t \<in> set (take (Suc j) ts)"
    then obtain i where "i \<le> j" "t = ts ! i" by (auto simp: in_set_conv_nth less_Suc_eq_le)
    then have "t \<le> ts ! j" using sorted j by (simp add: sorted_iff_nth_mono)
    then show "\<not> in_window lim due t" using late by (simp add: in_window_iff[OF i64])
  qed
  then have "filter (in_window lim due) ts = filter (in_window lim due) (drop (Suc j) ts)"
    by (metis append_Nil append_take_drop_id filter_append)
  then have "length (filter (in_window lim due) ts) \<le> length (drop (Suc j) ts)" by (metis length_filter_le)
  then show ?thesis using j by simp
qed

text \<open>The history of every pod is in order, not ahead of the clock and no longer than the burst.\<close>

fun last_time :: "time \<Rightarrow> burst_event list \<Rightarrow> time" where
  "last_time t [] = t"
| "last_time t (e # es) = last_time (event_finishes e) es"

definition history_ok :: "Limits \<Rightarrow> time \<Rightarrow> bursts \<Rightarrow> bool" where
  "history_ok lim now bs \<longleftrightarrow>
     (\<forall>uid. sorted (created_of bs uid) \<and> (\<forall>t\<in>set (created_of bs uid). t \<le> now) \<and> int (length (created_of bs uid)) \<le> lim_burst lim)"

lemma history_ok_pruned:
  assumes "history_ok lim t bs" "t \<le> now" "\<And>u. created_of bs' u = filter (in_window lim t') (created_of bs u)"
  shows "history_ok lim now bs'"
proof -
  have "int (length (filter (in_window lim t') (created_of bs u))) \<le> lim_burst lim" for u
    by (rule order_trans[of _ "int (length (created_of bs u))"]) (use assms(1) in \<open>simp_all add: history_ok_def\<close>)
  then show ?thesis
    using assms(1,2) by (force simp: history_ok_def assms(3) sorted_wrt_filter)
qed

lemma history_ok_note:
  assumes ok: "history_ok lim t bs" and b: "bs uid = Some b" and room: "int (length (created_of bs uid)) < lim_burst lim" and le: "t \<le> now"
  shows "history_ok lim now (note_created bs uid now)"
proof -
  have "created_of bs uid = b_created b" using b by (simp add: created_of_def)
  then have "created_of (note_created bs uid now) u = (if u = uid then created_of bs uid @ [now] else created_of bs u)" for u
    using b by (simp add: note_created_def)
  then show ?thesis using ok room le by (fastforce simp: history_ok_def sorted_append)
qed

lemma history_ok_served:
  assumes pos: "0 < lim_burst lim" and ok: "history_ok lim t bs"
    and clock: "t \<le> event_starts e" "event_starts e \<le> event_finishes e"
  shows "history_ok lim (event_finishes e) (fst (serve_event lim sd e bs))"
proof (cases e)
  case (Ask q)
  obtain bs1 err where a: "admit_burst lim sd bs (rq_pod q) (rq_flow q) (rq_admitted q) = (bs1, err)" by fastforce
  have created: "created_of bs1 u = filter (in_window lim (rq_admitted q)) (created_of bs u)" for u
    using a created_of_admit_burst[of lim sd bs "rq_pod q" "rq_flow q" "rq_admitted q" u] by simp
  have ok1: "history_ok lim (rq_noted q) bs1" by (rule history_ok_pruned[OF ok _ created]) (use clock Ask in simp)
  show ?thesis
  proof (cases "err = None \<and> rq_accepted q")
    case True
    have room: "int (length (created_of bs1 (pi_uid (rq_pod q)))) < lim_burst lim"
      using admit_burst_passes[of lim sd bs "rq_pod q" "rq_flow q" "rq_admitted q"] a True pos created by simp
    obtain b where "bs1 (pi_uid (rq_pod q)) = Some b"
      using admit_burst_known[of lim sd bs "rq_pod q" "rq_flow q" "rq_admitted q"] a by auto
    from history_ok_note[OF ok1 this room] show ?thesis using True a Ask by (simp add: serve_request_def)
  next
    case False
    then show ?thesis using a Ask ok1 by (auto simp: serve_request_def split: option.splits)
  qed
next
  case (Early_check uid now)
  then show ?thesis
    using history_ok_pruned[OF ok _ created_of_early_check, of now] clock by simp
next
  case (Early_refuse uid flow now later)
  then show ?thesis
    using history_ok_pruned[OF ok _ created_of_early_refuse, of later] clock by simp
qed

lemma history_ok_run:
  assumes "0 < lim_burst lim"
  shows "history_ok lim t bs \<Longrightarrow> clock_runs t es \<Longrightarrow> history_ok lim (last_time t es) (fst (run_events lim sd es bs))"
proof (induction es arbitrary: t bs)
  case (Cons e es)
  from history_ok_served[OF assms Cons.prems(1), of e sd] Cons.prems(2) Cons.IH
  show ?case by (simp add: case_prod_beta)
qed simp

lemma retry_at_due:
  assumes ok: "window_ok lim" and n: "0 < n" "length ts = n" and sorted: "sorted ts"
    and inw: "\<And>t. t \<in> set ts \<Longrightarrow> t \<le> now \<and> in_window lim now t"
    and big: "int (Suc k) * lim_burstWindow lim \<le> 2 ^ 62"
    and due: "due = retry_at (lim_burstWindow lim) n ts k"
  shows "now < due \<and> due - now \<le> 2 ^ 62 \<and> length (filter (in_window lim due) ts) + k mod n < n"
proof -
  let ?W = "lim_burstWindow lim"
  let ?c = "ts ! (k mod n)"
  let ?m = "int (k div n + 1)"
  have W: "0 < ?W" using ok by (simp add: window_ok_def)
  have "int (k div n) \<le> int k" by simp
  then have m: "1 \<le> ?m" "?m \<le> int (Suc k)" by auto
  have "?m * ?W \<le> int (Suc k) * ?W" using m W by (intro mult_right_mono) auto
  then have hi: "?m * ?W \<le> 2 ^ 62" using big by simp
  have lo: "?W \<le> ?m * ?W" using mult_right_mono[OF m(1), of ?W] W by simp
  have c: "?c \<in> set ts" "k mod n < length ts" using n by auto
  have near: "?c \<le> now" "now - ?c < ?W" using inw[OF c(1)] by (auto simp: in_window_iff[OF ok])
  define x where "x = ?m * ?W"
  have "x \<le> 2 ^ 62" "0 < x" using hi lo W unfolding x_def by linarith+
  then have "in_i64 x" by simp
  then have "mul64 ?m ?W = ?m * ?W" using mul64_id[of ?m ?W] by (simp add: x_def)
  then have due': "due = ?c + ?m * ?W" using due n by (simp add: retry_at_def)
  have "length (filter (in_window lim due) ts) + Suc (k mod n) \<le> length ts"
    using sorted_window_count[OF sorted c(2) ok, of due] due' lo by simp
  moreover have "now < due" "due - now \<le> 2 ^ 62" using due' near lo hi by linarith+
  ultimately show ?thesis using n(2) by simp
qed

lemma waiting_index_append: "waiting_index flow ws = None \<Longrightarrow> waiting_index flow (ws @ [w]) = (if w_flow w = flow then Some (length ws) else None)"
  by (induction ws) (auto split: if_splits)

lemma waiting_index_update:
  "waiting_index flow ws = Some k \<Longrightarrow> waiting_index flow (ws[k := (ws ! k)\<lparr>w_at := t\<rparr>]) = Some k"
proof (induction ws arbitrary: k)
  case (Cons w ws)
  then show ?case by (cases k) (auto split: if_splits)
qed simp

text \<open>What a refusal leaves: the flow waits at position \<open>k\<close>, with the time it was told.\<close>

lemma burstRefusal_refuses:
  assumes r: "burstRefusal lim sd b flow now = (b', Some e)"
  obtains k where "waiting_index flow (b_waiting b') = Some k" "k < length (b_waiting b')"
    "le_retryAfter e = time_sub (retry_at (lim_burstWindow lim) (nat (lim_burst lim)) (b_created b) k) now"
    "w_at (b_waiting b' ! k) = retry_at (lim_burstWindow lim) (nat (lim_burst lim)) (b_created b) k"
proof (cases "waiting_index flow (b_waiting b)")
  case None
  let ?ws = "b_waiting b @ [\<lparr>w_flow = flow, w_at = 0\<rparr>]"
  have i: "waiting_index flow ?ws = Some (length (b_waiting b))" using waiting_index_append[OF None] by simp
  from None r waiting_index_update[OF i] that[of "length (b_waiting b)"] show ?thesis
    by (auto simp: burstRefusal_def Let_def split: if_splits)
next
  case (Some k)
  from Some r waiting_index_update[OF Some] waiting_index_less[OF Some] that[of k] show ?thesis
    by (auto simp: burstRefusal_def Let_def split: if_splits)
qed

lemma admit_burst_refuses:
  assumes "admit_burst lim sd bs pod flow now = (bs', Some e)" "bs' (pi_uid pod) = Some b'"
  obtains b where "burstRefusal lim sd b flow now = (b', Some e)" "b_created b = b_created b'"
    "b_created b' = filter (in_window lim now) (created_of bs (pi_uid pod))" "lim_burst lim \<le> int (length (b_created b))"
proof -
  let ?b = "case pruneBursts lim now bs (pi_uid pod) of Some b \<Rightarrow> b | None \<Rightarrow> \<lparr>b_pod = pod, b_created = [], b_waiting = []\<rparr>"
  obtain x y where r: "burstRefusal lim sd ?b flow now = (x, y)" by fastforce
  then have xy: "x = b'" "y = Some e" using assms by (auto simp: admit_burst_def Let_def)
  have "b_created b' = filter (in_window lim now) (created_of bs (pi_uid pod))"
    using created_of_admit_burst[of lim sd bs pod flow now "pi_uid pod"] assms by (simp add: created_of_def)
  then show ?thesis
    using that[of ?b] r xy burstRefusal_created[of lim sd ?b flow now] burstRefusal_passes[of lim sd ?b flow now] by auto
qed

lemma refusal_spec:
  assumes ok: "window_ok lim" "0 < lim_burst lim" and hist: "history_ok lim t bs" "t \<le> now"
    and a: "admit_burst lim sd bs pod flow now = (bs', Some e)" "bs' (pi_uid pod) = Some b"
    and few: "int (length (b_waiting b)) * lim_burstWindow lim \<le> 2 ^ 62"
  shows "0 < le_retryAfter e \<and>
    (\<exists>k. waiting_index flow (b_waiting b) = Some k \<and> w_at (b_waiting b ! k) = now + le_retryAfter e \<and>
       length (filter (in_window lim (now + le_retryAfter e)) (b_created b)) + k mod nat (lim_burst lim) < nat (lim_burst lim))"
proof -
  let ?n = "nat (lim_burst lim)"
  from a obtain b0 where r: "burstRefusal lim sd b0 flow now = (b, Some e)" "b_created b0 = b_created b"
    and c: "b_created b = filter (in_window lim now) (created_of bs (pi_uid pod))" "lim_burst lim \<le> int (length (b_created b))"
    using admit_burst_refuses[OF a] by metis
  obtain k where k: "waiting_index flow (b_waiting b) = Some k" "k < length (b_waiting b)"
    "le_retryAfter e = time_sub (retry_at (lim_burstWindow lim) ?n (b_created b0) k) now"
    "w_at (b_waiting b ! k) = retry_at (lim_burstWindow lim) ?n (b_created b0) k"
    by (rule burstRefusal_refuses[OF r(1)])
  from history_ok_pruned[OF hist created_of_pruneBursts]
  have h: "sorted (b_created b)" "\<And>x. x \<in> set (b_created b) \<Longrightarrow> x \<le> now \<and> in_window lim now x" "int (length (b_created b)) \<le> lim_burst lim"
    unfolding history_ok_def c(1) created_of_pruneBursts by (blast, fastforce, blast)
  then have len: "length (b_created b) = ?n" using c(2) by linarith
  have "int (Suc k) * lim_burstWindow lim \<le> int (length (b_waiting b)) * lim_burstWindow lim"
    using k(2) ok(1) by (intro mult_right_mono) (auto simp: window_ok_def)
  then have "int (Suc k) * lim_burstWindow lim \<le> 2 ^ 62" using few by linarith
  note due = retry_at_due[OF ok(1) _ len h(1,2) this refl, simplified]
  then have "le_retryAfter e = w_at (b_waiting b ! k) - now" using ok(2) k r(2) by (simp add: time_sub_id)
  then show ?thesis using due k ok(2) r(2) by auto
qed

subsection \<open>Properties\<close>

text \<open>
  No pod gets more mirrors created on demand within any burst window than its burst, in any order of requests of any
  pods, early refusals included. The history starts empty; the clock does not go back.
\<close>

theorem burst_limit_holds:
  assumes "window_ok lim" "0 < lim_burst lim" "clock_runs t es"
  shows "int (length (filter (\<lambda>at. start \<le> at \<and> at < start + lim_burstWindow lim)
           (times_of uid (snd (run_events lim show_duration es no_bursts))))) \<le> lim_burst lim"
proof -
  have "within_burst lim []" "remembered lim t [] no_bursts"
    using assms(2) by (simp_all add: within_burst_def remembered_def created_of_def no_bursts_def)
  from run_events_keeps[OF assms(1,2) this(2,1) assms(3), of show_duration] show ?thesis
    by (simp add: within_burst_def)
qed

text \<open>
  A flow that the burst limit refuses, after any run, is told a time that is ahead. It waits in the pod's list at
  the position \<open>k\<close>, with that time, and when the time has come the window of the pod has more than \<open>k\<close> places (modulo
  the burst) free of what was created until now, one for each flow that was refused before it as well.
\<close>

theorem refusal_names_a_free_place:
  assumes "window_ok lim" "0 < lim_burst lim" "clock_runs t es" "last_time t es \<le> now"
    and "admit_burst lim show_duration (fst (run_events lim show_duration es no_bursts)) pod flow now = (bs', Some e)"
    and "bs' (pi_uid pod) = Some b" "int (length (b_waiting b)) * lim_burstWindow lim \<le> 2 ^ 62"
  shows "0 < le_retryAfter e \<and>
    (\<exists>k. waiting_index flow (b_waiting b) = Some k \<and> w_at (b_waiting b ! k) = now + le_retryAfter e \<and>
       length (filter (in_window lim (now + le_retryAfter e)) (b_created b)) + k mod nat (lim_burst lim) < nat (lim_burst lim))"
proof -
  have "history_ok lim t no_bursts" using assms(2) by (simp add: history_ok_def created_of_def no_bursts_def)
  from refusal_spec[OF assms(1,2) history_ok_run[OF assms(2) this assms(3)] assms(4-)] show ?thesis .
qed

subsection \<open>Witnesses\<close>

definition example_limits :: Limits where
  "example_limits = \<lparr>lim_perPod = 0, lim_perNode = 0, lim_burst = 2, lim_burstWindow = 10\<rparr>"

definition example_pod_id :: pod_id where
  "example_pod_id = \<lparr>pi_namespace = ''studio'', pi_name = ''viewer'', pi_uid = ''u1''\<rparr>"

definition example_ask :: "string \<Rightarrow> time \<Rightarrow> burst_event" where
  "example_ask flow now = Ask \<lparr>rq_pod = example_pod_id, rq_flow = flow, rq_admitted = now, rq_noted = now + 1, rq_accepted = True\<rparr>"

definition example_run :: "burst_event list" where
  "example_run = [example_ask ''a'' 100, example_ask ''b'' 102, example_ask ''c'' 104, Early_check ''u1'' 105,
     Early_refuse ''u1'' ''d'' 105 106, example_ask ''c'' 111]"

lemmas example_run_simps =
  example_run_def example_ask_def example_pod_id_def example_limits_def no_bursts_def serve_request_def admit_burst_def
  burstRefusal_def pruneBursts_def prune_burst_def in_window_def time_sub_def maxInt64_def note_created_def retry_at_def
  mul64_def drop_index_def early_check_def early_refuse_def full_burst_def window_ok_def

lemma example_run_log: "snd (run_events example_limits (\<lambda>_. ''10s'') example_run no_bursts) = [(''u1'', 101), (''u1'', 103), (''u1'', 112)]"
  by (simp add: example_run_simps Let_def)

theorem burst_limit_holds_witness:
  "snd (run_events example_limits (\<lambda>_. ''10s'') example_run no_bursts) = [(''u1'', 101), (''u1'', 103), (''u1'', 112)] \<and>
   int (length (filter (\<lambda>at. 101 \<le> at \<and> at < 101 + lim_burstWindow example_limits)
     (times_of ''u1'' (snd (run_events example_limits (\<lambda>_. ''10s'') example_run no_bursts))))) \<le> lim_burst example_limits"
proof -
  have ok: "window_ok example_limits" "0 < lim_burst example_limits" "clock_runs 100 example_run"
    by (simp_all add: window_ok_def example_limits_def example_run_def example_ask_def)
  from burst_limit_holds[OF ok, of 101 "''u1''" "\<lambda>_. ''10s''"] example_run_log show ?thesis by blast
qed

definition example_full :: bursts where
  "example_full = fst (run_events example_limits (\<lambda>_. ''10s'') [example_ask ''a'' 100, example_ask ''b'' 102] no_bursts)"

lemma example_refused:
  obtains bs' b e where "admit_burst example_limits (\<lambda>_. ''10s'') example_full example_pod_id ''c'' 104 = (bs', Some e)"
    "bs' (pi_uid example_pod_id) = Some b" "le_retryAfter e = 7" "b_waiting b = [\<lparr>w_flow = ''c'', w_at = 111\<rparr>]"
    "b_created b = [101, 103]"
  by (simp add: example_run_simps example_full_def Let_def)

theorem refusal_names_a_free_place_witness:
  "\<exists>bs' b e. admit_burst example_limits (\<lambda>_. ''10s'') example_full example_pod_id ''c'' 104 = (bs', Some e) \<and>
     bs' (pi_uid example_pod_id) = Some b \<and> le_retryAfter e = 7 \<and> 0 < le_retryAfter e \<and>
     (\<exists>k. waiting_index ''c'' (b_waiting b) = Some k \<and> w_at (b_waiting b ! k) = 104 + le_retryAfter e \<and>
       length (filter (in_window example_limits (104 + le_retryAfter e)) (b_created b)) + k mod nat (lim_burst example_limits)
         < nat (lim_burst example_limits))"
proof -
  let ?es = "[example_ask ''a'' 100, example_ask ''b'' 102]"
  have ok: "window_ok example_limits" "0 < lim_burst example_limits" "clock_runs 100 ?es" "last_time 100 ?es \<le> 104"
    by (simp_all add: window_ok_def example_limits_def example_ask_def)
  obtain bs' b e where r: "admit_burst example_limits (\<lambda>_. ''10s'') example_full example_pod_id ''c'' 104 = (bs', Some e)"
    "bs' (pi_uid example_pod_id) = Some b" "le_retryAfter e = 7" "b_waiting b = [\<lparr>w_flow = ''c'', w_at = 111\<rparr>]"
    by (rule example_refused)
  have few: "int (length (b_waiting b)) * lim_burstWindow example_limits \<le> 2 ^ 62"
    using r(4) by (simp add: example_limits_def)
  from refusal_names_a_free_place[OF ok r(1)[unfolded example_full_def] r(2) few] r(1-3) show ?thesis by auto
qed

end
