(* ===== verification/Intent_Paths.thy ===== *)
theory Intent_Paths
  imports Mxl_Names "HOL-Library.Sublist"
begin

section \<open>Which flow a path names (agent/internal/intent/domains.go, dispatcher.go)\<close>

text \<open>
  A process on the node asks for a flow by the path it failed to open, so the path is input nobody vetted. Here are the
  functions that read a flow out of one, over \<^verbatim>\<open>filepath.Clean\<close> and \<^verbatim>\<open>filepath.Rel\<close> of Go's library as they
  work on Unix. A cleaned path is \<open>(rooted, elements)\<close>. Shown: a path names a flow of the primary domain exactly when,
  cleaned, it is the directory of that flow or below it, dots and repeated slashes notwithstanding; the reading does not
  depend on the order in which Go walks the map of domains; and a flow of the primary domain is read the same whether or
  not its domain is in that map.
\<close>

subsection \<open>Paths\<close>

fun split_slash :: "string \<Rightarrow> string list" where
  "split_slash [] = [[]]"
| "split_slash (c # cs) =
     (if c = CHR ''/'' then [] # split_slash cs
      else (case split_slash cs of [] \<Rightarrow> [[c]] | s # ss \<Rightarrow> (c # s) # ss))"

abbreviation slashes :: "string list \<Rightarrow> string" where
  "slashes \<equiv> join_with ''/''"

text \<open>The elements, last first, as \<^verbatim>\<open>Clean\<close> builds its output.\<close>

fun clean_elems :: "bool \<Rightarrow> string list \<Rightarrow> string list \<Rightarrow> string list" where
  "clean_elems rooted out [] = rev out"
| "clean_elems rooted out (s # ss) =
     (if s = '''' \<or> s = ''.'' then clean_elems rooted out ss
      else if s = ''..'' then
        (if out \<noteq> [] \<and> hd out \<noteq> ''..'' then clean_elems rooted (tl out) ss
         else if rooted then clean_elems rooted out ss
         else clean_elems rooted (s # out) ss)
      else clean_elems rooted (s # out) ss)"

definition is_rooted :: "string \<Rightarrow> bool" where
  "is_rooted p \<longleftrightarrow> p \<noteq> '''' \<and> hd p = CHR ''/''"

definition cleaned :: "string \<Rightarrow> string list" where
  "cleaned p = clean_elems (is_rooted p) [] (split_slash p)"

definition clean :: "string \<Rightarrow> string" where
  "clean p = (if is_rooted p then ''/'' @ slashes (cleaned p) else if cleaned p = [] then ''.'' else slashes (cleaned p))"

fun strip_common :: "string list \<Rightarrow> string list \<Rightarrow> string list \<times> string list" where
  "strip_common (b # bs) (t # ts) = (if b = t then strip_common bs ts else (b # bs, t # ts))"
| "strip_common bs ts = (bs, ts)"

text \<open>The arguments of \<^verbatim>\<open>Rel\<close> are clean already.\<close>

definition rel :: "string \<Rightarrow> string \<Rightarrow> string option" where
  "rel base targ =
     (if clean base = clean targ then Some ''.''
      else if is_rooted base \<noteq> is_rooted targ then None
      else case strip_common (cleaned base) (cleaned targ) of (bs, ts) \<Rightarrow>
        if bs \<noteq> [] \<and> hd bs = ''..'' then None
        else Some (slashes (replicate (length bs) ''..'' @ ts)))"

definition hasPrefix :: "string \<Rightarrow> string \<Rightarrow> bool" where
  "hasPrefix s p \<longleftrightarrow> take (length p) s = p"

text \<open>\<^verbatim>\<open>strings.CutSuffix\<close>, and \<^verbatim>\<open>HasSuffix\<close> with \<^verbatim>\<open>TrimSuffix\<close>.\<close>

definition cutSuffix :: "string \<Rightarrow> string \<Rightarrow> string option" where
  "cutSuffix s p =
     (if length p \<le> length s \<and> drop (length s - length p) s = p then Some (take (length s - length p) s) else None)"

definition flowDirSuffix :: string where
  "flowDirSuffix = ''.mxl-flow''"

subsection \<open>The primary domain\<close>

definition flowIDFromPath :: "string \<Rightarrow> string \<Rightarrow> string option" where
  "flowIDFromPath domain path =
     (case rel (clean domain) (clean path) of
        None \<Rightarrow> None
      | Some r \<Rightarrow>
          if hasPrefix r ''..'' then None
          else case cutSuffix (hd (split_slash r)) flowDirSuffix of
                 None \<Rightarrow> None
               | Some i \<Rightarrow> if i = '''' then None else Some i)"

subsection \<open>Every domain of the node\<close>

text \<open>\<open>byDir\<close> is the map from directory to domain in the order Go happens to walk it.\<close>

record Domains =
  doms_root :: string
  doms_primary :: string
  doms_byDir :: "(string \<times> string) list"

fun flow_in_dirs :: "string \<Rightarrow> string \<Rightarrow> (string \<times> string) list \<Rightarrow> FlowRef option" where
  "flow_in_dirs primary r [] = None"
| "flow_in_dirs primary r ((dir, name) # ds) =
     (case cutPrefix r (dir @ ''/'') of (rest, found) \<Rightarrow>
        if \<not> found then flow_in_dirs primary r ds
        else case cutSuffix (hd (split_slash rest)) flowDirSuffix of
               None \<Rightarrow> None
             | Some i \<Rightarrow>
                 if i = '''' then None
                 else Some \<lparr>ref_domain = (if dir = primary then '''' else name), ref_id = i\<rparr>)"

definition flowRefFromPath :: "Domains \<Rightarrow> string \<Rightarrow> FlowRef option" where
  "flowRefFromPath d path =
     (case rel (clean (doms_root d)) (clean path) of
        None \<Rightarrow> None
      | Some r \<Rightarrow> if r = ''.'' \<or> hasPrefix r ''..'' then None else flow_in_dirs (doms_primary d) r (doms_byDir d))"

text \<open>\<^verbatim>\<open>filepath.Dir\<close> and \<^verbatim>\<open>filepath.Base\<close>; a trailing slash is dropped by \<^verbatim>\<open>Base\<close> alone.\<close>

definition path_dir :: "string \<Rightarrow> string" where
  "path_dir p = clean (slashes (butlast (split_slash p)) @ (if length (split_slash p) > 1 then ''/'' else ''''))"

fun drop_slashes :: "string \<Rightarrow> string" where
  "drop_slashes [] = []"
| "drop_slashes (c # cs) = (if c = CHR ''/'' then drop_slashes cs else c # cs)"

definition path_base :: "string \<Rightarrow> string" where
  "path_base p =
     (if p = '''' then ''.''
      else let q = rev (drop_slashes (rev p)) in if q = '''' then ''/'' else last (split_slash q))"

definition domainsDir :: string where
  "domainsDir = ''domains''"

definition mirrored :: "string \<Rightarrow> (string \<times> string) list \<Rightarrow> (string \<times> string) list" where
  "mirrored primary materialised = filter (\<lambda>(name, dir). dir = primary \<or> path_dir dir = domainsDir) materialised"

text \<open>The flow a path names, to the dispatcher: \<open>None\<close> is a dispatcher without the map.\<close>

definition flowRef :: "Domains option \<Rightarrow> string \<Rightarrow> string \<Rightarrow> FlowRef option" where
  "flowRef doms domainPath path =
     (case (case doms of None \<Rightarrow> None | Some d \<Rightarrow> flowRefFromPath d path) of
        Some ref \<Rightarrow> Some ref
      | None \<Rightarrow> map_option (\<lambda>i. \<lparr>ref_domain = '''', ref_id = i\<rparr>) (flowIDFromPath domainPath path))"

subsection \<open>Splitting and joining\<close>

lemma split_slash_ne [simp]: "split_slash s \<noteq> []"
  by (induction s) (auto split: list.splits)

lemma split_slash_noslash: "t \<in> set (split_slash s) \<Longrightarrow> CHR ''/'' \<notin> set t"
  by (induction s arbitrary: t) (auto split: list.splits if_splits)

lemma slashes_Cons: "slashes (s # t # ts) = s @ ''/'' @ slashes (t # ts)"
  by (simp add: join_with_def)

lemma slashes_simps [simp]: "slashes [] = ''''" "slashes [s] = s"
  by (simp_all add: join_with_def)

lemma split_slash_append: "CHR ''/'' \<notin> set s \<Longrightarrow> split_slash (s @ CHR ''/'' # t) = s # split_slash t"
  by (induction s) auto

lemma split_slash_single: "CHR ''/'' \<notin> set s \<Longrightarrow> split_slash s = [s]"
  by (induction s) auto

lemma split_slashes:
  "ts \<noteq> [] \<Longrightarrow> \<forall>t \<in> set ts. CHR ''/'' \<notin> set t \<Longrightarrow> split_slash (slashes ts) = ts"
proof (induction ts)
  case (Cons t ts)
  then show ?case by (cases ts) (auto simp: slashes_Cons split_slash_append split_slash_single)
qed simp

subsection \<open>Clean paths from the root\<close>

definition plain_elem :: "string \<Rightarrow> bool" where
  "plain_elem s \<longleftrightarrow> s \<noteq> '''' \<and> s \<noteq> ''.'' \<and> s \<noteq> ''..'' \<and> CHR ''/'' \<notin> set s"

lemma clean_elems_plain:
  "list_all plain_elem out \<Longrightarrow> \<forall>s \<in> set ss. CHR ''/'' \<notin> set s \<Longrightarrow> list_all plain_elem (clean_elems True out ss)"
proof (induction ss arbitrary: out)
  case (Cons s ss)
  then show ?case by (cases out) (auto simp: plain_elem_def)
qed simp

lemma cleaned_plain: "is_rooted p \<Longrightarrow> list_all plain_elem (cleaned p)"
  using clean_elems_plain[of "[]" "split_slash p"] split_slash_noslash by (simp add: cleaned_def)

lemma clean_elems_id: "list_all plain_elem ss \<Longrightarrow> clean_elems True out ss = rev out @ ss"
  by (induction ss arbitrary: out) (auto simp: plain_elem_def)

lemma cleaned_slash: "list_all plain_elem es \<Longrightarrow> cleaned (''/'' @ slashes es) = es"
proof (cases es)
  case (Cons e rest)
  assume plain: "list_all plain_elem es"
  then have "split_slash (slashes es) = es"
    by (intro split_slashes) (auto simp: Cons plain_elem_def list_all_iff)
  then show ?thesis using clean_elems_id[OF plain, of "[]"] by (simp add: cleaned_def is_rooted_def)
qed (simp add: cleaned_def is_rooted_def)

definition path_elem :: "string \<Rightarrow> bool" where
  "path_elem s \<longleftrightarrow> s \<noteq> '''' \<and> CHR ''/'' \<notin> set s"

lemma clean_elems_some:
  "list_all path_elem out \<Longrightarrow> \<forall>s \<in> set ss. CHR ''/'' \<notin> set s \<Longrightarrow> list_all path_elem (clean_elems rooted out ss)"
proof (induction ss arbitrary: out)
  case (Cons s ss)
  have s: "s \<noteq> '''' \<Longrightarrow> path_elem s" using Cons.prems(2) by (simp add: path_elem_def)
  have rest: "list_all path_elem out' \<Longrightarrow> list_all path_elem (clean_elems rooted out' ss)" for out'
    using Cons.IH[of out'] Cons.prems(2) by simp
  have "list_all path_elem (tl out)" using Cons.prems(1) by (cases out) auto
  moreover have "\<exists>out' \<in> {out, tl out} \<union> (if s = '''' then {} else {s # out}). clean_elems rooted out (s # ss) = clean_elems rooted out' ss"
    by simp
  ultimately show ?case using s Cons.prems(1) rest by (auto split: if_splits)
qed simp

lemma clean_rooted [simp]: "is_rooted (clean p) = is_rooted p"
proof (cases "is_rooted p")
  case False
  have some: "list_all path_elem (cleaned p)"
    using clean_elems_some[of "[]" "split_slash p"] split_slash_noslash[of _ p] by (simp add: cleaned_def)
  show ?thesis
  proof (cases "cleaned p")
    case (Cons e es)
    then have e: "e \<noteq> ''''" "CHR ''/'' \<notin> set e" using some by (simp_all add: path_elem_def)
    have "hd e \<noteq> CHR ''/''" using e hd_in_set[of e] by metis
    then have "\<not> is_rooted (slashes (e # es))" using e(1) by (simp add: is_rooted_def join_with_def)
    moreover have "clean p = slashes (e # es)" using False Cons by (simp add: clean_def)
    ultimately show ?thesis using False by simp
  qed (use False in \<open>simp add: clean_def is_rooted_def\<close>)
qed (simp add: clean_def is_rooted_def)

lemma cleaned_clean [simp]: "is_rooted p \<Longrightarrow> cleaned (clean p) = cleaned p"
  using cleaned_slash[OF cleaned_plain, of p] by (simp add: clean_def)

lemma clean_clean [simp]: "is_rooted p \<Longrightarrow> clean (clean p) = clean p"
  by (metis clean_def clean_rooted cleaned_clean)

lemma clean_eq_iff:
  assumes "is_rooted p" "is_rooted q"
  shows "clean p = clean q \<longleftrightarrow> cleaned p = cleaned q"
  using assms cleaned_clean by (metis clean_def)

subsection \<open>What is below a directory\<close>

lemma strip_common_append [simp]: "strip_common bs (bs @ ts) = ([], ts)"
  by (induction bs) auto

lemma strip_common_Nil: "strip_common bs ts = ([], us) \<Longrightarrow> ts = bs @ us"
  by (induction bs ts rule: strip_common.induct) (auto split: if_splits)

lemma hasPrefix_slashes:
  "CHR ''/'' \<notin> set s \<Longrightarrow> hasPrefix (slashes (s # ss)) ''..'' \<longleftrightarrow> hasPrefix s ''..''"
  by (cases s; cases "tl s"; cases ss) (auto simp: hasPrefix_def join_with_def)

text \<open>A relative path that does not go up is the elements below the base.\<close>

lemma rel_below:
  assumes "is_rooted b" "rel (clean b) (clean p) = Some r" "\<not> hasPrefix r ''..''" "r \<noteq> ''.''"
  obtains es where "es \<noteq> []" "r = slashes es" "is_rooted p" "cleaned p = cleaned b @ es" "list_all plain_elem es"
proof -
  have rooted: "is_rooted p" and ne: "clean b \<noteq> clean p"
    using assms by (auto simp: rel_def split: if_splits prod.splits)
  obtain bs ts where bt: "strip_common (cleaned b) (cleaned p) = (bs, ts)" by fastforce
  have r: "r = slashes (replicate (length bs) ''..'' @ ts)"
    using assms(1,2) rooted ne bt by (auto simp: rel_def split: if_splits)
  have "bs = []"
  proof (rule ccontr)
    assume "bs \<noteq> []"
    then obtain c cs where "bs = c # cs" by (cases bs) auto
    then show False using assms(3) r hasPrefix_slashes[of "''..''" "replicate (length cs) ''..'' @ ts"] by (simp add: hasPrefix_def)
  qed
  then have cp: "cleaned p = cleaned b @ ts" using strip_common_Nil bt(1) by simp
  moreover have "ts \<noteq> []" using ne cp clean_eq_iff[OF assms(1) rooted] by auto
  ultimately show thesis using that r \<open>bs = []\<close> rooted cleaned_plain[OF rooted] by simp
qed

lemma rel_of_below:
  assumes "is_rooted b" "is_rooted p" "cleaned p = cleaned b @ es" "es \<noteq> []"
  shows "rel (clean b) (clean p) = Some (slashes es)"
  using assms clean_eq_iff[OF assms(1,2)] by (simp add: rel_def)

subsection \<open>The reading of a path\<close>

lemma cutSuffix_iff: "cutSuffix s p = Some i \<longleftrightarrow> s = i @ p"
proof
  assume "cutSuffix s p = Some i"
  then show "s = i @ p" by (auto simp: cutSuffix_def split: if_splits) (metis append_take_drop_id)
qed (simp add: cutSuffix_def)

lemma flow_dir_ne_dots: "i @ flowDirSuffix \<noteq> ''.''" "i @ flowDirSuffix \<noteq> ''''" "i @ flowDirSuffix \<noteq> ''..''"
proof -
  have len: "i @ flowDirSuffix = x \<Longrightarrow> 2 < length x" for x by (auto simp: flowDirSuffix_def)
  show "i @ flowDirSuffix \<noteq> ''.''" "i @ flowDirSuffix \<noteq> ''''" "i @ flowDirSuffix \<noteq> ''..''"
    using len[of "''.''"] len[of "''''"] len[of "''..''"] by auto
qed

lemma hd_split_slashes: "list_all plain_elem (e # es) \<Longrightarrow> hd (split_slash (slashes (e # es))) = e"
  using split_slashes[of "e # es"] by (auto simp: plain_elem_def list_all_iff)

lemma flowIDFromPath_iff:
  assumes "is_rooted domain"
  shows "flowIDFromPath domain path = Some i \<longleftrightarrow>
     is_rooted path \<and> i \<noteq> '''' \<and> \<not> hasPrefix (i @ flowDirSuffix) ''..'' \<and>
     (\<exists>rest. cleaned path = cleaned domain @ (i @ flowDirSuffix) # rest)" (is "?l \<longleftrightarrow> ?r")
proof
  assume ?l
  then obtain r where r: "rel (clean domain) (clean path) = Some r" "\<not> hasPrefix r ''..''"
    "hd (split_slash r) = i @ flowDirSuffix" "i \<noteq> ''''"
    by (auto simp: flowIDFromPath_def cutSuffix_iff split: option.splits if_splits)
  have "r \<noteq> ''.''"
  proof
    assume "r = ''.''"
    then show False using r(3) flow_dir_ne_dots(1)[of i] by simp
  qed
  from rel_below[OF assms r(1,2) this] obtain es where es: "es \<noteq> []" "r = slashes es" "is_rooted path"
    "cleaned path = cleaned domain @ es" "list_all plain_elem es" by blast
  then obtain e rest where e: "es = e # rest" by (cases es) auto
  then have "e = i @ flowDirSuffix" using hd_split_slashes es r(3) by simp
  moreover have "CHR ''/'' \<notin> set e" using es e by (simp add: plain_elem_def)
  then have "\<not> hasPrefix e ''..''" using r(2) es(2) e hasPrefix_slashes by simp
  ultimately show ?r using r es e by auto
next
  assume ?r
  then obtain rest where p: "is_rooted path" "i \<noteq> ''''" "\<not> hasPrefix (i @ flowDirSuffix) ''..''"
    "cleaned path = cleaned domain @ (i @ flowDirSuffix) # rest" by blast
  have plain: "list_all plain_elem ((i @ flowDirSuffix) # rest)" using cleaned_plain[OF p(1)] p(4) by simp
  then show ?l
    using rel_of_below[OF assms p(1,4)] p(2,3) hasPrefix_slashes[of "i @ flowDirSuffix" rest] hd_split_slashes[OF plain] plain
      cutSuffix_iff[of "i @ flowDirSuffix" flowDirSuffix i]
    by (auto simp: flowIDFromPath_def plain_elem_def simp del: append_eq_conv_conj)
qed

text \<open>The directories the API admits for a domain: one element that is not \<^verbatim>\<open>domains\<close>, or \<^verbatim>\<open>domains/\<close> with the id,
  which has no dot.\<close>

definition admitted_dir :: "string \<Rightarrow> bool" where
  "admitted_dir dir \<longleftrightarrow>
     CHR ''/'' \<notin> set dir \<and> dir \<noteq> '''' \<and> dir \<noteq> domainsDir \<or>
     (\<exists>i. dir = domainsDir @ ''/'' @ i \<and> CHR ''/'' \<notin> set i \<and> CHR ''.'' \<notin> set i \<and> i \<noteq> '''')"

definition dir_of :: "string \<Rightarrow> string \<times> string \<Rightarrow> bool" where
  "dir_of r d \<longleftrightarrow> prefix (fst d @ ''/'') r"

lemma dir_of_iff: "dir_of r d \<longleftrightarrow> take (length (fst d @ ''/'')) r = fst d @ ''/''"
  unfolding dir_of_def prefix_def by (metis append_eq_conv_conj)

text \<open>Two admitted directories cannot both hold a path.\<close>

lemma admitted_dirs_disjoint:
  assumes "admitted_dir d" "admitted_dir e" "prefix (d @ ''/'') r" "prefix (e @ ''/'') r"
  shows "d = e"
proof -
  have cut: "a = b \<and> u = v" if "a @ CHR ''/'' # u = b @ CHR ''/'' # v" "CHR ''/'' \<notin> set a" "CHR ''/'' \<notin> set b" for a b u v :: string
    using cut_at[OF that(2,3), of u v] that(1) by blast
  obtain u v where uv: "d @ CHR ''/'' # u = e @ CHR ''/'' # v" using assms(3,4) by (auto simp: prefix_def)
  have dom: "CHR ''/'' \<notin> set domainsDir" by (simp add: domainsDir_def)
  from assms(1) consider (one) "CHR ''/'' \<notin> set d" "d \<noteq> domainsDir"
    | (two) i where "d = domainsDir @ ''/'' @ i" "CHR ''/'' \<notin> set i" by (auto simp: admitted_dir_def)
  then show ?thesis
  proof cases
    case one
    from assms(2) consider "CHR ''/'' \<notin> set e" | j where "e = domainsDir @ ''/'' @ j" by (auto simp: admitted_dir_def)
    then show ?thesis using one uv cut[of d u e v] cut[of d u domainsDir] dom by cases auto
  next
    case (two i)
    from assms(2) consider "CHR ''/'' \<notin> set e" "e \<noteq> domainsDir" | j where "e = domainsDir @ ''/'' @ j" "CHR ''/'' \<notin> set j"
      by (auto simp: admitted_dir_def)
    then show ?thesis
    proof cases
      case 1
      then show ?thesis using two uv cut[of domainsDir "i @ CHR ''/'' # u" e v] dom by auto
    next
      case (2 j)
      then have "i @ CHR ''/'' # u = j @ CHR ''/'' # v" using two uv by simp
      then show ?thesis using cut[of i u j v] two 2 by simp
    qed
  qed
qed

text \<open>The answer of the walk is that of the one directory that holds the path.\<close>

definition dir_answer :: "string \<Rightarrow> string \<Rightarrow> string \<times> string \<Rightarrow> FlowRef option" where
  "dir_answer primary r d =
     (case cutSuffix (hd (split_slash (drop (length (fst d @ ''/'')) r))) flowDirSuffix of
        None \<Rightarrow> None
      | Some i \<Rightarrow> if i = '''' then None else Some \<lparr>ref_domain = (if fst d = primary then '''' else snd d), ref_id = i\<rparr>)"

lemma flow_in_dirs_step:
  "flow_in_dirs primary r (d # ds) = (if dir_of r d then dir_answer primary r d else flow_in_dirs primary r ds)"
  by (cases d) (simp add: dir_answer_def cutPrefix_def dir_of_iff split: option.splits)

lemma flow_in_dirs_find:
  "flow_in_dirs primary r ds = (case find_first (dir_of r) ds of None \<Rightarrow> None | Some d \<Rightarrow> dir_answer primary r d)"
  by (induction ds) (auto simp del: flow_in_dirs.simps(2) simp: flow_in_dirs_step)

lemma find_first_unique:
  assumes uniq: "\<And>x y. x \<in> set xs \<Longrightarrow> y \<in> set xs \<Longrightarrow> P x \<Longrightarrow> P y \<Longrightarrow> x = y" and same: "set ys = set xs"
  shows "find_first P ys = find_first P xs"
proof (cases "find_first P xs")
  case None
  then have "find_first P ys = None" using same by (simp add: find_first_None_iff)
  then show ?thesis using None by simp
next
  case (Some x)
  then have x: "x \<in> set xs" "P x" using find_first_SomeD by fast+
  then have "find_first P ys \<noteq> None" using same by (auto simp: find_first_None_iff)
  then obtain y where y: "find_first P ys = Some y" by blast
  then have "y \<in> set xs" "P y" using find_first_SomeD same by fast+
  then show ?thesis using uniq[OF x(1) _ x(2)] Some y by simp
qed

lemma flow_in_dirs_order:
  assumes "distinct (map fst ds)" "\<And>d. d \<in> set ds \<Longrightarrow> admitted_dir (fst d)" "set ds' = set ds"
  shows "flow_in_dirs primary r ds' = flow_in_dirs primary r ds"
proof -
  have "x = y" if "x \<in> set ds" "y \<in> set ds" "dir_of r x" "dir_of r y" for x y
  proof -
    have "fst x = fst y" using admitted_dirs_disjoint[of "fst x" "fst y" r] assms(2) that by (simp add: dir_of_def)
    then show ?thesis using assms(1) that(1,2) by (simp add: distinct_map inj_on_def)
  qed
  then have "find_first (dir_of r) ds' = find_first (dir_of r) ds" using assms(3) by (rule find_first_unique)
  then show ?thesis by (simp add: flow_in_dirs_find)
qed

subsection \<open>The primary domain's directory\<close>

lemma split_slash_snoc: "split_slash (s @ ''/'') = split_slash s @ ['''']"
  by (induction s) (auto split: list.splits)

lemma slashes_root: "''/'' @ slashes es = (if es = [] then ''/'' else slashes ('''' # es))"
  by (cases es) (auto simp: join_with_def)

lemma split_clean:
  assumes "is_rooted p" "cleaned p \<noteq> []"
  shows "split_slash (clean p) = '''' # cleaned p"
proof -
  have "clean p = slashes ('''' # cleaned p)" using assms slashes_root[of "cleaned p"] by (simp add: clean_def)
  moreover have "\<forall>t \<in> set ('''' # cleaned p). CHR ''/'' \<notin> set t"
    using cleaned_plain[OF assms(1)] by (auto simp: list_all_iff plain_elem_def)
  ultimately show ?thesis using split_slashes[of "'''' # cleaned p"] by simp
qed

lemma clean_elems_trail: "list_all plain_elem ss \<Longrightarrow> clean_elems True out (ss @ ['''']) = rev out @ ss"
  by (induction ss arbitrary: out) (auto simp: plain_elem_def)

lemma path_dir_clean:
  assumes "is_rooted p" "cleaned p \<noteq> []"
  shows "is_rooted (path_dir (clean p)) \<and> cleaned (path_dir (clean p)) = butlast (cleaned p)"
proof -
  let ?bs = "butlast (cleaned p)"
  let ?d = "slashes ('''' # ?bs) @ ''/''"
  have plain: "list_all plain_elem ?bs" using cleaned_plain[OF assms(1)] by (auto simp: list_all_iff dest: in_set_butlastD)
  have d: "path_dir (clean p) = clean ?d" using assms by (simp add: path_dir_def split_clean)
  have rooted: "is_rooted ?d" by (cases ?bs) (auto simp: is_rooted_def join_with_def)
  have "split_slash ?d = ('''' # ?bs) @ ['''']"
    using split_slash_snoc split_slashes[of "'''' # ?bs"] plain by (simp add: list_all_iff plain_elem_def)
  then have "cleaned ?d = ?bs" using rooted clean_elems_trail[OF plain, of "[]"] by (simp add: cleaned_def)
  then show ?thesis using d rooted by simp
qed

lemma last_slashes: "es \<noteq> [] \<Longrightarrow> last es \<noteq> '''' \<Longrightarrow> slashes es \<noteq> '''' \<and> last (slashes es) = last (last es)"
proof (induction es)
  case (Cons e es)
  then show ?case by (cases es) (auto simp: slashes_Cons)
qed simp

lemma path_base_clean:
  assumes "is_rooted p" "cleaned p \<noteq> []"
  shows "path_base (clean p) = last (cleaned p)"
proof -
  let ?es = "'''' # cleaned p"
  have c: "clean p = slashes ?es" using assms slashes_root[of "cleaned p"] by (simp add: clean_def)
  have "plain_elem (last (cleaned p))" using cleaned_plain[OF assms(1)] assms(2) by (simp add: list_all_iff)
  then have l: "last ?es \<noteq> ''''" "CHR ''/'' \<notin> set (last ?es)" using assms(2) by (auto simp: plain_elem_def)
  then have "clean p \<noteq> ''''" "last (clean p) = last (last ?es)" using last_slashes[of ?es] c by auto
  moreover have "last (last ?es) \<noteq> CHR ''/''" using l last_in_set[of "last ?es"] by metis
  ultimately have "rev (drop_slashes (rev (clean p))) = clean p"
    by (cases "clean p" rule: rev_cases) auto
  then show ?thesis using split_clean[OF assms] assms(2) \<open>clean p \<noteq> ''''\<close> by (simp add: path_base_def)
qed

text \<open>What the agent sets up: the runtime root and the primary directory are those of the domain path.\<close>

definition node_domains :: "string \<Rightarrow> (string \<times> string) list \<Rightarrow> Domains" where
  "node_domains domainPath byDir =
     \<lparr>doms_root = path_dir (clean domainPath), doms_primary = path_base (clean domainPath), doms_byDir = byDir\<rparr>"

lemma suffix_has_dot: "CHR ''.'' \<in> set (i @ flowDirSuffix)"
  by (simp add: flowDirSuffix_def)

lemma primary_dir_answer:
  assumes adm: "admitted_dir (fst d)" and plain: "list_all plain_elem (primary # (i @ flowDirSuffix) # rest)"
    and holds: "dir_of (slashes (primary # (i @ flowDirSuffix) # rest)) d" and i: "i \<noteq> ''''"
  shows "dir_answer primary (slashes (primary # (i @ flowDirSuffix) # rest)) d = Some \<lparr>ref_domain = '''', ref_id = i\<rparr>"
proof -
  let ?s = "i @ flowDirSuffix"
  have np: "CHR ''/'' \<notin> set primary" "CHR ''/'' \<notin> set ?s" using plain by (simp_all add: plain_elem_def)
  have eq: "slashes (primary # ?s # rest) = primary @ CHR ''/'' # slashes (?s # rest)" by (simp add: slashes_Cons)
  then obtain u where u: "primary @ CHR ''/'' # slashes (?s # rest) = fst d @ CHR ''/'' # u"
    using holds by (auto simp: dir_of_def prefix_def)
  have "fst d = primary"
  proof (cases "CHR ''/'' \<in> set (fst d)")
    case False
    then show ?thesis using cut_at[OF np(1) False] u by metis
  next
    case True
    then obtain j where j: "fst d = domainsDir @ ''/'' @ j" "CHR ''/'' \<notin> set j" "CHR ''.'' \<notin> set j"
      using adm by (auto simp: admitted_dir_def)
    have "CHR ''/'' \<notin> set domainsDir" by (simp add: domainsDir_def)
    then have "slashes (?s # rest) = j @ CHR ''/'' # u" using cut_at[OF np(1)] u j(1) by (metis append_Cons append_Nil append_assoc)
    then have "hd (split_slash (slashes (?s # rest))) = j" using split_slash_append[OF j(2)] by simp
    then have "?s = j" using hd_split_slashes[of ?s rest] plain by simp
    then show ?thesis using suffix_has_dot[of i] j(3) by simp
  qed
  moreover have "drop (length (primary @ ''/'')) (slashes (primary # ?s # rest)) = slashes (?s # rest)" using eq by simp
  moreover have "hd (split_slash (slashes (?s # rest))) = ?s" using hd_split_slashes[of ?s rest] plain by simp
  moreover have "cutSuffix ?s flowDirSuffix = Some i" by (simp add: cutSuffix_iff)
  ultimately show ?thesis using i by (simp add: dir_answer_def)
qed

lemma flowRef_primary_spec:
  assumes dp: "is_rooted domainPath" "cleaned domainPath \<noteq> []" and adm: "\<And>d. d \<in> set byDir \<Longrightarrow> admitted_dir (fst d)"
    and i: "flowIDFromPath domainPath path = Some i"
  shows "flowRef (Some (node_domains domainPath byDir)) domainPath path = Some \<lparr>ref_domain = '''', ref_id = i\<rparr>"
proof -
  let ?D = "node_domains domainPath byDir" and ?p = "last (cleaned domainPath)" and ?s = "i @ flowDirSuffix"
  obtain rest where p: "is_rooted path" "i \<noteq> ''''" "cleaned path = cleaned domainPath @ ?s # rest"
    using i flowIDFromPath_iff[OF dp(1)] by blast
  then have "cleaned path = butlast (cleaned domainPath) @ (?p # ?s # rest)" using dp(2) by simp
  then have r: "rel (clean (doms_root ?D)) (clean path) = Some (slashes (?p # ?s # rest))"
    using rel_of_below[of "doms_root ?D" path "?p # ?s # rest"] path_dir_clean[OF dp] p(1) by (simp add: node_domains_def)
  have plain: "list_all plain_elem (?p # ?s # rest)"
    using cleaned_plain[OF p(1)] p(3) cleaned_plain[OF dp(1)] dp(2) by (simp add: list_all_iff)
  let ?r = "slashes (?p # ?s # rest)"
  have "case find_first (dir_of ?r) byDir of None \<Rightarrow> True
      | Some d \<Rightarrow> dir_answer ?p ?r d = Some \<lparr>ref_domain = '''', ref_id = i\<rparr>"
    using find_first_SomeD[of "dir_of ?r" byDir] primary_dir_answer[OF adm plain _ p(2)]
    by (cases "find_first (dir_of ?r) byDir") auto
  then have "flow_in_dirs ?p ?r byDir \<in> {None, Some \<lparr>ref_domain = '''', ref_id = i\<rparr>}"
    by (auto simp: flow_in_dirs_find split: option.splits)
  moreover have "doms_primary ?D = ?p" "doms_byDir ?D = byDir" using path_base_clean[OF dp] by (simp_all add: node_domains_def)
  ultimately have "flowRefFromPath ?D path \<in> {None, Some \<lparr>ref_domain = '''', ref_id = i\<rparr>}"
    using r by (simp add: flowRefFromPath_def)
  then show ?thesis using i by (auto simp: flowRef_def)
qed

subsection \<open>Properties\<close>

text \<open>
  \<open>FlowIDFromPath\<close> reads the flow \<open>i\<close> out of a path exactly when the path is absolute and, cleaned, is the directory
  \<^verbatim>\<open>i.mxl-flow\<close> of the domain or something below it: dots and doubled slashes neither hide a flow nor lead into another
  directory. An element that starts with two dots is refused.
\<close>

theorem flowIDFromPath_exact:
  assumes "is_rooted domain"
  shows "flowIDFromPath domain path = Some i \<longleftrightarrow>
     is_rooted path \<and> i \<noteq> '''' \<and> \<not> hasPrefix (i @ flowDirSuffix) ''..'' \<and>
     (\<exists>rest. cleaned path = cleaned domain @ (i @ flowDirSuffix) # rest)"
  using flowIDFromPath_iff[OF assms] .

theorem flowIDFromPath_exact_witness:
  "flowIDFromPath ''/run/mxl/domain'' ''/run//mxl/./domain/x/../a.mxl-flow/data'' = Some ''a'' \<and>
   flowIDFromPath ''/run/mxl/domain'' ''/run/mxl/domain/../other/a.mxl-flow'' = None"
proof -
  have r: "is_rooted ''/run/mxl/domain''" by (simp add: is_rooted_def)
  have "cleaned ''/run//mxl/./domain/x/../a.mxl-flow/data'' = cleaned ''/run/mxl/domain'' @ (''a'' @ flowDirSuffix) # [''data'']"
    "cleaned ''/run/mxl/domain/../other/a.mxl-flow'' = [''run'', ''mxl'', ''other'', ''a.mxl-flow'']"
    "cleaned ''/run/mxl/domain'' = [''run'', ''mxl'', ''domain'']"
    by (simp_all add: cleaned_def is_rooted_def flowDirSuffix_def)
  then show ?thesis
    using flowIDFromPath_exact[OF r, of "''/run//mxl/./domain/x/../a.mxl-flow/data''" "''a''"]
      flowIDFromPath_exact[OF r, of "''/run/mxl/domain/../other/a.mxl-flow''"]
    by (cases "flowIDFromPath ''/run/mxl/domain'' ''/run/mxl/domain/../other/a.mxl-flow''")
      (auto simp: is_rooted_def hasPrefix_def flowDirSuffix_def)
qed

text \<open>
  Go walks the map of domains in any order, and \<open>FlowRefFromPath\<close> gives the same flow for all of them, because the
  directories the API admits do not lie in one another.
\<close>

theorem flowRefFromPath_order_free:
  assumes "distinct (map fst byDir)" "\<forall>d \<in> set byDir. admitted_dir (fst d)" "set byDir' = set byDir"
  shows "flowRefFromPath \<lparr>doms_root = root, doms_primary = primary, doms_byDir = byDir'\<rparr> path =
         flowRefFromPath \<lparr>doms_root = root, doms_primary = primary, doms_byDir = byDir\<rparr> path"
  using flow_in_dirs_order[OF assms(1) _ assms(3)] assms(2) by (simp add: flowRefFromPath_def split: option.splits)

text \<open>
  A flow of the primary domain is read as that flow whatever the map of domains holds, and in particular before the
  domain naming the primary directory is materialised.
\<close>

theorem flowRef_primary:
  assumes "is_rooted domainPath" "cleaned domainPath \<noteq> []" "\<forall>d \<in> set byDir. admitted_dir (fst d)"
    and "flowIDFromPath domainPath path = Some i"
  shows "flowRef (Some (node_domains domainPath byDir)) domainPath path = Some \<lparr>ref_domain = '''', ref_id = i\<rparr>"
  using flowRef_primary_spec[OF assms(1,2) _ assms(4)] assms(3) by blast

subsection \<open>Witnesses\<close>

definition example_dirs :: "(string \<times> string) list" where
  "example_dirs = [(''domain'', ''studio''), (''domains/0f'', ''remote'')]"

lemma example_dirs_admitted: "\<forall>d \<in> set example_dirs. admitted_dir (fst d)"
  by (simp add: example_dirs_def admitted_dir_def domainsDir_def)

theorem flowRefFromPath_order_free_witness:
  "flowRefFromPath \<lparr>doms_root = ''/run/mxl'', doms_primary = ''domain'', doms_byDir = rev example_dirs\<rparr> ''/run/mxl/domains/0f/a.mxl-flow'' =
     Some \<lparr>ref_domain = ''remote'', ref_id = ''a''\<rparr>"
proof -
  have "flowRefFromPath \<lparr>doms_root = ''/run/mxl'', doms_primary = ''domain'', doms_byDir = rev example_dirs\<rparr> ''/run/mxl/domains/0f/a.mxl-flow'' =
    flowRefFromPath \<lparr>doms_root = ''/run/mxl'', doms_primary = ''domain'', doms_byDir = example_dirs\<rparr> ''/run/mxl/domains/0f/a.mxl-flow''"
    by (rule flowRefFromPath_order_free) (use example_dirs_admitted in \<open>simp_all add: example_dirs_def insert_commute\<close>)
  also have "\<dots> = Some \<lparr>ref_domain = ''remote'', ref_id = ''a''\<rparr>"
    by (simp add: flowRefFromPath_def rel_def clean_def cleaned_def is_rooted_def join_with_def example_dirs_def hasPrefix_def
        cutPrefix_def cutSuffix_def flowDirSuffix_def)
  finally show ?thesis .
qed

theorem flowRef_primary_witness:
  "flowRef (Some (node_domains ''/run/mxl/domain'' example_dirs)) ''/run/mxl/domain'' ''/run/mxl/domain/a.mxl-flow/x'' =
     Some \<lparr>ref_domain = '''', ref_id = ''a''\<rparr>"
  by (rule flowRef_primary[OF _ _ example_dirs_admitted])
    (simp_all add: is_rooted_def cleaned_def flowIDFromPath_def rel_def clean_def join_with_def hasPrefix_def
      cutSuffix_def flowDirSuffix_def)

end
