(* ===== verification/Intent_Dispatch.thy ===== *)
theory Intent_Dispatch
  imports Intent_Limits Intent_Paths Receiver
begin

section \<open>Mirrors on demand (agent/internal/intent/dispatcher.go)\<close>

text \<open>
  \<^verbatim>\<open>Dispatcher.Materialize\<close>: a process on the node failed to open a flow, and waits while the agent finds out where the
  flow is, makes a mirror of it for the process's pod, and sees it become ready. Many requests run at once. What they
  share, the burst history and the refusals logged, they touch in critical sections only, so a request is a function of
  the shared state that says, before each of its sections, which sections of other requests came in between
  (\<open>ie_between\<close>). What it reads of the API server, the file system and \<^verbatim>\<open>/proc\<close> is its environment, by the point at
  which it reads.
\<close>

definition LabelCreatedByIntent :: string where "LabelCreatedByIntent = ''mxl.qvest-digital.com/created-by-intent''"
definition LabelRequestorPodUID :: string where "LabelRequestorPodUID = ''mxl.qvest-digital.com/requestor-pod-uid''"
definition ReasonMirrorLimitReached :: string where "ReasonMirrorLimitReached = ''MirrorLimitReached''"
definition refusalLogWindow :: duration where "refusalLogWindow = 60 * second"
definition DomainDefFile :: string where "DomainDefFile = ''domain_def.json''"
definition PlaceholderMarkerDir :: string where "PlaceholderMarkerDir = ''.mxlfs-placeholders''"

subsection \<open>Requests\<close>

text \<open>The points at which a request reads, and at which it takes the clock.\<close>

datatype intent_stage = AtPath | AtEarly | AtMain | AtEnsure | AtExists

datatype clock_stage = ClockPath | ClockEarly | ClockFull | ClockBurst | ClockAdmit | ClockNoted | ClockLog

record intent_config =
  ic_node :: string
  ic_domainPath :: string
  ic_provider :: MxlFabricsProvider
  ic_limits :: Limits
  ic_flowChecker :: "(string \<Rightarrow> bool) option"
  ic_own :: "(Pod \<Rightarrow> bool) option"
  ic_origin :: bool

record intent_env =
  ie_domains :: "intent_stage \<Rightarrow> Domains option"
  ie_listed :: "intent_stage \<Rightarrow> string \<Rightarrow> string \<Rightarrow> bool"
  ie_stat :: "intent_stage \<Rightarrow> string \<Rightarrow> bool"
  ie_uid :: "(int \<Rightarrow> go_error + string) option"
  ie_pod :: "int \<Rightarrow> go_error + Pod"
  ie_flow :: "intent_stage \<Rightarrow> string \<Rightarrow> go_error + MxlFlow"
  ie_lease :: "intent_stage \<Rightarrow> LeaseFreshness option"
  ie_mirror :: "intent_stage \<Rightarrow> NamespacedName \<Rightarrow> go_error + MxlFlowMirror"
  ie_caps :: "string \<Rightarrow> go_error + MxlNodeCapabilities"
  ie_onDemand :: "string \<Rightarrow> go_error + MxlFlowMirror list"
  ie_create :: "MxlFlowMirror \<Rightarrow> go_error + MxlFlowMirror"
  ie_polls :: "NamespacedName \<Rightarrow> (go_error + MxlFlowMirror) list"
  ie_ctxErr :: go_error
  ie_claim :: "FlowRef \<Rightarrow> go_error + unit"
  ie_clock :: "clock_stage \<Rightarrow> time"
  ie_between :: "intent_stage \<Rightarrow> burst_event list"
  ie_quote :: "string \<Rightarrow> string"
  ie_duration :: "duration \<Rightarrow> string"

record intent_state =
  is_bursts :: bursts
  is_refusals :: "string \<Rightarrow> time option"

datatype intent_write =
    CreateIntentMirror MxlFlowMirror
  | LimitEvent pod_id string string
  | ClaimOriginOf FlowRef

text \<open>\<^verbatim>\<open>errors.As\<close> finds a \<^verbatim>\<open>LimitError\<close> through the wrapping.\<close>

datatype intent_error = Limited LimitError | Plain go_error | Within string intent_error

fun as_limit :: "intent_error \<Rightarrow> LimitError option" where
  "as_limit (Limited e) = Some e"
| "as_limit (Plain e) = None"
| "as_limit (Within s e) = as_limit e"

fun intent_text :: "intent_error \<Rightarrow> string" where
  "intent_text (Limited e) = le_msg e"
| "intent_text (Plain e) = error_text e"
| "intent_text (Within s e) = s @ '': '' @ intent_text e"

text \<open>A computation over the shared state: the writes it issues, the state it leaves, and its answer.\<close>

type_synonym 'a intent = "intent_state \<Rightarrow> intent_write list \<times> intent_state \<times> (intent_error + 'a)"

definition i_ret :: "'a \<Rightarrow> 'a intent" where "i_ret x = (\<lambda>s. ([], s, Inr x))"
definition i_fail :: "intent_error \<Rightarrow> 'a intent" where "i_fail e = (\<lambda>s. ([], s, Inl e))"

definition i_bind :: "'a intent \<Rightarrow> ('a \<Rightarrow> 'b intent) \<Rightarrow> 'b intent" where
  "i_bind m f = (\<lambda>s. case m s of (ws, s', r) \<Rightarrow>
     (case r of Inl e \<Rightarrow> (ws, s', Inl e) | Inr x \<Rightarrow> (case f x s' of (ws', s'', r') \<Rightarrow> (ws @ ws', s'', r'))))"

definition i_read :: "go_error + 'a \<Rightarrow> 'a intent" where
  "i_read r = (case r of Inl e \<Rightarrow> i_fail (Plain e) | Inr x \<Rightarrow> i_ret x)"

definition i_within :: "string \<Rightarrow> 'a intent \<Rightarrow> 'a intent" where
  "i_within s m = (\<lambda>st. case m st of (ws, st', r) \<Rightarrow> (ws, st', (case r of Inl e \<Rightarrow> Inl (Within s e) | Inr x \<Rightarrow> Inr x)))"

definition i_write :: "intent_write \<Rightarrow> unit intent" where "i_write w = (\<lambda>s. ([w], s, Inr ()))"

text \<open>A critical section on the burst history, after those of other requests.\<close>

definition on_bursts :: "intent_config \<Rightarrow> intent_env \<Rightarrow> intent_stage \<Rightarrow> (bursts \<Rightarrow> bursts \<times> 'a) \<Rightarrow> 'a intent" where
  "on_bursts cfg env at f = (\<lambda>s.
     case f (fst (run_events (ic_limits cfg) (ie_duration env) (ie_between env at) (is_bursts s))) of
       (bs, x) \<Rightarrow> ([], s\<lparr>is_bursts := bs\<rparr>, Inr x))"

definition still_locked :: "(bursts \<Rightarrow> bursts) \<Rightarrow> unit intent" where
  "still_locked f = (\<lambda>s. ([], s\<lparr>is_bursts := f (is_bursts s)\<rparr>, Inr ()))"

subsection \<open>Refusals\<close>

text \<open>\<^verbatim>\<open>strings.Index\<close>.\<close>

fun str_index :: "string \<Rightarrow> string \<Rightarrow> nat option" where
  "str_index sub [] = (if sub = [] then Some 0 else None)"
| "str_index sub (c # cs) =
     (if take (length sub) (c # cs) = sub then Some 0 else map_option Suc (str_index sub cs))"

definition refusal_key :: "string \<Rightarrow> string" where
  "refusal_key path = (case str_index ''.mxl-flow'' path of None \<Rightarrow> path | Some i \<Rightarrow> take i path)"

definition shouldLogRefusal :: "time \<Rightarrow> string \<Rightarrow> (string \<Rightarrow> time option) \<Rightarrow> (string \<Rightarrow> time option) \<times> bool" where
  "shouldLogRefusal now path refusals =
     (let kept = (\<lambda>k. case refusals k of
                    None \<Rightarrow> None
                  | Some at \<Rightarrow> if refusalLogWindow < time_sub now at then None else Some at);
          key = refusal_key path
      in if kept key \<noteq> None then (kept, False) else (kept(key \<mapsto> now), True))"

definition log_refusal :: "intent_env \<Rightarrow> clock_stage \<Rightarrow> string \<Rightarrow> bool intent" where
  "log_refusal env at path = (\<lambda>s.
     case shouldLogRefusal (ie_clock env at) path (is_refusals s) of (rs, b) \<Rightarrow> ([], s\<lparr>is_refusals := rs\<rparr>, Inr b))"

definition limit_message :: "intent_config \<Rightarrow> FlowRef \<Rightarrow> intent_error \<Rightarrow> string" where
  "limit_message cfg ref why =
     ''no mirror of flow '' @ flowref_name ref @ '' created onto '' @ ic_node cfg @ '': '' @ intent_text why @
     ''; a process waiting on the open gets ENOENT; for one that opened the flow's placeholder, a refusal by the burst limit is '' @
     ''asked for again while it runs, and one by a count of live mirrors is final''"

definition refuse :: "intent_config \<Rightarrow> intent_env \<Rightarrow> FlowRef \<Rightarrow> pod_id \<Rightarrow> intent_error \<Rightarrow> unit intent" where
  "refuse cfg env ref pod why =
     i_bind (log_refusal env ClockLog (''limit/'' @ pi_uid pod)) (\<lambda>logged.
     if logged then i_write (LimitEvent pod ReasonMirrorLimitReached (limit_message cfg ref why)) else i_ret ())"

text \<open>\<^verbatim>\<open>filepath.Join\<close>.\<close>

fun path_join :: "string list \<Rightarrow> string" where
  "path_join [] = ''''"
| "path_join (e # es) = (if e = '''' then path_join es else clean (slashes (e # es)))"

definition sibling_dir :: "intent_config \<Rightarrow> intent_env \<Rightarrow> string \<Rightarrow> string option" where
  "sibling_dir cfg env path =
     (let root = path_dir (clean (ic_domainPath cfg))
      in case rel root (clean path) of
           None \<Rightarrow> None
         | Some r \<Rightarrow>
             if hasPrefix r ''..'' then None
             else let dir = hd (split_slash r)
                  in if ie_stat env AtPath (path_join [root, dir, DomainDefFile]) \<and> dir \<noteq> path_base (clean (ic_domainPath cfg))
                     then Some dir else None)"

definition notMirrored :: "intent_config \<Rightarrow> intent_env \<Rightarrow> string \<Rightarrow> go_error" where
  "notMirrored cfg env path =
     (case sibling_dir cfg env path of
        Some dir \<Rightarrow> EOther (ie_quote env path @ '' is in MXL domain directory '' @ ie_quote env dir @
          '', which mxl-k8s materialises on this node but does not mirror; only flows under '' @ ic_domainPath cfg @
          '' are brought here from other nodes'')
      | None \<Rightarrow> EOther (ie_quote env path @ '' is not a flow path under '' @ ic_domainPath cfg @ '', the MXL domain mxl-k8s mirrors''))"

subsection \<open>What is here, and where the flow is\<close>

definition domainDir :: "intent_config \<Rightarrow> intent_env \<Rightarrow> intent_stage \<Rightarrow> FlowRef \<Rightarrow> string" where
  "domainDir cfg env at ref =
     (if ref_domain ref = '''' then ic_domainPath cfg
      else case ie_domains env at of
             None \<Rightarrow> ''''
           | Some doms \<Rightarrow>
               (case find_first (\<lambda>(dir, name). name = ref_domain ref) (doms_byDir doms) of
                  None \<Rightarrow> '''' | Some (dir, _) \<Rightarrow> path_join [doms_root doms, dir]))"

definition isPlaceholder :: "intent_env \<Rightarrow> intent_stage \<Rightarrow> string \<Rightarrow> string \<Rightarrow> bool" where
  "isPlaceholder env at dir i = ie_stat env at (path_join [dir, PlaceholderMarkerDir, i])"

definition flowExistsLocally :: "intent_config \<Rightarrow> intent_env \<Rightarrow> intent_stage \<Rightarrow> FlowRef \<Rightarrow> bool" where
  "flowExistsLocally cfg env at ref =
     (case (ic_flowChecker cfg, ref_domain ref = '''') of
        (Some check, True) \<Rightarrow> check (ref_id ref)
      | _ \<Rightarrow>
          let dir = domainDir cfg env at ref
          in dir \<noteq> '''' \<and> ie_listed env at dir (ref_id ref @ flowDirSuffix) \<and>
             ie_stat env at (path_join [dir, ref_id ref @ flowDirSuffix, ''flow_def.json'']) \<and>
             \<not> isPlaceholder env at dir (ref_id ref))"

definition intent_resolveSourceNode :: "intent_env \<Rightarrow> intent_stage \<Rightarrow> FlowRef \<Rightarrow> go_error + OriginResolution" where
  "intent_resolveSourceNode env at ref =
     (case ie_flow env at (flowref_name ref) of
        Inl e \<Rightarrow> if isNotFound e then Inr no_origin else Inl e
      | Inr flow \<Rightarrow> resolveOrigin (Some flow) (ie_lease env at))"

definition intent_nodeCapabilities :: "intent_env \<Rightarrow> string \<Rightarrow> go_error + MxlNodeCapabilitiesStatus" where
  "intent_nodeCapabilities env node =
     (case ie_caps env node of
        Inl e \<Rightarrow> if isNotFound e then Inr empty_caps else Inl e
      | Inr caps \<Rightarrow> Inr (caps_status caps))"

definition intent_resolveProvider ::
  "intent_config \<Rightarrow> meta_api \<Rightarrow> intent_env \<Rightarrow> string \<Rightarrow> go_error + MxlFabricsProvider" where
  "intent_resolveProvider cfg M env sourceNode =
     (if ic_provider cfg \<noteq> ProviderUnset \<and> ic_provider cfg \<noteq> ProviderAuto then Inr (ic_provider cfg)
      else case intent_nodeCapabilities env sourceNode of
             Inl e \<Rightarrow> Inl (EWrap ''source node capabilities'' e)
           | Inr srcCaps \<Rightarrow>
           case intent_nodeCapabilities env (ic_node cfg) of
             Inl e \<Rightarrow> Inl (EWrap ''target node capabilities'' e)
           | Inr tgtCaps \<Rightarrow> Inr (fst (resolve M srcCaps tgtCaps)))"

fun intent_requireMultiDomain :: "intent_env \<Rightarrow> string list \<Rightarrow> go_error + unit" where
  "intent_requireMultiDomain env [] = Inr ()"
| "intent_requireMultiDomain env (node # nodes) =
     (case intent_nodeCapabilities env node of
        Inl e \<Rightarrow> Inl (EWrap (''node '' @ node @ '' capabilities'') e)
      | Inr caps \<Rightarrow>
          if \<not> nc_multiDomain caps then Inl (EOther (''the gateway on node '' @ node @ '' mirrors only the primary MXL domain''))
          else intent_requireMultiDomain env nodes)"

subsection \<open>Admission\<close>

definition pod_id_of :: "Pod \<Rightarrow> pod_id" where
  "pod_id_of pod = \<lparr>pi_namespace = om_namespace (pod_meta pod), pi_name = om_name (pod_meta pod), pi_uid = om_uid (pod_meta pod)\<rparr>"

definition live_here :: "intent_config \<Rightarrow> MxlFlowMirror \<Rightarrow> bool" where
  "live_here cfg m \<longleftrightarrow> om_deletionTimestamp (mir_meta m) = 0 \<and> ms_targetNode (mir_spec m) = ic_node cfg"

definition requested_by :: "string \<Rightarrow> MxlFlowMirror \<Rightarrow> bool" where
  "requested_by uid m \<longleftrightarrow> label_value (om_labels (mir_meta m)) LabelRequestorPodUID = uid"

definition countRefusal :: "intent_config \<Rightarrow> intent_env \<Rightarrow> pod_id \<Rightarrow> intent_error option" where
  "countRefusal cfg env pod =
     (let lim = ic_limits cfg
      in if lim_perPod lim \<le> 0 \<and> lim_perNode lim \<le> 0 then None
         else case ie_onDemand env (ic_node cfg) of
                Inl e \<Rightarrow> Some (Plain (EWrap ''count on-demand mirrors'' e))
              | Inr ms \<Rightarrow>
                  let node = length (filter (live_here cfg) ms);
                      own = length (filter (\<lambda>m. live_here cfg m \<and> requested_by (pi_uid pod) m) ms)
                  in if 0 < lim_perPod lim \<and> lim_perPod lim \<le> int own
                     then Some (Limited \<lparr>le_msg = ''pod '' @ pi_namespace pod @ ''/'' @ pi_name pod @ '' already has '' @ show_nat own @
                            '' mirrors created on demand, its limit'', le_retryAfter = 0\<rparr>)
                     else if 0 < lim_perNode lim \<and> lim_perNode lim \<le> int node
                     then Some (Limited \<lparr>le_msg = ''node '' @ ic_node cfg @ '' already has '' @ show_nat node @
                            '' mirrors created on demand, its limit'', le_retryAfter = 0\<rparr>)
                     else None)"

definition admit :: "intent_config \<Rightarrow> intent_env \<Rightarrow> pod_id \<Rightarrow> FlowRef \<Rightarrow> bursts \<Rightarrow> bursts \<times> intent_error option" where
  "admit cfg env pod ref bs =
     (case admit_burst (ic_limits cfg) (ie_duration env) bs pod (flowref_name ref) (ie_clock env ClockAdmit) of
        (bs', Some e) \<Rightarrow> (bs', Some (Limited e))
      | (bs', None) \<Rightarrow> (bs', countRefusal cfg env pod))"

definition wanted_mirror :: "intent_config \<Rightarrow> FlowRef \<Rightarrow> string \<Rightarrow> MxlFabricsProvider \<Rightarrow> Pod \<Rightarrow> MxlFlowMirror" where
  "wanted_mirror cfg ref sourceNode provider pod =
     \<lparr>mir_meta = new_meta (om_namespace (pod_meta pod)) (mirrorNameFor ref (ic_node cfg))
        [(LabelCreatedByIntent, ic_node cfg), (LabelRequestorPodUID, om_uid (pod_meta pod))] [],
      mir_spec = \<lparr>ms_flowID = ref_id ref, ms_domain = ref_domain ref, ms_sourceNode = sourceNode, ms_targetNode = ic_node cfg,
        ms_provider = provider,
        ms_requestor = Some \<lparr>pr_name = om_name (pod_meta pod), pr_namespace = om_namespace (pod_meta pod), pr_uid = om_uid (pod_meta pod)\<rparr>,
        ms_placement = None\<rparr>,
      mir_status = new_mirror_status\<rparr>"

definition intent_key :: "intent_config \<Rightarrow> FlowRef \<Rightarrow> string \<Rightarrow> NamespacedName" where
  "intent_key cfg ref ns = \<lparr>nn_namespace = ns, nn_name = mirrorNameFor ref (ic_node cfg)\<rparr>"

subsection \<open>The mirror\<close>

definition terminating :: "MxlFlowMirror \<Rightarrow> go_error" where
  "terminating m = EOther (''mirror '' @ om_namespace (mir_meta m) @ ''/'' @ om_name (mir_meta m) @ '' is terminating'')"

text \<open>What \<^verbatim>\<open>ensureMirror\<close> does under the lock: admit, create, note. The answer to a create that lost a race is the
  object that won.\<close>

definition create_admitted :: "intent_config \<Rightarrow> intent_env \<Rightarrow> FlowRef \<Rightarrow> string \<Rightarrow> MxlFabricsProvider \<Rightarrow> Pod \<Rightarrow> MxlFlowMirror intent" where
  "create_admitted cfg env ref sourceNode provider pod =
     (let desired = wanted_mirror cfg ref sourceNode provider pod; uid = om_uid (pod_meta pod)
      in i_bind (i_write (CreateIntentMirror desired)) (\<lambda>_.
         case ie_create env desired of
           Inl e \<Rightarrow> if \<not> isAlreadyExists e then i_fail (Plain e)
                    else i_read (ie_mirror env AtExists (intent_key cfg ref (om_namespace (pod_meta pod))))
         | Inr m \<Rightarrow> i_bind (still_locked (\<lambda>bs. note_created bs uid (ie_clock env ClockNoted))) (\<lambda>_. i_ret m)))"

definition intent_ensureMirror ::
  "intent_config \<Rightarrow> meta_api \<Rightarrow> intent_env \<Rightarrow> FlowRef \<Rightarrow> string \<Rightarrow> Pod \<Rightarrow> MxlFlowMirror intent" where
  "intent_ensureMirror cfg M env ref sourceNode pod =
     (case ie_mirror env AtEnsure (intent_key cfg ref (om_namespace (pod_meta pod))) of
        Inr existing \<Rightarrow>
          if om_deletionTimestamp (mir_meta existing) \<noteq> 0 then i_fail (Plain (terminating existing)) else i_ret existing
      | Inl e \<Rightarrow>
          if \<not> isNotFound e then i_fail (Plain e)
          else i_bind (if ref_domain ref = '''' then i_ret ()
                       else i_read (intent_requireMultiDomain env [sourceNode, ic_node cfg])) (\<lambda>_.
               i_bind (i_read (intent_resolveProvider cfg M env sourceNode)) (\<lambda>provider.
               i_bind (on_bursts cfg env AtEnsure (admit cfg env (pod_id_of pod) ref)) (\<lambda>refused.
               case refused of
                 Some why \<Rightarrow> i_bind (refuse cfg env ref (pod_id_of pod) why) (\<lambda>_. i_fail why)
               | None \<Rightarrow> create_admitted cfg env ref sourceNode provider pod))))"

text \<open>\<^verbatim>\<open>waitReady\<close> reads the mirror it was given under its key, once per tick until the context is done; \<open>ie_polls\<close> has
  what the reads under a key answer.\<close>

fun wait_polls :: "go_error \<Rightarrow> (go_error + MxlFlowMirror) list \<Rightarrow> go_error + unit" where
  "wait_polls done [] = Inl done"
| "wait_polls done (r # rs) =
     (case r of
        Inl e \<Rightarrow> if isNotFound e then wait_polls done rs else Inl e
      | Inr m \<Rightarrow>
          if mst_phase (mir_status m) = MxlFlowMirrorReady \<and> mst_targetInfo (mir_status m) \<noteq> '''' then Inr ()
          else if mst_phase (mir_status m) = MxlFlowMirrorFailed then Inl (EOther ''mirror entered Failed phase'')
          else wait_polls done rs)"

definition waitReady :: "intent_env \<Rightarrow> MxlFlowMirror \<Rightarrow> go_error + unit" where
  "waitReady env mirror =
     wait_polls (ie_ctxErr env)
       (ie_polls env \<lparr>nn_namespace = om_namespace (mir_meta mirror), nn_name = om_name (mir_meta mirror)\<rparr>)"

subsection \<open>A request\<close>

definition refuseEarly :: "intent_config \<Rightarrow> intent_env \<Rightarrow> int \<Rightarrow> FlowRef \<Rightarrow> unit intent" where
  "refuseEarly cfg env pid ref =
     (case ie_uid env of
        None \<Rightarrow> i_ret ()
      | Some uid_of \<Rightarrow>
          if lim_burst (ic_limits cfg) \<le> 0 then i_ret ()
          else case uid_of pid of
                 Inl _ \<Rightarrow> i_ret ()
               | Inr uid \<Rightarrow>
                   i_bind (on_bursts cfg env AtPath (early_check (ic_limits cfg) uid (ie_clock env ClockEarly))) (\<lambda>full.
                   case full of
                     None \<Rightarrow> i_ret ()
                   | Some b \<Rightarrow>
                       if flowExistsLocally cfg env AtEarly ref then i_ret ()
                       else case intent_resolveSourceNode env AtEarly ref of
                              Inl _ \<Rightarrow> i_ret ()
                            | Inr res \<Rightarrow>
                                if \<not> res_found res \<or> res_node res = ic_node cfg then i_ret ()
                                else case ie_mirror env AtEarly (intent_key cfg ref (pi_namespace (b_pod b))) of
                                       Inr _ \<Rightarrow> i_ret ()
                                     | Inl e \<Rightarrow>
                                         if \<not> isNotFound e then i_ret ()
                                         else i_bind (on_bursts cfg env AtEarly (\<lambda>bs.
                                                case early_refuse (ic_limits cfg) (ie_duration env) uid (flowref_name ref)
                                                       (ie_clock env ClockFull) (ie_clock env ClockBurst) bs of
                                                  (bs', err) \<Rightarrow> (bs', map_option (\<lambda>e. (e, b_pod (the (bs' uid)))) err)))
                                              (\<lambda>err. case err of
                                                 None \<Rightarrow> i_ret ()
                                               | Some (e, pod) \<Rightarrow>
                                                   i_bind (refuse cfg env ref pod (Limited e)) (\<lambda>_. i_fail (Limited e)))))"

definition not_found_reason :: "OriginResolution \<Rightarrow> go_error" where
  "not_found_reason res =
     EOther (if res_allStale res then ''all Origin locations have an expired Lease'' else ''MxlFlow not yet known cluster-wide'')"

definition own_pod :: "intent_config \<Rightarrow> Pod \<Rightarrow> bool" where
  "own_pod cfg pod = (case ic_own cfg of None \<Rightarrow> False | Some own \<Rightarrow> own pod)"

definition materialize_ref :: "intent_config \<Rightarrow> meta_api \<Rightarrow> intent_env \<Rightarrow> int \<Rightarrow> FlowRef \<Rightarrow> unit intent" where
  "materialize_ref cfg M env pid ref =
     i_bind (refuseEarly cfg env pid ref) (\<lambda>_.
     if flowExistsLocally cfg env AtMain ref then i_ret ()
     else i_bind (i_within ''resolve source node'' (i_read (intent_resolveSourceNode env AtMain ref))) (\<lambda>res.
          if \<not> res_found res then i_fail (Plain (not_found_reason res))
          else i_bind (i_within ''pod lookup'' (i_read (ie_pod env pid))) (\<lambda>pod.
               if own_pod cfg pod
               then i_fail (Plain (EOther (''pod '' @ om_namespace (pod_meta pod) @ ''/'' @ om_name (pod_meta pod) @
                      '' is mxl-k8s's own, not a reader'')))
               else if res_node res = ic_node cfg then i_ret ()
               else i_bind (i_within ''ensure mirror'' (intent_ensureMirror cfg M env ref (res_node res) pod)) (\<lambda>mirror.
                    i_read (waitReady env mirror)))))"

definition materialize :: "intent_config \<Rightarrow> meta_api \<Rightarrow> intent_env \<Rightarrow> int \<Rightarrow> string \<Rightarrow> unit intent" where
  "materialize cfg M env pid path =
     (case flowRef (ie_domains env AtPath) (ic_domainPath cfg) path of
        None \<Rightarrow> i_bind (log_refusal env ClockPath path) (\<lambda>_. i_fail (Plain (notMirrored cfg env path)))
      | Some ref \<Rightarrow> materialize_ref cfg M env pid ref)"

definition notifyProducerAttached :: "intent_config \<Rightarrow> intent_env \<Rightarrow> string \<Rightarrow> unit intent" where
  "notifyProducerAttached cfg env path =
     (case flowRef (ie_domains env AtPath) (ic_domainPath cfg) path of
        None \<Rightarrow> i_fail (Plain (notMirrored cfg env path))
      | Some ref \<Rightarrow>
          if \<not> ic_origin cfg then i_ret ()
          else i_bind (i_write (ClaimOriginOf ref)) (\<lambda>_. i_read (ie_claim env ref)))"

end
