(* ===== verification/Intent_Safety.thy ===== *)
theory Intent_Safety
  imports Intent_Dispatch Mirror_Lifecycle
begin

section \<open>What a request for a flow does\<close>

text \<open>
  About \<^verbatim>\<open>Dispatcher.Materialize\<close> (\<open>Intent_Dispatch\<close>), for every state the other requests left and every interleaving
  with them: when a mirror is created and what it says; what an answer means; and that the shared burst history evolves
  by the events of \<open>Intent_Limits\<close>, so the burst limit holds of the mirrors that requests really create.
\<close>

subsection \<open>Writes, state and answer of a computation\<close>

abbreviation writes_of :: "'a intent \<Rightarrow> intent_state \<Rightarrow> intent_write set" where
  "writes_of m s \<equiv> set (fst (m s))"

abbreviation state_of :: "'a intent \<Rightarrow> intent_state \<Rightarrow> intent_state" where
  "state_of m s \<equiv> fst (snd (m s))"

abbreviation answer_of :: "'a intent \<Rightarrow> intent_state \<Rightarrow> intent_error + 'a" where
  "answer_of m s \<equiv> snd (snd (m s))"

named_theorems intent_simps \<open>writes, state and answer of the building blocks\<close>

lemma i_basic [simp, intent_simps]:
  "i_ret x s = ([], s, Inr x)" "i_fail e s = ([], s, Inl e)" "i_write w s = ([w], s, Inr ())"
  "i_read (Inr x) = i_ret x" "i_read (Inl e') = i_fail (Plain e')"
  by (simp_all add: i_ret_def i_fail_def i_write_def i_read_def)

lemma i_bind_basic [simp, intent_simps]:
  "i_bind (i_ret x) f = f x" "i_bind (i_fail e) f = i_fail e"
  by (simp_all add: i_bind_def fun_eq_iff)

lemma i_bind_writes:
  "w \<in> writes_of (i_bind m f) s \<longleftrightarrow> w \<in> writes_of m s \<or> (\<exists>x. answer_of m s = Inr x \<and> w \<in> writes_of (f x) (state_of m s))"
  by (auto simp: i_bind_def split: prod.splits sum.splits)

lemma i_bind_answer:
  "answer_of (i_bind m f) s = (case answer_of m s of Inl e \<Rightarrow> Inl e | Inr x \<Rightarrow> answer_of (f x) (state_of m s))"
  by (simp add: i_bind_def split: prod.splits sum.splits)

lemma i_bind_state:
  "state_of (i_bind m f) s = (case answer_of m s of Inl e \<Rightarrow> state_of m s | Inr x \<Rightarrow> state_of (f x) (state_of m s))"
  by (simp add: i_bind_def split: prod.splits sum.splits)

lemma i_within_simps [simp, intent_simps]:
  "fst (i_within t m s) = fst (m s)" "state_of (i_within t m) s = state_of m s"
  "answer_of (i_within t m) s = Inr x \<longleftrightarrow> answer_of m s = Inr x"
  by (simp_all add: i_within_def split: prod.splits sum.splits)

lemma i_read_simps [simp, intent_simps]:
  "fst (i_read r s) = []" "state_of (i_read r) s = s" "answer_of (i_read r) s = Inr x \<longleftrightarrow> r = Inr x"
  by (cases r; simp)+

lemma on_bursts_simps [simp, intent_simps]:
  "fst (on_bursts cfg env at f s) = []"
  "state_of (on_bursts cfg env at f) s =
     s\<lparr>is_bursts := fst (f (fst (run_events (ic_limits cfg) (ie_duration env) (ie_between env at) (is_bursts s))))\<rparr>"
  "answer_of (on_bursts cfg env at f) s =
     Inr (snd (f (fst (run_events (ic_limits cfg) (ie_duration env) (ie_between env at) (is_bursts s)))))"
  by (simp_all add: on_bursts_def split: prod.splits)

lemma still_locked_simps [simp, intent_simps]:
  "still_locked f s = ([], s\<lparr>is_bursts := f (is_bursts s)\<rparr>, Inr ())"
  by (simp add: still_locked_def)

lemma log_refusal_simps [simp, intent_simps]:
  "fst (log_refusal env at path s) = []" "is_bursts (state_of (log_refusal env at path) s) = is_bursts s"
  "\<exists>b. answer_of (log_refusal env at path) s = Inr b"
  by (simp_all add: log_refusal_def split: prod.splits)

lemma refuse_simps [simp, intent_simps]:
  "is_bursts (state_of (refuse cfg env ref pod why) s) = is_bursts s" "answer_of (refuse cfg env ref pod why) s = Inr ()"
  "CreateIntentMirror m \<notin> writes_of (refuse cfg env ref pod why) s"
proof -
  define p where "p = ''limit/'' @ pi_uid pod"
  obtain b where b: "answer_of (log_refusal env ClockLog p) s = Inr b" using log_refusal_simps(3) by blast
  have r: "refuse cfg env ref pod why = i_bind (log_refusal env ClockLog p) (\<lambda>logged.
     if logged then i_write (LimitEvent pod ReasonMirrorLimitReached (limit_message cfg ref why)) else i_ret ())"
    unfolding refuse_def p_def ..
  show "is_bursts (state_of (refuse cfg env ref pod why) s) = is_bursts s" "answer_of (refuse cfg env ref pod why) s = Inr ()"
    "CreateIntentMirror m \<notin> writes_of (refuse cfg env ref pod why) s"
    unfolding r by (simp_all add: i_bind_state i_bind_answer i_bind_writes b)
qed

subsection \<open>When a mirror is created\<close>

lemma refuseEarly_creates_nothing: "CreateIntentMirror m \<notin> writes_of (refuseEarly cfg env pid ref) s"
  by (simp add: refuseEarly_def i_bind_writes split: option.splits sum.splits)

lemma create_admitted_writes:
  "CreateIntentMirror m \<in> writes_of (create_admitted cfg env ref src provider pod) s \<longleftrightarrow> m = wanted_mirror cfg ref src provider pod"
  by (auto simp: create_admitted_def Let_def i_bind_writes split: sum.splits)

definition bursts_at_ensure :: "intent_config \<Rightarrow> intent_env \<Rightarrow> intent_state \<Rightarrow> bursts" where
  "bursts_at_ensure cfg env s = fst (run_events (ic_limits cfg) (ie_duration env) (ie_between env AtEnsure) (is_bursts s))"

lemma ensureMirror_creates:
  assumes "CreateIntentMirror m \<in> writes_of (intent_ensureMirror cfg M env ref src pod) s"
  shows "(\<exists>e. ie_mirror env AtEnsure (intent_key cfg ref (om_namespace (pod_meta pod))) = Inl e \<and> isNotFound e) \<and>
    (ref_domain ref \<noteq> '''' \<longrightarrow> intent_requireMultiDomain env [src, ic_node cfg] = Inr ()) \<and>
    (\<exists>provider. intent_resolveProvider cfg M env src = Inr provider \<and> m = wanted_mirror cfg ref src provider pod) \<and>
    snd (admit cfg env (pod_id_of pod) ref (bursts_at_ensure cfg env s)) = None"
  using assms
  by (auto simp: intent_ensureMirror_def i_bind_writes bursts_at_ensure_def create_admitted_writes
      split: sum.splits if_splits option.splits)

text \<open>\<open>has_room\<close>: what the limits leave to a pod, over the history at admission and the mirrors listed.\<close>

definition has_room :: "intent_config \<Rightarrow> intent_env \<Rightarrow> string \<Rightarrow> bursts \<Rightarrow> bool" where
  "has_room cfg env uid bs \<longleftrightarrow>
     (let lim = ic_limits cfg
      in (0 < lim_burst lim \<longrightarrow>
            int (length (filter (in_window lim (ie_clock env ClockAdmit)) (created_of bs uid))) < lim_burst lim) \<and>
         (0 < lim_perPod lim \<or> 0 < lim_perNode lim \<longrightarrow>
            (\<exists>ms. ie_onDemand env (ic_node cfg) = Inr ms \<and>
               (0 < lim_perPod lim \<longrightarrow> int (length (filter (\<lambda>m. live_here cfg m \<and> requested_by uid m) ms)) < lim_perPod lim) \<and>
               (0 < lim_perNode lim \<longrightarrow> int (length (filter (live_here cfg) ms)) < lim_perNode lim))))"

lemma countRefusal_None:
  assumes "countRefusal cfg env pod = None" "0 < lim_perPod (ic_limits cfg) \<or> 0 < lim_perNode (ic_limits cfg)"
  shows "\<exists>ms. ie_onDemand env (ic_node cfg) = Inr ms \<and>
    (0 < lim_perPod (ic_limits cfg) \<longrightarrow>
       int (length (filter (\<lambda>m. live_here cfg m \<and> requested_by (pi_uid pod) m) ms)) < lim_perPod (ic_limits cfg)) \<and>
    (0 < lim_perNode (ic_limits cfg) \<longrightarrow> int (length (filter (live_here cfg) ms)) < lim_perNode (ic_limits cfg))"
  using assms by (auto simp: countRefusal_def Let_def not_le split: if_splits sum.splits)

lemma admit_None:
  assumes "snd (admit cfg env pod ref bs) = None"
  shows "has_room cfg env (pi_uid pod) bs"
proof -
  have a: "snd (admit_burst (ic_limits cfg) (ie_duration env) bs pod (flowref_name ref) (ie_clock env ClockAdmit)) = None"
    "countRefusal cfg env pod = None"
    using assms by (auto simp: admit_def split: prod.splits option.splits)
  from admit_burst_passes[OF a(1)] countRefusal_None[OF a(2)] show ?thesis unfolding has_room_def Let_def by blast
qed

lemma requireMultiDomain_ok:
  "intent_requireMultiDomain env nodes = Inr () \<Longrightarrow> node \<in> set nodes \<Longrightarrow>
   \<exists>caps. intent_nodeCapabilities env node = Inr caps \<and> nc_multiDomain caps"
  by (induction nodes) (auto split: sum.splits if_splits)

lemma wanted_mirror_simps [simp]:
  "mirror_ref (wanted_mirror cfg ref src provider pod) = ref"
  "objectKey (mir_meta (wanted_mirror cfg ref src provider pod)) = intent_key cfg ref (om_namespace (pod_meta pod))"
  "ms_sourceNode (mir_spec (wanted_mirror cfg ref src provider pod)) = src"
  "ms_targetNode (mir_spec (wanted_mirror cfg ref src provider pod)) = ic_node cfg"
  "ms_provider (mir_spec (wanted_mirror cfg ref src provider pod)) = provider"
  "ms_requestor (mir_spec (wanted_mirror cfg ref src provider pod)) =
     Some \<lparr>pr_name = om_name (pod_meta pod), pr_namespace = om_namespace (pod_meta pod), pr_uid = om_uid (pod_meta pod)\<rparr>"
  "label_value (om_labels (mir_meta (wanted_mirror cfg ref src provider pod))) LabelRequestorPodUID = om_uid (pod_meta pod)"
  by (simp_all add: wanted_mirror_def mirror_ref_def objectKey_def intent_key_def new_meta_def label_value_def
      LabelCreatedByIntent_def LabelRequestorPodUID_def)

lemma materialize_creates:
  assumes "CreateIntentMirror m \<in> writes_of (materialize cfg M env pid path) s"
  obtains ref res pod provider where "flowRef (ie_domains env AtPath) (ic_domainPath cfg) path = Some ref"
    "\<not> flowExistsLocally cfg env AtMain ref" "intent_resolveSourceNode env AtMain ref = Inr res" "res_found res"
    "res_node res \<noteq> ic_node cfg" "ie_pod env pid = Inr pod" "\<not> own_pod cfg pod"
    "m = wanted_mirror cfg ref (res_node res) provider pod" "intent_resolveProvider cfg M env (res_node res) = Inr provider"
    "\<exists>e. ie_mirror env AtEnsure (intent_key cfg ref (om_namespace (pod_meta pod))) = Inl e \<and> isNotFound e"
    "ref_domain ref \<noteq> '''' \<longrightarrow> intent_requireMultiDomain env [res_node res, ic_node cfg] = Inr ()"
    "snd (admit cfg env (pod_id_of pod) ref (bursts_at_ensure cfg env (state_of (refuseEarly cfg env pid ref) s))) = None"
    "answer_of (refuseEarly cfg env pid ref) s = Inr ()"
proof -
  obtain ref where ref: "flowRef (ie_domains env AtPath) (ic_domainPath cfg) path = Some ref"
    "CreateIntentMirror m \<in> writes_of (materialize_ref cfg M env pid ref) s"
    using assms by (auto simp: materialize_def i_bind_writes split: option.splits)
  let ?s = "state_of (refuseEarly cfg env pid ref) s"
  obtain res pod where r: "answer_of (refuseEarly cfg env pid ref) s = Inr ()" "\<not> flowExistsLocally cfg env AtMain ref"
    "intent_resolveSourceNode env AtMain ref = Inr res" "res_found res" "res_node res \<noteq> ic_node cfg" "ie_pod env pid = Inr pod"
    "\<not> own_pod cfg pod" "CreateIntentMirror m \<in> writes_of (intent_ensureMirror cfg M env ref (res_node res) pod) ?s"
    using ref(2) refuseEarly_creates_nothing
    by (auto simp: materialize_ref_def i_bind_writes split: if_splits)
  from ensureMirror_creates[OF r(8)] obtain provider where "intent_resolveProvider cfg M env (res_node res) = Inr provider"
    "m = wanted_mirror cfg ref (res_node res) provider pod" by blast
  with that[OF ref(1) r(2-7)] ensureMirror_creates[OF r(8)] r(1) show thesis by blast
qed

lemma intent_provider_concrete:
  "intent_resolveProvider cfg M env src = Inr p \<Longrightarrow> p \<noteq> ProviderUnset \<and> p \<noteq> ProviderAuto"
  using resolve_concrete[of M]
  by (auto simp: intent_resolveProvider_def split: if_splits sum.splits) (metis MxlFabricsProvider.distinct insertE singletonD)+

lemma wanted_mirror_claimed:
  assumes "rd_pod rd \<lparr>nn_namespace = om_namespace (pod_meta pod), nn_name = om_name (pod_meta pod)\<rparr> = Inr found"
    "om_uid found = om_uid (pod_meta pod)" "claimFrom mcfg rd (wanted_mirror cfg ref src provider pod) = Inr j"
  shows "j_ok j"
  using assms claimFrom_spec[OF assms(3)] by (simp add: claimed_by_def pod_claims_def)

subsection \<open>The history under requests\<close>

lemma run_events_append:
  "run_events lim sd (es @ fs) bs =
     (let (bs', log) = run_events lim sd es bs; (bs'', log') = run_events lim sd fs bs' in (bs'', log @ log'))"
  by (induction es arbitrary: bs) (simp_all add: case_prod_beta Let_def)

lemma fst_run_events_append [simp]:
  "fst (run_events lim sd (es @ fs) bs) = fst (run_events lim sd fs (fst (run_events lim sd es bs)))"
  by (simp add: run_events_append case_prod_beta Let_def)

lemma snd_run_events_append [simp]:
  "snd (run_events lim sd (es @ fs) bs) = snd (run_events lim sd es bs) @ snd (run_events lim sd fs (fst (run_events lim sd es bs)))"
  by (simp add: run_events_append case_prod_beta Let_def)

text \<open>What \<open>refuseEarly\<close> does to the history is a part of its two events.\<close>

definition early_uid :: "intent_env \<Rightarrow> int \<Rightarrow> string" where
  "early_uid env pid = (case ie_uid env of None \<Rightarrow> '''' | Some f \<Rightarrow> (case f pid of Inl _ \<Rightarrow> '''' | Inr u \<Rightarrow> u))"

lemma refuseEarly_events:
  "\<exists>es. subseq es (ie_between env AtPath @ Early_check (early_uid env pid) (ie_clock env ClockEarly) #
       ie_between env AtEarly @
       [Early_refuse (early_uid env pid) (flowref_name ref) (ie_clock env ClockFull) (ie_clock env ClockBurst)]) \<and>
     is_bursts (state_of (refuseEarly cfg env pid ref) s) = fst (run_events (ic_limits cfg) (ie_duration env) es (is_bursts s))"
    (is "\<exists>es. subseq es (?a @ ?b # ?c @ [?d]) \<and> is_bursts ?s = fst (run_events ?lim ?sd es ?bs)")
proof -
  let ?bs1 = "fst (run_events ?lim ?sd (?a @ [?b]) ?bs)"
  let ?bs2 = "fst (run_events ?lim ?sd (?a @ ?b # ?c @ [?d]) ?bs)"
  have "is_bursts ?s \<in> {?bs, ?bs1, ?bs2}"
    by (auto simp: refuseEarly_def early_uid_def i_bind_state case_prod_beta Let_def early_check_def
        split: option.splits sum.splits)
  moreover have "?bs = fst (run_events ?lim ?sd [] ?bs)" by simp
  moreover have "subseq [] (?a @ ?b # ?c @ [?d])" "subseq (?a @ [?b]) (?a @ ?b # ?c @ [?d])"
    by (auto simp: list_emb_append_mono)
  ultimately show ?thesis by (metis insertE singletonD subseq_order.order_refl)
qed

text \<open>The mirrors a request created, with the pod each was created for and when it was noted.\<close>

definition creation_of :: "intent_env \<Rightarrow> intent_write \<Rightarrow> (string \<times> time) list" where
  "creation_of env w =
     (case w of
        CreateIntentMirror m \<Rightarrow>
          (case ie_create env m of
             Inl _ \<Rightarrow> [] | Inr _ \<Rightarrow> [(label_value (om_labels (mir_meta m)) LabelRequestorPodUID, ie_clock env ClockNoted)])
      | _ \<Rightarrow> [])"

definition creations :: "intent_env \<Rightarrow> intent_write list \<Rightarrow> (string \<times> time) list" where
  "creations env ws = concat (map (creation_of env) ws)"

lemma creations_simps [simp]:
  "creations env [] = []" "creations env (ws @ ws') = creations env ws @ creations env ws'"
  "creations env [w] = creation_of env w"
  by (simp_all add: creations_def)

lemma creations_none: "(\<And>m. CreateIntentMirror m \<notin> set ws) \<Longrightarrow> creations env ws = []"
proof (induction ws)
  case (Cons w ws)
  then have "creation_of env w = []" by (cases w) (auto simp: creation_of_def)
  then show ?case using Cons by (simp add: creations_def)
qed simp

lemma i_bind_creations:
  "creations env (fst (i_bind m f s)) =
     creations env (fst (m s)) @ (case answer_of m s of Inl _ \<Rightarrow> [] | Inr x \<Rightarrow> creations env (fst (f x (state_of m s))))"
  by (simp add: i_bind_def split: prod.splits sum.splits)

definition asked :: "intent_config \<Rightarrow> intent_env \<Rightarrow> FlowRef \<Rightarrow> string \<Rightarrow> MxlFabricsProvider \<Rightarrow> Pod \<Rightarrow> asking" where
  "asked cfg env ref src provider pod =
     \<lparr>rq_pod = pod_id_of pod, rq_flow = flowref_name ref, rq_admitted = ie_clock env ClockAdmit, rq_noted = ie_clock env ClockNoted,
      rq_accepted = (countRefusal cfg env (pod_id_of pod) = None \<and>
                     (case ie_create env (wanted_mirror cfg ref src provider pod) of Inl _ \<Rightarrow> False | Inr _ \<Rightarrow> True))\<rparr>"

lemma create_admitted_events:
  "creations env (fst (create_admitted cfg env ref src provider pod s)) =
     (case ie_create env (wanted_mirror cfg ref src provider pod) of
        Inl _ \<Rightarrow> [] | Inr _ \<Rightarrow> [(om_uid (pod_meta pod), ie_clock env ClockNoted)])"
  "is_bursts (state_of (create_admitted cfg env ref src provider pod) s) =
     (case ie_create env (wanted_mirror cfg ref src provider pod) of
        Inl _ \<Rightarrow> is_bursts s | Inr _ \<Rightarrow> note_created (is_bursts s) (om_uid (pod_meta pod)) (ie_clock env ClockNoted))"
  by (simp_all add: create_admitted_def Let_def i_bind_creations i_bind_state creation_of_def split: sum.splits)

lemma ensureMirror_locked:
  assumes "ie_mirror env AtEnsure (intent_key cfg ref (om_namespace (pod_meta pod))) = Inl e" "isNotFound e"
    "ref_domain ref \<noteq> '''' \<longrightarrow> intent_requireMultiDomain env [src, ic_node cfg] = Inr ()"
    "intent_resolveProvider cfg M env src = Inr provider"
  shows "serve_request (ic_limits cfg) (ie_duration env) (asked cfg env ref src provider pod) (bursts_at_ensure cfg env s) =
    (is_bursts (state_of (intent_ensureMirror cfg M env ref src pod) s),
     creations env (fst (intent_ensureMirror cfg M env ref src pod s)))"
proof -
  let ?bs = "bursts_at_ensure cfg env s"
  let ?s = "s\<lparr>is_bursts := fst (admit cfg env (pod_id_of pod) ref ?bs)\<rparr>"
  have e: "intent_ensureMirror cfg M env ref src pod =
      i_bind (on_bursts cfg env AtEnsure (admit cfg env (pod_id_of pod) ref)) (\<lambda>refused.
        case refused of
          Some why \<Rightarrow> i_bind (refuse cfg env ref (pod_id_of pod) why) (\<lambda>_. i_fail why)
        | None \<Rightarrow> create_admitted cfg env ref src provider pod)"
    using assms by (simp add: intent_ensureMirror_def)
  have refused: "creations env (fst (refuse cfg env ref (pod_id_of pod) why ?s)) = []" for why
    by (rule creations_none) simp
  obtain bs' err where a: "admit_burst (ic_limits cfg) (ie_duration env) ?bs (pod_id_of pod) (flowref_name ref) (ie_clock env ClockAdmit) = (bs', err)"
    by fastforce
  have ad: "admit cfg env (pod_id_of pod) ref ?bs = (bs', case err of Some l \<Rightarrow> Some (Limited l) | None \<Rightarrow> countRefusal cfg env (pod_id_of pod))"
    using a by (simp add: admit_def split: option.splits)
  show ?thesis
    using a ad refused unfolding e
    by (auto simp: serve_request_def asked_def i_bind_state i_bind_creations bursts_at_ensure_def[symmetric] create_admitted_events
        pod_id_of_def[of pod] split: option.splits sum.splits)
qed

lemma ensureMirror_events:
  "\<exists>q es log. subseq es (ie_between env AtEnsure @ [Ask q]) \<and> rq_admitted q = ie_clock env ClockAdmit \<and> rq_noted q = ie_clock env ClockNoted \<and>
     run_events (ic_limits cfg) (ie_duration env) es (is_bursts s) = (is_bursts (state_of (intent_ensureMirror cfg M env ref src pod) s), log) \<and>
     subseq (creations env (fst (intent_ensureMirror cfg M env ref src pod s))) log"
proof (cases "\<exists>e provider. ie_mirror env AtEnsure (intent_key cfg ref (om_namespace (pod_meta pod))) = Inl e \<and> isNotFound e \<and>
    (ref_domain ref \<noteq> '''' \<longrightarrow> intent_requireMultiDomain env [src, ic_node cfg] = Inr ()) \<and> intent_resolveProvider cfg M env src = Inr provider")
  case True
  then obtain provider where l: "serve_request (ic_limits cfg) (ie_duration env) (asked cfg env ref src provider pod) (bursts_at_ensure cfg env s) =
    (is_bursts (state_of (intent_ensureMirror cfg M env ref src pod) s), creations env (fst (intent_ensureMirror cfg M env ref src pod s)))"
    using ensureMirror_locked by blast
  let ?q = "asked cfg env ref src provider pod" and ?R = "run_events (ic_limits cfg) (ie_duration env)"
  have "?R (ie_between env AtEnsure @ [Ask ?q]) (is_bursts s) =
      (is_bursts (state_of (intent_ensureMirror cfg M env ref src pod) s),
       snd (?R (ie_between env AtEnsure) (is_bursts s)) @ creations env (fst (intent_ensureMirror cfg M env ref src pod s)))"
    using l by (simp add: run_events_append bursts_at_ensure_def case_prod_beta Let_def)
  then show ?thesis
    by (intro exI[of _ ?q] exI[of _ "ie_between env AtEnsure @ [Ask ?q]"] exI) (auto simp: asked_def list_emb_append2)
next
  case False
  then have none: "is_bursts (state_of (intent_ensureMirror cfg M env ref src pod) s) = is_bursts s"
    "fst (intent_ensureMirror cfg M env ref src pod s) = []"
    by (auto simp: intent_ensureMirror_def i_bind_def i_read_def split: sum.splits if_splits)
  then show ?thesis
    by (intro exI[of _ "asked cfg env ref src ProviderTCP pod"] exI[of _ "[]"] exI[of _ "[]"]) (simp add: asked_def)
qed

subsection \<open>The clock of a request, and of many\<close>

definition event_times :: "burst_event \<Rightarrow> time \<times> time" where
  "event_times e = (event_starts e, event_finishes e)"

definition request_times :: "intent_env \<Rightarrow> (time \<times> time) list" where
  "request_times env =
     map event_times (ie_between env AtPath) @ (ie_clock env ClockEarly, ie_clock env ClockEarly) #
     map event_times (ie_between env AtEarly) @ (ie_clock env ClockFull, ie_clock env ClockBurst) #
     map event_times (ie_between env AtEnsure) @ [(ie_clock env ClockAdmit, ie_clock env ClockNoted)]"

fun times_run :: "time \<Rightarrow> (time \<times> time) list \<Rightarrow> bool" where
  "times_run t [] = True"
| "times_run t ((a, b) # ts) = (t \<le> a \<and> a \<le> b \<and> times_run b ts)"

lemma clock_runs_times: "clock_runs t es \<longleftrightarrow> times_run t (map event_times es)"
  by (induction es arbitrary: t) (auto simp: event_times_def)

lemma times_run_mono: "times_run t ts \<Longrightarrow> u \<le> t \<Longrightarrow> times_run u ts"
  by (cases ts) auto

lemma times_run_subseq: "subseq us ts \<Longrightarrow> times_run t ts \<Longrightarrow> times_run t us"
proof (induction arbitrary: t rule: list_emb.induct)
  case (list_emb_Cons xs ys y)
  obtain a b where "y = (a, b)" by fastforce
  then show ?case using list_emb_Cons times_run_mono[of b xs t] by auto
next
  case (list_emb_Cons2 x y xs ys)
  then show ?case by (cases y) auto
qed simp

lemma i_within_basic [simp, intent_simps]:
  "i_within t (i_ret x) = i_ret x" "i_within t (i_fail e) = i_fail (Within t e)"
  by (simp_all add: i_within_def fun_eq_iff)

lemma ensure_and_wait:
  "is_bursts (state_of (i_bind (i_within t m) (\<lambda>x. i_read (r x))) s) = is_bursts (state_of m s)"
  "fst (i_bind (i_within t m) (\<lambda>x. i_read (r x)) s) = fst (m s)"
  by (auto simp: i_bind_def i_within_def i_read_def i_fail_def i_ret_def split: prod.splits sum.splits)

definition ensures :: "intent_config \<Rightarrow> meta_api \<Rightarrow> intent_env \<Rightarrow> FlowRef \<Rightarrow> 'a intent \<Rightarrow> intent_state \<Rightarrow> bool" where
  "ensures cfg M env ref m s \<longleftrightarrow>
     (\<exists>src pod. is_bursts (state_of m s) = is_bursts (state_of (intent_ensureMirror cfg M env ref src pod) s) \<and>
        fst (m s) = fst (intent_ensureMirror cfg M env ref src pod s)) \<or>
     is_bursts (state_of m s) = is_bursts s \<and> fst (m s) = []"

lemma ensures_trivial [simp]: "ensures cfg M env ref (i_ret x) s" "ensures cfg M env ref (i_fail e) s"
  by (simp_all add: ensures_def)

lemma ensures_ensure [simp]:
  "ensures cfg M env ref (i_bind (i_within t (intent_ensureMirror cfg M env ref src pod)) (\<lambda>m. i_read (r m))) s"
  unfolding ensures_def ensure_and_wait by blast

lemma materialize_ref_tail:
  obtains K :: "unit intent" where "materialize_ref cfg M env pid ref = i_bind (refuseEarly cfg env pid ref) (\<lambda>_. K)"
    "\<And>s. ensures cfg M env ref K s"
proof -
  define K where "K = (if flowExistsLocally cfg env AtMain ref then i_ret ()
     else i_bind (i_within ''resolve source node'' (i_read (intent_resolveSourceNode env AtMain ref))) (\<lambda>res.
          if \<not> res_found res then i_fail (Plain (not_found_reason res))
          else i_bind (i_within ''pod lookup'' (i_read (ie_pod env pid))) (\<lambda>pod.
               if own_pod cfg pod
               then i_fail (Plain (EOther (''pod '' @ om_namespace (pod_meta pod) @ ''/'' @ om_name (pod_meta pod) @
                      '' is mxl-k8s's own, not a reader'')))
               else if res_node res = ic_node cfg then i_ret ()
               else i_bind (i_within ''ensure mirror'' (intent_ensureMirror cfg M env ref (res_node res) pod)) (\<lambda>mirror.
                    i_read (waitReady env mirror)))))"
  have "ensures cfg M env ref K s" for s
    unfolding K_def by (cases "intent_resolveSourceNode env AtMain ref"; cases "ie_pod env pid"; simp)
  moreover have "materialize_ref cfg M env pid ref = i_bind (refuseEarly cfg env pid ref) (\<lambda>_. K)"
    unfolding materialize_ref_def K_def ..
  ultimately show thesis using that by blast
qed

lemma materialize_events:
  "\<exists>es log. subseq (map event_times es) (request_times env) \<and>
     run_events (ic_limits cfg) (ie_duration env) es (is_bursts s) = (is_bursts (state_of (materialize cfg M env pid path) s), log) \<and>
     subseq (creations env (fst (materialize cfg M env pid path s))) log"
proof (cases "flowRef (ie_domains env AtPath) (ic_domainPath cfg) path")
  case None
  obtain b where b: "answer_of (log_refusal env ClockPath path) s = Inr b" using log_refusal_simps(3) by blast
  show ?thesis
    by (intro exI[of _ "[]"]) (simp add: None materialize_def i_bind_state i_bind_creations b)
next
  case (Some ref)
  let ?R = "run_events (ic_limits cfg) (ie_duration env)" and ?s1 = "state_of (refuseEarly cfg env pid ref) s"
  obtain es where es: "subseq es (ie_between env AtPath @ Early_check (early_uid env pid) (ie_clock env ClockEarly) #
       ie_between env AtEarly @
       [Early_refuse (early_uid env pid) (flowref_name ref) (ie_clock env ClockFull) (ie_clock env ClockBurst)])"
    "is_bursts ?s1 = fst (?R es (is_bursts s))" using refuseEarly_events by blast
  have early: "creations env (fst (refuseEarly cfg env pid ref s)) = []"
    by (rule creations_none) (rule refuseEarly_creates_nothing)
  have times: "subseq (map event_times (es @ fs)) (request_times env)"
    if "subseq fs (ie_between env AtEnsure @ [Ask q])" "rq_admitted q = ie_clock env ClockAdmit" "rq_noted q = ie_clock env ClockNoted" for fs q
  proof -
    have "subseq (map event_times (es @ fs)) (map event_times ((ie_between env AtPath @ Early_check (early_uid env pid) (ie_clock env ClockEarly) #
       ie_between env AtEarly @
       [Early_refuse (early_uid env pid) (flowref_name ref) (ie_clock env ClockFull) (ie_clock env ClockBurst)]) @ (ie_between env AtEnsure @ [Ask q])))"
      by (intro subseq_map list_emb_append_mono es(1) that(1))
    then show ?thesis using that(2,3) by (simp add: request_times_def event_times_def)
  qed
  have "(\<exists>src pod. is_bursts (state_of (materialize cfg M env pid path) s) = is_bursts (state_of (intent_ensureMirror cfg M env ref src pod) ?s1) \<and>
      creations env (fst (materialize cfg M env pid path s)) = creations env (fst (intent_ensureMirror cfg M env ref src pod ?s1))) \<or>
    is_bursts (state_of (materialize cfg M env pid path) s) = is_bursts ?s1 \<and> creations env (fst (materialize cfg M env pid path s)) = []"
  proof -
    obtain K where K: "materialize_ref cfg M env pid ref = i_bind (refuseEarly cfg env pid ref) (\<lambda>_. K)"
      "\<And>s. ensures cfg M env ref K s" by (rule materialize_ref_tail) blast
    show ?thesis
    proof (cases "answer_of (refuseEarly cfg env pid ref) s")
      case (Inl e)
      then show ?thesis by (simp add: Some materialize_def K(1) i_bind_state i_bind_creations early)
    next
      case (Inr u)
      then have "state_of (materialize cfg M env pid path) s = state_of K ?s1"
        "creations env (fst (materialize cfg M env pid path s)) = creations env (fst (K ?s1))"
        by (simp_all add: Some materialize_def K(1) i_bind_state i_bind_creations early)
      then show ?thesis using K(2)[of ?s1] unfolding ensures_def by (metis creations_simps(1))
    qed
  qed
  then show ?thesis
  proof (elim disjE exE conjE)
    fix src pod
    assume m: "is_bursts (state_of (materialize cfg M env pid path) s) = is_bursts (state_of (intent_ensureMirror cfg M env ref src pod) ?s1)"
      "creations env (fst (materialize cfg M env pid path s)) = creations env (fst (intent_ensureMirror cfg M env ref src pod ?s1))"
    obtain q fs log where f: "subseq fs (ie_between env AtEnsure @ [Ask q])" "rq_admitted q = ie_clock env ClockAdmit"
      "rq_noted q = ie_clock env ClockNoted"
      "?R fs (is_bursts ?s1) = (is_bursts (state_of (intent_ensureMirror cfg M env ref src pod) ?s1), log)"
      "subseq (creations env (fst (intent_ensureMirror cfg M env ref src pod ?s1))) log"
      using ensureMirror_events[where env = env and cfg = cfg and s = "?s1" and M = M and ref = ref and src = src and pod = pod]
      by (elim exE conjE) (rule that)
    have "?R (es @ fs) (is_bursts s) = (is_bursts (state_of (materialize cfg M env pid path) s), snd (?R es (is_bursts s)) @ log)"
      using es(2) f(4) m(1) by (simp add: run_events_append case_prod_beta Let_def)
    then show ?thesis
      using times[OF f(1-3)] m(2) f(5)
      by (intro exI[of _ "es @ fs"] exI[of _ "snd (?R es (is_bursts s)) @ log"]) (simp add: list_emb_append2)
  next
    assume m: "is_bursts (state_of (materialize cfg M env pid path) s) = is_bursts ?s1" "creations env (fst (materialize cfg M env pid path s)) = []"
    have "subseq (map event_times (es @ [])) (request_times env)"
      by (rule times[of _ "asked cfg env ref '''' ProviderTCP undefined"]) (simp_all add: asked_def)
    then show ?thesis using m es(2) by (intro exI[of _ es] exI[of _ "snd (?R es (is_bursts s))"]) simp
  qed
qed

text \<open>Requests one after the other, each with its own environment; those that overlap it are in its \<open>ie_between\<close>.\<close>

fun serve_all :: "intent_config \<Rightarrow> meta_api \<Rightarrow> (intent_env \<times> int \<times> string) list \<Rightarrow> intent_state \<Rightarrow> (string \<times> time) list" where
  "serve_all cfg M [] s = []"
| "serve_all cfg M ((env, pid, path) # rs) s =
     creations env (fst (materialize cfg M env pid path s)) @ serve_all cfg M rs (state_of (materialize cfg M env pid path) s)"

lemma serve_all_events:
  assumes "\<And>env pid path. (env, pid, path) \<in> set rs \<Longrightarrow> ie_duration env = sd"
  shows "\<exists>es. subseq (map event_times es) (concat (map (\<lambda>(env, _). request_times env) rs)) \<and>
     subseq (serve_all cfg M rs s) (snd (run_events (ic_limits cfg) sd es (is_bursts s)))"
  using assms
proof (induction rs arbitrary: s)
  case (Cons r rs)
  obtain env pid path where r: "r = (env, pid, path)" by (cases r)
  let ?s = "state_of (materialize cfg M env pid path) s"
  have sd: "ie_duration env = sd" using Cons.prems r by auto
  obtain es log where es: "subseq (map event_times es) (request_times env)"
    "run_events (ic_limits cfg) sd es (is_bursts s) = (is_bursts ?s, log)"
    "subseq (creations env (fst (materialize cfg M env pid path s))) log"
    using materialize_events[of env cfg s M pid path] sd by auto
  obtain fs where fs: "subseq (map event_times fs) (concat (map (\<lambda>(env, _). request_times env) rs))"
    "subseq (serve_all cfg M rs ?s) (snd (run_events (ic_limits cfg) sd fs (is_bursts ?s)))"
    using Cons.IH[of ?s] Cons.prems by auto
  have "snd (run_events (ic_limits cfg) sd (es @ fs) (is_bursts s)) = log @ snd (run_events (ic_limits cfg) sd fs (is_bursts ?s))"
    using es(2) by simp
  then show ?case using es fs r by (intro exI[of _ "es @ fs"]) (simp add: list_emb_append_mono)
next
  case Nil
  show ?case by (intro exI[of _ "[]"]) simp
qed

lemma subseq_times_of: "subseq xs ys \<Longrightarrow> subseq (times_of uid xs) (times_of uid ys)"
  unfolding times_of_def by (intro subseq_map subseq_filter)

subsection \<open>Properties\<close>

text \<open>C30. 
  A request creates a mirror only when one is needed and allowed, and the mirror is right. The path names the flow; the
  flow is not on the node and its live origin is another node; the process belongs to a pod that is not one of
  mxl-k8s's own; no mirror of that name is there; in a domain other than the primary both gateways carry domains; the
  pod's burst, its count and the node's count have room. The mirror goes from the origin to this node, under the name
  every other creator uses, with a concrete provider, and the mirror controller finds it claimed while the pod is there.
\<close>

theorem on_demand_mirror_is_needed:
  assumes "CreateIntentMirror m \<in> set (fst (materialize cfg M env pid path s))"
  shows "\<exists>ref res pod. flowRef (ie_domains env AtPath) (ic_domainPath cfg) path = Some ref \<and>
    \<not> flowExistsLocally cfg env AtMain ref \<and>
    intent_resolveSourceNode env AtMain ref = Inr res \<and> res_found res \<and> res_node res \<noteq> ic_node cfg \<and>
    ie_pod env pid = Inr pod \<and> \<not> own_pod cfg pod \<and>
    mirror_ref m = ref \<and> ms_sourceNode (mir_spec m) = res_node res \<and> ms_targetNode (mir_spec m) = ic_node cfg \<and>
    ms_provider (mir_spec m) \<noteq> ProviderUnset \<and> ms_provider (mir_spec m) \<noteq> ProviderAuto \<and>
    objectKey (mir_meta m) = \<lparr>nn_namespace = om_namespace (pod_meta pod), nn_name = mirrorNameFor ref (ic_node cfg)\<rparr> \<and>
    (\<exists>e. ie_mirror env AtEnsure (objectKey (mir_meta m)) = Inl e \<and> isNotFound e) \<and>
    (ref_domain ref \<noteq> '''' \<longrightarrow> (\<forall>node \<in> {res_node res, ic_node cfg}. \<exists>caps. intent_nodeCapabilities env node = Inr caps \<and> nc_multiDomain caps)) \<and>
    has_room cfg env (om_uid (pod_meta pod)) (bursts_at_ensure cfg env (fst (snd (refuseEarly cfg env pid ref s)))) \<and>
    (\<forall>mcfg rd found j. rd_pod rd \<lparr>nn_namespace = om_namespace (pod_meta pod), nn_name = om_name (pod_meta pod)\<rparr> = Inr found \<and>
       om_uid found = om_uid (pod_meta pod) \<and> claimFrom mcfg rd m = Inr j \<longrightarrow> j_ok j)"
proof -
  obtain ref res pod provider where r: "flowRef (ie_domains env AtPath) (ic_domainPath cfg) path = Some ref"
    "\<not> flowExistsLocally cfg env AtMain ref" "intent_resolveSourceNode env AtMain ref = Inr res" "res_found res"
    "res_node res \<noteq> ic_node cfg" "ie_pod env pid = Inr pod" "\<not> own_pod cfg pod"
    and m: "m = wanted_mirror cfg ref (res_node res) provider pod" "intent_resolveProvider cfg M env (res_node res) = Inr provider"
    and e: "\<exists>e. ie_mirror env AtEnsure (intent_key cfg ref (om_namespace (pod_meta pod))) = Inl e \<and> isNotFound e"
    and d: "ref_domain ref \<noteq> '''' \<longrightarrow> intent_requireMultiDomain env [res_node res, ic_node cfg] = Inr ()"
    and a: "snd (admit cfg env (pod_id_of pod) ref (bursts_at_ensure cfg env (state_of (refuseEarly cfg env pid ref) s))) = None"
    using assms by (rule materialize_creates)
  have caps: "ref_domain ref \<noteq> '''' \<longrightarrow>
      (\<forall>node \<in> {res_node res, ic_node cfg}. \<exists>caps. intent_nodeCapabilities env node = Inr caps \<and> nc_multiDomain caps)"
    using d requireMultiDomain_ok[of env "[res_node res, ic_node cfg]"] by simp
  have room: "has_room cfg env (om_uid (pod_meta pod)) (bursts_at_ensure cfg env (state_of (refuseEarly cfg env pid ref) s))"
    using admit_None[OF a] by (simp add: pod_id_of_def)
  have key: "objectKey (mir_meta m) = \<lparr>nn_namespace = om_namespace (pod_meta pod), nn_name = mirrorNameFor ref (ic_node cfg)\<rparr>"
    using m(1) by (simp add: intent_key_def)
  have claimed: "rd_pod rd \<lparr>nn_namespace = om_namespace (pod_meta pod), nn_name = om_name (pod_meta pod)\<rparr> = Inr found \<and>
       om_uid found = om_uid (pod_meta pod) \<and> claimFrom mcfg rd m = Inr j \<longrightarrow> j_ok j" for mcfg rd found j
    using m(1) wanted_mirror_claimed by blast
  show ?thesis
    using r e caps room claimed intent_provider_concrete[OF m(2)] key m(1)
    by (intro exI[of _ ref] exI[of _ res] exI[of _ pod] conjI)
      (simp_all add: intent_key_def)
qed

text \<open>C29. 
  The limit on bursts holds of the mirrors that requests really create: however many requests follow each other, and
  however the critical sections of others lie between theirs, no pod gets more mirrors created within a burst window
  than its burst. The shared history starts empty, and the clock does not go back from section to section.
\<close>

theorem requests_keep_the_burst:
  assumes "window_ok (ic_limits cfg)" "0 < lim_burst (ic_limits cfg)" "is_bursts s = no_bursts"
    and "list_all (\<lambda>(env, _). ie_duration env = show_duration) requests"
    and "times_run t (concat (map (\<lambda>(env, _). request_times env) requests))"
  shows "int (length (filter (\<lambda>at. start \<le> at \<and> at < start + lim_burstWindow (ic_limits cfg))
           (times_of uid (serve_all cfg M requests s)))) \<le> lim_burst (ic_limits cfg)"
proof -
  let ?lim = "ic_limits cfg"
  let ?in = "\<lambda>at. start \<le> at \<and> at < start + lim_burstWindow ?lim"
  obtain es where es: "subseq (map event_times es) (concat (map (\<lambda>(env, _). request_times env) requests))"
    "subseq (serve_all cfg M requests s) (snd (run_events ?lim show_duration es no_bursts))"
    using serve_all_events[of requests show_duration cfg M s] assms(3,4) by (fastforce simp: list_all_iff)
  have "clock_runs t es" using times_run_subseq[OF es(1) assms(5)] by (simp add: clock_runs_times)
  then have "within_burst ?lim ([] @ snd (run_events ?lim show_duration es no_bursts))"
    using assms(1,2) by (intro run_events_keeps) (simp_all add: remembered_def within_burst_def created_of_def no_bursts_def)
  then have "int (length (filter ?in (times_of uid (snd (run_events ?lim show_duration es no_bursts))))) \<le> lim_burst ?lim"
    by (simp add: within_burst_def)
  moreover have "length (filter ?in (times_of uid (serve_all cfg M requests s))) \<le>
      length (filter ?in (times_of uid (snd (run_events ?lim show_duration es no_bursts))))"
    by (rule list_emb_length[OF subseq_filter[OF subseq_times_of[OF es(2)]]])
  ultimately show ?thesis by linarith
qed

subsection \<open>What an answer means\<close>

text \<open>A get and a create answer the object that was asked for.\<close>

definition intent_api_faithful :: "intent_env \<Rightarrow> bool" where
  "intent_api_faithful env \<longleftrightarrow>
     (\<forall>at k m. ie_mirror env at k = Inr m \<longrightarrow> objectKey (mir_meta m) = k) \<and>
     (\<forall>k m. Inr m \<in> set (ie_polls env k) \<longrightarrow> objectKey (mir_meta m) = k) \<and>
     (\<forall>d m. ie_create env d = Inr m \<longrightarrow> objectKey (mir_meta m) = objectKey (mir_meta d))"

text \<open>The mirror under a key was read Ready, with the address of its target.\<close>

definition seen_ready :: "intent_env \<Rightarrow> NamespacedName \<Rightarrow> bool" where
  "seen_ready env k \<longleftrightarrow>
     (\<exists>m. Inr m \<in> set (ie_polls env k) \<and> objectKey (mir_meta m) = k \<and>
        mst_phase (mir_status m) = MxlFlowMirrorReady \<and> mst_targetInfo (mir_status m) \<noteq> '''')"

lemma wait_polls_ok:
  "wait_polls e rs = Inr () \<Longrightarrow> \<exists>m. Inr m \<in> set rs \<and> mst_phase (mir_status m) = MxlFlowMirrorReady \<and> mst_targetInfo (mir_status m) \<noteq> ''''"
  by (induction rs) (auto split: sum.splits if_splits)

lemma waitReady_ok: "intent_api_faithful env \<Longrightarrow> waitReady env m = Inr () \<Longrightarrow> seen_ready env (objectKey (mir_meta m))"
  unfolding waitReady_def seen_ready_def intent_api_faithful_def objectKey_def by (metis wait_polls_ok)

lemma ensureMirror_key:
  assumes "intent_api_faithful env" "answer_of (intent_ensureMirror cfg M env ref src pod) s = Inr m"
  shows "objectKey (mir_meta m) = intent_key cfg ref (om_namespace (pod_meta pod))"
proof -
  let ?k = "intent_key cfg ref (om_namespace (pod_meta pod))"
  have created: "objectKey (mir_meta m) = ?k" if "answer_of (create_admitted cfg env ref src p pod) s' = Inr m" for p s'
    using that assms(1)
    by (auto simp: create_admitted_def Let_def i_bind_answer intent_api_faithful_def wanted_mirror_def new_meta_def objectKey_def intent_key_def
        split: sum.splits if_splits)
  show ?thesis
  proof (cases "ie_mirror env AtEnsure ?k")
    case (Inr m0)
    with assms show ?thesis by (auto simp: intent_ensureMirror_def intent_api_faithful_def split: if_splits)
  next
    case (Inl e)
    with assms(2) created show ?thesis
      by (auto simp: intent_ensureMirror_def i_bind_answer split: if_splits sum.splits option.splits)
  qed
qed

text \<open>C31. 
  A request that is answered without an error left the flow within reach: it is in its directory on the node, and not as
  a placeholder, or the node is its origin, or its mirror to this node, under the name made of the flow and the node in
  the namespace of the pod that asked, was read Ready with the address of its target.
\<close>

theorem answered_means_available:
  assumes "intent_api_faithful env" "snd (snd (materialize cfg M env pid path s)) = Inr ()"
  shows "\<exists>ref. flowRef (ie_domains env AtPath) (ic_domainPath cfg) path = Some ref \<and>
    (flowExistsLocally cfg env AtMain ref \<or>
     (\<exists>res. intent_resolveSourceNode env AtMain ref = Inr res \<and> res_found res \<and> res_node res = ic_node cfg) \<or>
     (\<exists>pod. ie_pod env pid = Inr pod \<and>
        seen_ready env \<lparr>nn_namespace = om_namespace (pod_meta pod), nn_name = mirrorNameFor ref (ic_node cfg)\<rparr>))"
proof -
  obtain ref where ref: "flowRef (ie_domains env AtPath) (ic_domainPath cfg) path = Some ref"
    "answer_of (materialize_ref cfg M env pid ref) s = Inr ()"
    using assms(2) log_refusal_simps(3)[of env ClockPath path s] by (auto simp: materialize_def i_bind_answer split: option.splits sum.splits)
  then have "flowExistsLocally cfg env AtMain ref \<or>
     (\<exists>res. intent_resolveSourceNode env AtMain ref = Inr res \<and> res_found res \<and> res_node res = ic_node cfg) \<or>
     (\<exists>src pod s' m. ie_pod env pid = Inr pod \<and> answer_of (intent_ensureMirror cfg M env ref src pod) s' = Inr m \<and> waitReady env m = Inr ())"
    by (cases "intent_resolveSourceNode env AtMain ref"; cases "ie_pod env pid")
      (auto simp: materialize_ref_def i_bind_answer split: sum.splits if_splits)
  then show ?thesis
  proof (elim disjE exE conjE)
    fix src pod s' m
    assume m: "ie_pod env pid = Inr pod" "answer_of (intent_ensureMirror cfg M env ref src pod) s' = Inr m" "waitReady env m = Inr ()"
    from waitReady_ok[OF assms(1) m(3)] have "seen_ready env (intent_key cfg ref (om_namespace (pod_meta pod)))"
      unfolding ensureMirror_key[OF assms(1) m(2)] .
    with ref(1) m(1) show ?thesis unfolding intent_key_def by blast
  qed (use ref(1) in blast)+
qed

subsection \<open>On concrete objects\<close>

definition example_reader_pod :: Pod where
  "example_reader_pod = \<lparr>pod_meta = (witness_meta ''viewer'')\<lparr>om_namespace := ''studio'', om_uid := ''u1''\<rparr>, pod_nodeName = ''node-b''\<rparr>"

definition example_intent_config :: intent_config where
  "example_intent_config = \<lparr>ic_node = ''node-b'', ic_domainPath = ''/run/mxl/domain'', ic_provider = ProviderTCP, ic_limits = example_limits,
     ic_flowChecker = None, ic_own = None, ic_origin = True\<rparr>"

definition ready_mirror :: MxlFlowMirror where
  "ready_mirror = (witness_mirror ''a--node-b'')\<lparr>mir_meta := (witness_meta ''a--node-b'')\<lparr>om_namespace := ''studio''\<rparr>,
     mir_status := new_mirror_status\<lparr>mst_phase := MxlFlowMirrorReady, mst_targetInfo := ''addr''\<rparr>\<rparr>"

definition example_intent_env :: "time \<Rightarrow> intent_env" where
  "example_intent_env now = \<lparr>ie_domains = (\<lambda>_. None), ie_listed = (\<lambda>_ _ _. False), ie_stat = (\<lambda>_ _. False), ie_uid = None,
     ie_pod = (\<lambda>_. Inr example_reader_pod),
     ie_flow = (\<lambda>_ _. Inr (moved_flow ''node-a'')),
     ie_lease = (\<lambda>_. None), ie_mirror = (\<lambda>_ _. Inl ENotFound), ie_caps = (\<lambda>_. Inl ENotFound), ie_onDemand = (\<lambda>_. Inr []),
     ie_create = (\<lambda>m. Inr m), ie_polls = (\<lambda>k. if k = objectKey (mir_meta ready_mirror) then [Inl ENotFound, Inr ready_mirror] else []), ie_ctxErr = EOther ''deadline'', ie_claim = (\<lambda>_. Inr ()),
     ie_clock = (\<lambda>_. now), ie_between = (\<lambda>_. []), ie_quote = id, ie_duration = (\<lambda>_. ''10s'')\<rparr>"

definition idle_state :: intent_state where
  "idle_state = \<lparr>is_bursts = no_bursts, is_refusals = (\<lambda>_. None)\<rparr>"

definition example_path :: string where
  "example_path = ''/run/mxl/domain/a.mxl-flow/data''"

lemma example_path_flow: "flowRef None ''/run/mxl/domain'' example_path = Some \<lparr>ref_domain = '''', ref_id = ''a''\<rparr>"
  by (simp add: example_path_def flowRef_def flowIDFromPath_def rel_def clean_def cleaned_def is_rooted_def join_with_def
      hasPrefix_def cutSuffix_def flowDirSuffix_def)

lemma example_mirror_name: "mirrorNameFor \<lparr>ref_domain = '''', ref_id = ''a''\<rparr> ''node-b'' = ''a--node-b''"
  by code_simp

lemma example_intent_api: "intent_api_faithful (example_intent_env now)"
  by (auto simp: intent_api_faithful_def example_intent_env_def split: if_splits)

lemma example_request:
  "materialize example_intent_config list_meta_api (example_intent_env now) 7 example_path idle_state =
     ([CreateIntentMirror (wanted_mirror example_intent_config \<lparr>ref_domain = '''', ref_id = ''a''\<rparr> ''node-a'' ProviderTCP example_reader_pod)],
      idle_state\<lparr>is_bursts := no_bursts(''u1'' \<mapsto> \<lparr>b_pod = pod_id_of example_reader_pod, b_created = [now], b_waiting = []\<rparr>)\<rparr>, Inr ())"
  by (simp add: materialize_def materialize_ref_def example_path_flow example_intent_config_def example_intent_env_def
      refuseEarly_def flowExistsLocally_def domainDir_def intent_resolveSourceNode_def resolveOrigin_def moved_flow_def witness_flow_def no_origin_def
      own_pod_def intent_ensureMirror_def intent_resolveProvider_def on_bursts_def admit_def admit_burst_def pruneBursts_def
      burstRefusal_def example_limits_def countRefusal_def create_admitted_def i_bind_def i_within_def idle_state_def no_bursts_def
      pod_id_of_def example_reader_pod_def witness_meta_def Let_def note_created_def waitReady_def ready_mirror_def objectKey_def wanted_mirror_def new_meta_def
      example_mirror_name)

abbreviation example_wanted :: MxlFlowMirror where
  "example_wanted \<equiv> wanted_mirror example_intent_config \<lparr>ref_domain = '''', ref_id = ''a''\<rparr> ''node-a'' ProviderTCP example_reader_pod"

theorem on_demand_mirror_is_needed_witness:
  "CreateIntentMirror example_wanted
     \<in> set (fst (materialize example_intent_config list_meta_api (example_intent_env 100) 7 example_path idle_state)) \<and>
   (\<exists>ref res pod. flowRef None ''/run/mxl/domain'' example_path = Some ref \<and>
      intent_resolveSourceNode (example_intent_env 100) AtMain ref = Inr res \<and> res_node res \<noteq> ''node-b'' \<and>
      ms_sourceNode (mir_spec example_wanted) = res_node res \<and> ie_pod (example_intent_env 100) 7 = Inr pod \<and>
      has_room example_intent_config (example_intent_env 100) (om_uid (pod_meta pod))
        (bursts_at_ensure example_intent_config (example_intent_env 100)
          (fst (snd (refuseEarly example_intent_config (example_intent_env 100) 7 ref idle_state)))))"
proof -
  let ?c = "example_intent_config" and ?e = "example_intent_env 100"
  have w: "CreateIntentMirror example_wanted \<in> set (fst (materialize ?c list_meta_api ?e 7 example_path idle_state))"
    by (simp add: example_request)
  have c: "ie_domains ?e AtPath = None" "ic_domainPath ?c = ''/run/mxl/domain''" "ic_node ?c = ''node-b''"
    by (simp_all add: example_intent_env_def example_intent_config_def)
  from on_demand_mirror_is_needed[OF w, unfolded c] w show ?thesis by blast
qed

theorem answered_means_available_witness:
  "snd (snd (materialize example_intent_config list_meta_api (example_intent_env 100) 7 example_path idle_state)) = Inr () \<and>
   seen_ready (example_intent_env 100) \<lparr>nn_namespace = ''studio'', nn_name = ''a--node-b''\<rparr>"
proof -
  let ?c = "example_intent_config" and ?e = "example_intent_env 100" and ?ref = "\<lparr>ref_domain = '''', ref_id = ''a''\<rparr>"
  have a: "snd (snd (materialize ?c list_meta_api ?e 7 example_path idle_state)) = Inr ()" by (simp add: example_request)
  have c: "ie_domains ?e AtPath = None" "ic_domainPath ?c = ''/run/mxl/domain''" "ic_node ?c = ''node-b''"
    "ie_pod ?e 7 = Inr example_reader_pod" "om_namespace (pod_meta example_reader_pod) = ''studio''"
    by (simp_all add: example_intent_env_def example_intent_config_def example_reader_pod_def)
  have "\<not> flowExistsLocally ?c ?e AtMain ?ref" "\<forall>res. intent_resolveSourceNode ?e AtMain ?ref = Inr res \<longrightarrow> res_node res = ''node-a''"
    by (simp_all add: flowExistsLocally_def domainDir_def example_intent_env_def example_intent_config_def intent_resolveSourceNode_def
        resolveOrigin_def moved_flow_def witness_flow_def no_origin_def)
  then show ?thesis
    using answered_means_available[OF example_intent_api a] a unfolding c example_path_flow by (auto simp: c example_mirror_name)
qed

theorem requests_keep_the_burst_witness:
  "creations (example_intent_env 100)
     (fst (materialize example_intent_config list_meta_api (example_intent_env 100) 7 example_path idle_state)) = [(''u1'', 100)] \<and>
   int (length (filter (\<lambda>at. 100 \<le> at \<and> at < 100 + lim_burstWindow (ic_limits example_intent_config))
     (times_of ''u1'' (serve_all example_intent_config list_meta_api
        (map (\<lambda>now. (example_intent_env now, 7, example_path)) [100, 102, 104]) idle_state))))
     \<le> lim_burst (ic_limits example_intent_config)"
proof
  show "creations (example_intent_env 100)
     (fst (materialize example_intent_config list_meta_api (example_intent_env 100) 7 example_path idle_state)) = [(''u1'', 100)]"
    unfolding example_request
    by (simp add: creation_of_def) (simp add: example_intent_env_def example_reader_pod_def)
  show "int (length (filter (\<lambda>at. 100 \<le> at \<and> at < 100 + lim_burstWindow (ic_limits example_intent_config))
     (times_of ''u1'' (serve_all example_intent_config list_meta_api
        (map (\<lambda>now. (example_intent_env now, 7, example_path)) [100, 102, 104]) idle_state))))
     \<le> lim_burst (ic_limits example_intent_config)"
    by (rule requests_keep_the_burst[where show_duration = "\<lambda>_. ''10s''" and t = 100])
      (simp_all add: window_ok_def example_intent_config_def example_limits_def idle_state_def example_intent_env_def request_times_def)
qed

end
