(* ===== verification/Intent_Handover.thy ===== *)
theory Intent_Handover
  imports Intent_Dispatch Mirror_Lifecycle "HOL-Library.Product_Lexorder"
begin

section \<open>Handing a mirror on demand to a pod that still reads it (agent/internal/intent/handover.go)\<close>

text \<open>
  A mirror made on demand is claimed by the pod that asked for it. A pod that opens the flow later never asks, so a sweep
  names a pod that maps the flow as the requestor of each mirror whose requestor does not. Here are the sweep and the
  choice among the readers. Shown: what a hand-over presupposes, and that the choice is the first in the documented
  order, the same for every order in which the API server lists the pods. That argument is the locale \<open>preference\<close>,
  interpreted on the comparison of the source.
\<close>

subsection \<open>A loop that keeps the best\<close>

text \<open>\<open>keep_best\<close> is the loop of \<^verbatim>\<open>reader\<close>: the first eligible element, replaced by each eligible one that comes before it.\<close>

fun keep_best :: "('a \<Rightarrow> bool) \<Rightarrow> ('a \<Rightarrow> 'a \<Rightarrow> bool) \<Rightarrow> 'a list \<Rightarrow> 'a option \<Rightarrow> 'a option" where
  "keep_best ok better [] best = best"
| "keep_best ok better (x # xs) best =
     (if \<not> ok x then keep_best ok better xs best
      else keep_best ok better xs (case best of None \<Rightarrow> Some x | Some b \<Rightarrow> if better x b then Some x else Some b))"

locale preference =
  fixes better :: "'a \<Rightarrow> 'a \<Rightarrow> bool" and key :: "'a \<Rightarrow> 'k"
  assumes better_irrefl: "\<not> better x x"
    and better_trans: "better x y \<Longrightarrow> better y z \<Longrightarrow> better x z"
    and better_weak: "better x z \<Longrightarrow> better x y \<or> better y z"
    and better_total: "key x \<noteq> key y \<Longrightarrow> better x y \<or> better y x"
begin

lemma keep_best_from:
  "ok b \<Longrightarrow> \<exists>x. keep_best ok better xs (Some b) = Some x \<and> x \<in> insert b (set xs) \<and> ok x \<and>
     (\<forall>y \<in> insert b (set xs). ok y \<longrightarrow> \<not> better y x)"
proof (induction xs arbitrary: b)
  case Nil
  then show ?case by (simp add: better_irrefl)
next
  case (Cons a xs)
  consider (skip) "\<not> ok a" | (take) "ok a" "better a b" | (keep) "ok a" "\<not> better a b" by blast
  then show ?case
  proof cases
    case skip
    then show ?thesis using Cons.IH[OF Cons.prems] by auto
  next
    case take
    then obtain x where x: "keep_best ok better xs (Some a) = Some x" "x \<in> insert a (set xs)" "ok x"
      "\<forall>y \<in> insert a (set xs). ok y \<longrightarrow> \<not> better y x" using Cons.IH[of a] by blast
    then have "\<not> better b x" using take better_trans by blast
    then show ?thesis using x take by auto
  next
    case keep
    obtain x where x: "keep_best ok better xs (Some b) = Some x" "x \<in> insert b (set xs)" "ok x"
      "\<forall>y \<in> insert b (set xs). ok y \<longrightarrow> \<not> better y x" using Cons.IH[OF Cons.prems] by blast
    have "\<not> better a x" using x(4) keep(2) Cons.prems better_weak[of a x b] by blast
    then show ?thesis using x keep by auto
  qed
qed

text \<open>The loop ends with an eligible element that none comes before, if there is an eligible one.\<close>

lemma keep_best_least:
  "keep_best ok better xs None = Some x \<Longrightarrow> x \<in> set xs \<and> ok x \<and> (\<forall>y \<in> set xs. ok y \<longrightarrow> \<not> better y x)"
proof (induction xs)
  case (Cons a xs)
  then show ?case using keep_best_from[of ok a xs] by (cases "ok a") auto
qed simp

lemma keep_best_none: "keep_best ok better xs None = None \<longleftrightarrow> (\<forall>x \<in> set xs. \<not> ok x)"
proof (induction xs)
  case (Cons a xs)
  then show ?case using keep_best_from[of ok a xs] by (cases "ok a") auto
qed simp

text \<open>With distinct keys it is the only one, so the order of the list does not matter.\<close>

lemma keep_best_order_free:
  assumes "distinct (map key xs)" "set ys = set xs"
  shows "keep_best ok better ys None = keep_best ok better xs None"
proof (cases "keep_best ok better xs None")
  case None
  then show ?thesis using keep_best_none[of ok xs] keep_best_none[of ok ys] assms(2) by simp
next
  case (Some x)
  note x = keep_best_least[OF Some]
  obtain y where y: "keep_best ok better ys None = Some y"
    using Some keep_best_none[of ok xs] keep_best_none[of ok ys] assms(2) by (cases "keep_best ok better ys None") auto
  note y' = keep_best_least[OF y]
  have "key x = key y" using better_total[of x y] x y' assms(2) by blast
  then have "x = y" using assms x y' by (auto simp: distinct_map inj_on_def)
  then show ?thesis using Some y by simp
qed

end

subsection \<open>The readers of a flow\<close>

datatype Direction = DirInput | DirOutput

record Use =
  use_domain :: string
  use_flowID :: string
  use_direction :: Direction

text \<open>\<open>uses\<close> lists the pod UIDs with the flows their processes map. The pods that map the flow of a mirror, by its name:\<close>

definition reads_mirror :: "string \<Rightarrow> string \<Rightarrow> Use \<Rightarrow> bool" where
  "reads_mirror node name u \<longleftrightarrow>
     use_direction u = DirInput \<and> mirrorNameFor \<lparr>ref_domain = use_domain u, ref_id = use_flowID u\<rparr> node = name"

definition readers :: "string \<Rightarrow> (string \<times> Use list) list \<Rightarrow> string \<Rightarrow> string list" where
  "readers node uses name = concat (map (\<lambda>(uid, us). map (\<lambda>_. uid) (filter (reads_mirror node name) us)) uses)"

definition before :: "string \<Rightarrow> Pod \<Rightarrow> Pod \<Rightarrow> bool" where
  "before ns a b =
     (let ma = pod_meta a; mb = pod_meta b
      in if (om_namespace ma = ns) \<noteq> (om_namespace mb = ns) then om_namespace ma = ns
         else if om_creationTimestamp ma \<noteq> om_creationTimestamp mb then om_creationTimestamp ma < om_creationTimestamp mb
         else if om_namespace ma \<noteq> om_namespace mb then om_namespace ma < om_namespace mb
         else om_name ma < om_name mb)"

definition may_take :: "intent_config \<Rightarrow> string list \<Rightarrow> Pod \<Rightarrow> bool" where
  "may_take cfg uids p \<longleftrightarrow>
     om_uid (pod_meta p) \<in> set uids \<and> om_deletionTimestamp (pod_meta p) = 0 \<and> pod_nodeName p = ic_node cfg \<and> \<not> own_pod cfg p"

definition reader :: "intent_config \<Rightarrow> string \<Rightarrow> string list \<Rightarrow> Pod list \<Rightarrow> Pod option" where
  "reader cfg ns uids pods = keep_best (may_take cfg uids) (before ns) pods None"

definition pod_key :: "Pod \<Rightarrow> string \<times> string" where
  "pod_key p = (om_namespace (pod_meta p), om_name (pod_meta p))"

definition pod_rank :: "string \<Rightarrow> Pod \<Rightarrow> bool \<times> time \<times> string \<times> string" where
  "pod_rank ns p = (om_namespace (pod_meta p) \<noteq> ns, om_creationTimestamp (pod_meta p), pod_key p)"

lemma before_rank: "before ns a b \<longleftrightarrow> pod_rank ns a < pod_rank ns b"
  unfolding before_def pod_rank_def pod_key_def Let_def less_prod_simp
  by (cases "om_namespace (pod_meta a) = ns"; cases "om_namespace (pod_meta b) = ns"; auto)

interpretation handover: preference "before ns" pod_key for ns
proof
  show "\<not> before ns x x" for x by (simp add: before_rank)
  show "before ns x z" if "before ns x y" "before ns y z" for x y z using that unfolding before_rank by (rule less_trans)
  show "before ns x y \<or> before ns y z" if "before ns x z" for x y z
    using that unfolding before_rank by (meson le_less_trans not_le)
  show "before ns x y \<or> before ns y x" if "pod_key x \<noteq> pod_key y" for x y
    using that unfolding before_rank by (metis linorder_neqE pod_rank_def prod.inject)
qed

subsection \<open>The sweep\<close>

datatype handover_write = PatchRequestor NamespacedName string PodRef

record handover_env =
  he_listed :: "string \<Rightarrow> go_error + ObjectMeta list"
  he_scan :: "go_error + (string \<times> Use list) list"
  he_mirror :: "NamespacedName \<Rightarrow> go_error + MxlFlowMirror"
  he_pods :: "NamespacedName \<Rightarrow> go_error + Pod list"
  he_nilItems :: bool
  he_patch :: "NamespacedName \<Rightarrow> string \<Rightarrow> PodRef \<Rightarrow> go_error + unit"

definition pod_ref_of :: "Pod \<Rightarrow> PodRef" where
  "pod_ref_of p = \<lparr>pr_name = om_name (pod_meta p), pr_namespace = om_namespace (pod_meta p), pr_uid = om_uid (pod_meta p)\<rparr>"

text \<open>The patch carries the version the mirror was read at; the server applies it to that version or not at all.\<close>

definition hand_over :: "handover_env \<Rightarrow> MxlFlowMirror \<Rightarrow> Pod \<Rightarrow> handover_write list \<times> go_error list" where
  "hand_over env m pod =
     (let key = objectKey (mir_meta m); v = om_resourceVersion (mir_meta m); p = pod_ref_of pod
      in ([PatchRequestor key v p],
          case he_patch env key v p of
            Inr _ \<Rightarrow> []
          | Inl e \<Rightarrow> if isNotFound e \<or> isConflict e then []
                     else [EWrap (''hand mirror '' @ nn_namespace key @ ''/'' @ nn_name key @ '' to '' @ pr_namespace p @ ''/'' @ pr_name p) e]))"

text \<open>Whether a mirror is passed over: nobody reads it, it is going away, or its requestor reads it.\<close>

definition passed_over :: "string list \<Rightarrow> ObjectMeta \<Rightarrow> bool" where
  "passed_over uids meta \<longleftrightarrow>
     uids = [] \<or> om_deletionTimestamp meta \<noteq> 0 \<or> label_value (om_labels meta) LabelRequestorPodUID \<in> set uids"

definition not_ours :: "intent_config \<Rightarrow> string list \<Rightarrow> MxlFlowMirror \<Rightarrow> bool" where
  "not_ours cfg uids m \<longleftrightarrow>
     ms_targetNode (mir_spec m) \<noteq> ic_node cfg \<or>
     (case ms_requestor (mir_spec m) of None \<Rightarrow> True | Some r \<Rightarrow> pr_uid r \<in> set uids)"

text \<open>The pods of the node are listed at the first mirror that needs them; \<open>he_nilItems\<close> says whether a list without
  pods decodes to the nil slice, which the code takes as not listed yet.\<close>

fun sweep :: "intent_config \<Rightarrow> handover_env \<Rightarrow> (string \<times> Use list) list \<Rightarrow> Pod list option \<Rightarrow> ObjectMeta list \<Rightarrow>
    handover_write list \<times> go_error list" where
  "sweep cfg env uses pods [] = ([], [])"
| "sweep cfg env uses pods (meta # metas) =
     (let uids = readers (ic_node cfg) uses (om_name meta); key = objectKey meta
      in if passed_over uids meta then sweep cfg env uses pods metas
         else case he_mirror env key of
                Inl e \<Rightarrow>
                  (case sweep cfg env uses pods metas of (ws, errs) \<Rightarrow>
                     (ws, if isNotFound e then errs
                          else EWrap (''get mirror '' @ nn_namespace key @ ''/'' @ nn_name key) e # errs))
              | Inr m \<Rightarrow>
                  if not_ours cfg uids m then sweep cfg env uses pods metas
                  else case (case pods of Some ps \<Rightarrow> Inr ps | None \<Rightarrow> he_pods env key) of
                         Inl e \<Rightarrow> ([], [EWrap ''list pods'' e])
                       | Inr ps \<Rightarrow>
                           let pods' = (if ps = [] \<and> he_nilItems env then None else Some ps)
                           in case reader cfg (om_namespace (mir_meta m)) uids ps of
                                None \<Rightarrow> sweep cfg env uses pods' metas
                              | Some next \<Rightarrow>
                                  (case hand_over env m next of (ws, errs) \<Rightarrow>
                                   case sweep cfg env uses pods' metas of (ws', errs') \<Rightarrow> (ws @ ws', errs @ errs')))"

definition handOver :: "intent_config \<Rightarrow> handover_env \<Rightarrow> handover_write list \<times> go_error list" where
  "handOver cfg env =
     (case he_listed env (ic_node cfg) of
        Inl e \<Rightarrow> ([], [EWrap ''list on-demand mirrors'' e])
      | Inr metas \<Rightarrow>
          if \<not> list_ex (\<lambda>m. om_deletionTimestamp m = 0) metas then ([], [])
          else case he_scan env of
                 Inl e \<Rightarrow> ([], [EWrap ''scan flow use'' e])
               | Inr uses \<Rightarrow> sweep cfg env uses None metas)"

subsection \<open>What a hand-over presupposes\<close>

definition handed :: "intent_config \<Rightarrow> handover_env \<Rightarrow> (string \<times> Use list) list \<Rightarrow> Pod list \<Rightarrow> ObjectMeta \<Rightarrow> handover_write \<Rightarrow> bool" where
  "handed cfg env uses pods meta w \<longleftrightarrow>
     (\<exists>m pod. let uids = readers (ic_node cfg) uses (om_name meta)
       in om_deletionTimestamp meta = 0 \<and> label_value (om_labels meta) LabelRequestorPodUID \<notin> set uids \<and>
          he_mirror env (objectKey meta) = Inr m \<and> ms_targetNode (mir_spec m) = ic_node cfg \<and>
          (\<exists>r. ms_requestor (mir_spec m) = Some r \<and> pr_uid r \<notin> set uids) \<and>
          w = PatchRequestor (objectKey (mir_meta m)) (om_resourceVersion (mir_meta m)) (pod_ref_of pod) \<and>
          pod \<in> set pods \<and> may_take cfg uids pod \<and>
          (\<forall>q \<in> set pods. may_take cfg uids q \<longrightarrow> \<not> before (om_namespace (mir_meta m)) q pod))"

definition pods_listed :: "handover_env \<Rightarrow> Pod list \<Rightarrow> bool" where
  "pods_listed env ps \<longleftrightarrow> (\<exists>key. he_pods env key = Inr ps)"

lemma sweep_writes:
  "w \<in> set (fst (sweep cfg env uses pods metas)) \<Longrightarrow> (case pods of None \<Rightarrow> True | Some ps \<Rightarrow> pods_listed env ps) \<Longrightarrow>
   \<exists>meta \<in> set metas. \<exists>ps. pods_listed env ps \<and> handed cfg env uses ps meta w"
proof (induction metas arbitrary: pods)
  case (Cons meta metas)
  let ?uids = "readers (ic_node cfg) uses (om_name meta)" and ?key = "objectKey meta"
  have later: "\<exists>meta' \<in> set (meta # metas). \<exists>ps. pods_listed env ps \<and> handed cfg env uses ps meta' w"
    if "w \<in> set (fst (sweep cfg env uses pods' metas))" "case pods' of None \<Rightarrow> True | Some ps \<Rightarrow> pods_listed env ps" for pods'
    using Cons.IH[OF that] by auto
  show ?case
  proof (cases "passed_over ?uids meta")
    case True
    then show ?thesis using Cons.prems later[of pods] by simp
  next
    case False
    show ?thesis
    proof (cases "he_mirror env ?key")
      case (Inl e)
      then show ?thesis using False Cons.prems later[of pods] by (simp add: Let_def case_prod_beta)
    next
      case (Inr m)
      show ?thesis
      proof (cases "not_ours cfg ?uids m")
        case True
        then show ?thesis using False Inr Cons.prems later[of pods] by (simp add: Let_def)
      next
        case ours: False
        show ?thesis
        proof (cases "case pods of Some ps \<Rightarrow> Inr ps | None \<Rightarrow> he_pods env ?key")
          case (Inl e)
          then show ?thesis using False Inr ours Cons.prems by (simp add: Let_def)
        next
          case ps: (Inr ps)
          then have listed: "pods_listed env ps" using Cons.prems(2) by (auto simp: pods_listed_def split: option.splits)
          let ?pods = "if ps = [] \<and> he_nilItems env then None else Some ps"
          have known: "case ?pods of None \<Rightarrow> True | Some ps \<Rightarrow> pods_listed env ps" using listed by simp
          show ?thesis
          proof (cases "reader cfg (om_namespace (mir_meta m)) ?uids ps")
            case None
            then show ?thesis using False Inr ours ps Cons.prems(1) later[OF _ known] by (simp add: Let_def)
          next
            case (Some pod)
            then consider "w = PatchRequestor (objectKey (mir_meta m)) (om_resourceVersion (mir_meta m)) (pod_ref_of pod)"
              | "w \<in> set (fst (sweep cfg env uses ?pods metas))"
              using False Inr ours ps Cons.prems(1) by (auto simp: Let_def case_prod_beta hand_over_def)
            then show ?thesis
            proof cases
              case 1
              have "handed cfg env uses ps meta w"
                using 1 False Inr ours handover.keep_best_least[OF Some[unfolded reader_def]]
                by (auto simp: handed_def Let_def passed_over_def not_ours_def split: option.splits)
              then show ?thesis using listed by auto
            next
              case 2
              then show ?thesis using later[OF _ known] by blast
            qed
          qed
        qed
      qed
    qed
  qed
qed simp

text \<open>The server applies the patch: requestor and label are the pod's.\<close>

definition with_requestor :: "MxlFlowMirror \<Rightarrow> PodRef \<Rightarrow> MxlFlowMirror" where
  "with_requestor m p =
     m\<lparr>mir_meta := (mir_meta m)\<lparr>om_labels :=
          (LabelRequestorPodUID, pr_uid p) # filter (\<lambda>(k, _). k \<noteq> LabelRequestorPodUID) (om_labels (mir_meta m))\<rparr>,
       mir_spec := (mir_spec m)\<lparr>ms_requestor := Some p\<rparr>\<rparr>"

lemma with_requestor_claimed:
  assumes "rd_pod rd \<lparr>nn_namespace = pr_namespace p, nn_name = pr_name p\<rparr> = Inr found" "om_uid found = pr_uid p"
    "claimFrom mcfg rd (with_requestor m p) = Inr j"
  shows "j_ok j"
  using assms claimFrom_spec[OF assms(3)] by (simp add: claimed_by_def pod_claims_def with_requestor_def)

subsection \<open>Properties\<close>

text \<open>
  A sweep hands a mirror over only when its requestor has stopped reading it, and only to a pod that reads it. The mirror
  was made on demand for this node and is not going away; neither its label nor its spec names a pod that maps the flow;
  the patch is bound to the version read. The pod maps the flow, runs on the node, is not going away and not one of
  mxl-k8s's own, and no other such pod comes before it: one in the mirror's namespace first, then the longest running.
  With the patch applied the mirror controller finds the mirror claimed while that pod is there.
\<close>

theorem handed_over_to_a_reader:
  assumes "PatchRequestor key version p \<in> set (fst (handOver cfg env))"
  shows "\<exists>metas uses meta m pods pod. he_listed env (ic_node cfg) = Inr metas \<and> meta \<in> set metas \<and> om_deletionTimestamp meta = 0 \<and>
    he_scan env = Inr uses \<and> he_mirror env (objectKey meta) = Inr m \<and> ms_targetNode (mir_spec m) = ic_node cfg \<and>
    key = objectKey (mir_meta m) \<and> version = om_resourceVersion (mir_meta m) \<and> p = pod_ref_of pod \<and>
    (\<exists>r. ms_requestor (mir_spec m) = Some r \<and> pr_uid r \<notin> set (readers (ic_node cfg) uses (om_name meta))) \<and>
    label_value (om_labels meta) LabelRequestorPodUID \<notin> set (readers (ic_node cfg) uses (om_name meta)) \<and>
    (\<exists>at. he_pods env at = Inr pods) \<and> pod \<in> set pods \<and> may_take cfg (readers (ic_node cfg) uses (om_name meta)) pod \<and>
    list_all (\<lambda>q. may_take cfg (readers (ic_node cfg) uses (om_name meta)) q \<longrightarrow> \<not> before (om_namespace (mir_meta m)) q pod) pods \<and>
    (\<forall>mcfg rd found j. rd_pod rd \<lparr>nn_namespace = pr_namespace p, nn_name = pr_name p\<rparr> = Inr found \<and> om_uid found = pr_uid p \<and>
       claimFrom mcfg rd (with_requestor m p) = Inr j \<longrightarrow> j_ok j)"
proof -
  obtain metas uses where l: "he_listed env (ic_node cfg) = Inr metas" "he_scan env = Inr uses"
    "PatchRequestor key version p \<in> set (fst (sweep cfg env uses None metas))"
    using assms by (auto simp: handOver_def split: sum.splits if_splits)
  obtain meta ps where h: "meta \<in> set metas" "pods_listed env ps" "handed cfg env uses ps meta (PatchRequestor key version p)"
    using sweep_writes[OF l(3)] by auto
  from h(3) obtain m pod where m: "om_deletionTimestamp meta = 0"
    "label_value (om_labels meta) LabelRequestorPodUID \<notin> set (readers (ic_node cfg) uses (om_name meta))"
    "he_mirror env (objectKey meta) = Inr m" "ms_targetNode (mir_spec m) = ic_node cfg"
    "\<exists>r. ms_requestor (mir_spec m) = Some r \<and> pr_uid r \<notin> set (readers (ic_node cfg) uses (om_name meta))"
    "key = objectKey (mir_meta m)" "version = om_resourceVersion (mir_meta m)" "p = pod_ref_of pod"
    "pod \<in> set ps" "may_take cfg (readers (ic_node cfg) uses (om_name meta)) pod"
    "\<forall>q \<in> set ps. may_take cfg (readers (ic_node cfg) uses (om_name meta)) q \<longrightarrow> \<not> before (om_namespace (mir_meta m)) q pod"
    unfolding handed_def Let_def by blast
  show ?thesis
    using l(1,2) h(1) m h(2)[unfolded pods_listed_def] with_requestor_claimed
    by (intro exI[of _ metas] exI[of _ uses] exI[of _ meta] exI[of _ m] exI[of _ ps] exI[of _ pod] conjI)
      (blast | simp add: list_all_iff)+
qed

text \<open>
  Successive sweeps agree on the reader: the choice is the same for every order in which the pods of the node are
  listed.
\<close>

theorem reader_is_order_free:
  assumes "distinct (map pod_key pods)" "set pods' = set pods"
  shows "reader cfg ns uids pods' = reader cfg ns uids pods"
  unfolding reader_def by (rule handover.keep_best_order_free[OF assms])

subsection \<open>On concrete objects\<close>

definition reading_pod :: "string \<Rightarrow> string \<Rightarrow> time \<Rightarrow> Pod" where
  "reading_pod ns name since =
     \<lparr>pod_meta = (witness_meta name)\<lparr>om_namespace := ns, om_uid := name, om_creationTimestamp := since\<rparr>, pod_nodeName = ''b''\<rparr>"

definition handover_config :: intent_config where
  "handover_config = \<lparr>ic_node = ''b'', ic_domainPath = ''/run/mxl/domain'', ic_provider = ProviderAuto, ic_limits = example_limits,
     ic_flowChecker = None, ic_own = None, ic_origin = True\<rparr>"

definition orphaned_mirror :: MxlFlowMirror where
  "orphaned_mirror = (witness_mirror (mirrorNameFor \<lparr>ref_domain = '''', ref_id = ''f''\<rparr> ''b''))\<lparr>mir_spec :=
     (mir_spec (witness_mirror ''m''))\<lparr>ms_requestor := Some \<lparr>pr_name = ''gone'', pr_namespace = ''ns'', pr_uid = ''gone''\<rparr>\<rparr>\<rparr>"

definition handover_example :: handover_env where
  "handover_example = \<lparr>he_listed = (\<lambda>_. Inr [mir_meta orphaned_mirror]),
     he_scan = Inr [(''p1'', [\<lparr>use_domain = '''', use_flowID = ''f'', use_direction = DirInput\<rparr>]),
                    (''p2'', [\<lparr>use_domain = '''', use_flowID = ''f'', use_direction = DirInput\<rparr>])],
     he_mirror = (\<lambda>_. Inr orphaned_mirror), he_pods = (\<lambda>_. Inr [reading_pod ''other'' ''p1'' 5, reading_pod ''ns'' ''p2'' 9]),
     he_nilItems = False, he_patch = (\<lambda>_ _ _. Inr ())\<rparr>"

lemma handover_example_patch:
  "handOver handover_config handover_example =
     ([PatchRequestor (objectKey (mir_meta orphaned_mirror)) ''1'' (pod_ref_of (reading_pod ''ns'' ''p2'' 9))], [])"
  by (simp add: handOver_def handover_example_def handover_config_def orphaned_mirror_def witness_mirror_def witness_meta_def
      readers_def reads_mirror_def passed_over_def not_ours_def reader_def may_take_def own_pod_def before_def hand_over_def
      reading_pod_def label_value_def objectKey_def Let_def)

theorem handed_over_to_a_reader_witness:
  "\<exists>uses (meta :: ObjectMeta) pods pod. he_scan handover_example = Inr uses \<and> (\<exists>at. he_pods handover_example at = Inr pods) \<and> pod \<in> set pods \<and>
     pod_ref_of pod = pod_ref_of (reading_pod ''ns'' ''p2'' 9) \<and>
     may_take handover_config (readers (ic_node handover_config) uses (om_name meta)) pod"
proof -
  have w: "PatchRequestor (objectKey (mir_meta orphaned_mirror)) ''1'' (pod_ref_of (reading_pod ''ns'' ''p2'' 9))
      \<in> set (fst (handOver handover_config handover_example))" by (simp add: handover_example_patch)
  from handed_over_to_a_reader[OF w] show ?thesis by (elim exE conjE) (intro exI conjI, assumption+, rule sym, assumption+)
qed

theorem reader_is_order_free_witness:
  "reader handover_config ''ns'' [''p1'', ''p2''] [reading_pod ''ns'' ''p2'' 9, reading_pod ''other'' ''p1'' 5] =
   reader handover_config ''ns'' [''p1'', ''p2''] [reading_pod ''other'' ''p1'' 5, reading_pod ''ns'' ''p2'' 9]"
  by (rule reader_is_order_free) (auto simp: reading_pod_def pod_key_def witness_meta_def)

end
