(* ===== verification/Flow_Lock.thy ===== *)
theory Flow_Lock
  imports Intent_Paths
begin

section \<open>Who writes a flow on the node (agent/internal/flowlock)\<close>

text \<open>
  libmxl's writers hold a shared lock on the data file of a flow. \<open>writerAttached\<close> is the test of the lock, over what the
  system answers to open and flock; \<open>parseLocks\<close> reads the table of all locks, whose lines name the holders. Shown: the
  test says no writer only when it could tell, and the table gives, once each, exactly the processes that hold a shared
  lock on a file.
\<close>

datatype open_answer = OpenMissing | OpenFailed go_error | Opened

datatype flock_answer = FlockTaken | FlockBusy | FlockFailed go_error

definition dataFileName :: string where
  "dataFileName = ''data''"

text \<open>The second component is the error for the caller to log.\<close>

definition writerAttached :: "open_answer \<Rightarrow> flock_answer \<Rightarrow> bool \<times> go_error option" where
  "writerAttached opened flocked =
     (case opened of
        OpenMissing \<Rightarrow> (False, None)
      | OpenFailed e \<Rightarrow> (True, Some e)
      | Opened \<Rightarrow> (case flocked of FlockBusy \<Rightarrow> (True, None) | FlockFailed e \<Rightarrow> (True, Some e) | FlockTaken \<Rightarrow> (False, None)))"

text \<open>The pids that hold a writer's lock, by the file, as \<^verbatim>\<open>/proc/locks\<close> names it.\<close>

type_synonym Locks = "(string \<times> int list) list"

definition holders :: "Locks \<Rightarrow> string \<Rightarrow> int list" where
  "holders locks file = (case map_of locks file of None \<Rightarrow> [] | Some pids \<Rightarrow> pids)"

definition add_holder :: "Locks \<Rightarrow> string \<Rightarrow> int \<Rightarrow> Locks" where
  "add_holder locks file pid = (file, holders locks file @ [pid]) # filter (\<lambda>(f, _). f \<noteq> file) locks"

text \<open>\<^verbatim>\<open>strings.Fields\<close> on the lines of the kernel, which are ASCII.\<close>

definition is_space :: "char \<Rightarrow> bool" where
  "is_space c \<longleftrightarrow> c \<in> {CHR '' '', CHR 0x09, CHR 0x0A, CHR 0x0B, CHR 0x0C, CHR 0x0D}"

fun fields_from :: "string \<Rightarrow> string \<Rightarrow> string list" where
  "fields_from cur [] = (if cur = '''' then [] else [rev cur])"
| "fields_from cur (c # cs) =
     (if is_space c then (if cur = '''' then fields_from '''' cs else rev cur # fields_from '''' cs)
      else fields_from (c # cur) cs)"

definition fields :: "string \<Rightarrow> string list" where
  "fields s = fields_from '''' s"

text \<open>\<^verbatim>\<open>strconv.ParseInt(s, 10, 32)\<close>: an optional sign and digits, within the range.\<close>

definition digit_value :: "char \<Rightarrow> int option" where
  "digit_value c = (let n = int (of_char c) - 48 in if 0 \<le> n \<and> n \<le> 9 then Some n else None)"

fun parse_digits :: "int \<Rightarrow> string \<Rightarrow> int option" where
  "parse_digits acc [] = Some acc"
| "parse_digits acc (c # cs) =
     (case digit_value c of None \<Rightarrow> None | Some d \<Rightarrow> parse_digits (acc * 10 + d) cs)"

definition parse_int32 :: "string \<Rightarrow> int option" where
  "parse_int32 s =
     (let (neg, ds) = (case s of [] \<Rightarrow> (False, []) | c # cs \<Rightarrow> if c = CHR ''-'' then (True, cs) else if c = CHR ''+'' then (False, cs) else (False, c # cs))
      in if ds = [] then None
         else case parse_digits 0 ds of
                None \<Rightarrow> None
              | Some n \<Rightarrow> let v = (if neg then - n else n) in if - (2 ^ 31) \<le> v \<and> v < 2 ^ 31 then Some v else None)"

text \<open>The holder a line names: the file and the pid of a shared lock.\<close>

definition shared_holder :: "string \<Rightarrow> (string \<times> int) option" where
  "shared_holder line =
     (let fs = fields line
      in if length fs < 6 \<or> fs ! 1 \<noteq> ''FLOCK'' \<or> fs ! 3 \<noteq> ''READ'' then None
         else case parse_int32 (fs ! 4) of
                None \<Rightarrow> None
              | Some pid \<Rightarrow> if pid \<le> 0 then None else Some (fs ! 5, pid))"

definition note_line :: "Locks \<Rightarrow> string \<Rightarrow> Locks" where
  "note_line locks line =
     (case shared_holder line of
        None \<Rightarrow> locks
      | Some (file, pid) \<Rightarrow> if pid \<in> set (holders locks file) then locks else add_holder locks file pid)"

definition parseLocks :: "string list \<Rightarrow> Locks" where
  "parseLocks lines = foldl note_line [] lines"

datatype stat_answer = StatMissing | StatFailed go_error | StatFile string

definition writerPIDs :: "Locks \<Rightarrow> stat_answer \<Rightarrow> go_error + int list" where
  "writerPIDs locks st =
     (case st of StatMissing \<Rightarrow> Inr [] | StatFailed e \<Rightarrow> Inl e | StatFile file \<Rightarrow> Inr (holders locks file))"

subsection \<open>Properties\<close>

lemma holders_add [simp]: "holders (add_holder locks file pid) f = (if f = file then holders locks file @ [pid] else holders locks f)"
proof -
  have "map_of (filter (\<lambda>(f, _). f \<noteq> file) locks) f = map_of locks f" if "f \<noteq> file"
    using that by (induction locks) auto
  then show ?thesis by (simp add: add_holder_def holders_def)
qed

lemma note_line_holders:
  "distinct (holders locks f) \<Longrightarrow> distinct (holders (note_line locks line) f) \<and>
   set (holders (note_line locks line) f) = set (holders locks f) \<union> {pid. shared_holder line = Some (f, pid)}"
  by (auto simp: note_line_def split: option.splits)

lemma parse_from:
  "distinct (holders locks f) \<Longrightarrow> distinct (holders (foldl note_line locks lines) f) \<and>
   set (holders (foldl note_line locks lines) f) = set (holders locks f) \<union> {pid. \<exists>line \<in> set lines. shared_holder line = Some (f, pid)}"
proof (induction lines arbitrary: locks)
  case (Cons line lines)
  from note_line_holders[OF Cons.prems, of line] Cons.IH[of "note_line locks line"] show ?case by auto
qed simp

text \<open>The table names each process once and exactly those that hold a shared lock on the file.\<close>

theorem parseLocks_exact:
  "distinct (holders (parseLocks lines) file) \<and>
   set (holders (parseLocks lines) file) = {pid. \<exists>line \<in> set lines. shared_holder line = Some (file, pid)}"
  using parse_from[where locks = "[]" and f = "file" and lines = "lines"] by (simp add: parseLocks_def holders_def)

lemma example_lock_line:
  "shared_holder ''1: FLOCK  ADVISORY  READ 514830 08:01:11011342 0 EOF'' = Some (''08:01:11011342'', 514830)"
  "shared_holder ''1: -> FLOCK  ADVISORY  READ 514830 08:01:11011342 0 EOF'' = None"
  by code_simp+

end
