(* ===== verification/Flow_Publisher.thy ===== *)
theory Flow_Publisher
  imports Flow_Lock Origin
begin

section \<open>Publishing flows and their Leases (agent/internal/flowpublisher, agent/internal/originlease)\<close>

text \<open>
  The agent of a node writes what the other components read: an \<^verbatim>\<open>MxlFlow\<close> for a flow whose producer is on the node, the
  node's entry in the status of a flow it holds a copy of, and the Lease that says the producer is alive. The whole of
  \<^verbatim>\<open>publisher.go\<close> and \<^verbatim>\<open>originlease.go\<close> is here, with the file system, the processes and the API server as the
  environment. An error that the code only logs is swallowed. The empty phase is \<open>None\<close>.
\<close>

subsection \<open>Environment\<close>

definition FlowDefName :: string where "FlowDefName = ''flow_def.json''"
definition DefaultRenewInterval :: duration where "DefaultRenewInterval = 10 * second"

record publisher_config =
  pc_domainPath :: string
  pc_node :: string
  pc_domain :: string
  pc_lease :: bool
  pc_leaseSeconds :: int
  pc_isOutput :: bool
  pc_producer :: bool
  pc_ours :: bool

datatype publisher_write =
    CreateFlow MxlFlow
  | UpdateDefinition MxlFlow
  | UpdateLocations MxlFlow
  | CreateLease Lease string
  | UpdateLease Lease string
  | DeleteLeaseOf NamespacedName

text \<open>The raw members of a JSON object, and writing them back: \<^verbatim>\<open>encoding/json\<close>. \<open>Inl\<close> is a text that is no object; \<open>rj_value\<close> is the
  value a text decodes to.\<close>

record 'v raw_json =
  rj_valid :: "string \<Rightarrow> bool"
  rj_members :: "string \<Rightarrow> go_error + (string \<rightharpoonup> string)"
  rj_print :: "(string \<rightharpoonup> string) \<Rightarrow> go_error + string"
  rj_value :: "string \<Rightarrow> 'v option"

text \<open>Which of its operations reads the flow. \<open>pe_walk\<close> is the order Go walks a set in; \<open>pe_flow\<close> and the other
  replies of the API server are numbered by the attempt.\<close>

datatype publisher_stage = AtUpsert | AtDefinition | AtClaim | AtPromote | AtObserve

record publisher_env =
  pe_placeholder :: "string \<Rightarrow> bool"
  pe_isOutput :: "string \<Rightarrow> string \<Rightarrow> go_error + bool"
  pe_def :: "string \<Rightarrow> go_error + string"
  pe_open :: "string \<Rightarrow> open_answer"
  pe_flock :: "string \<Rightarrow> flock_answer"
  pe_locks :: "go_error + Locks"
  pe_stat :: "string \<Rightarrow> stat_answer"
  pe_producer :: "int \<Rightarrow> bool"
  pe_ours :: "int \<Rightarrow> bool"
  pe_mirrors :: "go_error + MxlFlowMirror list"
  pe_create :: "MxlFlow \<Rightarrow> go_error + MxlFlow"
  pe_flow :: "publisher_stage \<Rightarrow> nat \<Rightarrow> string \<Rightarrow> go_error + MxlFlow"
  pe_flows :: "go_error + MxlFlow list"
  pe_update :: "nat \<Rightarrow> MxlFlow \<Rightarrow> go_error + MxlFlow"
  pe_updateStatus :: "nat \<Rightarrow> MxlFlow \<Rightarrow> go_error + MxlFlow"
  pe_getLease :: "nat \<Rightarrow> NamespacedName \<Rightarrow> go_error + Lease"
  pe_createLease :: "Lease \<Rightarrow> go_error + unit"
  pe_updateLease :: "nat \<Rightarrow> Lease \<Rightarrow> go_error + unit"
  pe_deleteLease :: "NamespacedName \<Rightarrow> go_error + unit"
  pe_renewCtx :: "go_error option"
  pe_leaseNow :: "nat \<Rightarrow> time"
  pe_retry :: "(nat \<Rightarrow> (publisher_write, unit) io) \<Rightarrow> (publisher_write, unit) io"
  pe_retryPhase :: "(nat \<Rightarrow> (publisher_write, MxlFlowLocationPhase option) io) \<Rightarrow> (publisher_write, MxlFlowLocationPhase option) io"
  pe_entries :: "go_error + (string \<times> bool) list"
  pe_walk :: "string list \<Rightarrow> string list"
  pe_now :: time

definition pub_ref :: "publisher_config \<Rightarrow> string \<Rightarrow> FlowRef" where
  "pub_ref cfg flowID = \<lparr>ref_domain = pc_domain cfg, ref_id = flowID\<rparr>"

definition pub_key :: "publisher_config \<Rightarrow> string \<Rightarrow> string" where
  "pub_key cfg flowID = flowref_name (pub_ref cfg flowID)"

text \<open>A call whose error is only logged.\<close>

definition logged :: "('w, 'a) io \<Rightarrow> ('w, unit) io" where
  "logged m = (fst m, Inr ())"

subsection \<open>The Lease (originlease.go)\<close>

definition lease_seconds :: "publisher_config \<Rightarrow> int" where
  "lease_seconds cfg = (if pc_leaseSeconds cfg \<le> 0 then DefaultLeaseDuration div second else pc_leaseSeconds cfg)"

definition lease_key :: "publisher_config \<Rightarrow> string \<Rightarrow> NamespacedName" where
  "lease_key cfg flowID = \<lparr>nn_namespace = leaseNamespace, nn_name = leaseName flowID (pc_node cfg)\<rparr>"

definition new_lease :: "publisher_config \<Rightarrow> string \<Rightarrow> time \<Rightarrow> Lease" where
  "new_lease cfg flowID now =
     \<lparr>lease_meta = \<lparr>om_namespace = leaseNamespace, om_name = leaseName flowID (pc_node cfg), om_uid = '''', om_resourceVersion = '''',
        om_generation = 0, om_creationTimestamp = 0, om_deletionTimestamp = 0, om_labels = [], om_ownerReferences = [], om_finalizers = []\<rparr>,
      lease_renewTime = Some now, lease_durationSeconds = Some (lease_seconds cfg)\<rparr>"

definition renew_attempt :: "publisher_config \<Rightarrow> publisher_env \<Rightarrow> string \<Rightarrow> nat \<Rightarrow> (publisher_write, unit) io" where
  "renew_attempt cfg env flowID i =
     (case pe_getLease env i (lease_key cfg flowID) of
        Inl e \<Rightarrow>
          if isNotFound e
          then let lease = new_lease cfg flowID (pe_leaseNow env i)
               in io_try (io_write (CreateLease lease (pc_node cfg)) (pe_createLease env lease)) (\<lambda>r.
                    case r of Inr _ \<Rightarrow> io_ret () | Inl e \<Rightarrow> if isAlreadyExists e then io_ret () else io_fail e)
          else io_fail e
      | Inr lease \<Rightarrow>
          let lease' = lease\<lparr>lease_renewTime := Some (pe_leaseNow env i), lease_durationSeconds := Some (lease_seconds cfg)\<rparr>
          in io_write (UpdateLease lease' (pc_node cfg)) (pe_updateLease env i lease'))"

text \<open>The error of the bounded context is brought back where the retry dropped it.\<close>

definition renew :: "publisher_config \<Rightarrow> publisher_env \<Rightarrow> string \<Rightarrow> (publisher_write, unit) io" where
  "renew cfg env flowID =
     io_try (pe_retry env (renew_attempt cfg env flowID)) (\<lambda>r.
       case (pe_renewCtx env, r) of
         (None, Inr _) \<Rightarrow> io_ret ()
       | (None, Inl e) \<Rightarrow> io_fail e
       | (Some c, Inr _) \<Rightarrow> io_fail c
       | (Some c, Inl e) \<Rightarrow> if errorIs e c then io_fail e else io_fail (EWrap (error_text c) e))"

definition release_lease :: "publisher_config \<Rightarrow> publisher_env \<Rightarrow> string \<Rightarrow> (publisher_write, unit) io" where
  "release_lease cfg env flowID =
     io_try (io_write (DeleteLeaseOf (lease_key cfg flowID)) (pe_deleteLease env (lease_key cfg flowID)))
       (\<lambda>r. io_read (ignoreNotFound r))"

definition lease_logged :: "publisher_config \<Rightarrow> (publisher_write, unit) io \<Rightarrow> (publisher_write, unit) io" where
  "lease_logged cfg m = (if pc_lease cfg then logged m else io_ret ())"

subsection \<open>The node's entry in the status\<close>

definition upserted ::
  "MxlFlowLocationPhase \<Rightarrow> time option \<Rightarrow> time option \<Rightarrow> MxlFlowLocation \<Rightarrow> MxlFlowLocation \<times> MxlFlowLocationPhase" where
  "upserted phase observed appeared loc =
     (let written = (if phase = LocationReady \<and> loc_phase loc = LocationOrigin then LocationOrigin else phase)
      in (loc\<lparr>loc_phase := written, loc_lastObserved := observed,
             loc_appearedAt := (if phase = LocationStale then None else if appeared \<noteq> None then appeared else loc_appearedAt loc)\<rparr>,
          written))"

fun upsert_at ::
  "string \<Rightarrow> MxlFlowLocationPhase \<Rightarrow> time option \<Rightarrow> time option \<Rightarrow> MxlFlowLocation list \<Rightarrow>
   (MxlFlowLocation list \<times> MxlFlowLocationPhase) option" where
  "upsert_at node phase observed appeared [] =
     (if phase = LocationStale then None
      else Some ([\<lparr>loc_nodeName = node, loc_phase = phase, loc_lastObserved = observed, loc_appearedAt = appeared\<rparr>], phase))"
| "upsert_at node phase observed appeared (loc # locs) =
     (if loc_nodeName loc = node
      then (case upserted phase observed appeared loc of (loc', written) \<Rightarrow> Some (loc' # locs, written))
      else map_option (\<lambda>(locs', written). (loc # locs', written)) (upsert_at node phase observed appeared locs))"

definition with_locations :: "MxlFlow \<Rightarrow> MxlFlowLocation list \<Rightarrow> MxlFlow" where
  "with_locations f locs = f\<lparr>flow_status := (flow_status f)\<lparr>fst_locations := locs\<rparr>\<rparr>"

definition upsert_attempt ::
  "publisher_config \<Rightarrow> publisher_env \<Rightarrow> string \<Rightarrow> MxlFlowLocationPhase \<Rightarrow> time option \<Rightarrow> time option \<Rightarrow> nat \<Rightarrow>
   (publisher_write, MxlFlowLocationPhase option) io" where
  "upsert_attempt cfg env flowID phase observed appeared i =
     (case pe_flow env AtUpsert i (pub_key cfg flowID) of
        Inl e \<Rightarrow> if isNotFound e then io_ret None else io_fail (EWrap (''get MxlFlow '' @ flowID) e)
      | Inr obj \<Rightarrow>
          (case upsert_at (pc_node cfg) phase observed appeared (fst_locations (flow_status obj)) of
             None \<Rightarrow> io_ret None
           | Some (locs, written) \<Rightarrow>
               let obj' = with_locations obj locs
               in io_bind (io_write (UpdateLocations obj') (pe_updateStatus env i obj')) (\<lambda>_. io_ret (Some written))))"

definition upsertLocation ::
  "publisher_config \<Rightarrow> publisher_env \<Rightarrow> string \<Rightarrow> MxlFlowLocationPhase \<Rightarrow> time option \<Rightarrow> time option \<Rightarrow>
   (publisher_write, MxlFlowLocationPhase option) io" where
  "upsertLocation cfg env flowID phase observed appeared =
     io_wrap (''update MxlFlow '' @ flowID @ '' status'')
       (pe_retryPhase env (upsert_attempt cfg env flowID phase observed appeared))"

definition markStale :: "publisher_config \<Rightarrow> publisher_env \<Rightarrow> string \<Rightarrow> (publisher_write, unit) io" where
  "markStale cfg env flowID =
     io_bind (upsertLocation cfg env flowID LocationStale None None) (\<lambda>_.
     lease_logged cfg (release_lease cfg env (pub_key cfg flowID)))"


subsection \<open>Writers of the directory\<close>

definition writer_attached :: "publisher_env \<Rightarrow> string \<Rightarrow> bool" where
  "writer_attached env flowID = fst (writerAttached (pe_open env flowID) (pe_flock env flowID))"

text \<open>\<open>None\<close> is the nil table.\<close>

definition readLocks :: "publisher_config \<Rightarrow> publisher_env \<Rightarrow> Locks option" where
  "readLocks cfg env =
     (if \<not> pc_producer cfg \<and> \<not> pc_ours cfg then None
      else case pe_locks env of Inl _ \<Rightarrow> None | Inr locks \<Rightarrow> Some locks)"

definition locked :: "Locks option \<Rightarrow> Locks" where
  "locked locks = (case locks of None \<Rightarrow> [] | Some l \<Rightarrow> l)"

definition producerWrites :: "publisher_config \<Rightarrow> publisher_env \<Rightarrow> Locks option \<Rightarrow> string \<Rightarrow> bool" where
  "producerWrites cfg env locks flowID \<longleftrightarrow>
     pc_producer cfg \<and>
     (case writerPIDs (locked locks) (pe_stat env flowID) of Inl _ \<Rightarrow> False | Inr pids \<Rightarrow> list_ex (pe_producer env) pids)"

definition onlyOursWrite :: "publisher_config \<Rightarrow> publisher_env \<Rightarrow> Locks option \<Rightarrow> string \<Rightarrow> bool" where
  "onlyOursWrite cfg env locks flowID \<longleftrightarrow>
     pc_ours cfg \<and> locks \<noteq> None \<and>
     (case writerPIDs (locked locks) (pe_stat env flowID) of Inl _ \<Rightarrow> False | Inr pids \<Rightarrow> pids \<noteq> [] \<and> list_all (pe_ours env) pids)"

definition flowIDFromDirName :: "string \<Rightarrow> string option" where
  "flowIDFromDirName name =
     (case cutSuffix name flowDirSuffix of None \<Rightarrow> None | Some i \<Rightarrow> if i = '''' then None else Some i)"

definition isMirrorTarget :: "publisher_config \<Rightarrow> publisher_env \<Rightarrow> string \<Rightarrow> go_error + bool" where
  "isMirrorTarget cfg env flowID =
     (case pe_mirrors env of
        Inl e \<Rightarrow> Inl e
      | Inr ms \<Rightarrow> Inr (list_ex (\<lambda>m. mirror_ref m = pub_ref cfg flowID \<and> ms_targetNode (mir_spec m) = pc_node cfg) ms))"

subsection \<open>The definition\<close>

definition sameJSON :: "'v raw_json \<Rightarrow> string \<Rightarrow> string \<Rightarrow> bool" where
  "sameJSON js a b \<longleftrightarrow> (case (rj_value js a, rj_value js b) of (Some x, Some y) \<Rightarrow> x = y | _ \<Rightarrow> False)"

text \<open>What the object holds is the base of the merge, or nothing where it is no object; the file's members win.\<close>

definition merge_base :: "'v raw_json \<Rightarrow> string \<Rightarrow> (string \<rightharpoonup> string)" where
  "merge_base js raw = (if raw = '''' then Map.empty else case rj_members js raw of Inl _ \<Rightarrow> Map.empty | Inr m \<Rightarrow> m)"

definition with_definition :: "MxlFlow \<Rightarrow> string \<Rightarrow> MxlFlow" where
  "with_definition f def = f\<lparr>flow_spec := (flow_spec f)\<lparr>fs_definition := def\<rparr>\<rparr>"

definition refresh_attempt ::
  "publisher_config \<Rightarrow> 'v raw_json \<Rightarrow> publisher_env \<Rightarrow> string \<Rightarrow> (string \<rightharpoonup> string) \<Rightarrow> nat \<Rightarrow> (publisher_write, unit) io" where
  "refresh_attempt cfg js env flowID fromDisk i =
     io_bind (io_read (pe_flow env AtDefinition i (pub_key cfg flowID))) (\<lambda>flow.
     io_bind (io_wrap ''marshal merged definition''
                (io_read (rj_print js (merge_base js (fs_definition (flow_spec flow)) ++ fromDisk)))) (\<lambda>out.
     if sameJSON js (fs_definition (flow_spec flow)) out then io_ret ()
     else let flow' = with_definition flow out
          in io_bind (io_write (UpdateDefinition flow') (pe_update env i flow')) (\<lambda>_. io_ret ())))"

definition refreshDefinition ::
  "publisher_config \<Rightarrow> 'v raw_json \<Rightarrow> publisher_env \<Rightarrow> string \<Rightarrow> string \<Rightarrow> (publisher_write, unit) io" where
  "refreshDefinition cfg js env flowID def =
     io_bind (io_wrap ''parse on-disk definition'' (io_read (rj_members js def))) (\<lambda>fromDisk.
     pe_retry env (refresh_attempt cfg js env flowID fromDisk))"

subsection \<open>Appearing, claiming, vanishing\<close>

definition new_flow :: "publisher_config \<Rightarrow> string \<Rightarrow> string \<Rightarrow> MxlFlow" where
  "new_flow cfg flowID raw =
     \<lparr>flow_meta = \<lparr>om_namespace = '''', om_name = pub_key cfg flowID, om_uid = '''', om_resourceVersion = '''',
        om_generation = 0, om_creationTimestamp = 0, om_deletionTimestamp = 0, om_labels = [], om_ownerReferences = [], om_finalizers = []\<rparr>,
      flow_spec = \<lparr>fs_id = flowID, fs_domain = pc_domain cfg, fs_definition = raw\<rparr>,
      flow_status = \<lparr>fst_locations = [], fst_originNode = '''', fst_previousOriginNode = '''', fst_originChangedAt = None,
        fst_maxSyncBatchSizeHint = 0, fst_maxCommitBatchSizeHint = 0, fst_bitsPerSecond = 0, fst_conditions = []\<rparr>\<rparr>"

definition create_flow :: "publisher_config \<Rightarrow> publisher_env \<Rightarrow> string \<Rightarrow> string \<Rightarrow> (publisher_write, unit) io" where
  "create_flow cfg env flowID raw =
     (let desired = new_flow cfg flowID raw
      in io_try (io_write (CreateFlow desired) (pe_create env desired)) (\<lambda>r.
           case r of Inr _ \<Rightarrow> io_ret ()
           | Inl e \<Rightarrow> if isAlreadyExists e then io_ret () else io_fail (EWrap ''create MxlFlow'' e)))"

definition appeared_phase :: "publisher_config \<Rightarrow> publisher_env \<Rightarrow> string \<Rightarrow> MxlFlowLocationPhase" where
  "appeared_phase cfg env flowID =
     (case isMirrorTarget cfg env flowID of
        Inl _ \<Rightarrow> LocationOrigin
      | Inr isMirror \<Rightarrow>
          if isMirror \<and> \<not> producerWrites cfg env (readLocks cfg env) flowID then LocationReady else LocationOrigin)"

definition publish_copy ::
  "publisher_config \<Rightarrow> 'v raw_json \<Rightarrow> publisher_env \<Rightarrow> string \<Rightarrow> string \<Rightarrow> MxlFlowLocationPhase \<Rightarrow> (publisher_write, unit) io" where
  "publish_copy cfg js env flowID raw phase =
     io_bind (if phase = LocationOrigin then create_flow cfg env flowID raw else io_ret ()) (\<lambda>_.
     io_bind (if phase = LocationOrigin then logged (refreshDefinition cfg js env flowID raw) else io_ret ()) (\<lambda>_.
     io_bind (upsertLocation cfg env flowID phase (Some (pe_now env)) (Some (pe_now env))) (\<lambda>written.
     io_bind (if written = Some LocationOrigin then lease_logged cfg (renew cfg env (pub_key cfg flowID)) else io_ret ()) (\<lambda>_.
     if written = Some LocationOrigin \<and> phase \<noteq> LocationOrigin then logged (refreshDefinition cfg js env flowID raw)
     else io_ret ()))))"

definition def_path :: "publisher_config \<Rightarrow> string \<Rightarrow> string" where
  "def_path cfg dirName = clean (pc_domainPath cfg @ ''/'' @ dirName @ ''/'' @ FlowDefName)"

definition publishAppeared ::
  "publisher_config \<Rightarrow> 'v raw_json \<Rightarrow> publisher_env \<Rightarrow> string \<Rightarrow> (publisher_write, unit) io" where
  "publishAppeared cfg js env dirName =
     (case flowIDFromDirName dirName of
        None \<Rightarrow> io_ret ()
      | Some flowID \<Rightarrow>
          if pe_placeholder env flowID then io_ret ()
          else io_bind (if pc_isOutput cfg
                        then io_wrap (''look up redundancy set outputs for '' @ flowID) (io_read (pe_isOutput env (pc_domain cfg) flowID))
                        else io_ret False) (\<lambda>isOutput.
          if isOutput then io_ret ()
          else io_bind (io_wrap (''read '' @ def_path cfg dirName) (io_read (pe_def env flowID))) (\<lambda>raw.
          if \<not> rj_valid js raw then io_fail (EOther (def_path cfg dirName @ '': not valid JSON''))
          else if \<not> writer_attached env flowID then markStale cfg env flowID
          else let phase = appeared_phase cfg env flowID
               in if phase = LocationOrigin \<and> onlyOursWrite cfg env (readLocks cfg env) flowID then markStale cfg env flowID
                  else publish_copy cfg js env flowID raw phase)))"

definition claimOrigin :: "publisher_config \<Rightarrow> publisher_env \<Rightarrow> string \<Rightarrow> (publisher_write, unit) io" where
  "claimOrigin cfg env flowID =
     (case pe_flow env AtClaim 0 (pub_key cfg flowID) of
        Inl e \<Rightarrow> if isNotFound e then io_ret () else io_fail (EWrap (''get MxlFlow '' @ flowID) e)
      | Inr flow \<Rightarrow>
          if list_ex (\<lambda>loc. loc_nodeName loc = pc_node cfg \<and> loc_phase loc = LocationOrigin) (fst_locations (flow_status flow)) then io_ret ()
          else io_bind (upsertLocation cfg env flowID LocationOrigin (Some (pe_now env)) (Some (pe_now env))) (\<lambda>_.
               lease_logged cfg (renew cfg env (pub_key cfg flowID))))"

definition publishVanished :: "publisher_config \<Rightarrow> publisher_env \<Rightarrow> string \<Rightarrow> (publisher_write, unit) io" where
  "publishVanished cfg env dirName =
     (case flowIDFromDirName dirName of None \<Rightarrow> io_ret () | Some flowID \<Rightarrow> markStale cfg env flowID)"


subsection \<open>The passes over the node's flows\<close>

text \<open>
  A pass lists the directory in \<open>env\<close> and then handles one flow after the other, each in the environment it meets,
  \<open>at flowID\<close>. A failure of one flow is logged and the pass goes on.
\<close>

definition localFlowIDs :: "publisher_env \<Rightarrow> go_error + string list" where
  "localFlowIDs env =
     (case pe_entries env of
        Inl e \<Rightarrow> Inl (EWrap ''read domain dir'' e)
      | Inr entries \<Rightarrow>
          Inr (remdups (concat (map (\<lambda>(name, isDir).
            if \<not> isDir then []
            else case flowIDFromDirName name of None \<Rightarrow> [] | Some i \<Rightarrow> if pe_placeholder env i then [] else [i]) entries))))"

definition heldFlowIDs :: "(string \<Rightarrow> publisher_env) \<Rightarrow> string list \<Rightarrow> string list" where
  "heldFlowIDs at onDisk = filter (\<lambda>i. writer_attached (at i) i) onDisk"

definition releaseAll :: "publisher_config \<Rightarrow> publisher_env \<Rightarrow> (string \<Rightarrow> publisher_env) \<Rightarrow> (publisher_write, unit) io" where
  "releaseAll cfg env at =
     (if \<not> pc_lease cfg then io_ret ()
      else io_bind (io_wrap ''list local flow dirs'' (io_read (localFlowIDs env))) (\<lambda>ids.
           io_each (\<lambda>i. logged (release_lease cfg (at i) (pub_key cfg i))) (pe_walk env ids)))"

definition claims_node :: "publisher_config \<Rightarrow> MxlFlow \<Rightarrow> bool" where
  "claims_node cfg flow \<longleftrightarrow>
     list_ex (\<lambda>loc. loc_nodeName loc = pc_node cfg \<and> loc_phase loc \<noteq> LocationStale) (fst_locations (flow_status flow))"

definition demote_flow :: "publisher_config \<Rightarrow> publisher_env \<Rightarrow> string \<Rightarrow> (publisher_write, unit) io" where
  "demote_flow cfg env flowID =
     io_bind (logged (upsertLocation cfg env flowID LocationStale None None)) (\<lambda>_.
     lease_logged cfg (release_lease cfg env (pub_key cfg flowID)))"

definition demoteVanishedLocalOrigins ::
  "publisher_config \<Rightarrow> publisher_env \<Rightarrow> (string \<Rightarrow> publisher_env) \<Rightarrow> string list \<Rightarrow> (publisher_write, unit) io" where
  "demoteVanishedLocalOrigins cfg env at held =
     io_bind (io_wrap ''list MxlFlows'' (io_read (pe_flows env))) (\<lambda>flows.
     io_each (\<lambda>flow.
       let i = fs_id (flow_spec flow)
       in if fs_domain (flow_spec flow) \<noteq> pc_domain cfg \<or> i \<in> set held \<or> \<not> claims_node cfg flow then io_ret ()
          else demote_flow cfg (at i) i) flows)"

definition initialSync ::
  "publisher_config \<Rightarrow> 'v raw_json \<Rightarrow> publisher_env \<Rightarrow> (string \<Rightarrow> publisher_env) \<Rightarrow> publisher_env \<Rightarrow> (string \<Rightarrow> publisher_env) \<Rightarrow>
   (publisher_write, unit) io" where
  "initialSync cfg js env at env' later =
     io_bind (io_read (localFlowIDs env)) (\<lambda>onDisk.
     io_bind (io_each (\<lambda>i. logged (publishAppeared cfg js (at i) (i @ flowDirSuffix))) (pe_walk env onDisk)) (\<lambda>_.
     demoteVanishedLocalOrigins cfg env' later (heldFlowIDs later onDisk)))"

text \<open>The first entry of the node decides in the two tests below.\<close>

definition own_location :: "publisher_config \<Rightarrow> MxlFlow \<Rightarrow> MxlFlowLocation option" where
  "own_location cfg flow = find_first (\<lambda>loc. loc_nodeName loc = pc_node cfg) (fst_locations (flow_status flow))"

definition localLocationHealthy :: "publisher_config \<Rightarrow> MxlFlow \<Rightarrow> bool" where
  "localLocationHealthy cfg flow =
     (case own_location cfg flow of None \<Rightarrow> False | Some loc \<Rightarrow> loc_phase loc \<noteq> LocationStale \<and> loc_appearedAt loc \<noteq> None)"

definition producerTookOver :: "publisher_config \<Rightarrow> publisher_env \<Rightarrow> Locks option \<Rightarrow> MxlFlow \<Rightarrow> bool" where
  "producerTookOver cfg env locks flow =
     (case own_location cfg flow of
        None \<Rightarrow> False
      | Some loc \<Rightarrow> loc_phase loc \<noteq> LocationOrigin \<and> producerWrites cfg env locks (fs_id (flow_spec flow)))"

definition promote_flow ::
  "publisher_config \<Rightarrow> 'v raw_json \<Rightarrow> publisher_env \<Rightarrow> Locks option \<Rightarrow> string \<Rightarrow> (publisher_write, unit) io" where
  "promote_flow cfg js env locks flowID =
     (let again = logged (publishAppeared cfg js env (flowID @ flowDirSuffix))
      in case pe_flow env AtPromote 0 (pub_key cfg flowID) of
           Inl e \<Rightarrow> if isNotFound e then again else io_ret ()
         | Inr flow \<Rightarrow>
             if localLocationHealthy cfg flow \<and> \<not> producerTookOver cfg env locks flow then io_ret () else again)"

definition promoteStaleLocalOrigins ::
  "publisher_config \<Rightarrow> 'v raw_json \<Rightarrow> publisher_env \<Rightarrow> (string \<Rightarrow> publisher_env) \<Rightarrow> string list \<Rightarrow> (publisher_write, unit) io" where
  "promoteStaleLocalOrigins cfg js env at onDisk =
     io_each (\<lambda>i. promote_flow cfg js (at i) (readLocks cfg env) i) (pe_walk env onDisk)"

definition localOrigins :: "publisher_config \<Rightarrow> publisher_env \<Rightarrow> go_error + string list" where
  "localOrigins cfg env =
     (case pe_flows env of
        Inl e \<Rightarrow> Inl e
      | Inr flows \<Rightarrow>
          Inr (map (\<lambda>f. fs_id (flow_spec f))
                (filter (\<lambda>f. fs_domain (flow_spec f) = pc_domain cfg \<and>
                   (case own_location cfg f of None \<Rightarrow> False | Some loc \<Rightarrow> loc_phase loc = LocationOrigin)) flows)))"

definition renew_tick ::
  "publisher_config \<Rightarrow> publisher_env \<Rightarrow> (string \<Rightarrow> publisher_env) \<Rightarrow> (publisher_write, unit) io" where
  "renew_tick cfg env at =
     (if \<not> pc_lease cfg then io_ret ()
      else case localFlowIDs env of
             Inl _ \<Rightarrow> io_ret ()
           | Inr ids \<Rightarrow>
               (case localOrigins cfg env of
                  Inl _ \<Rightarrow> io_ret ()
                | Inr os \<Rightarrow>
                    io_each (\<lambda>i. if i \<in> set os then logged (renew cfg (at i) (pub_key cfg i)) else io_ret ())
                      (pe_walk env (heldFlowIDs at ids))))"

fun stamp_own :: "string \<Rightarrow> time \<Rightarrow> MxlFlowLocation list \<Rightarrow> MxlFlowLocation list option" where
  "stamp_own node now [] = None"
| "stamp_own node now (loc # locs) =
     (if loc_nodeName loc = node
      then if loc_phase loc = LocationStale then None else Some (loc\<lparr>loc_lastObserved := Some now\<rparr> # locs)
      else map_option ((#) loc) (stamp_own node now locs))"

definition observe_attempt :: "publisher_config \<Rightarrow> publisher_env \<Rightarrow> time \<Rightarrow> string \<Rightarrow> nat \<Rightarrow> (publisher_write, unit) io" where
  "observe_attempt cfg env now flowID i =
     (case pe_flow env AtObserve i (pub_key cfg flowID) of
        Inl e \<Rightarrow> if isNotFound e then io_ret () else io_fail e
      | Inr flow \<Rightarrow>
          (case stamp_own (pc_node cfg) now (fst_locations (flow_status flow)) of
             None \<Rightarrow> io_ret ()
           | Some locs \<Rightarrow>
               let flow' = with_locations flow locs
               in io_bind (io_write (UpdateLocations flow') (pe_updateStatus env i flow')) (\<lambda>_. io_ret ())))"

text \<open>The joined error is only logged by the caller.\<close>

definition refreshLocalObservations ::
  "publisher_config \<Rightarrow> publisher_env \<Rightarrow> (string \<Rightarrow> publisher_env) \<Rightarrow> string list \<Rightarrow> (publisher_write, unit) io" where
  "refreshLocalObservations cfg env at onDisk =
     io_each (\<lambda>i. logged (pe_retry (at i) (observe_attempt cfg (at i) (pe_now env) i))) (pe_walk env onDisk)"

definition rescan_tick ::
  "publisher_config \<Rightarrow> 'v raw_json \<Rightarrow> publisher_env \<Rightarrow> (string \<Rightarrow> publisher_env) \<Rightarrow> (string \<Rightarrow> publisher_env) \<Rightarrow>
   (string \<Rightarrow> publisher_env) \<Rightarrow> (string \<Rightarrow> publisher_env) \<Rightarrow> (publisher_write, unit) io" where
  "rescan_tick cfg js env probe at1 at2 at3 =
     (case localFlowIDs env of
        Inl _ \<Rightarrow> io_ret ()
      | Inr ids \<Rightarrow>
          let held = heldFlowIDs probe ids
          in io_bind (logged (demoteVanishedLocalOrigins cfg env at1 held)) (\<lambda>_.
             io_bind (logged (promoteStaleLocalOrigins cfg js env at2 held)) (\<lambda>_.
             logged (refreshLocalObservations cfg env at3 held))))"

subsection \<open>Steps\<close>

text \<open>What makes the publisher act: the events of the directory, which \<^verbatim>\<open>runDispatcher\<close> of the agent's \<^verbatim>\<open>main.go\<close>
  routes and whose errors it logs, a producer's attach, and the loops. Each step has the environments it meets.\<close>

datatype publisher_step =
    StepAppeared publisher_env string
  | StepVanished publisher_env string
  | StepClaim publisher_env string
  | StepSync publisher_env "string \<Rightarrow> publisher_env" publisher_env "string \<Rightarrow> publisher_env"
  | StepRenew publisher_env "string \<Rightarrow> publisher_env"
  | StepRescan publisher_env "string \<Rightarrow> publisher_env" "string \<Rightarrow> publisher_env" "string \<Rightarrow> publisher_env" "string \<Rightarrow> publisher_env"
  | StepRelease publisher_env "string \<Rightarrow> publisher_env"

fun publisher_do :: "publisher_config \<Rightarrow> 'v raw_json \<Rightarrow> publisher_step \<Rightarrow> (publisher_write, unit) io" where
  "publisher_do cfg js (StepAppeared env name) = logged (publishAppeared cfg js env name)"
| "publisher_do cfg js (StepVanished env name) = logged (publishVanished cfg env name)"
| "publisher_do cfg js (StepClaim env flowID) = claimOrigin cfg env flowID"
| "publisher_do cfg js (StepSync env at env' later) = initialSync cfg js env at env' later"
| "publisher_do cfg js (StepRenew env at) = renew_tick cfg env at"
| "publisher_do cfg js (StepRescan env probe at1 at2 at3) = rescan_tick cfg js env probe at1 at2 at3"
| "publisher_do cfg js (StepRelease env at) = releaseAll cfg env at"

text \<open>The environments a step hands to a single flow's operation.\<close>

fun step_envs :: "publisher_step \<Rightarrow> publisher_env set" where
  "step_envs (StepAppeared env _) = {env}"
| "step_envs (StepVanished env _) = {env}"
| "step_envs (StepClaim env _) = {env}"
| "step_envs (StepSync _ at _ later) = range at \<union> range later"
| "step_envs (StepRenew _ at) = range at"
| "step_envs (StepRescan _ _ at1 at2 at3) = range at1 \<union> range at2 \<union> range at3"
| "step_envs (StepRelease _ at) = range at"

end
