(* ===== verification/Publisher_Safety.thy ===== *)
theory Publisher_Safety
  imports Flow_Publisher
begin

section \<open>What the flow publisher guarantees\<close>

text \<open>
  For every step of the publisher, in whatever environments: the inductive \<open>flow_writes\<close> is all it may write for a flow,
  and from it follow that a status changes only in the node's own entry and that an origin has its evidence. Then the
  renewals, the rescan, and the way from a producer's first write to what \<open>resolveOrigin\<close> answers a reader.
\<close>

lemma fst_logged [simp]: "fst (logged m) = fst m"
  by (simp add: logged_def)

lemma snd_logged [simp]: "snd (logged m) = Inr ()"
  by (simp add: logged_def)

lemma lease_logged_writes: "w \<in> set (fst (lease_logged cfg m)) \<Longrightarrow> pc_lease cfg \<and> w \<in> set (fst m)"
  by (simp add: lease_logged_def split: if_splits)

lemma io_wrap_Inr [simp]: "snd (io_wrap s m) = Inr x \<longleftrightarrow> snd m = Inr x"
  by (simp add: io_wrap_def split: sum.splits)

text \<open>The retry makes no write of its own. That is all the safety properties need of it: where its context ends it may
  also answer success without one of the attempts having done so.\<close>

definition attempts_only :: "((nat \<Rightarrow> ('w, 'a) io) \<Rightarrow> ('w, 'a) io) \<Rightarrow> bool" where
  "attempts_only retry \<longleftrightarrow> (\<forall>f. \<forall>w \<in> set (fst (retry f)). \<exists>i. w \<in> set (fst (f i)))"

lemma attempts_writes: "attempts_only retry \<Longrightarrow> w \<in> set (fst (retry f)) \<Longrightarrow> \<exists>i. w \<in> set (fst (f i))"
  by (simp add: attempts_only_def)

lemma bounded_attempts_only: "attempts_only (bounded_retry n i)"
  by (auto simp: attempts_only_def dest: bounded_retry_writes)

definition env_ok :: "publisher_env \<Rightarrow> bool" where
  "env_ok env \<longleftrightarrow> attempts_only (pe_retry env) \<and> attempts_only (pe_retryPhase env)"

subsection \<open>The writes of each operation\<close>

definition upserts :: "publisher_config \<Rightarrow> publisher_env \<Rightarrow> string \<Rightarrow> MxlFlowLocationPhase \<Rightarrow> publisher_write \<Rightarrow> bool" where
  "upserts cfg env flowID phase w \<longleftrightarrow>
     (\<exists>i obj locs written observed appeared.
        pe_flow env AtUpsert i (pub_key cfg flowID) = Inr obj \<and>
        upsert_at (pc_node cfg) phase observed appeared (fst_locations (flow_status obj)) = Some (locs, written) \<and>
        w = UpdateLocations (with_locations obj locs))"

lemma upsert_attempt_writes:
  "w \<in> set (fst (upsert_attempt cfg env flowID phase observed appeared i)) \<Longrightarrow> upserts cfg env flowID phase w"
  unfolding upsert_attempt_def upserts_def
  by (auto simp: Let_def split: sum.splits option.splits if_splits) blast

lemma upsertLocation_writes:
  assumes "env_ok env" "w \<in> set (fst (upsertLocation cfg env flowID phase observed appeared))"
  shows "upserts cfg env flowID phase w"
proof -
  from assms have "attempts_only (pe_retryPhase env)" "w \<in> set (fst (pe_retryPhase env (upsert_attempt cfg env flowID phase observed appeared)))"
    by (simp_all add: env_ok_def upsertLocation_def)
  from attempts_writes[OF this] show ?thesis by (blast dest: upsert_attempt_writes)
qed

definition renews :: "publisher_config \<Rightarrow> publisher_env \<Rightarrow> string \<Rightarrow> publisher_write \<Rightarrow> bool" where
  "renews cfg env flowID w \<longleftrightarrow>
     (\<exists>i. w = CreateLease (new_lease cfg (pub_key cfg flowID) (pe_leaseNow env i)) (pc_node cfg) \<or>
       (\<exists>lease. pe_getLease env i (lease_key cfg (pub_key cfg flowID)) = Inr lease \<and>
          w = UpdateLease (lease\<lparr>lease_renewTime := Some (pe_leaseNow env i), lease_durationSeconds := Some (lease_seconds cfg)\<rparr>) (pc_node cfg)))"

lemma renew_attempt_writes:
  "w \<in> set (fst (renew_attempt cfg env (pub_key cfg flowID) i)) \<Longrightarrow> renews cfg env flowID w"
  unfolding renew_attempt_def renews_def
  by (auto simp: Let_def split: sum.splits if_splits)

lemma renew_writes:
  assumes "env_ok env" "w \<in> set (fst (renew cfg env (pub_key cfg flowID)))"
  shows "renews cfg env flowID w"
proof -
  let ?f = "renew_attempt cfg env (pub_key cfg flowID)"
  from assms(2) have "w \<in> set (fst (pe_retry env ?f))"
    by (auto simp: renew_def split: option.splits sum.splits if_splits)
  moreover from assms(1) have "attempts_only (pe_retry env)" by (simp add: env_ok_def)
  ultimately obtain i where "w \<in> set (fst (?f i))" by (metis attempts_writes)
  then show ?thesis by (rule renew_attempt_writes)
qed

lemma release_writes:
  "w \<in> set (fst (release_lease cfg env key)) \<Longrightarrow> w = DeleteLeaseOf (lease_key cfg key)"
  by (simp add: release_lease_def)

lemma markStale_writes:
  assumes "env_ok env" "w \<in> set (fst (markStale cfg env flowID))"
  shows "upserts cfg env flowID LocationStale w \<or> w = DeleteLeaseOf (lease_key cfg (pub_key cfg flowID))"
  using assms upsertLocation_writes[OF assms(1)]
  by (auto simp: markStale_def io_bind_writes_iff dest!: lease_logged_writes release_writes)

definition redefines :: "publisher_config \<Rightarrow> 'v raw_json \<Rightarrow> publisher_env \<Rightarrow> string \<Rightarrow> string \<Rightarrow> publisher_write \<Rightarrow> bool" where
  "redefines cfg js env flowID raw w \<longleftrightarrow>
     (\<exists>i obj fromDisk out. pe_flow env AtDefinition i (pub_key cfg flowID) = Inr obj \<and> rj_members js raw = Inr fromDisk \<and>
        rj_print js (merge_base js (fs_definition (flow_spec obj)) ++ fromDisk) = Inr out \<and>
        \<not> sameJSON js (fs_definition (flow_spec obj)) out \<and> w = UpdateDefinition (with_definition obj out))"

lemma refresh_attempt_writes:
  "rj_members js raw = Inr fromDisk \<Longrightarrow> w \<in> set (fst (refresh_attempt cfg js env flowID fromDisk i)) \<Longrightarrow> redefines cfg js env flowID raw w"
  unfolding refresh_attempt_def redefines_def
  by (auto simp: io_bind_writes_iff Let_def split: if_splits)

lemma refreshDefinition_writes:
  assumes "env_ok env" "w \<in> set (fst (refreshDefinition cfg js env flowID raw))"
  shows "redefines cfg js env flowID raw w"
proof -
  from assms(2) obtain fromDisk where d: "rj_members js raw = Inr fromDisk"
    "w \<in> set (fst (pe_retry env (refresh_attempt cfg js env flowID fromDisk)))"
    by (auto simp: refreshDefinition_def io_bind_writes_iff)
  from assms(1) have "attempts_only (pe_retry env)" by (simp add: env_ok_def)
  from attempts_writes[OF this d(2)] show ?thesis using refresh_attempt_writes[OF d(1)] by blast
qed

subsection \<open>What any step may write\<close>

text \<open>What the publisher asks before it calls the node the origin of a flow: nothing says that no writer is attached to
  the copy, it is neither a placeholder nor a set's output, no mirror that could be listed fills it unless a producer is
  among its writers, and the writers are not all mxl-k8s's own.\<close>

definition origin_allowed :: "publisher_config \<Rightarrow> publisher_env \<Rightarrow> string \<Rightarrow> bool" where
  "origin_allowed cfg env flowID \<longleftrightarrow>
     \<not> pe_placeholder env flowID \<and> (pc_isOutput cfg \<longrightarrow> pe_isOutput env (pc_domain cfg) flowID = Inr False) \<and>
     writer_attached env flowID \<and>
     (\<forall>ms. pe_mirrors env = Inr ms \<longrightarrow> (\<exists>m \<in> set ms. mirror_ref m = pub_ref cfg flowID \<and> ms_targetNode (mir_spec m) = pc_node cfg) \<longrightarrow>
        producerWrites cfg env (readLocks cfg env) flowID) \<and>
     \<not> onlyOursWrite cfg env (readLocks cfg env) flowID"

lemma appeared_phase_origin:
  "appeared_phase cfg env flowID = LocationOrigin \<Longrightarrow> pe_mirrors env = Inr ms \<Longrightarrow> m \<in> set ms \<Longrightarrow>
   mirror_ref m = pub_ref cfg flowID \<Longrightarrow> ms_targetNode (mir_spec m) = pc_node cfg \<Longrightarrow>
   producerWrites cfg env (readLocks cfg env) flowID"
  by (auto simp: appeared_phase_def isMirrorTarget_def list_ex_iff split: if_splits)

lemma appeared_phase_cases: "appeared_phase cfg env flowID \<in> {LocationOrigin, LocationReady}"
  by (simp add: appeared_phase_def split: sum.splits)

inductive flow_writes :: "publisher_config \<Rightarrow> 'v raw_json \<Rightarrow> publisher_env \<Rightarrow> string \<Rightarrow> publisher_write \<Rightarrow> bool"
  for cfg js env flowID where
  fw_stale: "upserts cfg env flowID LocationStale w \<Longrightarrow> flow_writes cfg js env flowID w"
| fw_ready: "upserts cfg env flowID LocationReady w \<Longrightarrow> flow_writes cfg js env flowID w"
| fw_origin: "upserts cfg env flowID LocationOrigin w \<Longrightarrow> origin_allowed cfg env flowID \<Longrightarrow> flow_writes cfg js env flowID w"
| fw_create: "origin_allowed cfg env flowID \<Longrightarrow> flow_writes cfg js env flowID (CreateFlow (new_flow cfg flowID raw))"
| fw_define: "redefines cfg js env flowID raw w \<Longrightarrow> flow_writes cfg js env flowID w"
| fw_renew: "renews cfg env flowID w \<Longrightarrow> flow_writes cfg js env flowID w"
| fw_release: "flow_writes cfg js env flowID (DeleteLeaseOf (lease_key cfg (pub_key cfg flowID)))"
| fw_observe: "pe_flow env AtObserve i (pub_key cfg flowID) = Inr obj \<Longrightarrow>
    stamp_own (pc_node cfg) now (fst_locations (flow_status obj)) = Some locs \<Longrightarrow>
    flow_writes cfg js env flowID (UpdateLocations (with_locations obj locs))"

lemma stale_flow_writes: "env_ok env \<Longrightarrow> w \<in> set (fst (markStale cfg env flowID)) \<Longrightarrow> flow_writes cfg js env flowID w"
  by (auto dest!: markStale_writes intro: flow_writes.intros)

lemma copy_flow_writes:
  assumes env: "env_ok env" and phase: "phase = LocationReady \<or> phase = LocationOrigin \<and> origin_allowed cfg env flowID"
    and w: "w \<in> set (fst (publish_copy cfg js env flowID raw phase))"
  shows "flow_writes cfg js env flowID w"
proof -
  from w consider
      "phase = LocationOrigin" "w = CreateFlow (new_flow cfg flowID raw)"
    | "w \<in> set (fst (refreshDefinition cfg js env flowID raw))"
    | "w \<in> set (fst (upsertLocation cfg env flowID phase (Some (pe_now env)) (Some (pe_now env))))"
    | "w \<in> set (fst (renew cfg env (pub_key cfg flowID)))"
    by (auto simp: publish_copy_def create_flow_def io_bind_writes_iff Let_def dest!: lease_logged_writes split: if_splits sum.splits)
  then show ?thesis
  proof cases
    case 1 with phase show ?thesis by (auto intro: fw_create)
  next
    case 2 with env show ?thesis by (blast dest: refreshDefinition_writes intro: fw_define)
  next
    case 3 with env phase show ?thesis by (blast dest: upsertLocation_writes intro: fw_ready fw_origin)
  next
    case 4 with env show ?thesis by (blast dest: renew_writes intro: fw_renew)
  qed
qed

lemma appeared_flow_writes:
  assumes env: "env_ok env" and w: "w \<in> set (fst (publishAppeared cfg js env name))"
  shows "\<exists>flowID. flowIDFromDirName name = Some flowID \<and> flow_writes cfg js env flowID w"
proof -
  from w obtain flowID where id: "flowIDFromDirName name = Some flowID"
    by (auto simp: publishAppeared_def split: option.splits)
  let ?phase = "appeared_phase cfg env flowID"
  from w id consider "w \<in> set (fst (markStale cfg env flowID))"
    | raw where "\<not> pe_placeholder env flowID" "pc_isOutput cfg \<longrightarrow> pe_isOutput env (pc_domain cfg) flowID = Inr False"
      "writer_attached env flowID" "\<not> (?phase = LocationOrigin \<and> onlyOursWrite cfg env (readLocks cfg env) flowID)"
      "w \<in> set (fst (publish_copy cfg js env flowID raw ?phase))"
    by (auto simp: publishAppeared_def io_bind_writes_iff Let_def split: if_splits)
  then show ?thesis
  proof cases
    case 1 with env id show ?thesis by (blast intro: stale_flow_writes)
  next
    case 2
    from appeared_phase_cases have "?phase = LocationReady \<or> ?phase = LocationOrigin \<and> origin_allowed cfg env flowID"
      using 2(1-4) appeared_phase_origin[of cfg env flowID] unfolding origin_allowed_def by blast
    from copy_flow_writes[OF env this 2(5)] id show ?thesis by blast
  qed
qed

lemma demote_flow_writes:
  "env_ok env \<Longrightarrow> w \<in> set (fst (demote_flow cfg env i)) \<Longrightarrow>
   upserts cfg env i LocationStale w \<or> w = DeleteLeaseOf (lease_key cfg (pub_key cfg i))"
  by (auto simp: demote_flow_def io_bind_writes_iff dest!: upsertLocation_writes lease_logged_writes release_writes)

lemma demote_pass_writes:
  assumes "\<And>i. env_ok (at i)" "w \<in> set (fst (demoteVanishedLocalOrigins cfg env at held))"
  shows "\<exists>i. i \<notin> set held \<and> (upserts cfg (at i) i LocationStale w \<or> w = DeleteLeaseOf (lease_key cfg (pub_key cfg i)))"
proof -
  from assms(2) obtain f :: MxlFlow where "fs_id (flow_spec f) \<notin> set held"
    "w \<in> set (fst (demote_flow cfg (at (fs_id (flow_spec f))) (fs_id (flow_spec f))))"
    by (auto simp: demoteVanishedLocalOrigins_def io_bind_writes_iff Let_def dest!: io_each_writes split: if_splits)
  with demote_flow_writes[OF assms(1)] show ?thesis by blast
qed

lemma flowID_of_dir [simp]: "i \<noteq> '''' \<Longrightarrow> flowIDFromDirName (i @ flowDirSuffix) = Some i"
  by (simp add: flowIDFromDirName_def cutSuffix_def)

lemma flowIDFromDirName_iff: "flowIDFromDirName name = Some i \<longleftrightarrow> i \<noteq> '''' \<and> name = i @ flowDirSuffix"
proof -
  have "cutSuffix name p = Some j \<longleftrightarrow> name = j @ p" for j p
  proof
    assume "cutSuffix name p = Some j"
    then have "drop (length name - length p) name = p" "j = take (length name - length p) name"
      by (auto simp: cutSuffix_def split: if_splits)
    then show "name = j @ p" using append_take_drop_id[of "length name - length p" name] by simp
  qed (simp add: cutSuffix_def)
  moreover have "flowIDFromDirName name = Some i \<longleftrightarrow> cutSuffix name flowDirSuffix = Some i \<and> i \<noteq> ''''"
    by (auto simp: flowIDFromDirName_def split: option.splits)
  ultimately show ?thesis by auto
qed

lemma appeared_at_writes:
  "env_ok env \<Longrightarrow> w \<in> set (fst (publishAppeared cfg js env (i @ flowDirSuffix))) \<Longrightarrow> flow_writes cfg js env i w"
  by (auto dest!: appeared_flow_writes simp: flowIDFromDirName_iff)

lemma promote_flow_writes:
  "env_ok env \<Longrightarrow> w \<in> set (fst (promote_flow cfg js env locks i)) \<Longrightarrow>
   flow_writes cfg js env i w \<and>
   (\<forall>flow. pe_flow env AtPromote 0 (pub_key cfg i) = Inr flow \<longrightarrow> \<not> localLocationHealthy cfg flow \<or> producerTookOver cfg env locks flow)"
  by (auto simp: promote_flow_def Let_def dest: appeared_at_writes split: sum.splits if_splits)

definition observes :: "publisher_config \<Rightarrow> publisher_env \<Rightarrow> string \<Rightarrow> publisher_write \<Rightarrow> bool" where
  "observes cfg env i w \<longleftrightarrow>
     (\<exists>n obj now locs. pe_flow env AtObserve n (pub_key cfg i) = Inr obj \<and>
        stamp_own (pc_node cfg) now (fst_locations (flow_status obj)) = Some locs \<and> w = UpdateLocations (with_locations obj locs))"

lemma observes_flow_writes: "observes cfg env i w \<Longrightarrow> flow_writes cfg js env i w"
  by (auto simp: observes_def intro: fw_observe)

lemma observe_attempt_writes: "w \<in> set (fst (observe_attempt cfg env now i n)) \<Longrightarrow> observes cfg env i w"
  by (auto simp: observe_attempt_def observes_def Let_def split: sum.splits if_splits option.splits)

lemma observe_pass_writes:
  assumes "\<And>i. env_ok (at i)" "w \<in> set (fst (refreshLocalObservations cfg env at ids))"
  shows "\<exists>i \<in> set (pe_walk env ids). observes cfg (at i) i w"
proof -
  from assms(2) obtain i where i: "i \<in> set (pe_walk env ids)"
    "w \<in> set (fst (pe_retry (at i) (observe_attempt cfg (at i) (pe_now env) i)))"
    by (auto simp: refreshLocalObservations_def dest!: io_each_writes)
  from assms(1)[of i] have "attempts_only (pe_retry (at i))" by (simp add: env_ok_def)
  from attempts_writes[OF this i(2)] i(1) show ?thesis by (blast dest: observe_attempt_writes)
qed

lemma rescan_writes:
  assumes ok: "\<And>i. env_ok (at1 i)" "\<And>i. env_ok (at2 i)" "\<And>i. env_ok (at3 i)"
    and w: "w \<in> set (fst (rescan_tick cfg js env probe at1 at2 at3))"
  obtains (demoted) ids i where "localFlowIDs env = Inr ids" "i \<notin> set (heldFlowIDs probe ids)"
      "upserts cfg (at1 i) i LocationStale w \<or> w = DeleteLeaseOf (lease_key cfg (pub_key cfg i))"
    | (promoted) ids i where "localFlowIDs env = Inr ids" "i \<in> set (pe_walk env (heldFlowIDs probe ids))"
      "w \<in> set (fst (promote_flow cfg js (at2 i) (readLocks cfg env) i))"
    | (observed) ids i where "localFlowIDs env = Inr ids" "i \<in> set (pe_walk env (heldFlowIDs probe ids))" "observes cfg (at3 i) i w"
proof -
  from w obtain ids where ids: "localFlowIDs env = Inr ids"
    by (auto simp: rescan_tick_def split: sum.splits)
  let ?held = "heldFlowIDs probe ids"
  from w ids consider "w \<in> set (fst (demoteVanishedLocalOrigins cfg env at1 ?held))"
    | "w \<in> set (fst (promoteStaleLocalOrigins cfg js env at2 ?held))"
    | "w \<in> set (fst (refreshLocalObservations cfg env at3 ?held))"
    by (auto simp: rescan_tick_def Let_def io_bind_writes_iff)
  then show thesis
  proof cases
    case 1 from demote_pass_writes[OF ok(1) this] ids demoted show thesis by blast
  next
    case 2 then show thesis using ids promoted by (auto simp: promoteStaleLocalOrigins_def dest!: io_each_writes)
  next
    case 3 from observe_pass_writes[OF ok(3) this] ids observed show thesis by blast
  qed
qed

lemma publisher_do_writes:
  assumes ok: "\<forall>env \<in> step_envs step. env_ok env" and w: "w \<in> set (fst (publisher_do cfg js step))"
  shows "\<exists>env \<in> step_envs step. \<exists>i. flow_writes cfg js env i w \<or>
    step = StepClaim env i \<and> (upserts cfg env i LocationOrigin w \<or> renews cfg env i w)"
proof (cases step)
  case (StepAppeared env name)
  with ok w show ?thesis by (auto dest!: appeared_flow_writes)
next
  case (StepVanished env name)
  with ok w show ?thesis
    by (auto simp: publishVanished_def intro: stale_flow_writes split: option.splits)
next
  case (StepClaim env i)
  with ok w show ?thesis
    by (auto simp: claimOrigin_def io_bind_writes_iff dest!: lease_logged_writes
        dest: upsertLocation_writes renew_writes split: sum.splits if_splits)
next
  case (StepSync env at env' later)
  with ok have ok': "env_ok (at i)" "env_ok (later i)" for i by auto
  from w StepSync consider (appear) i where "w \<in> set (fst (publishAppeared cfg js (at i) (i @ flowDirSuffix)))"
    | (demote) held where "w \<in> set (fst (demoteVanishedLocalOrigins cfg env' later held))"
    by (auto simp: initialSync_def io_bind_writes_iff dest!: io_each_writes)
  then show ?thesis
  proof cases
    case appear with ok' StepSync show ?thesis by (auto dest!: appeared_at_writes)
  next
    case demote
    from demote_pass_writes[OF ok'(2) this] StepSync show ?thesis
      by (auto intro: flow_writes.intros)
  qed
next
  case (StepRenew env at)
  then have "\<exists>i. w \<in> set (fst (renew cfg (at i) (pub_key cfg i)))"
    using w by (auto simp: renew_tick_def dest!: io_each_writes split: if_splits sum.splits)
  with ok StepRenew show ?thesis by (auto dest!: renew_writes intro: fw_renew)
next
  case (StepRescan env probe at1 at2 at3)
  with ok have ok': "env_ok (at1 i)" "env_ok (at2 i)" "env_ok (at3 i)" for i by auto
  from StepRescan w have w': "w \<in> set (fst (rescan_tick cfg js env probe at1 at2 at3))" by simp
  have "\<exists>i. flow_writes cfg js (at1 i) i w \<or> flow_writes cfg js (at2 i) i w \<or> flow_writes cfg js (at3 i) i w"
    by (rule rescan_writes[OF ok' w'])
      (blast intro: fw_stale fw_release, blast dest: promote_flow_writes[OF ok'(2)], blast dest: observes_flow_writes)
  with StepRescan show ?thesis by auto
next
  case (StepRelease env at)
  then have "\<exists>i. w = DeleteLeaseOf (lease_key cfg (pub_key cfg i))"
    using w by (auto simp: releaseAll_def io_bind_writes_iff dest!: io_each_writes release_writes split: if_splits)
  with StepRelease show ?thesis using fw_release[of cfg js] by auto
qed

subsection \<open>Nobody else's entry\<close>

definition others :: "string \<Rightarrow> MxlFlow \<Rightarrow> MxlFlowLocation list" where
  "others node f = filter (\<lambda>l. loc_nodeName l \<noteq> node) (fst_locations (flow_status f))"

definition origin_in :: "string \<Rightarrow> MxlFlowLocation list \<Rightarrow> bool" where
  "origin_in node locs \<longleftrightarrow> (\<exists>l \<in> set locs. loc_nodeName l = node \<and> loc_phase l = LocationOrigin)"

definition is_origin :: "string \<Rightarrow> MxlFlow \<Rightarrow> bool" where
  "is_origin node f \<longleftrightarrow> origin_in node (fst_locations (flow_status f))"

lemma upsert_at_others:
  "upsert_at node phase observed appeared locs = Some (locs', written) \<Longrightarrow>
   filter (\<lambda>l. loc_nodeName l \<noteq> node) locs' = filter (\<lambda>l. loc_nodeName l \<noteq> node) locs"
  by (induction locs arbitrary: locs') (auto simp: upserted_def Let_def split: if_splits)

lemma origin_in_simps [simp]:
  "\<not> origin_in node []"
  "origin_in node (l # ls) \<longleftrightarrow> loc_nodeName l = node \<and> loc_phase l = LocationOrigin \<or> origin_in node ls"
  by (auto simp: origin_in_def)

lemma upsert_at_origin:
  "upsert_at node phase observed appeared locs = Some (locs', written) \<Longrightarrow> origin_in node locs' \<Longrightarrow> phase = LocationOrigin \<or> origin_in node locs"
  by (induction locs arbitrary: locs') (auto simp: upserted_def Let_def split: if_splits)

lemma stamp_own_others:
  "stamp_own node now locs = Some locs' \<Longrightarrow> filter (\<lambda>l. loc_nodeName l \<noteq> node) locs' = filter (\<lambda>l. loc_nodeName l \<noteq> node) locs"
  by (induction locs arbitrary: locs') (auto split: if_splits)

lemma stamp_own_phases:
  "stamp_own node now locs = Some locs' \<Longrightarrow>
   map (\<lambda>l. (loc_nodeName l, loc_phase l, loc_appearedAt l)) locs' = map (\<lambda>l. (loc_nodeName l, loc_phase l, loc_appearedAt l)) locs"
  by (induction locs arbitrary: locs') (auto split: if_splits)

lemma with_locations_sel [simp]:
  "fst_locations (flow_status (with_locations f locs)) = locs" "flow_spec (with_locations f locs) = flow_spec f"
  "flow_meta (with_locations f locs) = flow_meta f" "with_locations (with_locations f locs) locs' = with_locations f locs'"
  by (simp_all add: with_locations_def)

lemma stamp_own_origin: "stamp_own node now locs = Some locs' \<Longrightarrow> origin_in node locs' \<Longrightarrow> origin_in node locs"
  by (induction locs arbitrary: locs') (auto split: if_splits)

text \<open>What one status write changes.\<close>

definition own_update :: "publisher_config \<Rightarrow> publisher_env \<Rightarrow> string \<Rightarrow> MxlFlow \<Rightarrow> MxlFlow \<Rightarrow> bool" where
  "own_update cfg env i obj f \<longleftrightarrow>
     (\<exists>stage n. pe_flow env stage n (pub_key cfg i) = Inr obj) \<and>
     f = with_locations obj (fst_locations (flow_status f)) \<and> others (pc_node cfg) f = others (pc_node cfg) obj"

lemma upserts_update:
  assumes "upserts cfg env i phase (UpdateLocations f)"
  obtains obj where "own_update cfg env i obj f" "is_origin (pc_node cfg) f \<Longrightarrow> phase = LocationOrigin \<or> is_origin (pc_node cfg) obj"
proof -
  from assms obtain n obj locs written observed appeared where u: "pe_flow env AtUpsert n (pub_key cfg i) = Inr obj"
    "upsert_at (pc_node cfg) phase observed appeared (fst_locations (flow_status obj)) = Some (locs, written)"
    "f = with_locations obj locs" unfolding upserts_def by blast
  show thesis
    by (rule that[of obj])
      (use u(1,3) upsert_at_others[OF u(2)] upsert_at_origin[OF u(2)] in
        \<open>force simp: own_update_def others_def, auto simp: is_origin_def\<close>)
qed

lemma flow_writes_update:
  assumes "flow_writes cfg js env i (UpdateLocations f)"
  shows "\<exists>obj. own_update cfg env i obj f \<and> (is_origin (pc_node cfg) f \<longrightarrow> is_origin (pc_node cfg) obj \<or> origin_allowed cfg env i)"
  using assms
proof (cases rule: flow_writes.cases)
  case fw_stale then show ?thesis by (rule upserts_update) auto
next
  case fw_ready then show ?thesis by (rule upserts_update) auto
next
  case fw_origin then show ?thesis by - (erule upserts_update, auto)
next
  case (fw_observe n obj now locs)
  with stamp_own_others[OF fw_observe(3)] stamp_own_origin[OF fw_observe(3)] show ?thesis
    by (intro exI[of _ obj]) (auto simp: own_update_def others_def is_origin_def)
qed (auto simp: redefines_def renews_def)

text \<open>The positive evidence: a writer holds the lock on the data of the copy, which is neither a placeholder nor a set's
  output; the writers are not all mxl-k8s's own; and the mirrors were listed, and none is to this node of this flow, or
  a producer was found among the writers.\<close>

definition writer_seen :: "publisher_env \<Rightarrow> string \<Rightarrow> bool" where
  "writer_seen env flowID \<longleftrightarrow> pe_open env flowID = Opened \<and> pe_flock env flowID = FlockBusy"

definition origin_evidence :: "publisher_config \<Rightarrow> publisher_env \<Rightarrow> string \<Rightarrow> bool" where
  "origin_evidence cfg env flowID \<longleftrightarrow>
     \<not> pe_placeholder env flowID \<and> (pc_isOutput cfg \<longrightarrow> pe_isOutput env (pc_domain cfg) flowID = Inr False) \<and>
     writer_seen env flowID \<and> \<not> onlyOursWrite cfg env (readLocks cfg env) flowID \<and>
     (\<exists>ms. pe_mirrors env = Inr ms \<and>
        (list_all (\<lambda>m. mirror_ref m \<noteq> pub_ref cfg flowID \<or> ms_targetNode (mir_spec m) \<noteq> pc_node cfg) ms \<or>
         producerWrites cfg env (readLocks cfg env) flowID))"

text \<open>The looks that could not be taken: the data file could not be opened or its lock not tried, or the mirrors could not
  be listed. The code then takes a writer to be attached, and the copy not to be a mirror's.\<close>

definition look_failed :: "publisher_env \<Rightarrow> string \<Rightarrow> bool" where
  "look_failed env flowID \<longleftrightarrow>
     (\<exists>e. pe_open env flowID = OpenFailed e) \<or> (\<exists>e. pe_open env flowID = Opened \<and> pe_flock env flowID = FlockFailed e) \<or>
     (\<exists>e. pe_mirrors env = Inl e)"

lemma allowed_cases: "origin_allowed cfg env i \<Longrightarrow> origin_evidence cfg env i \<or> origin_allowed cfg env i \<and> look_failed env i"
  by (cases "pe_mirrors env") (auto simp: origin_allowed_def origin_evidence_def look_failed_def writer_seen_def writer_attached_def writerAttached_def list_all_iff
      split: open_answer.splits flock_answer.splits sum.splits)


subsection \<open>Leases\<close>

lemma held_local:
  "localFlowIDs env = Inr ids \<Longrightarrow> i \<in> set (heldFlowIDs at ids) \<Longrightarrow> writer_attached (at i) i \<and> \<not> pe_placeholder env i"
  by (auto simp: localFlowIDs_def heldFlowIDs_def split: sum.splits option.splits if_splits)

text \<open>The loop renews a Lease only for a flow that something on the node still writes and that is published with the node
  as its origin.\<close>

theorem renewals_are_for_live_origins:
  assumes "\<forall>i. env_ok (at i)" "\<forall>xs. set (pe_walk env xs) = set xs" "w \<in> set (fst (renew_tick cfg env at))"
  shows "\<exists>i flows f. renews cfg (at i) i w \<and> writer_attached (at i) i \<and> \<not> pe_placeholder env i \<and>
    pe_flows env = Inr flows \<and> f \<in> set flows \<and> flow_ref f = pub_ref cfg i \<and> is_origin (pc_node cfg) f"
proof -
  from assms(3) obtain ids os i where h: "localFlowIDs env = Inr ids" "localOrigins cfg env = Inr os"
    "i \<in> set (heldFlowIDs at ids)" "i \<in> set os" "w \<in> set (fst (renew cfg (at i) (pub_key cfg i)))"
    using assms(2) by (auto simp: renew_tick_def dest!: io_each_writes split: if_splits sum.splits)
  from h(2,4) obtain flows and f :: MxlFlow where f: "pe_flows env = Inr flows" "f \<in> set flows" "flow_ref f = pub_ref cfg i"
      "case own_location cfg f of None \<Rightarrow> False | Some loc \<Rightarrow> loc_phase loc = LocationOrigin"
    by (auto simp: localOrigins_def flow_ref_def pub_ref_def split: sum.splits)
  then have "is_origin (pc_node cfg) f"
    by (auto simp: own_location_def is_origin_def origin_in_def dest!: find_first_SomeD split: option.splits)
  with f h renew_writes[of "at i"] held_local assms(1) show ?thesis by blast
qed

subsection \<open>The rescan\<close>

lemma upsert_at_stale:
  "upsert_at node LocationStale observed appeared locs = Some (locs', written) \<Longrightarrow>
   \<exists>l. find_first (\<lambda>l. loc_nodeName l = node) locs' = Some l \<and> loc_phase l = LocationStale"
  by (induction locs arbitrary: locs') (auto simp: upserted_def Let_def split: if_splits)

definition rotation_view :: "MxlFlow \<Rightarrow> (string \<times> MxlFlowLocationPhase \<times> time option) list" where
  "rotation_view f = map (\<lambda>l. (loc_nodeName l, loc_phase l, loc_appearedAt l)) (fst_locations (flow_status f))"

text \<open>What is read under the name of a flow of the domain is that flow.\<close>

definition names_flow :: "publisher_config \<Rightarrow> (string \<Rightarrow> publisher_env) \<Rightarrow> bool" where
  "names_flow cfg at \<longleftrightarrow> (\<forall>i stage n obj. pe_flow (at i) stage n (pub_key cfg i) = Inr obj \<longrightarrow> flow_ref obj = pub_ref cfg i)"

lemma flow_ref_with_locations [simp]: "flow_ref (with_locations f locs) = flow_ref f"
  by (simp add: flow_ref_def with_locations_def)

lemma own_update_flow: "own_update cfg (at i) i obj f \<Longrightarrow> names_flow cfg at \<Longrightarrow> flow_ref f = pub_ref cfg i"
  unfolding own_update_def names_flow_def by (metis flow_ref_with_locations)

lemma observes_own: "observes cfg env i (UpdateLocations f) \<Longrightarrow> \<exists>obj. own_update cfg env i obj f"
  using flow_writes_update[OF observes_flow_writes] by blast

text \<open>C34. What the rescan may do to a flow of the domain. A status it writes is that of the flow read under its name, with
  one of three changes. The flow is not among those something on the node writes, and its entry was made Stale. Or
  it is among them, its entry was missing, stale or undated or a producer took the flow over, and it was published
  as on its appearance. Or it is among them, and the phases and the times of appearance, by which the gateway of the
  source decides that a producer has restarted, are as they were.\<close>

theorem rescan_leaves_healthy_flows:
  assumes "\<forall>env \<in> step_envs (StepRescan env probe at1 at2 at3). env_ok env" "\<forall>xs. set (pe_walk env xs) = set xs"
    and "names_flow cfg at1" "names_flow cfg at2" "names_flow cfg at3"
    and "UpdateLocations f \<in> set (fst (rescan_tick cfg js env probe at1 at2 at3))"
  shows "\<exists>ids i. localFlowIDs env = Inr ids \<and> flow_ref f = \<lparr>ref_domain = pc_domain cfg, ref_id = i\<rparr> \<and>
    (i \<notin> set (heldFlowIDs probe ids) \<and> (\<exists>l. own_location cfg f = Some l \<and> loc_phase l = LocationStale) \<or>
     i \<in> set (heldFlowIDs probe ids) \<and> flow_writes cfg js (at2 i) i (UpdateLocations f) \<and>
       (\<forall>flow. pe_flow (at2 i) AtPromote 0 (pub_key cfg i) = Inr flow \<longrightarrow>
          \<not> localLocationHealthy cfg flow \<or> producerTookOver cfg (at2 i) (readLocks cfg env) flow) \<or>
     i \<in> set (heldFlowIDs probe ids) \<and>
       (\<exists>n obj. pe_flow (at3 i) AtObserve n (pub_key cfg i) = Inr obj \<and> rotation_view f = rotation_view obj))"
proof -
  from assms(1) have ok: "env_ok (at1 i)" "env_ok (at2 i)" "env_ok (at3 i)" for i by auto
  have ref: "pub_ref cfg i = \<lparr>ref_domain = pc_domain cfg, ref_id = i\<rparr>" for i by (simp add: pub_ref_def)
  show ?thesis
  proof (rule rescan_writes[OF ok assms(6)])
    fix ids i assume h: "localFlowIDs env = Inr ids" "i \<notin> set (heldFlowIDs probe ids)"
      "upserts cfg (at1 i) i LocationStale (UpdateLocations f) \<or> UpdateLocations f = DeleteLeaseOf (lease_key cfg (pub_key cfg i))"
    then have u: "upserts cfg (at1 i) i LocationStale (UpdateLocations f)" by simp
    then have "\<exists>l. own_location cfg f = Some l \<and> loc_phase l = LocationStale"
      by (auto simp: upserts_def own_location_def dest!: upsert_at_stale)
    moreover obtain obj where "own_update cfg (at1 i) i obj f" using u by (rule upserts_update)
    then have "flow_ref f = pub_ref cfg i" using assms(3) by (rule own_update_flow)
    ultimately show ?thesis using h ref by metis
  next
    fix ids i assume h: "localFlowIDs env = Inr ids" "i \<in> set (pe_walk env (heldFlowIDs probe ids))"
      "UpdateLocations f \<in> set (fst (promote_flow cfg js (at2 i) (readLocks cfg env) i))"
    note w = promote_flow_writes[OF ok(2) h(3)]
    then have "flow_ref f = pub_ref cfg i" using flow_writes_update[of cfg js "at2 i" i f] own_update_flow assms(4) by blast
    with w h(1,2) assms(2) ref show ?thesis by metis
  next
    fix ids i assume h: "localFlowIDs env = Inr ids" "i \<in> set (pe_walk env (heldFlowIDs probe ids))" "observes cfg (at3 i) i (UpdateLocations f)"
    from h(3) have "\<exists>n obj. pe_flow (at3 i) AtObserve n (pub_key cfg i) = Inr obj \<and> rotation_view f = rotation_view obj"
      by (auto simp: observes_def rotation_view_def dest!: stamp_own_phases) blast
    moreover have "flow_ref f = pub_ref cfg i" using observes_own[OF h(3)] own_update_flow assms(5) by blast
    ultimately show ?thesis using h(1,2) assms(2) ref by metis
  qed
qed

subsection \<open>From the producer to the reader\<close>

text \<open>A retry whose first attempt succeeds makes no other.\<close>

definition stops_on_success :: "((nat \<Rightarrow> ('w, 'a) io) \<Rightarrow> ('w, 'a) io) \<Rightarrow> bool" where
  "stops_on_success retry \<longleftrightarrow> (\<forall>f x. snd (f 0) = Inr x \<longrightarrow> retry f = f 0)"

lemma bounded_stops: "stops_on_success (bounded_retry n 0)"
  by (cases n) (auto simp: stops_on_success_def)

lemma upsert_origin:
  "\<exists>locs'. upsert_at node LocationOrigin observed appeared locs = Some (locs', LocationOrigin) \<and> origin_in node locs'"
  by (induction locs) (auto simp: upserted_def Let_def)

lemma resolves_to:
  assumes "origin_in node (fst_locations (flow_status f))" "fr (flowref_name (flow_ref f)) node = Inr (True, d)"
    and stale: "\<And>n. n \<noteq> node \<Longrightarrow> is_stale fr (flowref_name (flow_ref f)) n"
  shows "resolveOrigin (Some f) (Some fr) = Inr (no_origin\<lparr>res_node := node, res_found := True, res_deadline := d\<rparr>)"
proof -
  from assms(1) have "node \<in> set (origins (fst_locations (flow_status f)))"
    by (auto simp: origins_def origin_in_def)
  then obtain us vs where o: "origins (fst_locations (flow_status f)) = us @ node # vs" "node \<notin> set us"
    by (meson split_list_first)
  have "list_all (is_stale fr (flowref_name (flow_ref f))) us"
    unfolding list_all_iff
  proof
    fix u assume "u \<in> set us"
    with o(2) have "u \<noteq> node" by auto
    then show "is_stale fr (flowref_name (flow_ref f)) u" by (rule stale)
  qed
  moreover have "\<not> is_stale fr (flowref_name (flow_ref f)) node" using assms(2) by (simp add: is_stale_def)
  ultimately show ?thesis using o(1) assms(2) by (simp add: resolveOrigin_def resolveLocations_first)
qed

lemma lease_seconds_window:
  assumes "pc_leaseSeconds cfg < 2 ^ 31" "lease_durationSeconds l = Some (lease_seconds cfg)"
  shows "lease_window l = lease_seconds cfg * second"
proof -
  have "0 < lease_seconds cfg" "lease_seconds cfg < 2 ^ 31"
    using assms(1) by (auto simp: lease_seconds_def DefaultLeaseDuration_def second_def)
  then show ?thesis using assms(2) by (simp add: lease_window_def mul64_def second_def)
qed

text \<open>The API server takes what the publisher writes on the first attempt.\<close>

definition server_takes :: "publisher_config \<Rightarrow> publisher_env \<Rightarrow> string \<Rightarrow> bool" where
  "server_takes cfg env i \<longleftrightarrow>
     (\<forall>f. \<exists>r. pe_create env f = Inr r) \<and> (\<forall>f. \<exists>r. pe_updateStatus env 0 f = Inr r) \<and>
     (\<forall>e. pe_getLease env 0 (lease_key cfg (pub_key cfg i)) = Inl e \<longrightarrow> isNotFound e) \<and>
     (\<forall>l. \<exists>r. pe_createLease env l = Inr r) \<and> (\<forall>l. \<exists>r. pe_updateLease env 0 l = Inr r) \<and> pe_renewCtx env = None \<and>
     stops_on_success (pe_retry env) \<and> stops_on_success (pe_retryPhase env)"

definition lease_written :: "publisher_write list \<Rightarrow> string \<Rightarrow> Lease \<Rightarrow> bool" where
  "lease_written ws node l \<longleftrightarrow> CreateLease l node \<in> set ws \<or> UpdateLease l node \<in> set ws"

lemma renew_attempt_ok:
  assumes "server_takes cfg env i"
  shows "snd (renew_attempt cfg env (pub_key cfg i) 0) = Inr () \<and>
    (\<exists>l. lease_written (fst (renew_attempt cfg env (pub_key cfg i) 0)) (pc_node cfg) l \<and>
       lease_renewTime l = Some (pe_leaseNow env 0) \<and> lease_durationSeconds l = Some (lease_seconds cfg))"
proof (cases "pe_getLease env 0 (lease_key cfg (pub_key cfg i))")
  case (Inl e)
  with assms have "isNotFound e" "\<exists>r. pe_createLease env (new_lease cfg (pub_key cfg i) (pe_leaseNow env 0)) = Inr r"
    by (auto simp: server_takes_def)
  with Inl show ?thesis
    by (auto simp: renew_attempt_def Let_def lease_written_def new_lease_def)
next
  case (Inr l)
  from assms obtain r where "pe_updateLease env 0 (l\<lparr>lease_renewTime := Some (pe_leaseNow env 0), lease_durationSeconds := Some (lease_seconds cfg)\<rparr>) = Inr r"
    unfolding server_takes_def by blast
  with Inr show ?thesis by (auto simp: renew_attempt_def Let_def lease_written_def)
qed

lemma renew_ok:
  assumes "server_takes cfg env i"
  shows "snd (renew cfg env (pub_key cfg i)) = Inr () \<and>
    fst (renew cfg env (pub_key cfg i)) = fst (renew_attempt cfg env (pub_key cfg i) 0)"
proof -
  from assms renew_attempt_ok[OF assms] have "pe_retry env (renew_attempt cfg env (pub_key cfg i)) = renew_attempt cfg env (pub_key cfg i) 0"
    by (simp add: server_takes_def stops_on_success_def)
  with assms renew_attempt_ok[OF assms] show ?thesis by (simp add: renew_def server_takes_def)
qed

lemma upsert_ok:
  assumes "server_takes cfg env i" "pe_flow env AtUpsert 0 (pub_key cfg i) = Inr obj"
  shows "\<exists>locs. origin_in (pc_node cfg) locs \<and>
    upsertLocation cfg env i LocationOrigin observed appeared = ([UpdateLocations (with_locations obj locs)], Inr (Some LocationOrigin))"
proof -
  obtain locs where locs: "upsert_at (pc_node cfg) LocationOrigin observed appeared (fst_locations (flow_status obj)) = Some (locs, LocationOrigin)"
    "origin_in (pc_node cfg) locs" using upsert_origin by blast
  from assms(1) obtain r where r: "pe_updateStatus env 0 (with_locations obj locs) = Inr r" unfolding server_takes_def by blast
  have "upsert_attempt cfg env i LocationOrigin observed appeared 0 = ([UpdateLocations (with_locations obj locs)], Inr (Some LocationOrigin))"
    using assms(2) locs r by (simp add: upsert_attempt_def Let_def io_ret_def)
  with assms(1) locs(2) show ?thesis
    by (auto simp: upsertLocation_def server_takes_def stops_on_success_def io_wrap_def)
qed

lemma create_ok: "server_takes cfg env i \<Longrightarrow> snd (create_flow cfg env i raw) = Inr ()"
proof -
  assume "server_takes cfg env i"
  then obtain r where "pe_create env (new_flow cfg i raw) = Inr r" unfolding server_takes_def by blast
  then show ?thesis by (simp add: create_flow_def Let_def)
qed

lemma evidence_phase: "origin_allowed cfg env i \<Longrightarrow> appeared_phase cfg env i = LocationOrigin"
  by (auto simp: origin_allowed_def appeared_phase_def isMirrorTarget_def list_ex_iff split: sum.splits)

lemma publish_copy_writes_both:
  assumes "server_takes cfg env i" "pe_flow env AtUpsert 0 (pub_key cfg i) = Inr obj"
  shows "\<exists>f l. UpdateLocations f \<in> set (fst (publish_copy cfg js env i raw LocationOrigin)) \<and>
    (pc_lease cfg \<longrightarrow> lease_written (fst (publish_copy cfg js env i raw LocationOrigin)) (pc_node cfg) l) \<and>
    flow_spec f = flow_spec obj \<and> is_origin (pc_node cfg) f \<and>
    lease_renewTime l = Some (pe_leaseNow env 0) \<and> lease_durationSeconds l = Some (lease_seconds cfg)"
proof -
  obtain locs where up: "origin_in (pc_node cfg) locs"
    "upsertLocation cfg env i LocationOrigin (Some (pe_now env)) (Some (pe_now env)) = ([UpdateLocations (with_locations obj locs)], Inr (Some LocationOrigin))"
    using upsert_ok[OF assms] by blast
  obtain l where l: "lease_written (fst (renew_attempt cfg env (pub_key cfg i) 0)) (pc_node cfg) l"
    "lease_renewTime l = Some (pe_leaseNow env 0)" "lease_durationSeconds l = Some (lease_seconds cfg)"
    using renew_attempt_ok[OF assms(1)] by blast
  let ?ws = "fst (publish_copy cfg js env i raw LocationOrigin)"
  have "UpdateLocations (with_locations obj locs) \<in> set ?ws"
    using create_ok[OF assms(1)] up(2) by (simp add: publish_copy_def io_bind_writes_iff)
  moreover have "lease_written ?ws (pc_node cfg) l" if "pc_lease cfg"
    using that l(1) create_ok[OF assms(1)] up(2) renew_ok[OF assms(1)]
    by (auto simp: publish_copy_def io_bind_writes_iff lease_logged_def lease_written_def)
  ultimately show ?thesis using l(2,3) up(1)
    by (intro exI[of _ "with_locations obj locs"] exI[of _ l]) (simp add: is_origin_def)
qed

text \<open>C33. From a producer's first write to a reader's resolution. When a flow appears whose writer is a producer's, and the
  API server takes the writes, the flow is published with the node as an origin and its Lease is renewed; then, for as
  long as the window of that Lease, the resolution of the origin on what was written answers this node, if no other
  node's Lease is fresh.\<close>

theorem published_origin_is_resolved:
  assumes "flowIDFromDirName name = Some i" "origin_allowed cfg env i" "pe_def env i = Inr raw" "rj_valid js raw"
    and "server_takes cfg env i" "pc_lease cfg" "pc_leaseSeconds cfg < 2 ^ 31"
    and "pe_flow env AtUpsert 0 (pub_key cfg i) = Inr obj" "flow_ref obj = pub_ref cfg i"
  shows "\<exists>f l. UpdateLocations f \<in> set (fst (publishAppeared cfg js env name)) \<and>
    lease_written (fst (publishAppeared cfg js env name)) (pc_node cfg) l \<and>
    (\<forall>get now. get (lease_key cfg (pub_key cfg i)) = Inr l \<longrightarrow> now < pe_leaseNow env 0 + lease_seconds cfg * second \<longrightarrow>
       (\<forall>n. n \<noteq> pc_node cfg \<longrightarrow> is_stale (isFresh (Some get) now) (pub_key cfg i) n) \<longrightarrow>
       resolveOrigin (Some f) (Some (isFresh (Some get) now)) =
         Inr (no_origin\<lparr>res_node := pc_node cfg, res_found := True, res_deadline := pe_leaseNow env 0 + lease_seconds cfg * second\<rparr>))"
proof -
  obtain f l where w: "UpdateLocations f \<in> set (fst (publish_copy cfg js env i raw LocationOrigin))"
    "lease_written (fst (publish_copy cfg js env i raw LocationOrigin)) (pc_node cfg) l" "flow_spec f = flow_spec obj"
    "is_origin (pc_node cfg) f" "lease_renewTime l = Some (pe_leaseNow env 0)" "lease_durationSeconds l = Some (lease_seconds cfg)"
    using publish_copy_writes_both[OF assms(5,8), of js raw] assms(6) by blast
  have "publishAppeared cfg js env name = publish_copy cfg js env i raw LocationOrigin"
    using assms(1,3,4) assms(2)[unfolded origin_allowed_def] evidence_phase[OF assms(2)]
    by (cases "pc_isOutput cfg") (simp_all add: publishAppeared_def)
  moreover have "flow_ref f = pub_ref cfg i" using w(3) assms(9) by (simp add: flow_ref_def)
  moreover have "isFresh (Some get) now (pub_key cfg i) (pc_node cfg) = Inr (True, pe_leaseNow env 0 + lease_seconds cfg * second)"
    if "get (lease_key cfg (pub_key cfg i)) = Inr l" "now < pe_leaseNow env 0 + lease_seconds cfg * second" for get now
    using that w(5) lease_seconds_window[OF assms(7) w(6)] by (simp add: isFresh_def lease_key_def Let_def)
  ultimately show ?thesis using w(1,2,4) unfolding is_origin_def
    by (intro exI[of _ f] exI[of _ l]) (simp add: resolves_to pub_key_def)
qed

subsection \<open>Examples\<close>

definition example_pub_cfg :: publisher_config where
  "example_pub_cfg = \<lparr>pc_domainPath = ''/d'', pc_node = ''n1'', pc_domain = '''', pc_lease = True, pc_leaseSeconds = 30,
     pc_isOutput = False, pc_producer = False, pc_ours = False\<rparr>"

definition example_json :: "string raw_json" where
  "example_json = \<lparr>rj_valid = (\<lambda>_. True), rj_members = (\<lambda>s. Inr (\<lambda>k. if k = ''id'' then Some s else None)),
     rj_print = (\<lambda>m. Inr (case m ''id'' of None \<Rightarrow> '''' | Some s \<Rightarrow> s)), rj_value = Some\<rparr>"

definition example_pub_flow :: MxlFlow where
  "example_pub_flow = with_locations (new_flow example_pub_cfg ''f'' ''{}'')
     [\<lparr>loc_nodeName = ''n2'', loc_phase = LocationReady, loc_lastObserved = None, loc_appearedAt = None\<rparr>]"

definition example_pub_env :: "MxlFlow \<Rightarrow> publisher_env" where
  "example_pub_env obj =
     \<lparr>pe_placeholder = (\<lambda>_. False), pe_isOutput = (\<lambda>_ _. Inr False), pe_def = (\<lambda>_. Inr ''{}''),
      pe_open = (\<lambda>_. Opened), pe_flock = (\<lambda>_. FlockBusy), pe_locks = Inr [], pe_stat = (\<lambda>_. StatMissing),
      pe_producer = (\<lambda>_. False), pe_ours = (\<lambda>_. False), pe_mirrors = Inr [], pe_create = (\<lambda>_. Inr obj),
      pe_flow = (\<lambda>_ _ k. if k = ''f'' then Inr obj else Inl ENotFound), pe_flows = Inr [obj], pe_update = (\<lambda>_. Inr), pe_updateStatus = (\<lambda>_. Inr),
      pe_getLease = (\<lambda>_ _. Inl ENotFound), pe_createLease = (\<lambda>_. Inr ()), pe_updateLease = (\<lambda>_ _. Inr ()), pe_deleteLease = (\<lambda>_. Inr ()),
      pe_renewCtx = None, pe_leaseNow = (\<lambda>_. 100 * second), pe_retry = bounded_retry 4 0, pe_retryPhase = bounded_retry 4 0,
      pe_entries = Inr [(''f.mxl-flow'', True)], pe_walk = id, pe_now = 100 * second\<rparr>"

lemma example_env_ok: "env_ok (example_pub_env obj)"
  by (simp add: env_ok_def example_pub_env_def bounded_attempts_only)

lemma example_walk: "set (pe_walk (example_pub_env obj) xs) = set xs"
  by (simp add: example_pub_env_def)

definition example_published :: MxlFlow where
  "example_published = with_locations example_pub_flow (fst_locations (flow_status example_pub_flow) @
     [\<lparr>loc_nodeName = ''n1'', loc_phase = LocationOrigin, loc_lastObserved = Some (100 * second), loc_appearedAt = Some (100 * second)\<rparr>])"

lemma example_appeared_writes:
  "UpdateLocations example_published \<in> set (fst (publisher_do example_pub_cfg example_json (StepAppeared (example_pub_env example_pub_flow) ''f.mxl-flow'')))"
  by code_simp


theorem renewals_are_for_live_origins_witness:
  "\<exists>i flows f. renews example_pub_cfg (example_pub_env example_published) i
       (CreateLease (new_lease example_pub_cfg ''f'' (100 * second)) ''n1'') \<and>
     writer_attached (example_pub_env example_published) i \<and> \<not> pe_placeholder (example_pub_env example_published) i \<and>
     pe_flows (example_pub_env example_published) = Inr flows \<and> f \<in> set flows \<and> flow_ref f = pub_ref example_pub_cfg i \<and>
     is_origin (pc_node example_pub_cfg) (f :: MxlFlow)"
proof (rule renewals_are_for_live_origins)
  show "CreateLease (new_lease example_pub_cfg ''f'' (100 * second)) ''n1''
    \<in> set (fst (renew_tick example_pub_cfg (example_pub_env example_published) (\<lambda>_. example_pub_env example_published)))" by code_simp
qed (simp_all add: example_env_ok example_walk)

definition example_observed :: MxlFlow where
  "example_observed = with_locations example_published (map (\<lambda>l. if loc_nodeName l = ''n1'' then l\<lparr>loc_lastObserved := Some (130 * second)\<rparr> else l)
     (fst_locations (flow_status example_published)))"

definition example_rescan :: "publisher_env" where
  "example_rescan = (example_pub_env example_published)\<lparr>pe_now := 130 * second\<rparr>"

lemma example_names: "names_flow example_pub_cfg (\<lambda>_. example_rescan)"
  by (auto simp: names_flow_def example_rescan_def example_pub_env_def example_published_def example_pub_flow_def example_pub_cfg_def
      pub_key_def pub_ref_def flowref_name_def flow_ref_def with_locations_def new_flow_def split: if_splits)

lemma example_rescan_writes:
  "UpdateLocations example_observed \<in> set (fst (rescan_tick example_pub_cfg example_json example_rescan
    (\<lambda>_. example_rescan) (\<lambda>_. example_rescan) (\<lambda>_. example_rescan) (\<lambda>_. example_rescan)))" by code_simp

theorem rescan_leaves_healthy_flows_witness:
  "localFlowIDs example_rescan = Inr [''f''] \<and> flow_ref example_observed = \<lparr>ref_domain = '''', ref_id = ''f''\<rparr> \<and>
   rotation_view example_observed = rotation_view example_published"
proof -
  let ?at = "\<lambda>_::string. example_rescan"
  have c: "localFlowIDs example_rescan = Inr [''f'']" "set (heldFlowIDs ?at [''f'']) = {''f''}"
    "pc_domain example_pub_cfg = ''''"
    "pe_flow example_rescan AtPromote 0 (pub_key example_pub_cfg ''f'') = Inr example_published"
    "localLocationHealthy example_pub_cfg example_published"
    "\<not> producerTookOver example_pub_cfg example_rescan (readLocks example_pub_cfg example_rescan) example_published"
    by code_simp+
  have p: "pe_flow example_rescan AtObserve n (pub_key example_pub_cfg i) = Inr obj \<Longrightarrow> obj = example_published" for n i obj
    by (auto simp: example_rescan_def example_pub_env_def split: if_splits)
  have env: "\<forall>env \<in> step_envs (StepRescan example_rescan ?at ?at ?at ?at). env_ok env" "\<forall>xs. set (pe_walk example_rescan xs) = set xs"
    using example_env_ok[of example_published] example_walk[of example_published] by (simp_all add: env_ok_def example_rescan_def)
  from rescan_leaves_healthy_flows[OF env example_names example_names example_names example_rescan_writes]
  obtain i where i: "flow_ref example_observed = \<lparr>ref_domain = '''', ref_id = i\<rparr>"
    "i \<notin> {''f''} \<or> flow_writes example_pub_cfg example_json example_rescan i (UpdateLocations example_observed) \<and>
       (\<forall>flow. pe_flow example_rescan AtPromote 0 (pub_key example_pub_cfg i) = Inr flow \<longrightarrow>
          \<not> localLocationHealthy example_pub_cfg flow \<or> producerTookOver example_pub_cfg example_rescan (readLocks example_pub_cfg example_rescan) flow) \<or>
     (\<exists>n obj. pe_flow example_rescan AtObserve n (pub_key example_pub_cfg i) = Inr obj \<and> rotation_view example_observed = rotation_view obj)"
    unfolding c(1,3) sum.inject by (metis c(2))
  have "flow_ref example_observed = \<lparr>ref_domain = '''', ref_id = ''f''\<rparr>" by code_simp
  with i(1) have "i = ''f''" by simp
  with i(2) c(4-6) have "\<exists>n obj. pe_flow example_rescan AtObserve n (pub_key example_pub_cfg i) = Inr obj \<and> rotation_view example_observed = rotation_view obj"
    by blast
  with p have "rotation_view example_observed = rotation_view example_published" by metis
  with c(1) i(1) \<open>i = ''f''\<close> show ?thesis by simp
qed

theorem published_origin_is_resolved_witness:
  "\<exists>f l. UpdateLocations f \<in> set (fst (publishAppeared example_pub_cfg example_json (example_pub_env example_pub_flow) ''f.mxl-flow'')) \<and>
    lease_written (fst (publishAppeared example_pub_cfg example_json (example_pub_env example_pub_flow) ''f.mxl-flow'')) (pc_node example_pub_cfg) l \<and>
    (\<forall>get now. get (lease_key example_pub_cfg (pub_key example_pub_cfg ''f'')) = Inr l \<longrightarrow>
       now < pe_leaseNow (example_pub_env example_pub_flow) 0 + lease_seconds example_pub_cfg * second \<longrightarrow>
       (\<forall>n. n \<noteq> pc_node example_pub_cfg \<longrightarrow> is_stale (isFresh (Some get) now) (pub_key example_pub_cfg ''f'') n) \<longrightarrow>
       resolveOrigin (Some f) (Some (isFresh (Some get) now)) =
         Inr (no_origin\<lparr>res_node := pc_node example_pub_cfg, res_found := True,
           res_deadline := pe_leaseNow (example_pub_env example_pub_flow) 0 + lease_seconds example_pub_cfg * second\<rparr>))"
proof (rule published_origin_is_resolved)
  show "origin_allowed example_pub_cfg (example_pub_env example_pub_flow) ''f''"
    by (simp add: origin_allowed_def example_pub_cfg_def example_pub_env_def writer_attached_def writerAttached_def onlyOursWrite_def)
  show "server_takes example_pub_cfg (example_pub_env example_pub_flow) ''f''"
    by (simp add: server_takes_def example_pub_env_def bounded_stops)
  show "pe_def (example_pub_env example_pub_flow) ''f'' = Inr ''{}''"
    "pe_flow (example_pub_env example_pub_flow) AtUpsert 0 (pub_key example_pub_cfg ''f'') = Inr example_pub_flow"
    by (simp_all add: example_pub_env_def pub_key_def pub_ref_def flowref_name_def example_pub_cfg_def)
qed code_simp+

end
