(* ===== verification/Transfer_Loop.thy ===== *)
theory Transfer_Loop
  imports Merge_Discrete "HOL-Library.Word"
begin

section \<open>Sending a flow to a mirror (gateway/internal/mirror/source_transfer.go)\<close>

text \<open>
  The loop of a mirror's source half: read the ring of the local flow, post what it holds to the target, wait until the
  post is complete, go on. What the reader, the initiator and the clock answer is a script, one entry per turn of a loop;
  a loop whose script ends is still running. Slices are 16-bit words, indices \<^verbatim>\<open>uint64\<close> and, inside the grain loop,
  \<^verbatim>\<open>int64\<close>. What the loop tells its tracker and its recorder is its trace. The classification of errors is from
  \<^verbatim>\<open>common.go\<close>.
\<close>

subsection \<open>Errors\<close>

datatype mxl_error =
    MxlNotReady
  | MxlInterrupted
  | MxlTimeout
  | MxlInvalidArg
  | MxlUnsupported
  | MxlStrLen
  | MxlPermission
  | MxlTooLate
  | MxlOther string

datatype fabricFailure = FabricIdle | FabricTransient | FabricEndpointLost | FabricPermanent

text \<open>\<open>None\<close> is the nil error.\<close>

definition classifyFabricError :: "mxl_error option \<Rightarrow> fabricFailure" where
  "classifyFabricError err =
     (case err of
        None \<Rightarrow> FabricIdle
      | Some e \<Rightarrow>
          if e = MxlNotReady then FabricIdle
          else if e \<in> {MxlInterrupted, MxlTimeout} then FabricTransient
          else if e \<in> {MxlInvalidArg, MxlUnsupported, MxlStrLen, MxlPermission} then FabricPermanent
          else FabricEndpointLost)"

definition readerAgedOutMarker :: string where
  "readerAgedOutMarker = ''out of range (too late)''"

text \<open>The marker is the text of the one libmxl error.\<close>

definition isReaderAgedOut :: "mxl_error \<Rightarrow> bool" where
  "isReaderAgedOut e = (case e of MxlTooLate \<Rightarrow> True | MxlOther t \<Rightarrow> contains readerAgedOutMarker t | _ \<Rightarrow> False)"

text \<open>An error of a transfer: of the post, wrapped in \<open>errPost\<close>, or of the read.\<close>

datatype transfer_error = ErrPost mxl_error | ErrRead mxl_error

fun cause :: "transfer_error \<Rightarrow> mxl_error" where
  "cause (ErrPost e) = e"
| "cause (ErrRead e) = e"

definition retryablePost :: "mxl_error \<Rightarrow> bool" where
  "retryablePost e \<longleftrightarrow> classifyFabricError (Some e) \<in> {FabricIdle, FabricTransient}"

subsection \<open>Posting a grain\<close>

type_synonym uint16 = "16 word"

definition GrainValidSlicesAll :: uint16 where "GrainValidSlicesAll = 65535"
definition GrainValidSlicesAny :: uint16 where "GrainValidSlicesAny = 0"

record src_grain =
  sg_invalid :: bool
  sg_valid :: uint16
  sg_total :: uint16

record grainStep =
  gs_next :: uint16
  gs_bytes :: uint64
  gs_invalid :: bool

definition batchEnd :: "uint16 \<Rightarrow> uint16 \<Rightarrow> uint16" where
  "batchEnd start batch =
     (if batch = 0 \<or> start > GrainValidSlicesAll - batch then GrainValidSlicesAll else start + batch)"

datatype unsentReason = UnsentResync | UnsentAgedOut

datatype transfer_event =
    PostedGrain uint64 uint16 uint16
  | PostedSamples uint64 uint64
  | SawHead uint64
  | AgedOut
  | PassedOver unsentReason uint64
  | ReadOk uint64 uint64
  | ReadFailed mxl_error uint64
  | ReadInvalid uint64
  | RingOvertook uint64
  | SkippedSamples uint64
  | Completed uint64 uint64 bool
  | PostFailed mxl_error
  | TargetEvicted
  | Dropped bool

text \<open>\<open>read\<close> is \<^verbatim>\<open>GetGrainSlice\<close>, \<open>reply\<close> what \<^verbatim>\<open>TransferGrain\<close> answers.\<close>

definition post_grain :: "mxl_error option \<Rightarrow> uint64 \<Rightarrow> uint64 \<Rightarrow> uint16 \<Rightarrow> uint16 \<Rightarrow> transfer_error + uint64" where
  "post_grain reply perSlice idx start end' =
     (case reply of Some e \<Rightarrow> Inl (ErrPost e) | None \<Rightarrow> Inr (u64 (uint (end' - start) * perSlice)))"

definition readForTransfer :: "(uint64 \<Rightarrow> uint16 \<Rightarrow> mxl_error + src_grain) \<Rightarrow> uint64 \<Rightarrow> bool \<Rightarrow> uint16 \<Rightarrow> mxl_error + src_grain" where
  "readForTransfer read idx data minValid = read idx (if data then GrainValidSlicesAny else minValid)"

definition newGrainTransfer ::
  "bool \<Rightarrow> uint64 \<Rightarrow> uint16 \<Rightarrow> (uint64 \<Rightarrow> uint16 \<Rightarrow> mxl_error + src_grain) \<Rightarrow> mxl_error option \<Rightarrow> uint64 \<Rightarrow> uint16 \<Rightarrow>
   transfer_event list \<times> (transfer_error + grainStep)" where
  "newGrainTransfer data perSlice batch read reply idx start =
     (case readForTransfer read idx data (batchEnd start batch) of
        Inl e \<Rightarrow> ([], Inl (ErrRead e))
      | Inr g \<Rightarrow>
          if sg_invalid g
          then ([PostedGrain idx 0 0], map_sum id (\<lambda>b. \<lparr>gs_next = 0, gs_bytes = b, gs_invalid = True\<rparr>) (post_grain reply perSlice idx 0 0))
          else if data
          then ([PostedGrain idx 0 (sg_valid g)],
                map_sum id (\<lambda>b. \<lparr>gs_next = 0, gs_bytes = b, gs_invalid = False\<rparr>) (post_grain reply perSlice idx 0 (sg_valid g)))
          else let end' = max (sg_valid g) start
               in ([PostedGrain idx start end'],
                   map_sum id (\<lambda>b. \<lparr>gs_next = (if end' \<ge> sg_total g then 0 else end'), gs_bytes = b, gs_invalid = False\<rparr>)
                     (post_grain reply perSlice idx start end')))"

subsection \<open>Waiting for a post\<close>

definition progressTimeout :: duration where "progressTimeout = 10 * millisecond"
definition abandonAfter :: duration where "abandonAfter = 2 * second"
definition sourceReadTimeout :: duration where "sourceReadTimeout = 200 * millisecond"
definition maxMirrorLag :: int where "maxMirrorLag = 4"

record progress_call =
  pg_done :: bool
  pg_progress :: "mxl_error option"
  pg_poll :: "mxl_error option"
  pg_elapsed :: duration

datatype await_answer = AwaitCancelled | AwaitComplete bool | AwaitLost bool

text \<open>\<open>None\<close>: still waiting. \<open>AwaitLost\<close> says whether the initiator evicted the target.\<close>

fun awaitTransfer :: "duration \<Rightarrow> progress_call list \<Rightarrow> await_answer option" where
  "awaitTransfer deadline [] = None"
| "awaitTransfer deadline (c # cs) =
     (if pg_done c then Some AwaitCancelled
      else let perr = (if classifyFabricError (pg_progress c) = FabricTransient then pg_poll c else pg_progress c)
           in case perr of
                None \<Rightarrow> Some (AwaitComplete (deadline > 0 \<and> pg_elapsed c > deadline))
              | Some e \<Rightarrow>
                  if classifyFabricError perr = FabricIdle
                  then (if pg_elapsed c > abandonAfter then Some (AwaitLost False) else awaitTransfer deadline cs)
                  else if e = MxlInterrupted then Some (AwaitLost True)
                  else Some (AwaitLost False))"

text \<open>The trace of a target given up; a cancelled loop reports nothing.\<close>

definition gave_up :: "bool \<Rightarrow> bool \<Rightarrow> bool \<Rightarrow> transfer_event list" where
  "gave_up cancelled evicted outstanding =
     (if cancelled then [] else (if evicted then [TargetEvicted] else []) @ [Dropped outstanding])"

datatype connect_answer = Connecting | Connected | NotConnected

definition awaitConnected :: "progress_call list \<Rightarrow> bool \<Rightarrow> transfer_event list \<times> connect_answer" where
  "awaitConnected calls cancelled =
     (case awaitTransfer 0 calls of
        None \<Rightarrow> ([], Connecting)
      | Some AwaitCancelled \<Rightarrow> ([], NotConnected)
      | Some (AwaitLost evicted) \<Rightarrow> (gave_up cancelled evicted False, NotConnected)
      | Some (AwaitComplete _) \<Rightarrow> ([], Connected))"

subsection \<open>The grain loop\<close>

record grain_turn =
  gt_cancelled :: bool
  gt_probe :: "mxl_error + uint64"
  gt_read :: "uint64 \<Rightarrow> uint16 \<Rightarrow> mxl_error + src_grain"
  gt_reply :: "mxl_error option"
  gt_await :: "progress_call list"
  gt_cancelledAfter :: bool

record flow_shape =
  sh_data :: bool
  sh_perSlice :: uint64
  sh_batch :: uint16
  sh_interval :: duration

type_synonym grain_state = "int \<times> uint16"

datatype 's turn_end = GoOn 's | Waiting 's | Stopped

definition resyncs :: "int \<Rightarrow> uint16 \<Rightarrow> int \<Rightarrow> bool" where
  "resyncs lastSent start h \<longleftrightarrow> start = 0 \<and> h > maxMirrorLag \<and> lastSent < sub64 h maxMirrorLag"

definition next_grain :: "int \<Rightarrow> uint16 \<Rightarrow> int \<Rightarrow> int" where
  "next_grain lastSent start h = (if resyncs lastSent start h then h else add64 lastSent 1)"

definition resync_events :: "int \<Rightarrow> uint16 \<Rightarrow> int \<Rightarrow> transfer_event list" where
  "resync_events lastSent start h =
     (if resyncs lastSent start h \<and> lastSent > 0
      then [AgedOut, PassedOver UnsentResync (u64 (sub64 h (add64 lastSent 1)))] else [])"

definition send_grain :: "flow_shape \<Rightarrow> grain_turn \<Rightarrow> int \<Rightarrow> uint16 \<Rightarrow> int \<Rightarrow> int \<Rightarrow> transfer_event list \<times> grain_state turn_end" where
  "send_grain sh t lastSent start h next =
     (case newGrainTransfer (sh_data sh) (sh_perSlice sh) (sh_batch sh) (gt_read t) (gt_reply t) (u64 next) start of
        (posts, Inl e) \<Rightarrow>
          if isReaderAgedOut (cause e)
          then (posts @ [AgedOut, PassedOver UnsentAgedOut (u64 (add64 (sub64 h next) 1)), ReadFailed (cause e) (u64 next),
                 RingOvertook (u64 (add64 (sub64 h next) 1))], GoOn (h, 0))
          else (case e of
                  ErrPost pe \<Rightarrow>
                    if retryablePost pe then (posts, GoOn (lastSent, start))
                    else (posts @ [PostFailed pe, Dropped False], Stopped)
                | ErrRead re \<Rightarrow> (posts @ [ReadFailed re (u64 next)], GoOn (lastSent, start)))
      | (posts, Inr g) \<Rightarrow>
          (case awaitTransfer (sh_interval sh) (gt_await t) of
             None \<Rightarrow> (posts, Waiting (lastSent, start))
           | Some answer \<Rightarrow>
               let read = (if gs_next g = 0 then [if gs_invalid g then ReadInvalid (u64 next) else ReadOk (u64 next) 1] else [])
               in case answer of
                    AwaitComplete late \<Rightarrow>
                      (posts @ read @ [Completed (u64 next) (gs_bytes g) late],
                       GoOn (if gs_next g = 0 then next else lastSent, gs_next g))
                  | AwaitCancelled \<Rightarrow> (posts @ read, Stopped)
                  | AwaitLost evicted \<Rightarrow> (posts @ read @ gave_up (gt_cancelledAfter t) evicted True, Stopped)))"

definition grain_pass :: "flow_shape \<Rightarrow> grain_turn \<Rightarrow> grain_state \<Rightarrow> transfer_event list \<times> grain_state turn_end" where
  "grain_pass sh t st =
     (case st of (lastSent, start) \<Rightarrow>
        if gt_cancelled t then ([], Stopped)
        else case gt_probe t of
               Inl _ \<Rightarrow> ([], GoOn st)
             | Inr head \<Rightarrow>
                 let h = i64 head;
                     sent = send_grain sh t lastSent start h (next_grain lastSent start h)
                 in (SawHead head # resync_events lastSent start h @ fst sent, snd sent))"

fun grain_loop :: "flow_shape \<Rightarrow> grain_turn list \<Rightarrow> grain_state \<Rightarrow> transfer_event list \<times> grain_state turn_end" where
  "grain_loop sh [] st = ([], GoOn st)"
| "grain_loop sh (t # ts) st =
     (case grain_pass sh t st of
        (es, GoOn st') \<Rightarrow> (es @ fst (grain_loop sh ts st'), snd (grain_loop sh ts st'))
      | (es, end') \<Rightarrow> (es, end'))"

definition runTransferLoop ::
  "flow_shape \<Rightarrow> progress_call list \<Rightarrow> bool \<Rightarrow> mxl_error + uint64 \<Rightarrow> grain_turn list \<Rightarrow> transfer_event list \<times> grain_state turn_end" where
  "runTransferLoop sh connect cancelled head0 turns =
     (case awaitConnected connect cancelled of
        (es, Connecting) \<Rightarrow> (es, Waiting (0, 0))
      | (es, NotConnected) \<Rightarrow> (es, Stopped)
      | (es, Connected) \<Rightarrow>
          (case head0 of
             Inl _ \<Rightarrow> (es, Stopped)
           | Inr h \<Rightarrow> (es @ SawHead h # fst (grain_loop sh turns (i64 h, 0)), snd (grain_loop sh turns (i64 h, 0)))))"

subsection \<open>The sample loop\<close>

record sample_turn =
  st_cancelled :: bool
  st_probe :: "mxl_error + uint64"
  st_reply :: "mxl_error + uint64"
  st_await :: "progress_call list"
  st_cancelledAfter :: bool

definition aged_limit :: "uint64 \<Rightarrow> uint64 \<Rightarrow> uint64" where
  "aged_limit maxReadable xferBatch = (if maxReadable > xferBatch then u64 (maxReadable - xferBatch) else maxReadable)"

definition catch_up :: "uint64 \<Rightarrow> uint64 \<Rightarrow> uint64 \<Rightarrow> transfer_event list \<times> uint64" where
  "catch_up agedOut lastSent head =
     (if agedOut > 0 \<and> u64 (head - lastSent) > agedOut
      then ([AgedOut, SkippedSamples (u64 (head - agedOut - lastSent))], u64 (head - agedOut)) else ([], lastSent))"

definition send_samples :: "duration \<Rightarrow> uint64 \<Rightarrow> sample_turn \<Rightarrow> uint64 \<Rightarrow> transfer_event list \<times> uint64 turn_end" where
  "send_samples interval xferBatch t lastSent =
     (let end' = u64 (lastSent + xferBatch); post = PostedSamples end' xferBatch
      in case st_reply t of
           Inl e \<Rightarrow> if retryablePost e then ([post], GoOn lastSent) else ([post, PostFailed e, Dropped False], Stopped)
         | Inr bytes \<Rightarrow>
             (case awaitTransfer interval (st_await t) of
                None \<Rightarrow> ([post], Waiting lastSent)
              | Some (AwaitComplete late) \<Rightarrow> ([post, ReadOk end' xferBatch, Completed end' bytes late], GoOn end')
              | Some AwaitCancelled \<Rightarrow> ([post, ReadOk end' xferBatch], Stopped)
              | Some (AwaitLost evicted) \<Rightarrow> ([post, ReadOk end' xferBatch] @ gave_up (st_cancelledAfter t) evicted True, Stopped)))"

definition sample_pass :: "duration \<Rightarrow> uint64 \<Rightarrow> uint64 \<Rightarrow> sample_turn \<Rightarrow> uint64 \<Rightarrow> transfer_event list \<times> uint64 turn_end" where
  "sample_pass interval xferBatch agedOut t lastSent =
     (if st_cancelled t then ([], Stopped)
      else case st_probe t of
             Inl _ \<Rightarrow> ([], GoOn lastSent)
           | Inr head \<Rightarrow>
               if head < u64 (lastSent + xferBatch) then ([SawHead head], GoOn lastSent)
               else case catch_up agedOut lastSent head of (es, from) \<Rightarrow>
                      (case send_samples interval xferBatch t from of (es', end') \<Rightarrow> (SawHead head # es @ es', end')))"

fun sample_loop :: "duration \<Rightarrow> uint64 \<Rightarrow> uint64 \<Rightarrow> sample_turn list \<Rightarrow> uint64 \<Rightarrow> transfer_event list \<times> uint64 turn_end" where
  "sample_loop interval xferBatch agedOut [] lastSent = ([], GoOn lastSent)"
| "sample_loop interval xferBatch agedOut (t # ts) lastSent =
     (case sample_pass interval xferBatch agedOut t lastSent of
        (es, GoOn l) \<Rightarrow> (es @ fst (sample_loop interval xferBatch agedOut ts l), snd (sample_loop interval xferBatch agedOut ts l))
      | (es, end') \<Rightarrow> (es, end'))"

definition runSampleTransferLoop ::
  "duration \<Rightarrow> uint64 \<Rightarrow> uint64 \<Rightarrow> progress_call list \<Rightarrow> bool \<Rightarrow> mxl_error + uint64 \<Rightarrow> sample_turn list \<Rightarrow>
   transfer_event list \<times> uint64 turn_end" where
  "runSampleTransferLoop interval xferBatch maxReadable connect cancelled head0 turns =
     (case awaitConnected connect cancelled of
        (es, Connecting) \<Rightarrow> (es, Waiting 0)
      | (es, NotConnected) \<Rightarrow> (es, Stopped)
      | (es, Connected) \<Rightarrow>
          (case head0 of
             Inl _ \<Rightarrow> (es, Stopped)
           | Inr h \<Rightarrow>
               let r = sample_loop interval xferBatch (aged_limit maxReadable xferBatch) turns h
               in (es @ SawHead h # fst r, snd r)))"

end
