(* ===== verification/Transfer_Safety.thy ===== *)
theory Transfer_Safety
  imports Transfer_Loop
begin

section \<open>What the transfer loops guarantee\<close>

text \<open>
  Nothing is passed over in silence: the position of a loop moves only over what it sent and what it counted as skipped,
  exactly for samples, and at most for grains. Samples are posted from the readable window. The batches of a grain follow
  one another without a gap, and a grain counts as done when its last slice was posted. A target that stays silent is
  given up.
\<close>

subsection \<open>Waiting\<close>

text \<open>A wait ends at the latest with the first call that returns after \<open>abandonAfter\<close>, whatever the initiator answers,
  and a transfer is reported complete only by a progress call that returned no error.\<close>

theorem awaitTransfer_ends:
  assumes "\<exists>c \<in> set calls. pg_elapsed c > abandonAfter"
  shows "\<exists>answer. awaitTransfer deadline calls = Some answer \<and>
    (\<forall>late. answer = AwaitComplete late \<longrightarrow> (\<exists>c \<in> set calls. \<not> pg_done c \<and> (pg_progress c = None \<or> pg_poll c = None)))"
  using assms
proof (induction calls)
  case (Cons c cs)
  then show ?case
    by (cases "pg_progress c"; cases "pg_poll c")
      (auto simp: classifyFabricError_def Let_def split: if_splits)
qed simp

subsection \<open>Samples\<close>

fun completed_count :: "transfer_event list \<Rightarrow> int" where
  "completed_count [] = 0"
| "completed_count (e # es) = (case e of Completed _ _ _ \<Rightarrow> 1 | _ \<Rightarrow> 0) + completed_count es"

fun skipped_count :: "transfer_event list \<Rightarrow> int" where
  "skipped_count [] = 0"
| "skipped_count (e # es) = (case e of SkippedSamples n \<Rightarrow> n | _ \<Rightarrow> 0) + skipped_count es"

fun last_seen :: "uint64 \<Rightarrow> transfer_event list \<Rightarrow> uint64" where
  "last_seen h [] = h"
| "last_seen h (e # es) = last_seen (case e of SawHead h' \<Rightarrow> h' | _ \<Rightarrow> h) es"

lemma counts_append [simp]:
  "completed_count (es @ fs) = completed_count es + completed_count fs"
  "skipped_count (es @ fs) = skipped_count es + skipped_count fs"
  "last_seen h (es @ fs) = last_seen (last_seen h es) fs"
  by (induction es arbitrary: h) auto

lemma gave_up_counts [simp]:
  "completed_count (gave_up c e o') = 0" "skipped_count (gave_up c e o') = 0"
  "PostedSamples x y \<notin> set (gave_up c e o')" "last_seen h (gave_up c e o') = h"
  by (auto simp: gave_up_def)

text \<open>Every post of a trace satisfies \<open>ok\<close> of the head last seen before it.\<close>

fun posts_ok :: "(uint64 \<Rightarrow> uint64 \<Rightarrow> uint64 \<Rightarrow> bool) \<Rightarrow> uint64 \<Rightarrow> transfer_event list \<Rightarrow> bool" where
  "posts_ok ok h [] = True"
| "posts_ok ok h (e # es) =
     ((case e of PostedSamples end' n \<Rightarrow> ok h end' n | _ \<Rightarrow> True) \<and> posts_ok ok (case e of SawHead h' \<Rightarrow> h' | _ \<Rightarrow> h) es)"

lemma posts_ok_append [simp]: "posts_ok ok h (es @ fs) \<longleftrightarrow> posts_ok ok h es \<and> posts_ok ok (last_seen h es) fs"
  by (induction es arbitrary: h) auto

lemma gave_up_posts [simp]: "posts_ok ok h (gave_up c e o')"
  by (simp add: gave_up_def)

fun position :: "'s turn_end \<Rightarrow> 's option" where
  "position (GoOn s) = Some s"
| "position (Waiting s) = Some s"
| "position Stopped = None"

text \<open>The run is written, and its first sample is still readable.\<close>

definition run_readable :: "uint64 \<Rightarrow> uint64 \<Rightarrow> uint64 \<Rightarrow> uint64 \<Rightarrow> uint64 \<Rightarrow> bool" where
  "run_readable batch maxReadable head end' n \<longleftrightarrow> n = batch \<and> end' \<le> head \<and> (0 < maxReadable \<longrightarrow> head - (end' - n) \<le> maxReadable)"

definition window_fits :: "uint64 \<Rightarrow> uint64 \<Rightarrow> bool" where
  "window_fits batch maxReadable \<longleftrightarrow> 0 < batch \<and> 0 \<le> maxReadable \<and> maxReadable < 2 ^ 64 \<and>
     (maxReadable = 0 \<or> maxReadable = batch \<or> 2 * batch \<le> maxReadable)"

lemma catch_up_spec:
  assumes "0 \<le> lastSent" "lastSent + batch \<le> head" "0 < batch" "head < 2 ^ 64" "catch_up aged lastSent head = (es, from)"
  shows "lastSent \<le> from \<and> from = lastSent + skipped_count es \<and> completed_count es = 0 \<and> posts_ok ok h es \<and> last_seen h es = h \<and>
    (0 < aged \<longrightarrow> head - from \<le> aged) \<and> (0 \<le> aged \<longrightarrow> from \<le> head) \<and>
    (from \<noteq> lastSent \<longrightarrow> 0 < aged \<and> from = head - aged)"
proof (cases "aged > 0 \<and> u64 (head - lastSent) > aged")
  case True
  moreover have "u64 (head - lastSent) = head - lastSent" using assms(1-4) by simp
  moreover have "u64 (head - aged - lastSent) = head - aged - lastSent" "u64 (head - aged) = head - aged"
    using assms(1-4) True calculation by simp_all
  ultimately show ?thesis using assms by (auto simp: catch_up_def)
next
  case False
  moreover have "u64 (head - lastSent) = head - lastSent" using assms(1-4) by simp
  ultimately show ?thesis using assms by (auto simp: catch_up_def)
qed

lemma aged_limit_fits:
  assumes "window_fits batch maxReadable"
  shows "(aged_limit maxReadable batch = 0 \<longleftrightarrow> maxReadable = 0) \<and> 0 \<le> aged_limit maxReadable batch \<and>
    (0 < maxReadable \<longrightarrow> batch \<le> aged_limit maxReadable batch \<and> aged_limit maxReadable batch \<le> maxReadable)"
proof (cases "maxReadable > batch")
  case True
  with assms have "u64 (maxReadable - batch) = maxReadable - batch" by (simp add: window_fits_def)
  with True assms show ?thesis by (auto simp: aged_limit_def window_fits_def)
next
  case False
  with assms show ?thesis by (auto simp: aged_limit_def window_fits_def)
qed

lemma sample_pass_spec:
  fixes lastSent :: uint64
  assumes fits: "window_fits batch maxReadable" and range: "0 \<le> lastSent" "lastSent \<le> B" "B + batch < 2 ^ 64"
    and heads: "\<And>h. st_probe t = Inr h \<Longrightarrow> 0 \<le> h \<and> h \<le> B"
    and pass: "sample_pass interval batch (aged_limit maxReadable batch) t lastSent = (es, e)"
  shows "posts_ok (run_readable batch maxReadable) h0 es \<and>
    (\<forall>l. position e = Some l \<longrightarrow> 0 \<le> l \<and> l \<le> B \<and> l = lastSent + batch * completed_count es + skipped_count es)"
proof (cases "st_cancelled t \<or> (\<forall>h. st_probe t \<noteq> Inr h) \<or> (\<exists>h. st_probe t = Inr h \<and> h < u64 (lastSent + batch))")
  case True
  with pass range show ?thesis by (auto simp: sample_pass_def split: sum.splits if_splits)
next
  case False
  let ?aged = "aged_limit maxReadable batch"
  from False obtain head where h: "st_probe t = Inr head" "\<not> st_cancelled t" "\<not> head < u64 (lastSent + batch)"
    by (cases "st_probe t") auto
  from heads[OF h(1)] have hb: "0 \<le> head" "head \<le> B" by auto
  from fits have b: "0 < batch" by (simp add: window_fits_def)
  have "u64 (lastSent + batch) = lastSent + batch" using range b by simp
  with h(3) have le: "lastSent + batch \<le> head" by simp
  have hd: "head < 2 ^ 64" using hb range b by linarith
  obtain cs from' where c: "catch_up ?aged lastSent head = (cs, from')" by fastforce
  have c': "lastSent \<le> from'" "from' = lastSent + skipped_count cs" "completed_count cs = 0" "last_seen x cs = x"
    "posts_ok (run_readable batch maxReadable) x cs" "0 < ?aged \<longrightarrow> head - from' \<le> ?aged" "from' \<le> head" for x
    using catch_up_spec[OF range(1) le b hd c] aged_limit_fits[OF fits] by blast+
  have fits': "from' + batch \<le> head"
  proof (cases "from' = lastSent")
    case False
    with catch_up_spec[OF range(1) le b hd c] have "0 < ?aged" "from' = head - ?aged" by auto
    then show ?thesis using aged_limit_fits[OF fits] fits by (auto simp: window_fits_def)
  qed (use le in simp)
  then have u: "u64 (from' + batch) = from' + batch" using c'(1) range b hb by simp
  have win: "run_readable batch maxReadable head (from' + batch) batch"
    using fits' c'(6) aged_limit_fits[OF fits] fits by (auto simp: run_readable_def)
  obtain es' where e: "send_samples interval batch t from' = (es', e)" "es = SawHead head # cs @ es'"
    using pass h c by (auto simp: sample_pass_def split: prod.splits)
  from e(1) win u have "posts_ok (run_readable batch maxReadable) head es' \<and>
    (\<forall>l. position e = Some l \<longrightarrow> l = from' + batch * completed_count es' \<and> skipped_count es' = 0 \<and> completed_count es' \<in> {0, 1})"
    by (auto simp: send_samples_def Let_def split: sum.splits if_splits option.splits await_answer.splits)
  with c' e(2) fits' hb range b show ?thesis by (auto simp: algebra_simps)
qed

lemma sample_loop_spec:
  assumes fits: "window_fits batch maxReadable" and B: "B + batch < 2 ^ 64"
  shows "0 \<le> lastSent \<Longrightarrow> lastSent \<le> B \<Longrightarrow> \<forall>t \<in> set ts. \<forall>h. st_probe t = Inr h \<longrightarrow> 0 \<le> h \<and> h \<le> B \<Longrightarrow>
    sample_loop interval batch (aged_limit maxReadable batch) ts lastSent = (es, e) \<Longrightarrow>
    posts_ok (run_readable batch maxReadable) h0 es \<and>
    (\<forall>l. position e = Some l \<longrightarrow> l = lastSent + batch * completed_count es + skipped_count es)"
proof (induction ts arbitrary: lastSent es h0)
  case (Cons t ts)
  obtain es1 e1 where p: "sample_pass interval batch (aged_limit maxReadable batch) t lastSent = (es1, e1)" by fastforce
  note spec = sample_pass_spec[OF fits Cons.prems(1,2) B _ p]
  have heads: "st_probe t = Inr h \<Longrightarrow> 0 \<le> h \<and> h \<le> B" for h using Cons.prems(3) by simp
  show ?case
  proof (cases e1)
    case (GoOn l)
    obtain es2 where r: "sample_loop interval batch (aged_limit maxReadable batch) ts l = (es2, e)" "es = es1 @ es2"
      using Cons.prems(4) p GoOn by (cases "sample_loop interval batch (aged_limit maxReadable batch) ts l") auto
    from spec[OF heads] GoOn have l: "0 \<le> l" "l \<le> B" "l = lastSent + batch * completed_count es1 + skipped_count es1" by auto
    from Cons.IH[OF l(1,2) _ r(1), of "last_seen h0 es1"] Cons.prems(3) spec[OF heads, of h0] l(3) r(2)
    show ?thesis by (auto simp: algebra_simps)
  qed (use Cons.prems(4) p spec[OF heads, of h0] in \<open>auto simp: algebra_simps\<close>)
qed auto


subsection \<open>Grains\<close>

fun read_count :: "transfer_event list \<Rightarrow> int" where
  "read_count [] = 0"
| "read_count (e # es) = (case e of ReadOk _ _ \<Rightarrow> 1 | ReadInvalid _ \<Rightarrow> 1 | _ \<Rightarrow> 0) + read_count es"

fun passed_count :: "transfer_event list \<Rightarrow> int" where
  "passed_count [] = 0"
| "passed_count (e # es) = (case e of PassedOver _ n \<Rightarrow> n | _ \<Rightarrow> 0) + passed_count es"

lemma grain_counts_append [simp]:
  "read_count (es @ fs) = read_count es + read_count fs"
  "passed_count (es @ fs) = passed_count es + passed_count fs"
  by (induction es) auto

lemma post_events: "newGrainTransfer d p b r reply idx start = (posts, answer) \<Longrightarrow> read_count posts = 0 \<and> passed_count posts = 0"
  by (auto simp: newGrainTransfer_def Let_def split: sum.splits if_splits)

lemma u64_nonneg [simp]: "0 \<le> u64 x"
  by (simp add: u64_def)

text \<open>The head of a flow with a grain in it, far from the end of \<^verbatim>\<open>int64\<close>.\<close>

definition live_head :: "int \<Rightarrow> bool" where
  "live_head h \<longleftrightarrow> 0 < h \<and> h < 2 ^ 62"

lemma send_grain_moves:
  assumes "live_head h" "0 < next" "next \<le> 2 ^ 62" "send_grain sh t lastSent start h next = (es, e)" "position e = Some (l, s)"
  shows "(l = lastSent \<or> l = next \<and> read_count es = 1 \<and> e = GoOn (l, s) \<or> l = h \<and> l \<le> next - 1 + passed_count es) \<and>
    0 \<le> passed_count es \<and> 0 \<le> read_count es"
proof -
  obtain posts answer where t: "newGrainTransfer (sh_data sh) (sh_perSlice sh) (sh_batch sh) (gt_read t) (gt_reply t) (u64 next) start = (posts, answer)"
    by fastforce
  note p = post_events[OF t]
  have u: "h \<le> next - 1 + u64 (add64 (sub64 h next) 1)"
  proof (cases "next \<le> h + 1")
    case True
    then have "u64 (add64 (sub64 h next) 1) = h - next + 1" using assms(1-3) by (simp add: live_head_def add64_def sub64_def)
    then show ?thesis by simp
  next
    case False
    then show ?thesis using u64_nonneg[of "add64 (sub64 h next) 1"] by linarith
  qed
  show ?thesis
    using assms(4,5) t p u
    by (cases answer) (auto simp: send_grain_def Let_def gave_up_def
      split: sum.splits if_splits option.splits await_answer.splits transfer_error.splits)
qed

lemma resync_counts:
  assumes "live_head h" "0 < lastSent" "lastSent < 2 ^ 62"
  shows "read_count (resync_events lastSent start h) = 0 \<and> 0 < next_grain lastSent start h \<and> next_grain lastSent start h \<le> max h (lastSent + 1) \<and>
    0 \<le> passed_count (resync_events lastSent start h) \<and>
    next_grain lastSent start h - 1 \<le> lastSent + passed_count (resync_events lastSent start h)"
proof (cases "resyncs lastSent start h")
  case True
  then have "maxMirrorLag < h" "lastSent < sub64 h maxMirrorLag" by (simp_all add: resyncs_def)
  then have "lastSent + 4 < h" using assms by (simp add: live_head_def sub64_def maxMirrorLag_def)
  moreover from this assms have "u64 (sub64 h (add64 lastSent 1)) = h - lastSent - 1"
    by (simp add: live_head_def add64_def sub64_def)
  ultimately show ?thesis using True assms by (simp add: resync_events_def next_grain_def)
next
  case False
  moreover have "add64 lastSent 1 = lastSent + 1" using assms by (simp add: add64_def)
  ultimately show ?thesis using assms by (simp add: resync_events_def next_grain_def)
qed

lemma grain_pass_moves:
  assumes "0 < lastSent" "lastSent < 2 ^ 62" and heads: "\<And>h. gt_probe t = Inr h \<Longrightarrow> live_head h"
    and pass: "grain_pass sh t (lastSent, start) = (es, e)" "position e = Some (l, s)"
  shows "0 < l \<and> l \<le> lastSent + read_count es + passed_count es \<and> 0 \<le> read_count es \<and> 0 \<le> passed_count es \<and>
    (l \<le> lastSent + 1 \<or> gt_probe t = Inr l)"
proof (cases "gt_probe t")
  case (Inl e')
  with pass assms show ?thesis by (auto simp: grain_pass_def split: if_splits)
next
  case (Inr h)
  from heads[OF this] have h: "live_head h" .
  then have i: "i64 h = h" by (simp add: live_head_def)
  let ?n = "next_grain lastSent start h" and ?r = "resync_events lastSent start h"
  note r = resync_counts[OF h assms(1,2), of start]
  from pass Inr i obtain es' where es: "send_grain sh t lastSent start h ?n = (es', e)" "es = SawHead h # ?r @ es'"
    by (cases "send_grain sh t lastSent start h ?n") (auto simp: grain_pass_def Let_def split: if_splits)
  have "?n \<le> 2 ^ 62" using r h assms by (auto simp: live_head_def)
  with send_grain_moves[OF h _ _ es(1) pass(2)] r
  have "(l = lastSent \<or> l = ?n \<and> read_count es' = 1 \<or> l = h \<and> l \<le> ?n - 1 + passed_count es') \<and>
    0 \<le> passed_count es' \<and> 0 \<le> read_count es'" by auto
  moreover have "add64 lastSent 1 = lastSent + 1" using assms(1,2) by (simp add: add64_def)
  ultimately show ?thesis using r es(2) h assms(1,2) Inr by (auto simp: live_head_def next_grain_def split: if_splits)
qed

lemma grain_loop_moves:
  "0 < lastSent \<Longrightarrow> lastSent + int (length ts) < 2 ^ 62 \<Longrightarrow>
   \<forall>t \<in> set ts. \<forall>h. gt_probe t = Inr h \<longrightarrow> live_head (h + int (length ts)) \<and> 0 < h \<Longrightarrow>
   grain_loop sh ts (lastSent, start) = (es, e) \<Longrightarrow> position e = Some (l, s) \<Longrightarrow>
   l \<le> lastSent + read_count es + passed_count es"
proof (induction ts arbitrary: lastSent start es)
  case (Cons t ts)
  obtain es1 e1 where p: "grain_pass sh t (lastSent, start) = (es1, e1)" by fastforce
  have heads: "live_head h" if "gt_probe t = Inr h" for h using Cons.prems(3) that by (auto simp: live_head_def)
  have lt: "lastSent < 2 ^ 62" using Cons.prems(2) by simp
  note moves = grain_pass_moves[OF Cons.prems(1) lt heads p]
  show ?case
  proof (cases e1)
    case (GoOn st)
    obtain l1 s1 where st: "st = (l1, s1)" by fastforce
    obtain es2 where r: "grain_loop sh ts (l1, s1) = (es2, e)" "es = es1 @ es2"
      using Cons.prems(4) p GoOn st by (cases "grain_loop sh ts (l1, s1)") auto
    from moves GoOn st have m: "0 < l1" "l1 \<le> lastSent + read_count es1 + passed_count es1" "l1 \<le> lastSent + 1 \<or> gt_probe t = Inr l1"
      by auto
    have "l1 + int (length ts) < 2 ^ 62" using m(3) Cons.prems(2,3) by (auto simp: live_head_def)
    moreover have "\<forall>t \<in> set ts. \<forall>h. gt_probe t = Inr h \<longrightarrow> live_head (h + int (length ts)) \<and> 0 < h"
      using Cons.prems(3) by (fastforce simp: live_head_def)
    ultimately have "l \<le> l1 + read_count es2 + passed_count es2" using Cons.IH[OF m(1) _ _ r(1) Cons.prems(5)] by blast
    with m(2) r(2) show ?thesis by simp
  next
    case (Waiting st)
    with Cons.prems(4,5) p moves show ?thesis by (cases st) auto
  next
    case Stopped
    with Cons.prems(4,5) p show ?thesis by auto
  qed
qed auto

text \<open>A grain is not passed over in silence: every grain the loop moves over was reported as read, or was counted as passed
  over.\<close>

theorem grains_are_accounted:
  assumes "0 < lastSent" "lastSent + int (length turns) < 2 ^ 62"
    and "\<forall>t \<in> set turns. \<forall>h. gt_probe t = Inr h \<longrightarrow> live_head (h + int (length turns)) \<and> 0 < h"
    and "grain_loop sh turns (lastSent, start) = (es, e)" "position e = Some (l, s)"
  shows "l \<le> lastSent + read_count es + passed_count es"
  using grain_loop_moves[OF assms] .

subsection \<open>The slices of a grain\<close>

text \<open>The post last made, and the one last completed: the grain and the slice it ended at. A post that is not completed in
  its turn is made again or the loop stops.\<close>

type_synonym post_state = "(uint64 \<times> uint16) option \<times> (uint64 \<times> uint16) option"

fun track :: "post_state \<Rightarrow> transfer_event \<Rightarrow> post_state" where
  "track (posted, sent) (PostedGrain i s e) = (Some (i, e), sent)"
| "track (posted, sent) (Completed _ _ _) = (posted, posted)"
| "track ps _ = ps"

text \<open>Every batch runs forward and starts at slice 0 or where the completed batch before it, of the same grain, ended.\<close>

fun batch_follows :: "post_state \<Rightarrow> transfer_event \<Rightarrow> bool" where
  "batch_follows (posted, sent) (PostedGrain i s e) = ((s = 0 \<or> sent = Some (i, s)) \<and> s \<le> e)"
| "batch_follows ps _ = True"

fun batches_follow :: "post_state \<Rightarrow> transfer_event list \<Rightarrow> bool" where
  "batches_follow ps [] = True"
| "batches_follow ps (e # es) = (batch_follows ps e \<and> batches_follow (track ps e) es)"

lemma batches_follow_append [simp]:
  "batches_follow ps (es @ fs) \<longleftrightarrow> batches_follow ps es \<and> batches_follow (foldl track ps es) fs"
  by (induction es arbitrary: ps) auto

lemma batch_no_wrap:
  assumes "\<not> start > GrainValidSlicesAll - batch"
  shows "uint (start + batch) = uint start + uint batch"
proof -
  have b: "0 \<le> uint batch" "uint batch < 65536" "0 \<le> uint start" using uint_lt2p[of batch] by simp_all
  have "uint (GrainValidSlicesAll - batch) = (65535 - uint batch) mod 65536"
    by (simp add: GrainValidSlicesAll_def uint_word_ariths)
  also have "\<dots> = 65535 - uint batch" using b by (intro mod_pos_pos_trivial) linarith+
  finally have "uint start + uint batch < 65536" using assms by (simp add: word_less_def)
  then show ?thesis using b by (simp add: uint_word_ariths)
qed

lemma batchEnd_pos: "0 < batchEnd start batch"
proof (cases "batch = 0 \<or> start > GrainValidSlicesAll - batch")
  case False
  then have "uint (start + batch) = uint start + uint batch" by (intro batch_no_wrap) simp
  moreover have "0 < uint batch" using False by (simp add: word_neq_0_conv word_less_def)
  moreover have "0 \<le> uint start" by simp
  ultimately have "0 < uint (start + batch)" by linarith
  with False show ?thesis by (simp add: batchEnd_def word_less_def)
qed (simp add: batchEnd_def GrainValidSlicesAll_def)

lemma batchEnd_advances: "start < GrainValidSlicesAll \<Longrightarrow> start < batchEnd start batch"
proof (cases "batch = 0 \<or> start > GrainValidSlicesAll - batch")
  case False
  then have "uint (start + batch) = uint start + uint batch" by (intro batch_no_wrap) simp
  moreover have "0 < uint batch" using False by (simp add: word_neq_0_conv word_less_def)
  ultimately show ?thesis using False by (simp add: batchEnd_def word_less_def)
qed (simp add: batchEnd_def)

lemma transfer_posts:
  assumes "newGrainTransfer d p b r reply idx start = (posts, answer)"
  shows "posts = [] \<and> (\<exists>e. answer = Inl (ErrRead e)) \<or>
    (\<exists>s e. posts = [PostedGrain idx s e] \<and> s \<le> e \<and> (s = 0 \<or> s = start) \<and>
      (\<forall>g. answer = Inr g \<longrightarrow> gs_next g = 0 \<or> gs_next g = e))"
  using assms
  by (auto simp: newGrainTransfer_def Let_def post_grain_def split: sum.splits if_splits option.splits)


definition resyncs_nowhere :: "transfer_event list \<Rightarrow> bool" where
  "resyncs_nowhere es = list_all (\<lambda>e. case e of PassedOver UnsentResync _ \<Rightarrow> False | _ \<Rightarrow> True) es"

text \<open>In the middle of a grain the completed batch is of the grain that is sent next.\<close>

definition mid_grain :: "grain_state \<Rightarrow> post_state \<Rightarrow> bool" where
  "mid_grain st ps \<longleftrightarrow> snd st = 0 \<or> snd ps = Some (u64 (add64 (fst st) 1), snd st)"

lemma track_gave_up [simp]: "foldl track ps (gave_up c e o') = ps" "batches_follow ps (gave_up c e o')"
  by (cases ps; simp add: gave_up_def)+

lemma send_grain_batches:
  assumes "mid_grain (lastSent, start) ps" "next = add64 lastSent 1" "send_grain sh t lastSent start h next = (es, e)"
  shows "batches_follow ps es \<and> (\<forall>st. position e = Some st \<longrightarrow> mid_grain st (foldl track ps es))"
proof -
  obtain posts answer where t: "newGrainTransfer (sh_data sh) (sh_perSlice sh) (sh_batch sh) (gt_read t) (gt_reply t) (u64 next) start = (posts, answer)"
    by fastforce
  obtain p d where ps: "ps = (p, d)" by fastforce
  from transfer_posts[OF t] consider (unread) e' where "posts = []" "answer = Inl (ErrRead e')"
    | (posted) s' e' where "posts = [PostedGrain (u64 next) s' e']" "s' \<le> e'" "s' = 0 \<or> s' = start"
      "\<forall>g. answer = Inr g \<longrightarrow> gs_next g = 0 \<or> gs_next g = e'"
    by blast
  then show ?thesis
  proof cases
    case unread
    with assms t ps show ?thesis
      by (auto simp: send_grain_def mid_grain_def split: if_splits)
  next
    case posted
    have f: "batches_follow ps posts" "foldl track ps posts = (Some (u64 next, e'), d)"
      using posted(1-3) assms(1,2) ps by (auto simp: mid_grain_def)
    have m: "mid_grain (lastSent, start) (x, d)" for x using assms(1) ps by (simp add: mid_grain_def)
    show ?thesis
    proof (cases answer)
      case (Inl e0)
      then show ?thesis using assms(3) t f m
        by (auto simp: send_grain_def mid_grain_def split: if_splits transfer_error.splits)
    next
      case (Inr g)
      with posted(4) have "gs_next g = 0 \<or> gs_next g = e'" by simp
      then show ?thesis using assms(2,3) t f m Inr
        by (cases "awaitTransfer (sh_interval sh) (gt_await t)"; cases "gs_next g = 0")
          (auto simp: send_grain_def mid_grain_def Let_def split: await_answer.splits if_splits)
    qed
  qed
qed

lemma resync_traced:
  "0 < lastSent \<Longrightarrow> resyncs_nowhere (resync_events lastSent start h @ es) \<Longrightarrow>
   resync_events lastSent start h = [] \<and> next_grain lastSent start h = add64 lastSent 1"
  by (auto simp: resync_events_def next_grain_def resyncs_nowhere_def)

lemma grain_pass_batches:
  assumes "0 < lastSent" "mid_grain (lastSent, start) ps" "grain_pass sh t (lastSent, start) = (es, e)" "resyncs_nowhere es"
  shows "batches_follow ps es \<and> (\<forall>st. position e = Some st \<longrightarrow> mid_grain st (foldl track ps es))"
proof (cases "gt_cancelled t \<or> (\<exists>x. gt_probe t = Inl x)")
  case True
  with assms show ?thesis by (auto simp: grain_pass_def split: if_splits)
next
  case False
  then obtain h where h: "\<not> gt_cancelled t" "gt_probe t = Inr h" by (cases "gt_probe t") auto
  obtain es' where es: "send_grain sh t lastSent start (i64 h) (next_grain lastSent start (i64 h)) = (es', e)"
      "es = SawHead h # resync_events lastSent start (i64 h) @ es'"
    using assms(3) h
    by (cases "send_grain sh t lastSent start (i64 h) (next_grain lastSent start (i64 h))") (auto simp: grain_pass_def Let_def)
  have n: "resync_events lastSent start (i64 h) = []" "next_grain lastSent start (i64 h) = add64 lastSent 1"
    using resync_traced[OF assms(1)] assms(4) es(2) by (auto simp: resyncs_nowhere_def)
  from send_grain_batches[OF assms(2) n(2) es(1)] es(2) n(1) show ?thesis by (cases ps) simp
qed

lemma grain_loop_batches:
  "0 < lastSent \<Longrightarrow> lastSent + int (length ts) < 2 ^ 62 \<Longrightarrow>
   \<forall>t \<in> set ts. \<forall>h. gt_probe t = Inr h \<longrightarrow> live_head (h + int (length ts)) \<and> 0 < h \<Longrightarrow>
   mid_grain (lastSent, start) ps \<Longrightarrow> resyncs_nowhere (fst (grain_loop sh ts (lastSent, start))) \<Longrightarrow>
   batches_follow ps (fst (grain_loop sh ts (lastSent, start)))"
proof (induction ts arbitrary: lastSent start ps)
  case (Cons t ts)
  obtain es1 e1 where p: "grain_pass sh t (lastSent, start) = (es1, e1)" by fastforce
  have heads: "live_head h" if "gt_probe t = Inr h" for h using Cons.prems(3) that by (auto simp: live_head_def)
  have lt: "lastSent < 2 ^ 62" using Cons.prems(2) by simp
  have "resyncs_nowhere es1" using Cons.prems(5) p by (auto simp: resyncs_nowhere_def split: turn_end.splits)
  note b = grain_pass_batches[OF Cons.prems(1,4) p this]
  show ?case
  proof (cases e1)
    case (GoOn st)
    obtain l1 s1 where st: "st = (l1, s1)" by fastforce
    from grain_pass_moves[OF Cons.prems(1) lt heads p] GoOn st have m: "0 < l1" "l1 \<le> lastSent + 1 \<or> gt_probe t = Inr l1" by auto
    have "l1 + int (length ts) < 2 ^ 62" using m(2) Cons.prems(2,3) by (auto simp: live_head_def)
    moreover have "\<forall>t \<in> set ts. \<forall>h. gt_probe t = Inr h \<longrightarrow> live_head (h + int (length ts)) \<and> 0 < h"
      using Cons.prems(3) by (fastforce simp: live_head_def)
    moreover have "resyncs_nowhere (fst (grain_loop sh ts (l1, s1)))"
      using Cons.prems(5) p GoOn st by (auto simp: resyncs_nowhere_def)
    ultimately show ?thesis using b GoOn st p Cons.IH[OF m(1), of s1 "foldl track ps es1"] by auto
  qed (use b p in auto)
qed simp

text \<open>As long as the loop keeps up with the head, the batches of a grain follow one another: each runs forward, and starts at
  the grain's first slice or where the batch of that grain completed before it ended.\<close>

theorem slices_are_contiguous:
  assumes "0 < lastSent" "lastSent + int (length turns) < 2 ^ 62"
    and "\<forall>t \<in> set turns. \<forall>h. gt_probe t = Inr h \<longrightarrow> live_head (h + int (length turns)) \<and> 0 < h"
    and "resyncs_nowhere (fst (grain_loop sh turns (lastSent, 0)))"
  shows "batches_follow (None, None) (fst (grain_loop sh turns (lastSent, 0)))"
  by (rule grain_loop_batches[OF assms(1-3) _ assms(4)]) (simp add: mid_grain_def)

subsection \<open>On concrete runs\<close>

definition quick :: "progress_call list" where
  "quick = [\<lparr>pg_done = False, pg_progress = None, pg_poll = None, pg_elapsed = 1\<rparr>]"

definition video :: flow_shape where
  "video = \<lparr>sh_data = False, sh_perSlice = 10, sh_batch = 4, sh_interval = 0\<rparr>"

definition video_turn :: "uint64 \<Rightarrow> uint16 \<Rightarrow> mxl_error option \<Rightarrow> grain_turn" where
  "video_turn head valid reply = \<lparr>gt_cancelled = False, gt_probe = Inr head,
     gt_read = (\<lambda>_ _. Inr \<lparr>sg_invalid = False, sg_valid = valid, sg_total = 8\<rparr>), gt_reply = reply,
     gt_await = quick, gt_cancelledAfter = False\<rparr>"

text \<open>After a resync onto a grain that is sent in batches, the position is not the grain resynced to: the second batch goes to
  the grain after the last one sent, whose first slices were never sent.\<close>

theorem resync_splits_a_grain:
  "let es = fst (grain_loop video [video_turn 100 4 None, video_turn 100 8 None] (50, 0))
   in PostedGrain 100 0 4 \<in> set es \<and> PostedGrain 51 4 8 \<in> set es \<and> ReadOk 51 1 \<in> set es \<and> \<not> batches_follow (None, None) es"
  by code_simp

text \<open>A resync is counted again on every turn until its first post is taken.\<close>

theorem resync_is_counted_again:
  "passed_count (fst (grain_loop video [video_turn 100 8 (Some MxlNotReady), video_turn 100 8 (Some MxlNotReady), video_turn 100 8 None] (50, 0))) = 147 \<and>
   position (snd (grain_loop video [video_turn 100 8 (Some MxlNotReady), video_turn 100 8 (Some MxlNotReady), video_turn 100 8 None] (50, 0))) = Some (100, 0)"
  by code_simp

theorem slices_are_contiguous_witness:
  "batches_follow (None, None) (fst (grain_loop video [video_turn 51 4 None, video_turn 51 8 None] (50, 0)))"
  by (rule slices_are_contiguous) (simp add: video_turn_def live_head_def, simp add: video_turn_def live_head_def, simp add: video_turn_def live_head_def, code_simp)

theorem grains_are_accounted_witness:
  "(100 :: int) \<le> 50 + read_count (fst (grain_loop video [video_turn 100 8 None] (50, 0))) + passed_count (fst (grain_loop video [video_turn 100 8 None] (50, 0)))"
proof (rule grains_are_accounted[where turns = "[video_turn 100 8 None]" and s = 0])
  show "grain_loop video [video_turn 100 8 None] (50, 0) = (fst (grain_loop video [video_turn 100 8 None] (50, 0)), GoOn (100, 0))" by code_simp
qed (simp_all add: video_turn_def live_head_def)

text \<open>A batch of more than half the readable window, but less than all of it, is posted past the head: the loop backs off
  to the window less a batch, which is less than a batch behind the head.\<close>

definition wide_turn :: sample_turn where
  "wide_turn = \<lparr>st_cancelled = False, st_probe = Inr 108, st_reply = Inr 0, st_await = quick, st_cancelledAfter = False\<rparr>"

theorem wide_batch_is_posted_past_the_head:
  "sample_loop 0 8 (aged_limit 10 8) [wide_turn] 100 =
     ([SawHead 108, AgedOut, SkippedSamples 6, PostedSamples 114 8, ReadOk 114 8, Completed 114 0 False], GoOn 114)"
  by code_simp

definition wide_trace :: "transfer_event list" where
  "wide_trace = [SawHead 100, SawHead 108, PostedSamples 108 8, ReadOk 108 8, Completed 108 0 False]"

lemma wide_trace_run: "runSampleTransferLoop 0 8 100 quick False (Inr 100) [wide_turn] = (wide_trace, GoOn 108)"
  by code_simp


theorem awaitTransfer_ends_witness:
  "\<exists>answer. awaitTransfer 0 [\<lparr>pg_done = False, pg_progress = Some MxlNotReady, pg_poll = None, pg_elapsed = 3 * second\<rparr>] = Some answer \<and>
    (\<forall>late. answer = AwaitComplete late \<longrightarrow>
       (\<exists>c \<in> set [\<lparr>pg_done = False, pg_progress = Some MxlNotReady, pg_poll = None, pg_elapsed = 3 * second\<rparr>].
          \<not> pg_done c \<and> (pg_progress c = None \<or> pg_poll c = None)))"
  by (rule awaitTransfer_ends) (simp add: abandonAfter_def second_def)

end
