(* ===== verification/Target_Commit.thy ===== *)
theory Target_Commit
  imports Transfer_Loop
begin

section \<open>Committing what arrives (gateway/internal/mirror/target.go, sharedflow.go)\<close>

text \<open>
  The loop of a mirror's target half: a transfer has already been written into the ring of the local flow, and the loop
  commits it, so that readers see it. All mirrors of a flow into the node share one writer, and with it \<open>sharedFlow\<close>,
  whose lock makes a commit one step. What libmxl's writer answers is given with each arrival.
\<close>

subsection \<open>Grains\<close>

datatype commit_error =
    GrainAlreadyCommitted mxl_error
  | SamplesAlreadyCommitted mxl_error
  | CommitFailed mxl_error

datatype invalidReason = NotInvalid | InvalidFromSource | InvalidIndexMismatch

record partialGrain =
  pt_idx :: uint64
  pt_valid :: uint16

definition no_partial :: partialGrain where
  "no_partial = \<lparr>pt_idx = 0, pt_valid = 0\<rparr>"

record grainCommit =
  gc_bytes :: uint64
  gc_reason :: invalidReason
  gc_done :: bool

record grain_header =
  gh_index :: uint64
  gh_invalid :: bool
  gh_valid :: uint16

text \<open>\<^verbatim>\<open>GrainInfo\<close>, \<^verbatim>\<open>OpenGrain\<close> with the slices and the size of the grain, \<^verbatim>\<open>Commit\<close>.\<close>

record grain_writer =
  gw_data :: bool
  gw_info :: "mxl_error + grain_header"
  gw_open :: "mxl_error + (uint16 \<times> uint64)"
  gw_commit :: "mxl_error option"

datatype commit_event =
    CommittedGrain uint64 uint16 bool
  | CommittedSamples uint64 uint64
  | SiblingProgress uint64 time
  | Progress uint64 time
  | TargetLost

definition invalid_reason :: "uint64 \<Rightarrow> grain_header \<Rightarrow> invalidReason" where
  "invalid_reason idx hdr =
     (if gh_index hdr \<noteq> idx then InvalidIndexMismatch else if gh_invalid hdr then InvalidFromSource else NotInvalid)"

text \<open>\<open>None\<close> is a nil \<open>open\<close>.\<close>

definition commit_valid :: "bool \<Rightarrow> uint64 \<Rightarrow> grain_header \<Rightarrow> uint16 \<Rightarrow> partialGrain option \<Rightarrow> uint16" where
  "commit_valid data idx hdr slices open' =
     (let reason = invalid_reason idx hdr
      in if reason \<noteq> NotInvalid \<and> \<not> data then slices
         else if reason = InvalidIndexMismatch then 0
         else case open' of
                None \<Rightarrow> gh_valid hdr
              | Some p \<Rightarrow> if \<not> data \<and> pt_idx p = idx then max (gh_valid hdr) (pt_valid p) else gh_valid hdr)"

definition commitArrivedGrain ::
  "grain_writer \<Rightarrow> uint64 \<Rightarrow> partialGrain option \<Rightarrow> commit_event list \<times> (commit_error + grainCommit) \<times> partialGrain option" where
  "commitArrivedGrain w idx open' =
     (case gw_info w of
        Inl e \<Rightarrow> ([], Inl (CommitFailed e), open')
      | Inr hdr \<Rightarrow>
          (case gw_open w of
             Inl e \<Rightarrow> ([], Inl (if e = MxlInvalidArg then GrainAlreadyCommitted e else CommitFailed e), open')
           | Inr (slices, bytes) \<Rightarrow>
               let reason = invalid_reason idx hdr; valid = commit_valid (gw_data w) idx hdr slices open'
               in case gw_commit w of
                    Some e \<Rightarrow> ([], Inl (CommitFailed e), open')
                  | None \<Rightarrow>
                      if \<not> gw_data w \<and> valid < slices
                      then ([CommittedGrain idx valid (reason \<noteq> NotInvalid)],
                            Inr \<lparr>gc_bytes = 0, gc_reason = reason, gc_done = False\<rparr>, map_option (\<lambda>_. \<lparr>pt_idx = idx, pt_valid = valid\<rparr>) open')
                      else ([CommittedGrain idx valid (reason \<noteq> NotInvalid)],
                            Inr \<lparr>gc_bytes = bytes, gc_reason = reason, gc_done = True\<rparr>, map_option (\<lambda>_. no_partial) open')))"

subsection \<open>The flow the mirrors share\<close>

definition siblingCommitFreshness :: duration where
  "siblingCommitFreshness = 2 * second"

text \<open>Time 0 is Go's zero time.\<close>

record sharedFlow =
  sf_lastCommitAt :: time
  sf_lastHead :: uint64
  sf_haveHead :: bool
  sf_open :: partialGrain

definition recordSibling :: "uint64 \<Rightarrow> time \<Rightarrow> time \<Rightarrow> commit_event list" where
  "recordSibling idx at now =
     (if at = 0 \<or> time_sub now at > siblingCommitFreshness then [] else [SiblingProgress idx at])"

definition commitGrain :: "grain_writer \<Rightarrow> time \<Rightarrow> uint64 \<Rightarrow> sharedFlow \<Rightarrow> commit_event list \<times> (commit_error + grainCommit) \<times> sharedFlow" where
  "commitGrain w now idx f =
     (case commitArrivedGrain w idx (Some (sf_open f)) of
        (es, r, open') \<Rightarrow>
          let f' = f\<lparr>sf_open := (case open' of None \<Rightarrow> sf_open f | Some p \<Rightarrow> p),
                     sf_lastCommitAt := (case r of Inr _ \<Rightarrow> now | Inl _ \<Rightarrow> sf_lastCommitAt f)\<rparr>
          in (es @ (case r of Inl (GrainAlreadyCommitted _) \<Rightarrow> recordSibling idx (sf_lastCommitAt f') now | _ \<Rightarrow> []), r, f'))"

record sample_writer =
  sw_open :: "mxl_error + (uint64 \<times> uint64)"
  sw_commit :: "mxl_error option"
  sw_bufferLength :: uint64

text \<open>\<open>sw_open\<close> answers the stride and the number of channels.\<close>

definition commitArrivedSamples :: "sample_writer \<Rightarrow> uint64 \<Rightarrow> uint64 \<Rightarrow> commit_event list \<times> (mxl_error + uint64)" where
  "commitArrivedSamples w head count =
     (case sw_open w of
        Inl e \<Rightarrow> ([], Inl e)
      | Inr (stride, channels) \<Rightarrow>
          (case sw_commit w of
             Some e \<Rightarrow> ([], Inl e)
           | None \<Rightarrow> ([CommittedSamples head count],
               Inr (if sw_bufferLength w = 0 then 0 else u64 (u64 (count * (stride div sw_bufferLength w)) * channels)))))"

definition commitSamples :: "sample_writer \<Rightarrow> time \<Rightarrow> uint64 \<Rightarrow> uint64 \<Rightarrow> sharedFlow \<Rightarrow> commit_event list \<times> (commit_error + uint64) \<times> sharedFlow" where
  "commitSamples w now head count f =
     (case commitArrivedSamples w head count of
        (es, Inr n) \<Rightarrow> (es, Inr n, f\<lparr>sf_lastCommitAt := now, sf_lastHead := head, sf_haveHead := True\<rparr>)
      | (es, Inl e) \<Rightarrow>
          if e \<noteq> MxlInvalidArg \<or> \<not> (sf_haveHead f \<and> (head \<le> sf_lastHead f \<or> u64 (head - count) < sf_lastHead f))
          then (es, Inl (CommitFailed e), f)
          else (es @ recordSibling head (sf_lastCommitAt f) now, Inl (SamplesAlreadyCommitted e), f))"

subsection \<open>The loops\<close>

text \<open>What the entry keeps of its progress (\<^verbatim>\<open>targetEntry\<close>): \<open>te_recoveryAttempts\<close> counts rebuilds of the fabric
  side since the last one that delivered.\<close>

record target_entry =
  te_commits :: uint64
  te_commitsAtFabricOpen :: uint64
  te_lastCommitAt :: "time option"
  te_recoveryAttempts :: int

definition recordCommit :: "time \<Rightarrow> target_entry \<Rightarrow> target_entry" where
  "recordCommit at e =
     (let n = u64 (te_commits e + 1)
      in e\<lparr>te_commits := n, te_lastCommitAt := Some at,
           te_recoveryAttempts := (if n = u64 (te_commitsAtFabricOpen e + 1) then 0 else te_recoveryAttempts e)\<rparr>)"

definition tracked :: "commit_event list \<Rightarrow> target_entry \<Rightarrow> target_entry" where
  "tracked es e = fold (\<lambda>ev e. case ev of SiblingProgress _ at \<Rightarrow> recordCommit at e | Progress _ at \<Rightarrow> recordCommit at e | _ \<Rightarrow> e) es e"

text \<open>One mirror's arrival of a grain, and of a run of samples. \<open>ta_at\<close> is the clock after the commit.\<close>

record grain_arrival =
  ga_cancelled :: bool
  ga_read :: "mxl_error + uint64"
  ga_writer :: grain_writer
  ga_now :: time
  ga_at :: time

datatype loop_end = LoopGoesOn | LoopDone

text \<open>The fatal end asks the reconciler to rebuild the fabric side.\<close>

definition target_pass :: "grain_arrival \<Rightarrow> sharedFlow \<Rightarrow> commit_event list \<times> loop_end \<times> sharedFlow" where
  "target_pass a f =
     (if ga_cancelled a then ([], LoopDone, f)
      else case ga_read a of
             Inr idx \<Rightarrow>
               (case commitGrain (ga_writer a) (ga_now a) idx f of
                  (es, Inr _, f') \<Rightarrow> (es @ [Progress idx (ga_at a)], LoopGoesOn, f')
                | (es, Inl _, f') \<Rightarrow> (es, LoopGoesOn, f'))
           | Inl e \<Rightarrow>
               if classifyFabricError (Some e) \<in> {FabricIdle, FabricTransient} then ([], LoopGoesOn, f)
               else ([TargetLost], LoopDone, f))"

record sample_arrival =
  sa_cancelled :: bool
  sa_read :: "mxl_error + (uint64 \<times> uint64)"
  sa_writer :: sample_writer
  sa_now :: time
  sa_at :: time

definition target_sample_pass :: "sample_arrival \<Rightarrow> sharedFlow \<Rightarrow> commit_event list \<times> loop_end \<times> sharedFlow" where
  "target_sample_pass a f =
     (if sa_cancelled a then ([], LoopDone, f)
      else case sa_read a of
             Inr (head, count) \<Rightarrow>
               (case commitSamples (sa_writer a) (sa_now a) head count f of
                  (es, Inr _, f') \<Rightarrow> (es @ [Progress head (sa_at a)], LoopGoesOn, f')
                | (es, Inl _, f') \<Rightarrow> (es, LoopGoesOn, f'))
           | Inl e \<Rightarrow>
               if classifyFabricError (Some e) \<in> {FabricIdle, FabricTransient} then ([], LoopGoesOn, f)
               else ([TargetLost], LoopDone, f))"

fun runTargetProgressLoop :: "grain_arrival list \<Rightarrow> sharedFlow \<Rightarrow> commit_event list \<times> loop_end \<times> sharedFlow" where
  "runTargetProgressLoop [] f = ([], LoopGoesOn, f)"
| "runTargetProgressLoop (a # as) f =
     (case target_pass a f of
        (es, LoopGoesOn, f') \<Rightarrow> (case runTargetProgressLoop as f' of (es', r) \<Rightarrow> (es @ es', r))
      | (es, LoopDone, f') \<Rightarrow> (es, LoopDone, f'))"

fun runTargetSampleProgressLoop :: "sample_arrival list \<Rightarrow> sharedFlow \<Rightarrow> commit_event list \<times> loop_end \<times> sharedFlow" where
  "runTargetSampleProgressLoop [] f = ([], LoopGoesOn, f)"
| "runTargetSampleProgressLoop (a # as) f =
     (case target_sample_pass a f of
        (es, LoopGoesOn, f') \<Rightarrow> (case runTargetSampleProgressLoop as f' of (es', r) \<Rightarrow> (es @ es', r))
      | (es, LoopDone, f') \<Rightarrow> (es, LoopDone, f'))"

datatype write_report = WriteOk uint64 uint64 | WriteFailed mxl_error uint64 | ContentInvalid uint64 | ContentMissing uint64

definition recordGrainCommit :: "uint64 \<Rightarrow> commit_error + grainCommit \<Rightarrow> write_report list" where
  "recordGrainCommit idx r =
     (case r of
        Inl (GrainAlreadyCommitted _) \<Rightarrow> [WriteOk idx 1]
      | Inl (CommitFailed e) \<Rightarrow> [WriteFailed e idx]
      | Inl (SamplesAlreadyCommitted e) \<Rightarrow> [WriteFailed e idx]
      | Inr c \<Rightarrow>
          (case gc_reason c of
             InvalidFromSource \<Rightarrow> [ContentInvalid idx]
           | InvalidIndexMismatch \<Rightarrow> [ContentMissing idx]
           | NotInvalid \<Rightarrow> if gc_done c then [WriteOk idx 1] else []))"

definition recordSampleCommit :: "uint64 \<Rightarrow> uint64 \<Rightarrow> commit_error + uint64 \<Rightarrow> write_report list" where
  "recordSampleCommit head count r =
     (case r of
        Inr _ \<Rightarrow> [WriteOk head count]
      | Inl (SamplesAlreadyCommitted _) \<Rightarrow> [WriteOk head count]
      | Inl (GrainAlreadyCommitted e) \<Rightarrow> [WriteFailed e head]
      | Inl (CommitFailed e) \<Rightarrow> [WriteFailed e head])"

end
