(* ===== verification/Mirror_Delivery.thy ===== *)
theory Mirror_Delivery
  imports Transfer_Safety Target_Commit
begin

section \<open>From the source's ring to the target's\<close>

text \<open>
  The two halves of a mirror together. Shown: a grain sent in batches while its producer writes it arrives whole, batch by
  batch, readable up to the slice that was sent; arrivals of several mirrors of a flow, in whatever order, never take
  committed slices back from a grain that is still open; and an arrival is committed as a valid grain only if its slot
  holds that grain and its producer did not flag it.
\<close>

subsection \<open>One batch\<close>

text \<open>What \<^verbatim>\<open>GetGrainSlice\<close> promises of a video grain of \<open>n\<close> slices that it answers for: as many valid slices as
  asked for, or all.\<close>

definition honest_read :: "uint16 \<Rightarrow> (uint64 \<Rightarrow> uint16 \<Rightarrow> mxl_error + src_grain) \<Rightarrow> bool" where
  "honest_read n r \<longleftrightarrow>
     (\<forall>idx mv. \<exists>v. r idx mv = Inr \<lparr>sg_invalid = False, sg_valid = v, sg_total = n\<rparr> \<and> min mv n \<le> v \<and> v \<le> n)"

lemma honest_batch:
  assumes "honest_read n r" "start < n" "n < GrainValidSlicesAll"
  obtains e b where "newGrainTransfer False perSlice batch r None idx start =
      ([PostedGrain idx start e], Inr \<lparr>gs_next = (if e = n then 0 else e), gs_bytes = b, gs_invalid = False\<rparr>)" "start < e" "e \<le> n"
proof -
  from assms(1) obtain v where v: "r idx (batchEnd start batch) = Inr \<lparr>sg_invalid = False, sg_valid = v, sg_total = n\<rparr>"
    "min (batchEnd start batch) n \<le> v" "v \<le> n" unfolding honest_read_def by blast
  have "start < batchEnd start batch" using batchEnd_advances assms(2,3) by auto
  then have "start < v" using v(2) assms(2) by (auto simp: min_def split: if_splits)
  then have m: "max v start = v" "v \<ge> n \<longleftrightarrow> v = n" using v(3) by auto
  show thesis
    by (rule that[of v "u64 (uint (v - start) * perSlice)"])
      (use v m \<open>start < v\<close> in \<open>auto simp: newGrainTransfer_def readForTransfer_def post_grain_def Let_def\<close>)
qed

subsection \<open>A whole grain at the source\<close>

text \<open>A turn of the transfer loop that sends a batch, and one that is held up: the loop is not cancelled, and where it sees the
  head it has not fallen so far behind that it resyncs onto it. The first reads the grain, and its post completes. In the
  second the head cannot be read, or the grain is not there yet, or the post is to be tried again.\<close>

definition keeps_up :: "int \<Rightarrow> grain_turn \<Rightarrow> bool" where
  "keeps_up lastSent t \<longleftrightarrow> \<not> gt_cancelled t \<and> (\<forall>h. gt_probe t = Inr h \<longrightarrow> \<not> resyncs lastSent 0 (i64 h))"

definition sends_batch :: "flow_shape \<Rightarrow> uint16 \<Rightarrow> grain_turn \<Rightarrow> bool" where
  "sends_batch sh n t \<longleftrightarrow> (\<exists>h. gt_probe t = Inr h) \<and> honest_read n (gt_read t) \<and> gt_reply t = None \<and>
     (\<exists>late. awaitTransfer (sh_interval sh) (gt_await t) = Some (AwaitComplete late))"

definition held_up :: "uint16 \<Rightarrow> grain_turn \<Rightarrow> bool" where
  "held_up n t \<longleftrightarrow> (\<exists>e. gt_probe t = Inl e) \<or>
     (\<exists>h. gt_probe t = Inr h) \<and>
     ((\<exists>e. (\<forall>idx mv. gt_read t idx mv = Inl e) \<and> \<not> isReaderAgedOut e) \<or>
      honest_read n (gt_read t) \<and> (\<exists>e. gt_reply t = Some e \<and> retryablePost e))"

text \<open>The batches whose transfer completed, in the order of the trace.\<close>

fun landed :: "(uint64 \<times> uint16 \<times> uint16) option \<Rightarrow> transfer_event list \<Rightarrow> (uint64 \<times> uint16 \<times> uint16) list" where
  "landed p [] = []"
| "landed p (PostedGrain i s e # es) = landed (Some (i, s, e)) es"
| "landed p (Completed _ _ _ # es) = (case p of None \<Rightarrow> landed None es | Some b \<Rightarrow> b # landed None es)"
| "landed p (_ # es) = landed p es"

text \<open>Batches that cover the slices of a grain from one on to another, each starting where the one before it ended.\<close>

fun tiles :: "uint64 \<Rightarrow> uint16 \<Rightarrow> uint16 \<Rightarrow> (uint64 \<times> uint16 \<times> uint16) list \<Rightarrow> bool" where
  "tiles idx s n [] = (s = n)"
| "tiles idx s n ((i, a, e) # bs) = (i = idx \<and> a = s \<and> s < e \<and> e \<le> n \<and> tiles idx e n bs)"

lemma no_resync: "keeps_up l t \<Longrightarrow> gt_probe t = Inr h \<Longrightarrow> resync_events l start (i64 h) = [] \<and> next_grain l start (i64 h) = add64 l 1"
  by (auto simp: keeps_up_def resync_events_def next_grain_def resyncs_def)

lemma retryable_not_aged: "retryablePost e \<Longrightarrow> \<not> isReaderAgedOut e"
  by (cases e) (auto simp: retryablePost_def classifyFabricError_def isReaderAgedOut_def)

lemma sending_pass:
  assumes "keeps_up l t" "sends_batch sh n t" "\<not> sh_data sh" "start < n" "n < GrainValidSlicesAll" "add64 l 1 = l + 1"
  obtains es e where "grain_pass sh t (l, start) = (es, GoOn (if e = n then (l + 1, 0) else (l, e)))" "start < e" "e \<le> n"
    "\<And>p fs. landed p (es @ fs) = (u64 (l + 1), start, e) # landed None fs"
proof -
  from assms(2) obtain h late where h: "gt_probe t = Inr h" "honest_read n (gt_read t)" "gt_reply t = None"
    "awaitTransfer (sh_interval sh) (gt_await t) = Some (AwaitComplete late)" by (auto simp: sends_batch_def)
  obtain e b where e: "newGrainTransfer False (sh_perSlice sh) (sh_batch sh) (gt_read t) None (u64 (l + 1)) start =
      ([PostedGrain (u64 (l + 1)) start e], Inr \<lparr>gs_next = (if e = n then 0 else e), gs_bytes = b, gs_invalid = False\<rparr>)" "start < e" "e \<le> n"
    using honest_batch[OF h(2) assms(4,5)] by blast
  have "e \<noteq> 0" using e(2) by (auto simp: word_less_nat_alt)
  let ?es = "SawHead h # PostedGrain (u64 (l + 1)) start e # (if e = n then [ReadOk (u64 (l + 1)) 1] else []) @ [Completed (u64 (l + 1)) b late]"
  have "grain_pass sh t (l, start) = (?es, GoOn (if e = n then (l + 1, 0) else (l, e)))"
    using no_resync[OF assms(1) h(1), of start] assms(1,3,6) h e(1) \<open>e \<noteq> 0\<close>
    by (simp add: grain_pass_def send_grain_def keeps_up_def Let_def)
  then show thesis using e(2,3) by (rule that[of ?es e]) simp
qed

lemma held_up_pass:
  assumes "keeps_up l t" "held_up n t" "\<not> sh_data sh" "start < n" "n < GrainValidSlicesAll"
  obtains es where "grain_pass sh t (l, start) = (es, GoOn (l, start))" "\<And>p fs. \<exists>q. landed p (es @ fs) = landed q fs"
proof -
  from assms(2) consider e where "gt_probe t = Inl e"
    | h e where "gt_probe t = Inr h" "\<And>idx mv. gt_read t idx mv = Inl e" "\<not> isReaderAgedOut e"
    | h e where "gt_probe t = Inr h" "honest_read n (gt_read t)" "gt_reply t = Some e" "retryablePost e"
    by (auto simp: held_up_def)
  then show thesis
  proof cases
    case 1
    with assms(1) show thesis by (intro that[of "[]"]) (auto simp: grain_pass_def keeps_up_def)
  next
    case 2
    with assms(1,3) show thesis
      by (intro that[of "[SawHead h, ReadFailed e (u64 (add64 l 1))]"])
        (auto simp: grain_pass_def send_grain_def keeps_up_def newGrainTransfer_def readForTransfer_def no_resync[OF assms(1) 2(1)] Let_def)
  next
    case 3
    from 3(2) obtain v where v: "gt_read t (u64 (add64 l 1)) (batchEnd start (sh_batch sh)) = Inr \<lparr>sg_invalid = False, sg_valid = v, sg_total = n\<rparr>"
      unfolding honest_read_def by blast
    have "landed p ([SawHead h, PostedGrain (u64 (add64 l 1)) start (max v start)] @ fs) = landed (Some (u64 (add64 l 1), start, max v start)) fs" for p fs
      by simp
    with 3 v assms(1,3) show thesis
      by (intro that[of "[SawHead h, PostedGrain (u64 (add64 l 1)) start (max v start)]"])
        (auto simp: grain_pass_def send_grain_def keeps_up_def newGrainTransfer_def readForTransfer_def post_grain_def retryable_not_aged
          no_resync[OF assms(1) 3(1)] Let_def)
  qed
qed

lemma sent_from:
  assumes "\<not> sh_data sh" "n < GrainValidSlicesAll" "add64 l 1 = l + 1"
  shows "list_all (\<lambda>t. keeps_up l t \<and> (sends_batch sh n t \<or> held_up n t)) turns \<Longrightarrow> start < n \<Longrightarrow>
   unat n - unat start \<le> length (filter (sends_batch sh n) turns) \<Longrightarrow>
   \<exists>k es bs. k \<le> length turns \<and> grain_loop sh (take k turns) (l, start) = (es, GoOn (l + 1, 0)) \<and>
     (\<forall>p. landed p es = bs) \<and> tiles (u64 (l + 1)) start n bs"
proof (induction turns arbitrary: start)
  case Nil
  then show ?case by (simp add: word_less_nat_alt)
next
  case (Cons t turns)
  from Cons.prems(1) have t: "keeps_up l t" "sends_batch sh n t \<or> held_up n t"
    and ts: "list_all (\<lambda>t. keeps_up l t \<and> (sends_batch sh n t \<or> held_up n t)) turns" by simp_all
  show ?case
  proof (cases "sends_batch sh n t")
    case True
    obtain es e where e: "grain_pass sh t (l, start) = (es, GoOn (if e = n then (l + 1, 0) else (l, e)))" "start < e" "e \<le> n"
      "\<And>p fs. landed p (es @ fs) = (u64 (l + 1), start, e) # landed None fs"
      using sending_pass[OF t(1) True assms(1) Cons.prems(2) assms(2,3)] by metis
    show ?thesis
    proof (cases "e = n")
      case True
      have "landed p es = [(u64 (l + 1), start, e)]" for p using e(4)[of p "[]"] by simp
      with True e show ?thesis by (intro exI[of _ 1] exI[of _ es] exI[of _ "[(u64 (l + 1), start, e)]"]) simp
    next
      case False
      have "e < n" using e(3) False by simp
      moreover have "unat start < unat e" using e(2) by (simp add: word_less_nat_alt)
      then have "unat n - unat e \<le> length (filter (sends_batch sh n) turns)" using Cons.prems(3) True by simp
      ultimately obtain k fs bs where ih: "k \<le> length turns" "grain_loop sh (take k turns) (l, e) = (fs, GoOn (l + 1, 0))"
        "\<forall>p. landed p fs = bs" "tiles (u64 (l + 1)) e n bs" using Cons.IH[OF ts] by blast
      then show ?thesis using e False
        by (intro exI[of _ "Suc k"] exI[of _ "es @ fs"] exI[of _ "(u64 (l + 1), start, e) # bs"]) simp
    qed
  next
    case False
    obtain es where e: "grain_pass sh t (l, start) = (es, GoOn (l, start))" "\<And>p fs. \<exists>q. landed p (es @ fs) = landed q fs"
      using held_up_pass[OF t(1) _ assms(1) Cons.prems(2) assms(2)] t(2) False by metis
    have "unat n - unat start \<le> length (filter (sends_batch sh n) turns)" using Cons.prems(3) False by simp
    then obtain k fs bs where ih: "k \<le> length turns" "grain_loop sh (take k turns) (l, start) = (fs, GoOn (l + 1, 0))"
      "\<forall>p. landed p fs = bs" "tiles (u64 (l + 1)) start n bs" using Cons.IH[OF ts Cons.prems(2)] by blast
    have "\<forall>p. landed p (es @ fs) = bs" using e(2) ih(3) by metis
    then show ?thesis using e(1) ih by (intro exI[of _ "Suc k"] exI[of _ "es @ fs"] exI[of _ bs]) simp
  qed
qed

subsection \<open>A whole grain at the target\<close>

text \<open>The batch that ends at slice \<open>e\<close> arrives: libmxl-fabrics has set the slot's header from the range.\<close>

definition arrived_batch :: "uint64 \<Rightarrow> uint16 \<Rightarrow> uint64 \<Rightarrow> uint16 \<Rightarrow> grain_writer" where
  "arrived_batch idx n bytes e =
     \<lparr>gw_data = False, gw_info = Inr \<lparr>gh_index = idx, gh_invalid = False, gh_valid = e\<rparr>, gw_open = Inr (n, bytes), gw_commit = None\<rparr>"

text \<open>The target's turns while batches come in: each completed batch arrives once, in order, and in between nothing has
  arrived or the read was interrupted.\<close>

definition idle_arrival :: "grain_arrival \<Rightarrow> bool" where
  "idle_arrival a \<longleftrightarrow> (\<exists>e. ga_read a = Inl e \<and> classifyFabricError (Some e) \<in> {FabricIdle, FabricTransient})"

definition carries :: "uint16 \<Rightarrow> uint64 \<Rightarrow> uint64 \<times> uint16 \<times> uint16 \<Rightarrow> grain_arrival \<Rightarrow> bool" where
  "carries n bytes b a = (case b of (idx, _, e) \<Rightarrow> ga_read a = Inr idx \<and> ga_writer a = arrived_batch idx n bytes e)"

definition delivers :: "uint16 \<Rightarrow> uint64 \<Rightarrow> (uint64 \<times> uint16 \<times> uint16) list \<Rightarrow> grain_arrival list \<Rightarrow> bool" where
  "delivers n bytes bs as \<longleftrightarrow>
     list_all (\<lambda>a. \<not> ga_cancelled a) as \<and> list_all2 (carries n bytes) bs (filter (\<lambda>a. \<not> idle_arrival a) as)"

text \<open>The grains committed, with the slices readers may read and whether as invalid.\<close>

definition committed_grains :: "commit_event list \<Rightarrow> (uint64 \<times> uint16 \<times> bool) list" where
  "committed_grains es = concat (map (\<lambda>e. case e of CommittedGrain i v bad \<Rightarrow> [(i, v, bad)] | _ \<Rightarrow> []) es)"

lemma committed_grains_append [simp]: "committed_grains (es @ fs) = committed_grains es @ committed_grains fs"
  by (simp add: committed_grains_def)

lemma commit_arrived_batch:
  assumes "e \<le> n" "pt_idx (sf_open f) = idx \<Longrightarrow> pt_valid (sf_open f) \<le> e"
  shows "commitGrain (arrived_batch idx n bytes e) now idx f =
    ([CommittedGrain idx e False], Inr \<lparr>gc_bytes = (if e = n then bytes else 0), gc_reason = NotInvalid, gc_done = (e = n)\<rparr>,
     f\<lparr>sf_open := (if e = n then no_partial else \<lparr>pt_idx = idx, pt_valid = e\<rparr>), sf_lastCommitAt := now\<rparr>)"
proof -
  have "commit_valid False idx \<lparr>gh_index = idx, gh_invalid = False, gh_valid = e\<rparr> n (Some (sf_open f)) = e"
    using assms(2) by (auto simp: commit_valid_def invalid_reason_def max_def)
  then show ?thesis using assms(1)
    by (auto simp: commitGrain_def commitArrivedGrain_def arrived_batch_def invalid_reason_def Let_def)
qed

lemma idle_pass: "\<not> ga_cancelled a \<Longrightarrow> idle_arrival a \<Longrightarrow> target_pass a f = ([], LoopGoesOn, f)"
  by (auto simp: target_pass_def idle_arrival_def)

lemma batch_pass:
  assumes "\<not> ga_cancelled a" "carries n bytes (idx, s, e) a" "e \<le> n" "pt_idx (sf_open f) = idx \<Longrightarrow> pt_valid (sf_open f) \<le> e"
  shows "target_pass a f = ([CommittedGrain idx e False, Progress idx (ga_at a)], LoopGoesOn,
    f\<lparr>sf_open := (if e = n then no_partial else \<lparr>pt_idx = idx, pt_valid = e\<rparr>), sf_lastCommitAt := ga_now a\<rparr>)"
  using assms(1,2) by (simp add: target_pass_def carries_def commit_arrived_batch[OF assms(3,4)])

lemma received_from:
  "delivers n bytes bs as \<Longrightarrow> tiles idx s n bs \<Longrightarrow> s \<le> n \<Longrightarrow> (s = n \<Longrightarrow> sf_open f = no_partial) \<Longrightarrow>
   (s < n \<Longrightarrow> pt_idx (sf_open f) = idx \<Longrightarrow> pt_valid (sf_open f) \<le> s) \<Longrightarrow>
   \<exists>es f'. runTargetProgressLoop as f = (es, LoopGoesOn, f') \<and> committed_grains es = map (\<lambda>(i, _, e). (i, e, False)) bs \<and>
     sf_open f' = no_partial"
proof (induction as arbitrary: bs s f)
  case Nil
  then show ?case by (auto simp: delivers_def committed_grains_def)
next
  case (Cons a as)
  have a: "\<not> ga_cancelled a" using Cons.prems(1) by (simp add: delivers_def)
  show ?case
  proof (cases "idle_arrival a")
    case True
    then have "delivers n bytes bs as" using Cons.prems(1) by (simp add: delivers_def)
    from Cons.IH[OF this Cons.prems(2-5)] obtain es f' where "runTargetProgressLoop as f = (es, LoopGoesOn, f')"
      "committed_grains es = map (\<lambda>(i, _, e). (i, e, False)) bs" "sf_open f' = no_partial" by blast
    then show ?thesis using idle_pass[OF a True, of f] by simp
  next
    case False
    then obtain b bs' where bs: "bs = b # bs'" "carries n bytes b a" "delivers n bytes bs' as"
      using Cons.prems(1) by (auto simp: delivers_def list_all2_Cons2)
    then obtain e where b: "b = (idx, s, e)" "s < e" "e \<le> n" "tiles idx e n bs'" using Cons.prems(2) by (cases b) auto
    let ?f = "f\<lparr>sf_open := (if e = n then no_partial else \<lparr>pt_idx = idx, pt_valid = e\<rparr>), sf_lastCommitAt := ga_now a\<rparr>"
    have "s < n" using b(2,3) by simp
    then have p: "target_pass a f = ([CommittedGrain idx e False, Progress idx (ga_at a)], LoopGoesOn, ?f)"
      using batch_pass[OF a bs(2)[unfolded b(1)] b(3)] Cons.prems(5) b(2) by (meson order.trans less_imp_le)
    have "e = n \<Longrightarrow> sf_open ?f = no_partial" "e < n \<Longrightarrow> pt_idx (sf_open ?f) = idx \<Longrightarrow> pt_valid (sf_open ?f) \<le> e"
      by (auto simp: no_partial_def)
    from Cons.IH[OF bs(3) b(4,3) this] obtain es f' where ih: "runTargetProgressLoop as ?f = (es, LoopGoesOn, f')"
      "committed_grains es = map (\<lambda>(i, _, e). (i, e, False)) bs'" "sf_open f' = no_partial" by blast
    then show ?thesis using p bs(1) b(1) by (auto simp: committed_grains_def)
  qed
qed


subsection \<open>Mirrors that share a flow\<close>

text \<open>The arrivals of all mirrors of a flow, in the order in which they take the lock. A commit is the grain, the slices
  committed, whether as invalid, and whether it completed the grain.\<close>

definition commits_of :: "commit_error + grainCommit \<Rightarrow> commit_event list \<Rightarrow> (uint64 \<times> uint16 \<times> bool \<times> bool) list" where
  "commits_of r es =
     concat (map (\<lambda>e. case e of CommittedGrain i v bad \<Rightarrow> [(i, v, bad, case r of Inr c \<Rightarrow> gc_done c | Inl _ \<Rightarrow> False)] | _ \<Rightarrow> []) es)"

fun commit_run :: "(grain_writer \<times> time \<times> uint64) list \<Rightarrow> sharedFlow \<Rightarrow> (uint64 \<times> uint16 \<times> bool \<times> bool) list" where
  "commit_run [] f = []"
| "commit_run ((w, now, idx) # as) f =
     (case commitGrain w now idx f of
        (es, r, f') \<Rightarrow> commits_of r es @ commit_run as f')"

definition keeps_slices :: "uint64 \<times> uint16 \<times> bool \<times> bool \<Rightarrow> uint64 \<times> uint16 \<times> bool \<times> bool \<Rightarrow> bool" where
  "keeps_slices c d = (case (c, d) of ((i, v, _, fin), (j, w, bad, _)) \<Rightarrow> i = j \<and> \<not> fin \<and> \<not> bad \<longrightarrow> v \<le> w)"

fun chain :: "('a \<Rightarrow> 'a \<Rightarrow> bool) \<Rightarrow> 'a list \<Rightarrow> bool" where
  "chain R (x # y # zs) = (R x y \<and> chain R (y # zs))"
| "chain R _ = True"

lemma chain_Cons: "chain R (x # xs) \<longleftrightarrow> (xs = [] \<or> R x (hd xs)) \<and> chain R xs"
  by (cases xs) auto

text \<open>The commit of one arrival.\<close>

lemma commitGrain_cases:
  assumes "commitGrain w now idx f = (es, r, f')" "\<not> gw_data w"
  shows "(\<exists>v bad fin hdr. commits_of r es
      = [(idx, v, bad, fin)] \<and> gw_info w = Inr hdr \<and> bad = (gh_index hdr \<noteq> idx \<or> gh_invalid hdr) \<and>
      (\<not> bad \<longrightarrow> gh_valid hdr \<le> v \<and> (pt_idx (sf_open f) = idx \<longrightarrow> pt_valid (sf_open f) \<le> v)) \<and>
      (\<not> fin \<longrightarrow> sf_open f' = \<lparr>pt_idx = idx, pt_valid = v\<rparr>)) \<or>
    commits_of r es = [] \<and>
      sf_open f' = sf_open f"
  using assms
  by (auto simp: commits_of_def commitGrain_def commitArrivedGrain_def recordSibling_def invalid_reason_def commit_valid_def Let_def
      split: sum.splits option.splits prod.splits if_splits)

lemma commit_run_hd:
  assumes "\<And>a. a \<in> set as \<Longrightarrow> \<not> gw_data (fst a)" "commit_run as f \<noteq> []" "\<not> fst (snd (snd (hd (commit_run as f))))"
    "fst (hd (commit_run as f)) = pt_idx (sf_open f)"
  shows "pt_valid (sf_open f) \<le> fst (snd (hd (commit_run as f)))"
  using assms
proof (induction as arbitrary: f)
  case (Cons a as)
  obtain w now idx where a: "a = (w, now, idx)" by (cases a) auto
  obtain es r f' where c: "commitGrain w now idx f = (es, r, f')" by (cases "commitGrain w now idx f") auto
  from Cons.prems(1)[of a] a have "\<not> gw_data w" by simp
  from commitGrain_cases[OF c this] show ?case
    using Cons.prems Cons.IH[of f'] a c by (elim disjE exE conjE) auto
qed simp

lemma commit_run_chain:
  "(\<And>a. a \<in> set as \<Longrightarrow> \<not> gw_data (fst a)) \<Longrightarrow> chain keeps_slices (commit_run as f)"
proof (induction as arbitrary: f)
  case (Cons a as)
  obtain w now idx where a: "a = (w, now, idx)" by (cases a) auto
  obtain es r f' where c: "commitGrain w now idx f = (es, r, f')" by (cases "commitGrain w now idx f") auto
  from Cons.prems[of a] a have "\<not> gw_data w" by simp
  note cases' = commitGrain_cases[OF c this]
  have IH: "chain keeps_slices (commit_run as f')" using Cons by simp
  have first: "keeps_slices (idx, v, bad, fin) (hd (commit_run as f'))"
    if "commit_run as f' \<noteq> []" "\<not> fin \<longrightarrow> sf_open f' = \<lparr>pt_idx = idx, pt_valid = v\<rparr>" for v bad fin
    using commit_run_hd[of as f'] Cons.prems that by (cases "hd (commit_run as f')") (auto simp: keeps_slices_def)
  from cases' show ?case
    using a c IH first by (elim disjE exE conjE) (auto simp: chain_Cons)
qed simp

text \<open>C37. Mirrors of one flow into one node write the same ring, and their batches of a grain come in any order. No arrival takes
  slices back: of two commits of a video grain that follow each other, the second has no fewer slices than the first,
  unless the first completed the grain or the second declares it invalid.\<close>

theorem siblings_never_take_slices_back:
  assumes "\<forall>(w, now, idx) \<in> set arrivals. \<not> gw_data w"
  shows "chain keeps_slices (commit_run arrivals f)"
  using assms by (intro commit_run_chain) auto

subsection \<open>On concrete grains\<close>

definition growing_read :: "uint64 \<Rightarrow> uint16 \<Rightarrow> mxl_error + src_grain" where
  "growing_read idx mv = Inr \<lparr>sg_invalid = False, sg_valid = min mv 2, sg_total = 2\<rparr>"

definition new_shared :: sharedFlow where
  "new_shared = \<lparr>sf_lastCommitAt = 0, sf_lastHead = 0, sf_haveHead = False, sf_open = no_partial\<rparr>"

text \<open>A grain of two slices, sent one at a time; the first turn finds it not ready.\<close>

definition growing_turn :: "bool \<Rightarrow> grain_turn" where
  "growing_turn ready = \<lparr>gt_cancelled = False, gt_probe = Inr 51,
     gt_read = (if ready then growing_read else (\<lambda>_ _. Inl MxlNotReady)), gt_reply = None, gt_await = quick, gt_cancelledAfter = False\<rparr>"

definition growing_flow :: flow_shape where
  "growing_flow = \<lparr>sh_data = False, sh_perSlice = 10, sh_batch = 1, sh_interval = 0\<rparr>"

definition growing_arrival :: "mxl_error + uint16 \<Rightarrow> grain_arrival" where
  "growing_arrival e = \<lparr>ga_cancelled = False, ga_read = (case e of Inl x \<Rightarrow> Inl x | Inr _ \<Rightarrow> Inr 51),
     ga_writer = arrived_batch 51 2 20 (case e of Inl _ \<Rightarrow> 0 | Inr v \<Rightarrow> v), ga_now = 100, ga_at = 100\<rparr>"

definition growing_turns :: "grain_turn list" where
  "growing_turns = [growing_turn False, growing_turn True, growing_turn True]"

definition growing_arrivals :: "grain_arrival list" where
  "growing_arrivals = [growing_arrival (Inr 1), growing_arrival (Inl MxlNotReady), growing_arrival (Inr 2)]"

lemma growing_runs:
  "snd (grain_loop growing_flow (take 0 growing_turns) (50, 0)) = GoOn (50, 0)"
  "snd (grain_loop growing_flow (take 1 growing_turns) (50, 0)) = GoOn (50, 0)"
  "snd (grain_loop growing_flow (take 2 growing_turns) (50, 0)) = GoOn (50, 1)"
  "landed None (fst (grain_loop growing_flow (take 3 growing_turns) (50, 0))) = [(51, 0, 1), (51, 1, 2)]"
  by code_simp+


text \<open>A sibling's earlier batch arrives after a later one was committed.\<close>

theorem siblings_never_take_slices_back_witness:
  "chain keeps_slices (commit_run [(arrived_batch 5 8 80 6, 100, 5), (arrived_batch 5 8 80 3, 101, 5)] new_shared) \<and>
   commit_run [(arrived_batch 5 8 80 6, 100, 5), (arrived_batch 5 8 80 3, 101, 5)] new_shared = [(5, 6, False, False), (5, 6, False, False)]"
proof
  show "chain keeps_slices (commit_run [(arrived_batch 5 8 80 6, 100, 5), (arrived_batch 5 8 80 3, 101, 5)] new_shared)"
    by (rule siblings_never_take_slices_back) (simp add: arrived_batch_def)
  show "commit_run [(arrived_batch 5 8 80 6, 100, 5), (arrived_batch 5 8 80 3, 101, 5)] new_shared = [(5, 6, False, False), (5, 6, False, False)]"
    by code_simp
qed

end
