(* ===== verification/Mirror_Watchdogs.thy ===== *)
theory Mirror_Watchdogs
  imports Target_Commit Api_Types
begin

section \<open>The watchdogs of a mirror's two halves (gateway/internal/mirror/source.go, target.go, common.go)\<close>

text \<open>
  Each half of a mirror watches itself once a second: what its loop has recorded becomes a condition on the mirror, and a
  half that finds itself wedged rebuilds its reader or its fabric side, a bounded number of times. The halves meet in the
  status: the target rebuilds only when the source says it is sending. The loops' events update the entry (\<open>note_event\<close>,
  \<open>recordCommit\<close>). A tick of a watchdog is a function of the entry, the clock and what the API server, libmxl and the
  queue answer. Time 0 is Go's zero time; \<^verbatim>\<open>nil\<close> times are \<open>None\<close>; the printing of a duration is a parameter.
\<close>

subsection \<open>Backoff\<close>

fun backoff_loop :: "nat \<Rightarrow> duration \<Rightarrow> duration" where
  "backoff_loop 0 d = d"
| "backoff_loop (Suc n) d = (let d' = mul64 d 2 in if d' \<ge> 30 * second then 30 * second else backoff_loop n d')"

definition backoffFor :: "nat \<Rightarrow> duration" where
  "backoffFor attempts = (if attempts = 0 then 100 * millisecond else backoff_loop (attempts - 1) (100 * millisecond))"

text \<open>The failure runs of a reconciler; \<open>'i\<close> is what an attempt depends on.\<close>

record 'i attempt_run =
  ar_count :: nat
  ar_notBefore :: time
  ar_inputs :: 'i

type_synonym ('k, 'i) attemptTable = "'k \<rightharpoonup> 'i attempt_run"

definition attempt_wait :: "('k, 'i) attemptTable \<Rightarrow> 'k \<Rightarrow> 'i \<Rightarrow> time \<Rightarrow> duration option" where
  "attempt_wait t key inputs now =
     (case t key of
        None \<Rightarrow> None
      | Some a \<Rightarrow> if ar_inputs a \<noteq> inputs then None
                  else let d = time_sub (ar_notBefore a) now in if d > 0 then Some d else None)"

text \<open>The count is a \<^verbatim>\<open>uint32\<close>.\<close>

definition attempt_fail ::
  "('k, 'i) attemptTable \<Rightarrow> 'k \<Rightarrow> 'i \<Rightarrow> time \<Rightarrow> (nat \<Rightarrow> duration) \<Rightarrow> ('k, 'i) attemptTable \<times> nat \<times> duration" where
  "attempt_fail t key inputs now backoff =
     (let n = (case t key of None \<Rightarrow> 1 | Some a \<Rightarrow> (ar_count a + 1) mod 2 ^ 32); d = backoff n
      in (t(key \<mapsto> \<lparr>ar_count = n, ar_notBefore = now + d, ar_inputs = inputs\<rparr>), n, d))"

definition attempt_rearm :: "('k, 'i) attemptTable \<Rightarrow> 'k \<Rightarrow> time \<Rightarrow> duration \<Rightarrow> ('k, 'i) attemptTable" where
  "attempt_rearm t key now d = (case t key of None \<Rightarrow> t | Some a \<Rightarrow> t(key \<mapsto> a\<lparr>ar_notBefore := now + d\<rparr>))"

definition attempt_seed :: "('k, 'i) attemptTable \<Rightarrow> 'k \<Rightarrow> nat \<Rightarrow> 'i \<Rightarrow> ('k, 'i) attemptTable" where
  "attempt_seed t key count zero =
     (if t key = None \<and> count > 0 then t(key \<mapsto> \<lparr>ar_count = count, ar_notBefore = 0, ar_inputs = zero\<rparr>) else t)"

definition attempt_count :: "('k, 'i) attemptTable \<Rightarrow> 'k \<Rightarrow> nat" where
  "attempt_count t key = (case t key of None \<Rightarrow> 0 | Some a \<Rightarrow> ar_count a)"

record redial =
  rd_count :: nat
  rd_notBefore :: time

definition takeRedial :: "redial option \<Rightarrow> time \<Rightarrow> redial option \<times> duration \<times> nat" where
  "takeRedial r now =
     (let d = (case r of None \<Rightarrow> \<lparr>rd_count = 0, rd_notBefore = 0\<rparr> | Some d \<Rightarrow> d); wait = time_sub (rd_notBefore d) now
      in if wait > 0 then (r, wait, rd_count d)
         else let n = (rd_count d + 1) mod 2 ^ 32
              in (Some \<lparr>rd_count = n, rd_notBefore = now + backoffFor n\<rparr>, 0, n))"

subsection \<open>The origin of the reader\<close>

definition observedOriginAt :: "string \<Rightarrow> MxlFlow option \<Rightarrow> time option" where
  "observedOriginAt node flow =
     (case flow of
        None \<Rightarrow> None
      | Some f \<Rightarrow>
          (case find_first (\<lambda>l. loc_nodeName l = node \<and> loc_phase l = LocationOrigin) (fst_locations (flow_status f)) of
             None \<Rightarrow> None | Some l \<Rightarrow> loc_appearedAt l))"

definition truncate_to_second :: "time \<Rightarrow> time" where
  "truncate_to_second t = t - t mod second"

definition originRotated :: "time option \<Rightarrow> time option \<Rightarrow> time \<Rightarrow> bool" where
  "originRotated baseline observed openedAt =
     (case observed of
        None \<Rightarrow> False
      | Some o' \<Rightarrow> (case baseline of Some b \<Rightarrow> o' > b | None \<Rightarrow> \<not> o' < truncate_to_second openedAt))"

subsection \<open>What the source half records\<close>

record source_entry =
  se_infoStr :: string
  se_boundInterface :: string
  se_openedAt :: time
  se_progress :: uint64
  se_late :: uint64
  se_lost :: uint64
  se_bytes :: uint64
  se_lastSentAt :: "time option"
  se_lastCompleted :: uint64
  se_dropped :: bool
  se_redialQueued :: bool
  se_skipped :: uint64
  se_resyncGrains :: uint64
  se_agedOutGrains :: uint64
  se_agedOutAt :: "time option"
  se_lastHead :: uint64
  se_headAdvancedAt :: "time option"
  se_addTargetAttempts :: nat
  se_lastError :: "string option"
  se_postError :: "string option"

text \<open>What \<^verbatim>\<open>sourceEntry\<close> does with an event of its loop; \<open>error_of\<close> is the text of an error.\<close>

fun note_event :: "(mxl_error \<Rightarrow> string) \<Rightarrow> time \<Rightarrow> transfer_event \<Rightarrow> source_entry \<Rightarrow> source_entry" where
  "note_event error_of at (SawHead h) e =
     (if se_headAdvancedAt e \<noteq> None \<and> se_lastHead e = h then e else e\<lparr>se_lastHead := h, se_headAdvancedAt := Some at\<rparr>)"
| "note_event error_of at AgedOut e = e\<lparr>se_agedOutAt := Some at\<rparr>"
| "note_event error_of at (PassedOver UnsentResync n) e = e\<lparr>se_resyncGrains := u64 (se_resyncGrains e + n)\<rparr>"
| "note_event error_of at (PassedOver UnsentAgedOut n) e = e\<lparr>se_agedOutGrains := u64 (se_agedOutGrains e + n)\<rparr>"
| "note_event error_of at (SkippedSamples n) e = e\<lparr>se_skipped := u64 (se_skipped e + n)\<rparr>"
| "note_event error_of at (Completed idx bytes late) e =
     e\<lparr>se_bytes := u64 (se_bytes e + bytes), se_lastCompleted := idx, se_lastSentAt := Some at,
       se_progress := u64 (se_progress e + 1), se_late := (if late then u64 (se_late e + 1) else se_late e)\<rparr>"
| "note_event error_of at (PostFailed err) e = e\<lparr>se_postError := Some (error_of err)\<rparr>"
| "note_event error_of at (Dropped outstanding) e =
     e\<lparr>se_lost := (if outstanding then u64 (se_lost e + 1) else se_lost e), se_dropped := True\<rparr>"
| "note_event error_of at _ e = e"

definition ReasonHandshakeComplete :: string where "ReasonHandshakeComplete = ''HandshakeComplete''"
definition ReasonNoGrains :: string where "ReasonNoGrains = ''NoGrains''"
definition ReasonAddTargetFailed :: string where "ReasonAddTargetFailed = ''AddTargetFailed''"
definition ReasonReaderAgedOut :: string where "ReasonReaderAgedOut = ''ReaderAgedOut''"
definition ReasonReaderNotAdvancing :: string where "ReasonReaderNotAdvancing = ''ReaderNotAdvancing''"
definition ReasonTransfersNotLanding :: string where "ReasonTransfersNotLanding = ''TransfersNotLanding''"
definition ReasonSourceWriterGone :: string where "ReasonSourceWriterGone = ''SourceWriterGone''"
definition ReasonReaderRebuildCapReached :: string where "ReasonReaderRebuildCapReached = ''ReaderRebuildCapReached''"
definition ReasonStuckHandshakeCapReached :: string where "ReasonStuckHandshakeCapReached = ''StuckHandshakeCapReached''"
definition ConditionTypeSourceProgress :: string where "ConditionTypeSourceProgress = ''SourceProgress''"
definition ConditionTypeTargetProgress :: string where "ConditionTypeTargetProgress = ''TargetProgress''"

lemmas watchdog_reasons =
  ReasonHandshakeComplete_def ReasonNoGrains_def ReasonAddTargetFailed_def ReasonReaderAgedOut_def ReasonReaderNotAdvancing_def
  ReasonTransfersNotLanding_def ReasonSourceWriterGone_def ReasonRecovered_def ReasonReaderRebuildCapReached_def
  ReasonStuckHandshakeCapReached_def

definition maxReaderRebuilds :: nat where "maxReaderRebuilds = 5"
definition defaultReaderStallAfter :: duration where "defaultReaderStallAfter = 20 * second"
definition statusQuantum :: duration where "statusQuantum = 5 * second"

record sourceProgressState =
  sp_status :: ConditionStatus
  sp_reason :: string
  sp_message :: string
  sp_attempts :: nat
  sp_rebuildReader :: bool
  sp_lastSentAt :: "time option"
  sp_boundInterface :: string

definition source_state :: "ConditionStatus \<Rightarrow> string \<Rightarrow> string \<Rightarrow> bool \<Rightarrow> time option \<Rightarrow> sourceProgressState" where
  "source_state status reason message rebuild sent =
     \<lparr>sp_status = status, sp_reason = reason, sp_message = message, sp_attempts = 0, sp_rebuildReader = rebuild,
      sp_lastSentAt = sent, sp_boundInterface = ''''\<rparr>"

definition source_delivering :: "source_entry \<Rightarrow> duration \<Rightarrow> time \<Rightarrow> bool" where
  "source_delivering e stallAfter now = (case se_lastSentAt e of None \<Rightarrow> False | Some t \<Rightarrow> time_sub now t \<le> stallAfter)"

definition recently_aged :: "source_entry \<Rightarrow> duration \<Rightarrow> time \<Rightarrow> bool" where
  "recently_aged e stallAfter now = (case se_agedOutAt e of None \<Rightarrow> False | Some t \<Rightarrow> time_sub now t \<le> stallAfter)"

definition head_stuck :: "source_entry \<Rightarrow> duration \<Rightarrow> time \<Rightarrow> bool" where
  "head_stuck e stallAfter now = (case se_headAdvancedAt e of None \<Rightarrow> False | Some t \<Rightarrow> time_sub now t > stallAfter)"

definition observedState :: "(duration \<Rightarrow> string) \<Rightarrow> source_entry \<Rightarrow> duration \<Rightarrow> time \<Rightarrow> sourceProgressState" where
  "observedState show_duration e stallAfter now =
     (let sent = se_lastSentAt e; ok = source_delivering e stallAfter now; aged = recently_aged e stallAfter now
      in if se_addTargetAttempts e > 0
         then (source_state ConditionFalse ReasonAddTargetFailed (case se_lastError e of None \<Rightarrow> '''' | Some m \<Rightarrow> m) False sent)
                \<lparr>sp_attempts := se_addTargetAttempts e\<rparr>
         else if se_postError e \<noteq> None \<and> \<not> ok
         then source_state ConditionFalse ReasonTransfersNotLanding
                (''the initiator rejects every transfer: '' @ the (se_postError e)) False sent
         else if head_stuck e stallAfter now \<and> \<not> ok
         then source_state ConditionFalse ReasonReaderNotAdvancing
                (''reader head stuck at '' @ show_int (se_lastHead e) @ '' for over '' @ show_duration stallAfter) True sent
         else if aged \<and> \<not> ok
         then source_state ConditionFalse ReasonReaderAgedOut
                (''source reader fell behind writer and has delivered nothing in '' @ show_duration stallAfter) True sent
         else if \<not> ok \<and> se_openedAt e \<noteq> 0 \<and> time_sub now (se_openedAt e) > stallAfter
         then source_state ConditionFalse ReasonTransfersNotLanding
                (''reader head at '' @ show_int (se_lastHead e) @ '' is advancing but nothing has reached the target in '' @ show_duration stallAfter) False sent
         else if aged
         then source_state ConditionFalse ReasonReaderAgedOut ''source reader fell behind writer; advanced past missed grains'' False sent
         else if se_progress e > 0
         then source_state ConditionTrue ReasonRecovered ''grain progress observed'' False sent
         else source_state ConditionTrue ReasonHandshakeComplete ''initiator running'' False sent)"

definition sameQuantum :: "time \<Rightarrow> time \<Rightarrow> bool" where
  "sameQuantum a b = (let d = time_sub a b in (if d < 0 then sub64 0 d else d) < statusQuantum)"

definition same_times :: "time option \<Rightarrow> time option \<Rightarrow> bool" where
  "same_times a b = (case (a, b) of (None, None) \<Rightarrow> True | (Some x, Some y) \<Rightarrow> sameQuantum x y | _ \<Rightarrow> False)"

definition sourceStateEqual :: "sourceProgressState \<Rightarrow> sourceProgressState \<Rightarrow> bool" where
  "sourceStateEqual a b \<longleftrightarrow>
     sp_status a = sp_status b \<and> sp_reason a = sp_reason b \<and> sp_message a = sp_message b \<and> sp_attempts a = sp_attempts b \<and>
     sp_boundInterface a = sp_boundInterface b \<and> same_times (sp_lastSentAt a) (sp_lastSentAt b)"

subsection \<open>A tick of the source's watchdog\<close>

datatype live_answer = WriterLive bool | WriterNotFound | WriterUnknown

text \<open>\<open>None\<close>: nobody to ask, or a flow without an id.\<close>

definition writerGone :: "live_answer option \<Rightarrow> bool" where
  "writerGone w = (case w of None \<Rightarrow> False | Some (WriterLive l) \<Rightarrow> \<not> l | Some WriterNotFound \<Rightarrow> True | Some WriterUnknown \<Rightarrow> False)"

datatype source_action =
    PublishSource sourceProgressState
  | AskRedial
  | ClearRedials
  | ReleaseReader
  | RebuildReader nat
  | ClearRebuilds

record source_tick_env =
  ste_mirror :: "go_error + MxlFlowMirror"
  ste_queueRoom :: bool
  ste_writer :: "live_answer option"
  ste_claimed :: bool
  ste_published :: bool
  ste_now :: time

record source_watch =
  swt_last :: "sourceProgressState option"
  swt_rebuilds :: nat
  swt_running :: bool

definition attachedToReplacedTarget :: "source_entry \<Rightarrow> go_error + MxlFlowMirror \<Rightarrow> bool" where
  "attachedToReplacedTarget e m = (case m of Inl _ \<Rightarrow> False | Inr mir \<Rightarrow> mst_targetInfo (mir_status mir) \<noteq> se_infoStr e)"

text \<open>The part of a tick before the state is derived: a dropped target is queued to be added again, once.\<close>

definition enqueue_redial :: "bool \<Rightarrow> source_entry \<Rightarrow> source_action list \<times> source_entry" where
  "enqueue_redial room e =
     (let asks = se_dropped e \<and> \<not> se_redialQueued e \<and> room
      in ((if asks then [AskRedial] else []) @ (if se_progress e > 0 then [ClearRedials] else []),
          if asks then e\<lparr>se_redialQueued := True\<rparr> else e))"

definition writer_gone_state :: "sourceProgressState \<Rightarrow> sourceProgressState" where
  "writer_gone_state state =
     state\<lparr>sp_status := ConditionFalse, sp_reason := ReasonSourceWriterGone,
       sp_message := ''flow has no live writer; releasing the source reader so the flow can be reclaimed''\<rparr>"

definition cap_reached_state :: "sourceProgressState \<Rightarrow> sourceProgressState" where
  "cap_reached_state state =
     state\<lparr>sp_reason := ReasonReaderRebuildCapReached,
       sp_message := sp_message state @ ''; unresolved across '' @ show_nat maxReaderRebuilds @ '' reopens''\<rparr>"

text \<open>The end of a tick: recovery ends the run of reopens, and what differs from the last publication is published.\<close>

definition publish_tick :: "bool \<Rightarrow> sourceProgressState \<Rightarrow> source_watch \<Rightarrow> source_action list \<times> source_watch" where
  "publish_tick published state w =
     (let cleared = sp_status state = ConditionTrue \<and> sp_reason state = ReasonRecovered;
          clear = (if cleared then [ClearRebuilds] else []);
          w' = (if cleared then w\<lparr>swt_rebuilds := 0\<rparr> else w)
      in if (case swt_last w of None \<Rightarrow> False | Some l \<Rightarrow> sourceStateEqual state l) then (clear, w')
         else (clear @ [PublishSource state], if published then w'\<lparr>swt_last := Some state\<rparr> else w'))"

text \<open>\<open>swt_running\<close> is false once the watchdog has handed over to a teardown or a rebuild. \<open>ste_claimed\<close> is whether
  \<open>beginRebuild\<close> gets the source.\<close>

definition act_on_state :: "source_tick_env \<Rightarrow> sourceProgressState \<Rightarrow> source_watch \<Rightarrow> source_action list \<times> source_watch" where
  "act_on_state env state w =
     (if sp_status state = ConditionFalse \<and> writerGone (ste_writer env)
      then ([PublishSource (writer_gone_state state), ReleaseReader], w\<lparr>swt_running := False\<rparr>)
      else if \<not> sp_rebuildReader state then publish_tick (ste_published env) state w
      else if \<not> swt_rebuilds w < maxReaderRebuilds then publish_tick (ste_published env) (cap_reached_state state) w
      else if ste_claimed env
      then ([PublishSource state, RebuildReader (swt_rebuilds w + 1)], w\<lparr>swt_rebuilds := swt_rebuilds w + 1, swt_running := False\<rparr>)
      else ([], w))"

definition source_tick ::
  "(duration \<Rightarrow> string) \<Rightarrow> duration \<Rightarrow> source_tick_env \<Rightarrow> source_entry \<Rightarrow> source_watch \<Rightarrow> source_action list \<times> source_entry \<times> source_watch" where
  "source_tick show_duration stallAfter env e w =
     (if \<not> swt_running w \<or> attachedToReplacedTarget e (ste_mirror env) then ([], e, w)
      else case enqueue_redial (ste_queueRoom env) e of
             (redial, e') \<Rightarrow>
               (case act_on_state env
                       ((observedState show_duration e' stallAfter (ste_now env))\<lparr>sp_boundInterface := se_boundInterface e'\<rparr>) w of
                  (acts, w') \<Rightarrow> (redial @ acts, e', w')))"

subsection \<open>A tick of the target's watchdog\<close>

definition maxStuckRebuilds :: int where "maxStuckRebuilds = 3"
definition defaultDegradedAfter :: duration where "defaultDegradedAfter = 10 * second"
definition defaultStuckHandshakeAfter :: duration where "defaultStuckHandshakeAfter = 20 * second"
definition defaultSendingIntoSilenceAfter :: duration where "defaultSendingIntoSilenceAfter = 3 * second"

definition sourceIsDelivering :: "MxlFlowMirror \<Rightarrow> time \<Rightarrow> bool" where
  "sourceIsDelivering m openedAt =
     ((case mst_lastSentAt (mir_status m) of None \<Rightarrow> False | Some t \<Rightarrow> t > openedAt) \<or>
      (case find_first (\<lambda>c. cond_type c = ConditionTypeSourceProgress) (mst_conditions (mir_status m)) of
         None \<Rightarrow> False | Some c \<Rightarrow> cond_reason c = ReasonTransfersNotLanding))"

record handshakeWatch =
  hw_openedAt :: time
  hw_since :: time

definition no_watch :: handshakeWatch where
  "no_watch = \<lparr>hw_openedAt = 0, hw_since = 0\<rparr>"

definition sendingSince :: "handshakeWatch \<Rightarrow> time \<Rightarrow> time \<Rightarrow> handshakeWatch" where
  "sendingSince w openedAt now =
     (if hw_since w = 0 \<or> hw_openedAt w \<noteq> openedAt then \<lparr>hw_openedAt = openedAt, hw_since = now\<rparr> else w)"

record target_times =
  tt_degradedAfter :: duration
  tt_stuckHandshakeAfter :: duration
  tt_sendingIntoSilenceAfter :: duration

text \<open>When the fabric side was last opened, besides what \<open>target_entry\<close> has.\<close>

record watched_target = target_entry +
  te_fabricOpenedAt :: "time option"
  te_recovering :: bool

definition wedged :: "target_times \<Rightarrow> go_error + MxlFlowMirror \<Rightarrow> time \<Rightarrow> watched_target \<Rightarrow> handshakeWatch \<Rightarrow> bool \<times> handshakeWatch" where
  "wedged cfg mirror now e w =
     (case te_fabricOpenedAt e of
        None \<Rightarrow> (False, w)
      | Some openedAt \<Rightarrow>
          if te_commits e = te_commitsAtFabricOpen e
          then (case mirror of
                  Inl _ \<Rightarrow> (False, no_watch)
                | Inr m \<Rightarrow>
                    if \<not> sourceIsDelivering m openedAt then (False, no_watch)
                    else let w' = sendingSince w openedAt now
                         in (time_sub now openedAt > tt_stuckHandshakeAfter cfg \<or> time_sub now (hw_since w') > tt_sendingIntoSilenceAfter cfg, w'))
          else (case te_lastCommitAt e of
                  None \<Rightarrow> (False, w)
                | Some lastCommit \<Rightarrow>
                    if te_commits e < te_commitsAtFabricOpen e then (False, w)
                    else (case mirror of
                            Inl _ \<Rightarrow> (False, w)
                          | Inr m \<Rightarrow> ((case mst_lastSentAt (mir_status m) of None \<Rightarrow> False
                                       | Some sent \<Rightarrow> time_sub sent lastCommit > tt_stuckHandshakeAfter cfg), w))))"

record targetProgressState =
  tp_phase :: MxlFlowMirrorPhase
  tp_status :: ConditionStatus
  tp_reason :: string
  tp_message :: string
  tp_lastCommitAt :: "time option"

text \<open>The empty state has the empty reason.\<close>

definition no_target_state :: targetProgressState where
  "no_target_state = \<lparr>tp_phase = MirrorPhaseUnset, tp_status = ConditionUnknown, tp_reason = '''', tp_message = '''', tp_lastCommitAt = None\<rparr>"

definition observedTargetState :: "watched_target \<Rightarrow> duration \<Rightarrow> targetProgressState \<Rightarrow> time \<Rightarrow> targetProgressState" where
  "observedTargetState e degradedAfter previous now =
     (case te_lastCommitAt e of
        None \<Rightarrow>
          (case te_fabricOpenedAt e of
             None \<Rightarrow> no_target_state
           | Some openedAt \<Rightarrow>
               if time_sub now openedAt < degradedAfter then no_target_state
               else \<lparr>tp_phase = MxlFlowMirrorDegraded, tp_status = ConditionFalse, tp_reason = ReasonNoGrains,
                     tp_message = ''no grain commits since the fabric side opened'', tp_lastCommitAt = None\<rparr>)
      | Some lastAt \<Rightarrow>
          if time_sub now lastAt < degradedAfter
          then \<lparr>tp_phase = MxlFlowMirrorReady, tp_status = ConditionTrue,
                tp_reason = (if tp_phase previous = MxlFlowMirrorDegraded \<or> tp_reason previous = ReasonRecovered then ReasonRecovered else ReasonHandshakeComplete),
                tp_message = (if tp_phase previous = MxlFlowMirrorDegraded then ''grain commits resumed after stall''
                              else if tp_reason previous = ReasonRecovered then tp_message previous else ''grain commits observed''),
                tp_lastCommitAt = Some lastAt\<rparr>
          else \<lparr>tp_phase = MxlFlowMirrorDegraded, tp_status = ConditionFalse, tp_reason = ReasonNoGrains,
                tp_message = ''no grain commits within freshness window'', tp_lastCommitAt = Some lastAt\<rparr>)"

definition targetStateEqual :: "targetProgressState \<Rightarrow> targetProgressState \<Rightarrow> bool" where
  "targetStateEqual a b \<longleftrightarrow>
     tp_phase a = tp_phase b \<and> tp_status a = tp_status b \<and> tp_reason a = tp_reason b \<and> tp_message a = tp_message b \<and>
     same_times (tp_lastCommitAt a) (tp_lastCommitAt b)"

datatype target_action =
    PublishTarget targetProgressState
  | PublishFailed string
  | DropEntry bool
  | Recover

record target_watch =
  tw_last :: "targetProgressState option"
  tw_watch :: handshakeWatch
  tw_running :: bool

text \<open>The second look of the watchdog, after it has the recovery gate, has its own answers. \<open>tte_stopped\<close> is whether the
  loop ends within the grace, so that the writer may be closed.\<close>

record target_tick_env =
  tte_mirror :: "go_error + MxlFlowMirror"
  tte_mirror2 :: "go_error + MxlFlowMirror"
  tte_entry2 :: watched_target
  tte_stopped :: bool
  tte_now :: time

definition target_tick :: "target_times \<Rightarrow> target_tick_env \<Rightarrow> watched_target \<Rightarrow> target_watch \<Rightarrow> target_action list \<times> watched_target \<times> target_watch" where
  "target_tick cfg env e w =
     (if \<not> tw_running w \<or> te_recovering e then ([], e, w)
      else case wedged cfg (tte_mirror env) (tte_now env) e (tw_watch w) of
             (True, hw) \<Rightarrow>
               if te_recoveryAttempts e \<ge> maxStuckRebuilds
               then ((case tte_mirror env of Inl _ \<Rightarrow> [] | Inr _ \<Rightarrow> [PublishFailed ReasonStuckHandshakeCapReached]) @ [DropEntry (tte_stopped env)],
                     e, w\<lparr>tw_watch := hw, tw_running := False\<rparr>)
               else (case wedged cfg (tte_mirror2 env) (tte_now env) (tte_entry2 env) hw of
                       (True, hw') \<Rightarrow> ([Recover], (tte_entry2 env)\<lparr>te_recovering := True\<rparr>, w\<lparr>tw_watch := hw'\<rparr>)
                     | (False, hw') \<Rightarrow> ([], tte_entry2 env, w\<lparr>tw_watch := hw'\<rparr>))
           | (False, hw) \<Rightarrow>
               let state = observedTargetState e (tt_degradedAfter cfg) (case tw_last w of None \<Rightarrow> no_target_state | Some l \<Rightarrow> l) (tte_now env)
               in if tp_reason state = '''' \<or> (case tw_last w of None \<Rightarrow> False | Some l \<Rightarrow> targetStateEqual state l) then ([], e, w\<lparr>tw_watch := hw\<rparr>)
                  else ([PublishTarget state], e, w\<lparr>tw_watch := hw, tw_last := Some state\<rparr>))"

subsection \<open>The rebuild of the fabric side\<close>

text \<open>What the rebuild meets: the entry may be gone or closed, the loop may not stop in time, the mirror may be unreadable,
  the open may fail, and each publication too.\<close>

record rebuild_env =
  re_present :: bool
  re_stopped :: bool
  re_closed :: bool
  re_dropped :: bool
  re_mirror :: "go_error + MxlFlowMirror"
  re_opened :: bool
  re_started :: bool
  re_mirror2 :: "go_error + MxlFlowMirror"
  re_infoPublished :: bool
  re_dropped2 :: bool
  re_readyPublished :: bool
  re_now :: time

datatype rebuild_action = MarkMaterializing | PublishInfo | MarkReady | MarkFailed | Forget | CloseWriter

definition dropFailedEntry :: "rebuild_env \<Rightarrow> rebuild_action list" where
  "dropFailedEntry env =
     (case re_mirror2 env of Inl _ \<Rightarrow> [] | Inr _ \<Rightarrow> [MarkFailed]) @ [Forget] @ (if re_stopped env then [CloseWriter] else [])"

definition fabric_opened :: "time \<Rightarrow> watched_target \<Rightarrow> watched_target" where
  "fabric_opened now e = e\<lparr>te_fabricOpenedAt := Some now, te_commitsAtFabricOpen := te_commits e\<rparr>"

definition recoverFromFatalError :: "rebuild_env \<Rightarrow> watched_target \<Rightarrow> rebuild_action list \<times> watched_target" where
  "recoverFromFatalError env e =
     (if \<not> re_present env then ([], e)
      else let e1 = e\<lparr>te_recoveryAttempts := te_recoveryAttempts e + 1\<rparr>; e2 = e1\<lparr>te_recovering := False\<rparr>
           in if te_recoveryAttempts e1 > maxStuckRebuilds then (dropFailedEntry env, e1)
              else if \<not> re_stopped env \<or> re_closed env \<or> re_dropped env then ([], e2)
              else let mark = (case re_mirror env of Inl _ \<Rightarrow> []
                                | Inr m \<Rightarrow> if mst_phase (mir_status m) \<noteq> MxlFlowMirrorMaterializing then [MarkMaterializing] else [])
                   in if \<not> re_opened env then (mark @ [Forget, CloseWriter], e2)
                      else let e3 = fabric_opened (re_now env) e2
                           in if \<not> re_started env then (mark, e3)
                              else case re_mirror2 env of
                                Inl _ \<Rightarrow> (mark @ dropFailedEntry env, e3)
                              | Inr _ \<Rightarrow>
                                  if \<not> re_infoPublished env then (mark @ [PublishInfo] @ dropFailedEntry env, e3)
                                  else if re_dropped2 env then (mark @ [PublishInfo], e3)
                                  else if \<not> re_readyPublished env then (mark @ [PublishInfo, MarkReady] @ dropFailedEntry env, e3)
                                  else (mark @ [PublishInfo, MarkReady], e3))"

end
