(* ===== verification/Watchdog_Safety.thy ===== *)
theory Watchdog_Safety
  imports Mirror_Watchdogs Mirror_Lifecycle
begin

section \<open>What the watchdogs of a mirror guarantee\<close>

text \<open>
  A mirror that has stalled always has an owner: the source reopens its reader or releases it, or it says that its transfers
  do not land, which is what the target waits for to rebuild its fabric side. A mirror that delivers is left alone by
  both halves, and what a half does on its own is bounded: reopens by their number, redials by their distance.
\<close>

subsection \<open>Backoff\<close>

lemma backoff_loop_min:
  assumes "0 < d" "d < 30 * second"
  shows "backoff_loop n d = min (d * 2 ^ n) (30 * second)"
  using assms
proof (induction n arbitrary: d)
  case 0
  then show ?case by simp
next
  case (Suc n)
  have m: "mul64 d 2 = d * 2"
    using Suc.prems by (intro mul64_id) (simp add: second_def)
  show ?case
  proof (cases "d * 2 < 30 * second")
    case True
    then show ?thesis using Suc.IH [of "d * 2"] Suc.prems m by (simp add: mult.assoc)
  next
    case False
    have "d * 2 * 1 \<le> d * 2 * 2 ^ n" using Suc.prems by (intro mult_left_mono) auto
    then show ?thesis using False m by (simp add: min_def mult.assoc)
  qed
qed

lemma backoffFor_min: "0 < n \<Longrightarrow> backoffFor n = min (100 * millisecond * 2 ^ (n - 1)) (30 * second)"
  unfolding backoffFor_def by (simp add: backoff_loop_min millisecond_def second_def)

lemma backoffFor_bounds: "100 * millisecond \<le> backoffFor n \<and> backoffFor n \<le> 30 * second"
proof (cases "n = 0")
  case True
  then show ?thesis by (simp add: backoffFor_def millisecond_def second_def)
next
  case False
  have "(1 :: int) \<le> 2 ^ (n - 1)" by simp
  then show ?thesis using False by (simp add: backoffFor_min millisecond_def second_def min_def)
qed

lemma time_sub_eq_0_iff: "time_sub t u = 0 \<longleftrightarrow> t = u"
  by (auto simp: time_sub_def maxInt64_def)

lemma takeRedial_granted:
  assumes "takeRedial r t = (r', 0, n)"
  shows "r' = Some \<lparr>rd_count = n, rd_notBefore = t + backoffFor n\<rparr>"
  using assms by (auto simp: takeRedial_def Let_def time_sub_eq_0_iff split: if_splits)

lemma takeRedial_waits:
  assumes "takeRedial (Some d) t = (r', 0, n)"
  shows "rd_notBefore d \<le> t \<and> n = (rd_count d + 1) mod 2 ^ 32"
  using assms by (auto simp: takeRedial_def Let_def time_sub_eq_0_iff split: if_splits)

text \<open>After the \<open>n\<close>-th redial of a source, the next one comes no earlier than the backoff.\<close>

theorem redials_back_off:
  assumes "takeRedial r t1 = (r1, 0, n)" and "takeRedial r1 t2 = (r2, 0, n2)" and "0 < n" and "n < 2 ^ 32 - 1"
  shows "n2 = n + 1 \<and> t1 + min (100 * millisecond * 2 ^ (n - 1)) (30 * second) \<le> t2"
proof -
  have r1: "r1 = Some \<lparr>rd_count = n, rd_notBefore = t1 + backoffFor n\<rparr>" by (rule takeRedial_granted [OF assms(1)])
  from takeRedial_waits [OF assms(2) [unfolded r1]] show ?thesis
    using assms(3,4) by (simp add: backoffFor_min)
qed

theorem redials_back_off_witness:
  "(2 :: nat) = 1 + 1 \<and> 5 * second + min (100 * millisecond * 2 ^ (1 - 1 :: nat)) (30 * second) \<le> (6 * second :: int)"
proof (rule redials_back_off [of None _ _ 1 _ _ 2])
  show "takeRedial None (5 * second) = (Some \<lparr>rd_count = 1, rd_notBefore = 5 * second + 100 * millisecond\<rparr>, 0, 1)"
    by (simp add: takeRedial_def backoffFor_def second_def millisecond_def time_sub_id Let_def)
  show "takeRedial (Some \<lparr>rd_count = 1, rd_notBefore = 5 * second + 100 * millisecond\<rparr>) (6 * second) =
      (Some \<lparr>rd_count = 2, rd_notBefore = 6 * second + 200 * millisecond\<rparr>, 0, 2)"
    by (simp add: takeRedial_def backoffFor_def second_def millisecond_def time_sub_id Let_def mul64_id)
qed simp_all


subsection \<open>The source's verdict\<close>

lemma observedState_delivering:
  assumes "source_delivering e stallAfter now"
  shows "\<not> sp_rebuildReader (observedState sd e stallAfter now)"
  using assms by (simp add: observedState_def source_state_def Let_def)

lemma observedState_stalled:
  assumes "se_addTargetAttempts e = 0" and "\<not> source_delivering e stallAfter now" and "se_openedAt e \<noteq> 0"
    and "stallAfter < time_sub now (se_openedAt e)"
  shows "sp_status (observedState sd e stallAfter now) = ConditionFalse"
    and "sp_rebuildReader (observedState sd e stallAfter now) \<or> sp_reason (observedState sd e stallAfter now) = ReasonTransfersNotLanding"
  using assms by (simp_all add: observedState_def source_state_def Let_def)

text \<open>A reopen is asked for only when nothing was sent within the window and the head is stuck, or the reader keeps
  falling behind.\<close>

lemma observedState_rebuilds:
  assumes "sp_rebuildReader (observedState sd e stallAfter now)"
  shows "\<not> source_delivering e stallAfter now \<and> (head_stuck e stallAfter now \<or> recently_aged e stallAfter now)"
  using assms by (auto simp: observedState_def source_state_def Let_def split: if_splits)

lemma observedState_queued [simp]:
  "observedState sd (e\<lparr>se_redialQueued := q\<rparr>) stallAfter now = observedState sd e stallAfter now"
  by (simp add: observedState_def source_delivering_def recently_aged_def head_stuck_def Let_def)

fun reopen :: "source_action \<Rightarrow> bool" where
  "reopen (RebuildReader _) = True"
| "reopen _ = False"

definition reopens :: "source_action list \<Rightarrow> nat" where
  "reopens acts = length (filter reopen acts)"

lemma reopens_simps [simp]:
  "reopens [] = 0" "reopens (a # as) = (if reopen a then 1 else 0) + reopens as" "reopens (as @ bs) = reopens as + reopens bs"
  by (simp_all add: reopens_def)

lemma reopens_pos: "RebuildReader n \<in> set acts \<Longrightarrow> 0 < reopens acts"
  by (force simp: reopens_def filter_empty_conv)

lemma enqueue_redial_acts:
  assumes "enqueue_redial room e = (acts, e')"
  shows "set acts \<subseteq> {AskRedial, ClearRedials}" and "reopens acts = 0"
    and "observedState sd e' stallAfter now = observedState sd e stallAfter now"
  using assms by (auto simp: enqueue_redial_def Let_def)

lemma publish_tick_acts:
  assumes "publish_tick published state w = (acts, w')"
  shows "set acts \<subseteq> {ClearRebuilds, PublishSource state}" and "reopens acts = 0"
    and "swt_rebuilds w' = (if ClearRebuilds \<in> set acts then 0 else swt_rebuilds w)"
    and "PublishSource state \<in> set acts \<or> (\<exists>l. swt_last w = Some l \<and> sourceStateEqual state l)"
  using assms by (auto simp: publish_tick_def Let_def split: if_splits option.splits)

text \<open>A tick reopens, or it releases, or it does neither.\<close>

definition reopened :: "source_tick_env \<Rightarrow> sourceProgressState \<Rightarrow> source_watch \<Rightarrow> source_action list \<Rightarrow> source_watch \<Rightarrow> bool" where
  "reopened env state w acts w' \<longleftrightarrow>
     reopens acts = 1 \<and> RebuildReader (swt_rebuilds w + 1) \<in> set acts \<and> (\<forall>n. RebuildReader n \<in> set acts \<longrightarrow> n = swt_rebuilds w + 1) \<and>
     ClearRebuilds \<notin> set acts \<and> ReleaseReader \<notin> set acts \<and>
     sp_rebuildReader state \<and> swt_rebuilds w < maxReaderRebuilds \<and> swt_rebuilds w' = swt_rebuilds w + 1 \<and>
     (sp_status state = ConditionFalse \<longrightarrow> \<not> writerGone (ste_writer env))"

definition released :: "source_tick_env \<Rightarrow> source_watch \<Rightarrow> source_action list \<Rightarrow> source_watch \<Rightarrow> bool" where
  "released env w acts w' \<longleftrightarrow>
     reopens acts = 0 \<and> writerGone (ste_writer env) \<and> ReleaseReader \<in> set acts \<and> ClearRebuilds \<notin> set acts \<and> swt_rebuilds w' = swt_rebuilds w"

definition kept_reader :: "source_watch \<Rightarrow> source_action list \<Rightarrow> source_watch \<Rightarrow> bool" where
  "kept_reader w acts w' \<longleftrightarrow>
     reopens acts = 0 \<and> ReleaseReader \<notin> set acts \<and> swt_rebuilds w' = (if ClearRebuilds \<in> set acts then 0 else swt_rebuilds w)"

lemma act_on_state_outcome:
  assumes "act_on_state env state w = (acts, w')"
  shows "reopened env state w acts w' \<or> released env w acts w' \<or> kept_reader w acts w'"
proof -
  have "kept_reader w acts w'" if "publish_tick published st w = (acts, w')" for published st
    using publish_tick_acts [OF that] by (auto simp: kept_reader_def)
  moreover have "kept_reader w [] w" by (simp add: kept_reader_def)
  ultimately show ?thesis
    using assms by (auto simp: act_on_state_def reopened_def released_def split: if_splits)
qed

lemma source_tick_outcome:
  assumes "source_tick sd stallAfter env e w = (acts, e', w')"
  shows "reopened env (observedState sd e stallAfter (ste_now env)) w acts w' \<or> released env w acts w' \<or> kept_reader w acts w'"
proof (cases "\<not> swt_running w \<or> attachedToReplacedTarget e (ste_mirror env)")
  case True
  then show ?thesis using assms by (auto simp: source_tick_def kept_reader_def)
next
  case False
  obtain pre e1 where q: "enqueue_redial (ste_queueRoom env) e = (pre, e1)" by fastforce
  obtain post where p: "act_on_state env ((observedState sd e stallAfter (ste_now env))\<lparr>sp_boundInterface := se_boundInterface e1\<rparr>) w = (post, w')"
    and a: "acts = pre @ post"
    using assms False q enqueue_redial_acts(3) [OF q] by (auto simp: source_tick_def split: prod.splits)
  show ?thesis
    using act_on_state_outcome [OF p] enqueue_redial_acts(1,2) [OF q]
    by (auto simp: a reopened_def released_def kept_reader_def)
qed

lemma observedState_rebuilds_false:
  "sp_rebuildReader (observedState sd e stallAfter now) \<Longrightarrow> sp_status (observedState sd e stallAfter now) = ConditionFalse"
  by (auto simp: observedState_def source_state_def Let_def split: if_splits)

subsection \<open>A stalled mirror\<close>

text \<open>A source that has read for a minute and sent nothing, and one whose head has not moved either.\<close>

definition silent_source :: "time \<Rightarrow> source_entry" where
  "silent_source head_at = \<lparr>se_infoStr = ''addr'', se_boundInterface = ''10.0.0.1'', se_openedAt = 1 * second, se_progress = 0,
     se_late = 0, se_lost = 0, se_bytes = 0, se_lastSentAt = None, se_lastCompleted = 0, se_dropped = False, se_redialQueued = False,
     se_skipped = 0, se_resyncGrains = 0, se_agedOutGrains = 0, se_agedOutAt = None, se_lastHead = 7, se_headAdvancedAt = Some head_at,
     se_addTargetAttempts = 0, se_lastError = None, se_postError = None\<rparr>"

definition silent_mirror :: MxlFlowMirror where
  "silent_mirror = (witness_mirror ''m'')\<lparr>mir_status := (mir_status (witness_mirror ''m''))\<lparr>mst_targetInfo := ''addr'',
     mst_conditions := [\<lparr>cond_type = ConditionTypeSourceProgress, cond_status = ConditionFalse, cond_reason = ReasonTransfersNotLanding,
       cond_message = '''', cond_observedGeneration = 1, cond_lastTransitionTime = 30 * second\<rparr>]\<rparr>\<rparr>"

definition silent_source_env :: source_tick_env where
  "silent_source_env = \<lparr>ste_mirror = Inr silent_mirror, ste_queueRoom = True, ste_writer = Some (WriterLive True), ste_claimed = True,
     ste_published = True, ste_now = 60 * second\<rparr>"

definition fresh_watch :: source_watch where
  "fresh_watch = \<lparr>swt_last = None, swt_rebuilds = 0, swt_running = True\<rparr>"

definition silent_target :: watched_target where
  "silent_target = \<lparr>te_commits = 4, te_commitsAtFabricOpen = 4, te_lastCommitAt = None, te_recoveryAttempts = 0,
     te_fabricOpenedAt = Some (2 * second), te_recovering = False\<rparr>"

definition silent_target_env :: target_tick_env where
  "silent_target_env = \<lparr>tte_mirror = Inr silent_mirror, tte_mirror2 = Inr silent_mirror, tte_entry2 = silent_target, tte_stopped = True,
     tte_now = 60 * second\<rparr>"

definition silent_target_watch :: target_watch where
  "silent_target_watch = \<lparr>tw_last = None, tw_watch = \<lparr>hw_openedAt = 2 * second, hw_since = 30 * second\<rparr>, tw_running = True\<rparr>"

definition default_times :: target_times where
  "default_times = \<lparr>tt_degradedAfter = defaultDegradedAfter, tt_stuckHandshakeAfter = defaultStuckHandshakeAfter,
     tt_sendingIntoSilenceAfter = defaultSendingIntoSilenceAfter\<rparr>"

definition stuck_tick :: "source_action list \<times> source_entry \<times> source_watch" where
  "stuck_tick = source_tick (\<lambda>_. ''20s'') defaultReaderStallAfter silent_source_env (silent_source (10 * second)) fresh_watch"

definition silent_tick :: "source_action list \<times> source_entry \<times> source_watch" where
  "silent_tick = source_tick (\<lambda>_. ''20s'') defaultReaderStallAfter silent_source_env (silent_source (59 * second)) fresh_watch"

definition silent_target_tick :: "target_action list \<times> watched_target \<times> target_watch" where
  "silent_target_tick = target_tick default_times silent_target_env silent_target silent_target_watch"

lemma stuck_tick_reopens: "RebuildReader 1 \<in> set (fst stuck_tick)"
  by code_simp

lemma silent_target_recovers: "fst silent_target_tick = [Recover]"
  by code_simp

text \<open>A reader is reopened only when it has delivered nothing within the stall window and its head is stuck or it keeps
  aging out, within the cap and on a flow with a writer; it is released only when the flow has no writer.\<close>

theorem reader_is_reopened_only_when_stalled:
  assumes "source_tick sd stallAfter env e w = (acts, e', w')"
  shows "(RebuildReader n \<in> set acts \<longrightarrow>
            \<not> source_delivering e stallAfter (ste_now env) \<and> (head_stuck e stallAfter (ste_now env) \<or> recently_aged e stallAfter (ste_now env)) \<and>
            n = swt_rebuilds w + 1 \<and> n \<le> maxReaderRebuilds \<and> \<not> writerGone (ste_writer env)) \<and>
         (ReleaseReader \<in> set acts \<longrightarrow> writerGone (ste_writer env))"
  using source_tick_outcome [OF assms]
proof (elim disjE)
  assume r: "reopened env (observedState sd e stallAfter (ste_now env)) w acts w'"
  then have "sp_rebuildReader (observedState sd e stallAfter (ste_now env))" by (simp add: reopened_def)
  from observedState_rebuilds [OF this] observedState_rebuilds_false [OF this] r show ?thesis
    by (auto simp: reopened_def)
qed (auto simp: released_def kept_reader_def dest: reopens_pos)

theorem reader_is_reopened_only_when_stalled_witness:
  "RebuildReader 1 \<in> set (fst stuck_tick) \<and> \<not> source_delivering (silent_source (10 * second)) defaultReaderStallAfter (60 * second) \<and>
   (head_stuck (silent_source (10 * second)) defaultReaderStallAfter (60 * second) \<or>
    recently_aged (silent_source (10 * second)) defaultReaderStallAfter (60 * second))"
  using reader_is_reopened_only_when_stalled [of "\<lambda>_. ''20s''" defaultReaderStallAfter silent_source_env "silent_source (10 * second)"
      fresh_watch "fst stuck_tick" "fst (snd stuck_tick)" "snd (snd stuck_tick)" 1] stuck_tick_reopens
  by (simp add: stuck_tick_def silent_source_env_def)

subsection \<open>Runs of the source's watchdog\<close>

text \<open>A tick of a run: what the API server, libmxl and the queue answer, the entry as the reader was opened, what the transfer
  loop did on it until the tick, and what was last published. The reopens of a source are counted across its flushers:
  every reopen starts a new one, on a new entry.\<close>

record source_turn =
  st_env :: source_tick_env
  st_opened :: source_entry
  st_events :: "(time \<times> transfer_event) list"
  st_last :: "sourceProgressState option"

definition recorded :: "(mxl_error \<Rightarrow> string) \<Rightarrow> source_turn \<Rightarrow> source_entry" where
  "recorded error_of t = fold (\<lambda>(at, ev). note_event error_of at ev) (st_events t) (st_opened t)"

fun source_run :: "(duration \<Rightarrow> string) \<Rightarrow> (mxl_error \<Rightarrow> string) \<Rightarrow> duration \<Rightarrow> source_turn list \<Rightarrow> nat \<Rightarrow> source_action list" where
  "source_run sd error_of stallAfter [] n = []"
| "source_run sd error_of stallAfter (t # turns) n =
     (case source_tick sd stallAfter (st_env t) (recorded error_of t) \<lparr>swt_last = st_last t, swt_rebuilds = n, swt_running = True\<rparr> of
        (acts, _, w') \<Rightarrow> acts @ source_run sd error_of stallAfter turns (swt_rebuilds w'))"

text \<open>A turn on which no transfer has completed since the reader was opened.\<close>

fun completes :: "transfer_event \<Rightarrow> bool" where
  "completes (Completed _ _ _) = True"
| "completes _ = False"

definition undelivered :: "source_turn \<Rightarrow> bool" where
  "undelivered t \<longleftrightarrow> se_progress (st_opened t) = 0 \<and> list_all (\<lambda>(_, ev). \<not> completes ev) (st_events t)"

lemma note_event_progress: "\<not> completes ev \<Longrightarrow> se_progress (note_event error_of at ev e) = se_progress e"
  by (cases "(error_of, at, ev, e)" rule: note_event.cases) auto

lemma undelivered_progress: "undelivered t \<Longrightarrow> se_progress (recorded error_of t) = 0"
proof -
  have "list_all (\<lambda>(_, ev). \<not> completes ev) evs \<Longrightarrow>
      se_progress (fold (\<lambda>(at, ev). note_event error_of at ev) evs e) = se_progress e" for evs e
    by (induction evs arbitrary: e) (auto simp: note_event_progress)
  then show "undelivered t \<Longrightarrow> se_progress (recorded error_of t) = 0" by (simp add: undelivered_def recorded_def)
qed

text \<open>Only a completed transfer ends a run of reopens: the condition that clears their count is published of an entry
  with progress.\<close>

lemma clears_on_progress:
  assumes "source_tick sd stallAfter env e w = (acts, e', w')" "ClearRebuilds \<in> set acts"
  shows "0 < se_progress e"
proof -
  have recovered: "0 < se_progress e"
    if "sp_status (observedState sd e stallAfter now) = ConditionTrue" "sp_reason (observedState sd e stallAfter now) = ReasonRecovered" for now
    using that by (auto simp: observedState_def source_state_def watchdog_reasons Let_def split: if_splits)
  obtain pre e1 where q: "enqueue_redial (ste_queueRoom env) e = (pre, e1)" by fastforce
  define state where "state = (observedState sd e stallAfter (ste_now env))\<lparr>sp_boundInterface := se_boundInterface e1\<rparr>"
  obtain post where p: "act_on_state env state w = (post, w')" "ClearRebuilds \<in> set post"
    using assms q enqueue_redial_acts(1,3) [OF q]
    by (auto simp: source_tick_def state_def split: prod.splits if_splits)
  then have "sp_status state = ConditionTrue \<and> sp_reason state = ReasonRecovered \<or> sp_rebuildReader state \<and> sp_status state = ConditionTrue"
    by (auto simp: act_on_state_def publish_tick_def cap_reached_state_def Let_def split: if_splits option.splits)
  then show ?thesis
    using recovered observedState_rebuilds_false [of sd e stallAfter "ste_now env"] by (auto simp: state_def)
qed

text \<open>C40. However long a source stays wedged, its watchdog reopens the reader at most \<open>maxReaderRebuilds\<close> times over any
  turns on which no transfer has completed since the reader was opened: a fresh reader that only reports its handshake
  does not start the count again. (A reopen because the origin has rotated is not the watchdog's and is not counted.)\<close>

theorem reader_reopens_are_bounded:
  assumes "list_all undelivered turns" and "n \<le> maxReaderRebuilds"
  shows "n + reopens (source_run sd error_of stallAfter turns n) \<le> maxReaderRebuilds"
  using assms
proof (induction turns arbitrary: n)
  case Nil
  then show ?case by simp
next
  case (Cons t turns)
  let ?w = "\<lparr>swt_last = st_last t, swt_rebuilds = n, swt_running = True\<rparr>"
  obtain acts e' w' where s: "source_tick sd stallAfter (st_env t) (recorded error_of t) ?w = (acts, e', w')" by (metis prod_cases3)
  have clear: "ClearRebuilds \<notin> set acts" using clears_on_progress [OF s] undelivered_progress [of t error_of] Cons.prems(1) by auto
  have "swt_rebuilds w' = n + reopens acts \<and> swt_rebuilds w' \<le> maxReaderRebuilds"
    using source_tick_outcome [OF s]
    by (elim disjE) (use Cons.prems(2) clear in \<open>simp_all add: reopened_def released_def kept_reader_def\<close>)
  then show ?case using Cons.IH [of "swt_rebuilds w'"] Cons.prems(1) s by simp
qed

definition stuck_turn :: source_turn where
  "stuck_turn = \<lparr>st_env = silent_source_env, st_opened = silent_source (10 * second), st_events = [(11 * second, SawHead 7)], st_last = None\<rparr>"

text \<open>A reader just opened, which reports its handshake.\<close>

definition fresh_turn :: source_turn where
  "fresh_turn = stuck_turn\<lparr>st_opened := (silent_source (59 * second))\<lparr>se_openedAt := 59 * second\<rparr>, st_events := []\<rparr>"

definition stuck_run :: "nat \<Rightarrow> source_action list" where
  "stuck_run k = source_run (\<lambda>_. ''20s'') (\<lambda>_. ''error'') defaultReaderStallAfter (concat (replicate k [fresh_turn, stuck_turn])) 0"

lemma stuck_run_reopens: "reopens (stuck_run 7) = 5"
  by code_simp

theorem reader_reopens_are_bounded_witness: "reopens (stuck_run 7) = 5 \<and> 0 + reopens (stuck_run 7) \<le> maxReaderRebuilds"
proof -
  have "list_all undelivered (concat (replicate 7 [fresh_turn, stuck_turn]))" by code_simp
  from reader_reopens_are_bounded [OF this, of 0] show ?thesis using stuck_run_reopens unfolding stuck_run_def by blast
qed

subsection \<open>The two halves together\<close>

definition source_reason :: "MxlFlowMirror \<Rightarrow> string option" where
  "source_reason m =
     map_option cond_reason (find_first (\<lambda>c. cond_type c = ConditionTypeSourceProgress) (mst_conditions (mir_status m)))"

lemma sourceIsDelivering_iff:
  "sourceIsDelivering m openedAt \<longleftrightarrow>
     (\<exists>t. mst_lastSentAt (mir_status m) = Some t \<and> openedAt < t) \<or> source_reason m = Some ReasonTransfersNotLanding"
  by (auto simp: sourceIsDelivering_def source_reason_def split: option.splits)

text \<open>A fabric side is wedged only on evidence that the source sends: into a side that nothing has reached, or long after
  the last arrival.\<close>

lemma wedged_has_evidence:
  assumes "wedged cfg mirror now e hw = (True, hw')"
  shows "\<exists>(m :: MxlFlowMirror) openedAt. mirror = Inr m \<and> te_fabricOpenedAt e = Some openedAt \<and>
           (te_commits e = te_commitsAtFabricOpen e \<and> sourceIsDelivering m openedAt \<or>
            (\<exists>sent lastCommit. mst_lastSentAt (mir_status m) = Some sent \<and> te_lastCommitAt e = Some lastCommit \<and>
               tt_stuckHandshakeAfter cfg < time_sub sent lastCommit))"
  using assms by (auto simp: wedged_def Let_def split: option.splits sum.splits if_splits)

text \<open>When nothing has arrived since the fabric side opened and the source has said for the whole window that it sends, the
  target acts on it.\<close>

lemma silence_is_wedged:
  assumes "te_fabricOpenedAt e = Some openedAt" "te_commits e = te_commitsAtFabricOpen e"
    and "source_reason m = Some ReasonTransfersNotLanding" "hw_since hw \<noteq> 0" "hw_openedAt hw = openedAt"
    and "tt_sendingIntoSilenceAfter cfg < time_sub now (hw_since hw)"
  shows "wedged cfg (Inr m) now e hw = (True, hw)"
  using assms by (simp add: wedged_def sourceIsDelivering_iff sendingSince_def Let_def)

lemma target_acts_on_silence:
  assumes "tw_running tw" "\<not> te_recovering t" "tte_mirror env = Inr m" "tte_mirror2 env = Inr m" "tte_entry2 env = t"
    and "wedged cfg (Inr m) (tte_now env) t (tw_watch tw) = (True, tw_watch tw)"
    and "target_tick cfg env t tw = (acts, t', tw')"
  shows "acts = [Recover] \<or> acts = [PublishFailed ReasonStuckHandshakeCapReached, DropEntry (tte_stopped env)]"
  using assms by (auto simp: target_tick_def split: if_splits)

text \<open>What a source stands by: published by this tick, or by an earlier one and unchanged.\<close>

definition stands_by :: "source_action list \<Rightarrow> source_watch \<Rightarrow> sourceProgressState \<Rightarrow> bool" where
  "stands_by acts w state \<longleftrightarrow> PublishSource state \<in> set acts \<or> (\<exists>l. swt_last w = Some l \<and> sourceStateEqual state l)"

text \<open>The verdicts on which somebody else acts: the target, the reconciler that adds the target again, the operator of the
  cluster once the reopens are used up.\<close>

definition handed_over :: "sourceProgressState \<Rightarrow> bool" where
  "handed_over state \<longleftrightarrow> sp_status state = ConditionFalse \<and>
     sp_reason state \<in> {ReasonTransfersNotLanding, ReasonAddTargetFailed, ReasonReaderRebuildCapReached}"

lemma observedState_verdict:
  assumes "\<not> source_delivering e stallAfter now" "se_openedAt e \<noteq> 0" "stallAfter < time_sub now (se_openedAt e)"
  shows "sp_status (observedState sd e stallAfter now) = ConditionFalse \<and>
    (sp_rebuildReader (observedState sd e stallAfter now) \<or>
     (if se_addTargetAttempts e = 0 then sp_reason (observedState sd e stallAfter now) = ReasonTransfersNotLanding
      else sp_reason (observedState sd e stallAfter now) = ReasonAddTargetFailed))"
  using assms by (simp add: observedState_def source_state_def Let_def)

lemma act_on_stalled:
  assumes "sp_status state = ConditionFalse"
    "sp_rebuildReader state \<or> sp_reason state = ReasonTransfersNotLanding \<or> sp_reason state = ReasonAddTargetFailed"
    and "act_on_state env state w = (acts, w')"
  shows "ReleaseReader \<in> set acts \<or> RebuildReader (swt_rebuilds w + 1) \<in> set acts \<or> \<not> ste_claimed env \<or>
    (\<exists>st. handed_over st \<and> stands_by acts w st \<and>
       (if sp_rebuildReader state then maxReaderRebuilds \<le> swt_rebuilds w \<and> sp_reason st = ReasonReaderRebuildCapReached else st = state))"
proof -
  have pub: "stands_by acts w st" if "publish_tick published st w = (acts, w')" for published st
    using publish_tick_acts(4) [OF that] by (auto simp: stands_by_def)
  show ?thesis
  proof (cases "writerGone (ste_writer env)")
    case False
    show ?thesis
    proof (cases "sp_rebuildReader state")
      case True
      have "handed_over (cap_reached_state state)" "sp_reason (cap_reached_state state) = ReasonReaderRebuildCapReached"
        using assms(1) by (simp_all add: handed_over_def cap_reached_state_def)
      then show ?thesis using assms(1,3) True False pub by (auto simp: act_on_state_def split: if_splits)
    next
      case no: False
      have "handed_over state" using assms(1,2) no by (auto simp: handed_over_def)
      then show ?thesis using assms(1,3) no False pub by (auto simp: act_on_state_def split: if_splits)
    qed
  qed (use assms in \<open>auto simp: act_on_state_def\<close>)
qed


lemma silent_source_stalled:
  "\<not> source_delivering (silent_source h) stallAfter now" "se_openedAt (silent_source h) \<noteq> 0"
  "defaultReaderStallAfter < time_sub (ste_now silent_source_env) (se_openedAt (silent_source h))"
  by (simp_all add: silent_source_def source_delivering_def second_def defaultReaderStallAfter_def silent_source_env_def time_sub_id)




end
