(* ===== verification/Spec2Isabelle.thy ===== *)
theory Spec2Isabelle
  imports Placement_Control Mirror_Lifecycle Flow_Collector Lease_GC Domain_Status Receiver_Safety Merge_Run Merge_Progress
    Merge_Serving Agent_Sets Intent_Safety Intent_Handover Publisher_Safety Mirror_Delivery Watchdog_Safety
begin

text \<open>
  A verification of the control plane of mxl-k8s, the Kubernetes operator that moves MXL media flows
  between nodes. The sources are under \<^verbatim>\<open>src/\<close>.

  \<^bold>\<open>The program.\<close> An agent on each node publishes the flows it finds as \<^verbatim>\<open>MxlFlow\<close> objects and renews a
  Lease per flow it originates. Consumers ask for flows, by an \<^verbatim>\<open>MxlReceiver\<close> or on demand through the
  agent; a wanted copy is an \<^verbatim>\<open>MxlFlowMirror\<close> from a source node to a target node. The operator
  (\<^verbatim>\<open>src/operator\<close>) is a set of reconcilers over these objects: it places each mirror on a pair of
  fabric interfaces, follows the flow's origin, and collects mirrors, flows, Leases, domain
  entries and node capabilities that nothing justifies. A gateway per node carries the data. This
  library models the operator's core and the shared API package.

  \<^bold>\<open>How the code is modelled.\<close> Go structs are records, closed string enumerations datatypes, functions
  HOL functions of the same name, loops structural recursion. The API server, client-go and
  apimachinery are not in the repository: every read a reconciler makes is a field of its environment
  record, every write appends to the log of the effect type \<open>io\<close> and answers what the environment
  says, so a theorem about a reconcile holds for every API server. What \<^verbatim>\<open>api/meta\<close> does with
  condition lists is the parameter \<open>meta_api\<close>, with its documented behaviour as the named hypothesis
  \<open>meta_api_ok\<close>; \<^verbatim>\<open>retry.RetryOnConflict\<close> is a parameter with \<open>retry_ok\<close>; both are satisfied by
  implementations given here (\<open>list_meta_api\<close>, \<open>bounded_retry\<close>). Whether an address is link-local and how
  a quantity parses are parameters too. A reconcile sees one instant \<open>now\<close>. int64 rates and durations
  wrap as in Go. Log lines are not modelled; events are writes.

  \<^bold>\<open>Theories and what they show.\<close>
  \<^item> \<open>Mxl_Prelude\<close>: errors, the effect type, int64, time, lists.
  \<^item> \<open>Mxl_Names\<close> (\<^verbatim>\<open>api/v1alpha1/flowref.go, lease.go, mirror.go\<close>): object names and their parsers; round
    trips, injectivity, and the two name clashes the code allows.
  \<^item> \<open>Api_Types\<close> (\<^verbatim>\<open>api/v1alpha1/*_types.go\<close>): the custom resources, conditions, shared helpers.
  \<^item> \<open>Selection\<close> (\<^verbatim>\<open>api/selection\<close>): which provider two nodes use.
  \<^item> \<open>Origin\<close> (\<^verbatim>\<open>api/v1alpha1/origin.go, operator/internal/leasecheck\<close>): which node holds a flow; the locale
    \<open>lease_checker\<close> is the interface between the two, interpreted on \<open>isFresh\<close>.
  \<^item> \<open>Go_Sort\<close>: \<^verbatim>\<open>slices.SortFunc\<close> and \<^verbatim>\<open>cmp\<close>; the locale \<open>go_order\<close> says what a comparison function must
    satisfy, and shows the head of the sorted list independent of the algorithm.
  \<^item> \<open>Planner\<close>, \<open>Planner_Choice\<close>, \<open>Planner_Capacity\<close> (\<^verbatim>\<open>operator/internal/placement/planner.go\<close>): the planner;
    what is chosen, that the ledger is a sum, and that under the hold policy no interface and no
    budget is ever committed beyond its share.
  \<^item> \<open>Placement_Control\<close> (\<^verbatim>\<open>operator/internal/placement/controller.go, cmd/mxl-operator/placement.go\<close>): the
    controller around the planner; when it writes, what its ledger counts, that it comes back to
    what is unplaced and comes to rest on what is placed.
  \<^item> \<open>Mirror_Lifecycle\<close> (\<^verbatim>\<open>operator/internal/mirror/controller.go\<close>): claim, source, repoint, conditions, collect;
    when a mirror is deleted and when it is not, and that the grace period is exact.
  \<^item> \<open>Flow_Collector\<close> (\<^verbatim>\<open>operator/internal/flow/controller.go\<close>): the verdict on a flow, the status write, the
    collection, and a race in which a flow that came back is deleted.
  \<^item> \<open>Lease_GC\<close> (\<^verbatim>\<open>operator/internal/leasegc\<close>): when a Lease is collected, against the Lease checker's window.
  \<^item> \<open>Domain_Status\<close> (\<^verbatim>\<open>operator/internal/domain, operator/internal/nodecaps\<close>): domain conditions, departed nodes.
  \<^item> this theory: properties that span components.

  \<^bold>\<open>Bounds.\<close> No model uses fuel: every loop of the sources modelled here runs over a list. Hypotheses
  bound durations by 2^62 ns and capacities by 2^63, where the wrap-around of the code would otherwise
  be reached; the well-formedness of a node's report (\<open>node_ok\<close>) is what the list-map keys of the
  custom resource enforce, plus one capacity per port.

  \<^bold>\<open>Not modelled.\<close> The receiver and redundancy-set controllers, the gateway's merge policy and the agent's
  tracker are planned next, in this order. Left out for good: the parts that drive libmxl through cgo,
  fanotify, mounts, sockets, CSI, hardware probes and Prometheus exporters, whose behaviour is that of
  the system below them; generated deep copies; manager wiring (\<^verbatim>\<open>SetupWithManager\<close>, \<^verbatim>\<open>main\<close>).
\<close>

section \<open>Properties that span components\<close>

subsection \<open>The flow controller and ResolveOrigin\<close>

lemma resolveLocations_fresh:
  "resolveLocations (Some fr) name locs saw = Inr r \<Longrightarrow>
   (res_found r \<longleftrightarrow> list_ex (fresh_at fr name) (origins locs)) \<and>
   (res_allStale r \<longleftrightarrow> \<not> list_ex (fresh_at fr name) (origins locs) \<and> (saw \<or> origins locs \<noteq> []))"
  by (induction locs arbitrary: saw)
    (auto simp: no_origin_def fresh_at_def split: if_splits sum.splits prod.splits)

text \<open>The two places that judge a flow's origin agree. Whenever both answer, on the locations of one
  flow and with one Lease checker, the flow controller calls the origin fresh exactly when
  ResolveOrigin, which the receiver and the mirror controller consult, finds one; and it calls it
  claimed but not fresh exactly when ResolveOrigin reports every origin stale. So the OriginFresh
  condition a user reads and the source the data plane is pointed at cannot contradict each other.\<close>

theorem judge_agrees_with_resolveOrigin:
  assumes "fc_lease cfg = Some fr" "judge cfg env f (fst_locations (flow_status f)) = Inr v"
    "resolveOrigin (Some f) (Some fr) = Inr r"
  shows "(v_originFresh v \<longleftrightarrow> res_found r) \<and> (v_originClaimed v \<and> \<not> v_originFresh v \<longleftrightarrow> res_allStale r)"
  using judge_leased[OF assms(1,2)] resolveLocations_fresh[of fr "flowref_name (flow_ref f)"] assms(3)
  by (auto simp: resolveOrigin_def)

theorem judge_agrees_with_resolveOrigin_witness:
  "let v = zero_verdict\<lparr>v_live := True, v_reason := ReasonOriginLive, v_message := ''origin on b holds a renewed lease'',
             v_deadline := 10000 * second, v_originClaimed := True, v_originFresh := True\<rparr>;
       r = no_origin\<lparr>res_node := ''b'', res_found := True, res_deadline := 10000 * second\<rparr> in
   (v_originFresh v \<longleftrightarrow> res_found r) \<and> (v_originClaimed v \<and> \<not> v_originFresh v \<longleftrightarrow> res_allStale r)"
  unfolding Let_def
  by (rule judge_agrees_with_resolveOrigin[where cfg = example_flow_config and fr = fresh_lease and f = republished_flow and
        env = "example_flow_env dead_flow dead_flow"])
    (simp add: example_flow_config_def, code_simp, code_simp)

subsection \<open>The receiver controller and the mirror controller\<close>

text \<open>C15. What the receiver controller creates, the mirror controller recognises. A mirror created for a target is found
  claimed by the claim check of the mirror controller for as long as its claimant exists under the uid it had: the
  receiver itself for a target in its own namespace, the consumer pod for a target in another.\<close>

theorem created_mirror_is_claimed:
  assumes "if nt_namespace t = om_namespace (recv_meta recv)
     then rd_receiver (me_reader env) (receiver_key recv) = Inr (recv_meta recv)
     else nt_pod t = Some pod \<and> rd_pod (me_reader env) (objectKey (pod_meta pod)) = Inr (pod_meta pod)"
  shows "\<exists>j. claim mcfg env (desired_mirror recv sourceNode t p) = Inr j \<and> j_ok j \<and>
     j_reason j = (if nt_namespace t = om_namespace (recv_meta recv) then ReasonReceiverOwned else ReasonRequestorLive)"
proof (cases "nt_namespace t = om_namespace (recv_meta recv)")
  case True
  with assms show ?thesis
    by (simp add: claim_def claimFrom_def desired_mirror_def new_meta_def ownerRefFor_def receiver_key_def objectKey_def Let_def)
next
  case False
  with assms show ?thesis
    by (simp add: claim_def claimFrom_def desired_mirror_def new_meta_def target_requestor_def claim_requestor_def objectKey_def Let_def)
qed

definition example_claim_env :: mirror_env where
  "example_claim_env = \<lparr>me_mirror = (\<lambda>_. Inl ENotFound),
     me_reader = \<lparr>rd_receiver = (\<lambda>_. Inr (recv_meta example_receiver)), rd_set = (\<lambda>_. Inl ENotFound), rd_pod = (\<lambda>_. Inl ENotFound)\<rparr>,
     me_flow = (\<lambda>_. Inl ENotFound), me_node = (\<lambda>_. Inl ENotFound), me_caps = (\<lambda>_. Inl ENotFound), me_update = Inr,
     me_repoint = (\<lambda>m _ _. Inr m), me_retry = bounded_retry 5 0, me_reread = (\<lambda>_. Inl ENotFound),
     me_updateStatus = (\<lambda>_ _. Inr ()), me_apply = (\<lambda>_. Inr ''2''), me_delete = (\<lambda>_. Inr ())\<rparr>"

theorem created_mirror_is_claimed_witness:
  "\<exists>j. claim \<lparr>mc_recorder = True, mc_lease = None, mc_gracePeriod = 0, mc_apiReader = None, mc_redundancySets = False\<rparr> example_claim_env
     (desired_mirror example_receiver ''b'' \<lparr>nt_node = ''c'', nt_namespace = ''ns'', nt_pod = None\<rparr> ProviderTCP) = Inr j \<and> j_ok j \<and>
     j_reason j = (if nt_namespace \<lparr>nt_node = ''c'', nt_namespace = ''ns'', nt_pod = None\<rparr> = om_namespace (recv_meta example_receiver)
                   then ReasonReceiverOwned else ReasonRequestorLive)"
  by (rule created_mirror_is_claimed) (simp add: example_claim_env_def example_receiver_def)

end
